(* ===== verification/Prelude.thy ===== *)
theory Prelude
  imports Main "HOL-Library.AList"
begin

text \<open>
  Shared ground of the development: fallible results as sums, the fragment of Rust's
  \<open>str\<close>/\<open>char\<close> library the code uses, points in time, JSON values, and the lemma
  collections the component theories extend.

  A Rust \<open>&str\<close> is a \<^typ>\<open>string\<close> whose characters are Unicode scalar values; Isabelle's
  \<^typ>\<open>char\<close> holds the first 256 of them (Latin-1), which covers every character the
  code distinguishes. Byte offsets of the source (\<open>find\<close>, slices) are used there only
  to cut strings at characters just found, so they become list positions here.
\<close>

section \<open>Lemma collections\<close>

named_theorems rust_str "facts on the modelled string library"
named_theorems result_elims "elimination facts for fallible results"

section \<open>Results\<close>

text \<open>\<open>Result<T, E>\<close> is \<open>'e + 'a\<close>; the question-mark operator is \<open>rbind\<close>.\<close>

definition rbind :: "'e + 'a \<Rightarrow> ('a \<Rightarrow> 'e + 'b) \<Rightarrow> 'e + 'b" where
  "rbind m f = (case m of Inl e \<Rightarrow> Inl e | Inr x \<Rightarrow> f x)"

definition ensure :: "bool \<Rightarrow> 'e \<Rightarrow> 'e + unit" where
  "ensure b e = (if b then Inr () else Inl e)"

lemma rbind_simps [simp]:
  "rbind (Inl e) f = Inl e"
  "rbind (Inr x) f = f x"
  by (simp_all add: rbind_def)

lemma rbind_eq_Inr_iff [simp]:
  "rbind m f = Inr y \<longleftrightarrow> (\<exists>x. m = Inr x \<and> f x = Inr y)"
  by (cases m) simp_all

lemma rbind_eq_Inl_iff [result_elims]:
  "rbind m f = Inl e \<longleftrightarrow> m = Inl e \<or> (\<exists>x. m = Inr x \<and> f x = Inl e)"
  by (cases m) simp_all

lemma rbind_assoc: "rbind (rbind m f) g = rbind m (\<lambda>x. rbind (f x) g)"
  by (cases m) simp_all

lemma ensure_eq_Inr [simp]: "ensure b e = Inr u \<longleftrightarrow> b"
  by (simp add: ensure_def)

lemma ensure_eq_Inl [simp]: "ensure b e = Inl e' \<longleftrightarrow> \<not> b \<and> e' = e"
  by (auto simp: ensure_def)

text \<open>\<open>Option::unwrap_or\<close>.\<close>

definition unwrap_or :: "'a option \<Rightarrow> 'a \<Rightarrow> 'a" where
  "unwrap_or m d = (case m of None \<Rightarrow> d | Some x \<Rightarrow> x)"

lemma unwrap_or_simps [simp]:
  "unwrap_or None d = d"
  "unwrap_or (Some x) d = x"
  by (simp_all add: unwrap_or_def)

text \<open>\<open>Option::is_some_and\<close> and \<open>Option::is_none_or\<close>.\<close>

definition is_some_and :: "'a option \<Rightarrow> ('a \<Rightarrow> bool) \<Rightarrow> bool" where
  "is_some_and m P = (case m of None \<Rightarrow> False | Some x \<Rightarrow> P x)"

definition is_none_or :: "'a option \<Rightarrow> ('a \<Rightarrow> bool) \<Rightarrow> bool" where
  "is_none_or m P = (case m of None \<Rightarrow> True | Some x \<Rightarrow> P x)"

lemma is_some_and_simps [simp]:
  "is_some_and None P = False"
  "is_some_and (Some x) P = P x"
  by (simp_all add: is_some_and_def)

lemma is_none_or_simps [simp]:
  "is_none_or None P = True"
  "is_none_or (Some x) P = P x"
  by (simp_all add: is_none_or_def)

text \<open>\<open>Option::or_else\<close>, \<open>Option::filter\<close>.\<close>

definition or_else :: "'a option \<Rightarrow> 'a option \<Rightarrow> 'a option" where
  "or_else m n = (case m of None \<Rightarrow> n | Some x \<Rightarrow> Some x)"

definition opt_filter :: "('a \<Rightarrow> bool) \<Rightarrow> 'a option \<Rightarrow> 'a option" where
  "opt_filter P m = (case m of None \<Rightarrow> None | Some x \<Rightarrow> if P x then Some x else None)"

lemma or_else_simps [simp]:
  "or_else None n = n"
  "or_else (Some x) n = Some x"
  by (simp_all add: or_else_def)

lemma opt_filter_simps [simp]:
  "opt_filter P None = None"
  "opt_filter P (Some x) = (if P x then Some x else None)"
  by (simp_all add: opt_filter_def)

lemma opt_filter_eq_Some: "opt_filter P m = Some x \<longleftrightarrow> m = Some x \<and> P x"
  by (cases m) auto

text \<open>
  Rust orders \<open>Option\<close> with \<open>None\<close> below every \<open>Some\<close>: \<open>opt_less a b\<close> is \<open>a < b\<close>.
\<close>

fun opt_less :: "('a::linorder) option \<Rightarrow> 'a option \<Rightarrow> bool" where
  "opt_less _ None = False"
| "opt_less None (Some _) = True"
| "opt_less (Some a) (Some b) = (a < b)"

lemma opt_less_irrefl [simp]: "\<not> opt_less a a"
  by (cases a) simp_all

text \<open>\<open>Iterator::max_by_key\<close>: the last of the greatest.\<close>

fun max_by_key :: "('a \<Rightarrow> 'k::linorder) \<Rightarrow> 'a list \<Rightarrow> 'a option" where
  "max_by_key key [] = None"
| "max_by_key key (x # xs) =
     (case max_by_key key xs of
        None \<Rightarrow> Some x
      | Some y \<Rightarrow> if key y \<ge> key x then Some y else Some x)"

lemma max_by_key_in: "max_by_key key xs = Some x \<Longrightarrow> x \<in> set xs"
  by (induction xs arbitrary: x) (auto split: option.splits if_splits)

section \<open>Characters\<close>

definition code :: "char \<Rightarrow> nat" where
  "code c = of_char c"

text \<open>\<open>char::is_whitespace\<close> (White\_Space property, below U+0100).\<close>

definition is_whitespace :: "char \<Rightarrow> bool" where
  "is_whitespace c = (9 \<le> code c \<and> code c \<le> 13 \<or> code c = 32 \<or> code c = 133 \<or> code c = 160)"

text \<open>\<open>char::is_control\<close> (below U+0100).\<close>

definition is_control :: "char \<Rightarrow> bool" where
  "is_control c \<longleftrightarrow> code c \<le> 31 \<or> 127 \<le> code c \<and> code c \<le> 159"

definition is_ascii_digit :: "char \<Rightarrow> bool" where
  "is_ascii_digit c = (48 \<le> code c \<and> code c \<le> 57)"

definition is_ascii_lowercase :: "char \<Rightarrow> bool" where
  "is_ascii_lowercase c = (97 \<le> code c \<and> code c \<le> 122)"

definition is_ascii_uppercase :: "char \<Rightarrow> bool" where
  "is_ascii_uppercase c = (65 \<le> code c \<and> code c \<le> 90)"

definition is_ascii_alphanumeric :: "char \<Rightarrow> bool" where
  "is_ascii_alphanumeric c = (is_ascii_digit c \<or> is_ascii_lowercase c \<or> is_ascii_uppercase c)"

definition to_ascii_lowercase :: "char \<Rightarrow> char" where
  "to_ascii_lowercase c = (if is_ascii_uppercase c then char_of (code c + 32) else c)"

definition to_ascii_uppercase :: "char \<Rightarrow> char" where
  "to_ascii_uppercase c = (if is_ascii_lowercase c then char_of (code c - 32) else c)"

text \<open>\<open>str::to_lowercase\<close> and \<open>str::to_uppercase\<close> below U+0100.\<close>

definition char_lower :: "char \<Rightarrow> char" where
  "char_lower c =
     (if is_ascii_uppercase c \<or> (192 \<le> code c \<and> code c \<le> 222 \<and> code c \<noteq> 215)
      then char_of (code c + 32) else c)"

definition to_lowercase :: "string \<Rightarrow> string" where
  "to_lowercase s = map char_lower s"

definition char_upper :: "char \<Rightarrow> string" where
  "char_upper c =
     (if is_ascii_lowercase c \<or> (224 \<le> code c \<and> code c \<le> 254 \<and> code c \<noteq> 247)
      then [char_of (code c - 32)]
      else if code c = 223 then ''SS'' else [c])"

definition to_uppercase :: "string \<Rightarrow> string" where
  "to_uppercase s = concat (map char_upper s)"

definition eq_ignore_ascii_case :: "string \<Rightarrow> string \<Rightarrow> bool" where
  "eq_ignore_ascii_case a b = (map to_ascii_lowercase a = map to_ascii_lowercase b)"

text \<open>\<open>str::len\<close>: the length in bytes of the UTF-8 encoding.\<close>

definition byte_len :: "string \<Rightarrow> nat" where
  "byte_len s = sum_list (map (\<lambda>c. if code c < 128 then 1 else 2) s)"

section \<open>Strings\<close>

definition trim_start_matches :: "(char \<Rightarrow> bool) \<Rightarrow> string \<Rightarrow> string" where
  "trim_start_matches p s = dropWhile p s"

definition trim_end_matches :: "(char \<Rightarrow> bool) \<Rightarrow> string \<Rightarrow> string" where
  "trim_end_matches p s = rev (dropWhile p (rev s))"

definition trim_matches :: "(char \<Rightarrow> bool) \<Rightarrow> string \<Rightarrow> string" where
  "trim_matches p s = trim_end_matches p (trim_start_matches p s)"

definition trim :: "string \<Rightarrow> string" where
  "trim s = trim_matches is_whitespace s"

definition trim_end :: "string \<Rightarrow> string" where
  "trim_end s = trim_end_matches is_whitespace s"

fun strip_prefix :: "string \<Rightarrow> string \<Rightarrow> string option" where
  "strip_prefix [] s = Some s"
| "strip_prefix (p # ps) [] = None"
| "strip_prefix (p # ps) (c # cs) = (if p = c then strip_prefix ps cs else None)"

definition starts_with :: "string \<Rightarrow> string \<Rightarrow> bool" where
  "starts_with s p = (strip_prefix p s \<noteq> None)"

definition strip_suffix :: "string \<Rightarrow> string \<Rightarrow> string option" where
  "strip_suffix p s = map_option rev (strip_prefix (rev p) (rev s))"

text \<open>\<open>str::find\<close> with a character: what stands before it and after it.\<close>

fun split_once :: "char \<Rightarrow> string \<Rightarrow> (string \<times> string) option" where
  "split_once c [] = None"
| "split_once c (x # xs) =
     (if x = c then Some ([], xs)
      else map_option (\<lambda>(a, b). (x # a, b)) (split_once c xs))"

definition rsplit_once :: "char \<Rightarrow> string \<Rightarrow> (string \<times> string) option" where
  "rsplit_once c s = map_option (\<lambda>(a, b). (rev b, rev a)) (split_once c (rev s))"

text \<open>\<open>str::split\<close> with a character: always at least one piece.\<close>

fun split_char :: "char \<Rightarrow> string \<Rightarrow> string list" where
  "split_char c [] = [[]]"
| "split_char c (x # xs) =
     (if x = c then [] # split_char c xs
      else (case split_char c xs of [] \<Rightarrow> [[x]] | l # ls \<Rightarrow> (x # l) # ls))"

text \<open>\<open>join\<close> with a separator (how the code puts the pieces back).\<close>

fun join_char :: "char \<Rightarrow> string list \<Rightarrow> string" where
  "join_char c [] = []"
| "join_char c [l] = l"
| "join_char c (l # ls) = l @ [c] @ join_char c ls"

text \<open>\<open>str::split_whitespace\<close>.\<close>

fun words_acc :: "string \<Rightarrow> string \<Rightarrow> string list" where
  "words_acc acc [] = (if acc = [] then [] else [rev acc])"
| "words_acc acc (c # cs) =
     (if is_whitespace c
      then (if acc = [] then words_acc [] cs else rev acc # words_acc [] cs)
      else words_acc (c # acc) cs)"

definition split_whitespace :: "string \<Rightarrow> string list" where
  "split_whitespace s = words_acc [] s"

text \<open>
  \<open>str::lines\<close>: every line that is ended by a line feed loses it and one carriage
  return before it; a last line without a line feed is kept as it is.
\<close>

definition strip_cr :: "string \<Rightarrow> string" where
  "strip_cr l = (case strip_suffix [CHR 0x0D] l of None \<Rightarrow> l | Some l' \<Rightarrow> l')"

fun lines_of :: "string list \<Rightarrow> string list" where
  "lines_of [] = []"
| "lines_of [l] = (if l = [] then [] else [l])"
| "lines_of (l # ls) = strip_cr l # lines_of ls"

definition str_lines :: "string \<Rightarrow> string list" where
  "str_lines s = lines_of (split_char (CHR 0x0A) s)"

subsection \<open>Facts on the string library\<close>

lemma split_once_Some [rust_str]:
  "split_once c s = Some (a, b) \<Longrightarrow> s = a @ c # b \<and> c \<notin> set a"
  by (induction s arbitrary: a) (auto split: if_splits)

lemma split_once_None [rust_str]: "split_once c s = None \<longleftrightarrow> c \<notin> set s"
  by (induction s) auto

lemma split_once_append [rust_str]:
  "c \<notin> set a \<Longrightarrow> split_once c (a @ c # b) = Some (a, b)"
  by (induction a) auto

lemma rsplit_once_Some [rust_str]:
  assumes "rsplit_once c s = Some (a, b)"
  shows "s = a @ c # b \<and> c \<notin> set b"
proof -
  from assms obtain x y where xy: "split_once c (rev s) = Some (x, y)" "a = rev y" "b = rev x"
    by (auto simp: rsplit_once_def)
  from split_once_Some [OF xy(1)] have "rev s = x @ c # y" "c \<notin> set x" by simp_all
  then have "s = rev (x @ c # y)" by (metis rev_rev_ident)
  with xy \<open>c \<notin> set x\<close> show ?thesis by simp
qed

lemma rsplit_once_append [rust_str]:
  "c \<notin> set b \<Longrightarrow> rsplit_once c (a @ c # b) = Some (a, b)"
  by (simp add: rsplit_once_def split_once_append)

lemma rsplit_once_None [rust_str]: "rsplit_once c s = None \<longleftrightarrow> c \<notin> set s"
  by (simp add: rsplit_once_def split_once_None)

lemma split_char_not_Nil [simp]: "split_char c s \<noteq> []"
  by (induction s) (auto split: list.splits)

lemma join_split_char [rust_str]: "join_char c (split_char c s) = s"
proof (induction s)
  case Nil
  then show ?case by simp
next
  case (Cons x xs)
  obtain l ls where l: "split_char c xs = l # ls"
    using split_char_not_Nil by (cases "split_char c xs") auto
  with Cons.IH show ?case by (cases ls) auto
qed

lemma split_char_no_sep [rust_str]: "l \<in> set (split_char c s) \<Longrightarrow> c \<notin> set l"
  by (induction s arbitrary: l) (auto split: if_splits list.splits)

lemma split_char_single [rust_str]: "c \<notin> set l \<Longrightarrow> split_char c l = [l]"
  by (induction l) auto

lemma split_char_append [rust_str]:
  "c \<notin> set l \<Longrightarrow> split_char c (l @ c # s) = l # split_char c s"
  by (induction l) auto

lemma split_join_char [rust_str]:
  "ls \<noteq> [] \<Longrightarrow> \<forall>l \<in> set ls. c \<notin> set l \<Longrightarrow> split_char c (join_char c ls) = ls"
  by (induction c ls rule: join_char.induct) (auto simp: split_char_single split_char_append)

lemma strip_prefix_Some [rust_str]: "strip_prefix p s = Some r \<longleftrightarrow> s = p @ r"
  by (induction p s rule: strip_prefix.induct) auto

lemma strip_prefix_append [simp]: "strip_prefix p (p @ r) = Some r"
  by (simp add: strip_prefix_Some)

lemma starts_with_iff [rust_str]: "starts_with s p \<longleftrightarrow> (\<exists>r. s = p @ r)"
  unfolding starts_with_def by (metis not_Some_eq strip_prefix_Some)

lemma trim_end_matches_subset: "set (trim_end_matches p s) \<subseteq> set s"
  unfolding trim_end_matches_def by (metis set_dropWhileD set_rev subsetI)

lemma trim_start_matches_subset: "set (trim_start_matches p s) \<subseteq> set s"
  unfolding trim_start_matches_def by (meson set_dropWhileD subsetI)

text \<open>Trimming is idempotent.\<close>

lemma dropWhile_dropWhile [simp]: "dropWhile p (dropWhile p s) = dropWhile p s"
  by (induction s) auto

lemma trim_end_matches_eq:
  "trim_end_matches p s = s \<longleftrightarrow> s = [] \<or> \<not> p (last s)"
proof (cases s rule: rev_cases)
  case Nil
  then show ?thesis by (simp add: trim_end_matches_def)
next
  case (snoc ys y)
  have "length (dropWhile p (rev ys)) \<le> length ys"
    by (metis length_dropWhile_le length_rev)
  then have "dropWhile p (rev ys) \<noteq> y # rev ys"
    by (metis impossible_Cons length_rev)
  then show ?thesis using snoc
    by (auto simp: trim_end_matches_def) (metis rev_rev_ident rev.simps(2))
qed

lemma trim_end_matches_last:
  "trim_end_matches p s = [] \<or> \<not> p (last (trim_end_matches p s))"
  unfolding trim_end_matches_def
  by (metis hd_dropWhile last_rev rev_is_Nil_conv)

lemma hd_trim_end_matches:
  assumes "s = [] \<or> \<not> p (hd s)"
  shows "trim_end_matches p s = [] \<or> \<not> p (hd (trim_end_matches p s))"
proof (cases s)
  case Nil
  then show ?thesis by (simp add: trim_end_matches_def)
next
  case (Cons x xs)
  with assms have "\<not> p x" by simp
  then have "trim_end_matches p (x # xs) = x # trim_end_matches p xs"
    by (simp add: trim_end_matches_def dropWhile_append3 dropWhile_append)
  with Cons \<open>\<not> p x\<close> show ?thesis by simp
qed

lemma trim_matches_idem [simp]: "trim_matches p (trim_matches p s) = trim_matches p s"
proof -
  let ?t = "trim_matches p s"
  have "?t = [] \<or> \<not> p (hd ?t)"
    unfolding trim_matches_def trim_start_matches_def
    by (rule hd_trim_end_matches) (metis hd_dropWhile)
  then have "dropWhile p ?t = ?t"
    by (cases ?t) auto
  moreover have "trim_end_matches p ?t = ?t"
    unfolding trim_end_matches_eq unfolding trim_matches_def by (rule trim_end_matches_last)
  ultimately show ?thesis
    by (simp add: trim_matches_def [of p ?t] trim_start_matches_def)
qed

lemma trim_idem [simp]: "trim (trim s) = trim s"
  by (simp add: trim_def)

section \<open>Time\<close>

text \<open>
  A \<open>NaiveDateTime\<close> is a number of microseconds (the resolution the database stores), a
  \<open>chrono::Duration\<close> a difference of two. The overflow of chrono's arithmetic is beyond
  any date the code handles and is not modelled.
\<close>

type_synonym time = int

definition days :: "int \<Rightarrow> int" where
  "days n = n * 86400000000"

lemma days_pos [simp]: "0 < days n \<longleftrightarrow> 0 < n" "0 \<le> days n \<longleftrightarrow> 0 \<le> n"
  by (simp_all add: days_def zero_less_mult_iff zero_le_mult_iff)

lemma days_add: "days (a + b) = days a + days b"
  by (simp add: days_def algebra_simps)

lemma days_mono [simp]: "days a \<le> days b \<longleftrightarrow> a \<le> b"
  by (simp add: days_def)

section \<open>JSON\<close>

text \<open>
  \<open>serde_json::Value\<close>. A timestamp in a JSON document is an ISO-8601 string that chrono
  parses back to the value it was written from; \<open>JTime\<close> stands for that string.
\<close>

datatype json =
    JNull
  | JBool bool
  | JInt int
  | JStr string
  | JTime time
  | JArr "json list"
  | JObj "(string \<times> json) list"

fun as_object :: "json \<Rightarrow> (string \<times> json) list option" where
  "as_object (JObj m) = Some m"
| "as_object _ = None"

fun as_str :: "json \<Rightarrow> string option" where
  "as_str (JStr s) = Some s"
| "as_str _ = None"

fun as_bool :: "json \<Rightarrow> bool option" where
  "as_bool (JBool b) = Some b"
| "as_bool _ = None"

fun as_array :: "json \<Rightarrow> json list option" where
  "as_array (JArr vs) = Some vs"
| "as_array _ = None"

text \<open>\<open>as_i64\<close>: a whole number within the range of the type.\<close>

fun as_i64 :: "json \<Rightarrow> int option" where
  "as_i64 (JInt i) = (if - (2 ^ 63) \<le> i \<and> i < 2 ^ 63 then Some i else None)"
| "as_i64 _ = None"

text \<open>\<open>value.get(key)\<close>, and \<open>value[key]\<close>, which is \<open>Null\<close> when there is no such key.\<close>

definition json_get :: "json \<Rightarrow> string \<Rightarrow> json option" where
  "json_get v k = (case as_object v of None \<Rightarrow> None | Some m \<Rightarrow> map_of m k)"

definition json_index :: "json \<Rightarrow> string \<Rightarrow> json" where
  "json_index v k = unwrap_or (json_get v k) JNull"

text \<open>
  \<open>value.pointer\<close>, with the pointer split at its slashes. The pointers of the code hold no
  escape, and no name of theirs is a number but the positions given as \<open>Elem\<close>.
\<close>

datatype token = Field string | Elem nat

fun pointer :: "json \<Rightarrow> token list \<Rightarrow> json option" where
  "pointer v [] = Some v"
| "pointer v (Field k # ts) = (case json_get v k of None \<Rightarrow> None | Some w \<Rightarrow> pointer w ts)"
| "pointer v (Elem n # ts) =
     (case v of
        JArr vs \<Rightarrow> if n < length vs then pointer (vs ! n) ts else None
      | _ \<Rightarrow> None)"

text \<open>\<open>value.pointer(p).and_then(Value::as_str)\<close>.\<close>

definition str_at :: "json \<Rightarrow> token list \<Rightarrow> string option" where
  "str_at v p = Option.bind (pointer v p) as_str"

text \<open>
  \<open>obj.extend(extra)\<close> of two objects, and nothing when either is not an object (the
  \<open>if let\<close> around every call in the source).
\<close>

fun json_extend :: "json \<Rightarrow> json \<Rightarrow> json" where
  "json_extend (JObj a) (JObj b) = JObj (b @ a)"
| "json_extend v _ = v"

definition json_of_opt :: "('a \<Rightarrow> json) \<Rightarrow> 'a option \<Rightarrow> json" where
  "json_of_opt f m = (case m of None \<Rightarrow> JNull | Some x \<Rightarrow> f x)"

lemma json_get_extend [simp]:
  "json_get (json_extend (JObj a) (JObj b)) k =
     (case map_of b k of None \<Rightarrow> map_of a k | Some v \<Rightarrow> Some v)"
  by (simp add: json_get_def map_add_def)

end
