(* ===== verification/Chords.thy ===== *)
theory Chords
  imports Prelude
begin

text \<open>
  Chord symbols and chord charts, from the \<open>Chord / lyric parsing\<close> part of
  \<^verbatim>\<open>src/src/export/pdf.rs\<close>: which tokens are chords, which lines hold nothing but
  chords, the split of \<open>[G]Hello\<close> into segments, the merge of a line of chords into
  the lyric line under it, and \<open>parse_lyrics\<close>, which puts them together. The lemmas show
  that printing segments inline and parsing them again is the identity, that merging
  chords never loses a character of the lyric, and what a parsed chart looks like.
\<close>

section \<open>Chord symbols\<close>

definition QUALITY_TOKENS :: "string list" where
  "QUALITY_TOKENS =
     [''maj'', ''min'', ''dim'', ''aug'', ''sus'', ''add'', ''m'', ''M'',
      [CHR 0xB0], [CHR 0xF8], ''+'', ''-'', ''#'', ''b'', ''('', '')'']"

text \<open>What follows the note name at the start of the string, if there is one.\<close>

fun is_note :: "string \<Rightarrow> string option" where
  "is_note [] = None"
| "is_note (first # rest) =
     (if \<not> (65 \<le> code first \<and> code first \<le> 71) then None
      else Some (unwrap_or (or_else (strip_prefix ''#'' rest) (strip_prefix ''b'' rest)) rest))"

text \<open>One turn of the loop that eats the chord's quality; \<open>None\<close> is the \<open>return false\<close>.\<close>

definition chord_step :: "string \<Rightarrow> string option" where
  "chord_step rest =
     (case rest of
        [] \<Rightarrow> None
      | c # cs \<Rightarrow>
          if is_ascii_digit c \<or> c = CHR ''/'' then Some cs
          else (case find (\<lambda>q. starts_with rest q) QUALITY_TOKENS of
                  None \<Rightarrow> None
                | Some q \<Rightarrow> Some (drop (length q) rest)))"

lemma QUALITY_TOKENS_not_Nil: "q \<in> set QUALITY_TOKENS \<Longrightarrow> q \<noteq> []"
  by (auto simp: QUALITY_TOKENS_def)

lemma chord_step_shorter: "chord_step rest = Some r \<Longrightarrow> length r < length rest"
  using QUALITY_TOKENS_not_Nil
  by (auto simp: chord_step_def find_Some_iff split: list.splits if_splits option.splits)

function chord_quality :: "string \<Rightarrow> bool" where
  "chord_quality rest =
     (if rest = [] then True
      else (case chord_step rest of None \<Rightarrow> False | Some r \<Rightarrow> chord_quality r))"
  by pat_completeness auto
termination
  by (relation "measure length") (auto dest: chord_step_shorter)

declare chord_quality.simps [simp del]

lemma chord_quality_Nil [simp]: "chord_quality []"
  by (simp add: chord_quality.simps)

text \<open>The slash that separates a bass note, unless what follows is a number (\<open>A7/9\<close>).\<close>

definition split_bass :: "string \<Rightarrow> string \<times> string option" where
  "split_bass token =
     (case rsplit_once (CHR ''/'') token of
        Some (main, bass) \<Rightarrow>
          if bass \<noteq> [] \<and> \<not> list_all is_ascii_digit bass then (main, Some bass)
          else (token, None)
      | None \<Rightarrow> (token, None))"

definition is_chord :: "string \<Rightarrow> bool" where
  "is_chord token0 =
     (let token = trim token0 in
      if eq_ignore_ascii_case token ''n.c.'' \<or> eq_ignore_ascii_case token ''nc'' then True
      else
        let (main, bass) = split_bass token in
        if is_some_and bass (\<lambda>b. is_note b \<noteq> Some []) then False
        else (case is_note main of None \<Rightarrow> False | Some rest \<Rightarrow> chord_quality rest))"

definition is_chord_line_filler :: "string \<Rightarrow> bool" where
  "is_chord_line_filler token =
     (token \<in> set [''|'', ''||'', ''-'', ''/'', ''%''] \<or>
      is_some_and (or_else (strip_prefix ''x'' token) (strip_suffix ''x'' token))
        (\<lambda>n. n \<noteq> [] \<and> list_all is_ascii_digit n))"

definition is_paren :: "char \<Rightarrow> bool" where
  "is_paren c = (c = CHR ''('' \<or> c = CHR '')'')"

fun chord_only_tokens :: "bool \<Rightarrow> string list \<Rightarrow> bool" where
  "chord_only_tokens has_chord [] = has_chord"
| "chord_only_tokens has_chord (t # ts) =
     (let token = trim_matches is_paren t in
      if is_chord token then chord_only_tokens True ts
      else if \<not> is_chord_line_filler token then False
      else chord_only_tokens has_chord ts)"

definition is_chord_only_line :: "string \<Rightarrow> bool" where
  "is_chord_only_line line = chord_only_tokens False (split_whitespace line)"

section \<open>Segments\<close>

type_synonym chord_segment = "string option \<times> string"

datatype lyric_line =
    Heading string
  | Comment string
  | Segments "chord_segment list"
  | Blank

text \<open>\<open>segments.last_mut().1.push_str(s)\<close>.\<close>

fun push_last :: "chord_segment list \<Rightarrow> string \<Rightarrow> chord_segment list" where
  "push_last [] s = []"
| "push_last [(c, t)] s = [(c, t @ s)]"
| "push_last (seg # segs) s = seg # push_last segs s"

lemma push_last_snoc [simp]: "push_last (segs @ [(c, t)]) s = segs @ [(c, t @ s)]"
  by (induction segs rule: induct_list012) auto

lemma push_last_single [simp]: "push_last [(c, t)] s = [(c, t @ s)]"
  by simp

function inline_go :: "chord_segment list \<Rightarrow> string \<Rightarrow> chord_segment list" where
  "inline_go segments rest =
     (case split_once (CHR ''['') rest of
        None \<Rightarrow> push_last segments rest
      | Some (ahead, after) \<Rightarrow>
          (case split_once (CHR '']'') after of
             None \<Rightarrow> push_last segments rest
           | Some (inner, rest') \<Rightarrow>
               let segments = push_last segments ahead;
                   segments =
                     (if is_chord inner then segments @ [(Some (trim inner), [])]
                      else push_last segments (CHR ''['' # inner @ [CHR '']'']))
               in inline_go segments rest'))"
  by pat_completeness auto
termination
  by (relation "measure (\<lambda>(_, rest). length rest)") (auto dest!: split_once_Some)

declare inline_go.simps [simp del]

definition parse_inline_chords :: "string \<Rightarrow> chord_segment list" where
  "parse_inline_chords line =
     (let segments = inline_go [(None, [])] line in
      case segments of
        (None, []) # s # ss \<Rightarrow> s # ss
      | _ \<Rightarrow> segments)"

text \<open>The tokens of a line with the column each starts at (the two \<open>while\<close> loops).\<close>

function tokens_at :: "nat \<Rightarrow> string \<Rightarrow> (nat \<times> string) list" where
  "tokens_at i [] = []"
| "tokens_at i (c # cs) =
     (if is_whitespace c then tokens_at (Suc i) cs
      else
        let token = takeWhile (\<lambda>x. \<not> is_whitespace x) (c # cs) in
        (i, token) # tokens_at (i + length token) (dropWhile (\<lambda>x. \<not> is_whitespace x) (c # cs)))"
  by pat_completeness auto
termination
proof (relation "measure (\<lambda>(_, s). length s)", goal_cases)
  case (3 i c cs x)
  have "length (dropWhile (\<lambda>x. \<not> is_whitespace x) cs) \<le> length cs"
    by (rule length_dropWhile_le)
  with 3 show ?case by simp
qed auto

definition chord_positions :: "string \<Rightarrow> (nat \<times> string) list" where
  "chord_positions chords =
     concat (map (\<lambda>(start, token).
                    let trimmed = trim_matches is_paren token in
                    if is_chord trimmed then [(start, trimmed)] else [])
                 (tokens_at 0 chords))"

text \<open>
  The loop over the positions: \<open>cursor\<close> is the column of the lyric already copied, and
  \<open>segments\<close> is empty exactly as long as nothing was pushed.
\<close>

fun merge_go ::
  "string \<Rightarrow> chord_segment list \<Rightarrow> nat \<Rightarrow> (nat \<times> string) list \<Rightarrow> chord_segment list \<times> nat"
where
  "merge_go lyric segments cursor [] = (segments, cursor)"
| "merge_go lyric segments cursor ((col, chord) # ps) =
     (let column = max (min col (length lyric)) cursor;
          text = take (column - cursor) (drop cursor lyric);
          segments =
            (if segments = [] then (if text \<noteq> [] then [(None, text)] else [])
             else push_last segments text)
      in merge_go lyric (segments @ [(Some chord, [])]) column ps)"

definition merge_chord_line :: "string \<Rightarrow> string \<Rightarrow> chord_segment list" where
  "merge_chord_line chords lyric =
     (let (segments, cursor) = merge_go lyric [] 0 (chord_positions chords);
          tail = drop (min cursor (length lyric)) lyric
      in if segments = [] then [(None, tail)] else push_last segments tail)"

definition strip_chords :: "chord_segment list \<Rightarrow> chord_segment list" where
  "strip_chords segments = [(None, concat (map snd segments))]"

definition inline_text :: "chord_segment list \<Rightarrow> string" where
  "inline_text segments =
     concat (map (\<lambda>(chord, text).
                    case chord of
                      Some c \<Rightarrow> CHR ''['' # c @ CHR '']'' # text
                    | None \<Rightarrow> text) segments)"

definition inline_chords :: "chord_segment list \<Rightarrow> chord_segment list" where
  "inline_chords segments = [(None, inline_text segments)]"

section \<open>Whole charts\<close>

datatype chord_mode = Hide | Inline | Above

datatype pdf_locale = En | PtBr | Es

record pdf_labels =
  lbl_estimated_duration :: string
  lbl_not_calculated :: string
  lbl_key :: string
  lbl_break_label :: string
  lbl_page :: string
  lbl_generated_with :: string
  lbl_songs :: string
  lbl_lyrics :: string
  lbl_no_lyrics :: string
  lbl_exported_on :: string
  lbl_chorus :: string
  lbl_verse :: string
  lbl_bridge :: string
  lbl_date_format :: string
  lbl_capo :: string
  lbl_tuning :: string
  lbl_time_signature :: string
  lbl_notes :: string

fun locale_labels :: "pdf_locale \<Rightarrow> pdf_labels" where
  "locale_labels PtBr =
    \<lparr>lbl_estimated_duration = (''Dura'' @ [CHR 0xE7] @ [CHR 0xE3] @ ''o estimada''),
     lbl_not_calculated = (''N'' @ [CHR 0xE3] @ ''o calculada''),
     lbl_key = ''Tom'',
     lbl_break_label = ''Pausa'',
     lbl_page = (''P'' @ [CHR 0xE1] @ ''gina''),
     lbl_generated_with = ''Gerado com Setlyst'',
     lbl_songs = (''m'' @ [CHR 0xFA] @ ''sicas''),
     lbl_lyrics = ''Letras e cifras'',
     lbl_no_lyrics = ''Sem letra cadastrada.'',
     lbl_exported_on = ''Exportado em'',
     lbl_chorus = (''Refr'' @ [CHR 0xE3] @ ''o''),
     lbl_verse = ''Verso'',
     lbl_bridge = ''Ponte'',
     lbl_date_format = ''%d/%m/%Y'',
     lbl_capo = ''Capotraste'',
     lbl_tuning = (''Afina'' @ [CHR 0xE7] @ [CHR 0xE3] @ ''o''),
     lbl_time_signature = ''Compasso'',
     lbl_notes = (''Observa'' @ [CHR 0xE7] @ [CHR 0xF5] @ ''es'')\<rparr>"
| "locale_labels En =
    \<lparr>lbl_estimated_duration = ''Estimated duration'',
     lbl_not_calculated = ''Not calculated'',
     lbl_key = ''Key'',
     lbl_break_label = ''Break'',
     lbl_page = ''Page'',
     lbl_generated_with = ''Made with Setlyst'',
     lbl_songs = ''songs'',
     lbl_lyrics = ''Lyrics & chords'',
     lbl_no_lyrics = ''No lyrics yet.'',
     lbl_exported_on = ''Exported on'',
     lbl_chorus = ''Chorus'',
     lbl_verse = ''Verse'',
     lbl_bridge = ''Bridge'',
     lbl_date_format = ''%Y-%m-%d'',
     lbl_capo = ''Capo'',
     lbl_tuning = ''Tuning'',
     lbl_time_signature = ''Time'',
     lbl_notes = ''Performance notes''\<rparr>"
| "locale_labels Es =
    \<lparr>lbl_estimated_duration = (''Duraci'' @ [CHR 0xF3] @ ''n estimada''),
     lbl_not_calculated = ''No calculada'',
     lbl_key = ''Tono'',
     lbl_break_label = ''Pausa'',
     lbl_page = (''P'' @ [CHR 0xE1] @ ''gina''),
     lbl_generated_with = ''Hecho con Setlyst'',
     lbl_songs = ''canciones'',
     lbl_lyrics = ''Letras y acordes'',
     lbl_no_lyrics = ''Sin letra registrada.'',
     lbl_exported_on = ''Exportado el'',
     lbl_chorus = ''Estribillo'',
     lbl_verse = ''Verso'',
     lbl_bridge = ''Puente'',
     lbl_date_format = ''%d/%m/%Y'',
     lbl_capo = ''Cejilla'',
     lbl_tuning = (''Afinaci'' @ [CHR 0xF3] @ ''n''),
     lbl_time_signature = (''Comp'' @ [CHR 0xE1] @ ''s''),
     lbl_notes = ''Notas''\<rparr>"

definition directive :: "string \<Rightarrow> (string \<times> string) option" where
  "directive line =
     (case Option.bind (strip_prefix ''{'' (trim line)) (strip_suffix ''}'') of
        None \<Rightarrow> None
      | Some inner \<Rightarrow>
          let (name, value) =
                (case split_once (CHR '':'') inner of Some nv \<Rightarrow> nv | None \<Rightarrow> (inner, []))
          in Some (to_lowercase (trim name), trim value))"

definition apply_mode :: "chord_mode \<Rightarrow> chord_segment list \<Rightarrow> lyric_line" where
  "apply_mode mode segments =
     (case mode of
        Above \<Rightarrow> Segments segments
      | Inline \<Rightarrow> Segments (inline_chords segments)
      | Hide \<Rightarrow> Segments (strip_chords segments))"

text \<open>What a directive prints (the \<open>match name.as_str()\<close>).\<close>

definition directive_lines :: "pdf_labels \<Rightarrow> string \<Rightarrow> string \<Rightarrow> lyric_line list" where
  "directive_lines labels name value =
     (let with_default = (\<lambda>d. if value = [] then d else value) in
      if name \<in> set [''c'', ''comment'', ''ci'', ''comment_italic'', ''cb'', ''comment_box'', ''highlight'']
         \<and> value \<noteq> []
      then [Comment value]
      else if name \<in> set [''soc'', ''start_of_chorus''] then [Heading (with_default (lbl_chorus labels))]
      else if name \<in> set [''sov'', ''start_of_verse''] then [Heading (with_default (lbl_verse labels))]
      else if name \<in> set [''sob'', ''start_of_bridge''] then [Heading (with_default (lbl_bridge labels))]
      else if name = ''chorus'' then [Heading (with_default (lbl_chorus labels))]
      else [])"

definition bracket_heading :: "string \<Rightarrow> string option" where
  "bracket_heading trimmed =
     (case Option.bind (strip_prefix ''['' trimmed) (strip_suffix '']'') of
        Some inner \<Rightarrow>
          if CHR ''['' \<notin> set inner \<and> \<not> is_chord inner then Some (trim inner) else None
      | None \<Rightarrow> None)"

definition next_is_lyric :: "string \<Rightarrow> bool" where
  "next_is_lyric n =
     (let t = trim n in
      t \<noteq> [] \<and> \<not> starts_with t ''{'' \<and> \<not> starts_with t ''#'' \<and> \<not> starts_with t ''[''
      \<and> \<not> is_chord_only_line t)"

text \<open>
  One turn of the main loop: the lines it pushes after \<open>out\<close>, and the lines left to
  read (a chord line may take the lyric line under it).
\<close>

definition lyrics_step ::
  "chord_mode \<Rightarrow> pdf_labels \<Rightarrow> lyric_line list \<Rightarrow> string \<Rightarrow> string list
     \<Rightarrow> lyric_line list \<times> string list"
where
  "lyrics_step mode labels out line rest =
     (let trimmed = trim line in
      if trimmed = [] then
        (if out \<noteq> [] \<and> last out \<noteq> Blank then [Blank] else [], rest)
      else if starts_with trimmed ''#'' then ([], rest)
      else (case directive trimmed of
        Some (name, value) \<Rightarrow> (directive_lines labels name value, rest)
      | None \<Rightarrow>
      (case bracket_heading trimmed of
        Some h \<Rightarrow> ([Heading h], rest)
      | None \<Rightarrow>
        if is_chord_only_line trimmed then
          if mode = Hide then ([], rest)
          else (case rest of
              n # ns \<Rightarrow>
                if next_is_lyric (trim_end n)
                then ([apply_mode mode (merge_chord_line line (trim_end n))], ns)
                else ([if mode = Above
                       then Segments (map (\<lambda>t. (Some t, ''    '')) (split_whitespace trimmed))
                       else Segments [(None, trimmed)]], rest)
            | [] \<Rightarrow>
                ([if mode = Above
                  then Segments (map (\<lambda>t. (Some t, ''    '')) (split_whitespace trimmed))
                  else Segments [(None, trimmed)]], rest))
        else ([apply_mode mode (parse_inline_chords line)], rest))))"

lemma lyrics_step_rest:
  "lyrics_step mode labels out line rest = (ls, rest') \<Longrightarrow> length rest' \<le> length rest"
  by (auto simp: lyrics_step_def Let_def split: if_splits option.splits list.splits)

function lyrics_go ::
  "chord_mode \<Rightarrow> pdf_labels \<Rightarrow> lyric_line list \<Rightarrow> string list \<Rightarrow> lyric_line list"
where
  "lyrics_go mode labels out [] = out"
| "lyrics_go mode labels out (line # rest) =
     (case lyrics_step mode labels out line rest of
        (ls, rest') \<Rightarrow> lyrics_go mode labels (out @ ls) rest')"
  by pat_completeness auto
termination
  by (relation "measure (\<lambda>(_, _, _, ls). length ls)")
    (auto dest!: lyrics_step_rest [OF sym] simp: less_Suc_eq_le)

definition drop_trailing_blanks :: "lyric_line list \<Rightarrow> lyric_line list" where
  "drop_trailing_blanks out = rev (dropWhile (\<lambda>l. l = Blank) (rev out))"

definition parse_lyrics :: "string \<Rightarrow> chord_mode \<Rightarrow> pdf_locale \<Rightarrow> lyric_line list" where
  "parse_lyrics raw mode loc =
     drop_trailing_blanks
       (lyrics_go mode (locale_labels loc) [] (map trim_end (str_lines raw)))"

section \<open>Properties of segments\<close>

definition segment_text :: "chord_segment list \<Rightarrow> string" where
  "segment_text segments = concat (map snd segments)"

definition segment_chords :: "chord_segment list \<Rightarrow> string list" where
  "segment_chords segments = concat (map (\<lambda>(c, _). case c of None \<Rightarrow> [] | Some x \<Rightarrow> [x]) segments)"

lemma segment_text_simps [simp]:
  "segment_text [] = []"
  "segment_text ((c, t) # segs) = t @ segment_text segs"
  "segment_text (a @ b) = segment_text a @ segment_text b"
  by (simp_all add: segment_text_def)

lemma segment_chords_simps [simp]:
  "segment_chords [] = []"
  "segment_chords ((None, t) # segs) = segment_chords segs"
  "segment_chords ((Some c, t) # segs) = c # segment_chords segs"
  "segment_chords (a @ b) = segment_chords a @ segment_chords b"
  by (simp_all add: segment_chords_def)

lemma segment_text_push_last [simp]:
  "segs \<noteq> [] \<Longrightarrow> segment_text (push_last segs s) = segment_text segs @ s"
  by (induction segs s rule: push_last.induct) auto

lemma segment_chords_push_last [simp]:
  "segment_chords (push_last segs s) = segment_chords segs"
proof (induction segs s rule: push_last.induct)
  case (2 c t s)
  then show ?case by (cases c) simp_all
next
  case (3 seg v va s)
  then show ?case by (cases seg; cases "fst seg") (simp_all add: segment_chords_def)
qed simp

lemma push_last_Nil_iff [simp]: "push_last segs s = [] \<longleftrightarrow> segs = []"
  by (induction segs s rule: push_last.induct) auto

lemma inline_text_simps [simp]:
  "inline_text [] = []"
  "inline_text ((None, t) # segs) = t @ inline_text segs"
  "inline_text ((Some c, t) # segs) = CHR ''['' # c @ CHR '']'' # t @ inline_text segs"
  by (simp_all add: inline_text_def)

subsection \<open>Merging a chord line loses nothing\<close>

lemma merge_go_correct:
  assumes "merge_go lyric segs cursor ps = (segs', cursor')"
    and "cursor \<le> length lyric" and "segment_text segs = take cursor lyric"
  shows "cursor' \<le> length lyric \<and> segment_text segs' = take cursor' lyric
         \<and> segment_chords segs' = segment_chords segs @ map snd ps"
  using assms
proof (induction lyric segs cursor ps rule: merge_go.induct)
  case (1 lyric segs cursor)
  then show ?case by simp
next
  case (2 lyric segs cursor col chord ps)
  define column where "column = max (min col (length lyric)) cursor"
  define piece where "piece = take (column - cursor) (drop cursor lyric)"
  define segs1 where
    "segs1 = (if segs = [] then (if piece \<noteq> [] then [(None, piece)] else []) else push_last segs piece)"
  have col: "cursor \<le> column" "column \<le> length lyric"
    using "2.prems"(2) by (auto simp: column_def)
  have piece1: "segment_text segs1 = segment_text segs @ piece"
    by (simp add: segs1_def)
  have "take cursor lyric @ piece = take column lyric"
    using col by (simp add: piece_def take_add [symmetric])
  with piece1 "2.prems"(3) have piece2: "segment_text (segs1 @ [(Some chord, [])]) = take column lyric"
    by simp
  have chords1: "segment_chords (segs1 @ [(Some chord, [])]) = segment_chords segs @ [chord]"
    by (simp add: segs1_def)
  have "merge_go lyric (segs1 @ [(Some chord, [])]) column ps = (segs', cursor')"
    using "2.prems"(1) by (simp only: merge_go.simps Let_def column_def piece_def segs1_def)
  from "2.IH" [OF column_def piece_def segs1_def this col(2) piece2] chords1
  show ?case by simp
qed

lemma merge_keeps_lyric: "segment_text (merge_chord_line chords lyric) = lyric"
  and merge_keeps_chords: "segment_chords (merge_chord_line chords lyric) = map snd (chord_positions chords)"
proof -
  obtain segs cursor where m: "merge_go lyric [] 0 (chord_positions chords) = (segs, cursor)"
    by fastforce
  from merge_go_correct [OF m] have
    c: "cursor \<le> length lyric" "segment_text segs = take cursor lyric"
       "segment_chords segs = map snd (chord_positions chords)"
    by simp_all
  show "segment_text (merge_chord_line chords lyric) = lyric"
    and "segment_chords (merge_chord_line chords lyric) = map snd (chord_positions chords)"
    using c by (auto simp: merge_chord_line_def m min_absorb1 Let_def)
qed

lemma chord_positions_are_chords:
  "c \<in> set (map snd (chord_positions chords)) \<Longrightarrow> is_chord c"
  by (auto simp: chord_positions_def Let_def split: if_splits)

subsection \<open>Inline chords: print, then parse\<close>

lemma is_chord_trim [simp]: "is_chord (trim s) = is_chord s"
  by (simp add: is_chord_def)

text \<open>
  Segments as the parser produces them: the chords are trimmed chord symbols, no text
  opens a bracket, and a leading segment without a chord is not empty.
\<close>

definition chord_segment_ok :: "chord_segment \<Rightarrow> bool" where
  "chord_segment_ok seg =
     (case seg of
        (None, t) \<Rightarrow> False
      | (Some c, t) \<Rightarrow> is_chord c \<and> trim c = c \<and> CHR '']'' \<notin> set c \<and> CHR ''['' \<notin> set t)"

definition segments_ok :: "chord_segment list \<Rightarrow> bool" where
  "segments_ok segs =
     (case segs of
        [] \<Rightarrow> False
      | (None, t) # rest \<Rightarrow> CHR ''['' \<notin> set t \<and> (t \<noteq> [] \<or> rest = []) \<and> list_all chord_segment_ok rest
      | segs \<Rightarrow> list_all chord_segment_ok segs)"

lemma inline_go_text:
  assumes "CHR ''['' \<notin> set t"
  shows "inline_go segs t = push_last segs t"
  using assms by (subst inline_go.simps) (simp add: split_once_None [THEN iffD2])

lemma inline_go_segments:
  assumes "list_all chord_segment_ok segs" and "CHR ''['' \<notin> set t"
  shows "inline_go (acc @ [(c, s)]) (t @ inline_text segs) = acc @ [(c, s @ t)] @ segs"
  using assms
proof (induction segs arbitrary: acc c s t)
  case Nil
  then show ?case by (simp add: inline_go_text)
next
  case (Cons seg segs)
  then obtain ch tl where seg: "seg = (Some ch, tl)"
    and ok: "is_chord ch" "trim ch = ch" "CHR '']'' \<notin> set ch" "CHR ''['' \<notin> set tl"
    by (auto simp: chord_segment_ok_def split: option.splits prod.splits)
  have open_br: "split_once (CHR ''['') (t @ CHR ''['' # ch @ CHR '']'' # tl @ inline_text segs)
        = Some (t, ch @ CHR '']'' # tl @ inline_text segs)"
    using Cons.prems(2) by (rule split_once_append)
  have close_br: "split_once (CHR '']'') (ch @ CHR '']'' # tl @ inline_text segs)
        = Some (ch, tl @ inline_text segs)"
    using ok(3) by (rule split_once_append)
  have "inline_go (acc @ [(c, s)]) (t @ inline_text (seg # segs))
        = inline_go ((acc @ [(c, s @ t)]) @ [(Some ch, [])]) (tl @ inline_text segs)"
    using ok by (subst inline_go.simps) (simp add: seg open_br close_br)
  also have "\<dots> = (acc @ [(c, s @ t)]) @ [(Some ch, [] @ tl)] @ segs"
    using Cons.prems(1) ok(4) by (intro Cons.IH) simp_all
  finally show ?case by (simp add: seg)
qed

lemma parse_inline_chords_print:
  assumes "segments_ok segs"
  shows "parse_inline_chords (inline_text segs) = segs"
proof (cases segs)
  case Nil
  with assms show ?thesis by (simp add: segments_ok_def)
next
  case (Cons seg rest)
  obtain c t where seg: "seg = (c, t)" by (cases seg)
  show ?thesis
  proof (cases c)
    case None
    with assms Cons seg have ok: "CHR ''['' \<notin> set t" "t \<noteq> [] \<or> rest = []" "list_all chord_segment_ok rest"
      by (auto simp: segments_ok_def)
    from inline_go_segments [OF ok(3,1), of "[]" None "[]"]
    have "inline_go [(None, [])] (inline_text segs) = (None, t) # rest"
      by (simp add: Cons seg None)
    with ok(2) show ?thesis
      by (auto simp: parse_inline_chords_def Cons seg None Let_def split: list.splits)
  next
    case (Some ch)
    with assms Cons seg have ok: "list_all chord_segment_ok segs"
      by (auto simp: segments_ok_def)
    from inline_go_segments [OF ok, of "[]" "[]" None "[]"]
    have "inline_go [(None, [])] (inline_text segs) = (None, []) # segs" by simp
    then show ?thesis by (simp add: parse_inline_chords_def Cons)
  qed
qed

section \<open>Properties of parsed charts\<close>

text \<open>No two blank lines in a row, and none at the top.\<close>

fun blanks_ok :: "lyric_line list \<Rightarrow> bool" where
  "blanks_ok [] = True"
| "blanks_ok [l] = True"
| "blanks_ok (l # m # ls) = (\<not> (l = Blank \<and> m = Blank) \<and> blanks_ok (m # ls))"

definition chart_ok :: "lyric_line list \<Rightarrow> bool" where
  "chart_ok ls = (blanks_ok ls \<and> (ls = [] \<or> hd ls \<noteq> Blank))"

lemma blanks_ok_append:
  "blanks_ok (xs @ ys) \<longleftrightarrow>
     blanks_ok xs \<and> blanks_ok ys \<and> (xs = [] \<or> ys = [] \<or> \<not> (last xs = Blank \<and> hd ys = Blank))"
proof (induction xs rule: blanks_ok.induct)
  case (2 l)
  then show ?case by (cases ys) auto
qed auto

lemma lyrics_step_blank:
  assumes "lyrics_step mode labels out line rest = (ls, rest')"
  shows "ls = [] \<or> (\<exists>l. ls = [l] \<and> (l = Blank \<longrightarrow> out \<noteq> [] \<and> last out \<noteq> Blank))"
  using assms
  by (auto simp: lyrics_step_def directive_lines_def apply_mode_def Let_def
      split: if_splits option.splits list.splits chord_mode.splits)

lemma lyrics_go_chart_ok: "chart_ok out \<Longrightarrow> chart_ok (lyrics_go mode labels out lines)"
proof (induction mode labels out lines rule: lyrics_go.induct)
  case (2 mode labels out line rest)
  obtain ls rest' where s: "lyrics_step mode labels out line rest = (ls, rest')"
    by fastforce
  from lyrics_step_blank [OF s] "2.prems" have "chart_ok (out @ ls)"
    by (auto simp: chart_ok_def blanks_ok_append hd_append)
  from "2.IH" [OF s [symmetric] this] s show ?case by simp
qed simp

lemma drop_trailing_blanks_prefix:
  "\<exists>n. drop_trailing_blanks ls = take n ls"
  unfolding drop_trailing_blanks_def
  by (metis append_eq_conv_conj rev_append rev_rev_ident takeWhile_dropWhile_id)

lemma parse_lyrics_chart_ok:
  "chart_ok (parse_lyrics raw mode loc)
   \<and> (parse_lyrics raw mode loc = [] \<or> last (parse_lyrics raw mode loc) \<noteq> Blank)"
proof -
  let ?out = "lyrics_go mode (locale_labels loc) [] (map trim_end (str_lines raw))"
  have ok: "chart_ok ?out" by (rule lyrics_go_chart_ok) (simp add: chart_ok_def)
  obtain n where n: "drop_trailing_blanks ?out = take n ?out"
    using drop_trailing_blanks_prefix by blast
  have "blanks_ok (take n ?out @ drop n ?out)"
    using ok by (simp add: chart_ok_def)
  then have "blanks_ok (take n ?out)"
    unfolding blanks_ok_append by blast
  with ok have "chart_ok (take n ?out)"
    by (cases n; cases ?out) (auto simp: chart_ok_def)
  moreover have "drop_trailing_blanks ?out = [] \<or> last (drop_trailing_blanks ?out) \<noteq> Blank"
    unfolding drop_trailing_blanks_def
    by (metis (mono_tags, lifting) hd_dropWhile last_rev rev.simps(1))
  ultimately show ?thesis by (simp add: parse_lyrics_def n)
qed

text \<open>Hidden chords: every printed line of segments is one run of text without a chord.\<close>

definition chordless :: "lyric_line \<Rightarrow> bool" where
  "chordless l = (case l of Segments segs \<Rightarrow> list_all (\<lambda>(c, _). c = None) segs | _ \<Rightarrow> True)"

lemma lyrics_step_chordless:
  "lyrics_step mode labels out line rest = (ls, rest') \<Longrightarrow> mode \<noteq> Above \<Longrightarrow> list_all chordless ls"
  by (auto simp: lyrics_step_def directive_lines_def apply_mode_def Let_def chordless_def
      strip_chords_def inline_chords_def
      split: if_splits option.splits list.splits chord_mode.splits)

lemma lyrics_go_chordless:
  "list_all chordless out \<Longrightarrow> mode \<noteq> Above \<Longrightarrow> list_all chordless (lyrics_go mode labels out lines)"
proof (induction mode labels out lines rule: lyrics_go.induct)
  case (2 mode labels out line rest)
  obtain ls rest' where s: "lyrics_step mode labels out line rest = (ls, rest')"
    by fastforce
  from lyrics_step_chordless [OF s] "2.prems" have "list_all chordless (out @ ls)"
    by simp
  from "2.IH" [OF s [symmetric] this] "2.prems" s show ?case by simp
qed simp

lemma parse_lyrics_chordless:
  assumes "mode \<noteq> Above"
  shows "list_all chordless (parse_lyrics raw mode loc)"
proof -
  let ?out = "lyrics_go mode (locale_labels loc) [] (map trim_end (str_lines raw))"
  have "list_all chordless ?out"
    using assms by (intro lyrics_go_chordless) simp_all
  moreover obtain n where "drop_trailing_blanks ?out = take n ?out"
    using drop_trailing_blanks_prefix by blast
  ultimately show ?thesis
    by (simp add: parse_lyrics_def list_all_iff) (meson in_set_takeD)
qed

section \<open>Claims\<close>

text \<open>
  Printing segments as inline chords and parsing the text again gives the same
  segments back, for every list of segments the parser can have produced from well-formed
  brackets.
\<close>

theorem inline_chords_roundtrip:
  assumes "segments_ok segs"
  shows "parse_inline_chords (inline_text segs) = segs"
  using assms by (rule parse_inline_chords_print)

theorem inline_chords_roundtrip_witness:
  "inline_text [(None, ''Oh ''), (Some ''Am7/G'', ''hello ''), (Some ''D'', ''world'')]
     = ''Oh [Am7/G]hello [D]world''
   \<and> parse_inline_chords ''Oh [Am7/G]hello [D]world''
     = [(None, ''Oh ''), (Some ''Am7/G'', ''hello ''), (Some ''D'', ''world'')]"
proof -
  have ok: "segments_ok [(None, ''Oh ''), (Some ''Am7/G'', ''hello ''), (Some ''D'', ''world'')]"
    by code_simp
  have printed: "inline_text [(None, ''Oh ''), (Some ''Am7/G'', ''hello ''), (Some ''D'', ''world'')]
     = ''Oh [Am7/G]hello [D]world''" by simp
  from inline_chords_roundtrip [OF ok] show ?thesis unfolding printed by blast
qed

text \<open>
  Merging a line of chords into the lyric line under it loses nothing: the segments
  spell the lyric exactly, and carry the line's chords in order, each a chord symbol.
\<close>

theorem merge_chord_line_lossless:
  "segment_text (merge_chord_line chords lyric) = lyric
   \<and> segment_chords (merge_chord_line chords lyric) = map snd (chord_positions chords)
   \<and> list_all is_chord (segment_chords (merge_chord_line chords lyric))"
  using chord_positions_are_chords [of _ chords]
  by (auto simp: merge_keeps_lyric merge_keeps_chords list_all_iff)

text \<open>
  A parsed chart neither starts nor ends with a blank line and never has two blank
  lines in a row, whatever the text, the chord mode and the language.
\<close>

theorem parse_lyrics_blank_lines:
  "let chart = parse_lyrics raw mode loc in
     blanks_ok chart \<and> (chart = [] \<or> (hd chart \<noteq> Blank \<and> last chart \<noteq> Blank))"
  using parse_lyrics_chart_ok [of raw mode loc] by (auto simp: chart_ok_def Let_def)

text \<open>
  In the modes that print no chords above the lyrics, no line of the parsed chart
  carries a chord of its own.
\<close>

theorem parse_lyrics_hides_chords:
  assumes "mode \<noteq> Above"
  shows "list_all chordless (parse_lyrics raw mode loc)"
  using assms by (rule parse_lyrics_chordless)

theorem parse_lyrics_hides_chords_witness:
  "parse_lyrics ''[G]Hello'' Hide En = [Segments [(None, ''Hello'')]]
   \<and> list_all chordless (parse_lyrics ''[G]Hello'' Hide En)"
proof -
  have "parse_lyrics ''[G]Hello'' Hide En = [Segments [(None, ''Hello'')]]" by code_simp
  moreover have "list_all chordless (parse_lyrics ''[G]Hello'' Hide En)"
    by (rule parse_lyrics_hides_chords) simp
  ultimately show ?thesis ..
qed

end
