(* ===== verification/Transpose.thy ===== *)
theory Transpose
  imports Chords
begin

text \<open>
  Key and chord transposition, from \<^verbatim>\<open>src/src/music/transpose.rs\<close> and the keys of
  \<^verbatim>\<open>src/src/models/song.rs\<close>. Pitches are integers (a semitone each), names are spelled
  modulo an octave. The lemmas show that transposing a key or a chord moves its pitch by
  the asked number of semitones and keeps its quality, that moves add up, that the result
  is again a chord, that a chart keeps its lines, and that a setlist's key is applied once.
\<close>

section \<open>Keys\<close>

datatype tonality =
    K_C | K_CSharp | K_Db | K_D | K_DSharp | K_Eb
  | K_E | K_ESharp | K_F | K_FSharp | K_Gb | K_G
  | K_GSharp | K_Ab | K_A | K_ASharp | K_Bb | K_B
  | K_BSharp | K_Cm | K_CSharpM | K_Dbm | K_Dm | K_DSharpM
  | K_Ebm | K_Em | K_ESharpM | K_Fm | K_FSharpM | K_Gbm
  | K_Gm | K_GSharpM | K_Abm | K_Am | K_ASharpM | K_Bbm
  | K_Bm | K_BSharpM

fun tonality_name :: "tonality \<Rightarrow> string" where
  "tonality_name K_C = ''C''"
| "tonality_name K_CSharp = ''C#''"
| "tonality_name K_Db = ''Db''"
| "tonality_name K_D = ''D''"
| "tonality_name K_DSharp = ''D#''"
| "tonality_name K_Eb = ''Eb''"
| "tonality_name K_E = ''E''"
| "tonality_name K_ESharp = ''E#''"
| "tonality_name K_F = ''F''"
| "tonality_name K_FSharp = ''F#''"
| "tonality_name K_Gb = ''Gb''"
| "tonality_name K_G = ''G''"
| "tonality_name K_GSharp = ''G#''"
| "tonality_name K_Ab = ''Ab''"
| "tonality_name K_A = ''A''"
| "tonality_name K_ASharp = ''A#''"
| "tonality_name K_Bb = ''Bb''"
| "tonality_name K_B = ''B''"
| "tonality_name K_BSharp = ''B#''"
| "tonality_name K_Cm = ''Cm''"
| "tonality_name K_CSharpM = ''C#m''"
| "tonality_name K_Dbm = ''Dbm''"
| "tonality_name K_Dm = ''Dm''"
| "tonality_name K_DSharpM = ''D#m''"
| "tonality_name K_Ebm = ''Ebm''"
| "tonality_name K_Em = ''Em''"
| "tonality_name K_ESharpM = ''E#m''"
| "tonality_name K_Fm = ''Fm''"
| "tonality_name K_FSharpM = ''F#m''"
| "tonality_name K_Gbm = ''Gbm''"
| "tonality_name K_Gm = ''Gm''"
| "tonality_name K_GSharpM = ''G#m''"
| "tonality_name K_Abm = ''Abm''"
| "tonality_name K_Am = ''Am''"
| "tonality_name K_ASharpM = ''A#m''"
| "tonality_name K_Bbm = ''Bbm''"
| "tonality_name K_Bm = ''Bm''"
| "tonality_name K_BSharpM = ''B#m''"

definition all_tonalities :: "tonality list" where
  "all_tonalities =
     [K_C, K_CSharp, K_Db, K_D, K_DSharp, K_Eb,
      K_E, K_ESharp, K_F, K_FSharp, K_Gb, K_G,
      K_GSharp, K_Ab, K_A, K_ASharp, K_Bb, K_B,
      K_BSharp, K_Cm, K_CSharpM, K_Dbm, K_Dm, K_DSharpM,
      K_Ebm, K_Em, K_ESharpM, K_Fm, K_FSharpM, K_Gbm,
      K_Gm, K_GSharpM, K_Abm, K_Am, K_ASharpM, K_Bbm,
      K_Bm, K_BSharpM]"

text \<open>\<open>serde_json::from_value\<close> of a string into a key.\<close>

definition tonality_of_name :: "string \<Rightarrow> tonality option" where
  "tonality_of_name n = find (\<lambda>t. tonality_name t = n) all_tonalities"

definition MAX_TRANSPOSE :: int where "MAX_TRANSPOSE = 11"

definition SHARP_NAMES :: "string list" where
  "SHARP_NAMES =
     [''C'', ''C#'', ''D'', ''D#'', ''E'', ''F'', ''F#'', ''G'', ''G#'', ''A'', ''A#'', ''B'']"

definition FLAT_NAMES :: "string list" where
  "FLAT_NAMES =
     [''C'', ''Db'', ''D'', ''Eb'', ''E'', ''F'', ''Gb'', ''G'', ''Ab'', ''A'', ''Bb'', ''B'']"

definition MAJOR_KEYS :: "string list" where
  "MAJOR_KEYS =
     [''C'', ''Db'', ''D'', ''Eb'', ''E'', ''F'', ''F#'', ''G'', ''Ab'', ''A'', ''Bb'', ''B'']"

definition MINOR_KEYS :: "string list" where
  "MINOR_KEYS =
     [''Cm'', ''C#m'', ''Dm'', ''Ebm'', ''Em'', ''Fm'', ''F#m'', ''Gm'', ''G#m'', ''Am'', ''Bbm'', ''Bm'']"

definition MAJOR_SIGNATURE :: "int list" where
  "MAJOR_SIGNATURE = [0, -5, 2, -3, 4, -1, 6, 1, -4, 3, -2, 5]"

definition MINOR_SIGNATURE :: "int list" where
  "MINOR_SIGNATURE = [-3, 4, -1, -6, 1, -4, 3, -2, 5, 0, -5, 2]"

definition wrap :: "int \<Rightarrow> nat" where
  "wrap pitch = nat (pitch mod 12)"

definition note_base :: "char \<Rightarrow> int option" where
  "note_base c =
     (if c = CHR ''C'' then Some 0 else if c = CHR ''D'' then Some 2
      else if c = CHR ''E'' then Some 4 else if c = CHR ''F'' then Some 5
      else if c = CHR ''G'' then Some 7 else if c = CHR ''A'' then Some 9
      else if c = CHR ''B'' then Some 11 else None)"

definition leading_note :: "string \<Rightarrow> (int \<times> nat) option" where
  "leading_note s =
     (case s of
        [] \<Rightarrow> None
      | c # cs \<Rightarrow>
          (case note_base c of
             None \<Rightarrow> None
           | Some base \<Rightarrow>
               (case cs of
                  d # _ \<Rightarrow>
                    if d = CHR ''#'' then Some (base + 1, 2)
                    else if d = CHR ''b'' then Some (base - 1, 2)
                    else Some (base, 1)
                | [] \<Rightarrow> Some (base, 1))))"

definition spell :: "int \<Rightarrow> bool \<Rightarrow> string" where
  "spell pitch flats = (if flats then FLAT_NAMES ! wrap pitch else SHARP_NAMES ! wrap pitch)"

definition key_of :: "string \<Rightarrow> (int \<times> bool) option" where
  "key_of symbol =
     (case leading_note symbol of
        None \<Rightarrow> None
      | Some (pitch, len) \<Rightarrow>
          let rest = drop len symbol;
              minor = starts_with rest ''m'' \<and> \<not> starts_with rest ''maj''
          in Some (pitch, minor))"

definition transpose_tonality :: "tonality \<Rightarrow> int \<Rightarrow> tonality" where
  "transpose_tonality tonality semitones =
     (if semitones = 0 then tonality
      else case key_of (tonality_name tonality) of
        None \<Rightarrow> tonality
      | Some (pitch, minor) \<Rightarrow>
          let target = pitch + semitones;
              name = (if minor then MINOR_KEYS ! wrap target else MAJOR_KEYS ! wrap target)
          in unwrap_or (tonality_of_name name) tonality)"

definition prefers_flats :: "tonality option \<Rightarrow> int \<Rightarrow> string option \<Rightarrow> bool" where
  "prefers_flats tonality semitones first_chord =
     (case or_else (Option.bind (map_option tonality_name tonality) key_of)
                   (Option.bind first_chord key_of) of
        None \<Rightarrow> False
      | Some (pitch, minor) \<Rightarrow>
          let index = wrap (pitch + semitones);
              signature = (if minor then MINOR_SIGNATURE ! index else MAJOR_SIGNATURE ! index)
          in signature < 0)"

section \<open>Chords\<close>

text \<open>The bass of a slash chord, when the whole of it is a note name.\<close>

definition transposable_bass :: "string \<Rightarrow> string \<times> string option" where
  "transposable_bass trimmed =
     (case rsplit_once (CHR ''/'') trimmed of
        Some (main, bass) \<Rightarrow>
          if is_some_and (leading_note bass) (\<lambda>(_, len). len = length bass)
          then (main, Some bass) else (trimmed, None)
      | None \<Rightarrow> (trimmed, None))"

definition transpose_chord :: "string \<Rightarrow> int \<Rightarrow> bool \<Rightarrow> string" where
  "transpose_chord symbol semitones flats =
     (let trimmed = trim symbol in
      if semitones = 0 \<or> \<not> is_chord trimmed then symbol
      else (case leading_note trimmed of
        None \<Rightarrow> symbol
      | Some (root, root_len) \<Rightarrow>
          let (main, bass) = transposable_bass trimmed
          in spell (root + semitones) flats @ drop root_len main
             @ (case Option.bind bass leading_note of
                  Some (bass_pitch, _) \<Rightarrow> CHR ''/'' # spell (bass_pitch + semitones) flats
                | None \<Rightarrow> [])))"

section \<open>Charts\<close>

text \<open>The first bracketed chord of a line.\<close>

function bracketed_chord :: "string \<Rightarrow> string option" where
  "bracketed_chord rest =
     (case split_once (CHR ''['') rest of
        None \<Rightarrow> None
      | Some (ahead, after) \<Rightarrow>
          (case split_once (CHR '']'') after of
             None \<Rightarrow> None
           | Some (inner0, rest') \<Rightarrow>
               let inner = trim inner0 in
               if is_chord inner \<and> leading_note inner \<noteq> None then Some inner
               else bracketed_chord rest'))"
  by pat_completeness auto
termination
  by (relation "measure length") (auto dest!: split_once_Some)

declare bracketed_chord.simps [simp del]

fun first_chord_lines :: "string list \<Rightarrow> string option" where
  "first_chord_lines [] = None"
| "first_chord_lines (line # ls) =
     (case bracketed_chord line of
        Some c \<Rightarrow> Some c
      | None \<Rightarrow>
          let found =
            (if CHR ''['' \<notin> set line \<and> is_chord_only_line line
             then find (\<lambda>t. is_chord t \<and> leading_note t \<noteq> None)
                       (map (trim_matches is_paren) (split_whitespace line))
             else None)
          in (case found of Some c \<Rightarrow> Some c | None \<Rightarrow> first_chord_lines ls))"

definition first_chord :: "string \<Rightarrow> string option" where
  "first_chord lyrics = first_chord_lines (str_lines lyrics)"

function transpose_bracketed :: "string \<Rightarrow> int \<Rightarrow> bool \<Rightarrow> string" where
  "transpose_bracketed rest semitones flats =
     (case split_once (CHR ''['') rest of
        None \<Rightarrow> rest
      | Some (ahead, after) \<Rightarrow>
          (case split_once (CHR '']'') after of
             None \<Rightarrow> rest
           | Some (inner, rest') \<Rightarrow>
               ahead @ CHR ''['' # transpose_chord inner semitones flats
               @ CHR '']'' # transpose_bracketed rest' semitones flats))"
  by pat_completeness auto
termination
  by (relation "measure (\<lambda>(rest, _, _). length rest)") (auto dest!: split_once_Some)

declare transpose_bracketed.simps [simp del]

text \<open>\<open>(G)\<close> is \<open>(\<close>, \<open>G\<close> and \<open>)\<close>.\<close>

definition split_parens :: "string \<Rightarrow> string \<times> string \<times> string" where
  "split_parens token =
     (let open_len = length token - length (trim_start_matches (\<lambda>c. c = CHR ''('') token);
          inner = drop open_len token;
          core = trim_end_matches (\<lambda>c. c = CHR '')'') inner
      in (take open_len token, core, drop (length core) inner))"

definition rewrite_token :: "string \<Rightarrow> int \<Rightarrow> bool \<Rightarrow> string" where
  "rewrite_token token semitones flats =
     (let (opening, core, closing) = split_parens token
      in opening @ transpose_chord core semitones flats @ closing)"

text \<open>The tokens of the line, each padded to its column.\<close>

fun place_tokens :: "nat \<Rightarrow> (nat \<times> string) list \<Rightarrow> int \<Rightarrow> bool \<Rightarrow> string" where
  "place_tokens column [] semitones flats = []"
| "place_tokens column ((start, token) # ts) semitones flats =
     (let rewritten = rewrite_token token semitones flats;
          target = (if column = 0 then start else max start (column + 1));
          pad = target - column
      in replicate pad (CHR '' '') @ rewritten
         @ place_tokens (column + pad + length rewritten) ts semitones flats)"

definition transpose_chord_line :: "string \<Rightarrow> int \<Rightarrow> bool \<Rightarrow> string" where
  "transpose_chord_line line semitones flats =
     place_tokens 0 (tokens_at 0 line) semitones flats"

definition transpose_line :: "string \<Rightarrow> int \<Rightarrow> bool \<Rightarrow> string" where
  "transpose_line line semitones flats =
     (let trimmed = trim line in
      if starts_with trimmed ''{'' \<or> starts_with trimmed ''#'' then line
      else if CHR ''['' \<in> set line then transpose_bracketed line semitones flats
      else if is_chord_only_line line then transpose_chord_line line semitones flats
      else line)"

definition transpose_lyrics :: "string \<Rightarrow> int \<Rightarrow> bool \<Rightarrow> string" where
  "transpose_lyrics lyrics semitones flats =
     (if semitones = 0 then lyrics
      else join_char (CHR 0x0A)
             (map (\<lambda>line. transpose_line line semitones flats) (split_char (CHR 0x0A) lyrics)))"

text \<open>
  The fields of \<open>SongWithArtist\<close> that a setlist's key touches; every other field of the
  song is in the record's extension, which the code leaves as it is.
\<close>

record keyed_song =
  song_transpose :: "int option"
  song_lyrics :: "string option"
  song_tonality :: "tonality option"

definition clamp :: "int \<Rightarrow> int \<Rightarrow> int \<Rightarrow> int" where
  "clamp lo hi x = (if x < lo then lo else if x > hi then hi else x)"

definition apply_setlist_key :: "'a keyed_song_scheme \<Rightarrow> 'a keyed_song_scheme" where
  "apply_setlist_key song0 =
     (let semitones = clamp (- MAX_TRANSPOSE) MAX_TRANSPOSE (unwrap_or (song_transpose song0) 0);
          song = song0\<lparr>song_transpose := None\<rparr>
      in if semitones = 0 then song
         else
           let song =
                 (case song_lyrics song of
                    None \<Rightarrow> song
                  | Some lyrics \<Rightarrow>
                      let flats = prefers_flats (song_tonality song) semitones (first_chord lyrics)
                      in song\<lparr>song_lyrics := Some (transpose_lyrics lyrics semitones flats)\<rparr>)
           in song\<lparr>song_tonality :=
                map_option (\<lambda>t. transpose_tonality t semitones) (song_tonality song)\<rparr>)"

section \<open>Moves of a pitched object\<close>

text \<open>
  What keys and chords share: a move by \<open>n\<close> semitones keeps an object well formed and
  shifts its pitch class by \<open>n\<close>. Clients may then reason about any sequence of moves.
\<close>

locale transposable =
  fixes move :: "int \<Rightarrow> 'a \<Rightarrow> 'a"
    and pitch :: "'a \<Rightarrow> int"
    and good :: "'a \<Rightarrow> bool"
  assumes good_move: "good x \<Longrightarrow> good (move n x)"
    and pitch_move: "good x \<Longrightarrow> pitch (move n x) mod 12 = (pitch x + n) mod 12"
begin

lemma good_moves: "good x \<Longrightarrow> good (fold move ns x)"
  by (induction ns arbitrary: x) (auto intro: good_move)

lemma pitch_moves: "good x \<Longrightarrow> pitch (fold move ns x) mod 12 = (pitch x + sum_list ns) mod 12"
proof (induction ns arbitrary: x)
  case Nil
  then show ?case by simp
next
  case (Cons n ns)
  have "pitch (fold move (n # ns) x) mod 12 = (pitch (move n x) + sum_list ns) mod 12"
    using Cons by (simp add: good_move)
  also have "\<dots> = (pitch (move n x) mod 12 + sum_list ns) mod 12"
    by (simp add: mod_add_left_eq)
  also have "\<dots> = (pitch x + sum_list (n # ns)) mod 12"
    using Cons.prems by (simp add: pitch_move mod_add_left_eq add.assoc)
  finally show ?case .
qed

lemma moves_cancel:
  "good x \<Longrightarrow> sum_list ns mod 12 = 0 \<Longrightarrow> pitch (fold move ns x) mod 12 = pitch x mod 12"
  using pitch_moves [of x ns] by (metis add.right_neutral mod_add_right_eq)

end

lemma wrap_less [simp]: "wrap p < 12"
  by (simp add: wrap_def nat_less_iff)

lemma int_wrap [simp]: "int (wrap p) = p mod 12"
  by (simp add: wrap_def)

lemma wrap_cong: "p mod 12 = q mod 12 \<Longrightarrow> wrap p = wrap q"
  by (simp add: wrap_def)

lemma less_12_cases: "(\<And>k. k \<in> set [0..<12] \<Longrightarrow> P k) \<Longrightarrow> k < 12 \<Longrightarrow> P k"
  by simp

subsection \<open>Keys\<close>

definition tonality_pitch :: "tonality \<Rightarrow> int" where
  "tonality_pitch t = (case key_of (tonality_name t) of None \<Rightarrow> 0 | Some (p, _) \<Rightarrow> p)"

definition tonality_minor :: "tonality \<Rightarrow> bool" where
  "tonality_minor t = (case key_of (tonality_name t) of None \<Rightarrow> False | Some (_, m) \<Rightarrow> m)"

lemma all_tonalities_complete: "t \<in> set all_tonalities"
  by (cases t) (simp_all add: all_tonalities_def)

lemma tonality_table:
  "\<forall>t \<in> set all_tonalities. key_of (tonality_name t) = Some (tonality_pitch t, tonality_minor t)
     \<and> tonality_of_name (tonality_name t) = Some t"
  by code_simp

lemma key_of_tonality: "key_of (tonality_name t) = Some (tonality_pitch t, tonality_minor t)"
  and tonality_of_name_inverse: "tonality_of_name (tonality_name t) = Some t"
  using tonality_table all_tonalities_complete by blast+

lemma key_tables:
  "\<forall>k \<in> set [0..<12].
     is_some_and (tonality_of_name (MAJOR_KEYS ! k))
       (\<lambda>t. tonality_pitch t mod 12 = int k \<and> \<not> tonality_minor t) \<and>
     is_some_and (tonality_of_name (MINOR_KEYS ! k))
       (\<lambda>t. tonality_pitch t mod 12 = int k \<and> tonality_minor t)"
  by code_simp

lemma transpose_tonality_key:
  "tonality_pitch (transpose_tonality t n) mod 12 = (tonality_pitch t + n) mod 12
   \<and> tonality_minor (transpose_tonality t n) = tonality_minor t"
proof (cases "n = 0")
  case True
  then show ?thesis by (simp add: transpose_tonality_def)
next
  case False
  let ?k = "wrap (tonality_pitch t + n)"
  have "?k \<in> set [0..<12]" by simp
  from key_tables [rule_format, OF this] False show ?thesis
    by (auto simp: transpose_tonality_def key_of_tonality Let_def is_some_and_def
        split: option.splits)
qed

interpretation keys: transposable "\<lambda>n t. transpose_tonality t n" tonality_pitch "\<lambda>_. True"
  by unfold_locales (simp_all add: transpose_tonality_key)

text \<open>The written key depends on the pitch reached and the mode only.\<close>

lemma transpose_tonality_canonical:
  "n \<noteq> 0 \<Longrightarrow> m \<noteq> 0 \<Longrightarrow> (tonality_pitch t + n) mod 12 = (tonality_pitch u + m) mod 12 \<Longrightarrow>
   tonality_minor t = tonality_minor u \<Longrightarrow> transpose_tonality t n = transpose_tonality u m"
proof -
  assume nz: "n \<noteq> 0" "m \<noteq> 0" and minor: "tonality_minor t = tonality_minor u"
    and pitch: "(tonality_pitch t + n) mod 12 = (tonality_pitch u + m) mod 12"
  have "wrap (tonality_pitch t + n) \<in> set [0..<12]" by simp
  from key_tables [rule_format, OF this] nz minor wrap_cong [OF pitch] show ?thesis
    by (auto simp: transpose_tonality_def key_of_tonality Let_def is_some_and_def
        split: option.splits)
qed

lemma transpose_tonality_add:
  assumes "b \<noteq> 0" and "a + b \<noteq> 0"
  shows "transpose_tonality (transpose_tonality t a) b = transpose_tonality t (a + b)"
proof (rule transpose_tonality_canonical [OF assms])
  have "(tonality_pitch (transpose_tonality t a) + b) mod 12
        = (tonality_pitch (transpose_tonality t a) mod 12 + b) mod 12"
    by (simp add: mod_add_left_eq)
  then show "(tonality_pitch (transpose_tonality t a) + b) mod 12
        = (tonality_pitch t + (a + b)) mod 12"
    using transpose_tonality_key [of t a] by (simp add: mod_add_left_eq add.assoc)
qed (simp add: transpose_tonality_key)

subsection \<open>Chords\<close>

lemma code_inject [simp]: "code c = code d \<longleftrightarrow> c = d"
  by (simp add: code_def)

lemma code_notes:
  "code (CHR ''A'') = 65" "code (CHR ''B'') = 66" "code (CHR ''C'') = 67" "code (CHR ''D'') = 68"
  "code (CHR ''E'') = 69" "code (CHR ''F'') = 70" "code (CHR ''G'') = 71"
  by (simp_all add: code_def)

lemma note_base_Some: "note_base c \<noteq> None \<longleftrightarrow> 65 \<le> code c \<and> code c \<le> 71"
proof -
  have "65 \<le> code c \<and> code c \<le> 71 \<longleftrightarrow> code c \<in> {65, 66, 67, 68, 69, 70, 71}" by auto
  also have "\<dots> \<longleftrightarrow> c \<in> {CHR ''A'', CHR ''B'', CHR ''C'', CHR ''D'', CHR ''E'', CHR ''F'', CHR ''G''}"
    unfolding code_notes [symmetric] by (simp only: insert_iff code_inject empty_iff)
  also have "\<dots> \<longleftrightarrow> note_base c \<noteq> None" by (auto simp: note_base_def)
  finally show ?thesis by simp
qed

definition note_name :: "string \<Rightarrow> bool" where
  "note_name r = (\<exists>p. leading_note r = Some (p, length r))"

text \<open>A quality that cannot be read as the accidental of the root before it.\<close>

definition plain_quality :: "string \<Rightarrow> bool" where
  "plain_quality q = (case q of [] \<Rightarrow> True | c # _ \<Rightarrow> c \<noteq> CHR ''#'' \<and> c \<noteq> CHR ''b'')"

lemma note_name_cases:
  "note_name r \<longleftrightarrow>
     (\<exists>c. note_base c \<noteq> None \<and> (r = [c] \<or> r = [c, CHR ''#''] \<or> r = [c, CHR ''b'']))"
  by (auto simp: note_name_def leading_note_def split: list.splits option.splits if_splits)

lemma note_name_is_note: "note_name r \<longleftrightarrow> is_note r = Some []"
proof (cases r)
  case Nil
  then show ?thesis by (simp add: note_name_cases)
next
  case (Cons c cs)
  have "unwrap_or (or_else (strip_prefix ''#'' cs) (strip_prefix ''b'' cs)) cs = []
        \<longleftrightarrow> cs = [] \<or> cs = ''#'' \<or> cs = ''b''"
    by (cases cs) auto
  then show ?thesis
    using note_base_Some [of c] by (auto simp: Cons note_name_cases)
qed

lemma leading_note_append:
  "leading_note r = Some (p, length r) \<Longrightarrow> plain_quality q \<Longrightarrow> leading_note (r @ q) = Some (p, length r)"
  by (auto simp: leading_note_def plain_quality_def split: list.splits option.splits if_splits)

lemma is_note_append: "note_name r \<Longrightarrow> plain_quality q \<Longrightarrow> is_note (r @ q) = Some q"
  using note_base_Some
  by (auto simp: note_name_cases plain_quality_def split: list.splits)

lemma leading_note_split:
  assumes "leading_note s = Some (p, n)"
  shows "leading_note (take n s) = Some (p, n) \<and> n \<le> length s \<and> 0 < n"
  using assms by (auto simp: leading_note_def split: list.splits option.splits if_splits)

lemma is_note_leading_note:
  "is_note s = Some q \<Longrightarrow> \<exists>p. leading_note s = Some (p, length s - length q) \<and> drop (length s - length q) s = q"
proof (cases s)
  case (Cons c cs)
  assume "is_note s = Some q"
  then have c: "note_base c \<noteq> None"
    and q: "q = unwrap_or (or_else (strip_prefix ''#'' cs) (strip_prefix ''b'' cs)) cs"
    using note_base_Some [of c] by (auto simp: Cons split: if_splits)
  then show ?thesis
    by (cases cs) (auto simp: Cons leading_note_def)
qed simp

text \<open>The spelled names: a table of twelve for sharps and one for flats.\<close>

lemma spell_table:
  "\<forall>k \<in> set [0..<12].
     is_some_and (leading_note (SHARP_NAMES ! k)) (\<lambda>(p, n). p mod 12 = int k \<and> n = length (SHARP_NAMES ! k)) \<and>
     is_some_and (leading_note (FLAT_NAMES ! k)) (\<lambda>(p, n). p mod 12 = int k \<and> n = length (FLAT_NAMES ! k))"
  by code_simp

lemma leading_note_spell:
  obtains p where "leading_note (spell n f) = Some (p, length (spell n f))" and "p mod 12 = n mod 12"
proof -
  have "wrap n \<in> set [0..<12]" by simp
  from spell_table [rule_format, OF this]
  have "is_some_and (leading_note (spell n f)) (\<lambda>(p, l). p mod 12 = n mod 12 \<and> l = length (spell n f))"
    by (simp add: spell_def)
  then show ?thesis by (auto simp: is_some_and_def split: option.splits intro: that)
qed

lemma note_name_spell [simp]: "note_name (spell n f)"
  by (rule leading_note_spell [of n f]) (auto simp: note_name_def)

lemma spell_cong: "n mod 12 = m mod 12 \<Longrightarrow> spell n f = spell m f"
  using wrap_cong [of n m] by (simp add: spell_def)

subsubsection \<open>The shape of a chord\<close>

lemma is_ascii_digit_whitespace [simp]: "is_ascii_digit c \<Longrightarrow> \<not> is_whitespace c"
  by (auto simp: is_ascii_digit_def is_whitespace_def)

lemma quality_no_whitespace: "q \<in> set QUALITY_TOKENS \<Longrightarrow> list_all (\<lambda>c. \<not> is_whitespace c) q"
proof -
  have "list_all (list_all (\<lambda>c. \<not> is_whitespace c)) QUALITY_TOKENS" by code_simp
  then show "q \<in> set QUALITY_TOKENS \<Longrightarrow> ?thesis" by (simp add: list_all_iff)
qed

lemma chord_step_prefix:
  "chord_step s = Some r \<Longrightarrow> \<exists>q. s = q @ r \<and> list_all (\<lambda>c. \<not> is_whitespace c) q"
  by (cases s)
     (auto simp: chord_step_def find_Some_iff starts_with_iff is_whitespace_def code_def
        split: if_splits option.splits
        dest: nth_mem [THEN quality_no_whitespace] is_ascii_digit_whitespace)

lemma chord_quality_no_whitespace: "chord_quality q \<Longrightarrow> list_all (\<lambda>c. \<not> is_whitespace c) q"
proof (induction q rule: chord_quality.induct)
  case (1 rest)
  show ?case
  proof (cases "rest = []")
    case False
    with "1.prems" obtain r where r: "chord_step rest = Some r" "chord_quality r"
      by (subst (asm) chord_quality.simps) (auto split: option.splits)
    from chord_step_prefix [OF r(1)] "1.IH" [OF False r] show ?thesis by auto
  qed simp
qed

lemma trim_id:
  "s = [] \<or> \<not> is_whitespace (hd s) \<and> \<not> is_whitespace (last s) \<Longrightarrow> trim s = s"
  by (cases s) (auto simp: trim_def trim_matches_def trim_start_matches_def trim_end_matches_eq)

lemma trim_no_whitespace: "list_all (\<lambda>c. \<not> is_whitespace c) s \<Longrightarrow> trim s = s"
  by (intro trim_id) (cases s rule: rev_cases, auto simp: list_all_iff hd_append)

text \<open>A chord without a bass note: no slash, or one with nothing or a number behind it.\<close>

definition no_bass :: "string \<Rightarrow> bool" where
  "no_bass q = (\<forall>a b. rsplit_once (CHR ''/'') q = Some (a, b) \<longrightarrow> b = [] \<or> list_all is_ascii_digit b)"

definition bass_text :: "string option \<Rightarrow> string" where
  "bass_text bass = (case bass of None \<Rightarrow> [] | Some b \<Rightarrow> CHR ''/'' # b)"

definition chord_shape :: "string \<Rightarrow> string \<Rightarrow> string option \<Rightarrow> bool" where
  "chord_shape r q bass =
     (note_name r \<and> plain_quality q \<and> chord_quality q \<and>
      (case bass of None \<Rightarrow> no_bass q | Some b \<Rightarrow> note_name b))"

lemma note_name_chars:
  assumes "note_name r"
  shows "r \<noteq> []" and "CHR ''/'' \<notin> set r" and "list_all (\<lambda>c. \<not> is_whitespace c) r"
    and "\<not> list_all is_ascii_digit r"
  using assms note_base_Some
  by (auto simp: note_name_cases is_whitespace_def is_ascii_digit_def note_base_def code_def
      split: if_splits)

lemma rsplit_once_append_prefix:
  "c \<notin> set r \<Longrightarrow> rsplit_once c (r @ q) = map_option (\<lambda>(a, b). (r @ a, b)) (rsplit_once c q)"
proof (cases "rsplit_once c q")
  case None
  then have "c \<notin> set q" by (simp add: rsplit_once_None)
  moreover assume "c \<notin> set r"
  ultimately have "rsplit_once c (r @ q) = None" by (simp add: rsplit_once_None)
  then show ?thesis using None by simp
next
  case (Some ab)
  obtain a b where ab: "ab = (a, b)" by (cases ab)
  from rsplit_once_Some Some ab have "q = a @ c # b" "c \<notin> set b" by blast+
  then show ?thesis
    using rsplit_once_append [of c b "r @ a"] Some ab by simp
qed

lemma split_bass_shape:
  assumes "chord_shape r q bass"
  shows "split_bass (r @ q @ bass_text bass) = (r @ q, bass)"
    and "transposable_bass (r @ q @ bass_text bass) = (r @ q, bass)"
proof (atomize(full), cases bass)
  case None
  have r: "CHR ''/'' \<notin> set r"
    using assms by (simp add: chord_shape_def note_name_chars)
  show "split_bass (r @ q @ bass_text bass) = (r @ q, bass) \<and>
        transposable_bass (r @ q @ bass_text bass) = (r @ q, bass)"
  proof (cases "rsplit_once (CHR ''/'') q")
    case None' [simp]: None
    show ?thesis
      by (simp add: \<open>bass = None\<close> bass_text_def split_bass_def transposable_bass_def
          rsplit_once_append_prefix [OF r])
  next
    case (Some ab)
    obtain a b where ab: "ab = (a, b)" by (cases ab)
    with Some assms \<open>bass = None\<close> have b: "b = [] \<or> list_all is_ascii_digit b"
      by (auto simp: chord_shape_def no_bass_def)
    then have "leading_note b = None"
      by (cases b) (auto simp: leading_note_def note_base_def is_ascii_digit_def code_def)
    with b show ?thesis
      by (auto simp: \<open>bass = None\<close> bass_text_def split_bass_def transposable_bass_def
          rsplit_once_append_prefix [OF r] Some ab)
  qed
next
  case (Some b)
  with assms have b: "note_name b" by (simp add: chord_shape_def)
  note nb = note_name_chars [OF b]
  have "rsplit_once (CHR ''/'') (r @ q @ bass_text bass) = Some (r @ q, b)"
    using rsplit_once_append [OF nb(2), of "r @ q"] by (simp add: Some bass_text_def)
  with nb b show "split_bass (r @ q @ bass_text bass) = (r @ q, bass) \<and>
        transposable_bass (r @ q @ bass_text bass) = (r @ q, bass)"
    by (auto simp: Some split_bass_def transposable_bass_def note_name_def)
qed

lemma slash_not_whitespace [simp]: "\<not> is_whitespace (CHR ''/'')"
  by (simp add: is_whitespace_def code_def)

lemma trim_shape: "chord_shape r q bass \<Longrightarrow> trim (r @ q @ bass_text bass) = r @ q @ bass_text bass"
  by (intro trim_no_whitespace)
     (auto simp: chord_shape_def bass_text_def note_name_chars chord_quality_no_whitespace
        split: option.splits)

lemma code_lower_note:
  "note_base c \<noteq> None \<Longrightarrow> code (to_ascii_lowercase c) = code c + 32"
  using note_base_Some [of c]
  by (auto simp: to_ascii_lowercase_def is_ascii_uppercase_def code_def)

lemma note_not_nc:
  assumes "note_name r"
  shows "\<not> eq_ignore_ascii_case (r @ s) ''n.c.'' \<and> \<not> eq_ignore_ascii_case (r @ s) ''nc''"
proof -
  obtain c cs where r: "r @ s = c # cs" and c: "note_base c \<noteq> None"
    using assms by (auto simp: note_name_cases)
  have "code (to_ascii_lowercase c) < code (to_ascii_lowercase (CHR ''n''))"
    using code_lower_note [OF c] note_base_Some [of c] c
    by (simp add: to_ascii_lowercase_def is_ascii_uppercase_def code_def)
  then have "to_ascii_lowercase c \<noteq> to_ascii_lowercase (CHR ''n'')" by auto
  then show ?thesis by (simp add: eq_ignore_ascii_case_def r)
qed

lemma is_chord_shape:
  assumes "chord_shape r q bass"
  shows "is_chord (r @ q @ bass_text bass)"
proof -
  have "is_note (r @ q) = Some q"
    using assms by (intro is_note_append) (simp_all add: chord_shape_def)
  moreover have "is_some_and bass (\<lambda>b. is_note b \<noteq> Some []) = False"
    using assms by (auto simp: chord_shape_def note_name_is_note split: option.splits)
  ultimately show ?thesis
    using assms
    by (simp add: is_chord_def trim_shape split_bass_shape Let_def chord_shape_def)
qed

lemma split_bass_text: "split_bass s = (main, bass) \<Longrightarrow> s = main @ bass_text bass"
  by (auto simp: split_bass_def bass_text_def split: option.splits if_splits dest!: rsplit_once_Some)

lemma leading_note_bass_text: "main \<noteq> [] \<Longrightarrow> leading_note (main @ bass_text bass) = leading_note main"
  by (cases main)
     (auto simp: leading_note_def bass_text_def split: list.splits option.splits)

lemma chord_shapeI:
  assumes "is_chord s" and "trim s = s" and "leading_note s = Some (p, n)"
    and "split_bass s = (main, bass)" and "plain_quality (drop n main)"
  shows "chord_shape (take n s) (drop n main) bass
         \<and> s = take n s @ drop n main @ bass_text bass \<and> leading_note (take n s) = Some (p, n)"
proof -
  have s: "s = main @ bass_text bass" using assms(4) by (rule split_bass_text)
  have r: "leading_note (take n s) = Some (p, n)" and n: "n \<le> length s" "0 < n"
    using leading_note_split [OF assms(3)] by simp_all
  then have nr: "note_name (take n s)" by (auto simp: note_name_def)
  from note_not_nc [OF nr, of "drop n s"] have "\<not> eq_ignore_ascii_case s ''n.c.''"
    and "\<not> eq_ignore_ascii_case s ''nc''" by simp_all
  with assms(1,2,4) have b: "\<not> is_some_and bass (\<lambda>b. is_note b \<noteq> Some [])"
    and m: "is_some_and (is_note main) chord_quality"
    by (auto simp: is_chord_def is_some_and_def split: if_splits option.splits)
  from m obtain q where q: "is_note main = Some q" "chord_quality q"
    by (auto simp: is_some_and_def split: option.splits)
  then have "main \<noteq> []" by auto
  from is_note_leading_note [OF q(1)] leading_note_bass_text [OF this, of bass] assms(3) s
  have n': "n = length main - length q" "drop n main = q" by auto
  then have tn: "take n s = take n main" by (simp add: s)
  have slash: "CHR ''/'' \<notin> set (take n s)" using note_name_chars(2) [OF nr] .
  have "no_bass q" if "bass = None"
  proof -
    have "main = s" using that s by (simp add: bass_text_def)
    then have "take n s @ q = s" using n' append_take_drop_id [of n s] by simp
    then have "split_bass (take n s @ q) = (s, None)" using assms(4) that \<open>main = s\<close> by simp
    then show ?thesis
      by (auto simp: split_bass_def no_bass_def rsplit_once_append_prefix [OF slash]
          split: option.splits if_splits)
  qed
  moreover have "note_name b" if "bass = Some b" for b
    using b that by (simp add: note_name_is_note)
  ultimately have "chord_shape (take n s) q bass"
    using nr q(2) assms(5) n' by (simp add: chord_shape_def split: option.splits)
  moreover have "s = take n s @ q @ bass_text bass"
    using s tn n' append_take_drop_id [of n main] by (metis append_assoc)
  ultimately show ?thesis using r n' by simp
qed

subsubsection \<open>Transposing a shape\<close>

definition move_bass :: "int \<Rightarrow> bool \<Rightarrow> string option \<Rightarrow> string option" where
  "move_bass n f bass =
     map_option (\<lambda>b. spell ((case leading_note b of None \<Rightarrow> 0 | Some (p, _) \<Rightarrow> p) + n) f) bass"

lemma chord_shape_move: "chord_shape r q bass \<Longrightarrow> chord_shape (spell n f) q (move_bass m f bass)"
  by (auto simp: chord_shape_def move_bass_def split: option.splits)

lemma chord_shape_leading_note:
  assumes "chord_shape r q bass" and "leading_note r = Some (p, length r)"
  shows "leading_note (r @ q @ bass_text bass) = Some (p, length r)"
proof -
  have "r \<noteq> []" using assms(1) by (simp add: chord_shape_def note_name_chars)
  then have "leading_note (r @ q @ bass_text bass) = leading_note (r @ q)"
    using leading_note_bass_text [of "r @ q" bass] by simp
  also have "\<dots> = Some (p, length r)"
    using assms by (intro leading_note_append) (simp_all add: chord_shape_def)
  finally show ?thesis .
qed

lemma transpose_chord_shape:
  assumes shape: "chord_shape r q bass" and r: "leading_note r = Some (p, length r)" and n: "n \<noteq> 0"
  shows "transpose_chord (r @ q @ bass_text bass) n f
         = spell (p + n) f @ q @ bass_text (move_bass n f bass)"
proof -
  have "(case Option.bind bass leading_note of
           Some (bass_pitch, _) \<Rightarrow> CHR ''/'' # spell (bass_pitch + n) f | None \<Rightarrow> [])
        = bass_text (move_bass n f bass)"
    using shape
    by (auto simp: chord_shape_def bass_text_def move_bass_def note_name_def split: option.splits)
  then show ?thesis
    by (simp add: transpose_chord_def n trim_shape [OF shape] is_chord_shape [OF shape]
        chord_shape_leading_note [OF shape r] split_bass_shape [OF shape] Let_def)
qed

lemma move_bass_add: "move_bass b f (move_bass a f bass) = move_bass (a + b) f bass"
proof (cases bass)
  case (Some x)
  define p where "p = (case leading_note x of None \<Rightarrow> 0 | Some (p, _) \<Rightarrow> p)"
  obtain p' where p': "leading_note (spell (p + a) f) = Some (p', length (spell (p + a) f))"
    "p' mod 12 = (p + a) mod 12" by (rule leading_note_spell)
  have "(p' + b) mod 12 = (p + (a + b)) mod 12"
    using p'(2) by (metis add.assoc mod_add_left_eq)
  from spell_cong [OF this] p'(1) show ?thesis
    by (simp add: move_bass_def Some p_def)
qed (simp add: move_bass_def)

lemma transpose_shape_add:
  assumes shape: "chord_shape r q bass" and r: "leading_note r = Some (p, length r)"
    and "a \<noteq> 0" and "b \<noteq> 0" and "a + b \<noteq> 0"
  defines "s \<equiv> r @ q @ bass_text bass"
  shows "transpose_chord (transpose_chord s a f) b f = transpose_chord s (a + b) f"
proof -
  obtain p' where p': "leading_note (spell (p + a) f) = Some (p', length (spell (p + a) f))"
    "p' mod 12 = (p + a) mod 12" by (rule leading_note_spell)
  have "(p' + b) mod 12 = (p + (a + b)) mod 12"
    using p'(2) by (metis add.assoc mod_add_left_eq)
  then have "spell (p' + b) f = spell (p + (a + b)) f" by (rule spell_cong)
  then show ?thesis
    unfolding s_def transpose_chord_shape [OF shape r \<open>a \<noteq> 0\<close>]
      transpose_chord_shape [OF chord_shape_move [OF shape] p'(1) \<open>b \<noteq> 0\<close>]
      transpose_chord_shape [OF shape r \<open>a + b \<noteq> 0\<close>] move_bass_add
    by simp
qed

text \<open>Chords that can be moved any number of times.\<close>

definition good_chord :: "string \<Rightarrow> bool" where
  "good_chord s = (\<exists>r q bass. chord_shape r q bass \<and> s = r @ q @ bass_text bass)"

definition chord_pitch :: "string \<Rightarrow> int" where
  "chord_pitch s = (case leading_note s of None \<Rightarrow> 0 | Some (p, _) \<Rightarrow> p)"

lemma good_chord_cases:
  assumes "good_chord s"
  obtains r q bass p where "chord_shape r q bass" and "s = r @ q @ bass_text bass"
    and "leading_note r = Some (p, length r)" and "chord_pitch s = p"
proof -
  from assms obtain r q bass where rq: "chord_shape r q bass" "s = r @ q @ bass_text bass"
    by (auto simp: good_chord_def)
  from rq(1) obtain p where p: "leading_note r = Some (p, length r)"
    by (auto simp: chord_shape_def note_name_def)
  with rq have "chord_pitch s = p"
    by (simp add: chord_pitch_def chord_shape_leading_note)
  with rq p show ?thesis by (rule that)
qed

lemma transpose_good_chord:
  assumes "good_chord s"
  shows "good_chord (transpose_chord s n f)
         \<and> chord_pitch (transpose_chord s n f) mod 12 = (chord_pitch s + n) mod 12"
proof (cases "n = 0")
  case True
  with assms show ?thesis by (simp add: transpose_chord_def)
next
  case False
  from assms obtain r q bass p where c: "chord_shape r q bass" "s = r @ q @ bass_text bass"
    "leading_note r = Some (p, length r)" "chord_pitch s = p" by (rule good_chord_cases)
  obtain p' where p': "leading_note (spell (p + n) f) = Some (p', length (spell (p + n) f))"
    "p' mod 12 = (p + n) mod 12" by (rule leading_note_spell)
  note moved = chord_shape_move [OF c(1), of "p + n" f n]
  from moved have "chord_pitch (spell (p + n) f @ q @ bass_text (move_bass n f bass)) = p'"
    using p'(1) by (simp add: chord_pitch_def chord_shape_leading_note)
  with p'(2) c moved transpose_chord_shape [OF c(1,3) False, of f] show ?thesis
    by (auto simp: good_chord_def)
qed

interpretation chords: transposable "\<lambda>n s. transpose_chord s n f" chord_pitch good_chord for f
  by unfold_locales (simp_all add: transpose_good_chord)

subsection \<open>Lines and charts\<close>

text \<open>Transposing writes note names only.\<close>

definition note_chars :: "char set" where
  "note_chars = set ''ABCDEFG#b''"

lemma names_length: "length SHARP_NAMES = 12" "length FLAT_NAMES = 12"
  by (simp_all add: SHARP_NAMES_def FLAT_NAMES_def)

lemma spell_chars: "set (spell n f) \<subseteq> note_chars"
proof -
  have "list_all (list_all (\<lambda>c. c \<in> set ''ABCDEFG#b'')) (SHARP_NAMES @ FLAT_NAMES)"
    by code_simp
  then have t: "\<And>s. s \<in> set SHARP_NAMES \<union> set FLAT_NAMES \<Longrightarrow> set s \<subseteq> note_chars"
    by (auto simp: list_all_iff note_chars_def)
  have "spell n f \<in> set SHARP_NAMES \<union> set FLAT_NAMES"
    by (simp add: spell_def names_length)
  then show ?thesis by (rule t)
qed

lemma trim_subset: "set (trim s) \<subseteq> set s"
  unfolding trim_def trim_matches_def
  using trim_end_matches_subset trim_start_matches_subset by blast

lemma transpose_chord_chars: "set (transpose_chord s n f) \<subseteq> set s \<union> note_chars \<union> {CHR ''/''}"
proof -
  have main: "set main \<subseteq> set s" if "transposable_bass (trim s) = (main, bass)" for main bass
  proof -
    have "\<exists>t. trim s = main @ t"
      using that rsplit_once_Some [of _ "trim s"]
      by (fastforce simp: transposable_bass_def split: option.splits if_splits)
    then have "set main \<subseteq> set (trim s)" by (metis set_append sup_ge1)
    with trim_subset show ?thesis by blast
  qed
  obtain main bass where tb: "transposable_bass (trim s) = (main, bass)" by fastforce
  have moved: "set (transpose_chord s n f) \<subseteq> set s \<union> set (spell x f) \<union> set main \<union> {CHR ''/''} \<union> set (spell y f)"
    if "leading_note (trim s) = Some (p, k)" "x = p + n"
       "y = (case Option.bind bass leading_note of None \<Rightarrow> 0 | Some (q, _) \<Rightarrow> q) + n" for x y p k
    using that tb
    by (auto simp: transpose_chord_def Let_def dest: in_set_dropD split: option.splits if_splits)
  show ?thesis
  proof (cases "leading_note (trim s)")
    case None
    then have "transpose_chord s n f = s" by (simp add: transpose_chord_def Let_def)
    then show ?thesis by auto
  next
    case (Some pk)
    obtain p k where pk: "pk = (p, k)" by (cases pk)
    show ?thesis
      by (rule order_trans [OF moved [OF Some [unfolded pk] refl refl]])
         (use spell_chars [of _ f] main [OF tb] in blast)
  qed
qed

lemma note_chars_not_whitespace: "c \<in> note_chars \<Longrightarrow> \<not> is_whitespace c"
  by (auto simp: note_chars_def is_whitespace_def code_def)

lemma transpose_bracketed_none:
  "split_once (CHR ''['') s = None \<Longrightarrow> transpose_bracketed s n f = s"
  by (subst transpose_bracketed.simps) simp

lemma transpose_bracketed_unclosed:
  "split_once (CHR ''['') s = Some (ahead, after) \<Longrightarrow> split_once (CHR '']'') after = None \<Longrightarrow>
   transpose_bracketed s n f = s"
  by (subst transpose_bracketed.simps) simp

lemma transpose_bracketed_chord:
  "split_once (CHR ''['') s = Some (ahead, after) \<Longrightarrow>
   split_once (CHR '']'') after = Some (inner, rest) \<Longrightarrow>
   transpose_bracketed s n f =
     ahead @ CHR ''['' # transpose_chord inner n f @ CHR '']'' # transpose_bracketed rest n f"
  by (subst transpose_bracketed.simps) simp

lemma transpose_bracketed_chars:
  "set (transpose_bracketed s n f) \<subseteq> set s \<union> note_chars \<union> {CHR ''/''}"
proof (induction s n f rule: transpose_bracketed.induct)
  case (1 rest n f)
  show ?case
  proof (cases "split_once (CHR ''['') rest")
    case None
    then show ?thesis by (auto simp: transpose_bracketed_none)
  next
    case (Some ba)
    obtain ahead after where ba: "ba = (ahead, after)" by (cases ba)
    show ?thesis
    proof (cases "split_once (CHR '']'') after")
      case None
      with Some ba show ?thesis by (auto simp: transpose_bracketed_unclosed)
    next
      case (Some ir)
      obtain inner rest' where ir: "ir = (inner, rest')" by (cases ir)
      note s1 = split_once_Some [OF \<open>split_once (CHR ''['') rest = Some ba\<close> [unfolded ba]]
      note s2 = split_once_Some [OF Some [unfolded ir]]
      note IH = "1.IH" [OF \<open>split_once (CHR ''['') rest = Some ba\<close> ba [symmetric] Some ir [symmetric]]
      have eq: "transpose_bracketed rest n f =
          ahead @ CHR ''['' # transpose_chord inner n f @ CHR '']'' # transpose_bracketed rest' n f"
        by (rule transpose_bracketed_chord [OF \<open>split_once (CHR ''['') rest = Some ba\<close> [unfolded ba]
              Some [unfolded ir]])
      have "set ahead \<subseteq> set rest" "set inner \<subseteq> set rest" "set rest' \<subseteq> set rest"
        "CHR ''['' \<in> set rest" "CHR '']'' \<in> set rest"
        using s1 s2 by auto
      then show ?thesis
        unfolding eq set_append list.set using IH transpose_chord_chars [of inner n f] by blast
    qed
  qed
qed

lemma trim_end_matches_split:
  "trim_end_matches p s @ drop (length (trim_end_matches p s)) s = s"
proof -
  have "s = rev (takeWhile p (rev s) @ dropWhile p (rev s))" by simp
  also have "\<dots> = trim_end_matches p s @ rev (takeWhile p (rev s))"
    unfolding rev_append trim_end_matches_def ..
  finally have "s = trim_end_matches p s @ rev (takeWhile p (rev s))" .
  then show ?thesis by (metis append_eq_conv_conj)
qed

lemma split_parens_token:
  assumes "split_parens token = (po, core, pc)"
  shows "token = po @ core @ pc"
proof -
  define k where "k = length token - length (trim_start_matches (\<lambda>c. c = CHR ''('') token)"
  have "po = take k token" and "core = trim_end_matches (\<lambda>c. c = CHR '')'') (drop k token)"
    and "pc = drop (length core) (drop k token)"
    using assms by (auto simp: split_parens_def Let_def k_def simp del: drop_drop)
  then show ?thesis
    using trim_end_matches_split [of "\<lambda>c. c = CHR '')''" "drop k token"] append_take_drop_id [of k token]
    by metis
qed

lemma transpose_chord_Nil_iff [simp]: "transpose_chord s n f = [] \<longleftrightarrow> s = []"
proof -
  have "spell x f \<noteq> []" for x
    using note_name_chars(1) [OF note_name_spell] .
  moreover have "\<not> is_chord []" by code_simp
  moreover have "trim [] = []" by code_simp
  ultimately show ?thesis
    by (auto simp: transpose_chord_def Let_def split: option.splits prod.splits)
qed

definition token_ok :: "string \<Rightarrow> bool" where
  "token_ok t = (t \<noteq> [] \<and> list_all (\<lambda>c. \<not> is_whitespace c) t)"

lemma rewrite_token_ok: "token_ok t \<Longrightarrow> token_ok (rewrite_token t n f)"
proof -
  assume t: "token_ok t"
  obtain po core pc where p: "split_parens t = (po, core, pc)"
    by (cases "split_parens t")
  from split_parens_token [OF p] t have "token_ok (po @ core @ pc)" by simp
  then show ?thesis
    using transpose_chord_chars [of core n f] note_chars_not_whitespace
    by (auto simp: rewrite_token_def p token_ok_def list_all_iff)
qed

subsubsection \<open>Tokens and their columns\<close>

lemma takeWhile_word: "list_all (\<lambda>c. \<not> is_whitespace c) t \<Longrightarrow> s = [] \<or> is_whitespace (hd s) \<Longrightarrow>
  takeWhile (\<lambda>x. \<not> is_whitespace x) (t @ s) = t \<and> dropWhile (\<lambda>x. \<not> is_whitespace x) (t @ s) = s"
  by (induction t) (cases s; auto)+

lemma tokens_at_word:
  assumes "token_ok t" and "s = [] \<or> is_whitespace (hd s)"
  shows "tokens_at i (t @ s) = (i, t) # tokens_at (i + length t) s"
proof (cases t)
  case (Cons c cs)
  with assms(1) have "\<not> is_whitespace c" by (simp add: token_ok_def)
  moreover have "takeWhile (\<lambda>x. \<not> is_whitespace x) (c # cs @ s) = t"
    "dropWhile (\<lambda>x. \<not> is_whitespace x) (c # cs @ s) = s"
    using takeWhile_word [of t s] assms by (simp_all add: token_ok_def Cons)
  ultimately show ?thesis unfolding Cons append_Cons tokens_at.simps(2) by (simp add: Cons)
qed (use assms in \<open>simp add: token_ok_def\<close>)

lemma space_whitespace [simp]: "is_whitespace (CHR '' '')"
  by (simp add: is_whitespace_def code_def)

lemma tokens_at_spaces: "tokens_at i (replicate k (CHR '' '') @ s) = tokens_at (i + k) s"
  by (induction k arbitrary: i) simp_all

lemma tokens_at_ok: "(i, t) \<in> set (tokens_at j s) \<Longrightarrow> token_ok t"
proof (induction j s rule: tokens_at.induct)
  case (2 j c cs)
  show ?case
  proof (cases "is_whitespace c")
    case False
    have "token_ok (takeWhile (\<lambda>x. \<not> is_whitespace x) (c # cs))"
      using False by (auto simp: token_ok_def list_all_iff dest: set_takeWhileD)
    with False "2.prems" "2.IH"(2) [OF False refl] show ?thesis
      by (auto simp: Let_def)
  qed (use 2 in simp)
qed simp

lemma place_tokens_hd:
  "0 < column \<Longrightarrow> place_tokens column ts n f = [] \<or> is_whitespace (hd (place_tokens column ts n f))"
proof (cases ts)
  case (Cons st ts')
  obtain start token where st: "st = (start, token)" by (cases st)
  assume "0 < column"
  then obtain k where "max start (column + 1) - column = Suc k"
    by (metis Suc_eq_plus1 Suc_le_eq diff_Suc_Suc diff_is_0_eq max.cobounded2 not0_implies_Suc not_less)
  with \<open>0 < column\<close> show ?thesis by (simp add: Cons st Let_def)
qed simp

lemma place_tokens_Cons:
  assumes "token_ok t" and "column' = (if column = 0 then start else max start (column + 1))"
    and "r = rewrite_token t n f"
  shows "tokens_at column (place_tokens column ((start, t) # ts) n f)
         = (column', r) # tokens_at (column' + length r) (place_tokens (column' + length r) ts n f)"
proof -
  have col: "column + (column' - column) = column'" using assms(2) by auto
  have r: "token_ok r" using assms(1,3) by (simp add: rewrite_token_ok)
  then have "0 < column' + length r" by (simp add: token_ok_def)
  from tokens_at_word [OF r place_tokens_hd [OF this], of column' ts n f] show ?thesis
    using col assms(2,3) by (simp add: tokens_at_spaces Let_def)
qed

lemma place_tokens_columns:
  "list_all (token_ok \<circ> snd) ts \<Longrightarrow>
   list_all2 (\<lambda>(i, t) (j, u). i \<le> j \<and> u = rewrite_token t n f) ts
     (tokens_at column (place_tokens column ts n f))"
proof (induction ts arbitrary: column)
  case (Cons st ts)
  obtain start t where st: "st = (start, t)" by (cases st)
  with Cons.prems have t: "token_ok t" by simp
  show ?case
    unfolding st place_tokens_Cons [OF t refl refl] using Cons by simp
qed simp

text \<open>A column is exact when no token before it grew.\<close>

fun spaced :: "nat \<Rightarrow> (nat \<times> string) list \<Rightarrow> bool" where
  "spaced c [] = True"
| "spaced c ((start, t) # ts) = ((c = 0 \<or> c < start) \<and> spaced (start + length t) ts)"

lemma tokens_at_spaced:
  "c = 0 \<or> c < i \<or> (c \<le> i \<and> (s = [] \<or> is_whitespace (hd s))) \<Longrightarrow> spaced c (tokens_at i s)"
proof (induction i s arbitrary: c rule: tokens_at.induct)
  case (2 i d ds)
  show ?case
  proof (cases "is_whitespace d")
    case True
    with "2.prems" have "c = 0 \<or> c < Suc i" by auto
    with "2.IH"(1) [OF True] True show ?thesis by auto
  next
    case False
    let ?t = "takeWhile (\<lambda>x. \<not> is_whitespace x) (d # ds)"
    let ?r = "dropWhile (\<lambda>x. \<not> is_whitespace x) (d # ds)"
    have "?r = [] \<or> is_whitespace (hd ?r)" using hd_dropWhile [of "\<lambda>x. \<not> is_whitespace x" "d # ds"] by blast
    then have "spaced (i + length ?t) (tokens_at (i + length ?t) ?r)"
      by (intro "2.IH"(2) [OF False refl]) simp
    moreover have "c = 0 \<or> c < i" using "2.prems" False by auto
    moreover have "tokens_at i (d # ds) = (i, ?t) # tokens_at (i + length ?t) ?r"
      using False by (subst tokens_at.simps(2)) (simp only: if_False Let_def)
    ultimately show ?thesis by (simp only: spaced.simps)
  qed
qed simp

lemma place_tokens_exact:
  "list_all (token_ok \<circ> snd) ts \<Longrightarrow> spaced c ts \<Longrightarrow> column \<le> c \<Longrightarrow>
   list_all (\<lambda>(_, t). length (rewrite_token t n f) \<le> length t) ts \<Longrightarrow>
   map fst (tokens_at column (place_tokens column ts n f)) = map fst ts"
proof (induction ts arbitrary: column c)
  case (Cons st ts)
  obtain start t where st: "st = (start, t)" by (cases st)
  with Cons.prems have t: "token_ok t" and c: "c = 0 \<or> c < start"
    and len: "length (rewrite_token t n f) \<le> length t" by auto
  from c \<open>column \<le> c\<close> have col: "start = (if column = 0 then start else max start (column + 1))"
    by auto
  have "map fst (tokens_at (start + length (rewrite_token t n f))
          (place_tokens (start + length (rewrite_token t n f)) ts n f)) = map fst ts"
    using Cons.prems len by (intro Cons.IH [of "start + length t"]) (auto simp: st)
  then show ?case unfolding st place_tokens_Cons [OF t col refl] by simp
qed simp

lemma tokens_at_all_ok: "list_all (token_ok \<circ> snd) (tokens_at i s)"
  by (auto simp: list_all_iff dest: tokens_at_ok)

subsubsection \<open>Whole charts\<close>

lemma place_tokens_chars:
  "x \<in> set (place_tokens column ts n f) \<Longrightarrow>
     x = CHR '' '' \<or> (\<exists>i t. (i, t) \<in> set ts \<and> x \<in> set (rewrite_token t n f))"
proof (induction ts arbitrary: column)
  case (Cons st ts)
  obtain start t where "st = (start, t)" by (cases st)
  with Cons show ?case by (fastforce simp: Let_def)
qed simp

lemma transpose_line_no_newline:
  assumes "CHR 0x0A \<notin> set line"
  shows "CHR 0x0A \<notin> set (transpose_line line n f)"
proof -
  have nl: "is_whitespace (CHR 0x0A)" by (simp add: is_whitespace_def code_def)
  have "CHR 0x0A \<notin> set (rewrite_token t n f)" if "token_ok t" for t
    using rewrite_token_ok [OF that] nl by (auto simp: token_ok_def list_all_iff)
  with tokens_at_ok have "CHR 0x0A \<notin> set (transpose_chord_line line n f)"
    by (auto simp: transpose_chord_line_def dest!: place_tokens_chars)
  moreover have "CHR 0x0A \<notin> set (transpose_bracketed line n f)"
    using assms transpose_bracketed_chars [of line n f] note_chars_not_whitespace nl by fastforce
  ultimately show ?thesis using assms by (simp add: transpose_line_def Let_def)
qed

lemma transpose_lyrics_lines:
  "n \<noteq> 0 \<Longrightarrow> split_char (CHR 0x0A) (transpose_lyrics lyrics n f)
     = map (\<lambda>line. transpose_line line n f) (split_char (CHR 0x0A) lyrics)"
  unfolding transpose_lyrics_def
  by (simp, rule split_join_char) (auto intro!: transpose_line_no_newline dest: split_char_no_sep)

section \<open>Properties\<close>



text \<open>
  Moves of a chord add up: transposing by \<open>a\<close> and then by \<open>b\<close> prints the same chord
  as transposing once by \<open>a + b\<close>, bass note included.
\<close>

theorem transpose_chord_add:
  assumes "is_chord s" and "trim s = s" and "leading_note s = Some (p, n)"
    and "split_bass s = (main, bass)" and "plain_quality (drop n main)"
    and "a \<noteq> 0" and "b \<noteq> 0" and "a + b \<noteq> 0"
  shows "transpose_chord (transpose_chord s a f) b f = transpose_chord s (a + b) f"
proof -
  have shape: "chord_shape (take n s) (drop n main) bass"
    and s: "s = take n s @ drop n main @ bass_text bass"
    and r: "leading_note (take n s) = Some (p, length (take n s))"
    using chord_shapeI [OF assms(1-5)] leading_note_split [OF assms(3)] by simp_all
  from transpose_shape_add [OF shape r assms(6-8), of f, folded s] show ?thesis .
qed

theorem transpose_chord_add_witness:
  "transpose_chord (transpose_chord ''F#m7'' 4 True) 3 True = ''Dbm7''"
proof -
  have h: "is_chord ''F#m7''" "trim ''F#m7'' = ''F#m7''" "leading_note ''F#m7'' = Some (6, 2)"
    "split_bass ''F#m7'' = (''F#m7'', None)" "plain_quality (drop 2 ''F#m7'')"
    by code_simp+
  have "transpose_chord ''F#m7'' (4 + 3) True = ''Dbm7''" by code_simp
  with transpose_chord_add [OF h, of 4 3 True] show ?thesis by simp
qed

text \<open>
  Any sequence of key changes moves the key's pitch by their sum, modulo an octave, and
  never turns a major key into a minor one or back.
\<close>

theorem transpose_tonality_moves:
  "tonality_pitch (fold (\<lambda>n t. transpose_tonality t n) ns t) mod 12 = (tonality_pitch t + sum_list ns) mod 12
   \<and> tonality_minor (fold (\<lambda>n t. transpose_tonality t n) ns t) = tonality_minor t"
proof
  show "tonality_pitch (fold (\<lambda>n t. transpose_tonality t n) ns t) mod 12
        = (tonality_pitch t + sum_list ns) mod 12"
    by (rule keys.pitch_moves) simp
  show "tonality_minor (fold (\<lambda>n t. transpose_tonality t n) ns t) = tonality_minor t"
    by (induction ns arbitrary: t) (simp_all add: transpose_tonality_key)
qed

text \<open>
  A line of chords written above the lyrics keeps its chords in order, each rewritten,
  and none moves to the left; when no chord name grows, every chord keeps its column.
\<close>

theorem transpose_chord_line_columns:
  "list_all2 (\<lambda>(i, t) (j, u). i \<le> j \<and> u = rewrite_token t n f) (tokens_at 0 line)
     (tokens_at 0 (transpose_chord_line line n f))
   \<and> (list_all (\<lambda>(_, t). length (rewrite_token t n f) \<le> length t) (tokens_at 0 line) \<longrightarrow>
      map fst (tokens_at 0 (transpose_chord_line line n f)) = map fst (tokens_at 0 line))"
  unfolding transpose_chord_line_def
  using place_tokens_columns [OF tokens_at_all_ok, where column = 0 and n = n and f = f]
    place_tokens_exact [OF tokens_at_all_ok tokens_at_spaced,
      where c = 0 and column = 0 and n = n and f = f] by blast

theorem transpose_chord_line_columns_witness:
  "map fst (tokens_at 0 (transpose_chord_line ''G      D'' 2 False)) = [0, 7]"
proof -
  have "list_all (\<lambda>(_, t). length (rewrite_token t 2 False) \<le> length t) (tokens_at 0 ''G      D'')"
    and "map fst (tokens_at 0 ''G      D'') = [0, 7]"
    by code_simp+
  with transpose_chord_line_columns [where line = "''G      D''" and n = 2 and f = False]
  show ?thesis by simp
qed

text \<open>
  Transposing a chart rewrites it line by line: it has as many lines as before, and a
  directive, a comment or a line of lyrics without chords stays exactly as it was.
\<close>

theorem transpose_lyrics_by_line:
  assumes "n \<noteq> 0"
  shows "length (split_char (CHR 0x0A) (transpose_lyrics lyrics n f)) = length (split_char (CHR 0x0A) lyrics)
   \<and> (\<forall>i < length (split_char (CHR 0x0A) lyrics).
      let line = split_char (CHR 0x0A) lyrics ! i;
          line' = split_char (CHR 0x0A) (transpose_lyrics lyrics n f) ! i
      in line' = transpose_line line n f \<and>
         (starts_with (trim line) ''{'' \<or> starts_with (trim line) ''#'' \<or>
          (CHR ''['' \<notin> set line \<and> \<not> is_chord_only_line line) \<longrightarrow> line' = line))"
  using assms by (auto simp: transpose_lyrics_lines transpose_line_def Let_def)

theorem transpose_lyrics_by_line_witness:
  "length (split_char (CHR 0x0A) (transpose_lyrics (''{title: X}'' @ [CHR 0x0A] @ ''[G]Hello'') 2 False)) = 2"
proof -
  have "length (split_char (CHR 0x0A) (''{title: X}'' @ [CHR 0x0A] @ ''[G]Hello'')) = 2"
    by code_simp
  with transpose_lyrics_by_line [of 2 "''{title: X}'' @ [CHR 0x0A] @ ''[G]Hello''" False]
  show ?thesis by simp
qed

text \<open>
  Putting a song in its setlist's key consumes the offset: applying it again changes
  nothing. The offset applied is the stored one limited to eleven semitones either way,
  and fields other than key, lyrics and offset are untouched.
\<close>

theorem apply_setlist_key_once:
  "apply_setlist_key (apply_setlist_key song) = apply_setlist_key song
   \<and> song_transpose (apply_setlist_key song) = None
   \<and> song_tonality (apply_setlist_key song)
       = map_option (\<lambda>t. transpose_tonality t (clamp (-11) 11 (unwrap_or (song_transpose song) 0)))
           (song_tonality song)
   \<and> keyed_song.more (apply_setlist_key song) = keyed_song.more song"
proof -
  have none: "song_transpose (apply_setlist_key song) = None" for song :: "'a keyed_song_scheme"
    by (simp add: apply_setlist_key_def Let_def split: option.splits)
  have fixed: "apply_setlist_key s = s" if "song_transpose s = None" for s :: "'a keyed_song_scheme"
    using that by (simp add: apply_setlist_key_def clamp_def MAX_TRANSPOSE_def)
  have zero: "map_option (\<lambda>t. transpose_tonality t 0) m = m" for m
    by (cases m) (simp_all add: transpose_tonality_def)
  have "song_tonality (apply_setlist_key song)
       = map_option (\<lambda>t. transpose_tonality t (clamp (-11) 11 (unwrap_or (song_transpose song) 0)))
           (song_tonality song)"
    by (simp add: apply_setlist_key_def MAX_TRANSPOSE_def Let_def zero split: option.splits)
  moreover have "keyed_song.more (apply_setlist_key song) = keyed_song.more song"
    by (simp add: apply_setlist_key_def Let_def split: option.splits)
  ultimately show ?thesis using fixed [OF none] none by blast
qed

text \<open>
  The ambiguity the quality hypothesis of the chord theorems excludes: \<open>F#b5\<close> a semitone
  up, in a key written with flats, is printed \<open>Gb5\<close>, which reads as the fifth chord on G
  flat, the pitch the chord already had.
\<close>

theorem transpose_chord_flat_five_ambiguous:
  "is_chord ''F#b5'' \<and> transpose_chord ''F#b5'' 1 True = ''Gb5''
   \<and> chord_pitch ''Gb5'' = chord_pitch ''F#b5''"
  by code_simp

end
