(* ===== verification/Errors.thy ===== *)
theory Errors
  imports Prelude
begin

text \<open>
  The errors of the API, from \<^verbatim>\<open>src/src/errors/api_error.rs\<close>: the \<open>ApiError\<close>
  enum, the code and the HTTP status each error answers with, and the header that
  tells a client how long to wait. The English messages are left out: only the codes are
  part of the API's contract. A database error is the SQLSTATE Postgres reported.
\<close>

datatype sqlx_error = PoolTimedOut | Database string | OtherSqlx

datatype auth_error = MissingToken | InvalidToken

datatype api_error =
    DatabaseError sqlx_error
  | ValidationError
  | EncryptionError
  | JWTError
  | ServerError
  | AuthError auth_error
  | ConfigError
  | NotFound
  | AlreadyExists
  | NotModified
  | Unauthorized
  | Forbidden
  | BadRequest
  | WrongPassword
  | Rule (rule_status: nat) (rule_code: string) (rule_meta: "json option")

definition rule :: "nat \<Rightarrow> string \<Rightarrow> api_error" where
  "rule status c = Rule status c None"

definition rule_with_meta :: "nat \<Rightarrow> string \<Rightarrow> json \<Rightarrow> api_error" where
  "rule_with_meta status c meta = Rule status c (Some meta)"

definition is_unique_violation :: "sqlx_error \<Rightarrow> bool" where
  "is_unique_violation e = (e = Database ''23505'')"

definition is_unstorable_input :: "sqlx_error \<Rightarrow> bool" where
  "is_unstorable_input e = (e \<in> set [Database ''22021'', Database ''22P05'', Database ''22008''])"

definition is_database_busy :: "sqlx_error \<Rightarrow> bool" where
  "is_database_busy e =
     (case e of
        PoolTimedOut \<Rightarrow> True
      | Database c \<Rightarrow> c \<in> set [''57014'', ''55P03'', ''40001'', ''40P01'']
      | OtherSqlx \<Rightarrow> False)"

fun error_code :: "api_error \<Rightarrow> string" where
  "error_code (DatabaseError e) =
     (if is_unique_violation e then ''ALREADY_EXISTS''
      else if is_database_busy e then ''SERVICE_BUSY''
      else if is_unstorable_input e then ''BAD_REQUEST''
      else ''DATABASE_ERROR'')"
| "error_code ValidationError = ''VALIDATION_ERROR''"
| "error_code EncryptionError = ''ENCRYPT_ERROR''"
| "error_code JWTError = ''JWT_ERROR''"
| "error_code ServerError = ''SERVER_ERROR''"
| "error_code (AuthError e) = ''AUTH_ERROR''"
| "error_code ConfigError = ''CONFIG_ERROR''"
| "error_code NotFound = ''NOT_FOUND''"
| "error_code AlreadyExists = ''ALREADY_EXISTS''"
| "error_code NotModified = ''UNPROCESSABLE_ENTITY''"
| "error_code Unauthorized = ''UNAUTHORIZED''"
| "error_code Forbidden = ''FORBIDDEN''"
| "error_code BadRequest = ''BAD_REQUEST''"
| "error_code WrongPassword = ''WRONG_PASSWORD''"
| "error_code (Rule status c meta) = c"

text \<open>Seconds a client is asked to wait after a busy database.\<close>

definition DATABASE_BUSY_RETRY_SECONDS :: int where
  "DATABASE_BUSY_RETRY_SECONDS = 2"

text \<open>
  The status and the meta of the answer (\<open>into_response\<close>); \<open>validation_meta\<close> is the
  description of the failed fields the validator crate produced.
\<close>

fun error_response :: "json \<Rightarrow> api_error \<Rightarrow> nat \<times> json option" where
  "error_response validation_meta (DatabaseError e) =
     (if is_unique_violation e then (409, None)
      else if is_database_busy e
        then (503, Some (JObj [(''retry_after_seconds'', JInt DATABASE_BUSY_RETRY_SECONDS)]))
      else if is_unstorable_input e then (400, None)
      else (500, None))"
| "error_response validation_meta ValidationError = (400, Some validation_meta)"
| "error_response validation_meta EncryptionError = (500, None)"
| "error_response validation_meta JWTError = (500, None)"
| "error_response validation_meta ServerError = (500, None)"
| "error_response validation_meta ConfigError = (500, None)"
| "error_response validation_meta (AuthError e) = (401, None)"
| "error_response validation_meta NotFound = (404, None)"
| "error_response validation_meta Unauthorized = (401, None)"
| "error_response validation_meta Forbidden = (403, None)"
| "error_response validation_meta BadRequest = (400, None)"
| "error_response validation_meta WrongPassword = (401, None)"
| "error_response validation_meta NotModified = (422, None)"
| "error_response validation_meta AlreadyExists = (409, None)"
| "error_response validation_meta (Rule status c meta) = (status, meta)"

text \<open>
  The \<open>Retry-After\<close> header at the time \<open>now\<close>: the meta's \<open>retry_after_seconds\<close>, or the
  whole seconds until its \<open>until\<close>, rounded up. \<open>num_seconds\<close> truncates towards zero and
  \<open>subsec_nanos\<close> has the sign of the duration.
\<close>

definition num_seconds :: "int \<Rightarrow> int" where
  "num_seconds d = (if d < 0 then - ((- d) div 1000000) else d div 1000000)"

definition subsec_micros :: "int \<Rightarrow> int" where
  "subsec_micros d = d - num_seconds d * 1000000"

definition retry_after_seconds :: "time \<Rightarrow> nat \<Rightarrow> json option \<Rightarrow> int option" where
  "retry_after_seconds now status meta =
     (if status \<noteq> 429 \<and> status \<noteq> 503 then None
      else case meta of None \<Rightarrow> None
      | Some m \<Rightarrow>
          map_option (max 1)
            (case json_get m ''retry_after_seconds'' of
               Some v \<Rightarrow> (case v of JInt i \<Rightarrow> Some i | _ \<Rightarrow> None)
             | None \<Rightarrow>
                 (case json_get m ''until'' of
                    Some (JTime until) \<Rightarrow>
                      let remaining = until - now
                      in Some (num_seconds remaining + (if subsec_micros remaining > 0 then 1 else 0))
                  | _ \<Rightarrow> None)))"

text \<open>The named errors of the code.\<close>

definition account_deactivated :: api_error where
  "account_deactivated = rule 403 ''ACCOUNT_DEACTIVATED''"

definition account_banned :: "time option \<Rightarrow> string option \<Rightarrow> api_error" where
  "account_banned until reason =
     rule_with_meta 403 ''ACCOUNT_BANNED''
       (JObj [(''until'', json_of_opt JTime until), (''reason'', json_of_opt JStr reason)])"

definition session_revoked :: api_error where
  "session_revoked = rule 401 ''SESSION_REVOKED''"

definition password_change_required :: api_error where
  "password_change_required = rule 403 ''PASSWORD_CHANGE_REQUIRED''"

definition impersonation_read_only :: api_error where
  "impersonation_read_only = rule 403 ''IMPERSONATION_READ_ONLY''"

definition staff_two_factor_required :: api_error where
  "staff_two_factor_required = rule 403 ''STAFF_TWO_FACTOR_REQUIRED''"

definition quota_exceeded :: "string \<Rightarrow> int \<Rightarrow> api_error" where
  "quota_exceeded resource limit =
     rule_with_meta 403 ''QUOTA_EXCEEDED'' (JObj [(''resource'', JStr resource), (''limit'', JInt limit)])"

section \<open>Properties\<close>

lemma num_seconds_ceiling:
  assumes "0 < d"
  shows "num_seconds d + (if subsec_micros d > 0 then 1 else 0) = (d + 999999) div 1000000"
  using assms by (auto simp: num_seconds_def subsec_micros_def split: if_splits)

text \<open>
  An answer asks a client to wait only when it is 429 or 503, always for at least a
  second, and a client that waits as long as a lock's \<open>until\<close> tells it never comes back
  too early, nor more than a second late.
\<close>

theorem retry_after_sound:
  assumes "retry_after_seconds now status meta = Some s"
  shows "(status = 429 \<or> status = 503) \<and> 1 \<le> s
    \<and> (\<forall>until. meta = Some (JObj [(''until'', JTime until)]) \<and> now < until \<longrightarrow>
         until \<le> now + s * 1000000 \<and> now + s * 1000000 < until + 1000000)"
proof -
  have status: "status = 429 \<or> status = 503" and pos: "1 \<le> s"
    using assms by (auto simp: retry_after_seconds_def split: if_splits option.splits json.splits)
  have "until \<le> now + s * 1000000 \<and> now + s * 1000000 < until + 1000000"
    if "meta = Some (JObj [(''until'', JTime until)])" and "now < until" for until
  proof -
    have "s = max 1 ((until - now + 999999) div 1000000)"
      using assms that num_seconds_ceiling [of "until - now"] status
      by (auto simp: retry_after_seconds_def json_get_def Let_def)
    moreover have "1 \<le> (until - now + 999999) div 1000000" using that(2) by simp
    ultimately have "s = (until - now + 999999) div 1000000" by simp
    then show ?thesis using that(2) by simp linarith
  qed
  with status pos show ?thesis by blast
qed

theorem retry_after_sound_witness:
  "retry_after_seconds 0 429 (Some (JObj [(''until'', JTime 1500000)])) = Some 2
   \<and> (1500000 :: int) \<le> 0 + 2 * 1000000"
proof -
  have r: "retry_after_seconds 0 429 (Some (JObj [(''until'', JTime 1500000)])) = Some 2"
    by code_simp
  from retry_after_sound [OF r] r show ?thesis by auto
qed

end
