(* ===== verification/ChordPro.thy ===== *)
theory ChordPro
  imports Transpose Errors Decimal
begin

text \<open>
  ChordPro files: the importer (\<^verbatim>\<open>src/src/import/chordpro.rs\<close>) and the exporter
  (\<^verbatim>\<open>src/src/export/chordpro.rs\<close>). Unicode normalization is a third-party crate: it is the
  argument \<open>nfc\<close> of the functions that use it.
\<close>

section \<open>Data of the importer\<close>

definition MAX_CONTENT_BYTES :: nat where "MAX_CONTENT_BYTES = 64 * 1024"
definition MAX_LINES :: nat where "MAX_LINES = 3000"
definition MAX_LINE_CHARS :: nat where "MAX_LINE_CHARS = 500"
definition MAX_WARNINGS :: nat where "MAX_WARNINGS = 100"
definition MAX_TITLE_CHARS :: nat where "MAX_TITLE_CHARS = 255"
definition MAX_ARTIST_CHARS :: nat where "MAX_ARTIST_CHARS = 255"
definition TAB_WIDTH :: nat where "TAB_WIDTH = 4"

definition TIME_SIGNATURES :: "string list" where
  "TIME_SIGNATURES = [''2/4'', ''3/4'', ''4/4'', ''5/4'', ''6/8'', ''7/8'', ''9/8'', ''12/8'']"

datatype chordpro_error = TooLarge | Invalid string "nat option"

record import_warning =
  iw_code :: string
  iw_line :: "nat option"
  iw_detail :: "string option"

record parsed_chordpro =
  pc_title :: string
  pc_artist_name :: "string option"
  pc_tonality :: "tonality option"
  pc_tempo :: "int option"
  pc_time_signature :: "string option"
  pc_capo :: "int option"
  pc_duration :: "int option"
  pc_lyrics :: "string option"
  pc_warnings :: "import_warning list"

definition push_warning ::
  "string \<Rightarrow> nat option \<Rightarrow> string option \<Rightarrow> import_warning list \<Rightarrow> import_warning list"
where
  "push_warning c line detail ws =
     (if length ws < MAX_WARNINGS then
        ws @ [\<lparr>iw_code = c, iw_line = line, iw_detail = map_option (take 80) detail\<rparr>]
      else if length ws = MAX_WARNINGS then
        ws @ [\<lparr>iw_code = ''too_many_warnings'', iw_line = None, iw_detail = None\<rparr>]
      else ws)"

section \<open>Text\<close>

definition invisible_char :: "char \<Rightarrow> bool" where
  "invisible_char c \<longleftrightarrow>
     8203 \<le> code c \<and> code c \<le> 8207 \<or> 8234 \<le> code c \<and> code c \<le> 8238
     \<or> 8294 \<le> code c \<and> code c \<le> 8297 \<or> code c = 65279"

text \<open>\<open>replace("\r\n", "\n").replace('\r', "\n")\<close>.\<close>

fun replace_crlf :: "string \<Rightarrow> string" where
  "replace_crlf (a # b # s) =
     (if a = CHR 0x0D \<and> b = CHR 0x0A then CHR 0x0A # replace_crlf s else a # replace_crlf (b # s))"
| "replace_crlf s = s"

definition unify_lines :: "string \<Rightarrow> string" where
  "unify_lines s = map (\<lambda>c. if c = CHR 0x0D then CHR 0x0A else c) (replace_crlf s)"

definition sanitize_char :: "char \<Rightarrow> string" where
  "sanitize_char c =
     (if c = CHR 0x0A then [c]
      else if c = CHR 0x09 then replicate TAB_WIDTH (CHR '' '')
      else if is_control c \<or> invisible_char c then []
      else [c])"

definition sanitize :: "(string \<Rightarrow> string) \<Rightarrow> string \<Rightarrow> chordpro_error + string" where
  "sanitize nfc content =
     (case split_once (CHR 0x00) content of
        Some (ahead, _) \<Rightarrow>
          Inl (Invalid ''nul_character'' (Some (length (filter (\<lambda>c. c = CHR 0x0A) ahead) + 1)))
      | None \<Rightarrow> Inr (concat (map sanitize_char (nfc (unify_lines content)))))"

definition is_brace :: "char \<Rightarrow> bool" where
  "is_brace c \<longleftrightarrow> c = CHR ''{'' \<or> c = CHR ''}''"

definition clean_value :: "string \<Rightarrow> string" where
  "clean_value value =
     join_char (CHR '' '') (split_whitespace (map (\<lambda>c. if is_brace c then CHR '' '' else c) value))"

definition truncate_text :: "string \<Rightarrow> nat \<Rightarrow> string \<times> bool" where
  "truncate_text value m = (if length value > m then (take m value, True) else (value, False))"

definition parse_directive :: "string \<Rightarrow> (string \<times> string) option" where
  "parse_directive line =
     (case strip_prefix ''{'' line of
        None \<Rightarrow> None
      | Some r \<Rightarrow>
          (case strip_suffix ''}'' r of
             None \<Rightarrow> None
           | Some inner \<Rightarrow>
               let (name, value) = (case split_once (CHR '':'') inner of Some p \<Rightarrow> p | None \<Rightarrow> (inner, []))
               in Some (map to_ascii_lowercase (trim name), clean_value value)))"

definition SECTION_DIRECTIVES :: "string list" where
  "SECTION_DIRECTIVES =
     [''start_of_chorus'', ''soc'', ''end_of_chorus'', ''eoc'', ''start_of_verse'', ''sov'',
      ''end_of_verse'', ''eov'', ''start_of_bridge'', ''sob'', ''end_of_bridge'', ''eob'',
      ''start_of_tab'', ''sot'', ''end_of_tab'', ''eot'', ''chorus'', ''comment'']"

definition COMMENT_DIRECTIVES :: "string list" where
  "COMMENT_DIRECTIVES = [''c'', ''comment_italic'', ''ci'']"

section \<open>Values\<close>

text \<open>The music signs for sharp and flat lie above U+0100, so their replacement has nothing to do here.\<close>

definition parse_key :: "string \<Rightarrow> tonality option" where
  "parse_key raw =
     (case trim raw of
        [] \<Rightarrow> None
      | c # rest \<Rightarrow>
          let root = to_ascii_uppercase c in
          if \<not> (65 \<le> code root \<and> code root \<le> 71) then None
          else
            let (accidental, quality) =
                  (case rest of
                     a # r \<Rightarrow> if a = CHR ''#'' \<or> a = CHR ''b'' then ([a], trim r) else ([], trim rest)
                   | [] \<Rightarrow> ([], []));
                quality = map to_ascii_lowercase quality;
                minor = (if quality \<in> set [[], ''maj'', ''major'', ''dur''] then Some False
                         else if quality \<in> set [''m'', ''min'', ''minor'', ''-'', ''moll''] then Some True
                         else None)
            in Option.bind minor (\<lambda>m. tonality_of_name (root # accidental @ (if m then ''m'' else []))))"

definition parse_tempo :: "string \<Rightarrow> int option" where
  "parse_tempo raw =
     (let lower = map to_ascii_lowercase (trim raw);
          number = trim (unwrap_or (strip_suffix ''bpm'' lower) lower)
      in if number = [] \<or> \<not> list_all is_ascii_digit number \<or> byte_len number > 3 then None
         else opt_filter (\<lambda>t. 1 \<le> t \<and> t \<le> 500) (Some (parse_digits number)))"

definition parse_capo :: "string \<Rightarrow> int option" where
  "parse_capo raw =
     (let number = trim raw
      in if number = [] \<or> \<not> list_all is_ascii_digit number \<or> byte_len number > 2 then None
         else opt_filter (\<lambda>c. 0 \<le> c \<and> c \<le> 11) (Some (parse_digits number)))"

definition few_digits :: "string \<Rightarrow> bool" where
  "few_digits s \<longleftrightarrow> s \<noteq> [] \<and> byte_len s \<le> 4 \<and> list_all is_ascii_digit s"

definition parse_duration :: "string \<Rightarrow> int option" where
  "parse_duration raw =
     (let value = trim raw in
      opt_filter (\<lambda>s. 1 \<le> s \<and> s \<le> 7200)
        (case split_once (CHR '':'') value of
           Some (minutes, seconds) \<Rightarrow>
             if \<not> few_digits minutes \<or> byte_len seconds \<noteq> 2 \<or> \<not> few_digits seconds then None
             else if parse_digits seconds \<ge> 60 then None
             else Some (parse_digits minutes * 60 + parse_digits seconds)
         | None \<Rightarrow> if \<not> few_digits value then None else Some (parse_digits value)))"

section \<open>Lyric lines\<close>

text \<open>
  The \<open>while\<close> loop of \<open>clean_lyric_line\<close> on what is left of the line, with the text kept so
  far, whether braces were removed, and the warnings.
\<close>

function clean_go ::
  "nat \<Rightarrow> string \<Rightarrow> string \<Rightarrow> bool \<Rightarrow> import_warning list \<Rightarrow> string \<times> bool \<times> import_warning list"
where
  "clean_go number [] out braces ws = (out, braces, ws)"
| "clean_go number (c # rest) out braces ws =
     (if c = CHR ''['' then
        (let text = takeWhile (\<lambda>x. x \<noteq> CHR '']'' \<and> x \<noteq> CHR ''['') rest in
         case drop (length text) rest of
           d # rest' \<Rightarrow>
             if d = CHR '']'' then
               (let inner = trim text in
                if inner \<noteq> [] \<and> is_chord inner
                then clean_go number rest' (out @ CHR ''['' # inner @ '']'') braces ws
                else clean_go number rest' out braces
                       (push_warning ''invalid_chord'' (Some number) (Some inner) ws))
             else clean_go number rest out braces
                    (push_warning ''unbalanced_bracket'' (Some number) None ws)
         | [] \<Rightarrow> clean_go number rest out braces (push_warning ''unbalanced_bracket'' (Some number) None ws))
      else if c = CHR '']'' then
        clean_go number rest out braces (push_warning ''unbalanced_bracket'' (Some number) None ws)
      else if is_brace c then clean_go number rest out True ws
      else clean_go number rest (out @ [c]) braces ws)"
  by pat_completeness auto
termination
  by (relation "measure (\<lambda>(_, s, _). length s)")
    (auto simp: less_Suc_eq_le dest!: arg_cong [where f = length])

declare clean_go.simps [simp del]

definition clean_lyric_line ::
  "string \<Rightarrow> nat \<Rightarrow> import_warning list \<Rightarrow> string \<times> import_warning list"
where
  "clean_lyric_line line number ws =
     (let (out, braces, ws) = clean_go number line [] False ws
      in (trim_end out, if braces then push_warning ''braces_removed'' (Some number) None ws else ws))"

section \<open>The importer\<close>

text \<open>The local variables of \<open>parse\<close> during its loop over the lines.\<close>

record import_state =
  is_file_title :: "string option"
  is_artist :: "string option"
  is_subtitle :: "string option"
  is_tonality :: "tonality option"
  is_tempo :: "int option"
  is_time_signature :: "string option"
  is_capo :: "int option"
  is_duration :: "int option"
  is_body :: "string list"
  is_warnings :: "import_warning list"

definition warn :: "string \<Rightarrow> nat \<Rightarrow> string \<Rightarrow> import_state \<Rightarrow> import_state" where
  "warn c number detail st =
     st\<lparr>is_warnings := push_warning c (Some number) (Some detail) (is_warnings st)\<rparr>"

definition non_empty :: "string \<Rightarrow> string option" where
  "non_empty v = opt_filter (\<lambda>v. v \<noteq> []) (Some v)"

definition known_name :: "string \<Rightarrow> bool" where
  "known_name name \<longleftrightarrow>
     name \<noteq> [] \<and> list_all (\<lambda>c. is_ascii_lowercase c \<or> is_ascii_digit c \<or> c = CHR ''_'') name"

definition import_directive ::
  "nat \<Rightarrow> string \<Rightarrow> string \<Rightarrow> import_state \<Rightarrow> chordpro_error + import_state"
where
  "import_directive number name value st =
     (if \<not> known_name name then Inr (warn ''directive_dropped'' number name st)
      else if name \<in> set [''new_song'', ''ns''] then Inl (Invalid ''multiple_songs'' (Some number))
      else if name \<in> set [''title'', ''t''] then
        (if is_file_title st \<noteq> None then Inl (Invalid ''multiple_songs'' (Some number))
         else Inr (st\<lparr>is_file_title := non_empty value\<rparr>))
      else if name \<in> set [''subtitle'', ''st''] then
        Inr (if is_subtitle st = None then st\<lparr>is_subtitle := non_empty value\<rparr> else st)
      else if name = ''artist'' then
        Inr (if is_artist st \<noteq> None then warn ''duplicate_directive'' number name st
             else st\<lparr>is_artist := non_empty value\<rparr>)
      else if name = ''key'' then
        Inr (case parse_key value of
               Some k \<Rightarrow> if is_tonality st = None then st\<lparr>is_tonality := Some k\<rparr>
                         else warn ''duplicate_directive'' number name st
             | None \<Rightarrow> warn ''invalid_key'' number value st)
      else if name = ''tempo'' then
        Inr (case parse_tempo value of
               Some t \<Rightarrow> if is_tempo st = None then st\<lparr>is_tempo := Some t\<rparr>
                         else warn ''duplicate_directive'' number name st
             | None \<Rightarrow> warn ''invalid_tempo'' number value st)
      else if name = ''time'' then
        (let value = filter (\<lambda>c. c \<noteq> CHR '' '') value in
         Inr (if value \<in> set TIME_SIGNATURES then
                if is_time_signature st = None then st\<lparr>is_time_signature := Some value\<rparr>
                else warn ''duplicate_directive'' number name st
              else warn ''invalid_time'' number value st))
      else if name = ''capo'' then
        Inr (case parse_capo value of
               Some c \<Rightarrow> if is_capo st = None then st\<lparr>is_capo := Some c\<rparr>
                         else warn ''duplicate_directive'' number name st
             | None \<Rightarrow> warn ''invalid_capo'' number value st)
      else if name = ''duration'' then
        Inr (case parse_duration value of
               Some d \<Rightarrow> if is_duration st = None then st\<lparr>is_duration := Some d\<rparr>
                         else warn ''duplicate_directive'' number name st
             | None \<Rightarrow> warn ''invalid_duration'' number value st)
      else if name = ''album'' then Inr (warn ''album_dropped'' number value st)
      else if name \<in> set SECTION_DIRECTIVES \<or> name \<in> set COMMENT_DIRECTIVES then
        Inr (st\<lparr>is_body := is_body st @
               [if value = [] then ''{'' @ name @ ''}'' else ''{'' @ name @ '': '' @ value @ ''}'']\<rparr>)
      else Inr (warn ''directive_dropped'' number name st))"

definition import_line :: "nat \<Rightarrow> string \<Rightarrow> import_state \<Rightarrow> chordpro_error + import_state" where
  "import_line number raw st =
     (case parse_directive (trim raw) of
        Some (name, value) \<Rightarrow> import_directive number name value st
      | None \<Rightarrow>
          (let (line, ws) = clean_lyric_line raw number (is_warnings st)
           in Inr (st\<lparr>is_body := is_body st @ [line], is_warnings := ws\<rparr>)))"

fun import_lines :: "nat \<Rightarrow> string list \<Rightarrow> import_state \<Rightarrow> chordpro_error + import_state" where
  "import_lines number [] st = Inr st"
| "import_lines number (raw # lines) st =
     rbind (import_line number raw st) (import_lines (number + 1) lines)"

definition import_start :: import_state where
  "import_start =
     \<lparr>is_file_title = None, is_artist = None, is_subtitle = None, is_tonality = None, is_tempo = None,
      is_time_signature = None, is_capo = None, is_duration = None, is_body = [], is_warnings = []\<rparr>"

text \<open>Blank lines: none at either end, at most two in a row.\<close>

fun collapse_blanks :: "nat \<Rightarrow> string list \<Rightarrow> string list \<Rightarrow> string list" where
  "collapse_blanks run lyrics [] = lyrics"
| "collapse_blanks run lyrics (line # body) =
     (if trim line = [] then
        if run + 1 > 2 \<or> lyrics = [] then collapse_blanks (run + 1) lyrics body
        else collapse_blanks (run + 1) (lyrics @ [[]]) body
      else collapse_blanks 0 (lyrics @ [line]) body)"

definition chart_lines :: "string list \<Rightarrow> string list" where
  "chart_lines body = rev (dropWhile (\<lambda>l. l = []) (rev (collapse_blanks 0 [] body)))"

definition check_size :: "string list \<Rightarrow> chordpro_error + unit" where
  "check_size lines =
     (if length lines > MAX_LINES then Inl (Invalid ''too_many_lines'' (Some (MAX_LINES + 1)))
      else case filter (\<lambda>(_, l). length l > MAX_LINE_CHARS) (List.enumerate 0 lines) of
             (index, _) # _ \<Rightarrow> Inl (Invalid ''line_too_long'' (Some (index + 1)))
           | [] \<Rightarrow> Inr ())"

text \<open>What \<open>parse\<close> makes of its variables after the loop.\<close>

definition import_result :: "string option \<Rightarrow> import_state \<Rightarrow> chordpro_error + parsed_chordpro" where
  "import_result title_override st =
     (case or_else (opt_filter (\<lambda>t. t \<noteq> []) (map_option clean_value title_override)) (is_file_title st) of
        None \<Rightarrow> Inl (Invalid ''missing_title'' None)
      | Some title \<Rightarrow>
          let (title, cut) = truncate_text title MAX_TITLE_CHARS;
              ws = (if cut then push_warning ''title_truncated'' None None (is_warnings st) else is_warnings st);
              artist = map_option (\<lambda>a. truncate_text a MAX_ARTIST_CHARS) (or_else (is_artist st) (is_subtitle st));
              ws = (if is_some_and artist snd then push_warning ''artist_truncated'' None None ws else ws);
              lyrics = chart_lines (is_body st)
          in Inr \<lparr>pc_title = title, pc_artist_name = map_option fst artist, pc_tonality = is_tonality st,
                  pc_tempo = is_tempo st, pc_time_signature = is_time_signature st, pc_capo = is_capo st,
                  pc_duration = is_duration st,
                  pc_lyrics = (if lyrics = [] then None else Some (join_char (CHR 0x0A) lyrics)),
                  pc_warnings = ws\<rparr>)"

definition parse_chordpro ::
  "(string \<Rightarrow> string) \<Rightarrow> string \<Rightarrow> string option \<Rightarrow> chordpro_error + parsed_chordpro"
where
  "parse_chordpro nfc content title_override =
     (if byte_len content > MAX_CONTENT_BYTES then Inl TooLarge
      else rbind (sanitize nfc content) (\<lambda>text.
        let lines = split_char (CHR 0x0A) text in
        rbind (check_size lines) (\<lambda>_.
        rbind (import_lines 1 lines import_start) (import_result title_override))))"

text \<open>The answer to a refused file (\<^verbatim>\<open>src/src/controllers/song.rs\<close>).\<close>

fun chordpro_api_error :: "chordpro_error \<Rightarrow> api_error" where
  "chordpro_api_error TooLarge = rule 413 ''CHORDPRO_TOO_LARGE''"
| "chordpro_api_error (Invalid reason line) =
     rule_with_meta 400 ''CHORDPRO_INVALID''
       (JObj ((''reason'', JStr reason) #
              (case line of None \<Rightarrow> [] | Some l \<Rightarrow> [(''line'', JInt (int l))])))"

section \<open>The exporter\<close>

record song_export =
  se_title :: string
  se_artist_name :: "string option"
  se_tonality :: "string option"
  se_tempo :: "int option"
  se_lyrics :: "string option"
  se_time_signature :: "string option"
  se_capo :: "int option"
  se_duration :: "int option"
  se_energy :: "int option"

definition MAX_DIRECTIVE_VALUE :: nat where "MAX_DIRECTIVE_VALUE = 255"

definition directive_value :: "string \<Rightarrow> string" where
  "directive_value value =
     take MAX_DIRECTIVE_VALUE
       (join_char (CHR '' '')
         (split_whitespace (map (\<lambda>c. if is_control c \<or> is_brace c then CHR '' '' else c) value)))"

definition format_duration :: "int \<Rightarrow> string" where
  "format_duration seconds =
     (let s = max seconds 0; r = show_int (s mod 60)
      in show_int (s div 60) @ '':'' @ (if length r < 2 then CHR ''0'' # r else r))"

definition EMITTED_DIRECTIVES :: "string list" where
  "EMITTED_DIRECTIVES =
     [''new_song'', ''ns'', ''title'', ''t'', ''subtitle'', ''st'', ''artist'', ''key'', ''tempo'',
      ''time'', ''capo'', ''duration'', ''meta'']"

definition trim_start :: "string \<Rightarrow> string" where
  "trim_start s = trim_start_matches is_whitespace s"

definition embeddable_line :: "string \<Rightarrow> bool" where
  "embeddable_line line =
     (if \<not> starts_with (trim_start line) ''{'' then True
      else
        let directive =
              map to_ascii_lowercase
                (trim (takeWhile (\<lambda>c. c \<noteq> CHR '':'' \<and> c \<noteq> CHR ''}'')
                  (trim_start_matches (\<lambda>c. c = CHR ''{'') (trim line))))
        in directive \<notin> set EMITTED_DIRECTIVES)"

definition embeddable_lyrics :: "string \<Rightarrow> string" where
  "embeddable_lyrics lyrics = join_char (CHR 0x0A) (filter embeddable_line (str_lines lyrics))"

definition push_directive :: "string \<Rightarrow> string \<Rightarrow> string" where
  "push_directive name value =
     (let value = directive_value value
      in if value = [] then [] else ''{'' @ name @ '': '' @ value @ ''}'' @ [CHR 0x0A])"

definition push_opt :: "string \<Rightarrow> ('a \<Rightarrow> string) \<Rightarrow> 'a option \<Rightarrow> string" where
  "push_opt name f m = (case m of None \<Rightarrow> [] | Some x \<Rightarrow> push_directive name (f x))"

definition render_song :: "song_export \<Rightarrow> string" where
  "render_song song =
     push_directive ''title'' (se_title song)
     @ push_opt ''artist'' id (se_artist_name song)
     @ push_opt ''key'' id (se_tonality song)
     @ push_opt ''tempo'' show_int (se_tempo song)
     @ push_opt ''time'' id (se_time_signature song)
     @ push_opt ''capo'' show_int (se_capo song)
     @ push_opt ''duration'' format_duration (se_duration song)
     @ push_opt ''meta'' (\<lambda>e. ''energy '' @ show_int e) (se_energy song)
     @ [CHR 0x0A]
     @ (case opt_filter (\<lambda>l. trim l \<noteq> []) (se_lyrics song) of
          Some lyrics \<Rightarrow> embeddable_lyrics lyrics
        | None \<Rightarrow> ''# No lyrics provided.'')
     @ [CHR 0x0A]"

text \<open>
  What \<open>export_song_chordpro\<close> writes for the song \<open>import_chordpro\<close> stored with these fields, under
  an artist of the given name (\<^verbatim>\<open>src/src/controllers/song.rs\<close>).
\<close>

definition export_of :: "string \<Rightarrow> parsed_chordpro \<Rightarrow> song_export" where
  "export_of artist p =
     \<lparr>se_title = pc_title p, se_artist_name = Some artist,
      se_tonality = map_option tonality_name (pc_tonality p), se_tempo = pc_tempo p,
      se_lyrics = pc_lyrics p, se_time_signature = pc_time_signature p, se_capo = pc_capo p,
      se_duration = pc_duration p, se_energy = None\<rparr>"

fun render_songs :: "song_export list \<Rightarrow> string" where
  "render_songs [] = []"
| "render_songs [song] = render_song song"
| "render_songs (song # songs) =
     render_song song @ CHR 0x0A # ''{new_song}'' @ [CHR 0x0A, CHR 0x0A] @ render_songs songs"

section \<open>File names\<close>

text \<open>\<open>char::is_alphanumeric\<close> below U+0100.\<close>

definition is_alphanumeric :: "char \<Rightarrow> bool" where
  "is_alphanumeric c \<longleftrightarrow>
     is_ascii_alphanumeric c \<or> code c \<in> {170, 178, 179, 181, 185, 186, 188, 189, 190}
     \<or> 192 \<le> code c \<and> code c \<noteq> 215 \<and> code c \<noteq> 247"

definition slug_filename :: "string \<Rightarrow> string \<Rightarrow> string \<Rightarrow> string" where
  "slug_filename prefix title ext =
     (let slug = join_char (CHR ''-'')
            (filter (\<lambda>p. p \<noteq> [])
              (split_char (CHR ''-'')
                (map (\<lambda>c. if is_alphanumeric c then char_lower c else CHR ''-'') (trim title))));
          slug = trim_end_matches (\<lambda>c. c = CHR ''-'') (take 80 slug)
      in if slug = [] then prefix @ ''.'' @ ext else prefix @ ''-'' @ slug @ ''.'' @ ext)"

definition chordpro_filename :: "string \<Rightarrow> string" where
  "chordpro_filename title = slug_filename ''song'' title ''cho''"

end
