(* ===== verification/ChordProText.thy ===== *)
theory ChordProText
  imports ChordPro
begin

text \<open>
  Text facts for ChordPro files: cleaned values, decimal numbers, the form of a cleaned lyric
  line and of a directive, and tidy charts. Each states what the importer makes of a text
  that already has the form it produces.
\<close>

section \<open>Words\<close>

definition is_word :: "string \<Rightarrow> bool" where
  "is_word w \<longleftrightarrow> w \<noteq> [] \<and> (\<forall>c \<in> set w. \<not> is_whitespace c)"

lemma words_acc_word: "\<forall>c \<in> set w. \<not> is_whitespace c \<Longrightarrow> words_acc acc (w @ s) = words_acc (rev w @ acc) s"
  by (induction w arbitrary: acc) simp_all

lemma words_acc_words:
  "w \<in> set (words_acc acc s) \<Longrightarrow> \<forall>c \<in> set acc. \<not> is_whitespace c \<Longrightarrow> is_word w"
proof (induction acc s rule: words_acc.induct)
  case (2 acc c cs)
  show ?case
  proof (cases "is_whitespace c")
    case True
    with 2 show ?thesis by (cases "acc = []") (auto simp: is_word_def)
  next
    case False
    with 2 show ?thesis by simp
  qed
qed (auto simp: is_word_def split: if_splits)

lemma split_whitespace_words: "w \<in> set (split_whitespace s) \<Longrightarrow> is_word w"
  unfolding split_whitespace_def by (erule words_acc_words) simp

lemma is_whitespace_space [simp]: "is_whitespace (CHR '' '')"
  by (simp add: is_whitespace_def code_def)

lemma split_join_words:
  "\<forall>w \<in> set ws. is_word w \<Longrightarrow> split_whitespace (join_char (CHR '' '') ws) = ws"
proof (induction ws rule: induct_list012)
  case (2 w)
  then show ?case
    using words_acc_word [of w "[]" "[]"] by (simp add: split_whitespace_def is_word_def)
next
  case (3 w v ws)
  then have "words_acc [] (w @ [CHR '' ''] @ join_char (CHR '' '') (v # ws))
      = w # words_acc [] (join_char (CHR '' '') (v # ws))"
    by (simp add: words_acc_word is_word_def)
  with 3 show ?case by (simp add: split_whitespace_def)
qed (simp add: split_whitespace_def)

lemma words_acc_subset: "w \<in> set (words_acc acc s) \<Longrightarrow> set w \<subseteq> set acc \<union> set s"
  by (induction acc s rule: words_acc.induct) (auto split: if_splits)

lemma set_join_char: "set (join_char c ws) \<subseteq> insert c (\<Union>w \<in> set ws. set w)"
  by (induction c ws rule: join_char.induct) auto

definition single_spaced :: "string \<Rightarrow> string" where
  "single_spaced s = join_char (CHR '' '') (split_whitespace s)"

lemma single_spaced_idem [simp]: "single_spaced (single_spaced s) = single_spaced s"
  by (simp add: single_spaced_def split_join_words split_whitespace_words)

lemma single_spaced_subset: "set (single_spaced s) \<subseteq> insert (CHR '' '') (set s)"
  using set_join_char [of "CHR '' ''" "split_whitespace s"] words_acc_subset [of _ "[]" s]
  unfolding single_spaced_def split_whitespace_def by fastforce

lemma single_spaced_space: "single_spaced (CHR '' '' # s) = single_spaced s"
  by (simp add: single_spaced_def split_whitespace_def)

lemma single_spaced_word: "is_word s \<Longrightarrow> single_spaced s = s"
  using words_acc_word [of s "[]" "[]"] by (simp add: single_spaced_def split_whitespace_def is_word_def)

lemma words_acc_Nil_iff: "words_acc acc s = [] \<longleftrightarrow> acc = [] \<and> (\<forall>c \<in> set s. is_whitespace c)"
  by (induction acc s rule: words_acc.induct) auto

lemma join_char_Nil_iff: "\<forall>w \<in> set ws. is_word w \<Longrightarrow> join_char c ws = [] \<longleftrightarrow> ws = []"
  by (cases ws rule: remdups_adj.cases) (auto simp: is_word_def)

lemma single_spaced_Nil_iff: "single_spaced s = [] \<longleftrightarrow> (\<forall>c \<in> set s. is_whitespace c)"
  using join_char_Nil_iff [of "split_whitespace s"] split_whitespace_words
  by (simp add: single_spaced_def) (simp add: split_whitespace_def words_acc_Nil_iff)

lemma hd_join_words: "\<forall>w \<in> set ws. is_word w \<Longrightarrow> join_char c ws \<noteq> [] \<Longrightarrow> \<not> is_whitespace (hd (join_char c ws))"
  by (cases ws rule: remdups_adj.cases) (auto simp: is_word_def hd_append)

section \<open>Cleaned values\<close>

lemma clean_value_eq: "clean_value v = single_spaced (map (\<lambda>c. if is_brace c then CHR '' '' else c) v)"
  by (simp add: clean_value_def single_spaced_def)

lemma not_brace_space [simp]: "\<not> is_brace (CHR '' '')"
  by (simp add: is_brace_def)

lemma clean_value_no_brace: "\<forall>c \<in> set v. \<not> is_brace c \<Longrightarrow> clean_value v = single_spaced v"
  unfolding clean_value_eq by (rule arg_cong [where f = single_spaced]) (simp add: map_idI)

lemma clean_value_chars: "c \<in> set (clean_value v) \<Longrightarrow> \<not> is_brace c \<and> (c = CHR '' '' \<or> c \<in> set v)"
  unfolding clean_value_eq using single_spaced_subset by fastforce

lemma clean_value_idem [simp]: "clean_value (clean_value v) = clean_value v"
  by (metis clean_value_no_brace clean_value_chars clean_value_eq single_spaced_idem)

lemma clean_value_space [simp]: "clean_value (CHR '' '' # v) = clean_value v"
  by (simp add: clean_value_eq single_spaced_space)

lemma clean_value_word: "is_word v \<Longrightarrow> \<forall>c \<in> set v. \<not> is_brace c \<Longrightarrow> clean_value v = v"
  by (simp add: clean_value_no_brace single_spaced_word)

lemma clean_value_Nil [simp]: "clean_value [] = []"
  by (simp add: clean_value_eq single_spaced_Nil_iff)

lemma directive_value_eq:
  "directive_value v =
     take MAX_DIRECTIVE_VALUE (single_spaced (map (\<lambda>c. if is_control c \<or> is_brace c then CHR '' '' else c) v))"
  by (simp add: directive_value_def single_spaced_def)

text \<open>A value the importer cut at 255 characters is written as it is, less a blank at the cut.\<close>

definition printable :: "char \<Rightarrow> bool" where
  "printable c \<longleftrightarrow> \<not> is_control c \<and> \<not> invisible_char c"

lemma directive_value_clean:
  assumes "\<forall>c \<in> set v. printable c \<and> \<not> is_brace c" and "length (single_spaced v) \<le> 255"
  shows "directive_value v = clean_value v"
proof -
  have "map (\<lambda>c. if is_control c \<or> is_brace c then CHR '' '' else c) v = v"
    using assms(1) by (auto intro: map_idI simp: printable_def)
  with assms show ?thesis
    by (simp add: directive_value_eq clean_value_no_brace MAX_DIRECTIVE_VALUE_def)
qed

lemma length_words_acc:
  "length (join_char c (words_acc acc s)) \<le> length acc + length s"
proof (induction acc s rule: words_acc.induct)
  case (2 acc x xs)
  have "length (join_char c (w # ws)) \<le> length w + Suc (length (join_char c ws))" for w ws
    by (cases ws) simp_all
  with 2 show ?case by (fastforce split: if_splits intro: le_trans)
qed simp

lemma length_single_spaced: "length (single_spaced s) \<le> length s"
  using length_words_acc [of "CHR '' ''" "[]" s] by (simp add: single_spaced_def split_whitespace_def)

section \<open>Numbers\<close>

lemma digit_not_brace: "is_ascii_digit c \<Longrightarrow> \<not> is_brace c"
  by (auto simp: is_ascii_digit_def is_brace_def code_def)

lemma digits_word: "list_all is_ascii_digit s \<Longrightarrow> s \<noteq> [] \<Longrightarrow> is_word s"
  by (auto simp: is_word_def list_all_iff)

lemma clean_digits: "list_all is_ascii_digit s \<Longrightarrow> clean_value s = s"
  by (cases "s = []") (auto intro!: clean_value_word digits_word simp: list_all_iff digit_not_brace)

lemma lower_digits: "list_all is_ascii_digit s \<Longrightarrow> map to_ascii_lowercase s = s"
  by (auto intro!: map_idI simp: list_all_iff to_ascii_lowercase_def is_ascii_uppercase_def is_ascii_digit_def)

lemma strip_bpm_digits: "list_all is_ascii_digit s \<Longrightarrow> strip_suffix ''bpm'' s = None"
  by (cases s rule: rev_cases) (auto simp: strip_suffix_def is_ascii_digit_def code_def)

lemma parse_tempo_show:
  assumes "1 \<le> t" and "t \<le> 500"
  shows "parse_tempo (show_int t) = Some t"
proof -
  have "length (show_nat (nat t)) \<le> 3" by (rule length_show_nat) (use assms in auto)
  with assms show_nat_digits [of "nat t"] show ?thesis
  by (simp add: parse_tempo_def show_int_nat trim_no_whitespace digits_word list_all_iff lower_digits
      strip_bpm_digits byte_len_digits Let_def)
qed

lemma parse_capo_show:
  assumes "0 \<le> c" and "c \<le> 11"
  shows "parse_capo (show_int c) = Some c"
proof -
  have "length (show_nat (nat c)) \<le> 2" by (rule length_show_nat) (use assms in auto)
  with assms show_nat_digits [of "nat c"] show ?thesis
    by (simp add: parse_capo_def show_int_nat trim_no_whitespace list_all_iff byte_len_digits Let_def)
qed

definition pad2 :: "nat \<Rightarrow> string" where
  "pad2 n = (if length (show_nat n) < 2 then CHR ''0'' # show_nat n else show_nat n)"

lemma pad2_digits: "list_all is_ascii_digit (pad2 n)" "pad2 n \<noteq> []"
  using show_nat_digits [of n] by (simp_all add: pad2_def is_ascii_digit_def code_def)

lemma parse_pad2: "parse_digits (pad2 n) = int n"
  using parse_show_nat [of n] by (simp add: pad2_def parse_digits_def code_def)

lemma length_pad2: "n < 60 \<Longrightarrow> length (pad2 n) = 2"
  using length_show_nat [of n 2] show_nat_not_Nil [of n]
  by (cases "show_nat n") (auto simp: pad2_def le_Suc_eq numeral_2_eq_2 simp del: show_nat_not_Nil)

lemma format_duration_eq:
  "0 \<le> d \<Longrightarrow> format_duration d = show_nat (nat d div 60) @ CHR '':'' # pad2 (nat d mod 60)"
  by (simp add: format_duration_def show_int_nat pad2_def Let_def nat_div_distrib nat_mod_distrib)

lemma digit_colon: "list_all is_ascii_digit s \<Longrightarrow> CHR '':'' \<notin> set s"
  by (auto simp: list_all_iff is_ascii_digit_def code_def)

lemma format_duration_chars:
  "0 \<le> d \<Longrightarrow> c \<in> set (format_duration d) \<Longrightarrow> is_ascii_digit c \<or> c = CHR '':''"
  using show_nat_digits [of "nat d div 60"] pad2_digits [of "nat d mod 60"]
  by (auto simp: format_duration_eq list_all_iff)

lemma parse_duration_format:
  assumes "1 \<le> d" and "d \<le> 7200"
  shows "parse_duration (format_duration d) = Some d"
proof -
  let ?m = "nat d div 60" and ?s = "nat d mod 60"
  have len: "length (show_nat ?m) \<le> 4" using length_show_nat [of ?m 4] assms by simp
  have d: "list_all is_ascii_digit (show_nat ?m)" "list_all is_ascii_digit (pad2 ?s)"
    by (simp_all add: show_nat_digits pad2_digits)
  have "list_all (\<lambda>c. \<not> is_whitespace c) (format_duration d)"
    using format_duration_chars [of d] assms
    by (force simp: list_all_iff is_whitespace_def code_def is_ascii_digit_def)
  then have "trim (format_duration d) = format_duration d" by (rule trim_no_whitespace)
  moreover have "few_digits (show_nat ?m)" "few_digits (pad2 ?s)" "byte_len (pad2 ?s) = 2"
    using d len pad2_digits [of ?s] length_pad2 [of ?s] by (simp_all add: few_digits_def byte_len_digits)
  moreover have "split_once (CHR '':'') (format_duration d) = Some (show_nat ?m, pad2 ?s)"
    using assms digit_colon [OF d(1)] by (simp add: format_duration_eq split_once_append)
  ultimately show ?thesis
    using assms by (simp add: parse_duration_def parse_pad2 Let_def zdiv_int zmod_int)
qed

section \<open>Directives\<close>

definition directive_line :: "string \<Rightarrow> string \<Rightarrow> string" where
  "directive_line name value = ''{'' @ name @ '': '' @ value @ ''}''"

lemma known_name_chars:
  assumes "known_name name" and "c \<in> set name"
  shows "\<not> is_whitespace c" and "c \<noteq> CHR '':''" and "c \<noteq> CHR ''{''" and "c \<noteq> CHR ''}''"
    and "to_ascii_lowercase c = c" and "printable c" and "c \<noteq> CHR 0x0A"
proof -
  have "is_ascii_lowercase c \<or> is_ascii_digit c \<or> c = CHR ''_''"
    using assms by (simp add: known_name_def list_all_iff)
  then have n: "97 \<le> code c \<and> code c \<le> 122 \<or> 48 \<le> code c \<and> code c \<le> 57 \<or> code c = 95"
    unfolding is_ascii_lowercase_def is_ascii_digit_def by (elim disjE) (simp_all add: code_def)
  have k: "code (CHR '':'') = 58" "code (CHR ''{'') = 123" "code (CHR ''}'') = 125" "code (CHR 0x0A) = 10"
    by (simp_all add: code_def)
  show "c \<noteq> CHR '':''" "c \<noteq> CHR ''{''" "c \<noteq> CHR ''}''" "c \<noteq> CHR 0x0A" using n k by auto
  show "\<not> is_whitespace c" using n by (simp only: is_whitespace_def) linarith
  show "to_ascii_lowercase c = c" using n by (simp add: to_ascii_lowercase_def is_ascii_uppercase_def) linarith
  show "printable c" using n unfolding printable_def is_control_def invisible_char_def by linarith
qed

lemma known_name_trim: "known_name name \<Longrightarrow> trim name = name"
  by (rule trim_no_whitespace) (simp add: list_all_iff known_name_chars)

lemma known_name_lower: "known_name name \<Longrightarrow> map to_ascii_lowercase name = name"
  by (rule map_idI) (rule known_name_chars)

lemma strip_suffix_snoc [simp]: "strip_suffix [c] (s @ [c]) = Some s"
  by (simp add: strip_suffix_def)

lemma braced_trim: "trim (CHR ''{'' # s @ [CHR ''}'']) = CHR ''{'' # s @ [CHR ''}'']"
  by (rule trim_id) (simp add: is_whitespace_def code_def)

lemma parse_directive_value:
  assumes "known_name name"
  shows "parse_directive (trim (directive_line name value)) = Some (name, clean_value value)"
proof -
  have "CHR '':'' \<notin> set name" using known_name_chars [OF assms] by blast
  then have "split_once (CHR '':'') (name @ '': '' @ value) = Some (name, CHR '' '' # value)"
    by (simp add: split_once_append)
  moreover have "strip_suffix ''}'' (name @ '': '' @ value @ ''}'') = Some (name @ '': '' @ value)"
    using strip_suffix_snoc [of "CHR ''}''" "name @ '': '' @ value"] by simp
  ultimately show ?thesis
    using braced_trim [of "name @ '': '' @ value"] assms
    by (simp add: directive_line_def parse_directive_def known_name_trim known_name_lower)
qed

lemma parse_directive_bare:
  assumes "known_name name"
  shows "parse_directive (trim (''{'' @ name @ ''}'')) = Some (name, [])"
proof -
  have "split_once (CHR '':'') name = None"
    using known_name_chars [OF assms] by (auto simp: split_once_None)
  then show ?thesis
    using braced_trim [of name] assms by (simp add: parse_directive_def known_name_trim known_name_lower)
qed

definition kept_directives :: "string list" where
  "kept_directives = SECTION_DIRECTIVES @ COMMENT_DIRECTIVES"

lemma kept_known: "n \<in> set kept_directives \<Longrightarrow> known_name n"
proof -
  have "list_all known_name kept_directives" by code_simp
  then show "n \<in> set kept_directives \<Longrightarrow> known_name n" by (simp add: list_all_iff)
qed

lemma emitted_known: "n \<in> set EMITTED_DIRECTIVES \<Longrightarrow> known_name n"
proof -
  have "list_all known_name EMITTED_DIRECTIVES" by code_simp
  then show "n \<in> set EMITTED_DIRECTIVES \<Longrightarrow> known_name n" by (simp add: list_all_iff)
qed

lemma kept_not_emitted: "n \<in> set kept_directives \<Longrightarrow> n \<notin> set EMITTED_DIRECTIVES"
proof -
  have "list_all (\<lambda>n. n \<notin> set EMITTED_DIRECTIVES) kept_directives" by code_simp
  then show "n \<in> set kept_directives \<Longrightarrow> n \<notin> set EMITTED_DIRECTIVES" by (simp add: list_all_iff)
qed

section \<open>Clean lyric lines\<close>

text \<open>A clean line is a sequence of plain characters and of chords in brackets.\<close>

datatype piece = Plain char | Chord string

fun piece_text :: "piece \<Rightarrow> string" where
  "piece_text (Plain c) = [c]"
| "piece_text (Chord s) = CHR ''['' # s @ '']''"

fun piece_ok :: "piece \<Rightarrow> bool" where
  "piece_ok (Plain c) \<longleftrightarrow> c \<noteq> CHR ''['' \<and> c \<noteq> CHR '']'' \<and> \<not> is_brace c"
| "piece_ok (Chord s) \<longleftrightarrow> s \<noteq> [] \<and> trim s = s \<and> is_chord s \<and> CHR ''['' \<notin> set s \<and> CHR '']'' \<notin> set s"

definition pieces_text :: "piece list \<Rightarrow> string" where
  "pieces_text ps = concat (map piece_text ps)"

lemma pieces_text_simps [simp]:
  "pieces_text [] = []" "pieces_text (p # ps) = piece_text p @ pieces_text ps"
  "pieces_text (ps @ qs) = pieces_text ps @ pieces_text qs"
  by (simp_all add: pieces_text_def)

definition clean_line :: "string \<Rightarrow> bool" where
  "clean_line s \<longleftrightarrow> (\<exists>ps. list_all piece_ok ps \<and> s = pieces_text ps)"

lemma takeWhile_until: "\<forall>c \<in> set a. P c \<Longrightarrow> \<not> P d \<Longrightarrow> takeWhile P (a @ d # b) = a"
  by (induction a) auto

lemma clean_go_pieces:
  "list_all piece_ok ps \<Longrightarrow> clean_go number (pieces_text ps) out b ws = (out @ pieces_text ps, b, ws)"
proof (induction ps arbitrary: out)
  case Nil
  then show ?case by (simp add: clean_go.simps)
next
  case (Cons p ps)
  show ?case
  proof (cases p)
    case (Plain c)
    with Cons show ?thesis by (simp add: clean_go.simps)
  next
    case (Chord s)
    with Cons.prems have s: "s \<noteq> []" "trim s = s" "is_chord s" "\<forall>c \<in> set s. c \<noteq> CHR '']'' \<and> c \<noteq> CHR ''[''"
      by auto
    have "takeWhile (\<lambda>x. x \<noteq> CHR '']'' \<and> x \<noteq> CHR ''['') (s @ CHR '']'' # pieces_text ps) = s"
      by (rule takeWhile_until) (use s in auto)
    with s Cons Chord show ?thesis by (simp add: clean_go.simps)
  qed
qed

lemma clean_go_step:
  assumes "s \<noteq> []"
  shows "\<exists>s' ps b' ws'. length s' < length s \<and> list_all piece_ok ps
    \<and> set s' \<subseteq> set s \<and> set (pieces_text ps) \<subseteq> insert (CHR ''['') (insert (CHR '']'') (set s))
    \<and> clean_go number s out b ws = clean_go number s' (out @ pieces_text ps) b' ws'"
proof -
  obtain c rest where s: "s = c # rest" using assms by (cases s) auto
  have skip: ?thesis if "clean_go number s out b ws = clean_go number s' out b' ws'" "length s' < length s"
    "set s' \<subseteq> set s" for s' b' ws'
    using that by (intro exI [of _ s'] exI [of _ "[]"] exI [of _ b'] exI [of _ ws']) simp
  show ?thesis
  proof (cases "c = CHR ''[''")
    case True
    let ?text = "takeWhile (\<lambda>x. x \<noteq> CHR '']'' \<and> x \<noteq> CHR ''['') rest"
    have inner: "CHR ''['' \<notin> set (trim ?text)" "CHR '']'' \<notin> set (trim ?text)"
      using trim_subset [of ?text] by (auto dest: set_takeWhileD)
    show ?thesis
    proof (cases "\<exists>r. drop (length ?text) rest = CHR '']'' # r")
      case bracketed: True
      then obtain r where r: "drop (length ?text) rest = CHR '']'' # r" by blast
      then have shorter: "length r < length s" using s by (auto dest!: arg_cong [where f = length])
      have "set (drop (length ?text) rest) \<subseteq> set rest" by (auto dest: in_set_dropD)
      then have sub: "set r \<subseteq> set s" "set (trim ?text) \<subseteq> set s"
        using r s trim_subset [of ?text] by (auto dest: set_takeWhileD)
      show ?thesis
      proof (cases "trim ?text \<noteq> [] \<and> is_chord (trim ?text)")
        case True
        with s \<open>c = CHR ''[''\<close> r inner shorter sub show ?thesis
          by (intro exI [of _ r] exI [of _ "[Chord (trim ?text)]"] exI [of _ b] exI [of _ ws])
            (auto simp: clean_go.simps Let_def)
      next
        case False
        with s \<open>c = CHR ''[''\<close> r shorter show ?thesis
          by (intro skip [OF _ shorter sub(1)]) (auto simp: clean_go.simps Let_def)
      qed
    next
      case False
      with s True show ?thesis
        by (intro skip [of rest]) (auto simp: clean_go.simps Let_def split: list.splits)
    qed
  next
    case False
    show ?thesis
    proof (cases "c = CHR '']'' \<or> is_brace c")
      case True
      with s False obtain b' ws' where "clean_go number s out b ws = clean_go number rest out b' ws'"
        by (cases "c = CHR '']''") (auto simp: clean_go.simps)
      then show ?thesis by (rule skip) (use s in auto)
    next
      case plain: False
      with s False show ?thesis
        by (intro exI [of _ rest] exI [of _ "[Plain c]"] exI [of _ b] exI [of _ ws]) (auto simp: clean_go.simps)
    qed
  qed
qed

lemma clean_go_out:
  "\<exists>ps b' ws'. list_all piece_ok ps
     \<and> set (pieces_text ps) \<subseteq> insert (CHR ''['') (insert (CHR '']'') (set s))
     \<and> clean_go number s out b ws = (out @ pieces_text ps, b', ws')"
proof (induction "length s" arbitrary: s out b ws rule: less_induct)
  case less
  show ?case
  proof (cases "s = []")
    case True
    then show ?thesis by (intro exI [of _ "[]"]) (simp add: clean_go.simps)
  next
    case False
    then obtain s' ps b' ws' where step: "length s' < length s" "list_all piece_ok ps"
      "set s' \<subseteq> set s" "set (pieces_text ps) \<subseteq> insert (CHR ''['') (insert (CHR '']'') (set s))"
      "clean_go number s out b ws = clean_go number s' (out @ pieces_text ps) b' ws'"
      using clean_go_step by blast
    from less [OF step(1)] obtain qs b'' ws'' where
      "list_all piece_ok qs" "set (pieces_text qs) \<subseteq> insert (CHR ''['') (insert (CHR '']'') (set s'))"
      "clean_go number s' (out @ pieces_text ps) b' ws' = ((out @ pieces_text ps) @ pieces_text qs, b'', ws'')"
      by blast
    with step show ?thesis by (intro exI [of _ "ps @ qs"]) auto
  qed
qed

lemma pieces_trim_end:
  "list_all piece_ok ps \<Longrightarrow> \<exists>qs. list_all piece_ok qs \<and> trim_end (pieces_text ps) = pieces_text qs"
proof (induction ps rule: rev_induct)
  case Nil
  show ?case by (intro exI [of _ "[]"]) (simp add: trim_end_def trim_end_matches_def)
next
  case (snoc p ps)
  show ?case
  proof (cases "\<exists>c. p = Plain c \<and> is_whitespace c")
    case True
    then have "trim_end (pieces_text (ps @ [p])) = trim_end (pieces_text ps)"
      by (auto simp: trim_end_def trim_end_matches_def)
    with snoc show ?thesis by auto
  next
    case False
    then have "\<not> is_whitespace (last (piece_text p))" "piece_text p \<noteq> []"
      by (cases p; simp add: is_whitespace_def code_def)+
    then have "trim_end (pieces_text (ps @ [p])) = pieces_text (ps @ [p])"
      unfolding trim_end_def trim_end_matches_eq by simp
    with snoc.prems show ?thesis by (intro exI [of _ "ps @ [p]"]) simp
  qed
qed

lemma trim_end_idem [simp]: "trim_end (trim_end s) = trim_end s"
  unfolding trim_end_def trim_end_matches_eq by (rule trim_end_matches_last)

lemma clean_lyric_line_form:
  "clean_line (fst (clean_lyric_line s number ws))"
  "trim_end (fst (clean_lyric_line s number ws)) = fst (clean_lyric_line s number ws)"
  "set (fst (clean_lyric_line s number ws)) \<subseteq> insert (CHR ''['') (insert (CHR '']'') (set s))"
proof -
  obtain ps b' ws' where ps: "list_all piece_ok ps" "clean_go number s [] False ws = (pieces_text ps, b', ws')"
    "set (pieces_text ps) \<subseteq> insert (CHR ''['') (insert (CHR '']'') (set s))"
    using clean_go_out [where number = number and s = s and out = "[]" and b = False and ws = ws] by auto
  then have "fst (clean_lyric_line s number ws) = trim_end (pieces_text ps)"
    by (simp add: clean_lyric_line_def)
  moreover from this show "trim_end (fst (clean_lyric_line s number ws)) = fst (clean_lyric_line s number ws)"
    by simp
  ultimately show "clean_line (fst (clean_lyric_line s number ws))"
    "set (fst (clean_lyric_line s number ws)) \<subseteq> insert (CHR ''['') (insert (CHR '']'') (set s))"
    using ps pieces_trim_end [OF ps(1)] trim_end_matches_subset [of is_whitespace "pieces_text ps"]
    by (auto simp: clean_line_def trim_end_def)
qed

lemma clean_lyric_line_fixed:
  "clean_line s \<Longrightarrow> trim_end s = s \<Longrightarrow> clean_lyric_line s number ws = (s, ws)"
  using clean_go_pieces [where number = number and out = "[]" and b = False and ws = ws] by (auto simp: clean_lyric_line_def clean_line_def)

text \<open>A clean line is not taken for a directive.\<close>

lemma pieces_trim_start:
  "list_all piece_ok ps \<Longrightarrow> trim_start (pieces_text ps) = [] \<or> hd (trim_start (pieces_text ps)) \<noteq> CHR ''{''"
proof (induction ps)
  case Nil
  show ?case by (simp add: trim_start_def trim_start_matches_def)
next
  case (Cons p ps)
  have "\<not> is_whitespace (CHR ''['')" by (simp add: is_whitespace_def code_def)
  with Cons show ?case
    by (cases p) (auto simp: trim_start_def trim_start_matches_def is_brace_def)
qed

lemma trim_start_hd_trim: "trim s = [] \<or> trim_start s \<noteq> [] \<and> hd (trim s) = hd (trim_start s)"
proof -
  have "trim_end_matches p t = [] \<or> t \<noteq> [] \<and> hd (trim_end_matches p t) = hd t" for p and t :: string
    using trim_end_matches_split [of p t] by (cases "trim_end_matches p t"; cases t) auto
  then show ?thesis by (simp add: trim_def trim_matches_def trim_start_def)
qed

lemma strip_prefix_brace: "s = [] \<or> hd s \<noteq> CHR ''{'' \<Longrightarrow> strip_prefix ''{'' s = None"
  by (cases s) auto

lemma clean_line_no_directive: "clean_line s \<Longrightarrow> parse_directive (trim s) = None"
proof -
  assume "clean_line s"
  then have "trim_start s = [] \<or> hd (trim_start s) \<noteq> CHR ''{''"
    using pieces_trim_start by (auto simp: clean_line_def)
  then have "trim s = [] \<or> hd (trim s) \<noteq> CHR ''{''"
    using trim_start_hd_trim [of s] by metis
  then show ?thesis by (simp add: parse_directive_def strip_prefix_brace)
qed

lemma clean_line_embeddable: "clean_line s \<Longrightarrow> embeddable_line s"
  using pieces_trim_start by (fastforce simp: clean_line_def embeddable_line_def starts_with_iff)

lemma clean_line_Nil [simp]: "clean_line []"
  unfolding clean_line_def by (intro exI [of _ "[]"]) simp

section \<open>Tidy charts\<close>

text \<open>
  \<open>collapse_blanks\<close> without its accumulator, and what it leaves alone: \<open>tidy r ls\<close> means that
  after \<open>r\<close> blank lines (two at the start of a chart) \<open>ls\<close> has blank lines as empty texts, and
  never a third in a row.
\<close>

fun squeeze :: "nat \<Rightarrow> string list \<Rightarrow> string list" where
  "squeeze r [] = []"
| "squeeze r (l # ls) =
     (if trim l = [] then (if r \<ge> 2 then squeeze r ls else [] # squeeze (r + 1) ls) else l # squeeze 0 ls)"

fun tidy :: "nat \<Rightarrow> string list \<Rightarrow> bool" where
  "tidy r [] = True"
| "tidy r (l # ls) = (if trim l = [] then l = [] \<and> r < 2 \<and> tidy (r + 1) ls else tidy 0 ls)"

lemma collapse_squeeze:
  "collapse_blanks run acc body = acc @ squeeze (if acc = [] then 2 else min 2 run) body"
  by (induction run acc body rule: collapse_blanks.induct) (auto simp: min_def numeral_2_eq_2)

lemma trim_Nil [simp]: "trim [] = []"
  by (simp add: trim_def trim_matches_def trim_start_matches_def trim_end_matches_def)

lemma tidy_squeeze: "tidy r (squeeze r ls)"
  by (induction r ls rule: squeeze.induct) simp_all

lemma squeeze_tidy: "tidy r ls \<Longrightarrow> \<exists>r'. squeeze r (ls @ ms) = ls @ squeeze r' ms"
  by (induction r ls rule: tidy.induct) (auto split: if_splits)

lemma tidy_append: "tidy r (ls @ ms) \<Longrightarrow> tidy r ls"
  by (induction r ls rule: tidy.induct) (auto split: if_splits)

lemma squeeze_subset: "set (squeeze r ls) \<subseteq> insert [] (set ls)"
  by (induction r ls rule: squeeze.induct) auto

lemma chart_lines_eq: "chart_lines body = rev (dropWhile (\<lambda>l. l = []) (rev (squeeze 2 body)))"
  by (simp add: chart_lines_def collapse_squeeze)

lemma rev_dropWhile_prefix: "\<exists>zs. xs = rev (dropWhile P (rev xs)) @ zs"
proof -
  have "rev xs = takeWhile P (rev xs) @ dropWhile P (rev xs)" by simp
  then have "xs = rev (dropWhile P (rev xs)) @ rev (takeWhile P (rev xs))"
    by (metis rev_append rev_rev_ident)
  then show ?thesis by blast
qed

lemma chart_lines_tidy:
  "tidy 2 (chart_lines body)" "chart_lines body = [] \<or> last (chart_lines body) \<noteq> []"
  "set (chart_lines body) \<subseteq> insert [] (set body)"
proof -
  obtain zs where zs: "squeeze 2 body = chart_lines body @ zs"
    using rev_dropWhile_prefix [of "squeeze 2 body" "\<lambda>l. l = []"] by (auto simp: chart_lines_eq)
  then show "tidy 2 (chart_lines body)" using tidy_squeeze [of 2 body] by (metis tidy_append)
  show "set (chart_lines body) \<subseteq> insert [] (set body)" using zs squeeze_subset [of 2 body] by auto
  show "chart_lines body = [] \<or> last (chart_lines body) \<noteq> []"
    using hd_dropWhile [of "\<lambda>l. l = []" "rev (squeeze 2 body)"] unfolding chart_lines_eq
    by (cases "dropWhile (\<lambda>l. l = []) (rev (squeeze 2 body)) = []") (simp_all only: last_rev, auto)
qed

lemma chart_lines_framed:
  assumes "tidy 2 ls" and "ls \<noteq> []" and "last ls \<noteq> []"
  shows "chart_lines ([] # ls @ [[]]) = ls"
proof -
  obtain r where "squeeze 2 ([] # ls @ [[]]) = ls @ squeeze r [[]]"
    using squeeze_tidy [OF assms(1), of "[[]]"] by auto
  moreover have "dropWhile (\<lambda>l. l = []) (rev ls) = rev ls"
    using assms(2,3) by (cases ls rule: rev_cases) auto
  ultimately show ?thesis by (simp add: chart_lines_eq)
qed

lemma tidy_hd: "tidy 2 ls \<Longrightarrow> ls \<noteq> [] \<Longrightarrow> trim (hd ls) \<noteq> []"
  by (cases ls) auto

end
