(* ===== verification/ChordProLaws.thy ===== *)
theory ChordProLaws
  imports ChordProText
begin

text \<open>
  What an import yields, and that an exported song is imported as it was: the state of the
  importer keeps a form (\<open>state_ok\<close>) that the exporter writes and the importer reads back.
\<close>

section \<open>Lines of a chart\<close>

definition body_line :: "string \<Rightarrow> bool" where
  "body_line l \<longleftrightarrow>
     clean_line l \<and> trim_end l = l
     \<or> (\<exists>n \<in> set kept_directives. l = ''{'' @ n @ ''}'')
     \<or> (\<exists>n \<in> set kept_directives. \<exists>v. v \<noteq> [] \<and> clean_value v = v \<and> l = directive_line n v)"

lemma kept_not_read:
  assumes "n \<in> set kept_directives"
  shows "n \<notin> set [''new_song'', ''ns'']" "n \<notin> set [''title'', ''t'']" "n \<notin> set [''subtitle'', ''st'']"
    "n \<noteq> ''artist''" "n \<noteq> ''key''" "n \<noteq> ''tempo''" "n \<noteq> ''time''" "n \<noteq> ''capo''" "n \<noteq> ''duration''" "n \<noteq> ''album''"
proof -
  have "list_all (\<lambda>n. n \<notin> set [''new_song'', ''ns'', ''title'', ''t'', ''subtitle'', ''st'', ''artist'', ''key'',
    ''tempo'', ''time'', ''capo'', ''duration'', ''album'']) kept_directives"
    by code_simp
  with assms have "n \<notin> set [''new_song'', ''ns'', ''title'', ''t'', ''subtitle'', ''st'', ''artist'', ''key'',
    ''tempo'', ''time'', ''capo'', ''duration'', ''album'']"
    unfolding list_all_iff by blast
  then show "n \<notin> set [''new_song'', ''ns'']" "n \<notin> set [''title'', ''t'']" "n \<notin> set [''subtitle'', ''st'']"
    "n \<noteq> ''artist''" "n \<noteq> ''key''" "n \<noteq> ''tempo''" "n \<noteq> ''time''" "n \<noteq> ''capo''" "n \<noteq> ''duration''" "n \<noteq> ''album''"
    by simp_all
qed

lemma import_kept:
  assumes "n \<in> set kept_directives"
  shows "import_directive number n v st = Inr (st\<lparr>is_body := is_body st @
     [if v = [] then ''{'' @ n @ ''}'' else directive_line n v]\<rparr>)"
  unfolding import_directive_def
  using kept_known [OF assms] kept_not_read [OF assms] assms
  by (simp only: if_False simp_thms) (simp add: kept_directives_def directive_line_def)

lemma body_line_imported:
  assumes "body_line l"
  shows "import_line number l st = Inr (st\<lparr>is_body := is_body st @ [l]\<rparr>)"
proof -
  consider (clean) "clean_line l" "trim_end l = l"
    | (bare) n where "n \<in> set kept_directives" "l = ''{'' @ n @ ''}''"
    | (valued) n v where "n \<in> set kept_directives" "v \<noteq> []" "clean_value v = v" "l = directive_line n v"
    using assms unfolding body_line_def by blast
  then show ?thesis
  proof cases
    case clean
    then show ?thesis
      by (simp add: import_line_def clean_line_no_directive clean_lyric_line_fixed)
  next
    case bare
    then show ?thesis
      using parse_directive_bare [OF kept_known, of n] import_kept [of n number "[]"] by (simp add: import_line_def)
  next
    case valued
    then show ?thesis
      using parse_directive_value [OF kept_known, of n v] import_kept [of n number v] by (simp add: import_line_def)
  qed
qed

lemma body_lines_imported:
  "\<forall>l \<in> set ls. body_line l \<Longrightarrow> import_lines number ls st = Inr (st\<lparr>is_body := is_body st @ ls\<rparr>)"
  by (induction ls arbitrary: number st) (simp_all add: body_line_imported)

lemma import_lines_append:
  "import_lines number (a @ b) st = rbind (import_lines number a st) (import_lines (number + length a) b)"
proof (induction a arbitrary: number st)
  case (Cons l ls)
  then show ?case by (cases "import_line number l st") simp_all
qed simp

lemma body_line_Nil [simp]: "body_line []"
  by (simp add: body_line_def trim_end_def trim_end_matches_def)

section \<open>The form the importer keeps\<close>

definition value_ok :: "string \<Rightarrow> bool" where
  "value_ok v \<longleftrightarrow> v \<noteq> [] \<and> clean_value v = v \<and> (\<forall>c \<in> set v. printable c)"

definition line_ok :: "string \<Rightarrow> bool" where
  "line_ok l \<longleftrightarrow> body_line l \<and> (\<forall>c \<in> set l. printable c)"

definition fields_ok :: "int option \<Rightarrow> string option \<Rightarrow> int option \<Rightarrow> int option \<Rightarrow> bool" where
  "fields_ok tempo time capo dur \<longleftrightarrow>
     is_none_or tempo (\<lambda>t. 1 \<le> t \<and> t \<le> 500) \<and> is_none_or time (\<lambda>t. t \<in> set TIME_SIGNATURES)
     \<and> is_none_or capo (\<lambda>c. 0 \<le> c \<and> c \<le> 11) \<and> is_none_or dur (\<lambda>d. 1 \<le> d \<and> d \<le> 7200)"

definition state_ok :: "import_state \<Rightarrow> bool" where
  "state_ok st \<longleftrightarrow>
     is_none_or (is_file_title st) value_ok \<and> is_none_or (is_artist st) value_ok
     \<and> is_none_or (is_subtitle st) value_ok
     \<and> fields_ok (is_tempo st) (is_time_signature st) (is_capo st) (is_duration st)
     \<and> (\<forall>l \<in> set (is_body st). line_ok l) \<and> length (is_warnings st) \<le> 101"

lemma push_warning_length: "length ws \<le> 101 \<Longrightarrow> length (push_warning c l d ws) \<le> 101"
  by (auto simp: push_warning_def MAX_WARNINGS_def)

lemma clean_go_warnings: "length ws \<le> 101 \<Longrightarrow> length (snd (snd (clean_go number s out b ws))) \<le> 101"
  by (induction number s out b ws rule: clean_go.induct)
    (auto simp: clean_go.simps Let_def push_warning_length split: list.splits)

lemma clean_lyric_line_warnings: "length ws \<le> 101 \<Longrightarrow> length (snd (clean_lyric_line s number ws)) \<le> 101"
  using clean_go_warnings [of ws number s "[]" False]
  by (auto simp: clean_lyric_line_def push_warning_length split: prod.splits)

lemma parse_tempo_range: "parse_tempo v = Some t \<Longrightarrow> 1 \<le> t \<and> t \<le> 500"
  by (auto simp: parse_tempo_def Let_def split: if_splits)

lemma parse_capo_range: "parse_capo v = Some t \<Longrightarrow> 0 \<le> t \<and> t \<le> 11"
  by (auto simp: parse_capo_def Let_def split: if_splits)

lemma parse_duration_range: "parse_duration v = Some t \<Longrightarrow> 1 \<le> t \<and> t \<le> 7200"
  by (auto simp: parse_duration_def Let_def opt_filter_eq_Some)

lemma parse_directive_Some:
  assumes "parse_directive l = Some (name, v)"
  shows "clean_value v = v" and "set v \<subseteq> insert (CHR '' '') (set l)"
proof -
  obtain r where r: "strip_prefix ''{'' l = Some r"
    using assms by (cases "strip_prefix ''{'' l") (simp_all add: parse_directive_def)
  obtain inner where i: "strip_suffix ''}'' r = Some inner"
    using assms r by (cases "strip_suffix ''}'' r") (simp_all add: parse_directive_def)
  define w where "w = (case split_once (CHR '':'') inner of Some (_, w) \<Rightarrow> w | None \<Rightarrow> [])"
  have v: "v = clean_value w"
    using assms r i by (auto simp: parse_directive_def w_def Let_def split: option.splits)
  have w: "w = [] \<or> (\<exists>n. split_once (CHR '':'') inner = Some (n, w))"
    by (auto simp: w_def split: option.splits)
  note l = r i v w
  from l(1) have "set r \<subseteq> set l" by (auto simp: strip_prefix_Some)
  moreover from l(2) have "r = inner @ ''}''"
    unfolding strip_suffix_def by (auto simp: strip_prefix_Some)
  moreover from l(4) have "set w \<subseteq> set inner" by (auto dest!: split_once_Some)
  ultimately have "set w \<subseteq> set l" by auto
  then show "set v \<subseteq> insert (CHR '' '') (set l)" using clean_value_chars l(3) by blast
  show "clean_value v = v" using l(3) by simp
qed

lemma printable_space [simp]: "printable (CHR '' '')" "printable (CHR ''['')" "printable (CHR '']'')"
    "printable (CHR ''{'')" "printable (CHR ''}'')" "printable (CHR '':'')"
  by (simp_all add: printable_def is_control_def invisible_char_def code_def)

lemma non_empty_ok: "clean_value v = v \<Longrightarrow> \<forall>c \<in> set v. printable c \<Longrightarrow> is_none_or (non_empty v) value_ok"
  by (simp add: non_empty_def value_ok_def)

lemma warn_ok: "state_ok st \<Longrightarrow> state_ok (warn c n d st)"
  by (simp add: state_ok_def warn_def push_warning_length)

lemma kept_line_ok:
  assumes "n \<in> set kept_directives" and "clean_value v = v" and "\<forall>c \<in> set v. printable c"
  shows "line_ok (if v = [] then ''{'' @ n @ ''}'' else ''{'' @ n @ '': '' @ v @ ''}'')"
proof -
  have "\<forall>c \<in> set n. printable c" using known_name_chars [OF kept_known [OF assms(1)]] by blast
  with assms show ?thesis by (auto simp: line_ok_def body_line_def directive_line_def)
qed

text \<open>Reading the branches of \<open>import_directive\<close> one by one.\<close>

definition good :: "chordpro_error + import_state \<Rightarrow> bool" where
  "good r \<longleftrightarrow> (\<forall>st. r = Inr st \<longrightarrow> state_ok st)"

lemma good_branches:
  "(b \<Longrightarrow> good x) \<Longrightarrow> (\<not> b \<Longrightarrow> good y) \<Longrightarrow> good (if b then x else y)"
  "good (Inl e)"
  "state_ok st \<Longrightarrow> good (Inr st)"
  "(b \<Longrightarrow> state_ok s) \<Longrightarrow> (\<not> b \<Longrightarrow> state_ok s') \<Longrightarrow> state_ok (if b then s else s')"
  "(\<And>k. m = Some k \<Longrightarrow> state_ok (f k)) \<Longrightarrow> (m = None \<Longrightarrow> state_ok s) \<Longrightarrow> state_ok (case m of None \<Rightarrow> s | Some k \<Rightarrow> f k)"
  by (auto simp: good_def split: option.split)

lemma import_directive_ok:
  assumes "state_ok st" and "import_directive number name v st = Inr st'"
    and "clean_value v = v" and "\<forall>c \<in> set v. printable c"
  shows "state_ok st'"
proof -
  have upd: "state_ok (st\<lparr>is_file_title := non_empty v\<rparr>)" "state_ok (st\<lparr>is_subtitle := non_empty v\<rparr>)"
    "state_ok (st\<lparr>is_artist := non_empty v\<rparr>)"
    using assms(1) non_empty_ok [OF assms(3,4)] by (simp_all add: state_ok_def)
  have fields: "state_ok (st\<lparr>is_tonality := Some k\<rparr>)"
    "parse_tempo v = Some i \<Longrightarrow> state_ok (st\<lparr>is_tempo := Some i\<rparr>)"
    "parse_capo v = Some i \<Longrightarrow> state_ok (st\<lparr>is_capo := Some i\<rparr>)"
    "parse_duration v = Some i \<Longrightarrow> state_ok (st\<lparr>is_duration := Some i\<rparr>)"
    "w \<in> set TIME_SIGNATURES \<Longrightarrow> state_ok (st\<lparr>is_time_signature := Some w\<rparr>)" for k i w
    using assms(1) parse_tempo_range [of v i] parse_capo_range [of v i] parse_duration_range [of v i]
    by (simp_all add: state_ok_def fields_ok_def)
  have kept: "state_ok (st\<lparr>is_body := is_body st @
      [if v = [] then ''{'' @ name @ ''}'' else ''{'' @ name @ '': '' @ v @ ''}'']\<rparr>)"
    if "name \<in> set SECTION_DIRECTIVES \<or> name \<in> set COMMENT_DIRECTIVES"
    using that assms(1) kept_line_ok [OF _ assms(3,4), of name] by (auto simp: state_ok_def kept_directives_def)
  have "good (import_directive number name v st)"
    unfolding import_directive_def Let_def
    by (intro good_branches) (assumption | rule upd fields kept assms(1) warn_ok)+
  with assms(2) show ?thesis by (simp add: good_def)
qed

lemma import_line_ok:
  assumes "state_ok st" and "import_line number raw st = Inr st'" and "\<forall>c \<in> set raw. printable c"
  shows "state_ok st'"
proof (cases "parse_directive (trim raw)")
  case None
  let ?l = "clean_lyric_line raw number (is_warnings st)"
  have "line_ok (fst ?l)"
    using clean_lyric_line_form [of raw number "is_warnings st"] assms(3) by (auto simp: line_ok_def body_line_def)
  moreover have "length (snd ?l) \<le> 101" using assms(1) clean_lyric_line_warnings by (simp add: state_ok_def)
  ultimately show ?thesis using assms None by (auto simp: import_line_def state_ok_def split: prod.splits)
next
  case (Some p)
  obtain name v where p: "p = (name, v)" by (cases p)
  with Some have "clean_value v = v" "\<forall>c \<in> set v. printable c"
    using parse_directive_Some [of "trim raw" name v] trim_subset [of raw] assms(3) by (auto simp: subset_iff)
  with assms Some p show ?thesis by (auto simp: import_line_def intro: import_directive_ok)
qed

lemma import_lines_ok:
  "state_ok st \<Longrightarrow> import_lines number ls st = Inr st' \<Longrightarrow> \<forall>l \<in> set ls. \<forall>c \<in> set l. printable c \<Longrightarrow> state_ok st'"
  by (induction ls arbitrary: number st) (auto intro: import_line_ok)

lemma import_start_ok: "state_ok import_start"
  by (simp add: import_start_def state_ok_def fields_ok_def)

lemma split_char_chars: "\<Union> (set ` set (split_char c s)) \<subseteq> set s"
proof (induction s)
  case (Cons a s)
  then show ?case by (cases "split_char c s") (simp, simp, blast)
qed simp

lemma split_char_subset: "l \<in> set (split_char c s) \<Longrightarrow> set l \<subseteq> set s"
  using split_char_chars [of c s] by blast

lemma sanitize_chars:
  assumes "sanitize nfc content = Inr out" and "c \<in> set out"
  shows "c = CHR 0x0A \<or> printable c"
  using assms
  by (auto simp: sanitize_def sanitize_char_def printable_def TAB_WIDTH_def is_control_def invisible_char_def code_def
      split: option.splits if_splits)

lemma parse_chordpro_state:
  assumes "parse_chordpro nfc content t = Inr p"
  obtains st where "state_ok st" and "import_result t st = Inr p"
proof -
  from assms obtain out st where r: "sanitize nfc content = Inr out"
    "import_lines 1 (split_char (CHR 0x0A) out) import_start = Inr st" "import_result t st = Inr p"
    by (auto simp: parse_chordpro_def Let_def split: if_splits)
  have "\<forall>l \<in> set (split_char (CHR 0x0A) out). \<forall>c \<in> set l. printable c"
    using sanitize_chars [OF r(1)] split_char_subset split_char_no_sep by fastforce
  with import_lines_ok [OF import_start_ok r(2)] r(3) that show ?thesis by blast
qed

section \<open>The exported text as lines\<close>

definition lines_text :: "string list \<Rightarrow> string" where
  "lines_text ls = concat (map (\<lambda>l. l @ [CHR 0x0A]) ls)"

lemma lines_text_simps [simp]:
  "lines_text [] = []" "lines_text (l # ls) = l @ CHR 0x0A # lines_text ls"
  "lines_text (a @ b) = lines_text a @ lines_text b"
  by (simp_all add: lines_text_def)

lemma lines_text_join: "ls \<noteq> [] \<Longrightarrow> lines_text ls = join_char (CHR 0x0A) ls @ [CHR 0x0A]"
  by (induction ls rule: induct_list012) simp_all

lemma split_lines_text:
  "\<forall>l \<in> set ls. CHR 0x0A \<notin> set l \<Longrightarrow> split_char (CHR 0x0A) (lines_text ls @ s) = ls @ split_char (CHR 0x0A) s"
  by (induction ls) (simp_all add: split_char_append)

definition header_line :: "string \<Rightarrow> string \<Rightarrow> string list" where
  "header_line name value =
     (if directive_value value = [] then [] else [directive_line name (directive_value value)])"

definition header_opt :: "string \<Rightarrow> ('a \<Rightarrow> string) \<Rightarrow> 'a option \<Rightarrow> string list" where
  "header_opt name f m = (case m of None \<Rightarrow> [] | Some x \<Rightarrow> header_line name (f x))"

lemma push_directive_lines: "push_directive name value = lines_text (header_line name value)"
  by (simp add: push_directive_def header_line_def directive_line_def Let_def)

lemma push_opt_lines: "push_opt name f m = lines_text (header_opt name f m)"
  by (simp add: push_opt_def header_opt_def push_directive_lines split: option.split)

definition header :: "song_export \<Rightarrow> string list" where
  "header song =
     header_line ''title'' (se_title song)
     @ header_opt ''artist'' id (se_artist_name song) @ header_opt ''key'' id (se_tonality song)
     @ header_opt ''tempo'' show_int (se_tempo song) @ header_opt ''time'' id (se_time_signature song)
     @ header_opt ''capo'' show_int (se_capo song) @ header_opt ''duration'' format_duration (se_duration song)
     @ header_opt ''meta'' (\<lambda>e. ''energy '' @ show_int e) (se_energy song)"

definition chart_text :: "song_export \<Rightarrow> string" where
  "chart_text song =
     (case opt_filter (\<lambda>l. trim l \<noteq> []) (se_lyrics song) of
        Some lyrics \<Rightarrow> embeddable_lyrics lyrics
      | None \<Rightarrow> ''# No lyrics provided.'')"

lemma render_song_lines:
  "render_song song = lines_text (header song) @ [CHR 0x0A] @ chart_text song @ [CHR 0x0A]"
  by (simp only: render_song_def header_def chart_text_def push_directive_lines push_opt_lines
      lines_text_simps append_assoc)

lemma directive_value_chars:
  "c \<in> set (directive_value v) \<Longrightarrow> \<not> is_control c \<and> \<not> is_brace c \<and> (c = CHR '' '' \<or> c \<in> set v)"
proof -
  assume "c \<in> set (directive_value v)"
  then have "c \<in> insert (CHR '' '') ((\<lambda>c. if is_control c \<or> is_brace c then CHR '' '' else c) ` set v)"
    unfolding directive_value_eq using set_take_subset single_spaced_subset by fastforce
  moreover have "\<not> is_control (CHR '' '')" by (simp add: is_control_def code_def)
  ultimately show ?thesis by (auto split: if_splits)
qed

lemma no_newline: "\<not> is_control c \<Longrightarrow> c \<noteq> CHR 0x0A"
  by (auto simp: is_control_def code_def)

definition exported_names :: "string list" where
  "exported_names = [''title'', ''artist'', ''key'', ''tempo'', ''time'', ''capo'', ''duration'', ''meta'']"

lemma exported_known: "n \<in> set exported_names \<Longrightarrow> known_name n"
proof -
  have "list_all known_name exported_names" by code_simp
  then show "n \<in> set exported_names \<Longrightarrow> known_name n" by (simp add: list_all_iff)
qed

lemma directive_line_chars:
  assumes "known_name n" and "c \<in> set (directive_line n v)"
  shows "printable c \<or> c \<in> set v"
  using assms known_name_chars(6) [OF assms(1)] by (auto simp: directive_line_def)

lemma header_line_chars:
  assumes "n \<in> set exported_names" and "l \<in> set (header_line n v)" and "c \<in> set l"
  shows "printable c \<or> c \<in> set v \<and> \<not> is_control c"
  using assms directive_line_chars [OF exported_known [OF assms(1)]] directive_value_chars
  by (fastforce simp: header_line_def split: if_splits)

lemma header_no_newline: "l \<in> set (header song) \<Longrightarrow> CHR 0x0A \<notin> set l"
proof -
  have "CHR 0x0A \<notin> set l" if "l \<in> set (header_line n v)" "n \<in> set exported_names" for n v
    using header_line_chars [OF that(2,1)] no_newline unfolding printable_def by blast
  then show "l \<in> set (header song) \<Longrightarrow> CHR 0x0A \<notin> set l"
    unfolding header_def header_opt_def exported_names_def by (force split: option.splits)
qed

section \<open>Reading the header back\<close>

lemma import_header:
  assumes "n \<in> set exported_names"
  shows "import_lines number (header_line n v) st =
    (if directive_value v = [] then Inr st
     else import_directive number n (clean_value (directive_value v)) st)"
  using parse_directive_value [OF exported_known [OF assms], of "directive_value v"]
  by (cases "import_directive number n (clean_value (directive_value v)) st")
    (simp_all add: header_line_def import_line_def)

lemma exported_names_unfold:
  "known_name ''title''" "known_name ''artist''" "known_name ''key''" "known_name ''tempo''"
  "known_name ''time''" "known_name ''capo''" "known_name ''duration''"
  by (rule exported_known, simp add: exported_names_def)+

lemma word_directive_value:
  assumes "is_word v" and "\<forall>c \<in> set v. printable c \<and> \<not> is_brace c" and "length v \<le> 255"
  shows "directive_value v = v" and "clean_value v = v"
  using assms directive_value_clean [of v] clean_value_word [of v] by (simp_all add: single_spaced_word)

lemma show_int_value:
  assumes "0 \<le> i" and "i < 1000"
  shows "directive_value (show_int i) = show_int i" and "clean_value (show_int i) = show_int i"
    and "show_int i \<noteq> []"
proof -
  have d: "list_all is_ascii_digit (show_int i)" using assms by (simp add: show_int_nat show_nat_digits)
  have "length (show_nat (nat i)) \<le> 3" by (rule length_show_nat) (use assms in auto)
  then have len: "length (show_int i) \<le> 255" using assms by (simp add: show_int_nat)
  show n: "show_int i \<noteq> []" using assms by (simp add: show_int_nat)
  have c: "\<forall>c \<in> set (show_int i). printable c \<and> \<not> is_brace c"
    using d by (auto simp: list_all_iff digit_not_brace printable_def is_control_def invisible_char_def
        is_ascii_digit_def)
  show "directive_value (show_int i) = show_int i" "clean_value (show_int i) = show_int i"
    using word_directive_value [OF digits_word [OF d n] c len] by simp_all
qed

lemma format_duration_value:
  assumes "1 \<le> d" and "d \<le> 7200"
  shows "directive_value (format_duration d) = format_duration d"
    and "clean_value (format_duration d) = format_duration d" and "format_duration d \<noteq> []"
proof -
  have c: "is_ascii_digit c \<or> c = CHR '':''" if "c \<in> set (format_duration d)" for c
    using format_duration_chars [OF _ that] assms by simp
  have "length (show_nat (nat d div 60)) \<le> 4" by (rule length_show_nat) (use assms in auto)
  then have len: "length (format_duration d) \<le> 255" using assms length_pad2 [of "nat d mod 60"] by (simp add: format_duration_eq)
  have w: "is_word (format_duration d)"
    using c assms unfolding is_word_def
    by (fastforce simp: format_duration_eq is_whitespace_def code_def is_ascii_digit_def)
  have p: "\<forall>x \<in> set (format_duration d). printable x \<and> \<not> is_brace x"
  proof
    fix x assume "x \<in> set (format_duration d)"
    from c [OF this] show "printable x \<and> \<not> is_brace x"
      by (elim disjE) (auto simp: printable_def is_control_def invisible_char_def is_ascii_digit_def digit_not_brace is_brace_def code_def)
  qed
  show "directive_value (format_duration d) = format_duration d" "clean_value (format_duration d) = format_duration d"
    "format_duration d \<noteq> []"
    using word_directive_value [OF w p len] w by (simp_all add: is_word_def)
qed

lemma tonality_value:
  "directive_value (tonality_name k) = tonality_name k" "clean_value (tonality_name k) = tonality_name k"
  "parse_key (tonality_name k) = Some k" "tonality_name k \<noteq> []"
proof -
  have "list_all (\<lambda>k. directive_value (tonality_name k) = tonality_name k
      \<and> clean_value (tonality_name k) = tonality_name k
      \<and> parse_key (tonality_name k) = Some k \<and> tonality_name k \<noteq> []) all_tonalities"
    by code_simp
  moreover have "k \<in> set all_tonalities" by (cases k) (simp_all add: all_tonalities_def)
  ultimately show "directive_value (tonality_name k) = tonality_name k" "clean_value (tonality_name k) = tonality_name k"
    "parse_key (tonality_name k) = Some k" "tonality_name k \<noteq> []"
    by (simp_all add: list_all_iff)
qed

lemma time_value:
  assumes "t \<in> set TIME_SIGNATURES"
  shows "directive_value t = t" "clean_value t = t" "filter (\<lambda>c. c \<noteq> CHR '' '') t = t" "t \<noteq> []"
proof -
  have "list_all (\<lambda>t. directive_value t = t \<and> clean_value t = t \<and> filter (\<lambda>c. c \<noteq> CHR '' '') t = t \<and> t \<noteq> [])
      TIME_SIGNATURES"
    by code_simp
  with assms show "directive_value t = t" "clean_value t = t" "filter (\<lambda>c. c \<noteq> CHR '' '') t = t" "t \<noteq> []"
    by (simp_all add: list_all_iff)
qed

lemmas exported_names_simps = exported_names_def exported_names_unfold header_opt_def

lemma import_title:
  assumes "is_file_title st = None" and "clean_value (directive_value v) \<noteq> []"
  shows "import_lines number (header_line ''title'' v) st
    = Inr (st\<lparr>is_file_title := Some (clean_value (directive_value v))\<rparr>)"
proof -
  have "directive_value v \<noteq> []" using assms(2) by auto
  with assms show ?thesis
    by (simp add: import_header exported_names_simps import_directive_def non_empty_def)
qed

lemma import_artist:
  assumes "is_artist st = None" and "is_none_or m (\<lambda>v. clean_value (directive_value v) \<noteq> [])"
  shows "import_lines number (header_opt ''artist'' id m) st
    = Inr (st\<lparr>is_artist := map_option (\<lambda>v. clean_value (directive_value v)) m\<rparr>)"
proof (cases m)
  case None
  with assms(1) show ?thesis by (cases st) (simp add: header_opt_def)
next
  case (Some v)
  with assms have "directive_value v \<noteq> []" by auto
  with assms Some show ?thesis
    by (simp add: import_header exported_names_simps import_directive_def non_empty_def)
qed

lemma import_key:
  assumes "is_tonality st = None"
  shows "import_lines number (header_opt ''key'' id (map_option tonality_name m)) st = Inr (st\<lparr>is_tonality := m\<rparr>)"
  using assms by (cases m; cases st) (simp_all add: import_header exported_names_simps import_directive_def tonality_value)

lemma import_tempo:
  assumes "is_tempo st = None" and "is_none_or m (\<lambda>t. 1 \<le> t \<and> t \<le> 500)"
  shows "import_lines number (header_opt ''tempo'' show_int m) st = Inr (st\<lparr>is_tempo := m\<rparr>)"
  using assms by (cases m; cases st)
    (simp_all add: import_header exported_names_simps import_directive_def show_int_value parse_tempo_show)

lemma import_time:
  assumes "is_time_signature st = None" and "is_none_or m (\<lambda>t. t \<in> set TIME_SIGNATURES)"
  shows "import_lines number (header_opt ''time'' id m) st = Inr (st\<lparr>is_time_signature := m\<rparr>)"
  using assms by (cases m; cases st)
    (simp_all add: import_header exported_names_simps import_directive_def time_value Let_def)

lemma import_capo:
  assumes "is_capo st = None" and "is_none_or m (\<lambda>c. 0 \<le> c \<and> c \<le> 11)"
  shows "import_lines number (header_opt ''capo'' show_int m) st = Inr (st\<lparr>is_capo := m\<rparr>)"
  using assms by (cases m; cases st)
    (simp_all add: import_header exported_names_simps import_directive_def show_int_value parse_capo_show)

lemma import_duration:
  assumes "is_duration st = None" and "is_none_or m (\<lambda>d. 1 \<le> d \<and> d \<le> 7200)"
  shows "import_lines number (header_opt ''duration'' format_duration m) st = Inr (st\<lparr>is_duration := m\<rparr>)"
  using assms by (cases m; cases st)
    (simp_all add: import_header exported_names_simps import_directive_def format_duration_value parse_duration_format)

lemma import_song_header:
  assumes "clean_value (directive_value (se_title song)) \<noteq> []"
    and "is_none_or (se_artist_name song) (\<lambda>v. clean_value (directive_value v) \<noteq> [])"
    and "se_tonality song = map_option tonality_name k" and "se_energy song = None"
    and "fields_ok (se_tempo song) (se_time_signature song) (se_capo song) (se_duration song)"
  shows "import_lines number (header song) import_start = Inr (import_start
    \<lparr>is_file_title := Some (clean_value (directive_value (se_title song))),
     is_artist := map_option (\<lambda>v. clean_value (directive_value v)) (se_artist_name song),
     is_tonality := k, is_tempo := se_tempo song, is_time_signature := se_time_signature song,
     is_capo := se_capo song, is_duration := se_duration song\<rparr>)"
  using assms
  by (simp add: header_def import_lines_append import_title import_artist import_key import_tempo import_time
      import_capo import_duration fields_ok_def import_start_def) (simp add: header_opt_def)

section \<open>Reading the chart back\<close>

lemma printable_iff: "printable c \<longleftrightarrow> \<not> is_control c"
proof -
  have "code c < 256" by (simp add: code_def)
  then have "\<not> invisible_char c" unfolding invisible_char_def by linarith
  then show ?thesis by (simp add: printable_def)
qed

lemma printable_not: "printable c \<Longrightarrow> c \<noteq> CHR 0x0A \<and> c \<noteq> CHR 0x0D \<and> c \<noteq> CHR 0x00 \<and> c \<noteq> CHR 0x09"
  by (auto simp: printable_iff is_control_def code_def)

lemma trim_Nil_iff: "trim s = [] \<longleftrightarrow> (\<forall>c \<in> set s. is_whitespace c)"
proof -
  have "trim s = [] \<longleftrightarrow> (\<forall>c \<in> set (dropWhile is_whitespace s). is_whitespace c)"
    by (simp add: trim_def trim_matches_def trim_start_matches_def trim_end_matches_def)
  also have "\<dots> \<longleftrightarrow> dropWhile is_whitespace s = []"
    using hd_dropWhile [of is_whitespace s] by (metis empty_iff list.set(1) list.set_sel(1))
  finally show ?thesis by simp
qed

lemma join_split_chars: "l \<in> set ls \<Longrightarrow> set l \<subseteq> set (join_char c ls)"
  by (induction c ls rule: join_char.induct) auto

lemma lines_of_id: "\<forall>l \<in> set ls. CHR 0x0D \<notin> set l \<Longrightarrow> ls = [] \<or> last ls \<noteq> [] \<Longrightarrow> lines_of ls = ls"
proof (induction ls rule: induct_list012)
  case (3 x y zs)
  have "strip_suffix [CHR 0x0D] x = None"
    using 3 by (cases x rule: rev_cases) (auto simp: strip_suffix_def)
  with 3 show ?case by (simp add: strip_cr_def)
qed auto

lemma kept_embeddable:
  assumes "n \<in> set kept_directives" and "l = ''{'' @ n @ r" and "r \<noteq> []" and "hd r = CHR '':'' \<or> hd r = CHR ''}''"
    and "trim l = l"
  shows "embeddable_line l"
proof -
  have n: "known_name n" "n \<notin> set EMITTED_DIRECTIVES" "n \<noteq> []"
    using assms(1) kept_known kept_not_emitted by (auto simp: known_name_def)
  obtain d r' where r: "r = d # r'" "d = CHR '':'' \<or> d = CHR ''}''" using assms(3,4) by (cases r) auto
  have "takeWhile (\<lambda>c. c \<noteq> CHR '':'' \<and> c \<noteq> CHR ''}'') (n @ d # r') = n"
    by (rule takeWhile_until) (use r known_name_chars [OF n(1)] in auto)
  moreover have "trim_start_matches (\<lambda>c. c = CHR ''{'') l = n @ r"
    using known_name_chars(3) [OF n(1)] n(3) assms(2) by (cases n) (auto simp: trim_start_matches_def)
  ultimately show ?thesis
    using n r assms(5) by (auto simp: embeddable_line_def Let_def known_name_trim known_name_lower)
qed

lemma body_line_embeddable: "body_line l \<Longrightarrow> embeddable_line l"
  using braced_trim [of "_ @ '': '' @ _"] braced_trim
  by (auto simp: body_line_def clean_line_embeddable directive_line_def intro: kept_embeddable)

definition chart_ok :: "string list \<Rightarrow> bool" where
  "chart_ok ls \<longleftrightarrow> tidy 2 ls \<and> ls \<noteq> [] \<and> last ls \<noteq> [] \<and> (\<forall>l \<in> set ls. line_ok l)"

lemma chart_text_kept:
  assumes "chart_ok ls" and "se_lyrics song = Some (join_char (CHR 0x0A) ls)"
  shows "chart_text song = join_char (CHR 0x0A) ls"
proof -
  have nl: "CHR 0x0A \<notin> set l" "CHR 0x0D \<notin> set l" if "l \<in> set ls" for l
    using assms(1) that printable_not unfolding chart_ok_def line_ok_def by blast+
  have "trim (hd ls) \<noteq> []" using assms(1) tidy_hd by (simp add: chart_ok_def)
  then have "trim (join_char (CHR 0x0A) ls) \<noteq> []"
    using assms(1) join_split_chars [of "hd ls" ls "CHR 0x0A"] by (auto simp: trim_Nil_iff chart_ok_def)
  moreover have "str_lines (join_char (CHR 0x0A) ls) = ls"
    using assms(1) nl split_join_char [of ls "CHR 0x0A"] lines_of_id [of ls] by (simp add: str_lines_def chart_ok_def)
  moreover have "filter embeddable_line ls = ls"
    using assms(1) body_line_embeddable by (simp add: chart_ok_def line_ok_def)
  ultimately show ?thesis using assms(2) by (simp add: chart_text_def embeddable_lyrics_def)
qed

definition placeholder :: string where "placeholder = ''# No lyrics provided.''"

lemma placeholder_ok: "chart_ok [placeholder]"
proof -
  have pieces: "list_all piece_ok (map Plain placeholder)" "placeholder = pieces_text (map Plain placeholder)"
    and rest: "trim_end placeholder = placeholder" "list_all (\<lambda>c. \<not> is_control c) placeholder" "trim placeholder \<noteq> []"
    by (simp_all add: placeholder_def is_brace_def trim_end_def trim_end_matches_eq is_whitespace_def is_control_def
        code_def trim_Nil_iff)
  have "clean_line placeholder" unfolding clean_line_def using pieces by (intro exI conjI)
  with rest have "line_ok placeholder"
    unfolding line_ok_def body_line_def printable_iff list_all_iff by blast
  moreover have "placeholder \<noteq> []" by (simp add: placeholder_def)
  ultimately show ?thesis using rest(3) by (simp add: chart_ok_def)
qed

lemma sanitize_printable:
  assumes "\<And>s. nfc s = s" and "\<forall>c \<in> set content. c = CHR 0x0A \<or> printable c"
  shows "sanitize nfc content = Inr content"
proof -
  have c: "c \<noteq> CHR 0x00" "c \<noteq> CHR 0x0D" "sanitize_char c = [c]" if "c \<in> set content" for c
    using bspec [OF assms(2) that] printable_not [of c] by (auto simp: sanitize_char_def printable_def)
  have "replace_crlf s = s" if "CHR 0x0D \<notin> set s" for s
    using that by (induction s rule: replace_crlf.induct) auto
  then have "replace_crlf content = content" using c(2) by blast
  moreover have "map (\<lambda>c. if c = CHR 0x0D then CHR 0x0A else c) content = content"
    by (rule map_idI) (use c(2) in auto)
  ultimately have "unify_lines content = content" by (simp add: unify_lines_def)
  moreover have "concat (map sanitize_char s) = s" if "set s \<subseteq> set content" for s
    using that c(3) by (induction s) auto
  moreover have "split_once (CHR 0x00) content = None" using c(1) by (auto simp: split_once_None)
  ultimately show ?thesis using assms(1) by (simp add: sanitize_def)
qed

text \<open>A song whose chart is in order is imported with its header and its chart.\<close>

lemma import_rendered:
  assumes nfc: "\<And>s. nfc s = s" and chart: "chart_ok ls" "chart_text song = join_char (CHR 0x0A) ls"
    and head: "import_lines 1 (header song) import_start = Inr st" "is_body st = []"
    and chars: "\<forall>l \<in> set (header song). \<forall>c \<in> set l. printable c"
    and size: "byte_len (render_song song) \<le> MAX_CONTENT_BYTES"
      "check_size (split_char (CHR 0x0A) (render_song song)) = Inr ()"
  shows "parse_chordpro nfc (render_song song) None = import_result None (st\<lparr>is_body := [] # ls @ [[]]\<rparr>)"
proof -
  have ls: "ls \<noteq> []" "\<forall>l \<in> set ls. body_line l" "\<forall>l \<in> set ls. \<forall>c \<in> set l. printable c"
    using chart(1) by (auto simp: chart_ok_def line_ok_def)
  have r: "render_song song = lines_text (header song @ [] # ls)"
    using chart(2) lines_text_join [OF ls(1)] by (simp add: render_song_lines)
  have "\<forall>c \<in> set (render_song song). c = CHR 0x0A \<or> printable c"
    using chars ls(3) unfolding r by (auto simp: lines_text_def)
  then have san: "sanitize nfc (render_song song) = Inr (render_song song)" by (rule sanitize_printable [OF nfc])
  have "\<forall>l \<in> set (header song @ [] # ls). CHR 0x0A \<notin> set l"
    using ls(3) header_no_newline printable_not by (auto, blast)
  then have split: "split_char (CHR 0x0A) (render_song song) = header song @ [] # ls @ [[]]"
    using split_lines_text [of "header song @ [] # ls" "[]"] unfolding r by simp
  have "import_lines (1 + length (header song)) ([] # ls @ [[]]) st = Inr (st\<lparr>is_body := [] # ls @ [[]]\<rparr>)"
    using body_lines_imported [of "[] # ls @ [[]]" "1 + length (header song)" st] ls(2) head(2)
    by (simp del: import_lines.simps)
  then have "import_lines 1 (header song @ [] # ls @ [[]]) import_start = Inr (st\<lparr>is_body := [] # ls @ [[]]\<rparr>)"
    using import_lines_append [of 1 "header song"] head(1) by simp
  with san split size show ?thesis by (simp add: parse_chordpro_def Let_def del: import_lines.simps)
qed

section \<open>What an import yields\<close>

lemma import_result_fields:
  assumes "state_ok st" and "import_result t st = Inr p"
  shows "fields_ok (pc_tempo p) (pc_time_signature p) (pc_capo p) (pc_duration p)"
    and "length (pc_warnings p) \<le> 101" and "length (pc_title p) \<le> 255"
    and "pc_title p = take 255 (unwrap_or (opt_filter (\<lambda>t. t \<noteq> []) (map_option clean_value t)) (unwrap_or (is_file_title st) []))"
    and "pc_artist_name p = map_option (take 255) (or_else (is_artist st) (is_subtitle st))"
    and "pc_title p \<noteq> []"
    and "pc_lyrics p = (if chart_lines (is_body st) = [] then None else Some (join_char (CHR 0x0A) (chart_lines (is_body st))))"
proof -
  from assms(2) obtain title where title:
    "or_else (opt_filter (\<lambda>t. t \<noteq> []) (map_option clean_value t)) (is_file_title st) = Some title"
    unfolding import_result_def
    by (cases "or_else (opt_filter (\<lambda>t. t \<noteq> []) (map_option clean_value t)) (is_file_title st)") auto
  then have ne: "title \<noteq> []"
    using assms(1) by (cases t) (auto simp: state_ok_def value_ok_def split: if_splits)
  have len: "length (is_warnings st) \<le> 101" "fields_ok (is_tempo st) (is_time_signature st) (is_capo st) (is_duration st)"
    using assms(1) by (simp_all add: state_ok_def)
  have artist: "map_option fst (map_option (\<lambda>a. truncate_text a 255) m) = map_option (take 255) m" for m
    by (cases m) (simp_all add: truncate_text_def)
  from assms(2) title show "fields_ok (pc_tempo p) (pc_time_signature p) (pc_capo p) (pc_duration p)"
    "length (pc_warnings p) \<le> 101" "length (pc_title p) \<le> 255"
    "pc_artist_name p = map_option (take 255) (or_else (is_artist st) (is_subtitle st))"
    "pc_title p \<noteq> []"
    "pc_lyrics p = (if chart_lines (is_body st) = [] then None else Some (join_char (CHR 0x0A) (chart_lines (is_body st))))"
    using len ne artist [of "or_else (is_artist st) (is_subtitle st)"]
    by (auto simp: import_result_def Let_def truncate_text_def MAX_TITLE_CHARS_def MAX_ARTIST_CHARS_def
        push_warning_length split: prod.splits if_splits)
  from assms(2) title show "pc_title p = take 255 (unwrap_or (opt_filter (\<lambda>t. t \<noteq> []) (map_option clean_value t)) (unwrap_or (is_file_title st) []))"
    by (cases t) (auto simp: import_result_def Let_def truncate_text_def MAX_TITLE_CHARS_def split: prod.splits if_splits)
qed

lemma chart_lines_ok:
  assumes "state_ok st" and "chart_lines (is_body st) \<noteq> []"
  shows "chart_ok (chart_lines (is_body st))"
  using assms chart_lines_tidy [of "is_body st"] by (auto simp: chart_ok_def state_ok_def line_ok_def)

text \<open>The chart of an imported song, as lines.\<close>

definition chart_of :: "parsed_chordpro \<Rightarrow> string list" where
  "chart_of p = (case pc_lyrics p of None \<Rightarrow> [placeholder] | Some l \<Rightarrow> split_char (CHR 0x0A) l)"

lemma chart_of_ok:
  assumes "parse_chordpro nfc content t = Inr p"
  shows "chart_ok (chart_of p)" and "is_none_or (pc_lyrics p) (\<lambda>l. l = join_char (CHR 0x0A) (chart_of p))"
proof -
  from parse_chordpro_state [OF assms] obtain st where st: "state_ok st" "import_result t st = Inr p" .
  let ?ls = "chart_lines (is_body st)"
  have "chart_of p = (if ?ls = [] then [placeholder] else ?ls)"
  proof (cases "?ls = []")
    case True
    then show ?thesis using import_result_fields(7) [OF st] by (simp add: chart_of_def)
  next
    case False
    from chart_lines_ok [OF st(1) False] have "\<forall>l \<in> set ?ls. CHR 0x0A \<notin> set l"
      using printable_not by (auto simp: chart_ok_def line_ok_def)
    then have "split_char (CHR 0x0A) (join_char (CHR 0x0A) ?ls) = ?ls" by (rule split_join_char [OF False])
    with False show ?thesis using import_result_fields(7) [OF st] by (simp add: chart_of_def)
  qed
  then show "chart_ok (chart_of p)" "is_none_or (pc_lyrics p) (\<lambda>l. l = join_char (CHR 0x0A) (chart_of p))"
    using chart_lines_ok [OF st(1)] placeholder_ok import_result_fields(7) [OF st] by auto
qed

text \<open>
  C29. An import yields a well-formed song, whatever the file holds: a title of 1 to 255
  characters, a tempo, capo, duration and time signature in range, at most 101 warnings, and
  lyrics without control characters, neither starting nor ending with a blank line and never
  with three in a row, in which every line is a section or comment directive or has no braces
  and only chords in brackets.
\<close>

theorem import_well_formed:
  assumes "parse_chordpro nfc content t = Inr p"
  shows "pc_title p \<noteq> [] \<and> length (pc_title p) \<le> 255
    \<and> fields_ok (pc_tempo p) (pc_time_signature p) (pc_capo p) (pc_duration p)
    \<and> length (pc_warnings p) \<le> 101
    \<and> is_none_or (pc_lyrics p) (\<lambda>l. let ls = split_char (CHR 0x0A) l in
        tidy 2 ls \<and> last ls \<noteq> [] \<and> list_all body_line ls \<and> list_all (list_all (\<lambda>c. \<not> is_control c)) ls)"
proof -
  from parse_chordpro_state [OF assms] obtain st where st: "state_ok st" "import_result t st = Inr p" .
  have "is_none_or (pc_lyrics p) (\<lambda>l. split_char (CHR 0x0A) l = chart_of p)"
    by (cases "pc_lyrics p") (simp_all add: chart_of_def)
  with chart_of_ok(1) [OF assms] import_result_fields(1-3,6) [OF st] show ?thesis
    by (cases "pc_lyrics p") (simp_all add: Let_def chart_ok_def line_ok_def list_all_iff printable_iff)
qed

text \<open>
  Cutting a cleaned value at 255 characters can leave a blank at its end; the exporter drops it.
\<close>

lemma cut_value:
  assumes "value_ok v"
  shows "directive_value (take 255 v) = clean_value (take 255 v)" and "clean_value (take 255 v) \<noteq> []"
    and "clean_value (directive_value (take 255 v)) = clean_value (take 255 v)"
    and "length (clean_value (take 255 v)) \<le> 255"
proof -
  have chars: "\<forall>c \<in> set (take 255 v). printable c \<and> \<not> is_brace c"
    using assms clean_value_chars [of _ v] set_take_subset [of 255 v] unfolding value_ok_def by auto
  have len: "length (single_spaced (take 255 v)) \<le> 255"
    using length_single_spaced [of "take 255 v"] by simp
  from directive_value_clean [OF chars len]
  show "directive_value (take 255 v) = clean_value (take 255 v)"
    "clean_value (directive_value (take 255 v)) = clean_value (take 255 v)" by simp_all
  show "length (clean_value (take 255 v)) \<le> 255"
    using len clean_value_no_brace [of "take 255 v"] chars by simp
  have "v = join_char (CHR '' '') (split_whitespace v)"
    using assms clean_value_chars [of _ v] clean_value_no_brace [of v] unfolding value_ok_def single_spaced_def by metis
  then have "\<not> is_whitespace (hd v)" using assms hd_join_words split_whitespace_words unfolding value_ok_def by metis
  moreover have "hd v \<in> set (take 255 v)" using assms by (cases v) (auto simp: value_ok_def)
  ultimately show "clean_value (take 255 v) \<noteq> []"
    using chars clean_value_no_brace [of "take 255 v"] single_spaced_Nil_iff by auto
qed

lemma length_clean_directive: "length (clean_value (directive_value v)) \<le> 255"
proof -
  have "length (directive_value v) \<le> 255" by (simp add: directive_value_def MAX_DIRECTIVE_VALUE_def)
  then show ?thesis
    using length_single_spaced [of "directive_value v"] clean_value_no_brace [of "directive_value v"]
      directive_value_chars [of _ v] by auto
qed

lemma header_chars:
  assumes "\<forall>c \<in> set (directive_value (se_title song)). printable c" and "l \<in> set (header song)" and "c \<in> set l"
  shows "printable c"
proof -
  have "printable c" if "l \<in> set (header_line n v)" "n \<in> set exported_names" for n v
    using header_line_chars [OF that(2,1) assms(3)] by (auto simp: printable_iff)
  with assms(2) show ?thesis
    unfolding header_def header_opt_def exported_names_def by (force split: option.splits)
qed


section \<open>Examples\<close>

definition small_file :: string where
  "small_file = lines_text [''{t:Hi}'', ''{key: A minor}'', ''{tempo: 120 BPM}'', ''[G]la [Am7]la '']"

definition small_song :: parsed_chordpro where
  "small_song =
     \<lparr>pc_title = ''Hi'', pc_artist_name = None, pc_tonality = Some K_Am, pc_tempo = Some 120,
      pc_time_signature = None, pc_capo = None, pc_duration = None,
      pc_lyrics = Some ''[G]la [Am7]la'', pc_warnings = []\<rparr>"

lemma small_file_lines:
  "split_char (CHR 0x0A) small_file = [''{t:Hi}'', ''{key: A minor}'', ''{tempo: 120 BPM}'', ''[G]la [Am7]la '', []]"
  by (simp add: small_file_def)

lemma small_file_sanitized: "sanitize (\<lambda>s. s) small_file = Inr small_file"
  by (rule sanitize_printable) (simp_all add: small_file_def printable_iff is_control_def code_def)

lemma small_file_state:
  "import_lines 1 [''{t:Hi}'', ''{key: A minor}'', ''{tempo: 120 BPM}'', ''[G]la [Am7]la '', []] import_start
   = Inr (import_start\<lparr>is_file_title := Some ''Hi'', is_tonality := Some K_Am, is_tempo := Some 120,
       is_body := [''[G]la [Am7]la'', []]\<rparr>)"
  by code_simp

lemma small_file_parsed: "parse_chordpro (\<lambda>s. s) small_file None = Inr small_song"
proof -
  have "byte_len small_file \<le> MAX_CONTENT_BYTES"
    by (simp add: small_file_def byte_len_def code_def MAX_CONTENT_BYTES_def)
  moreover have "check_size (split_char (CHR 0x0A) small_file) = Inr ()"
    by (simp add: small_file_lines check_size_def MAX_LINES_def MAX_LINE_CHARS_def)
  ultimately have "parse_chordpro (\<lambda>s. s) small_file None = import_result None (import_start
      \<lparr>is_file_title := Some ''Hi'', is_tonality := Some K_Am, is_tempo := Some 120,
       is_body := [''[G]la [Am7]la'', []]\<rparr>)"
    using small_file_state by (simp add: parse_chordpro_def small_file_sanitized small_file_lines Let_def
        del: import_lines.simps)
  moreover have "chart_lines [''[G]la [Am7]la'', []] = [''[G]la [Am7]la'']" by code_simp
  ultimately show ?thesis
    by (simp add: import_result_def import_start_def small_song_def truncate_text_def MAX_TITLE_CHARS_def)
qed

lemma small_song_rendered:
  "render_song (export_of ''Ana'' small_song) =
     lines_text [''{title: Hi}'', ''{artist: Ana}'', ''{key: Am}'', ''{tempo: 120}'', [], ''[G]la [Am7]la'']"
  by code_simp

theorem import_well_formed_witness:
  "pc_title small_song \<noteq> [] \<and> length (pc_title small_song) \<le> 255 \<and> length (pc_warnings small_song) \<le> 101"
  using import_well_formed [OF small_file_parsed] by blast


section \<open>Lyrics in an export\<close>

lemma lines_of_subset: "l \<in> set (lines_of ls) \<Longrightarrow> \<exists>l' \<in> set ls. set l \<subseteq> set l'"
proof (induction ls rule: induct_list012)
  case (3 x y zs)
  have "set (strip_cr x) \<subseteq> set x"
    by (auto simp: strip_cr_def strip_suffix_def strip_prefix_Some split: option.splits)
  with 3 show ?case by auto
qed (auto split: if_splits)

lemma str_lines_no_newline: "l \<in> set (str_lines s) \<Longrightarrow> CHR 0x0A \<notin> set l"
  unfolding str_lines_def using lines_of_subset split_char_no_sep by blast

lemma trim_keeps: "c \<in> set s \<Longrightarrow> \<not> is_whitespace c \<Longrightarrow> c \<in> set (trim s)"
proof -
  have drop: "c \<in> set (dropWhile is_whitespace t)" if "c \<in> set t" "\<not> is_whitespace c" for t
    using that by (induction t) auto
  assume "c \<in> set s" "\<not> is_whitespace c"
  then have "c \<in> set (rev (dropWhile is_whitespace s))" using drop by simp
  from drop [OF this \<open>\<not> is_whitespace c\<close>] show ?thesis
    by (simp add: trim_def trim_matches_def trim_start_matches_def trim_end_matches_def)
qed

lemma embeddable_not_emitted:
  assumes "embeddable_line l" and "parse_directive (trim l) = Some (n, v)"
  shows "n \<notin> set EMITTED_DIRECTIVES"
proof
  assume n: "n \<in> set EMITTED_DIRECTIVES"
  from assms(2) obtain inner where l: "trim l = CHR ''{'' # inner @ ''}''"
    unfolding parse_directive_def
    by (auto simp: strip_suffix_def strip_prefix_Some split: option.splits)
  define name where "name = (case split_once (CHR '':'') inner of Some (a, _) \<Rightarrow> a | None \<Rightarrow> inner)"
  have lower: "n = map to_ascii_lowercase (trim name)"
    using assms(2) strip_suffix_snoc [of "CHR ''}''" inner]
    by (auto simp: parse_directive_def l name_def split: option.splits)
  have known: "known_name n" using n by (rule emitted_known)
  then have ne: "name \<noteq> []" using lower by (auto simp: known_name_def)
  have fixed: "to_ascii_lowercase (CHR ''{'') = CHR ''{''" "to_ascii_lowercase (CHR ''}'') = CHR ''}''"
    "\<not> is_whitespace (CHR ''{'')" "\<not> is_whitespace (CHR ''}'')"
    by (simp_all add: to_ascii_lowercase_def is_ascii_uppercase_def is_whitespace_def code_def)
  have "c \<notin> set name" if "to_ascii_lowercase c = c" "\<not> is_whitespace c" "c \<notin> set n" for c
    using that trim_keeps [of c name] lower by force
  then have brace: "CHR ''{'' \<notin> set name" "CHR ''}'' \<notin> set name"
    using fixed known_name_chars(3,4) [OF known] by blast+
  obtain d r where inner: "inner @ ''}'' = name @ d # r" "d = CHR '':'' \<or> d = CHR ''}''" "CHR '':'' \<notin> set name"
    by (cases "split_once (CHR '':'') inner") (auto simp: name_def split_once_None dest!: split_once_Some)
  have "trim_start_matches (\<lambda>c. c = CHR ''{'') (trim l) = inner @ ''}''"
    using ne brace(1) inner(1) by (cases name) (auto simp: l trim_start_matches_def)
  moreover have "takeWhile (\<lambda>c. c \<noteq> CHR '':'' \<and> c \<noteq> CHR ''}'') (name @ d # r) = name"
    by (rule takeWhile_until) (use inner(2,3) brace in auto)
  moreover have "starts_with (trim_start l) ''{''"
    using trim_start_hd_trim [of l] l by (cases "trim_start l") (auto simp: starts_with_iff)
  ultimately show False
    using assms(1) n lower inner(1) by (simp add: embeddable_line_def Let_def)
qed

text \<open>
  A stored chart cannot start a song of its own in an export: whatever the lyrics are, no
  line of what the exporter embeds is one the importer reads as \<open>new_song\<close>, \<open>title\<close> or any other
  directive the exporter writes itself.
\<close>

theorem embedded_lyrics_inert:
  "list_all (\<lambda>l. is_none_or (parse_directive (trim l)) (\<lambda>(n, v). n \<notin> set EMITTED_DIRECTIVES))
     (split_char (CHR 0x0A) (embeddable_lyrics lyrics))"
proof -
  let ?ls = "filter embeddable_line (str_lines lyrics)"
  have "is_none_or (parse_directive (trim l)) (\<lambda>(n, v). n \<notin> set EMITTED_DIRECTIVES)" if "embeddable_line l" for l
    using embeddable_not_emitted [OF that] by (cases "parse_directive (trim l)") auto
  moreover have "split_char (CHR 0x0A) (embeddable_lyrics lyrics) = (if ?ls = [] then [[]] else ?ls)"
    using split_join_char [of ?ls "CHR 0x0A"] str_lines_no_newline by (auto simp: embeddable_lyrics_def)
  moreover have "is_none_or (parse_directive (trim [])) (\<lambda>(n, v). n \<notin> set EMITTED_DIRECTIVES)"
    by (simp add: parse_directive_def)
  ultimately show ?thesis by (simp add: list_all_iff)
qed

text \<open>
  Lines are told apart differently by the two: a carriage return alone ends a line for the
  importer only. Behind one, a directive of the stored lyrics gets through, and the importer
  refuses the export as holding several songs.
\<close>

theorem carriage_return_hides_directive:
  "parse_chordpro (\<lambda>s. s)
     (render_song \<lparr>se_title = ''X'', se_artist_name = None, se_tonality = None, se_tempo = None,
        se_lyrics = Some (''a'' @ CHR 0x0D # ''{ns}''), se_time_signature = None, se_capo = None,
        se_duration = None, se_energy = None\<rparr>) None
   = Inl (Invalid ''multiple_songs'' (Some 4))"
proof -
  let ?text = "''{title: X}'' @ [CHR 0x0A, CHR 0x0A] @ ''a'' @ CHR 0x0D # ''{ns}'' @ [CHR 0x0A]"
  have r: "render_song \<lparr>se_title = ''X'', se_artist_name = None, se_tonality = None, se_tempo = None,
        se_lyrics = Some (''a'' @ CHR 0x0D # ''{ns}''), se_time_signature = None, se_capo = None,
        se_duration = None, se_energy = None\<rparr> = ?text"
    by code_simp
  have s: "sanitize (\<lambda>s. s) ?text = Inr (lines_text [''{title: X}'', [], ''a'', ''{ns}''])"
    by (simp add: sanitize_def unify_lines_def sanitize_char_def is_control_def invisible_char_def code_def)
  have "import_lines 1 [''{title: X}'', [], ''a'', ''{ns}'', []] import_start = Inl (Invalid ''multiple_songs'' (Some 4))"
    by code_simp
  moreover have "split_char (CHR 0x0A) (lines_text [''{title: X}'', [], ''a'', ''{ns}'']) = [''{title: X}'', [], ''a'', ''{ns}'', []]"
    by simp
  moreover have "check_size [''{title: X}'', [], ''a'', ''{ns}'', []] = Inr ()"
    by (simp add: check_size_def MAX_LINES_def MAX_LINE_CHARS_def)
  moreover have "byte_len ?text \<le> MAX_CONTENT_BYTES" by (simp add: byte_len_def code_def MAX_CONTENT_BYTES_def)
  ultimately show ?thesis unfolding r parse_chordpro_def s Let_def rbind_simps by (simp del: import_lines.simps append.simps)
qed

end
