(* ===== verification/Quotas.thy ===== *)
theory Quotas
  imports Errors
begin

text \<open>
  Quota limits, from \<^verbatim>\<open>src/src/models/quota.rs\<close>: the countable resources, the limits of
  each tier, per-user overrides and their validation. The lemmas show that the keys tell the
  resources apart and that overrides keep limits within their bounds.
\<close>

section \<open>Resources\<close>

datatype quota_resource =
    Songs
  | Artists
  | Setlists
  | Gigs
  | Tags
  | BandsOwned
  | BandMemberships
  | BandMembers
  | BandSetlists
  | BandGigs
  | BandSongs
  | SetlistItems
  | Tours
  | BandTours

definition ALL_RESOURCES :: "quota_resource list" where
  "ALL_RESOURCES =
     [Songs, Artists, Setlists, Gigs, Tags, BandsOwned, BandMemberships, BandMembers,
      BandSetlists, BandGigs, BandSongs, SetlistItems, Tours, BandTours]"

definition PER_USER :: "quota_resource list" where
  "PER_USER = [Songs, Artists, Setlists, Gigs, Tags, BandsOwned, BandMemberships, Tours]"

fun resource_key :: "quota_resource \<Rightarrow> string" where
  "resource_key Songs = ''songs''"
| "resource_key Artists = ''artists''"
| "resource_key Setlists = ''setlists''"
| "resource_key Gigs = ''gigs''"
| "resource_key Tags = ''tags''"
| "resource_key BandsOwned = ''bands_owned''"
| "resource_key BandMemberships = ''band_memberships''"
| "resource_key BandMembers = ''band_members''"
| "resource_key BandSetlists = ''band_setlists''"
| "resource_key BandGigs = ''band_gigs''"
| "resource_key BandSongs = ''band_songs''"
| "resource_key SetlistItems = ''setlist_items''"
| "resource_key Tours = ''tours''"
| "resource_key BandTours = ''band_tours''"

section \<open>Limits\<close>

definition MAX_QUOTA_VALUE :: int where
  "MAX_QUOTA_VALUE = 1000000"

definition validate_limit :: "int \<Rightarrow> bool" where
  "validate_limit v = (0 \<le> v \<and> v \<le> MAX_QUOTA_VALUE)"

record quota_limits =
  ql_songs :: int
  ql_artists :: int
  ql_setlists :: int
  ql_gigs :: int
  ql_tags :: int
  ql_bands_owned :: int
  ql_band_memberships :: int
  ql_band_members :: int
  ql_band_setlists :: int
  ql_band_gigs :: int
  ql_band_songs :: int
  ql_setlist_items :: int
  ql_tours :: int
  ql_band_tours :: int

text \<open>The platform defaults (\<open>impl Default\<close>) and the two built-in tiers.\<close>

definition default_limits :: quota_limits where
  "default_limits =
    \<lparr>ql_songs = 1000, ql_artists = 500, ql_setlists = 150, ql_gigs = 500, ql_tags =
     80, ql_bands_owned = 3, ql_band_memberships = 10, ql_band_members = 15,
     ql_band_setlists = 150, ql_band_gigs = 500, ql_band_songs = 1500, ql_setlist_items =
     120, ql_tours = 15, ql_band_tours = 15\<rparr>"

definition UNVERIFIED_LIMITS :: quota_limits where
  "UNVERIFIED_LIMITS =
    \<lparr>ql_songs = 20, ql_artists = 10, ql_setlists = 2, ql_gigs = 3, ql_tags = 5,
     ql_bands_owned = 0, ql_band_memberships = 1, ql_band_members = 1, ql_band_setlists =
     2, ql_band_gigs = 3, ql_band_songs = 20, ql_setlist_items = 25, ql_tours = 0,
     ql_band_tours = 0\<rparr>"

definition FREE_LIMITS :: quota_limits where
  "FREE_LIMITS =
    \<lparr>ql_songs = 60, ql_artists = 40, ql_setlists = 5, ql_gigs = 20, ql_tags = 10,
     ql_bands_owned = 1, ql_band_memberships = 2, ql_band_members = 5, ql_band_setlists =
     5, ql_band_gigs = 20, ql_band_songs = 100, ql_setlist_items = 40, ql_tours = 0,
     ql_band_tours = 0\<rparr>"

fun get_limit :: "quota_limits \<Rightarrow> quota_resource \<Rightarrow> int" where
  "get_limit l Songs = ql_songs l"
| "get_limit l Artists = ql_artists l"
| "get_limit l Setlists = ql_setlists l"
| "get_limit l Gigs = ql_gigs l"
| "get_limit l Tags = ql_tags l"
| "get_limit l BandsOwned = ql_bands_owned l"
| "get_limit l BandMemberships = ql_band_memberships l"
| "get_limit l BandMembers = ql_band_members l"
| "get_limit l BandSetlists = ql_band_setlists l"
| "get_limit l BandGigs = ql_band_gigs l"
| "get_limit l BandSongs = ql_band_songs l"
| "get_limit l SetlistItems = ql_setlist_items l"
| "get_limit l Tours = ql_tours l"
| "get_limit l BandTours = ql_band_tours l"

record quota_overrides =
  qo_songs :: "int option"
  qo_artists :: "int option"
  qo_setlists :: "int option"
  qo_gigs :: "int option"
  qo_tags :: "int option"
  qo_bands_owned :: "int option"
  qo_band_memberships :: "int option"
  qo_band_members :: "int option"
  qo_band_setlists :: "int option"
  qo_band_gigs :: "int option"
  qo_band_songs :: "int option"
  qo_setlist_items :: "int option"
  qo_tours :: "int option"
  qo_band_tours :: "int option"

definition no_overrides :: quota_overrides where
  "no_overrides =
    \<lparr>qo_songs = None, qo_artists = None, qo_setlists = None, qo_gigs = None, qo_tags
     = None, qo_bands_owned = None, qo_band_memberships = None, qo_band_members = None,
     qo_band_setlists = None, qo_band_gigs = None, qo_band_songs = None, qo_setlist_items =
     None, qo_tours = None, qo_band_tours = None\<rparr>"

fun get_override :: "quota_overrides \<Rightarrow> quota_resource \<Rightarrow> int option" where
  "get_override o' Songs = qo_songs o'"
| "get_override o' Artists = qo_artists o'"
| "get_override o' Setlists = qo_setlists o'"
| "get_override o' Gigs = qo_gigs o'"
| "get_override o' Tags = qo_tags o'"
| "get_override o' BandsOwned = qo_bands_owned o'"
| "get_override o' BandMemberships = qo_band_memberships o'"
| "get_override o' BandMembers = qo_band_members o'"
| "get_override o' BandSetlists = qo_band_setlists o'"
| "get_override o' BandGigs = qo_band_gigs o'"
| "get_override o' BandSongs = qo_band_songs o'"
| "get_override o' SetlistItems = qo_setlist_items o'"
| "get_override o' Tours = qo_tours o'"
| "get_override o' BandTours = qo_band_tours o'"

text \<open>The macro of \<open>with_overrides\<close>, one field after the other.\<close>

definition with_overrides :: "quota_limits \<Rightarrow> quota_overrides \<Rightarrow> quota_limits" where
  "with_overrides l o' =
     (let app = (\<lambda>over v. unwrap_or over v) in
      \<lparr>ql_songs = app (qo_songs o') (ql_songs l), ql_artists = app (qo_artists o')
       (ql_artists l), ql_setlists = app (qo_setlists o') (ql_setlists l), ql_gigs = app
       (qo_gigs o') (ql_gigs l), ql_tags = app (qo_tags o') (ql_tags l), ql_bands_owned =
       app (qo_bands_owned o') (ql_bands_owned l), ql_band_memberships = app
       (qo_band_memberships o') (ql_band_memberships l), ql_band_members = app
       (qo_band_members o') (ql_band_members l), ql_band_setlists = app (qo_band_setlists
       o') (ql_band_setlists l), ql_band_gigs = app (qo_band_gigs o') (ql_band_gigs l),
       ql_band_songs = app (qo_band_songs o') (ql_band_songs l), ql_setlist_items = app
       (qo_setlist_items o') (ql_setlist_items l), ql_tours = app (qo_tours o') (ql_tours
       l), ql_band_tours = app (qo_band_tours o') (ql_band_tours l)\<rparr>)"

text \<open>\<open>#[validate(custom(...))]\<close> on every field of limits and of overrides.\<close>

definition validate_limits :: "quota_limits \<Rightarrow> bool" where
  "validate_limits l =
     (validate_limit (ql_songs l) \<and> validate_limit (ql_artists l) \<and>
      validate_limit (ql_setlists l) \<and> validate_limit (ql_gigs l) \<and>
      validate_limit (ql_tags l) \<and> validate_limit (ql_bands_owned l) \<and>
      validate_limit (ql_band_memberships l) \<and> validate_limit (ql_band_members l)
      \<and> validate_limit (ql_band_setlists l) \<and> validate_limit (ql_band_gigs l)
      \<and> validate_limit (ql_band_songs l) \<and> validate_limit (ql_setlist_items l)
      \<and> validate_limit (ql_tours l) \<and> validate_limit (ql_band_tours l))"

definition validate_overrides :: "quota_overrides \<Rightarrow> bool" where
  "validate_overrides o' =
     (is_none_or (qo_songs o') validate_limit \<and> is_none_or (qo_artists o')
      validate_limit \<and> is_none_or (qo_setlists o') validate_limit \<and> is_none_or
      (qo_gigs o') validate_limit \<and> is_none_or (qo_tags o') validate_limit \<and>
      is_none_or (qo_bands_owned o') validate_limit \<and> is_none_or (qo_band_memberships
      o') validate_limit \<and> is_none_or (qo_band_members o') validate_limit \<and>
      is_none_or (qo_band_setlists o') validate_limit \<and> is_none_or (qo_band_gigs o')
      validate_limit \<and> is_none_or (qo_band_songs o') validate_limit \<and> is_none_or
      (qo_setlist_items o') validate_limit \<and> is_none_or (qo_tours o') validate_limit
      \<and> is_none_or (qo_band_tours o') validate_limit)"

section \<open>Properties\<close>

lemma ALL_RESOURCES_complete: "r \<in> set ALL_RESOURCES"
  by (cases r) (simp_all add: ALL_RESOURCES_def)

lemma resource_key_inject: "resource_key r = resource_key r' \<longleftrightarrow> r = r'"
  by (cases r; cases r'; simp)

lemma get_limit_with_overrides:
  "get_limit (with_overrides l o') r = unwrap_or (get_override o' r) (get_limit l r)"
  by (cases r) (simp_all add: with_overrides_def)

lemma validate_limits_iff: "validate_limits l \<longleftrightarrow> (\<forall>r. validate_limit (get_limit l r))"
proof
  show "validate_limits l \<Longrightarrow> \<forall>r. validate_limit (get_limit l r)"
    unfolding validate_limits_def by (rule allI, rename_tac r, case_tac r) simp_all
next
  assume "\<forall>r. validate_limit (get_limit l r)"
  then have "\<forall>r \<in> set ALL_RESOURCES. validate_limit (get_limit l r)" by blast
  then show "validate_limits l" by (simp add: ALL_RESOURCES_def validate_limits_def)
qed

lemma validate_overrides_iff:
  "validate_overrides o' \<longleftrightarrow> (\<forall>r. is_none_or (get_override o' r) validate_limit)"
proof
  show "validate_overrides o' \<Longrightarrow> \<forall>r. is_none_or (get_override o' r) validate_limit"
    unfolding validate_overrides_def by (rule allI, rename_tac r, case_tac r) simp_all
next
  assume "\<forall>r. is_none_or (get_override o' r) validate_limit"
  then have "\<forall>r \<in> set ALL_RESOURCES. is_none_or (get_override o' r) validate_limit" by blast
  then show "validate_overrides o'" by (simp add: ALL_RESOURCES_def validate_overrides_def)
qed

lemma builtin_limits_valid:
  "validate_limits default_limits" "validate_limits UNVERIFIED_LIMITS" "validate_limits FREE_LIMITS"
  by code_simp+

text \<open>The tiers are ordered: a verified account never has less than an unverified one.\<close>

definition limits_le :: "quota_limits \<Rightarrow> quota_limits \<Rightarrow> bool" where
  "limits_le a b = list_all (\<lambda>r. get_limit a r \<le> get_limit b r) ALL_RESOURCES"

lemma limits_le_get: "limits_le a b \<Longrightarrow> get_limit a r \<le> get_limit b r"
  using ALL_RESOURCES_complete [of r] by (auto simp: limits_le_def list_all_iff)

lemma tiers_ordered: "limits_le UNVERIFIED_LIMITS FREE_LIMITS" "limits_le FREE_LIMITS default_limits"
  by code_simp+

text \<open>
  Overrides replace exactly the limits they name, and valid overrides on valid limits
  give valid limits: never negative and never above the platform's ceiling.
\<close>

theorem with_overrides_valid:
  assumes "validate_limits l" and "validate_overrides o'"
  shows "get_limit (with_overrides l o') r = unwrap_or (get_override o' r) (get_limit l r)
         \<and> validate_limits (with_overrides l o')
         \<and> 0 \<le> get_limit (with_overrides l o') r \<and> get_limit (with_overrides l o') r \<le> MAX_QUOTA_VALUE"
proof -
  have all: "validate_limit (get_limit (with_overrides l o') r)" for r
  proof -
    have "is_none_or (get_override o' r) validate_limit" and "validate_limit (get_limit l r)"
      using assms unfolding validate_overrides_iff validate_limits_iff by blast+
    then show ?thesis
      by (cases "get_override o' r") (simp_all add: get_limit_with_overrides)
  qed
  then show ?thesis
    using get_limit_with_overrides [of l o' r] validate_limits_iff
    unfolding validate_limit_def by blast
qed

theorem with_overrides_valid_witness:
  "get_limit (with_overrides FREE_LIMITS (no_overrides\<lparr>qo_tours := Some 4\<rparr>)) Tours = 4"
proof -
  have v: "validate_overrides (no_overrides\<lparr>qo_tours := Some 4\<rparr>)" by code_simp
  have o': "get_override (no_overrides\<lparr>qo_tours := Some 4\<rparr>) Tours = Some 4" by code_simp
  from with_overrides_valid [OF builtin_limits_valid(3) v, of Tours] show ?thesis
    unfolding o' by simp
qed

end
