(* ===== verification/Auth.thy ===== *)
theory Auth
  imports Errors
begin

text \<open>
  Who may do what: roles and suspensions (\<^verbatim>\<open>src/src/models/user.rs\<close>), the session
  claims and the role checks of handlers (\<^verbatim>\<open>models/auth/token.rs\<close>,
  \<^verbatim>\<open>models/auth/access.rs\<close>), the tokens (\<^verbatim>\<open>utils/jwt.rs\<close>) and the whole
  authentication middleware (\<^verbatim>\<open>middlewares/authentication.rs\<close>): the allow-lists by
  path, \<open>check_claims\<close> and \<open>authenticate\<close> with the audit entry and the redaction of
  impersonation sessions.

  The signature of a token is checked by the jsonwebtoken crate: \<open>verify\<close>, which maps a
  token and the time to the claims it carries, is a parameter. The accounts are the
  function the \<open>auth_state\<close> query computes, and \<open>now\<close> is the one clock reading of a request.
\<close>

section \<open>Roles and suspensions\<close>

type_synonym uuid = nat

datatype role = RoleUser | Moderator | Admin

fun rank :: "role \<Rightarrow> nat" where
  "rank RoleUser = 0"
| "rank Moderator = 1"
| "rank Admin = 2"

definition is_staff :: "role \<Rightarrow> bool" where
  "is_staff r = (r = Moderator \<or> r = Admin)"

definition outranks :: "role \<Rightarrow> role \<Rightarrow> bool" where
  "outranks r target = (is_staff r \<and> rank target < rank r)"

text \<open>Roles are ordered by rank.\<close>

instantiation role :: linorder
begin

definition less_eq_role :: "role \<Rightarrow> role \<Rightarrow> bool" where
  "less_eq_role a b = (rank a \<le> rank b)"

definition less_role :: "role \<Rightarrow> role \<Rightarrow> bool" where
  "less_role a b = (rank a < rank b)"

instance
proof
  fix a b :: role
  show "a \<le> b \<Longrightarrow> b \<le> a \<Longrightarrow> a = b"
    by (cases a; cases b) (simp_all add: less_eq_role_def)
qed (auto simp: less_eq_role_def less_role_def)

end

datatype user_status = StatusActive | StatusInactive

definition active_ban :: "time option \<Rightarrow> time option \<Rightarrow> time \<Rightarrow> time option option" where
  "active_ban banned_at banned_until now =
     (case banned_at of
        None \<Rightarrow> None
      | Some _ \<Rightarrow>
          (case banned_until of
             None \<Rightarrow> Some None
           | Some until \<Rightarrow> if until > now then Some (Some until) else None))"

section \<open>Sessions\<close>

record auth_state =
  as_username :: string
  as_role :: role
  as_status :: user_status
  as_token_version :: int
  as_must_change_password :: bool
  as_banned_at :: "time option"
  as_banned_until :: "time option"
  as_ban_reason :: "string option"
  as_two_factor_enabled :: bool
  as_role_since :: time

text \<open>Expiry and issue times of claims are Unix seconds.\<close>

record claims =
  cl_sub :: uuid
  cl_username :: string
  cl_role :: role
  cl_status :: user_status
  cl_exp :: int
  cl_iat :: int
  cl_ver :: int
  cl_imp :: "uuid option"
  cl_iver :: "int option"

definition seconds :: "int \<Rightarrow> int" where
  "seconds n = n * 1000000"

definition minutes :: "int \<Rightarrow> int" where
  "minutes n = seconds (60 * n)"

definition timestamp :: "time \<Rightarrow> int" where
  "timestamp t = t div 1000000"

definition build_claims ::
  "time \<Rightarrow> uuid \<Rightarrow> auth_state \<Rightarrow> int \<Rightarrow> (uuid \<times> int) option \<Rightarrow> claims"
where
  "build_claims now user_id user ttl_seconds impersonator =
     \<lparr>cl_sub = user_id, cl_username = as_username user, cl_role = as_role user,
      cl_status = as_status user, cl_exp = timestamp (now + seconds ttl_seconds),
      cl_iat = timestamp now, cl_ver = as_token_version user,
      cl_imp = map_option fst impersonator, cl_iver = map_option snd impersonator\<rparr>"

definition renew_claims :: "time \<Rightarrow> int \<Rightarrow> uuid \<Rightarrow> auth_state \<Rightarrow> claims" where
  "renew_claims now expiration user_id account =
     \<lparr>cl_sub = user_id, cl_username = as_username account, cl_role = as_role account,
      cl_status = as_status account, cl_exp = timestamp (now + seconds expiration),
      cl_iat = timestamp now, cl_ver = as_token_version account, cl_imp = None, cl_iver = None\<rparr>"

definition impersonation_claims :: "time \<Rightarrow> int \<Rightarrow> uuid \<Rightarrow> auth_state \<Rightarrow> uuid \<Rightarrow> int \<Rightarrow> claims" where
  "impersonation_claims now expiration target_id target impersonator_id impersonator_token_version =
     build_claims now target_id target expiration (Some (impersonator_id, impersonator_token_version))"

definition MAX_FUTURE_IAT_SECONDS :: int where
  "MAX_FUTURE_IAT_SECONDS = 60"

definition decode_jwt ::
  "(string \<Rightarrow> time \<Rightarrow> claims option) \<Rightarrow> time \<Rightarrow> string \<Rightarrow> api_error + claims"
where
  "decode_jwt verify now token =
     (case verify token now of
        None \<Rightarrow> Inl JWTError
      | Some claims \<Rightarrow>
          if cl_iat claims > timestamp now + MAX_FUTURE_IAT_SECONDS then Inl (AuthError InvalidToken)
          else Inr claims)"

section \<open>Role checks of handlers\<close>

definition require_role :: "claims \<Rightarrow> role \<Rightarrow> api_error + unit" where
  "require_role claims r = (if cl_role claims = r then Inr () else Inl Forbidden)"

definition require_any_role :: "claims \<Rightarrow> role list \<Rightarrow> api_error + unit" where
  "require_any_role claims roles = (if cl_role claims \<in> set roles then Inr () else Inl Forbidden)"

definition require_staff :: "claims \<Rightarrow> api_error + unit" where
  "require_staff claims = require_any_role claims [Admin, Moderator]"

definition require_admin :: "claims \<Rightarrow> api_error + unit" where
  "require_admin claims = require_role claims Admin"

section \<open>Redaction for impersonation sessions\<close>

function redact_for_impersonation :: "bool \<Rightarrow> json \<Rightarrow> json" where
  "redact_for_impersonation invite_codes (JObj m) =
     JObj (map (\<lambda>(key, item).
       (key,
        if key = ''share_token'' then JNull
        else if invite_codes \<and> key = ''code'' \<and> as_str item \<noteq> None then JStr ''***''
        else redact_for_impersonation invite_codes item)) m)"
| "redact_for_impersonation invite_codes (JArr items) =
     JArr (map (redact_for_impersonation invite_codes) items)"
| "redact_for_impersonation invite_codes JNull = JNull"
| "redact_for_impersonation invite_codes (JBool b) = JBool b"
| "redact_for_impersonation invite_codes (JInt i) = JInt i"
| "redact_for_impersonation invite_codes (JStr s) = JStr s"
| "redact_for_impersonation invite_codes (JTime t) = JTime t"
  by pat_completeness auto
termination
proof (relation "measure (\<lambda>(_, v). size v)", goal_cases)
  case (2 invite_codes m kv key item)
  then have "size item \<le> size_list (\<lambda>x. Suc (size (snd x))) m"
    by (induction m) auto
  moreover have "size_prod (\<lambda>_ :: string. 0) size = (\<lambda>x :: string \<times> json. Suc (size (snd x)))"
    by (auto simp: size_prod_simp)
  ultimately show ?case by simp
next
  case (3 invite_codes items x)
  then show ?case by (simp add: size_list_estimation' [of x items "size x" size] le_imp_less_Suc)
qed simp

section \<open>The middleware\<close>

datatype http_method = GET | HEAD | OPTIONS | POST | PUT | PATCH | DELETE

definition STAFF_TWO_FACTOR_GRACE_MINUTES :: int where
  "STAFF_TWO_FACTOR_GRACE_MINUTES = 60"

definition MAX_REDACTED_BODY_BYTES :: int where
  "MAX_REDACTED_BODY_BYTES = 16 * 1024 * 1024"

definition is_slash :: "char \<Rightarrow> bool" where
  "is_slash c = (c = CHR ''/'')"

definition without_api_prefix :: "string \<Rightarrow> string" where
  "without_api_prefix path = unwrap_or (strip_prefix ''/api/v1'' path) path"

definition users_me_suffix :: "string \<Rightarrow> string option" where
  "users_me_suffix path0 =
     (let path = trim_end_matches is_slash path0 in
      case strip_prefix ''/users/me'' (without_api_prefix path) of
        None \<Rightarrow> None
      | Some rest \<Rightarrow> if rest = [] \<or> starts_with rest ''/'' then Some rest else None)"

definition allowed_without_staff_two_factor :: "http_method \<Rightarrow> string \<Rightarrow> bool" where
  "allowed_without_staff_two_factor m path =
     (case users_me_suffix path of
        None \<Rightarrow> False
      | Some rest \<Rightarrow>
          m = GET \<or> rest = ''/2fa'' \<or> starts_with rest ''/2fa/'' \<or> starts_with rest ''/email/''
          \<or> rest = ''/reauth/code'' \<or> (m = POST \<and> rest = ''/accept-terms'')
          \<or> (m = PATCH \<and> rest = ''/password''))"

definition staff_two_factor_missing :: "auth_state \<Rightarrow> time \<Rightarrow> bool" where
  "staff_two_factor_missing account now =
     (is_staff (as_role account) \<and> \<not> as_two_factor_enabled account
      \<and> as_role_since account + minutes STAFF_TWO_FACTOR_GRACE_MINUTES \<le> now)"

definition ends_with :: "string \<Rightarrow> string \<Rightarrow> bool" where
  "ends_with s suffix = starts_with (rev s) (rev suffix)"

definition is_bulk_export :: "http_method \<Rightarrow> string \<Rightarrow> bool" where
  "is_bulk_export m path0 =
     (if m \<noteq> GET \<and> m \<noteq> POST then False
      else
        let path = without_api_prefix (trim_end_matches is_slash path0) in
        path = ''/backup/export'' \<or> path = ''/songs/export/chordpro''
        \<or> path = ''/users/me/data-export''
        \<or> (starts_with path ''/setlists/'' \<and> ends_with path ''/export/pdf''))"

definition allowed_while_password_change_required :: "http_method \<Rightarrow> string \<Rightarrow> bool" where
  "allowed_while_password_change_required m path0 =
     (let path = trim_end_matches is_slash path0 in
      (m = GET \<and> (ends_with path ''/users/me'' \<or> ends_with path ''/users/me/preferences''
                   \<or> ends_with path ''/users/me/security''))
      \<or> (m = PATCH \<and> ends_with path ''/users/me/password'')
      \<or> (m = POST \<and> ends_with path ''/users/me/accept-terms''))"

definition is_read_only :: "http_method \<Rightarrow> bool" where
  "is_read_only m = (m = GET \<or> m = HEAD \<or> m = OPTIONS)"

datatype maintenance_mode = Off | ReadOnly | Full

record maintenance_settings =
  mt_mode :: maintenance_mode
  mt_message :: "string option"
  mt_ends_at :: "time option"

fun maintenance_blocks :: "maintenance_mode \<Rightarrow> http_method \<Rightarrow> bool" where
  "maintenance_blocks Off m = False"
| "maintenance_blocks ReadOnly m = (\<not> is_read_only m)"
| "maintenance_blocks Full m = True"

fun mode_key :: "maintenance_mode \<Rightarrow> string" where
  "mode_key Off = ''off''"
| "mode_key ReadOnly = ''read_only''"
| "mode_key Full = ''full''"

definition maintenance :: "maintenance_settings \<Rightarrow> api_error" where
  "maintenance mt =
     rule_with_meta 503 ''MAINTENANCE_MODE''
       (JObj [(''mode'', JStr (mode_key (mt_mode mt))),
              (''message'', json_of_opt JStr (mt_message mt)),
              (''ends_at'', json_of_opt JTime (mt_ends_at mt)),
              (''retry_after_seconds'', JInt 60)])"

definition ensure_account_usable :: "time \<Rightarrow> auth_state \<Rightarrow> api_error + unit" where
  "ensure_account_usable now st =
     (if as_status st \<noteq> StatusActive then Inl account_deactivated
      else case active_ban (as_banned_at st) (as_banned_until st) now of
        Some until \<Rightarrow> Inl (account_banned until (as_ban_reason st))
      | None \<Rightarrow> Inr ())"

definition check_claims ::
  "(uuid \<Rightarrow> auth_state option) \<Rightarrow> time \<Rightarrow> claims \<Rightarrow> (http_method \<times> string) option
     \<Rightarrow> api_error + auth_state"
where
  "check_claims accounts now claims request =
     (case accounts (cl_sub claims) of
        None \<Rightarrow> Inl session_revoked
      | Some account \<Rightarrow>
     (case cl_imp claims of
        Some impersonator_id \<Rightarrow>
          (case accounts impersonator_id of
             None \<Rightarrow> Inl session_revoked
           | Some impersonator \<Rightarrow>
               if ensure_account_usable now impersonator \<noteq> Inr () then Inl session_revoked
               else if cl_iver claims \<noteq> Some (as_token_version impersonator) then Inl session_revoked
               else if \<not> outranks (as_role impersonator) (as_role account) then Inl session_revoked
               else if staff_two_factor_missing impersonator now then Inl session_revoked
               else if is_some_and request (\<lambda>(m, _). \<not> is_read_only m)
                 then Inl impersonation_read_only
               else Inr account)
      | None \<Rightarrow>
          if as_token_version account \<noteq> cl_ver claims then Inl session_revoked
          else rbind (ensure_account_usable now account) (\<lambda>_.
            if is_some_and request (\<lambda>(m, path).
                 as_must_change_password account
                 \<and> \<not> allowed_while_password_change_required m path)
              then Inl password_change_required
            else if is_some_and request (\<lambda>(m, path).
                 staff_two_factor_missing account now
                 \<and> \<not> allowed_without_staff_two_factor m path)
              then Inl staff_two_factor_required
            else Inr account)))"

text \<open>
  Responses and the audit entries of impersonation sessions. A body is JSON that parses,
  or bytes that do not.
\<close>

datatype body = JsonBody json | RawBody string

record response =
  rs_status :: nat
  rs_is_json :: bool
  rs_length :: int
  rs_body :: body

record audit_event =
  ae_actor_id :: "uuid option"
  ae_impersonator_id :: "uuid option"
  ae_target_id :: uuid
  ae_target_label :: string
  ae_method :: http_method
  ae_path :: string
  ae_blocked :: bool
  ae_dedupe_seconds :: "int option"

definition STAFF_VIEW_DEDUPE_SECONDS :: int where
  "STAFF_VIEW_DEDUPE_SECONDS = 600"

definition is_success :: "nat \<Rightarrow> bool" where
  "is_success status = (200 \<le> status \<and> status < 300)"

definition redact_impersonation_response :: "response \<Rightarrow> bool \<Rightarrow> api_error + response" where
  "redact_impersonation_response resp invite_codes =
     (if \<not> rs_is_json resp \<or> \<not> is_success (rs_status resp) then Inr resp
      else if rs_length resp > MAX_REDACTED_BODY_BYTES then Inl ServerError
      else case rs_body resp of
        RawBody s \<Rightarrow> Inr resp
      | JsonBody v \<Rightarrow> Inr (resp\<lparr>rs_body := JsonBody (redact_for_impersonation invite_codes v)\<rparr>))"

fun contains_str :: "string \<Rightarrow> string \<Rightarrow> bool" where
  "contains_str [] pat = (pat = [])"
| "contains_str (c # cs) pat = (starts_with (c # cs) pat \<or> contains_str cs pat)"

definition bearer_token :: "string option \<Rightarrow> string option" where
  "bearer_token header =
     opt_filter (\<lambda>token. token \<noteq> [])
       (map_option trim (Option.bind header (strip_prefix ''Bearer '')))"

text \<open>
  \<open>authenticate\<close>: the answer, and the audit entries it spawns. \<open>run\<close> is the rest of the
  chain: the handler, which sees the rewritten claims and the impersonator.
\<close>

definition authenticate ::
  "(string \<Rightarrow> time \<Rightarrow> claims option) \<Rightarrow> (uuid \<Rightarrow> auth_state option) \<Rightarrow> maintenance_settings \<Rightarrow> time
     \<Rightarrow> string option \<Rightarrow> http_method \<Rightarrow> string
     \<Rightarrow> (claims \<Rightarrow> uuid option \<Rightarrow> response) \<Rightarrow> (api_error + response) \<times> audit_event list"
where
  "authenticate verify accounts mt now header m path run =
     (case bearer_token header of
        None \<Rightarrow> (Inl (AuthError MissingToken), [])
      | Some token \<Rightarrow>
     (case decode_jwt verify now token of
        Inl _ \<Rightarrow> (Inl (AuthError InvalidToken), [])
      | Inr claims0 \<Rightarrow>
     (case check_claims accounts now claims0 (Some (m, path)) of
        Inl e \<Rightarrow> (Inl e, [])
      | Inr account \<Rightarrow>
          if cl_imp claims0 = None \<and> \<not> is_staff (as_role account)
             \<and> maintenance_blocks (mt_mode mt) m
          then (Inl (maintenance mt), [])
          else
            let claims = claims0\<lparr>cl_role := as_role account, cl_username := as_username account,
                                 cl_status := as_status account\<rparr>
            in (case cl_imp claims of
                  None \<Rightarrow> (Inr (run claims None), [])
                | Some impersonator_id \<Rightarrow>
                    let blocked = is_bulk_export m path;
                        event =
                          \<lparr>ae_actor_id = Some impersonator_id,
                           ae_impersonator_id = Some impersonator_id,
                           ae_target_id = cl_sub claims, ae_target_label = cl_username claims,
                           ae_method = m, ae_path = path, ae_blocked = blocked,
                           ae_dedupe_seconds =
                             (if blocked then None else Some STAFF_VIEW_DEDUPE_SECONDS)\<rparr>
                    in if blocked then (Inl impersonation_read_only, [event])
                       else (redact_impersonation_response (run claims (Some impersonator_id))
                               (contains_str path ''/invites''), [event])))))"

section \<open>Properties\<close>

subsection \<open>The staff hierarchy\<close>

text \<open>
  What managing accounts needs from the relation "may act on": it only ever goes down a
  measure, so nobody manages a peer, a superior or, through others, themselves.
\<close>

locale hierarchy =
  fixes may_manage :: "'r \<Rightarrow> 'r \<Rightarrow> bool"
    and level :: "'r \<Rightarrow> nat"
  assumes downwards: "may_manage a b \<Longrightarrow> level b < level a"
begin

lemma not_peer: "level a = level b \<Longrightarrow> \<not> may_manage a b"
  using downwards by fastforce

lemma not_self: "\<not> may_manage a a"
  by (rule not_peer) simp

lemma chain_downwards: "may_manage\<^sup>+\<^sup>+ a b \<Longrightarrow> level b < level a"
  by (induction rule: tranclp_induct) (auto dest: downwards)

lemma acyclic: "\<not> may_manage\<^sup>+\<^sup>+ a a"
  using chain_downwards [of a a] by blast

end

interpretation staff: hierarchy outranks rank
  by unfold_locales (simp add: outranks_def)

lemma outranks_iff: "outranks a b \<longleftrightarrow> a = Admin \<and> b \<noteq> Admin \<or> a = Moderator \<and> b = RoleUser"
  by (cases a; cases b) (simp_all add: outranks_def is_staff_def)

subsection \<open>Redaction\<close>

text \<open>
  No secret left: at every depth, a \<open>share_token\<close> is null and, where invite codes count,
  a textual \<open>code\<close> is masked.
\<close>

inductive no_secret :: "bool \<Rightarrow> json \<Rightarrow> bool" for invite_codes where
  no_secret_obj: "(\<And>key item. (key, item) \<in> set m \<Longrightarrow>
     (key = ''share_token'' \<longrightarrow> item = JNull)
     \<and> (invite_codes \<and> key = ''code'' \<and> as_str item \<noteq> None \<longrightarrow> item = JStr ''***'')
     \<and> no_secret invite_codes item) \<Longrightarrow> no_secret invite_codes (JObj m)"
| no_secret_arr: "(\<And>item. item \<in> set items \<Longrightarrow> no_secret invite_codes item) \<Longrightarrow>
     no_secret invite_codes (JArr items)"
| no_secret_null: "no_secret invite_codes JNull"
| no_secret_bool: "no_secret invite_codes (JBool b)"
| no_secret_int: "no_secret invite_codes (JInt i)"
| no_secret_str: "no_secret invite_codes (JStr s)"
| no_secret_time: "no_secret invite_codes (JTime t)"

inductive_simps no_secret_simps [simp]:
  "no_secret ic (JObj m)" "no_secret ic (JArr items)" "no_secret ic JNull" "no_secret ic (JBool b)"
  "no_secret ic (JInt i)" "no_secret ic (JStr s)" "no_secret ic (JTime t)"

lemma as_str_redact:
  "as_str (redact_for_impersonation ic v) = as_str v"
  by (cases v) simp_all

lemma redact_no_secret: "no_secret ic (redact_for_impersonation ic v)"
proof (induction ic v rule: redact_for_impersonation.induct)
  case (1 ic m)
  have "(key = ''share_token'' \<longrightarrow> item = JNull)
      \<and> (ic \<and> key = ''code'' \<and> as_str item \<noteq> None \<longrightarrow> item = JStr ''***'') \<and> no_secret ic item"
    if "(key, item) \<in> set (map (\<lambda>(key, item).
       (key,
        if key = ''share_token'' then JNull
        else if ic \<and> key = ''code'' \<and> as_str item \<noteq> None then JStr ''***''
        else redact_for_impersonation ic item)) m)" for key item
    using that "1.IH" by (auto simp: as_str_redact split: if_splits)
  then show ?case by (simp only: redact_for_impersonation.simps no_secret_simps) blast
qed auto

lemma redact_fixed: "no_secret ic v \<Longrightarrow> redact_for_impersonation ic v = v"
proof (induction rule: no_secret.induct)
  case (no_secret_obj m)
  then have "(\<lambda>(key, item).
       (key,
        if key = ''share_token'' then JNull
        else if ic \<and> key = ''code'' \<and> as_str item \<noteq> None then JStr ''***''
        else redact_for_impersonation ic item)) kv = kv" if "kv \<in> set m" for kv
    using that by (cases kv) auto
  then show ?case by (simp add: map_idI)
qed (simp_all add: map_idI)

subsection \<open>What a passed check means\<close>

definition usable :: "auth_state \<Rightarrow> time \<Rightarrow> bool" where
  "usable account now =
     (as_status account = StatusActive \<and> active_ban (as_banned_at account) (as_banned_until account) now = None)"

lemma ensure_account_usable_iff: "ensure_account_usable now account = Inr u \<longleftrightarrow> usable account now"
  by (auto simp: ensure_account_usable_def usable_def split: option.splits)

lemma check_claims_own:
  assumes "check_claims accounts now claims request = Inr account" and "cl_imp claims = None"
  shows "accounts (cl_sub claims) = Some account \<and> usable account now
         \<and> as_token_version account = cl_ver claims
         \<and> (\<forall>m path. request = Some (m, path) \<longrightarrow>
              (as_must_change_password account \<longrightarrow> allowed_while_password_change_required m path)
              \<and> (staff_two_factor_missing account now \<longrightarrow> allowed_without_staff_two_factor m path))"
  using assms
  by (auto simp: check_claims_def ensure_account_usable_iff is_some_and_def
      split: option.splits if_splits)

lemma check_claims_impersonation:
  assumes "check_claims accounts now claims request = Inr account" and "cl_imp claims = Some staff_id"
  shows "accounts (cl_sub claims) = Some account
         \<and> (\<exists>staff. accounts staff_id = Some staff \<and> usable staff now
              \<and> cl_iver claims = Some (as_token_version staff)
              \<and> outranks (as_role staff) (as_role account) \<and> \<not> staff_two_factor_missing staff now)
         \<and> (\<forall>m path. request = Some (m, path) \<longrightarrow> is_read_only m)"
  using assms
  by (auto simp: check_claims_def ensure_account_usable_iff is_some_and_def
      split: option.splits if_splits)

lemmas check_claims_passed = check_claims_own check_claims_impersonation

definition current_claims :: "claims \<Rightarrow> auth_state \<Rightarrow> claims" where
  "current_claims claims account =
     claims\<lparr>cl_role := as_role account, cl_username := as_username account,
            cl_status := as_status account\<rparr>"

lemma authenticate_ex:
  assumes "authenticate verify accounts mt now header m path run = (Inr resp, events)"
  shows "\<exists>token claims0 account. bearer_token header = Some token
    \<and> decode_jwt verify now token = Inr claims0
    \<and> check_claims accounts now claims0 (Some (m, path)) = Inr account
    \<and> (cl_imp claims0 \<noteq> None \<or> is_staff (as_role account) \<or> \<not> maintenance_blocks (mt_mode mt) m)
    \<and> (cl_imp claims0 = None \<longrightarrow> events = [] \<and> resp = run (current_claims claims0 account) None)
    \<and> (\<forall>i. cl_imp claims0 = Some i \<longrightarrow> \<not> is_bulk_export m path \<and>
         (\<exists>ev. events = [ev] \<and> ae_actor_id ev = Some i \<and> ae_target_id ev = cl_sub claims0) \<and>
         redact_impersonation_response (run (current_claims claims0 account) (Some i))
           (contains_str path ''/invites'') = Inr resp)"
  using assms
  by (auto simp: authenticate_def current_claims_def Let_def split: option.splits sum.splits if_splits)

lemma authenticate_passed:
  assumes "authenticate verify accounts mt now header m path run = (Inr resp, events)"
  obtains token claims0 account where
    "bearer_token header = Some token" "decode_jwt verify now token = Inr claims0"
    "check_claims accounts now claims0 (Some (m, path)) = Inr account"
    "cl_imp claims0 \<noteq> None \<or> is_staff (as_role account) \<or> \<not> maintenance_blocks (mt_mode mt) m"
    "cl_imp claims0 = None \<Longrightarrow> events = [] \<and> resp = run (current_claims claims0 account) None"
    "\<And>i. cl_imp claims0 = Some i \<Longrightarrow> \<not> is_bulk_export m path \<and>
       (\<exists>ev. events = [ev] \<and> ae_actor_id ev = Some i \<and> ae_target_id ev = cl_sub claims0) \<and>
       redact_impersonation_response (run (current_claims claims0 account) (Some i))
         (contains_str path ''/invites'') = Inr resp"
  using authenticate_ex [OF assms] by (elim exE conjE) (rule that, assumption+, iprover+)

subsection \<open>Claims\<close>


definition example_account :: "role \<Rightarrow> auth_state" where
  "example_account r =
     \<lparr>as_username = ''ana'', as_role = r, as_status = StatusActive, as_token_version = 3,
      as_must_change_password = False, as_banned_at = None, as_banned_until = None,
      as_ban_reason = None, as_two_factor_enabled = True, as_role_since = 0\<rparr>"

definition example_token :: "claims \<Rightarrow> string \<Rightarrow> time \<Rightarrow> claims option" where
  "example_token claims token now = (if token = ''t0'' then Some claims else None)"


text \<open>
  C30. A "view as" session can only read: a request that reaches a handler has a reading
  method, is not a bulk export, is recorded in the audit log under the staff member's id,
  was opened by a staff member in good standing who outranks the account, and no share
  token is left anywhere in a successful JSON answer.
\<close>

theorem impersonation_reads_only:
  assumes "authenticate verify accounts mt now header m path run = (Inr resp, events)"
    and "bearer_token header = Some token" and "verify token now = Some claims0"
    and "cl_imp claims0 = Some staff_id"
  shows "is_read_only m \<and> \<not> is_bulk_export m path
    \<and> (\<exists>ev. events = [ev] \<and> ae_actor_id ev = Some staff_id \<and> ae_target_id ev = cl_sub claims0)
    \<and> (\<exists>staff account. accounts staff_id = Some staff \<and> accounts (cl_sub claims0) = Some account
         \<and> usable staff now \<and> is_staff (as_role staff) \<and> outranks (as_role staff) (as_role account)
         \<and> cl_iver claims0 = Some (as_token_version staff))
    \<and> (\<forall>v. rs_is_json resp \<and> is_success (rs_status resp) \<and> rs_body resp = JsonBody v \<longrightarrow>
         no_secret (contains_str path ''/invites'') v)"
proof (rule authenticate_passed [OF assms(1)])
  fix token' claims1 account
  assume t: "bearer_token header = Some token'" "decode_jwt verify now token' = Inr claims1"
    and c: "check_claims accounts now claims1 (Some (m, path)) = Inr account"
    and r: "\<And>i. cl_imp claims1 = Some i \<Longrightarrow> \<not> is_bulk_export m path \<and>
       (\<exists>ev. events = [ev] \<and> ae_actor_id ev = Some i \<and> ae_target_id ev = cl_sub claims1) \<and>
       redact_impersonation_response
         (run (current_claims claims1 account) (Some i)) (contains_str path ''/invites'') = Inr resp"
  from t assms(2,3) have [simp]: "claims1 = claims0"
    by (auto simp: decode_jwt_def split: if_splits)
  have imp: "cl_imp claims1 = Some staff_id" using assms(4) by simp
  note r = r [OF imp]
  have "no_secret (contains_str path ''/invites'') v"
    if "rs_is_json resp" "is_success (rs_status resp)" "rs_body resp = JsonBody v" for v
    using r that
    by (auto simp: redact_impersonation_response_def redact_no_secret split: if_splits body.splits)
  moreover from check_claims_impersonation [OF c imp] obtain staff where
    "accounts (cl_sub claims0) = Some account" "accounts staff_id = Some staff" "usable staff now"
    "cl_iver claims0 = Some (as_token_version staff)" "outranks (as_role staff) (as_role account)"
    "is_read_only m"
    by auto
  ultimately show ?thesis using r by (auto simp: outranks_def)
qed

theorem impersonation_reads_only_witness:
  "is_read_only GET \<and> no_secret False (JObj [(''share_token'', JNull)])"
proof -
  let ?claims = "impersonation_claims 0 60 7 (example_account RoleUser) 9 3"
  let ?run = "\<lambda>c i. \<lparr>rs_status = 200, rs_is_json = True, rs_length = 20,
    rs_body = JsonBody (JObj [(''share_token'', JStr ''abc'')])\<rparr>"
  let ?accounts = "\<lambda>i. if i = 7 then Some (example_account RoleUser)
    else if i = 9 then Some (example_account Admin) else None"
  let ?resp = "\<lparr>rs_status = 200, rs_is_json = True, rs_length = 20,
    rs_body = JsonBody (JObj [(''share_token'', JNull)])\<rparr>"
  let ?ev = "\<lparr>ae_actor_id = Some 9, ae_impersonator_id = Some 9, ae_target_id = 7,
    ae_target_label = ''ana'', ae_method = GET, ae_path = ''/setlists'', ae_blocked = False,
    ae_dedupe_seconds = Some 600\<rparr>"
  have a: "authenticate (example_token ?claims) ?accounts
      \<lparr>mt_mode = Full, mt_message = None, mt_ends_at = None\<rparr> 0 (Some ''Bearer t0'') GET ''/setlists'' ?run
    = (Inr ?resp, [?ev])"
    and t: "bearer_token (Some ''Bearer t0'') = Some ''t0''"
    and v: "example_token ?claims ''t0'' 0 = Some ?claims" and i: "cl_imp ?claims = Some 9"
    and inv: "contains_str ''/setlists'' ''/invites'' = False"
    by code_simp+
  from impersonation_reads_only [OF a t v i] show ?thesis by (simp add: inv is_success_def)
qed

text \<open>
  Redacting an answer leaves no share token (and no invite code, where asked) at any
  depth, and redacting it again changes nothing.
\<close>

theorem redact_removes_secrets:
  "no_secret invite_codes (redact_for_impersonation invite_codes v)
   \<and> redact_for_impersonation invite_codes (redact_for_impersonation invite_codes v)
       = redact_for_impersonation invite_codes v"
  using redact_no_secret redact_fixed by blast

text \<open>
  Tokens follow the account: a token renewed for an account passes the check exactly
  while the account stays usable and keeps its token version, and raising a staff member's
  token version ends every "view as" session they opened.
\<close>

theorem token_version_revokes:
  "(check_claims accounts now (renew_claims issued ttl user_id account0) None = Inr account \<longleftrightarrow>
      accounts user_id = Some account \<and> usable account now
      \<and> as_token_version account = as_token_version account0)
   \<and> (check_claims accounts now (impersonation_claims issued ttl user_id account0 staff_id version) request
        = Inr account \<longrightarrow>
      (\<exists>staff. accounts staff_id = Some staff \<and> as_token_version staff = version))"
proof
  show "check_claims accounts now (renew_claims issued ttl user_id account0) None = Inr account \<longleftrightarrow>
      accounts user_id = Some account \<and> usable account now
      \<and> as_token_version account = as_token_version account0"
    by (auto simp: check_claims_def renew_claims_def ensure_account_usable_iff is_some_and_def
        split: option.splits)
  show "check_claims accounts now (impersonation_claims issued ttl user_id account0 staff_id version) request
        = Inr account \<longrightarrow>
      (\<exists>staff. accounts staff_id = Some staff \<and> as_token_version staff = version)"
    using check_claims_impersonation [of accounts now
        "impersonation_claims issued ttl user_id account0 staff_id version" request account staff_id]
    by (auto simp: impersonation_claims_def build_claims_def)
qed

theorem token_version_revokes_witness:
  "check_claims (\<lambda>i. Some (example_account Admin)) 0
     (impersonation_claims 0 60 7 (example_account RoleUser) 9 2) None \<noteq> Inr (example_account Admin)"
proof
  let ?claims = "impersonation_claims 0 60 7 (example_account RoleUser) 9 2"
  assume "check_claims (\<lambda>i. Some (example_account Admin)) 0 ?claims None = Inr (example_account Admin)"
  with token_version_revokes [of "\<lambda>i. Some (example_account Admin)" 0 0 60 7
      "example_account RoleUser" "example_account Admin" 9 2 None]
  show False by (auto simp: example_account_def)
qed

text \<open>
  The staff hierarchy is strict: nobody may manage a peer, a superior or themselves,
  not even through a chain of accounts, and moderators manage regular users only.
\<close>

theorem staff_hierarchy_strict:
  "\<not> outranks\<^sup>+\<^sup>+ a a \<and> (outranks a b \<longrightarrow> b < a) \<and> (outranks Moderator b \<longleftrightarrow> b = RoleUser)"
  using staff.acyclic [of a] by (cases b) (auto simp: outranks_iff less_role_def)

theorem staff_hierarchy_strict_witness: "RoleUser < Admin"
  using staff_hierarchy_strict [of Admin RoleUser] by (simp add: outranks_iff)

end
