(* ===== verification/Plans.thy ===== *)
theory Plans
  imports Quotas Auth
begin

text \<open>
  The data of billing, from \<^verbatim>\<open>src/src/models/billing.rs\<close> (and the features of
  \<^verbatim>\<open>src/src/services/entitlements.rs\<close>): settings, plans, the access tier, the
  subscription and when it is in effect, and the validation of every payload. The lemmas
  say what each validator accepts and when a subscription grants its plan.

  Validators answer \<open>Inl code\<close> with the code of the failed check. Prices and amounts are
  \<open>i32\<close> in the code and are compared only, so they are integers here; the length of a text
  is its number of characters, and \<open>byte_len\<close> where the code asks for bytes.
\<close>

section \<open>Localized texts\<close>

definition SUPPORTED_LANGUAGES :: "string list" where
  "SUPPORTED_LANGUAGES = [''en'', ''pt-BR'', ''es'']"

fun localized_entries :: "nat \<Rightarrow> nat \<Rightarrow> (string \<times> json) list \<Rightarrow> string + unit" where
  "localized_entries lo hi [] = Inr ()"
| "localized_entries lo hi ((locale_key, v) # rest) =
     (if locale_key \<notin> set SUPPORTED_LANGUAGES then Inl ''invalid_localized_text''
      else case as_str v of
        None \<Rightarrow> Inl ''invalid_localized_text''
      | Some s \<Rightarrow>
          let len = length (trim s) in
          if len < lo \<or> len > hi then Inl ''invalid_localized_text''
          else localized_entries lo hi rest)"

definition validate_localized_map :: "json \<Rightarrow> string list \<Rightarrow> nat \<Rightarrow> nat \<Rightarrow> string + unit" where
  "validate_localized_map v required lo hi =
     (case as_object v of
        None \<Rightarrow> Inl ''invalid_localized_text''
      | Some m \<Rightarrow>
          rbind (localized_entries lo hi m) (\<lambda>_.
            if list_all (\<lambda>k. map_of m k \<noteq> None) required then Inr ()
            else Inl ''invalid_localized_text''))"

definition trim_localized :: "json \<Rightarrow> json" where
  "trim_localized v =
     (case as_object v of
        Some m \<Rightarrow> JObj (map (\<lambda>(k, x). (k, JStr (trim (unwrap_or (as_str x) [])))) m)
      | None \<Rightarrow> v)"

section \<open>Settings\<close>

record referral_settings =
  rf_enabled :: bool
  rf_referrer_credits :: int
  rf_referred_credits :: int
  rf_max_rewarded_per_month :: int

definition default_referral_settings :: referral_settings where
  "default_referral_settings =
     \<lparr>rf_enabled = True, rf_referrer_credits = 50, rf_referred_credits = 20,
      rf_max_rewarded_per_month = 20\<rparr>"

record reward =
  rw_id :: string
  rw_plan :: string
  rw_days :: int
  rw_cost :: int

record billing_settings =
  bs_enforced :: bool
  bs_trial_days :: int
  bs_trial_plan :: string
  bs_referral :: referral_settings
  bs_rewards :: "reward list"

definition default_billing_settings :: billing_settings where
  "default_billing_settings =
     \<lparr>bs_enforced = False, bs_trial_days = 30, bs_trial_plan = ''pro'',
      bs_referral = default_referral_settings,
      bs_rewards =
        [\<lparr>rw_id = ''intermediate_30d'', rw_plan = ''intermediate'', rw_days = 30, rw_cost = 80\<rparr>,
         \<lparr>rw_id = ''pro_30d'', rw_plan = ''pro'', rw_days = 30, rw_cost = 120\<rparr>]\<rparr>"

text \<open>The \<open>#[validate(...)]\<close> attributes of the three structs.\<close>

definition between :: "int \<Rightarrow> int \<Rightarrow> int \<Rightarrow> bool" where
  "between lo hi v = (lo \<le> v \<and> v \<le> hi)"

definition len_between :: "nat \<Rightarrow> nat \<Rightarrow> string \<Rightarrow> bool" where
  "len_between lo hi s = (lo \<le> length s \<and> length s \<le> hi)"

definition validate_referral_settings :: "referral_settings \<Rightarrow> bool" where
  "validate_referral_settings r =
     (between 0 100000 (rf_referrer_credits r) \<and> between 0 100000 (rf_referred_credits r)
      \<and> between 0 10000 (rf_max_rewarded_per_month r))"

definition validate_reward :: "reward \<Rightarrow> bool" where
  "validate_reward r =
     (len_between 1 40 (rw_id r) \<and> len_between 1 32 (rw_plan r) \<and> between 1 3650 (rw_days r)
      \<and> between 1 100000 (rw_cost r))"

definition validate_billing_settings :: "billing_settings \<Rightarrow> bool" where
  "validate_billing_settings s =
     (between 0 365 (bs_trial_days s) \<and> len_between 1 32 (bs_trial_plan s)
      \<and> validate_referral_settings (bs_referral s) \<and> list_all validate_reward (bs_rewards s)
      \<and> length (bs_rewards s) \<le> 20)"

section \<open>Access tiers\<close>

datatype access_tier = Staff | PlanTier | Unverified | Beta | Free

definition resolve_tier :: "bool \<Rightarrow> bool \<Rightarrow> bool \<Rightarrow> bool \<Rightarrow> access_tier" where
  "resolve_tier staff enforced has_plan email_verified =
     (if staff then Staff
      else if enforced \<and> has_plan then PlanTier
      else if \<not> email_verified then Unverified
      else if \<not> enforced then Beta
      else Free)"

section \<open>Features and plans\<close>

datatype feature =
    CreateBands | ToursFeature | AnalyticsExport | PdfExport | AdvancedPdf
  | ChordproImport | SongSuggestions | PublicSharing | OfflineMode | PrioritySupport

definition ALL_FEATURES :: "feature list" where
  "ALL_FEATURES =
     [CreateBands, ToursFeature, AnalyticsExport, PdfExport, AdvancedPdf, ChordproImport,
      SongSuggestions, PublicSharing, OfflineMode, PrioritySupport]"

fun feature_key :: "feature \<Rightarrow> string" where
  "feature_key CreateBands = ''create_bands''"
| "feature_key ToursFeature = ''tours''"
| "feature_key AnalyticsExport = ''analytics_export''"
| "feature_key PdfExport = ''pdf_export''"
| "feature_key AdvancedPdf = ''advanced_pdf''"
| "feature_key ChordproImport = ''chordpro_import''"
| "feature_key SongSuggestions = ''song_suggestions''"
| "feature_key PublicSharing = ''public_sharing''"
| "feature_key OfflineMode = ''offline_mode''"
| "feature_key PrioritySupport = ''priority_support''"

text \<open>A \<open>BTreeMap<String, bool>\<close> is a map.\<close>

definition normalize_features :: "json \<Rightarrow> string \<rightharpoonup> bool" where
  "normalize_features stored =
     map_of (map (\<lambda>f. (feature_key f,
       unwrap_or (Option.bind (json_get stored (feature_key f)) as_bool) False)) ALL_FEATURES)"

text \<open>
  A row of \<open>plans\<close>; its \<open>limits\<close> column is what serde reads from it (\<open>None\<close> when the
  stored JSON is not a set of limits).
\<close>

record plan_row =
  pr_code :: string
  pr_name :: json
  pr_description :: json
  pr_price_monthly_cents :: int
  pr_price_yearly_cents :: int
  pr_currency :: string
  pr_limits :: "quota_limits option"
  pr_features :: json
  pr_highlighted :: bool
  pr_is_public :: bool
  pr_sort_order :: int
  pr_updated_at :: time

record plan =
  pl_code :: string
  pl_name :: json
  pl_description :: json
  pl_price_monthly_cents :: int
  pl_price_yearly_cents :: int
  pl_currency :: string
  pl_limits :: quota_limits
  pl_features :: "string \<rightharpoonup> bool"
  pl_highlighted :: bool
  pl_is_public :: bool
  pl_sort_order :: int
  pl_updated_at :: time

definition plan_of_row :: "plan_row \<Rightarrow> plan" where
  "plan_of_row row =
     \<lparr>pl_code = pr_code row, pl_name = pr_name row, pl_description = pr_description row,
      pl_price_monthly_cents = pr_price_monthly_cents row,
      pl_price_yearly_cents = pr_price_yearly_cents row, pl_currency = pr_currency row,
      pl_limits = unwrap_or (pr_limits row) default_limits,
      pl_features = normalize_features (pr_features row),
      pl_highlighted = pr_highlighted row, pl_is_public = pr_is_public row,
      pl_sort_order = pr_sort_order row, pl_updated_at = pr_updated_at row\<rparr>"

definition plan_has :: "plan \<Rightarrow> feature \<Rightarrow> bool" where
  "plan_has p f = unwrap_or (pl_features p (feature_key f)) False"

definition validate_plan_code :: "string \<Rightarrow> string + unit" where
  "validate_plan_code c =
     (if 2 \<le> byte_len c \<and> byte_len c \<le> 32
         \<and> (case c of [] \<Rightarrow> False | x # _ \<Rightarrow> is_ascii_lowercase x)
         \<and> list_all (\<lambda>x. is_ascii_lowercase x \<or> is_ascii_digit x \<or> x = CHR ''_'') c
         \<and> c \<notin> set [''none'', ''trial'']
      then Inr () else Inl ''invalid_plan_code'')"

definition validate_plan_name :: "json \<Rightarrow> string + unit" where
  "validate_plan_name v = validate_localized_map v [''en'', ''pt-BR''] 1 60"

definition validate_plan_description :: "json \<Rightarrow> string + unit" where
  "validate_plan_description v = validate_localized_map v [] 0 400"

definition validate_feature_map :: "string list \<Rightarrow> string + unit" where
  "validate_feature_map ks =
     (if list_all (\<lambda>k. list_ex (\<lambda>f. feature_key f = k) ALL_FEATURES) ks
      then Inr () else Inl ''unknown_feature'')"

definition validate_currency :: "string \<Rightarrow> string + unit" where
  "validate_currency c =
     (if byte_len c = 3 \<and> list_all is_ascii_uppercase c then Inr () else Inl ''invalid_currency'')"

definition MIN_CHARGE_CENTS :: int where
  "MIN_CHARGE_CENTS = 50"

definition validate_chargeable_price :: "int \<Rightarrow> string + unit" where
  "validate_chargeable_price cents =
     (if cents = 0 \<or> cents \<ge> MIN_CHARGE_CENTS then Inr () else Inl ''below_minimum_charge'')"

section \<open>Subscriptions\<close>

datatype subscription_status = Trialing | Active | PastDue | Canceled | Expired

fun status_key :: "subscription_status \<Rightarrow> string" where
  "status_key Trialing = ''trialing''"
| "status_key Active = ''active''"
| "status_key PastDue = ''past_due''"
| "status_key Canceled = ''canceled''"
| "status_key Expired = ''expired''"

definition is_live :: "subscription_status \<Rightarrow> bool" where
  "is_live s = (s = Trialing \<or> s = Active \<or> s = PastDue)"

datatype subscription_source = TrialSource | AdminSource | PromoCodeSource | CreditsSource
  | ReferralSource | Payment

definition RENEWAL_GRACE_DAYS :: int where "RENEWAL_GRACE_DAYS = 2"
definition PAYMENT_GRACE_DAYS :: int where "PAYMENT_GRACE_DAYS = 14"
definition WITHDRAWAL_DAYS :: int where "WITHDRAWAL_DAYS = 7"

definition subscription_in_effect ::
  "subscription_status \<Rightarrow> subscription_source \<Rightarrow> time option \<Rightarrow> time option \<Rightarrow> time \<Rightarrow> bool"
where
  "subscription_in_effect status source current_period_end past_due_since now =
     (let grace = (case source of Payment \<Rightarrow> days RENEWAL_GRACE_DAYS | _ \<Rightarrow> 0);
          retrying = (status \<noteq> PastDue
            \<or> is_none_or past_due_since (\<lambda>since. since + days PAYMENT_GRACE_DAYS > now))
      in is_live status \<and> retrying \<and> is_none_or current_period_end (\<lambda>e. e + grace > now))"

datatype billing_interval = Monthly | Yearly

fun interval_key :: "billing_interval \<Rightarrow> string" where
  "interval_key Monthly = ''monthly''"
| "interval_key Yearly = ''yearly''"

fun provider_key :: "billing_interval \<Rightarrow> string" where
  "provider_key Monthly = ''month''"
| "provider_key Yearly = ''year''"

definition interval_from_provider :: "string \<Rightarrow> billing_interval option" where
  "interval_from_provider v =
     (if v = ''month'' then Some Monthly else if v = ''year'' then Some Yearly else None)"

fun price_of :: "billing_interval \<Rightarrow> plan \<Rightarrow> int" where
  "price_of Monthly p = pl_price_monthly_cents p"
| "price_of Yearly p = pl_price_yearly_cents p"

text \<open>What an account may see of its own history.\<close>

definition OWNER_VISIBLE_EVENT_DATA :: "string list" where
  "OWNER_VISIBLE_EVENT_DATA =
     [''days'', ''source'', ''plan_code'', ''interval'', ''effective_at'', ''current_period_end'',
      ''currency'', ''refunded_cents'', ''old_amount_cents'', ''new_amount_cents'']"

definition owner_event_data :: "json \<Rightarrow> json" where
  "owner_event_data data =
     (case data of
        JObj m \<Rightarrow> JObj (filter (\<lambda>(k, _). k \<in> set OWNER_VISIBLE_EVENT_DATA) m)
      | _ \<Rightarrow> JObj [])"

section \<open>Promo codes and payloads\<close>

datatype promo_kind = PlanGrant | TrialExtension | Credits | Discount

datatype referral_status = RefPending | RefRewarded | RefRejected

definition validate_credit_amount :: "int \<Rightarrow> string + unit" where
  "validate_credit_amount amount =
     (if amount \<noteq> 0 \<and> between (-100000) 100000 amount then Inr () else Inl ''invalid_amount'')"

definition MIN_PROMO_CODE_CHARS :: nat where
  "MIN_PROMO_CODE_CHARS = 8"

definition validate_promo_code :: "string \<Rightarrow> string + unit" where
  "validate_promo_code c0 =
     (let c = trim c0 in
      if MIN_PROMO_CODE_CHARS \<le> byte_len c \<and> byte_len c \<le> 32
         \<and> list_all (\<lambda>x. is_ascii_alphanumeric x \<or> x = CHR ''-'' \<or> x = CHR ''_'') c
      then Inr () else Inl ''invalid_promo_code'')"

record create_promo =
  cp_code :: "string option"
  cp_description :: "string option"
  cp_kind :: promo_kind
  cp_plan_code :: "string option"
  cp_duration_days :: "int option"
  cp_credits :: "int option"
  cp_discount_percent :: "int option"
  cp_max_redemptions :: "int option"
  cp_new_users_only :: bool
  cp_starts_at :: "time option"
  cp_expires_at :: "time option"

definition validate_create_promo :: "create_promo \<Rightarrow> bool" where
  "validate_create_promo p =
     (is_none_or (cp_code p) (\<lambda>c. validate_promo_code c = Inr ())
      \<and> is_none_or (cp_description p) (len_between 0 255)
      \<and> is_none_or (cp_plan_code p) (len_between 1 32)
      \<and> is_none_or (cp_duration_days p) (between 1 3650)
      \<and> is_none_or (cp_credits p) (between 1 100000)
      \<and> is_none_or (cp_discount_percent p) (between 1 100)
      \<and> is_none_or (cp_max_redemptions p) (between 1 1000000))"

text \<open>The fields each kind needs: plan, days, credits, discount.\<close>

fun kind_fields :: "promo_kind \<Rightarrow> bool \<times> bool \<times> bool \<times> bool" where
  "kind_fields PlanGrant = (True, True, False, False)"
| "kind_fields TrialExtension = (False, True, False, False)"
| "kind_fields Credits = (False, False, True, False)"
| "kind_fields Discount = (False, False, False, True)"

definition quoted :: "string \<Rightarrow> string" where
  "quoted s = CHR 0x27 # s @ [CHR 0x27]"

fun check_fields :: "(string \<times> bool \<times> bool) list \<Rightarrow> string + unit" where
  "check_fields [] = Inr ()"
| "check_fields ((field, required, present) # rest) =
     (if required \<and> \<not> present then Inl (quoted field @ '' is required for this kind of code.'')
      else if \<not> required \<and> present then Inl (quoted field @ '' does not apply to this kind of code.'')
      else check_fields rest)"

definition check_kind_fields :: "create_promo \<Rightarrow> string + unit" where
  "check_kind_fields p =
     (let (plan, dys, credits, discount) = kind_fields (cp_kind p) in
      rbind (check_fields
        [(''plan_code'', plan, cp_plan_code p \<noteq> None),
         (''duration_days'', dys, cp_duration_days p \<noteq> None),
         (''credits'', credits, cp_credits p \<noteq> None),
         (''discount_percent'', discount, cp_discount_percent p \<noteq> None)]) (\<lambda>_.
      case (cp_starts_at p, cp_expires_at p) of
        (Some start, Some e) \<Rightarrow>
          if e \<le> start then Inl (quoted ''expires_at'' @ '' must be after '' @ quoted ''starts_at'' @ ''.'') else Inr ()
      | _ \<Rightarrow> Inr ()))"

section \<open>Properties\<close>

subsection \<open>When a subscription is in effect\<close>

lemma in_effect_antimono:
  "subscription_in_effect st src e since later \<Longrightarrow> now \<le> later \<Longrightarrow> subscription_in_effect st src e since now"
  by (auto simp: subscription_in_effect_def Let_def is_none_or_def split: option.splits)

lemma in_effect_live: "subscription_in_effect st src e since now \<Longrightarrow> is_live st"
  by (simp add: subscription_in_effect_def Let_def)

text \<open>Reasons that end a subscription, as named conditions.\<close>

definition period_over :: "subscription_source \<Rightarrow> time option \<Rightarrow> time \<Rightarrow> bool" where
  "period_over src e now =
     is_some_and e (\<lambda>e. e + (if src = Payment then days RENEWAL_GRACE_DAYS else 0) \<le> now)"

definition retries_over :: "subscription_status \<Rightarrow> time option \<Rightarrow> time \<Rightarrow> bool" where
  "retries_over st since now =
     (st = PastDue \<and> is_some_and since (\<lambda>t. t + days PAYMENT_GRACE_DAYS \<le> now))"

lemma in_effect_iff:
  "subscription_in_effect st src e since now \<longleftrightarrow>
     is_live st \<and> \<not> retries_over st since now \<and> \<not> period_over src e now"
  by (cases src; cases e; cases since; cases st)
    (auto simp: subscription_in_effect_def period_over_def retries_over_def is_live_def Let_def)

subsection \<open>Features\<close>

lemma ALL_FEATURES_complete: "f \<in> set ALL_FEATURES"
  by (cases f) (simp_all add: ALL_FEATURES_def)

lemma feature_key_inject: "feature_key f = feature_key g \<longleftrightarrow> f = g"
  by (cases f; cases g; simp)

lemma map_of_keys:
  "inj_on k (set xs) \<Longrightarrow> x \<in> set xs \<Longrightarrow> map_of (map (\<lambda>f. (k f, v f)) xs) (k x) = Some (v x)"
  by (induction xs) (auto simp: inj_on_def)

lemma normalize_features_key:
  "normalize_features stored (feature_key f)
     = Some (unwrap_or (Option.bind (json_get stored (feature_key f)) as_bool) False)"
  unfolding normalize_features_def
  by (rule map_of_keys) (auto simp: inj_on_def feature_key_inject ALL_FEATURES_complete)

lemma plan_has_row:
  "plan_has (plan_of_row row) f
     \<longleftrightarrow> json_get (pr_features row) (feature_key f) = Some (JBool True)"
  by (cases "json_get (pr_features row) (feature_key f)"; cases "the (json_get (pr_features row) (feature_key f))")
    (auto simp: plan_has_def plan_of_row_def normalize_features_key)

subsection \<open>Localized texts\<close>

lemma localized_entries_iff:
  "localized_entries lo hi m = Inr u \<longleftrightarrow>
     (\<forall>(k, v) \<in> set m. k \<in> set SUPPORTED_LANGUAGES
        \<and> (\<exists>s. v = JStr s \<and> lo \<le> length (trim s) \<and> length (trim s) \<le> hi))"
proof (induction lo hi m rule: localized_entries.induct)
  case (2 lo hi k v rest)
  then show ?case by (cases v) (auto simp: Let_def)
qed simp

lemma map_of_map_snd: "map_of (map (\<lambda>(k, x). (k, f x)) m) k = map_option f (map_of m k)"
  by (induction m) auto

subsection \<open>Promo codes\<close>

lemma check_fields_Inr:
  "check_fields fs = Inr u \<longleftrightarrow> list_all (\<lambda>(_, required, present). required = present) fs"
  by (induction fs rule: check_fields.induct) auto

lemma check_kind_fields_kind:
  "check_kind_fields p = Inr u \<Longrightarrow>
     kind_fields (cp_kind p) =
       (cp_plan_code p \<noteq> None, cp_duration_days p \<noteq> None, cp_credits p \<noteq> None, cp_discount_percent p \<noteq> None)"
  by (simp add: check_kind_fields_def check_fields_Inr del: check_fields.simps split: prod.splits)

lemma check_kind_fields_window:
  "check_kind_fields p = Inr u \<Longrightarrow>
     \<forall>start e. cp_starts_at p = Some start \<and> cp_expires_at p = Some e \<longrightarrow> start < e"
  by (auto simp: check_kind_fields_def simp del: check_fields.simps split: prod.splits if_splits)

subsection \<open>Claims\<close>

text \<open>
  When a subscription grants its plan: exactly while its status is live, a failed
  renewal is at most fourteen days old and its period (plus two days for a paid one) is
  not over; and once it has stopped granting the plan, time alone never brings it back.
\<close>

theorem subscription_in_effect_spec:
  "(subscription_in_effect st src e since now \<longleftrightarrow>
      is_live st \<and> \<not> retries_over st since now \<and> \<not> period_over src e now)
   \<and> (now \<le> later \<and> subscription_in_effect st src e since later \<longrightarrow>
      subscription_in_effect st src e since now)"
  using in_effect_iff in_effect_antimono by blast

theorem subscription_in_effect_spec_witness:
  "subscription_in_effect Active Payment (Some 0) None (days 1)
   \<and> \<not> subscription_in_effect Active Payment (Some 0) None (days 2)
   \<and> subscription_in_effect Active Payment (Some 0) None 0"
proof -
  have a: "subscription_in_effect Active Payment (Some 0) None (days 1)"
    and b: "\<not> subscription_in_effect Active Payment (Some 0) None (days 2)"
    and c: "0 \<le> days 1"
    by code_simp+
  from subscription_in_effect_spec [of Active Payment "Some 0" None 0 "days 1"] a b c
  show ?thesis by blast
qed

text \<open>
  A plan includes a feature exactly when its stored feature map says \<open>true\<close> for it:
  missing keys, other values and unknown keys grant nothing.
\<close>

theorem plan_features_from_row:
  "plan_has (plan_of_row row) f \<longleftrightarrow> json_get (pr_features row) (feature_key f) = Some (JBool True)"
  by (rule plan_has_row)

text \<open>
  A localized text that passes validation still passes after it is trimmed for storage,
  trimming it again changes nothing, and every required language keeps its text.
\<close>

theorem localized_trim_stable:
  assumes "validate_localized_map v required lo hi = Inr ()"
  shows "validate_localized_map (trim_localized v) required lo hi = Inr ()
         \<and> trim_localized (trim_localized v) = trim_localized v
         \<and> (\<forall>k \<in> set required. \<exists>s. json_get (trim_localized v) k = Some (JStr s) \<and> trim s = s)"
proof -
  let ?t = "\<lambda>x. JStr (trim (unwrap_or (as_str x) []))"
  from assms obtain m where v: "v = JObj m"
    and entries: "localized_entries lo hi m = Inr ()"
    and req: "list_all (\<lambda>k. map_of m k \<noteq> None) required"
    by (cases v) (auto simp: validate_localized_map_def split: if_splits)
  have t: "trim_localized v = JObj (map (\<lambda>(k, x). (k, ?t x)) m)"
    by (simp add: v trim_localized_def)
  have "localized_entries lo hi (map (\<lambda>(k, x). (k, ?t x)) m) = Inr ()"
    using entries unfolding localized_entries_iff by auto
  then have "validate_localized_map (trim_localized v) required lo hi = Inr ()"
    using req by (simp add: t validate_localized_map_def map_of_map_snd)
  moreover have "trim_localized (trim_localized v) = trim_localized v"
    unfolding t by (auto simp: trim_localized_def)
  moreover have "\<exists>s. json_get (trim_localized v) k = Some (JStr s) \<and> trim s = s"
    if "k \<in> set required" for k
    using req that by (auto simp: t json_get_def map_of_map_snd list_all_iff)
  ultimately show ?thesis by blast
qed

theorem localized_trim_stable_witness:
  "validate_plan_name (trim_localized (JObj [(''en'', JStr '' Pro ''), (''pt-BR'', JStr ''Pro'')])) = Inr ()"
proof -
  have v: "validate_localized_map (JObj [(''en'', JStr '' Pro ''), (''pt-BR'', JStr ''Pro'')])
      [''en'', ''pt-BR''] 1 60 = Inr ()"
    by code_simp
  from localized_trim_stable [OF v] show ?thesis by (simp add: validate_plan_name_def)
qed

text \<open>
  A promo code payload that passes both checks carries exactly the fields its kind
  needs, each within the bounds of the table, and a window that is not empty.
\<close>

theorem promo_payload_complete:
  assumes "validate_create_promo p" and "check_kind_fields p = Inr ()"
  shows "(cp_plan_code p \<noteq> None \<longleftrightarrow> cp_kind p = PlanGrant)
    \<and> (cp_duration_days p \<noteq> None \<longleftrightarrow> cp_kind p = PlanGrant \<or> cp_kind p = TrialExtension)
    \<and> (cp_credits p \<noteq> None \<longleftrightarrow> cp_kind p = Credits)
    \<and> (cp_discount_percent p \<noteq> None \<longleftrightarrow> cp_kind p = Discount)
    \<and> is_none_or (cp_duration_days p) (\<lambda>d. 1 \<le> d \<and> d \<le> 3650)
    \<and> is_none_or (cp_credits p) (\<lambda>c. 1 \<le> c \<and> c \<le> 100000)
    \<and> is_none_or (cp_discount_percent p) (\<lambda>d. 1 \<le> d \<and> d \<le> 100)
    \<and> (\<forall>start e. cp_starts_at p = Some start \<and> cp_expires_at p = Some e \<longrightarrow> start < e)"
proof -
  have bounds: "is_none_or (cp_duration_days p) (\<lambda>d. 1 \<le> d \<and> d \<le> 3650)"
    "is_none_or (cp_credits p) (\<lambda>c. 1 \<le> c \<and> c \<le> 100000)"
    "is_none_or (cp_discount_percent p) (\<lambda>d. 1 \<le> d \<and> d \<le> 100)"
    using assms(1) unfolding validate_create_promo_def between_def by blast+
  show ?thesis
    using check_kind_fields_kind [OF assms(2)] check_kind_fields_window [OF assms(2)] bounds
    by (cases "cp_kind p") simp_all
qed

theorem promo_payload_complete_witness:
  "cp_credits \<lparr>cp_code = Some ''WELCOME10'', cp_description = None, cp_kind = Credits,
     cp_plan_code = None, cp_duration_days = None, cp_credits = Some 10, cp_discount_percent = None,
     cp_max_redemptions = None, cp_new_users_only = False, cp_starts_at = None, cp_expires_at = None\<rparr>
   \<noteq> None"
proof -
  let ?p = "\<lparr>cp_code = Some ''WELCOME10'', cp_description = None, cp_kind = Credits,
     cp_plan_code = None, cp_duration_days = None, cp_credits = Some 10, cp_discount_percent = None,
     cp_max_redemptions = None, cp_new_users_only = False, cp_starts_at = None, cp_expires_at = None\<rparr>"
  have v: "validate_create_promo ?p" and k: "check_kind_fields ?p = Inr ()" by code_simp+
  from promo_payload_complete [OF v k] show ?thesis by simp
qed

text \<open>
  An account's own history shows only the listed keys of an event, whatever staff wrote
  in it, and shows each of those with its value.
\<close>

theorem owner_event_data_filtered:
  "json_get (owner_event_data data) k
     = (if k \<in> set OWNER_VISIBLE_EVENT_DATA then json_get data k else None)"
proof (cases data)
  case (JObj m)
  have "map_of (filter (\<lambda>(k, _). k \<in> set OWNER_VISIBLE_EVENT_DATA) m) k
      = (if k \<in> set OWNER_VISIBLE_EVENT_DATA then map_of m k else None)"
    by (induction m) auto
  then show ?thesis by (simp add: JObj owner_event_data_def json_get_def)
qed (simp_all add: owner_event_data_def json_get_def)

end
