(* ===== verification/Store.thy ===== *)
theory Store
  imports Plans
begin

text \<open>
  The database billing works on: the rows of the tables of
  \<^verbatim>\<open>src/src/database/migrations/0012_billing.sql\<close> with the constraints Postgres
  enforces on them, the few columns of \<^verbatim>\<open>users\<close> and \<^verbatim>\<open>platform_settings\<close>
  the code reads, and the writes every operation goes through.

  An operation maps a database to \<open>Inl error\<close>, which stands for the transaction rolled
  back, or to \<open>Inr\<close> of its result and the new database. Advisory locks and \<open>FOR UPDATE\<close>
  make the transactions on an account run one after another, so they are run whole here,
  and \<open>now\<close> is the clock of the one running. Row ids that nothing refers to are left out.
\<close>

section \<open>Rows\<close>

record user_row =
  us_role :: role
  us_email :: "string option"
  us_email_verified_at :: "time option"
  us_created_at :: time
  us_account_in_app :: bool

record sub_row =
  sb_plan_code :: string
  sb_status :: subscription_status
  sb_source :: subscription_source
  sb_started_at :: time
  sb_current_period_end :: "time option"
  sb_trial_ends_at :: "time option"
  sb_cancel_at_period_end :: bool
  sb_canceled_at :: "time option"
  sb_external_ref :: "string option"
  sb_provider_status :: "string option"
  sb_billing_interval :: "string option"
  sb_unit_amount_cents :: "int option"
  sb_currency :: "string option"
  sb_past_due_since :: "time option"
  sb_terms_version :: "string option"
  sb_terms_accepted_at :: "time option"
  sb_note :: "string option"
  sb_trial_reminder_sent_at :: "time option"
  sb_paid_trial_reminder_sent_at :: "time option"
  sb_renewal_reminder_period_end :: "time option"
  sb_created_at :: time
  sb_updated_at :: time
  sb_updated_by :: "uuid option"

record event_row =
  ev_user :: uuid
  ev_kind :: string
  ev_from_plan :: "string option"
  ev_to_plan :: "string option"
  ev_from_status :: "subscription_status option"
  ev_to_status :: "subscription_status option"
  ev_data :: json
  ev_actor :: "uuid option"
  ev_created_at :: time

record ledger_row =
  lg_user :: uuid
  lg_amount :: int
  lg_reason :: string
  lg_reference_id :: "uuid option"
  lg_note :: "string option"
  lg_actor :: "uuid option"
  lg_created_at :: time

record promo_row =
  pm_id :: uuid
  pm_code :: string
  pm_kind :: promo_kind
  pm_plan_code :: "string option"
  pm_duration_days :: "int option"
  pm_credits :: "int option"
  pm_discount_percent :: "int option"
  pm_max_redemptions :: "int option"
  pm_redemptions_count :: int
  pm_new_users_only :: bool
  pm_starts_at :: "time option"
  pm_expires_at :: "time option"
  pm_disabled_at :: "time option"
  pm_created_at :: time
  pm_updated_at :: time

record redemption_row =
  rd_promo :: uuid
  rd_user :: uuid
  rd_redeemed_at :: time
  rd_applied_at :: "time option"

record referral_row =
  rr_id :: uuid
  rr_referrer :: uuid
  rr_referred :: uuid
  rr_status :: referral_status
  rr_note :: "string option"
  rr_created_at :: time
  rr_rewarded_at :: "time option"
  rr_referred_rewarded_at :: "time option"

datatype notification_type = SubscriptionChanged | TrialEnding | CreditsGranted

record notification =
  nt_user :: uuid
  nt_type :: notification_type
  nt_data :: json

text \<open>
  The tables. Users are listed, since bulk statements range over them; subscriptions are
  keyed by their user. \<open>db_settings\<close> is what serde reads from \<open>platform_settings.billing\<close>.
\<close>

record db =
  db_users :: "(uuid \<times> user_row) list"
  db_plans :: "plan_row list"
  db_settings :: "billing_settings option"
  db_subs :: "uuid \<rightharpoonup> sub_row"
  db_events :: "event_row list"
  db_ledger :: "ledger_row list"
  db_promos :: "promo_row list"
  db_redemptions :: "redemption_row list"
  db_referrals :: "referral_row list"
  db_job_runs :: "string \<rightharpoonup> time"
  db_notices :: "notification list"

section \<open>Reads\<close>

definition user :: "db \<Rightarrow> uuid \<Rightarrow> user_row option" where
  "user db u = map_of (db_users db) u"

definition find_plan_row :: "db \<Rightarrow> string \<Rightarrow> plan_row option" where
  "find_plan_row db c = find (\<lambda>p. pr_code p = c) (db_plans db)"

definition plan_exists :: "db \<Rightarrow> string \<Rightarrow> bool" where
  "plan_exists db c = list_ex (\<lambda>p. pr_code p = c) (db_plans db)"

definition load_settings :: "db \<Rightarrow> billing_settings" where
  "load_settings db = unwrap_or (db_settings db) default_billing_settings"

definition sub_effective :: "time \<Rightarrow> sub_row \<Rightarrow> bool" where
  "sub_effective now s =
     subscription_in_effect (sb_status s) (sb_source s) (sb_current_period_end s)
       (sb_past_due_since s) now"

definition paid_and_effective :: "time \<Rightarrow> sub_row \<Rightarrow> bool" where
  "paid_and_effective now s = (sb_source s = Payment \<and> sub_effective now s)"

text \<open>The query of \<open>load_effective_plan\<close>, with the parameters it binds.\<close>

definition load_effective_plan :: "time \<Rightarrow> db \<Rightarrow> uuid \<Rightarrow> plan option" where
  "load_effective_plan now db u =
     (let late = now - days RENEWAL_GRACE_DAYS; retry = now - days PAYMENT_GRACE_DAYS in
      case db_subs db u of
        None \<Rightarrow> None
      | Some s \<Rightarrow>
          if sb_status s \<in> set [Trialing, Active, PastDue]
             \<and> (sb_status s \<noteq> PastDue \<or> is_none_or (sb_past_due_since s) (\<lambda>t. t > retry))
             \<and> (case sb_current_period_end s of
                   None \<Rightarrow> True
                 | Some e \<Rightarrow> e > now \<or> (sb_source s = Payment \<and> e > late))
          then map_option plan_of_row (find_plan_row db (sb_plan_code s))
          else None)"

section \<open>Constraints and writes\<close>

definition too_long :: api_error where
  "too_long = DatabaseError (Database ''22001'')"

definition check_violation :: api_error where
  "check_violation = DatabaseError (Database ''23514'')"

definition fk_violation :: api_error where
  "fk_violation = DatabaseError (Database ''23503'')"

definition varchar :: "nat \<Rightarrow> string \<Rightarrow> bool" where
  "varchar n s = (length s \<le> n)"

definition known_actor :: "db \<Rightarrow> uuid option \<Rightarrow> bool" where
  "known_actor db a = is_none_or a (\<lambda>i. user db i \<noteq> None)"

definition sub_row_ok :: "sub_row \<Rightarrow> bool" where
  "sub_row_ok s =
     (is_none_or (sb_billing_interval s) (\<lambda>i. i = ''monthly'' \<or> i = ''yearly'')
      \<and> is_none_or (sb_unit_amount_cents s) (\<lambda>a. 0 \<le> a))"

definition write_sub :: "uuid \<Rightarrow> sub_row \<Rightarrow> db \<Rightarrow> api_error + db" where
  "write_sub u s db =
     (if \<not> (varchar 32 (sb_plan_code s) \<and> is_none_or (sb_external_ref s) (varchar 255)
            \<and> is_none_or (sb_provider_status s) (varchar 30)
            \<and> is_none_or (sb_billing_interval s) (varchar 10)
            \<and> is_none_or (sb_currency s) (varchar 3) \<and> is_none_or (sb_terms_version s) (varchar 40)
            \<and> is_none_or (sb_note s) (varchar 500))
      then Inl too_long
      else if \<not> sub_row_ok s then Inl check_violation
      else if user db u = None \<or> \<not> plan_exists db (sb_plan_code s) \<or> \<not> known_actor db (sb_updated_by s)
      then Inl fk_violation
      else Inr (db\<lparr>db_subs := (db_subs db)(u \<mapsto> s)\<rparr>))"

definition write_event :: "event_row \<Rightarrow> db \<Rightarrow> api_error + db" where
  "write_event e db =
     (if \<not> (varchar 40 (ev_kind e) \<and> is_none_or (ev_from_plan e) (varchar 32)
            \<and> is_none_or (ev_to_plan e) (varchar 32))
      then Inl too_long
      else if user db (ev_user e) = None \<or> \<not> known_actor db (ev_actor e) then Inl fk_violation
      else Inr (db\<lparr>db_events := db_events db @ [e]\<rparr>))"

definition event_of ::
  "time \<Rightarrow> uuid \<Rightarrow> string \<Rightarrow> sub_row option \<Rightarrow> string option \<Rightarrow> subscription_status option
     \<Rightarrow> json \<Rightarrow> uuid option \<Rightarrow> event_row"
where
  "event_of now u kind from_sub to_plan to_status data actor =
     \<lparr>ev_user = u, ev_kind = kind, ev_from_plan = map_option sb_plan_code from_sub,
      ev_to_plan = to_plan, ev_from_status = map_option sb_status from_sub,
      ev_to_status = to_status, ev_data = data, ev_actor = actor, ev_created_at = now\<rparr>"

definition record_event ::
  "time \<Rightarrow> uuid \<Rightarrow> string \<Rightarrow> sub_row option \<Rightarrow> string option \<Rightarrow> subscription_status option
     \<Rightarrow> json \<Rightarrow> uuid option \<Rightarrow> db \<Rightarrow> api_error + db"
where
  "record_event now u kind from_sub to_plan to_status data actor db =
     write_event (event_of now u kind from_sub to_plan to_status data actor) db"

definition record_event_row ::
  "time \<Rightarrow> uuid \<Rightarrow> string \<Rightarrow> string option \<Rightarrow> json \<Rightarrow> uuid option \<Rightarrow> db \<Rightarrow> api_error + db"
where
  "record_event_row now u kind to_plan data actor db =
     record_event now u kind None to_plan None data actor db"

definition write_ledger :: "ledger_row \<Rightarrow> db \<Rightarrow> api_error + db" where
  "write_ledger e db =
     (if \<not> (varchar 40 (lg_reason e) \<and> is_none_or (lg_note e) (varchar 255)) then Inl too_long
      else if lg_amount e = 0 then Inl check_violation
      else if user db (lg_user e) = None \<or> \<not> known_actor db (lg_actor e) then Inl fk_violation
      else Inr (db\<lparr>db_ledger := db_ledger db @ [e]\<rparr>))"

text \<open>Notices are sent after the commit (\<open>notify_all\<close>).\<close>

definition notify_all :: "notification list \<Rightarrow> db \<Rightarrow> db" where
  "notify_all ns db = db\<lparr>db_notices := db_notices db @ ns\<rparr>"

section \<open>Notifications\<close>

fun source_key :: "subscription_source \<Rightarrow> string" where
  "source_key TrialSource = ''trial''"
| "source_key AdminSource = ''admin''"
| "source_key PromoCodeSource = ''promo_code''"
| "source_key CreditsSource = ''credits''"
| "source_key ReferralSource = ''referral''"
| "source_key Payment = ''payment''"

definition subscription_changed ::
  "uuid \<Rightarrow> string \<Rightarrow> string option \<Rightarrow> string option \<Rightarrow> time option \<Rightarrow> notification"
where
  "subscription_changed u kind plan_code status period_end =
     \<lparr>nt_user = u, nt_type = SubscriptionChanged,
      nt_data = JObj [(''kind'', JStr kind), (''plan_code'', json_of_opt JStr plan_code),
                      (''status'', json_of_opt JStr status),
                      (''current_period_end'', json_of_opt JTime period_end)]\<rparr>"

definition trial_ending :: "uuid \<Rightarrow> string \<Rightarrow> time \<Rightarrow> notification" where
  "trial_ending u plan_code ends_at =
     \<lparr>nt_user = u, nt_type = TrialEnding,
      nt_data = JObj [(''plan_code'', JStr plan_code), (''ends_at'', JTime ends_at)]\<rparr>"

definition credits_granted :: "uuid \<Rightarrow> int \<Rightarrow> string \<Rightarrow> notification" where
  "credits_granted u amount reason =
     \<lparr>nt_user = u, nt_type = CreditsGranted,
      nt_data = JObj [(''amount'', JInt amount), (''reason'', JStr reason)]\<rparr>"

definition billing_notice :: "uuid \<Rightarrow> string \<Rightarrow> string \<Rightarrow> json \<Rightarrow> notification" where
  "billing_notice u kind plan_code data =
     \<lparr>nt_user = u, nt_type = SubscriptionChanged,
      nt_data = json_extend (JObj [(''kind'', JStr kind), (''plan_code'', JStr plan_code)]) data\<rparr>"

section \<open>Lemmas\<close>

named_theorems store_writes "what a successful write did"

lemma write_sub_Inr [store_writes]:
  "write_sub u s db = Inr db' \<longleftrightarrow>
     varchar 32 (sb_plan_code s) \<and> is_none_or (sb_external_ref s) (varchar 255)
     \<and> is_none_or (sb_provider_status s) (varchar 30) \<and> is_none_or (sb_billing_interval s) (varchar 10)
     \<and> is_none_or (sb_currency s) (varchar 3) \<and> is_none_or (sb_terms_version s) (varchar 40)
     \<and> is_none_or (sb_note s) (varchar 500) \<and> sub_row_ok s
     \<and> user db u \<noteq> None \<and> plan_exists db (sb_plan_code s) \<and> known_actor db (sb_updated_by s)
     \<and> db' = db\<lparr>db_subs := (db_subs db)(u \<mapsto> s)\<rparr>"
  by (auto simp: write_sub_def)

lemma write_event_Inr [store_writes]:
  "write_event e db = Inr db' \<longleftrightarrow>
     varchar 40 (ev_kind e) \<and> is_none_or (ev_from_plan e) (varchar 32) \<and> is_none_or (ev_to_plan e) (varchar 32)
     \<and> user db (ev_user e) \<noteq> None \<and> known_actor db (ev_actor e)
     \<and> db' = db\<lparr>db_events := db_events db @ [e]\<rparr>"
  by (auto simp: write_event_def)

lemma write_ledger_Inr [store_writes]:
  "write_ledger e db = Inr db' \<longleftrightarrow>
     varchar 40 (lg_reason e) \<and> is_none_or (lg_note e) (varchar 255) \<and> lg_amount e \<noteq> 0
     \<and> user db (lg_user e) \<noteq> None \<and> known_actor db (lg_actor e)
     \<and> db' = db\<lparr>db_ledger := db_ledger db @ [e]\<rparr>"
  by (auto simp: write_ledger_def)

lemma event_of_simps [simp]:
  "ev_user (event_of now u kind f p st d a) = u"
  "ev_kind (event_of now u kind f p st d a) = kind"
  "ev_data (event_of now u kind f p st d a) = d"
  "ev_to_plan (event_of now u kind f p st d a) = p"
  "ev_to_status (event_of now u kind f p st d a) = st"
  "ev_actor (event_of now u kind f p st d a) = a"
  "ev_created_at (event_of now u kind f p st d a) = now"
  by (simp_all add: event_of_def)

lemma record_event_Inr:
  "record_event now u kind f p st d a db = Inr db' \<Longrightarrow>
     db' = db\<lparr>db_events := db_events db @ [event_of now u kind f p st d a]\<rparr>
     \<and> user db u \<noteq> None \<and> known_actor db a"
  by (auto simp: record_event_def write_event_Inr)

lemma plan_exists_find: "plan_exists db c \<longleftrightarrow> find_plan_row db c \<noteq> None"
  by (auto simp: plan_exists_def find_plan_row_def list_ex_iff find_None_iff)

lemma find_plan_row_code: "find_plan_row db c = Some p \<Longrightarrow> pr_code p = c"
  by (auto simp: find_plan_row_def find_Some_iff)

lemma load_effective_plan_eq:
  "load_effective_plan now db u =
     (case db_subs db u of
        None \<Rightarrow> None
      | Some s \<Rightarrow>
          if sub_effective now s then map_option plan_of_row (find_plan_row db (sb_plan_code s)) else None)"
proof (cases "db_subs db u")
  case (Some s)
  have "sub_effective now s \<longleftrightarrow>
      sb_status s \<in> set [Trialing, Active, PastDue]
      \<and> (sb_status s \<noteq> PastDue \<or> is_none_or (sb_past_due_since s) (\<lambda>t. t > now - days PAYMENT_GRACE_DAYS))
      \<and> (case sb_current_period_end s of None \<Rightarrow> True
         | Some e \<Rightarrow> e > now \<or> (sb_source s = Payment \<and> e > now - days RENEWAL_GRACE_DAYS))"
    unfolding sub_effective_def in_effect_iff retries_over_def period_over_def is_live_def
    by (cases "sb_past_due_since s"; cases "sb_current_period_end s"; cases "sb_source s = Payment")
      (auto simp: RENEWAL_GRACE_DAYS_def PAYMENT_GRACE_DAYS_def days_def)
  with Some show ?thesis by (simp add: load_effective_plan_def Let_def)
qed (simp add: load_effective_plan_def Let_def)

text \<open>
  C40. The database query that reads the plan in effect and the rule the code applies to a
  subscription it holds agree: the query answers a plan exactly when the subscription is in
  effect (and then the subscription's plan).
\<close>

theorem effective_plan_query_agrees:
  "load_effective_plan now db u =
     (case db_subs db u of
        None \<Rightarrow> None
      | Some s \<Rightarrow>
          if sub_effective now s then map_option plan_of_row (find_plan_row db (sb_plan_code s)) else None)"
  by (rule load_effective_plan_eq)

end
