(* ===== verification/Links.thy ===== *)
theory Links
  imports Errors
begin

text \<open>
  Reference links of songs and setlists (\<^verbatim>\<open>src/src/validations/link.rs\<close>,
  \<^verbatim>\<open>src/src/models/link.rs\<close>). The URL parser is a third-party crate: it is the argument
  \<open>parse\<close>, from a text to the parts of the URL the code reads.
\<close>

record url =
  url_scheme :: string
  url_username :: string
  url_password :: "string option"
  url_port :: "int option"
  url_domain :: "string option"
  url_text :: string

datatype link_provider =
  Youtube | Spotify | GoogleDrive | AppleMusic | Deezer | Soundcloud | Dropbox | Onedrive

record link_input =
  li_url :: string
  li_label :: "string option"

record stored_link =
  st_url :: string
  st_label :: "string option"

record link =
  lk_url :: string
  lk_label :: "string option"
  lk_provider :: link_provider

definition MAX_LINK_URL_LENGTH :: nat where "MAX_LINK_URL_LENGTH = 500"
definition MAX_LINK_LABEL_LENGTH :: nat where "MAX_LINK_LABEL_LENGTH = 60"
definition MAX_LINKS :: nat where "MAX_LINKS = 5"

definition PROVIDER_DOMAINS :: "(string \<times> link_provider) list" where
  "PROVIDER_DOMAINS =
     [(''youtube.com'', Youtube), (''youtu.be'', Youtube), (''music.youtube.com'', Youtube),
      (''open.spotify.com'', Spotify), (''spotify.link'', Spotify),
      (''drive.google.com'', GoogleDrive), (''docs.google.com'', GoogleDrive),
      (''music.apple.com'', AppleMusic), (''deezer.com'', Deezer), (''deezer.page.link'', Deezer),
      (''soundcloud.com'', Soundcloud), (''on.soundcloud.com'', Soundcloud),
      (''dropbox.com'', Dropbox), (''onedrive.live.com'', Onedrive), (''1drv.ms'', Onedrive)]"

definition invalid_link :: "string \<Rightarrow> api_error" where
  "invalid_link u =
     rule_with_meta 400 ''INVALID_LINK'' (JObj [(''url'', JStr (take MAX_LINK_URL_LENGTH u))])"

text \<open>The zero-width and bidirectional controls.\<close>

definition is_invisible :: "char \<Rightarrow> bool" where
  "is_invisible c \<longleftrightarrow>
     8203 \<le> code c \<and> code c \<le> 8207 \<or> 8234 \<le> code c \<and> code c \<le> 8238
     \<or> 8294 \<le> code c \<and> code c \<le> 8297 \<or> code c = 65279"

definition is_ascii :: "string \<Rightarrow> bool" where
  "is_ascii s \<longleftrightarrow> list_all (\<lambda>c. code c < 128) s"

section \<open>Hosts\<close>

definition host_matches :: "string \<Rightarrow> string \<Rightarrow> bool" where
  "host_matches host domain \<longleftrightarrow>
     host = domain
     \<or> is_some_and (strip_suffix domain host) (\<lambda>p. p \<noteq> [] \<and> last p = CHR ''.'' \<and> byte_len p > 1)"

definition provider_for_host :: "string \<Rightarrow> link_provider option" where
  "provider_for_host host =
     map_option snd (max_by_key (\<lambda>(domain, _). byte_len domain)
       (filter (\<lambda>(domain, _). host_matches host domain) PROVIDER_DOMAINS))"

section \<open>One link\<close>

definition validate_link_url :: "(string \<Rightarrow> url option) \<Rightarrow> string \<Rightarrow> api_error + (string \<times> link_provider)" where
  "validate_link_url parse raw =
     (let value = trim raw in
      if value = [] \<or> length value > MAX_LINK_URL_LENGTH
         \<or> list_ex (\<lambda>c. is_control c \<or> is_whitespace c) value
         \<or> \<not> is_ascii value \<and> list_ex is_invisible value
      then Inl (invalid_link value)
      else
     (case parse value of
        None \<Rightarrow> Inl (invalid_link value)
      | Some u \<Rightarrow>
          if url_scheme u \<noteq> ''https'' \<or> url_username u \<noteq> [] \<or> url_password u \<noteq> None
             \<or> url_port u \<noteq> None
          then Inl (invalid_link value)
          else
     (case url_domain u of
        None \<Rightarrow> Inl (invalid_link value)
      | Some d \<Rightarrow>
          let host = map to_ascii_lowercase (trim_end_matches (\<lambda>c. c = CHR ''.'') d) in
     (case provider_for_host host of
        None \<Rightarrow> Inl (invalid_link value)
      | Some provider \<Rightarrow>
          if byte_len (url_text u) > MAX_LINK_URL_LENGTH then Inl (invalid_link value)
          else Inr (url_text u, provider)))))"

definition provider_of :: "(string \<Rightarrow> url option) \<Rightarrow> string \<Rightarrow> link_provider option" where
  "provider_of parse u = (case validate_link_url parse u of Inl _ \<Rightarrow> None | Inr (_, p) \<Rightarrow> Some p)"

definition link_from_stored :: "(string \<Rightarrow> url option) \<Rightarrow> stored_link \<Rightarrow> link option" where
  "link_from_stored parse s =
     map_option (\<lambda>p. \<lparr>lk_url = st_url s, lk_label = st_label s, lk_provider = p\<rparr>)
       (provider_of parse (st_url s))"

definition to_links :: "(string \<Rightarrow> url option) \<Rightarrow> stored_link list \<Rightarrow> link list" where
  "to_links parse ss = List.map_filter (link_from_stored parse) ss"

definition links_to_stored :: "link list \<Rightarrow> stored_link list" where
  "links_to_stored ls = map (\<lambda>l. \<lparr>st_url = lk_url l, st_label = lk_label l\<rparr>) ls"

section \<open>The links of a payload\<close>

definition clean_label :: "string option \<Rightarrow> string option" where
  "clean_label label =
     Option.bind label (\<lambda>l.
       let l = trim (filter (\<lambda>c. \<not> is_control c \<and> \<not> is_invisible c) l)
       in if l = [] then None else Some (take MAX_LINK_LABEL_LENGTH l))"

fun normalize_go ::
  "(string \<Rightarrow> url option) \<Rightarrow> stored_link list \<Rightarrow> link_input list \<Rightarrow> api_error + stored_link list"
where
  "normalize_go parse out [] = Inr out"
| "normalize_go parse out (l # ls) =
     (if is_some_and (li_label l) (\<lambda>x. length x > MAX_LINK_LABEL_LENGTH) then Inl ValidationError
      else rbind (validate_link_url parse (li_url l)) (\<lambda>(u, _).
        if list_ex (\<lambda>s. st_url s = u) out then normalize_go parse out ls
        else normalize_go parse (out @ [\<lparr>st_url = u, st_label = clean_label (li_label l)\<rparr>]) ls))"

definition normalize_links :: "(string \<Rightarrow> url option) \<Rightarrow> link_input list \<Rightarrow> api_error + stored_link list" where
  "normalize_links parse input =
     rbind (normalize_go parse [] input) (\<lambda>out.
       if length out > MAX_LINKS then Inl ValidationError else Inr out)"

section \<open>Lemmas\<close>

lemma strip_suffix_Some: "strip_suffix p s = Some r \<longleftrightarrow> s = r @ p"
proof -
  have "strip_prefix (rev p) (rev s) = Some (rev r) \<longleftrightarrow> s = r @ p"
    by (metis rev_append rev_rev_ident strip_prefix_Some)
  then show ?thesis by (force simp: strip_suffix_def)
qed

lemma byte_len_Cons: "byte_len (c # s) = (if code c < 128 then 1 else 2) + byte_len s"
  by (simp add: byte_len_def)

lemma byte_len_ge: "length s \<le> byte_len s"
  by (induction s) (auto simp: byte_len_def)

lemma host_matches_iff:
  "host_matches host domain \<longleftrightarrow> host = domain \<or> (\<exists>sub. sub \<noteq> [] \<and> host = sub @ ''.'' @ domain)"
proof
  assume "host_matches host domain"
  then consider "host = domain"
    | p where "host = p @ domain" "p \<noteq> []" "last p = CHR ''.''" "byte_len p > 1"
    by (auto simp: host_matches_def strip_suffix_Some is_some_and_def split: option.splits)
  then show "host = domain \<or> (\<exists>sub. sub \<noteq> [] \<and> host = sub @ ''.'' @ domain)"
  proof cases
    case 2
    then have p: "p = butlast p @ ''.''" by (metis append_butlast_last_id)
    have "butlast p \<noteq> []"
    proof
      assume "butlast p = []"
      with p have "p = ''.''" by simp
      with 2 show False by (simp add: byte_len_def code_def)
    qed
    with 2 p show ?thesis by (metis append_assoc)
  qed simp
next
  assume "host = domain \<or> (\<exists>sub. sub \<noteq> [] \<and> host = sub @ ''.'' @ domain)"
  then show "host_matches host domain"
  proof
    assume "\<exists>sub. sub \<noteq> [] \<and> host = sub @ ''.'' @ domain"
    then obtain sub where s: "sub \<noteq> []" "host = (sub @ ''.'') @ domain" by auto
    from s(2) have "strip_suffix domain host = Some (sub @ ''.'')" by (simp only: strip_suffix_Some)
    moreover have "length (sub @ ''.'') > 1" using s(1) by (cases sub) auto
    then have "byte_len (sub @ ''.'') > 1" using byte_len_ge [of "sub @ ''.''"] by linarith
    ultimately show ?thesis by (simp add: host_matches_def)
  qed (simp add: host_matches_def)
qed

lemma validate_link_url_Inr:
  "validate_link_url parse raw = Inr (n, p) \<longleftrightarrow>
     (let value = trim raw in
      value \<noteq> [] \<and> length value \<le> MAX_LINK_URL_LENGTH
      \<and> \<not> list_ex (\<lambda>c. is_control c \<or> is_whitespace c) value
      \<and> (is_ascii value \<or> \<not> list_ex is_invisible value)
      \<and> (\<exists>u d. parse value = Some u \<and> url_scheme u = ''https'' \<and> url_username u = []
           \<and> url_password u = None \<and> url_port u = None \<and> url_domain u = Some d
           \<and> provider_for_host (map to_ascii_lowercase (trim_end_matches (\<lambda>c. c = CHR ''.'') d)) = Some p
           \<and> byte_len (url_text u) \<le> MAX_LINK_URL_LENGTH \<and> n = url_text u))"
  by (auto simp: validate_link_url_def Let_def split: option.splits if_splits)

lemma clean_label_short:
  assumes "is_none_or l (\<lambda>x. length x \<le> MAX_LINK_LABEL_LENGTH)"
  shows "clean_label (clean_label l) = clean_label l"
    and "is_none_or (clean_label l) (\<lambda>x. length x \<le> MAX_LINK_LABEL_LENGTH)"
proof -
  have sub: "set (trim s) \<subseteq> set s" for s
    unfolding trim_def trim_matches_def
    using trim_end_matches_subset trim_start_matches_subset by blast
  have len: "length (trim s) \<le> length s" for s
    unfolding trim_def trim_matches_def trim_end_matches_def trim_start_matches_def
    by (metis length_dropWhile_le length_rev order_trans)
  let ?keep = "\<lambda>c. \<not> is_control c \<and> \<not> is_invisible c"
  have "clean_label (clean_label l) = clean_label l
    \<and> is_none_or (clean_label l) (\<lambda>x. length x \<le> MAX_LINK_LABEL_LENGTH)"
  proof (cases l)
    case None
    then show ?thesis by (simp add: clean_label_def)
  next
    case (Some x)
    let ?y = "trim (filter ?keep x)"
    have y: "length ?y \<le> MAX_LINK_LABEL_LENGTH"
      using assms Some len [of "filter ?keep x"] by (auto intro: order_trans [OF _ length_filter_le] order_trans)
    have "filter ?keep ?y = ?y" using sub [of "filter ?keep x"] by (auto simp: filter_id_conv)
    then show ?thesis using Some y by (simp add: clean_label_def Let_def)
  qed
  then show "clean_label (clean_label l) = clean_label l"
    and "is_none_or (clean_label l) (\<lambda>x. length x \<le> MAX_LINK_LABEL_LENGTH)" by auto
qed

text \<open>What the loop has collected: distinct links, each accepted on its own.\<close>

definition stored_ok :: "(string \<Rightarrow> url option) \<Rightarrow> stored_link \<Rightarrow> bool" where
  "stored_ok parse s \<longleftrightarrow>
     (\<exists>raw p. validate_link_url parse raw = Inr (st_url s, p))
     \<and> clean_label (st_label s) = st_label s
     \<and> is_none_or (st_label s) (\<lambda>x. length x \<le> MAX_LINK_LABEL_LENGTH)"

lemma normalize_go_ok:
  assumes "normalize_go parse out ls = Inr out'" and "distinct (map st_url out)"
    and "\<forall>s \<in> set out. stored_ok parse s"
  shows "distinct (map st_url out') \<and> (\<forall>s \<in> set out'. stored_ok parse s)"
  using assms
proof (induction ls arbitrary: out)
  case (Cons l ls)
  then obtain u p where lab: "is_none_or (li_label l) (\<lambda>x. length x \<le> MAX_LINK_LABEL_LENGTH)"
    and v: "validate_link_url parse (li_url l) = Inr (u, p)"
    by (auto simp: is_some_and_def is_none_or_def split: if_splits option.splits)
  let ?new = "\<lparr>st_url = u, st_label = clean_label (li_label l)\<rparr>"
  have new: "stored_ok parse ?new"
    using v clean_label_short [OF lab] by (auto simp: stored_ok_def)
  show ?case
  proof (cases "u \<in> st_url ` set out")
    case True
    with Cons.prems v have "normalize_go parse out ls = Inr out'" by (auto simp: list_ex_iff split: if_splits)
    from Cons.IH [OF this Cons.prems(2,3)] show ?thesis .
  next
    case False
    with Cons.prems v have rest: "normalize_go parse (out @ [?new]) ls = Inr out'"
      by (auto simp: list_ex_iff split: if_splits)
    have "distinct (map st_url (out @ [?new]))" using Cons.prems(2) False by auto
    moreover have "\<forall>s \<in> set (out @ [?new]). stored_ok parse s" using Cons.prems(3) new by simp
    ultimately show ?thesis using Cons.IH [OF rest] by blast
  qed
qed simp

lemma normalize_links_Inr:
  assumes "normalize_links parse input = Inr out"
  shows "distinct (map st_url out) \<and> (\<forall>s \<in> set out. stored_ok parse s) \<and> length out \<le> MAX_LINKS"
  using assms normalize_go_ok [of parse "[]" input out] by (auto simp: normalize_links_def split: if_splits)

text \<open>Normalizing what is already normal: every link is accepted as it stands.\<close>

lemma normalize_go_again:
  assumes "\<forall>s \<in> set ss. \<exists>p. validate_link_url parse (st_url s) = Inr (st_url s, p)"
    and "\<forall>s \<in> set ss. stored_ok parse s" and "distinct (map st_url (out @ ss))"
  shows "normalize_go parse out (map (\<lambda>s. \<lparr>li_url = st_url s, li_label = st_label s\<rparr>) ss) = Inr (out @ ss)"
  using assms
proof (induction ss arbitrary: out)
  case (Cons s ss)
  then obtain p where v: "validate_link_url parse (st_url s) = Inr (st_url s, p)" by auto
  have s: "\<not> is_some_and (st_label s) (\<lambda>x. length x > MAX_LINK_LABEL_LENGTH)"
    "clean_label (st_label s) = st_label s"
    using Cons.prems(2) by (auto simp: stored_ok_def is_some_and_def is_none_or_def split: option.splits)
  have "\<not> list_ex (\<lambda>x. st_url x = st_url s) out" using Cons.prems(3) by (simp add: list_ex_iff) (metis image_eqI)
  then have "normalize_go parse out (map (\<lambda>s. \<lparr>li_url = st_url s, li_label = st_label s\<rparr>) (s # ss))
      = normalize_go parse (out @ [s]) (map (\<lambda>s. \<lparr>li_url = st_url s, li_label = st_label s\<rparr>) ss)"
    using v s by (cases s) simp
  also have "\<dots> = Inr ((out @ [s]) @ ss)" using Cons.prems by (intro Cons.IH) auto
  finally show ?case by simp
qed simp

section \<open>Claims\<close>

text \<open>
  C27. A link never leads away from the accepted providers: every link kept from a payload is
  an \<open>https\<close> URL without credentials or port whose host is a provider's domain or a
  subdomain of one, never a lookalike that merely ends or starts with it; at most five are
  kept and no URL twice.
\<close>

theorem links_stay_on_providers:
  assumes "normalize_links parse input = Inr out"
  shows "length out \<le> 5 \<and> distinct (map st_url out) \<and>
    (\<forall>s \<in> set out. \<exists>raw u d domain p. parse raw = Some u \<and> st_url s = url_text u \<and> length (st_url s) \<le> 500
       \<and> url_scheme u = ''https'' \<and> url_username u = [] \<and> url_password u = None \<and> url_port u = None
       \<and> url_domain u = Some d \<and> (domain, p) \<in> set PROVIDER_DOMAINS
       \<and> (let host = map to_ascii_lowercase (trim_end_matches (\<lambda>c. c = CHR ''.'') d) in
          host = domain \<or> (\<exists>sub. sub \<noteq> [] \<and> host = sub @ ''.'' @ domain)))"
proof -
  note n = normalize_links_Inr [OF assms]
  have "\<exists>raw u d domain p. parse raw = Some u \<and> st_url s = url_text u \<and> length (st_url s) \<le> 500
       \<and> url_scheme u = ''https'' \<and> url_username u = [] \<and> url_password u = None \<and> url_port u = None
       \<and> url_domain u = Some d \<and> (domain, p) \<in> set PROVIDER_DOMAINS
       \<and> (let host = map to_ascii_lowercase (trim_end_matches (\<lambda>c. c = CHR ''.'') d) in
          host = domain \<or> (\<exists>sub. sub \<noteq> [] \<and> host = sub @ ''.'' @ domain))" if "s \<in> set out" for s
  proof -
    from n that obtain raw p where "validate_link_url parse raw = Inr (st_url s, p)"
      by (auto simp: stored_ok_def)
    then obtain u d where u: "parse (trim raw) = Some u" "url_scheme u = ''https''" "url_username u = []"
        "url_password u = None" "url_port u = None" "url_domain u = Some d"
        "byte_len (url_text u) \<le> MAX_LINK_URL_LENGTH" "st_url s = url_text u"
      and h: "provider_for_host (map to_ascii_lowercase (trim_end_matches (\<lambda>c. c = CHR ''.'') d)) = Some p"
      by (auto simp: validate_link_url_Inr Let_def)
    from h obtain domain where
      "max_by_key (\<lambda>(domain, _). byte_len domain)
         (filter (\<lambda>(domain, _).
            host_matches (map to_ascii_lowercase (trim_end_matches (\<lambda>c. c = CHR ''.'') d)) domain) PROVIDER_DOMAINS)
       = Some (domain, p)"
      by (auto simp: provider_for_host_def)
    from max_by_key_in [OF this] have "(domain, p) \<in> set PROVIDER_DOMAINS"
      "host_matches (map to_ascii_lowercase (trim_end_matches (\<lambda>c. c = CHR ''.'') d)) domain"
      by auto
    moreover have "length (st_url s) \<le> 500"
      using u(7,8) byte_len_ge [of "url_text u"] by (simp add: MAX_LINK_URL_LENGTH_def)
    ultimately show ?thesis unfolding Let_def host_matches_iff using u by blast
  qed
  with n show ?thesis by (simp add: MAX_LINKS_def)
qed

text \<open>A parser that knows one video, for the witnesses.\<close>

definition video_url :: url where
  "video_url = \<lparr>url_scheme = ''https'', url_username = [], url_password = None, url_port = None,
                url_domain = Some ''www.YouTube.com.'', url_text = ''https://www.youtube.com/watch''\<rparr>"

definition video_parser :: "string \<Rightarrow> url option" where
  "video_parser s =
     (if s \<in> set [''https://www.YouTube.com./watch'', ''https://www.youtube.com/watch''] then Some video_url else None)"

definition two_links :: "link_input list" where
  "two_links = [\<lparr>li_url = '' https://www.YouTube.com./watch'', li_label = Some '' Live ''\<rparr>,
                \<lparr>li_url = ''https://www.youtube.com/watch'', li_label = None\<rparr>]"

lemma char_of_letters [simp]: "char_of (121 :: nat) = CHR ''y''" "char_of (116 :: nat) = CHR ''t''"
  by code_simp+

lemma two_links_normal:
  "normalize_links video_parser two_links =
     Inr [\<lparr>st_url = ''https://www.youtube.com/watch'', st_label = Some ''Live''\<rparr>]"
  by (simp add: two_links_def normalize_links_def validate_link_url_def Let_def video_parser_def video_url_def
      trim_def trim_matches_def trim_start_matches_def trim_end_matches_def is_whitespace_def is_control_def
      code_def provider_for_host_def PROVIDER_DOMAINS_def host_matches_def strip_suffix_def is_ascii_def
      to_ascii_lowercase_def is_ascii_uppercase_def byte_len_def clean_label_def is_invisible_def
      MAX_LINK_URL_LENGTH_def MAX_LINK_LABEL_LENGTH_def MAX_LINKS_def)

theorem links_stay_on_providers_witness:
  "\<exists>raw u. video_parser raw = Some u \<and> url_text u = ''https://www.youtube.com/watch'' \<and> url_scheme u = ''https''"
proof -
  have "\<lparr>st_url = ''https://www.youtube.com/watch'', st_label = Some ''Live''\<rparr>
    \<in> set [\<lparr>st_url = ''https://www.youtube.com/watch'', st_label = Some ''Live''\<rparr>]" by simp
  with links_stay_on_providers [OF two_links_normal] obtain raw u where
    "video_parser raw = Some u" "''https://www.youtube.com/watch'' = url_text u" "url_scheme u = ''https''"
    by (metis stored_link.select_convs(1))
  then show ?thesis by metis
qed

text \<open>
  Stored links are stable: given a URL parser that parses what it serialized back to the
  same URL and serializes to printable ASCII, normalizing the stored links again gives
  exactly the stored links, and reading them for an answer and writing them back loses none.
\<close>

theorem stored_links_stable:
  assumes "normalize_links parse input = Inr out"
    and "\<And>x u. parse x = Some u \<Longrightarrow> parse (url_text u) = Some u"
    and "\<And>x u c. parse x = Some u \<Longrightarrow> c \<in> set (url_text u) \<Longrightarrow> 33 \<le> code c \<and> code c \<le> 126"
    and "\<And>x u. parse x = Some u \<Longrightarrow> url_text u \<noteq> []"
  shows "normalize_links parse (map (\<lambda>s. \<lparr>li_url = st_url s, li_label = st_label s\<rparr>) out) = Inr out
    \<and> links_to_stored (to_links parse out) = out"
proof -
  note n = normalize_links_Inr [OF assms(1)]
  have again: "\<exists>p. validate_link_url parse (st_url s) = Inr (st_url s, p)" if s: "s \<in> set out" for s
  proof -
    from n s obtain raw p where "validate_link_url parse raw = Inr (st_url s, p)"
      by (auto simp: stored_ok_def)
    then obtain u d where u: "parse (trim raw) = Some u" "url_scheme u = ''https''" "url_username u = []"
        "url_password u = None" "url_port u = None" "url_domain u = Some d"
        "byte_len (url_text u) \<le> MAX_LINK_URL_LENGTH" "st_url s = url_text u"
        "provider_for_host (map to_ascii_lowercase (trim_end_matches (\<lambda>c. c = CHR ''.'') d)) = Some p"
      by (auto simp: validate_link_url_Inr Let_def)
    have plain: "\<not> is_control c \<and> \<not> is_whitespace c \<and> code c < 128" if "c \<in> set (st_url s)" for c
      using assms(3) [OF u(1), of c] that u(8) by (auto simp: is_control_def is_whitespace_def)
    have "st_url s \<noteq> []" using assms(4) [OF u(1)] u(8) by simp
    then have t: "trim (st_url s) = st_url s"
      using plain by (auto simp: trim_def trim_matches_def trim_start_matches_def trim_end_matches_eq dropWhile_eq_self_iff)
    have "length (st_url s) \<le> MAX_LINK_URL_LENGTH"
      using u(7,8) byte_len_ge [of "url_text u"] by simp
    then show ?thesis
      unfolding validate_link_url_Inr Let_def t
      using \<open>st_url s \<noteq> []\<close> plain u assms(2) [OF u(1)]
      by (auto simp: list_ex_iff is_ascii_def list_all_iff)
  qed
  then have "normalize_go parse [] (map (\<lambda>s. \<lparr>li_url = st_url s, li_label = st_label s\<rparr>) out) = Inr out"
    using normalize_go_again [of out parse "[]"] n by simp
  moreover have "links_to_stored (to_links parse ss) = ss" if "set ss \<subseteq> set out" for ss
    using that
  proof (induction ss)
    case (Cons s ss)
    with again obtain p where "validate_link_url parse (st_url s) = Inr (st_url s, p)" by auto
    with Cons show ?case
      by (simp add: links_to_stored_def to_links_def link_from_stored_def provider_of_def List.map_filter_simps)
  qed (simp add: links_to_stored_def to_links_def List.map_filter_simps)
  ultimately show ?thesis using n by (simp add: normalize_links_def)
qed

theorem stored_links_stable_witness:
  "normalize_links video_parser [\<lparr>li_url = ''https://www.youtube.com/watch'', li_label = Some ''Live''\<rparr>]
     = Inr [\<lparr>st_url = ''https://www.youtube.com/watch'', st_label = Some ''Live''\<rparr>]"
proof -
  have p: "x = video_url" if "video_parser y = Some x" for x y
    using that by (simp add: video_parser_def split: if_splits)
  have "list_all (\<lambda>c. 33 \<le> code c \<and> code c \<le> 126) (url_text video_url)" by code_simp
  then have printable: "\<And>c. c \<in> set (url_text video_url) \<Longrightarrow> 33 \<le> code c \<and> code c \<le> 126"
    by (simp add: list_all_iff)
  have "video_parser (url_text video_url) = Some video_url" "url_text video_url \<noteq> []" by code_simp+
  with stored_links_stable [OF two_links_normal] p printable show ?thesis by fastforce
qed

end
