(* ===== verification/Content.thy ===== *)
theory Content
  imports Store Links
begin

text \<open>
  The content tables: songs, artists, setlists with their linked songs, held songs and
  markers, gigs, tours, bands with their members and permissions, collaborators and quota
  settings, from the migrations \<^verbatim>\<open>0003\<close> to \<^verbatim>\<open>0007\<close>, \<^verbatim>\<open>0017\<close> and \<^verbatim>\<open>0018\<close> under
  \<^verbatim>\<open>src/src/database/migrations\<close>. Each row has the columns the modelled code reads or
  writes. A song's columns that are only ever copied along (tempo, genre, links and so on)
  are one field, its chart.
\<close>

section \<open>Enumerations\<close>

datatype band_role = Member | BandModerator | BandAdmin | Owner

fun band_rank :: "band_role \<Rightarrow> nat" where
  "band_rank Member = 0"
| "band_rank BandModerator = 1"
| "band_rank BandAdmin = 2"
| "band_rank Owner = 3"

instantiation band_role :: linorder
begin

definition less_eq_band_role :: "band_role \<Rightarrow> band_role \<Rightarrow> bool" where
  "less_eq_band_role a b \<longleftrightarrow> band_rank a \<le> band_rank b"

definition less_band_role :: "band_role \<Rightarrow> band_role \<Rightarrow> bool" where
  "less_band_role a b \<longleftrightarrow> band_rank a < band_rank b"

instance
proof
  fix a b c :: band_role
  show "a < b \<longleftrightarrow> a \<le> b \<and> \<not> b \<le> a" "a \<le> a" "a \<le> b \<or> b \<le> a"
    by (auto simp: less_eq_band_role_def less_band_role_def)
  show "a \<le> b \<Longrightarrow> b \<le> c \<Longrightarrow> a \<le> c" by (simp add: less_eq_band_role_def)
  show "a \<le> b \<Longrightarrow> b \<le> a \<Longrightarrow> a = b" by (cases a; cases b) (simp_all add: less_eq_band_role_def)
qed

end

definition satisfies :: "band_role \<Rightarrow> band_role \<Rightarrow> bool" where
  "satisfies r least \<longleftrightarrow> least \<le> r"

datatype collaborator_role = Viewer | Editor | Manager

fun collaborator_rank :: "collaborator_role \<Rightarrow> nat" where
  "collaborator_rank Viewer = 0"
| "collaborator_rank Editor = 1"
| "collaborator_rank Manager = 2"

instantiation collaborator_role :: linorder
begin

definition less_eq_collaborator_role :: "collaborator_role \<Rightarrow> collaborator_role \<Rightarrow> bool" where
  "less_eq_collaborator_role a b \<longleftrightarrow> collaborator_rank a \<le> collaborator_rank b"

definition less_collaborator_role :: "collaborator_role \<Rightarrow> collaborator_role \<Rightarrow> bool" where
  "less_collaborator_role a b \<longleftrightarrow> collaborator_rank a < collaborator_rank b"

instance
proof
  fix a b c :: collaborator_role
  show "a < b \<longleftrightarrow> a \<le> b \<and> \<not> b \<le> a" "a \<le> a" "a \<le> b \<or> b \<le> a"
    by (auto simp: less_eq_collaborator_role_def less_collaborator_role_def)
  show "a \<le> b \<Longrightarrow> b \<le> c \<Longrightarrow> a \<le> c" by (simp add: less_eq_collaborator_role_def)
  show "a \<le> b \<Longrightarrow> b \<le> a \<Longrightarrow> a = b"
    by (cases a; cases b) (simp_all add: less_eq_collaborator_role_def)
qed

end

datatype band_permission = ManageSetlists | ManageSongs | ExportPdfPermission

datatype marker_type = Block | Break

section \<open>Rows\<close>

record artist_row =
  ar_id :: uuid
  ar_name :: string
  ar_user :: uuid
  ar_band :: "uuid option"
  ar_created_at :: time
  ar_deleted_at :: "time option"

record song_row =
  sg_id :: uuid
  sg_title :: string
  sg_artist :: uuid
  sg_user :: uuid
  sg_band :: "uuid option"
  sg_version_label :: "string option"
  sg_version_of :: "uuid option"
  sg_chart :: json
  sg_tags :: "string list"
  sg_deleted_at :: "time option"

record setlist_row =
  sl_id :: uuid
  sl_title :: string
  sl_description :: "string option"
  sl_links :: "stored_link list"
  sl_user :: uuid
  sl_band :: "uuid option"
  sl_is_repertoire :: bool
  sl_share_token :: "string option"
  sl_share_locked_at :: "time option"
  sl_created_at :: time
  sl_updated_at :: time
  sl_updated_by :: "uuid option"
  sl_deleted_at :: "time option"

record linked_row =
  ls_setlist :: uuid
  ls_song :: uuid
  ls_position :: int
  ls_transpose :: int
  ls_added_by :: "uuid option"
  ls_added_at :: "time option"

record held_row =
  hs_id :: uuid
  hs_setlist :: uuid
  hs_position :: int
  hs_transpose :: int
  hs_added_by :: "uuid option"
  hs_added_at :: "time option"
  hs_title :: string
  hs_artist_name :: string
  hs_version_label :: "string option"
  hs_chart :: json
  hs_tags :: "string list"

record marker_row =
  mk_id :: uuid
  mk_setlist :: uuid
  mk_type :: marker_type
  mk_label :: "string option"
  mk_duration_minutes :: "int option"
  mk_position :: int
  mk_created_at :: time

record gig_row =
  gg_id :: uuid
  gg_user :: uuid
  gg_band :: "uuid option"
  gg_setlist :: "uuid option"
  gg_share_token :: "string option"
  gg_deleted_at :: "time option"

record tour_row =
  tr_id :: uuid
  tr_user :: uuid
  tr_band :: "uuid option"
  tr_deleted_at :: "time option"

record member_row =
  bm_band :: uuid
  bm_user :: uuid
  bm_role :: band_role

record permission_row =
  bp_band :: uuid
  bp_role :: band_role
  bp_permission :: band_permission
  bp_allowed :: bool

record collaborator_row =
  co_setlist :: uuid
  co_user :: uuid
  co_role :: collaborator_role
  co_accepted_at :: "time option"

record quota_row =
  qt_overrides :: quota_overrides
  qt_unlimited :: bool

text \<open>
  The whole database: the billing tables and the content tables. \<open>pt_quota_defaults\<close> is what
  serde reads from \<^verbatim>\<open>platform_settings.quota_defaults\<close>.
\<close>

record platform =
  pt_db :: db
  pt_quota_defaults :: "quota_limits option"
  pt_quotas :: "uuid \<rightharpoonup> quota_row"
  pt_artists :: "artist_row list"
  pt_songs :: "song_row list"
  pt_setlists :: "setlist_row list"
  pt_linked :: "linked_row list"
  pt_held :: "held_row list"
  pt_markers :: "marker_row list"
  pt_gigs :: "gig_row list"
  pt_tours :: "tour_row list"
  pt_members :: "member_row list"
  pt_permissions :: "permission_row list"
  pt_collaborators :: "collaborator_row list"

section \<open>Reads shared by the components\<close>

definition find_setlist :: "platform \<Rightarrow> uuid \<Rightarrow> setlist_row option" where
  "find_setlist pt i = find (\<lambda>s. sl_id s = i) (pt_setlists pt)"

text \<open>\<open>... WHERE id = $1 AND deleted_at IS NULL\<close>.\<close>

definition live_setlist :: "platform \<Rightarrow> uuid \<Rightarrow> setlist_row option" where
  "live_setlist pt i = opt_filter (\<lambda>s. sl_deleted_at s = None) (find_setlist pt i)"

definition find_song :: "platform \<Rightarrow> uuid \<Rightarrow> song_row option" where
  "find_song pt i = find (\<lambda>s. sg_id s = i) (pt_songs pt)"

definition band_owner :: "platform \<Rightarrow> uuid \<Rightarrow> uuid option" where
  "band_owner pt b = map_option bm_user (find (\<lambda>m. bm_band m = b \<and> bm_role m = Owner) (pt_members pt))"

definition band_role_of :: "platform \<Rightarrow> uuid \<Rightarrow> uuid \<Rightarrow> band_role option" where
  "band_role_of pt b u = map_option bm_role (find (\<lambda>m. bm_band m = b \<and> bm_user m = u) (pt_members pt))"

lemma find_setlist_Some: "find_setlist pt i = Some s \<Longrightarrow> s \<in> set (pt_setlists pt) \<and> sl_id s = i"
  by (auto simp: find_setlist_def find_Some_iff)

lemma live_setlist_Some:
  "live_setlist pt i = Some s \<Longrightarrow> s \<in> set (pt_setlists pt) \<and> sl_id s = i \<and> sl_deleted_at s = None"
  by (auto simp: live_setlist_def opt_filter_eq_Some dest: find_setlist_Some)

end
