(* ===== verification/Entitlements.thy ===== *)
theory Entitlements
  imports Content "HOL-Library.List_Lexorder"
begin

text \<open>
  What an account may use right now, from \<^verbatim>\<open>src/src/services/entitlements.rs\<close>: its access
  tier, its features, the gate every feature goes through, who may keep content public, and
  the revocation of public links (\<open>revoke_shares_if_lost\<close> of
  \<^verbatim>\<open>src/src/services/billing.rs\<close>).
\<close>

definition FREE_FEATURES :: "feature list" where
  "FREE_FEATURES = [CreateBands, SongSuggestions, OfflineMode]"

definition UNVERIFIED_FEATURES :: "feature list" where
  "UNVERIFIED_FEATURES = [OfflineMode]"

record entitlements =
  en_enforced :: bool
  en_is_staff :: bool
  en_email_verified :: bool
  en_plan :: "plan option"

definition tier :: "entitlements \<Rightarrow> access_tier" where
  "tier e = resolve_tier (en_is_staff e) (en_enforced e) (en_plan e \<noteq> None) (en_email_verified e)"

definition has :: "entitlements \<Rightarrow> feature \<Rightarrow> bool" where
  "has e f =
     (case tier e of
        Staff \<Rightarrow> True
      | Beta \<Rightarrow> True
      | PlanTier \<Rightarrow> is_some_and (en_plan e) (\<lambda>p. plan_has p f)
      | Unverified \<Rightarrow> f \<in> set UNVERIFIED_FEATURES
      | Free \<Rightarrow> f \<in> set FREE_FEATURES)"

text \<open>The answer's \<open>BTreeMap\<close>, as the pairs it is collected from.\<close>

definition features :: "entitlements \<Rightarrow> (string \<times> bool) list" where
  "features e = map (\<lambda>f. (feature_key f, has e f)) ALL_FEATURES"

type_synonym account_facts = "(role \<times> bool) option \<times> plan option"

definition from_parts :: "bool \<Rightarrow> account_facts \<Rightarrow> entitlements" where
  "from_parts enforced facts =
     (case facts of (row, p) \<Rightarrow>
        \<lparr>en_enforced = enforced, en_is_staff = is_some_and row (\<lambda>(r, _). is_staff r),
         en_email_verified = is_some_and row (\<lambda>(_, verified). verified), en_plan = p\<rparr>)"

definition account_facts_of :: "time \<Rightarrow> db \<Rightarrow> uuid \<Rightarrow> account_facts" where
  "account_facts_of now db u =
     (map_option (\<lambda>r. (us_role r, us_email_verified_at r \<noteq> None \<and> us_email r \<noteq> None)) (user db u),
      load_effective_plan now db u)"

definition entitlements_under :: "time \<Rightarrow> db \<Rightarrow> uuid \<Rightarrow> bool \<Rightarrow> entitlements" where
  "entitlements_under now db u enforced = from_parts enforced (account_facts_of now db u)"

definition entitlements_of :: "time \<Rightarrow> db \<Rightarrow> uuid \<Rightarrow> entitlements" where
  "entitlements_of now db u =
     from_parts (bs_enforced (load_settings db)) (account_facts_of now db u)"

definition has_feature :: "time \<Rightarrow> db \<Rightarrow> uuid \<Rightarrow> feature \<Rightarrow> bool" where
  "has_feature now db u f = has (entitlements_of now db u) f"

definition owner_can_share :: "time \<Rightarrow> db \<Rightarrow> uuid \<Rightarrow> bool" where
  "owner_can_share now db u = has_feature now db u PublicSharing"

definition shared_content_visible :: "time \<Rightarrow> platform \<Rightarrow> uuid \<Rightarrow> uuid option \<Rightarrow> bool" where
  "shared_content_visible now pt creator band =
     (let db = pt_db pt in
      if \<not> bs_enforced (load_settings db) then True
      else if has (entitlements_under now db creator True) PublicSharing then True
      else case band of
        None \<Rightarrow> False
      | Some b \<Rightarrow>
          (case band_owner pt b of
             Some owner \<Rightarrow>
               if owner \<noteq> creator then has (entitlements_under now db owner True) PublicSharing else False
           | None \<Rightarrow> False))"

text \<open>
  \<open>list_plans\<close>: by the order, then by the code (bytewise). \<open>min_by_key\<close> keeps the first of
  equal keys.
\<close>

definition list_plans :: "db \<Rightarrow> bool \<Rightarrow> plan list" where
  "list_plans db public_only =
     map plan_of_row
       (sort_key pr_sort_order (sort_key (map code \<circ> pr_code)
          (filter (\<lambda>r. \<not> public_only \<or> pr_is_public r) (db_plans db))))"

fun min_by_key :: "('a \<Rightarrow> int \<times> int) \<Rightarrow> 'a list \<Rightarrow> 'a option" where
  "min_by_key key [] = None"
| "min_by_key key (x # xs) =
     (case min_by_key key xs of
        None \<Rightarrow> Some x
      | Some y \<Rightarrow>
          if fst (key y) < fst (key x) \<or> fst (key y) = fst (key x) \<and> snd (key y) < snd (key x)
          then Some y else Some x)"

definition cheapest_plan_with :: "db \<Rightarrow> feature \<Rightarrow> string option" where
  "cheapest_plan_with db f =
     map_option pl_code
       (min_by_key (\<lambda>p. (pl_price_monthly_cents p, pl_sort_order p))
          (filter (\<lambda>p. plan_has p f) (list_plans db True)))"

text \<open>The gate (\<open>Entitlements::require\<close>, \<open>ensure_feature\<close>).\<close>

definition require_feature :: "db \<Rightarrow> entitlements \<Rightarrow> feature \<Rightarrow> api_error + unit" where
  "require_feature db e f =
     (if has e f then Inr ()
      else if tier e = Unverified then
        Inl (rule_with_meta 403 ''EMAIL_NOT_VERIFIED'' (JObj [(''feature'', JStr (feature_key f))]))
      else
        Inl (rule_with_meta 403 ''FEATURE_NOT_IN_PLAN''
               (JObj [(''feature'', JStr (feature_key f)),
                      (''plan'', json_of_opt JStr (cheapest_plan_with db f))])))"

definition ensure_feature :: "time \<Rightarrow> db \<Rightarrow> uuid \<Rightarrow> feature \<Rightarrow> api_error + unit" where
  "ensure_feature now db u f = require_feature db (entitlements_of now db u) f"

text \<open>\<open>revoke_shares_if_lost\<close>: how many links were turned off, and the tables.\<close>

definition own_shared_setlist :: "uuid \<Rightarrow> setlist_row \<Rightarrow> bool" where
  "own_shared_setlist u s \<longleftrightarrow> sl_user s = u \<and> sl_band s = None \<and> sl_share_token s \<noteq> None"

definition own_shared_gig :: "uuid \<Rightarrow> gig_row \<Rightarrow> bool" where
  "own_shared_gig u g \<longleftrightarrow> gg_user g = u \<and> gg_band g = None \<and> gg_share_token g \<noteq> None"

definition revoke_shares_if_lost :: "time \<Rightarrow> uuid \<Rightarrow> platform \<Rightarrow> nat \<times> platform" where
  "revoke_shares_if_lost now u pt =
     (if has_feature now (pt_db pt) u PublicSharing then (0, pt)
      else
        (length (filter (own_shared_setlist u) (pt_setlists pt))
           + length (filter (own_shared_gig u) (pt_gigs pt)),
         pt\<lparr>pt_setlists := map (\<lambda>s. if own_shared_setlist u s then s\<lparr>sl_share_token := None\<rparr> else s)
                              (pt_setlists pt),
            pt_gigs := map (\<lambda>g. if own_shared_gig u g then g\<lparr>gg_share_token := None\<rparr> else g)
                         (pt_gigs pt)\<rparr>))"

section \<open>Lemmas\<close>

lemma min_by_key_None [simp]: "min_by_key key xs = None \<longleftrightarrow> xs = []"
  by (cases xs) (auto split: option.splits)

lemma min_by_key_in: "min_by_key key xs = Some x \<Longrightarrow> x \<in> set xs"
  by (induction xs arbitrary: x) (auto split: option.splits if_splits)

lemma min_by_key_least:
  "min_by_key key xs = Some x \<Longrightarrow> y \<in> set xs \<Longrightarrow>
   fst (key x) < fst (key y) \<or> fst (key x) = fst (key y) \<and> snd (key x) \<le> snd (key y)"
proof (induction xs arbitrary: x)
  case (Cons z xs)
  show ?case
  proof (cases "min_by_key key xs")
    case None
    with Cons.prems show ?thesis by simp
  next
    case (Some w)
    with Cons.IH [OF Some] Cons.prems show ?thesis by (fastforce split: if_splits)
  qed
qed simp

lemma set_list_plans:
  "set (list_plans db True) = plan_of_row ` {r \<in> set (db_plans db). pr_is_public r}"
  by (auto simp: list_plans_def)

section \<open>Claims\<close>

text \<open>
  The feature gate: a handler passes it exactly when the account may use the feature,
  which staff always may, subscribers of an enforced plan may when the plan includes it,
  unverified accounts may for offline mode only, everyone else may during the beta, and for
  the free features afterwards. A refused account that is verified is pointed at a public
  plan that includes the feature and than which no other such plan is cheaper.
\<close>

theorem feature_gate:
  "(ensure_feature now db u f = Inr () \<longleftrightarrow>
      (if is_some_and (user db u) (\<lambda>r. is_staff (us_role r)) then True
       else if bs_enforced (load_settings db) \<and> load_effective_plan now db u \<noteq> None
       then plan_has (the (load_effective_plan now db u)) f
       else if \<not> is_some_and (user db u) (\<lambda>r. us_email_verified_at r \<noteq> None \<and> us_email r \<noteq> None)
       then f = OfflineMode
       else if \<not> bs_enforced (load_settings db) then True
       else f \<in> set [CreateBands, SongSuggestions, OfflineMode]))
   \<and> (\<forall>c. cheapest_plan_with db f = Some c \<longrightarrow>
        (\<exists>r \<in> set (db_plans db). pr_code r = c \<and> pr_is_public r \<and> plan_has (plan_of_row r) f
           \<and> (\<forall>q \<in> set (db_plans db). pr_is_public q \<and> plan_has (plan_of_row q) f \<longrightarrow>
                pr_price_monthly_cents r \<le> pr_price_monthly_cents q)))
   \<and> (cheapest_plan_with db f = None \<longleftrightarrow>
        (\<forall>q \<in> set (db_plans db). \<not> (pr_is_public q \<and> plan_has (plan_of_row q) f)))"
proof (intro conjI allI impI)
  have "ensure_feature now db u f = Inr () \<longleftrightarrow> has (entitlements_of now db u) f"
    by (simp add: ensure_feature_def require_feature_def)
  then show "ensure_feature now db u f = Inr () \<longleftrightarrow>
      (if is_some_and (user db u) (\<lambda>r. is_staff (us_role r)) then True
       else if bs_enforced (load_settings db) \<and> load_effective_plan now db u \<noteq> None
       then plan_has (the (load_effective_plan now db u)) f
       else if \<not> is_some_and (user db u) (\<lambda>r. us_email_verified_at r \<noteq> None \<and> us_email r \<noteq> None)
       then f = OfflineMode
       else if \<not> bs_enforced (load_settings db) then True
       else f \<in> set [CreateBands, SongSuggestions, OfflineMode])"
    by (cases "user db u"; cases "load_effective_plan now db u")
      (simp_all add: has_def tier_def entitlements_of_def from_parts_def account_facts_of_def
        resolve_tier_def UNVERIFIED_FEATURES_def FREE_FEATURES_def)
next
  fix c
  let ?key = "\<lambda>p. (pl_price_monthly_cents p, pl_sort_order p)"
  let ?ps = "filter (\<lambda>p. plan_has p f) (list_plans db True)"
  assume "cheapest_plan_with db f = Some c"
  then obtain p where p: "min_by_key ?key ?ps = Some p" "pl_code p = c"
    by (auto simp: cheapest_plan_with_def)
  from min_by_key_in [OF p(1)] obtain r where
    r: "r \<in> set (db_plans db)" "pr_is_public r" "p = plan_of_row r" "plan_has p f"
    by (auto simp: set_list_plans)
  have "pr_price_monthly_cents r \<le> pr_price_monthly_cents q"
    if "q \<in> set (db_plans db)" "pr_is_public q \<and> plan_has (plan_of_row q) f" for q
  proof -
    have "plan_of_row q \<in> set ?ps" using that by (auto simp: set_list_plans)
    from min_by_key_least [OF p(1) this] show ?thesis
      unfolding r(3) by (auto simp: plan_of_row_def)
  qed
  then show "\<exists>r \<in> set (db_plans db). pr_code r = c \<and> pr_is_public r \<and> plan_has (plan_of_row r) f
           \<and> (\<forall>q \<in> set (db_plans db). pr_is_public q \<and> plan_has (plan_of_row q) f \<longrightarrow>
                pr_price_monthly_cents r \<le> pr_price_monthly_cents q)"
    using r p(2) by (intro bexI [of _ r]) (auto simp: plan_of_row_def)
next
  show "cheapest_plan_with db f = None \<longleftrightarrow>
        (\<forall>q \<in> set (db_plans db). \<not> (pr_is_public q \<and> plan_has (plan_of_row q) f))"
    by (auto simp: cheapest_plan_with_def filter_empty_conv set_list_plans)
qed

definition sold_plan :: "string \<Rightarrow> int \<Rightarrow> plan_row" where
  "sold_plan c price =
     \<lparr>pr_code = c, pr_name = JObj [], pr_description = JObj [], pr_price_monthly_cents = price,
      pr_price_yearly_cents = 10 * price, pr_currency = ''BRL'', pr_limits = None,
      pr_features = JObj [(''pdf_export'', JBool True)], pr_highlighted = False, pr_is_public = True,
      pr_sort_order = 10, pr_updated_at = 0\<rparr>"

definition db_free :: db where
  "db_free =
     \<lparr>db_users = [(7, \<lparr>us_role = RoleUser, us_email = Some ''ana@example.com'',
                     us_email_verified_at = Some 0, us_created_at = 0, us_account_in_app = True\<rparr>)],
      db_plans = [sold_plan ''pro'' 3990, sold_plan ''basic'' 1990],
      db_settings = Some (default_billing_settings\<lparr>bs_enforced := True\<rparr>), db_subs = (\<lambda>_. None),
      db_events = [], db_ledger = [], db_promos = [], db_redemptions = [], db_referrals = [],
      db_job_runs = (\<lambda>_. None), db_notices = []\<rparr>"

theorem feature_gate_witness:
  "cheapest_plan_with db_free PdfExport = Some ''basic'' \<and> ensure_feature 0 db_free 7 PdfExport \<noteq> Inr ()
   \<and> ensure_feature 0 db_free 7 OfflineMode = Inr ()
   \<and> (\<exists>r \<in> set (db_plans db_free). pr_code r = ''basic'' \<and> pr_is_public r)"
proof -
  have c: "cheapest_plan_with db_free PdfExport = Some ''basic''" by code_simp
  have "ensure_feature 0 db_free 7 PdfExport \<noteq> Inr ()" by code_simp
  moreover have "ensure_feature 0 db_free 7 OfflineMode = Inr ()" by code_simp
  moreover have "\<exists>r \<in> set (db_plans db_free). pr_code r = ''basic'' \<and> pr_is_public r"
    using c feature_gate [of 0 db_free 7 PdfExport] by blast
  ultimately show ?thesis using c by simp
qed

text \<open>
  Losing public sharing takes the account's own links down, and only those: afterwards an
  account whose plan does not include sharing has no personal setlist or gig with a link,
  every other row is untouched, the answer is the number of links revoked, and revoking
  again changes nothing.
\<close>

theorem revoked_shares_are_gone:
  assumes "revoke_shares_if_lost now u pt = (n, pt')"
  shows "(owner_can_share now (pt_db pt) u \<or>
      (\<forall>s \<in> set (pt_setlists pt'). \<not> own_shared_setlist u s) \<and> (\<forall>g \<in> set (pt_gigs pt'). \<not> own_shared_gig u g))
    \<and> list_all2 (\<lambda>s s'. s' = s \<or> own_shared_setlist u s \<and> s' = s\<lparr>sl_share_token := None\<rparr>)
        (pt_setlists pt) (pt_setlists pt')
    \<and> pt_db pt' = pt_db pt \<and> revoke_shares_if_lost now u pt' = (0, pt')"
proof (cases "has_feature now (pt_db pt) u PublicSharing")
  case True
  then show ?thesis
    using assms by (auto simp: revoke_shares_if_lost_def owner_can_share_def list.rel_refl)
next
  case False
  let ?f = "\<lambda>s. if own_shared_setlist u s then s\<lparr>sl_share_token := None\<rparr> else s"
  let ?g = "\<lambda>g. if own_shared_gig u g then g\<lparr>gg_share_token := None\<rparr> else g"
  have p: "pt' = pt\<lparr>pt_setlists := map ?f (pt_setlists pt), pt_gigs := map ?g (pt_gigs pt)\<rparr>"
    using assms False by (simp add: revoke_shares_if_lost_def)
  have s: "\<not> own_shared_setlist u (?f s)" and g: "\<not> own_shared_gig u (?g g)" for s g
    by (simp_all add: own_shared_setlist_def own_shared_gig_def)
  have ps: "pt_setlists pt' = map ?f (pt_setlists pt)" "pt_gigs pt' = map ?g (pt_gigs pt)"
    by (simp_all add: p)
  have gone: "\<forall>s \<in> set (pt_setlists pt'). \<not> own_shared_setlist u s" "\<forall>g \<in> set (pt_gigs pt'). \<not> own_shared_gig u g"
    unfolding ps set_map ball_simps using s g by blast+
  have db: "pt_db pt' = pt_db pt" by (simp add: p)
  have "map ?f (pt_setlists pt') = pt_setlists pt'" "map ?g (pt_gigs pt') = pt_gigs pt'"
    by (rule map_idI, use gone in simp)+
  moreover have "filter (own_shared_setlist u) (pt_setlists pt') = []" "filter (own_shared_gig u) (pt_gigs pt') = []"
    using gone by (simp_all add: filter_empty_conv)
  ultimately have again: "revoke_shares_if_lost now u pt' = (0, pt')"
    using False db by (simp add: revoke_shares_if_lost_def)
  have "list_all2 (\<lambda>s s'. s' = s \<or> own_shared_setlist u s \<and> s' = s\<lparr>sl_share_token := None\<rparr>)
        (pt_setlists pt) (pt_setlists pt')"
    unfolding ps by (simp add: list_all2_map2 list_all2_same)
  with gone db again show ?thesis by blast
qed

definition db_shared :: platform where
  "db_shared =
     \<lparr>pt_db = db_free, pt_quota_defaults = None, pt_quotas = (\<lambda>_. None), pt_artists = [], pt_songs = [],
      pt_setlists = [\<lparr>sl_id = 20, sl_title = ''Friday'', sl_description = None, sl_links = [], sl_user = 7, sl_band = None,
                      sl_is_repertoire = False, sl_share_token = Some ''tok'',
                      sl_share_locked_at = None, sl_created_at = 0, sl_updated_at = 0,
                      sl_updated_by = None, sl_deleted_at = None\<rparr>],
      pt_linked = [], pt_held = [], pt_markers = [], pt_gigs = [], pt_tours = [],
      pt_members = [], pt_permissions = [], pt_collaborators = []\<rparr>"

theorem revoked_shares_are_gone_witness:
  "fst (revoke_shares_if_lost 0 7 db_shared) = 1 \<and>
   filter (own_shared_setlist 7) (pt_setlists (snd (revoke_shares_if_lost 0 7 db_shared))) = []"
proof -
  obtain n pt' where r: "revoke_shares_if_lost 0 7 db_shared = (n, pt')" by fastforce
  have "fst (revoke_shares_if_lost 0 7 db_shared) = 1" "\<not> owner_can_share 0 (pt_db db_shared) 7"
    by code_simp+
  with revoked_shares_are_gone [OF r] show ?thesis unfolding r by (auto simp: filter_empty_conv)
qed

end
