(* ===== verification/QuotaGuards.thy ===== *)
theory QuotaGuards
  imports Entitlements
begin

text \<open>
  Quotas in force, from \<^verbatim>\<open>src/src/database/repositories/quota_repository.rs\<close>: which limits
  apply to an account, how usage is counted, and the guards that creations carry into their
  transaction. A guard is resolved and checked when a request starts, and enforced again
  inside the transaction that inserts the rows, under a lock on its scope; the claims say
  what that second check promises whatever happened in between.
\<close>

section \<open>Counting\<close>

text \<open>\<open>user_id = $1 AND band_id IS NULL AND deleted_at IS NULL\<close>.\<close>

definition personal_live :: "uuid \<Rightarrow> uuid \<Rightarrow> uuid option \<Rightarrow> time option \<Rightarrow> bool" where
  "personal_live scope owner band deleted_at \<longleftrightarrow> owner = scope \<and> band = None \<and> deleted_at = None"

definition band_live :: "uuid \<Rightarrow> uuid option \<Rightarrow> time option \<Rightarrow> bool" where
  "band_live scope band deleted_at \<longleftrightarrow> band = Some scope \<and> deleted_at = None"

definition count_rows :: "('a \<Rightarrow> bool) \<Rightarrow> 'a list \<Rightarrow> int" where
  "count_rows P xs = int (length (filter P xs))"

definition personal_tags :: "platform \<Rightarrow> uuid \<Rightarrow> string list" where
  "personal_tags pt u =
     concat (map sg_tags (filter (\<lambda>s. personal_live u (sg_user s) (sg_band s) (sg_deleted_at s)) (pt_songs pt)))"

fun count_in :: "platform \<Rightarrow> quota_resource \<Rightarrow> uuid \<Rightarrow> int" where
  "count_in pt Songs i = count_rows (\<lambda>s. personal_live i (sg_user s) (sg_band s) (sg_deleted_at s)) (pt_songs pt)"
| "count_in pt Artists i = count_rows (\<lambda>a. personal_live i (ar_user a) (ar_band a) (ar_deleted_at a)) (pt_artists pt)"
| "count_in pt Setlists i = count_rows (\<lambda>s. personal_live i (sl_user s) (sl_band s) (sl_deleted_at s)) (pt_setlists pt)"
| "count_in pt Gigs i = count_rows (\<lambda>g. personal_live i (gg_user g) (gg_band g) (gg_deleted_at g)) (pt_gigs pt)"
| "count_in pt Tags i = int (length (remdups (personal_tags pt i)))"
| "count_in pt BandsOwned i = count_rows (\<lambda>m. bm_user m = i \<and> bm_role m = Owner) (pt_members pt)"
| "count_in pt BandMemberships i = count_rows (\<lambda>m. bm_user m = i) (pt_members pt)"
| "count_in pt BandMembers i = count_rows (\<lambda>m. bm_band m = i) (pt_members pt)"
| "count_in pt BandSetlists i =
     count_rows (\<lambda>s. band_live i (sl_band s) (sl_deleted_at s) \<and> \<not> sl_is_repertoire s) (pt_setlists pt)"
| "count_in pt BandGigs i = count_rows (\<lambda>g. band_live i (gg_band g) (gg_deleted_at g)) (pt_gigs pt)"
| "count_in pt BandSongs i = count_rows (\<lambda>s. band_live i (sg_band s) (sg_deleted_at s)) (pt_songs pt)"
| "count_in pt SetlistItems i =
     count_rows (\<lambda>l. ls_setlist l = i \<and> is_some_and (find_song pt (ls_song l)) (\<lambda>s. sg_deleted_at s = None)) (pt_linked pt)
     + count_rows (\<lambda>m. mk_setlist m = i) (pt_markers pt)"
| "count_in pt Tours i = count_rows (\<lambda>t. personal_live i (tr_user t) (tr_band t) (tr_deleted_at t)) (pt_tours pt)"
| "count_in pt BandTours i = count_rows (\<lambda>t. band_live i (tr_band t) (tr_deleted_at t)) (pt_tours pt)"

section \<open>Limits in force\<close>

definition get_defaults :: "platform \<Rightarrow> quota_limits" where
  "get_defaults pt = unwrap_or (pt_quota_defaults pt) default_limits"

definition set_defaults :: "quota_limits \<Rightarrow> uuid \<Rightarrow> platform \<Rightarrow> api_error + platform" where
  "set_defaults limits actor pt =
     (if user (pt_db pt) actor = None then Inl fk_violation
      else Inr (pt\<lparr>pt_quota_defaults := Some limits\<rparr>))"

definition set_user_settings ::
  "uuid \<Rightarrow> quota_overrides \<Rightarrow> bool \<Rightarrow> uuid \<Rightarrow> platform \<Rightarrow> api_error + platform"
where
  "set_user_settings u over unlimited actor pt =
     (if user (pt_db pt) u = None \<or> user (pt_db pt) actor = None then Inl fk_violation
      else Inr (pt\<lparr>pt_quotas := (pt_quotas pt)(u \<mapsto> \<lparr>qt_overrides = over, qt_unlimited = unlimited\<rparr>)\<rparr>))"

definition resolve_limits :: "time \<Rightarrow> platform \<Rightarrow> uuid \<Rightarrow> quota_limits option \<times> quota_overrides" where
  "resolve_limits now pt u =
     (let db = pt_db pt in
      case user db u of
        None \<Rightarrow> (Some (get_defaults pt), no_overrides)
      | Some r \<Rightarrow>
          let email_verified = (us_email_verified_at r \<noteq> None \<and> us_email r \<noteq> None);
              unlimited = map_option qt_unlimited (pt_quotas pt u);
              overrides = unwrap_or (map_option qt_overrides (pt_quotas pt u)) no_overrides;
              billing = load_settings db
          in if is_staff (us_role r) \<or> unwrap_or unlimited False then (None, overrides)
             else
               let p = (if bs_enforced billing then load_effective_plan now db u else None);
                   t = resolve_tier False (bs_enforced billing) (p \<noteq> None) email_verified;
                   base = (case (t, p) of
                             (PlanTier, Some p) \<Rightarrow> pl_limits p
                           | (Unverified, _) \<Rightarrow> UNVERIFIED_LIMITS
                           | (Free, _) \<Rightarrow> FREE_LIMITS
                           | _ \<Rightarrow> get_defaults pt)
               in (Some (with_overrides base overrides), overrides))"

definition effective_limits :: "time \<Rightarrow> platform \<Rightarrow> uuid \<Rightarrow> quota_limits option" where
  "effective_limits now pt u = fst (resolve_limits now pt u)"

section \<open>Checks and guards\<close>

definition check_quota ::
  "platform \<Rightarrow> quota_limits option \<Rightarrow> quota_resource \<Rightarrow> uuid \<Rightarrow> int \<Rightarrow> api_error + unit"
where
  "check_quota pt limits resource scope adding =
     (case limits of
        None \<Rightarrow> Inr ()
      | Some l \<Rightarrow>
          if adding \<le> 0 then Inr ()
          else if count_in pt resource scope + adding > get_limit l resource
          then Inl (quota_exceeded (resource_key resource) (get_limit l resource))
          else Inr ())"

record quota_guard =
  qg_limits :: "quota_limits option"
  qg_resource :: quota_resource
  qg_scope_id :: uuid
  qg_adding :: int

definition unlimited_guard :: "quota_resource \<Rightarrow> uuid \<Rightarrow> quota_guard" where
  "unlimited_guard resource scope =
     \<lparr>qg_limits = None, qg_resource = resource, qg_scope_id = scope, qg_adding = 0\<rparr>"

text \<open>Inside the transaction (the lock on the scope makes its count current).\<close>

definition enforce :: "quota_guard \<Rightarrow> platform \<Rightarrow> api_error + unit" where
  "enforce g pt =
     (case qg_limits g of
        None \<Rightarrow> Inr ()
      | Some l \<Rightarrow>
          if qg_adding g \<le> 0 then Inr ()
          else
            let limit = get_limit l (qg_resource g);
                used = count_in pt (qg_resource g) (qg_scope_id g)
            in if used + qg_adding g > limit
               then Inl (quota_exceeded (resource_key (qg_resource g)) limit)
               else Inr ())"

fun enforce_all :: "quota_guard list \<Rightarrow> platform \<Rightarrow> api_error + unit" where
  "enforce_all [] pt = Inr ()"
| "enforce_all (g # gs) pt = rbind (enforce g pt) (\<lambda>_. enforce_all gs pt)"

definition user_guard ::
  "time \<Rightarrow> platform \<Rightarrow> uuid \<Rightarrow> quota_resource \<Rightarrow> int \<Rightarrow> api_error + quota_guard"
where
  "user_guard now pt u resource adding =
     (let limits = effective_limits now pt u in
      rbind (check_quota pt limits resource u adding) (\<lambda>_.
      Inr \<lparr>qg_limits = limits, qg_resource = resource, qg_scope_id = u, qg_adding = adding\<rparr>))"

definition band_guard ::
  "time \<Rightarrow> platform \<Rightarrow> uuid \<Rightarrow> quota_resource \<Rightarrow> int \<Rightarrow> api_error + quota_guard"
where
  "band_guard now pt b resource adding =
     (let limits = (case band_owner pt b of
                      Some owner \<Rightarrow> effective_limits now pt owner
                    | None \<Rightarrow> Some (get_defaults pt)) in
      rbind (check_quota pt limits resource b adding) (\<lambda>_.
      Inr \<lparr>qg_limits = limits, qg_resource = resource, qg_scope_id = b, qg_adding = adding\<rparr>))"

definition setlist_scope :: "platform \<Rightarrow> uuid \<Rightarrow> api_error + (uuid \<times> uuid option \<times> bool \<times> uuid option)" where
  "setlist_scope pt i =
     (case find_setlist pt i of
        None \<Rightarrow> Inl NotFound
      | Some s \<Rightarrow> Inr (sl_user s, sl_band s, sl_is_repertoire s, Option.bind (sl_band s) (band_owner pt)))"

definition setlist_items_guard_for ::
  "time \<Rightarrow> platform \<Rightarrow> uuid \<Rightarrow> uuid \<Rightarrow> int \<Rightarrow> api_error + quota_guard"
where
  "setlist_items_guard_for now pt i responsible adding =
     (let limits = effective_limits now pt responsible in
      rbind (check_quota pt limits SetlistItems i adding) (\<lambda>_.
      Inr \<lparr>qg_limits = limits, qg_resource = SetlistItems, qg_scope_id = i, qg_adding = adding\<rparr>))"

definition setlist_items_guard :: "time \<Rightarrow> platform \<Rightarrow> uuid \<Rightarrow> int \<Rightarrow> api_error + quota_guard" where
  "setlist_items_guard now pt i adding =
     rbind (setlist_scope pt i) (\<lambda>(owner, _, _, owner_of_band).
       setlist_items_guard_for now pt i (unwrap_or owner_of_band owner) adding)"

definition setlist_item_room :: "time \<Rightarrow> platform \<Rightarrow> uuid \<Rightarrow> int \<Rightarrow> api_error + quota_guard option" where
  "setlist_item_room now pt i adding =
     rbind (setlist_scope pt i) (\<lambda>(owner, _, is_repertoire, owner_of_band).
       if is_repertoire then Inr None
       else rbind (setlist_items_guard_for now pt i (unwrap_or owner_of_band owner) adding) (\<lambda>g.
            Inr (Some g)))"

definition ensure_user :: "time \<Rightarrow> platform \<Rightarrow> uuid \<Rightarrow> quota_resource \<Rightarrow> int \<Rightarrow> api_error + unit" where
  "ensure_user now pt u resource adding = rbind (user_guard now pt u resource adding) (\<lambda>_. Inr ())"

definition ensure_band :: "time \<Rightarrow> platform \<Rightarrow> uuid \<Rightarrow> quota_resource \<Rightarrow> int \<Rightarrow> api_error + unit" where
  "ensure_band now pt b resource adding = rbind (band_guard now pt b resource adding) (\<lambda>_. Inr ())"

definition ensure_setlist_items :: "time \<Rightarrow> platform \<Rightarrow> uuid \<Rightarrow> int \<Rightarrow> api_error + unit" where
  "ensure_setlist_items now pt i adding = rbind (setlist_items_guard now pt i adding) (\<lambda>_. Inr ())"

definition ensure_tags :: "time \<Rightarrow> platform \<Rightarrow> uuid \<Rightarrow> string list \<Rightarrow> api_error + unit" where
  "ensure_tags now pt u tags =
     (if tags = [] then Inr ()
      else
        let limits = effective_limits now pt u in
        if limits = None then Inr ()
        else check_quota pt limits Tags u (count_rows (\<lambda>t. t \<notin> set (personal_tags pt u)) tags))"

record usage_item =
  ui_resource :: quota_resource
  ui_used :: "int option"
  ui_limit :: "int option"
  ui_overridden :: bool

definition quota_report :: "time \<Rightarrow> platform \<Rightarrow> uuid \<Rightarrow> bool \<times> usage_item list" where
  "quota_report now pt u =
     (case resolve_limits now pt u of (limits, overrides) \<Rightarrow>
        (limits = None,
         map (\<lambda>r. \<lparr>ui_resource = r,
                   ui_used = (if r \<in> set PER_USER then Some (count_in pt r u) else None),
                   ui_limit = map_option (\<lambda>l. get_limit l r) limits,
                   ui_overridden = (get_override overrides r \<noteq> None)\<rparr>) ALL_RESOURCES))"

section \<open>Lemmas\<close>

lemma count_simps [simp]:
  "count_rows P [] = 0" "count_rows P (x # xs) = (if P x then 1 else 0) + count_rows P xs"
  "count_rows P (xs @ ys) = count_rows P xs + count_rows P ys"
  by (simp_all add: count_rows_def)

lemma count_nonneg [simp]: "0 \<le> count_rows P xs"
  by (simp add: count_rows_def)

lemma count_map_le: "(\<And>x. x \<in> set xs \<Longrightarrow> P (f x) \<Longrightarrow> P x) \<Longrightarrow> count_rows P (map f xs) \<le> count_rows P xs"
  by (induction xs) auto

lemma count_filter_le: "count_rows P (filter Q xs) \<le> count_rows P xs"
  by (induction xs) auto

lemma enforce_Inr:
  "enforce g pt = Inr x \<longleftrightarrow>
     (case qg_limits g of
        None \<Rightarrow> True
      | Some l \<Rightarrow> qg_adding g \<le> 0 \<or>
          count_in pt (qg_resource g) (qg_scope_id g) + qg_adding g \<le> get_limit l (qg_resource g))"
  by (auto simp: enforce_def Let_def split: option.splits)

lemma enforce_all_Inr: "enforce_all gs pt = Inr x \<longleftrightarrow> (\<forall>g \<in> set gs. enforce g pt = Inr ())"
  by (induction gs) auto

text \<open>A guard is a promise about the state it is enforced in: it is the check, made again.\<close>

lemma enforce_is_check:
  "enforce g pt = check_quota pt (qg_limits g) (qg_resource g) (qg_scope_id g) (qg_adding g)"
  by (cases "qg_limits g") (simp_all add: enforce_def check_quota_def Let_def)

lemma user_guard_Inr:
  "user_guard now pt u resource adding = Inr g \<longleftrightarrow>
     g = \<lparr>qg_limits = effective_limits now pt u, qg_resource = resource, qg_scope_id = u, qg_adding = adding\<rparr>
     \<and> enforce g pt = Inr ()"
  by (auto simp: user_guard_def Let_def enforce_is_check)

section \<open>Claims\<close>

lemma tier_of_row:
  assumes "user db u = Some r" and "\<not> is_staff (us_role r)"
  shows "tier (entitlements_of now db u)
    = resolve_tier False (bs_enforced (load_settings db)) (load_effective_plan now db u \<noteq> None)
        (us_email_verified_at r \<noteq> None \<and> us_email r \<noteq> None)"
  using assms by (simp add: tier_def entitlements_of_def from_parts_def account_facts_of_def)

text \<open>
  C38. Quotas and features see the same tier: staff and accounts marked unlimited have no
  limits, and everyone else has exactly the limits of the access tier their features come
  from (the plan's, the unverified or the free ones, the platform's defaults in the beta),
  each replaced by the account's override where it has one.
\<close>

theorem limits_follow_tier:
  assumes "user (pt_db pt) u = Some r"
  shows "effective_limits now pt u =
    (if is_staff (us_role r) \<or> is_some_and (pt_quotas pt u) qt_unlimited then None
     else Some (with_overrides
       (case tier (entitlements_of now (pt_db pt) u) of
          PlanTier \<Rightarrow> pl_limits (the (load_effective_plan now (pt_db pt) u))
        | Unverified \<Rightarrow> UNVERIFIED_LIMITS
        | Free \<Rightarrow> FREE_LIMITS
        | _ \<Rightarrow> get_defaults pt)
       (unwrap_or (map_option qt_overrides (pt_quotas pt u)) no_overrides)))"
proof (cases "is_staff (us_role r) \<or> is_some_and (pt_quotas pt u) qt_unlimited")
  case True
  then show ?thesis
    using assms by (cases "pt_quotas pt u") (auto simp: effective_limits_def resolve_limits_def Let_def)
next
  case False
  then have "\<not> is_staff (us_role r)" "\<not> unwrap_or (map_option qt_unlimited (pt_quotas pt u)) False"
    by (cases "pt_quotas pt u"; simp)+
  then show ?thesis
    using assms False tier_of_row [OF assms, of now]
    by (cases "load_effective_plan now (pt_db pt) u")
      (simp_all add: effective_limits_def resolve_limits_def resolve_tier_def Let_def)
qed

text \<open>An empty platform for the witnesses.\<close>

definition pt_of :: "db \<Rightarrow> platform" where
  "pt_of db =
     \<lparr>pt_db = db, pt_quota_defaults = None, pt_quotas = (\<lambda>_. None), pt_artists = [], pt_songs = [],
      pt_setlists = [], pt_linked = [], pt_held = [], pt_markers = [], pt_gigs = [], pt_tours = [],
      pt_members = [], pt_permissions = [], pt_collaborators = []\<rparr>"

definition ana :: user_row where
  "ana = \<lparr>us_role = RoleUser, us_email = Some ''ana@example.com'', us_email_verified_at = Some 0,
          us_created_at = 0, us_account_in_app = True\<rparr>"

definition db_ana :: db where
  "db_ana =
     \<lparr>db_users = [(7, ana)], db_plans = [],
      db_settings = Some (default_billing_settings\<lparr>bs_enforced := True\<rparr>), db_subs = (\<lambda>_. None),
      db_events = [], db_ledger = [], db_promos = [], db_redemptions = [], db_referrals = [],
      db_job_runs = (\<lambda>_. None), db_notices = []\<rparr>"

theorem limits_follow_tier_witness:
  "effective_limits 0 (pt_of db_ana) 7 = Some (with_overrides FREE_LIMITS no_overrides)"
proof -
  have u: "user (pt_db (pt_of db_ana)) 7 = Some ana" by (simp add: pt_of_def db_ana_def user_def)
  have f: "\<not> is_staff (us_role ana)" "tier (entitlements_of 0 (pt_db (pt_of db_ana)) 7) = Free"
    "pt_quotas (pt_of db_ana) 7 = None"
    by code_simp+
  from limits_follow_tier [OF u, of 0] show ?thesis using f by simp
qed

end
