(* ===== verification/Setlists.thy ===== *)
theory Setlists
  imports QuotaGuards
begin

text \<open>
  Setlists and their running order: \<^verbatim>\<open>src/src/database/repositories/setlist_repository.rs\<close> with
  the handlers of \<^verbatim>\<open>src/src/controllers/setlist.rs\<close> that change the order, the details and the
  sharing of a setlist. Songs, songs the setlist holds and markers (blocks and breaks) share one
  space of positions. Fresh identifiers and share tokens are arguments.

  Rows of equal position have no order in SQL; \<open>sort_key\<close> keeps them in table order, which
  is one of the orders PostgreSQL may answer.
\<close>

section \<open>Rows as the listings show them\<close>

record setlist_song =
  ss_position :: int
  ss_id :: uuid
  ss_title :: string
  ss_artist_name :: string
  ss_user :: uuid
  ss_band :: "uuid option"
  ss_version_label :: "string option"
  ss_chart :: json
  ss_tags :: "string list"
  ss_transpose :: int
  ss_added_by :: "uuid option"
  ss_added_at :: "time option"
  ss_held :: bool

datatype setlist_item =
    SongItem setlist_song
  | BlockItem int uuid string
  | BreakItem int uuid "string option" "int option"

fun item_position :: "setlist_item \<Rightarrow> int" where
  "item_position (SongItem s) = ss_position s"
| "item_position (BlockItem p _ _) = p"
| "item_position (BreakItem p _ _ _) = p"

definition accepted_collaborator :: "platform \<Rightarrow> uuid \<Rightarrow> uuid \<Rightarrow> collaborator_row option" where
  "accepted_collaborator pt i u =
     find (\<lambda>c. co_setlist c = i \<and> co_user c = u \<and> co_accepted_at c \<noteq> None) (pt_collaborators pt)"

text \<open>The songs a setlist may show, whatever its rows say.\<close>

definition scoped_song :: "platform \<Rightarrow> setlist_row \<Rightarrow> song_row \<Rightarrow> bool" where
  "scoped_song pt st s \<longleftrightarrow>
     sg_deleted_at s = None
     \<and> (sl_band st = None \<and> sg_band s = None
          \<and> (sg_user s = sl_user st \<or> accepted_collaborator pt (sl_id st) (sg_user s) \<noteq> None)
        \<or> sl_band st \<noteq> None \<and> sg_band s = sl_band st)"

definition visible_to_caller :: "platform \<Rightarrow> setlist_row \<Rightarrow> uuid \<Rightarrow> bool" where
  "visible_to_caller pt s u \<longleftrightarrow>
     sl_band s = None \<and> sl_user s = u
     \<or> is_some_and (sl_band s) (\<lambda>b. band_role_of pt b u \<noteq> None)
     \<or> sl_band s = None \<and> accepted_collaborator pt (sl_id s) u \<noteq> None"

definition linked_song :: "platform \<Rightarrow> setlist_row \<Rightarrow> linked_row \<Rightarrow> setlist_song option" where
  "linked_song pt st l =
     (case find_song pt (ls_song l) of
        None \<Rightarrow> None
      | Some s \<Rightarrow>
          if \<not> scoped_song pt st s then None
          else map_option (\<lambda>a.
            \<lparr>ss_position = ls_position l, ss_id = sg_id s, ss_title = sg_title s,
             ss_artist_name = ar_name a, ss_user = sg_user s, ss_band = sg_band s,
             ss_version_label = sg_version_label s, ss_chart = sg_chart s, ss_tags = sg_tags s,
             ss_transpose = ls_transpose l, ss_added_by = ls_added_by l, ss_added_at = ls_added_at l,
             ss_held = False\<rparr>) (find (\<lambda>a. ar_id a = sg_artist s) (pt_artists pt)))"

definition held_song :: "setlist_row \<Rightarrow> held_row \<Rightarrow> setlist_song" where
  "held_song st h =
     \<lparr>ss_position = hs_position h, ss_id = hs_id h, ss_title = hs_title h,
      ss_artist_name = hs_artist_name h, ss_user = sl_user st, ss_band = None,
      ss_version_label = hs_version_label h, ss_chart = hs_chart h, ss_tags = hs_tags h,
      ss_transpose = hs_transpose h, ss_added_by = hs_added_by h, ss_added_at = hs_added_at h,
      ss_held = True\<rparr>"

definition setlist_song_rows :: "platform \<Rightarrow> uuid \<Rightarrow> setlist_song list" where
  "setlist_song_rows pt i =
     (case find_setlist pt i of
        None \<Rightarrow> []
      | Some st \<Rightarrow>
          List.map_filter (linked_song pt st) (filter (\<lambda>l. ls_setlist l = i) (pt_linked pt))
          @ map (held_song st) (filter (\<lambda>h. hs_setlist h = i) (pt_held pt)))"

definition song_rows :: "platform \<Rightarrow> uuid \<Rightarrow> setlist_song list" where
  "song_rows pt i = sort_key ss_position (setlist_song_rows pt i)"

definition song_rows_limited :: "platform \<Rightarrow> uuid \<Rightarrow> nat \<Rightarrow> setlist_song list" where
  "song_rows_limited pt i n = take n (song_rows pt i)"

definition get_markers :: "platform \<Rightarrow> uuid \<Rightarrow> marker_row list" where
  "get_markers pt i = sort_key mk_position (filter (\<lambda>m. mk_setlist m = i) (pt_markers pt))"

definition markers_limited :: "platform \<Rightarrow> uuid \<Rightarrow> nat \<Rightarrow> marker_row list" where
  "markers_limited pt i n = take n (get_markers pt i)"

fun marker_item :: "marker_row \<Rightarrow> setlist_item" where
  "marker_item m =
     (case mk_type m of
        Block \<Rightarrow> BlockItem (mk_position m) (mk_id m) (unwrap_or (mk_label m) [])
      | Break \<Rightarrow> BreakItem (mk_position m) (mk_id m) (mk_label m) (mk_duration_minutes m))"

text \<open>\<open>sort_by_key\<close> is stable.\<close>

definition merge_items :: "setlist_song list \<Rightarrow> marker_row list \<Rightarrow> setlist_item list" where
  "merge_items songs markers = sort_key item_position (map SongItem songs @ map marker_item markers)"

definition get_items :: "platform \<Rightarrow> uuid \<Rightarrow> setlist_item list" where
  "get_items pt i = merge_items (song_rows pt i) (get_markers pt i)"

definition get_items_capped :: "platform \<Rightarrow> uuid \<Rightarrow> nat \<Rightarrow> setlist_item list" where
  "get_items_capped pt i max_items =
     (let limit = max_items + 1
      in merge_items (song_rows_limited pt i limit) (markers_limited pt i limit))"

definition MAX_LISTED_ITEMS :: nat where "MAX_LISTED_ITEMS = 2000"

definition count_items :: "platform \<Rightarrow> uuid \<Rightarrow> int" where
  "count_items pt i =
     (case find_setlist pt i of
        None \<Rightarrow> 0
      | Some st \<Rightarrow>
          count_rows (\<lambda>l. ls_setlist l = i \<and> is_some_and (find_song pt (ls_song l)) (scoped_song pt st)) (pt_linked pt))
     + count_rows (\<lambda>h. hs_setlist h = i) (pt_held pt) + count_rows (\<lambda>m. mk_setlist m = i) (pt_markers pt)"

definition has_song :: "platform \<Rightarrow> uuid \<Rightarrow> uuid \<Rightarrow> bool" where
  "has_song pt i song \<longleftrightarrow> list_ex (\<lambda>l. ls_setlist l = i \<and> ls_song l = song) (pt_linked pt)"

definition find_repertoire_id :: "platform \<Rightarrow> uuid \<Rightarrow> uuid option" where
  "find_repertoire_id pt b =
     map_option sl_id (find (\<lambda>s. sl_band s = Some b \<and> sl_is_repertoire s) (pt_setlists pt))"

section \<open>Permissions\<close>

datatype setlist_action = Manage | EditItems | EditDetails | ExportPdf

fun action_permission :: "setlist_action \<Rightarrow> band_permission" where
  "action_permission ExportPdf = ExportPdfPermission"
| "action_permission _ = ManageSetlists"

fun collaborator_minimum :: "setlist_action \<Rightarrow> collaborator_role option" where
  "collaborator_minimum Manage = None"
| "collaborator_minimum EditItems = Some Editor"
| "collaborator_minimum EditDetails = Some Manager"
| "collaborator_minimum ExportPdf = Some Viewer"

definition role_permission_allowed :: "platform \<Rightarrow> uuid \<Rightarrow> band_role \<Rightarrow> band_permission \<Rightarrow> bool option" where
  "role_permission_allowed pt b r p =
     map_option bp_allowed
       (find (\<lambda>x. bp_band x = b \<and> bp_role x = r \<and> bp_permission x = p) (pt_permissions pt))"

definition check_permission :: "platform \<Rightarrow> uuid \<Rightarrow> uuid \<Rightarrow> setlist_action \<Rightarrow> api_error + unit" where
  "check_permission pt i u action =
     (case live_setlist pt i of
        None \<Rightarrow> Inl NotFound
      | Some s \<Rightarrow>
          let band_role = Option.bind (sl_band s) (\<lambda>b. band_role_of pt b u);
              role_allowed = Option.bind (sl_band s) (\<lambda>b. Option.bind band_role (\<lambda>r.
                role_permission_allowed pt b r (action_permission action)));
              collab = (if sl_band s = None then map_option co_role (accepted_collaborator pt i u) else None);
              allowed =
                (case sl_band s of
                   None \<Rightarrow> sl_user s = u
                     \<or> (case (collab, collaborator_minimum action) of
                          (Some r, Some minimum) \<Rightarrow> r \<ge> minimum
                        | _ \<Rightarrow> False)
                 | Some _ \<Rightarrow>
                     (case band_role of
                        Some r \<Rightarrow> if satisfies r BandAdmin then True else unwrap_or role_allowed False
                      | None \<Rightarrow> False));
              knows_it = (case sl_band s of None \<Rightarrow> collab \<noteq> None | Some _ \<Rightarrow> band_role \<noteq> None)
          in if allowed then Inr () else if knows_it then Inl Forbidden else Inl NotFound)"

definition setlist_exists :: "platform \<Rightarrow> uuid \<Rightarrow> uuid \<Rightarrow> api_error + unit" where
  "setlist_exists pt i u =
     (if is_some_and (live_setlist pt i) (\<lambda>s. visible_to_caller pt s u) then Inr () else Inl NotFound)"

text \<open>\<open>find_by_id\<close>, for its caller.\<close>

definition find_visible :: "platform \<Rightarrow> uuid \<Rightarrow> uuid \<Rightarrow> setlist_row option" where
  "find_visible pt i u = opt_filter (\<lambda>s. visible_to_caller pt s u) (live_setlist pt i)"

section \<open>The end of the running order\<close>

definition sql_max :: "int list \<Rightarrow> int option" where
  "sql_max xs = (case xs of [] \<Rightarrow> None | x # xs \<Rightarrow> Some (foldr max xs x))"

text \<open>\<open>GREATEST\<close> ignores nulls.\<close>

definition greatest :: "int option list \<Rightarrow> int option" where
  "greatest xs = sql_max (List.map_filter id xs)"

definition next_position :: "platform \<Rightarrow> uuid \<Rightarrow> int" where
  "next_position pt i =
     unwrap_or (greatest
       [sql_max (map ls_position (filter (\<lambda>l. ls_setlist l = i) (pt_linked pt))),
        sql_max (map hs_position (filter (\<lambda>h. hs_setlist h = i) (pt_held pt))),
        sql_max (map mk_position (filter (\<lambda>m. mk_setlist m = i) (pt_markers pt)))]) 0 + 1"

definition int_overflow :: api_error where
  "int_overflow = DatabaseError (Database ''22003'')"

definition unique_violation :: api_error where
  "unique_violation = DatabaseError (Database ''23505'')"

definition append_song :: "time \<Rightarrow> uuid \<Rightarrow> uuid \<Rightarrow> uuid \<Rightarrow> platform \<Rightarrow> api_error + platform" where
  "append_song now i song added_by pt =
     (if next_position pt i > 2147483647 then Inl int_overflow
      else if has_song pt i song then Inr pt
      else if find_setlist pt i = None \<or> find_song pt song = None \<or> user (pt_db pt) added_by = None
      then Inl fk_violation
      else Inr (pt\<lparr>pt_linked := pt_linked pt
                    @ [\<lparr>ls_setlist = i, ls_song = song, ls_position = next_position pt i, ls_transpose = 0,
                        ls_added_by = Some added_by, ls_added_at = Some now\<rparr>]\<rparr>))"


section \<open>Songs\<close>

text \<open>A song new to a band's setlist starts in the key the repertoire has it in.\<close>

definition copy_transpose :: "uuid \<Rightarrow> uuid \<Rightarrow> uuid \<Rightarrow> platform \<Rightarrow> platform" where
  "copy_transpose repertoire i song pt =
     (case find (\<lambda>r. ls_setlist r = repertoire \<and> ls_song r = song) (pt_linked pt) of
        None \<Rightarrow> pt
      | Some r \<Rightarrow>
          pt\<lparr>pt_linked := map (\<lambda>l. if ls_setlist l = i \<and> ls_song l = song
                                then l\<lparr>ls_transpose := ls_transpose r\<rparr> else l) (pt_linked pt)\<rparr>)"

definition add_song ::
  "time \<Rightarrow> uuid \<Rightarrow> uuid \<Rightarrow> uuid \<Rightarrow> quota_guard list \<Rightarrow> platform \<Rightarrow> api_error + platform"
where
  "add_song now i song added_by quota pt =
     (case live_setlist pt i of
        None \<Rightarrow> Inl NotFound
      | Some s \<Rightarrow>
          rbind (enforce_all quota pt) (\<lambda>_.
          rbind (append_song now i song added_by pt) (\<lambda>pt.
          case (sl_band s, sl_is_repertoire s) of
            (Some b, False) \<Rightarrow>
              (case find_repertoire_id pt b of
                 None \<Rightarrow> Inr pt
               | Some repertoire \<Rightarrow>
                   append_song now repertoire song added_by (copy_transpose repertoire i song pt))
          | _ \<Rightarrow> Inr pt)))"

definition remove_song :: "uuid \<Rightarrow> uuid \<Rightarrow> platform \<Rightarrow> api_error + platform" where
  "remove_song i song pt =
     (let linked = (\<lambda>l. ls_setlist l = i \<and> ls_song l = song);
          held = (\<lambda>h. hs_setlist h = i \<and> hs_id h = song)
      in if \<not> list_ex linked (pt_linked pt) \<and> \<not> list_ex held (pt_held pt) then Inl NotFound
         else Inr (pt\<lparr>pt_linked := filter (Not \<circ> linked) (pt_linked pt),
                      pt_held := filter (Not \<circ> held) (pt_held pt)\<rparr>))"

definition set_song_transpose :: "uuid \<Rightarrow> uuid \<Rightarrow> int \<Rightarrow> platform \<Rightarrow> api_error + platform" where
  "set_song_transpose i song t pt =
     (let linked = (\<lambda>l. ls_setlist l = i \<and> ls_song l = song);
          held = (\<lambda>h. hs_setlist h = i \<and> hs_id h = song)
      in if \<not> list_ex linked (pt_linked pt) \<and> \<not> list_ex held (pt_held pt) then Inl NotFound
         else if t < -11 \<or> t > 11 then Inl check_violation
         else Inr (pt\<lparr>pt_linked := map (\<lambda>l. if linked l then l\<lparr>ls_transpose := t\<rparr> else l) (pt_linked pt),
                      pt_held := map (\<lambda>h. if held h then h\<lparr>hs_transpose := t\<rparr> else h) (pt_held pt)\<rparr>))"

section \<open>Order\<close>

text \<open>
  \<open>UPDATE ... FROM unnest(ids, positions)\<close>. When an id is listed twice PostgreSQL uses one of
  its rows; the handlers refuse such lists, here it is the first.
\<close>

definition move_songs :: "uuid \<Rightarrow> (uuid \<times> int) list \<Rightarrow> platform \<Rightarrow> platform" where
  "move_songs i moves pt =
     pt\<lparr>pt_linked := map (\<lambda>l. if ls_setlist l = i
                          then l\<lparr>ls_position := unwrap_or (map_of moves (ls_song l)) (ls_position l)\<rparr>
                          else l) (pt_linked pt),
        pt_held := map (\<lambda>h. if hs_setlist h = i
                        then h\<lparr>hs_position := unwrap_or (map_of moves (hs_id h)) (hs_position h)\<rparr>
                        else h) (pt_held pt)\<rparr>"

definition move_markers :: "uuid \<Rightarrow> (uuid \<times> int) list \<Rightarrow> platform \<Rightarrow> platform" where
  "move_markers i moves pt =
     pt\<lparr>pt_markers := map (\<lambda>m. if mk_setlist m = i
                           then m\<lparr>mk_position := unwrap_or (map_of moves (mk_id m)) (mk_position m)\<rparr>
                           else m) (pt_markers pt)\<rparr>"

definition reorder_songs :: "uuid \<Rightarrow> uuid list \<Rightarrow> platform \<Rightarrow> platform" where
  "reorder_songs i song_ids pt =
     move_songs i (map (\<lambda>(n, s). (s, int n)) (List.enumerate 1 song_ids)) pt"

datatype item_type = SongType | BlockType | BreakType

record item_ref =
  ir_type :: item_type
  ir_id :: uuid

definition item_moves :: "(item_type \<Rightarrow> bool) \<Rightarrow> item_ref list \<Rightarrow> (uuid \<times> int) list" where
  "item_moves P items =
     map (\<lambda>(n, r). (ir_id r, int n + 1)) (filter (\<lambda>(_, r). P (ir_type r)) (List.enumerate 0 items))"

definition reorder_items :: "uuid \<Rightarrow> item_ref list \<Rightarrow> platform \<Rightarrow> platform" where
  "reorder_items i items pt =
     (let songs = item_moves (\<lambda>t. t = SongType) items;
          markers = item_moves (\<lambda>t. t \<noteq> SongType) items;
          pt = (if songs = [] then pt else move_songs i songs pt)
      in if markers = [] then pt else move_markers i markers pt)"

section \<open>Blocks and breaks\<close>

definition MAX_REPERTOIRE_MARKERS :: int where "MAX_REPERTOIRE_MARKERS = 200"

definition create_marker ::
  "time \<Rightarrow> uuid \<Rightarrow> uuid \<Rightarrow> marker_type \<Rightarrow> string option \<Rightarrow> int option \<Rightarrow> quota_guard list \<Rightarrow> platform
     \<Rightarrow> api_error + (marker_row \<times> platform)"
where
  "create_marker now fresh i ty label dur quota pt =
     (case live_setlist pt i of
        None \<Rightarrow> Inl NotFound
      | Some s \<Rightarrow>
          rbind (enforce_all quota pt) (\<lambda>_.
          if sl_is_repertoire s \<and> count_rows (\<lambda>m. mk_setlist m = i) (pt_markers pt) \<ge> MAX_REPERTOIRE_MARKERS
          then Inl (quota_exceeded ''repertoire_markers'' MAX_REPERTOIRE_MARKERS)
          else if next_position pt i > 2147483647 then Inl int_overflow
          else if \<not> is_none_or label (varchar 255) then Inl too_long
          else if list_ex (\<lambda>m. mk_id m = fresh) (pt_markers pt) then Inl unique_violation
          else
            let m = \<lparr>mk_id = fresh, mk_setlist = i, mk_type = ty, mk_label = label,
                     mk_duration_minutes = dur, mk_position = next_position pt i, mk_created_at = now\<rparr>
            in Inr (m, pt\<lparr>pt_markers := pt_markers pt @ [m]\<rparr>)))"

definition update_marker ::
  "uuid \<Rightarrow> uuid \<Rightarrow> string option \<Rightarrow> int option \<Rightarrow> bool \<Rightarrow> platform
     \<Rightarrow> (api_error + marker_row) \<times> platform"
where
  "update_marker i marker label dur allow_null_duration pt =
     (let hit = (\<lambda>m. mk_id m = marker \<and> mk_setlist m = i);
          change = (\<lambda>m. if hit m
                        then (if allow_null_duration
                              then m\<lparr>mk_label := label, mk_duration_minutes := dur\<rparr>
                              else m\<lparr>mk_label := label\<rparr>)
                        else m)
      in if \<not> list_ex hit (pt_markers pt) then (Inl NotFound, pt)
         else if \<not> is_none_or label (varchar 255) then (Inl too_long, pt)
         else let pt = pt\<lparr>pt_markers := map change (pt_markers pt)\<rparr>
              in (case find (\<lambda>m. mk_id m = marker) (pt_markers pt) of
                    None \<Rightarrow> (Inl (DatabaseError OtherSqlx), pt)
                  | Some m \<Rightarrow> (Inr m, pt)))"

definition delete_marker :: "uuid \<Rightarrow> uuid \<Rightarrow> platform \<Rightarrow> api_error + platform" where
  "delete_marker i marker pt =
     (let hit = (\<lambda>m. mk_id m = marker \<and> mk_setlist m = i)
      in if \<not> list_ex hit (pt_markers pt) then Inl NotFound
         else Inr (pt\<lparr>pt_markers := filter (Not \<circ> hit) (pt_markers pt)\<rparr>))"

section \<open>The setlist itself\<close>

definition repertoire_protected :: api_error where
  "repertoire_protected = rule 409 ''REPERTOIRE_PROTECTED''"

definition update_setlists :: "(setlist_row \<Rightarrow> bool) \<Rightarrow> (setlist_row \<Rightarrow> setlist_row) \<Rightarrow> platform \<Rightarrow> platform" where
  "update_setlists P f pt = pt\<lparr>pt_setlists := map (\<lambda>s. if P s then f s else s) (pt_setlists pt)\<rparr>"

definition touch :: "time \<Rightarrow> uuid \<Rightarrow> uuid \<Rightarrow> platform \<Rightarrow> api_error + platform" where
  "touch now i actor pt =
     (if find_setlist pt i \<noteq> None \<and> user (pt_db pt) actor = None then Inl fk_violation
      else Inr (update_setlists (\<lambda>s. sl_id s = i)
                  (\<lambda>s. s\<lparr>sl_updated_at := now, sl_updated_by := Some actor\<rparr>) pt))"

text \<open>A description as stored: trimmed, and none when nothing is left.\<close>

definition stored_description :: "string option \<Rightarrow> string option" where
  "stored_description d = opt_filter (\<lambda>t. t \<noteq> []) (map_option trim d)"

definition create_setlist_row ::
  "(string \<Rightarrow> url option) \<Rightarrow> time \<Rightarrow> uuid \<Rightarrow> string \<Rightarrow> string option \<Rightarrow> uuid option \<Rightarrow> link_input list
     \<Rightarrow> uuid \<Rightarrow> quota_guard list \<Rightarrow> platform \<Rightarrow> api_error + (setlist_row \<times> platform)"
where
  "create_setlist_row parse now fresh title description band links u quota pt =
     rbind (normalize_links parse links) (\<lambda>links.
     let s = \<lparr>sl_id = fresh, sl_title = trim title, sl_description = stored_description description,
              sl_links = links, sl_user = u, sl_band = band, sl_is_repertoire = False,
              sl_share_token = None, sl_share_locked_at = None, sl_created_at = now,
              sl_updated_at = now, sl_updated_by = None, sl_deleted_at = None\<rparr>
     in rbind (enforce_all quota pt) (\<lambda>_.
        if \<not> varchar 255 (sl_title s) then Inl too_long
        else if find_setlist pt fresh \<noteq> None then Inl unique_violation
        else if user (pt_db pt) u = None then Inl fk_violation
        else Inr (s, pt\<lparr>pt_setlists := pt_setlists pt @ [s]\<rparr>)))"

definition is_unique :: "platform \<Rightarrow> string \<Rightarrow> uuid \<Rightarrow> uuid option \<Rightarrow> uuid option \<Rightarrow> api_error + unit" where
  "is_unique pt title u band exclude =
     (if list_ex (\<lambda>s. sl_title s = trim title \<and> sl_deleted_at s = None \<and> \<not> sl_is_repertoire s
           \<and> (if band \<noteq> None then sl_band s = band else sl_band s = None \<and> sl_user s = u)
           \<and> is_none_or exclude (\<lambda>x. sl_id s \<noteq> x)) (pt_setlists pt)
      then Inl AlreadyExists else Inr ())"

record update_payload =
  up_title :: "string option"
  up_description :: "string option option"
  up_links :: "link_input list option"

definition update_details ::
  "(string \<Rightarrow> url option) \<Rightarrow> time \<Rightarrow> uuid \<Rightarrow> update_payload \<Rightarrow> uuid \<Rightarrow> platform \<Rightarrow> api_error + platform"
where
  "update_details parse now i p actor pt =
     (let set_row = (\<lambda>f pt. update_setlists (\<lambda>s. sl_id s = i) f pt) in
      case live_setlist pt i of
        None \<Rightarrow> Inl NotFound
      | Some row \<Rightarrow>
          rbind (case up_title p of
                   None \<Rightarrow> Inr (False, pt)
                 | Some t \<Rightarrow>
                     if sl_is_repertoire row then Inl repertoire_protected
                     else if \<not> varchar 255 (trim t) then Inl too_long
                     else Inr (True, set_row (\<lambda>s. s\<lparr>sl_title := trim t\<rparr>) pt)) (\<lambda>(changed, pt).
          rbind (case up_description p of
                   None \<Rightarrow> Inr (changed, pt)
                 | Some d \<Rightarrow> Inr (True, set_row (\<lambda>s. s\<lparr>sl_description := stored_description d\<rparr>) pt))
            (\<lambda>(changed, pt).
          rbind (case up_links p of
                   None \<Rightarrow> Inr (changed, pt)
                 | Some ls \<Rightarrow> rbind (normalize_links parse ls) (\<lambda>ls.
                     Inr (True, set_row (\<lambda>s. s\<lparr>sl_links := ls\<rparr>) pt))) (\<lambda>(changed, pt).
          if \<not> changed then Inl NotModified
          else if user (pt_db pt) actor = None then Inl fk_violation
          else Inr (set_row (\<lambda>s. s\<lparr>sl_updated_at := now, sl_updated_by := Some actor\<rparr>) pt)))))"

text \<open>Deleting a setlist deletes what hangs on it, and takes it off its gigs.\<close>

definition delete_setlist_row :: "uuid \<Rightarrow> platform \<Rightarrow> api_error + platform" where
  "delete_setlist_row i pt =
     (case find_setlist pt i of
        None \<Rightarrow> Inl NotFound
      | Some s \<Rightarrow>
          if sl_is_repertoire s then Inl repertoire_protected
          else Inr (pt\<lparr>pt_setlists := filter (\<lambda>s. \<not> (sl_id s = i \<and> \<not> sl_is_repertoire s)) (pt_setlists pt),
                       pt_linked := filter (\<lambda>l. ls_setlist l \<noteq> i) (pt_linked pt),
                       pt_held := filter (\<lambda>h. hs_setlist h \<noteq> i) (pt_held pt),
                       pt_markers := filter (\<lambda>m. mk_setlist m \<noteq> i) (pt_markers pt),
                       pt_collaborators := filter (\<lambda>c. co_setlist c \<noteq> i) (pt_collaborators pt),
                       pt_gigs := map (\<lambda>g. if gg_setlist g = Some i then g\<lparr>gg_setlist := None\<rparr> else g)
                                    (pt_gigs pt)\<rparr>))"

definition trash_setlist :: "time \<Rightarrow> uuid \<Rightarrow> uuid \<Rightarrow> platform \<Rightarrow> api_error + platform" where
  "trash_setlist now i actor pt =
     (case live_setlist pt i of
        None \<Rightarrow> Inl NotFound
      | Some s \<Rightarrow>
          if sl_is_repertoire s then Inl repertoire_protected
          else if user (pt_db pt) actor = None then Inl fk_violation
          else Inr (update_setlists (\<lambda>s. sl_id s = i \<and> sl_deleted_at s = None \<and> \<not> sl_is_repertoire s)
                      (\<lambda>s. s\<lparr>sl_deleted_at := Some now\<rparr>) pt))"

section \<open>Public links\<close>

definition find_by_share_token :: "platform \<Rightarrow> string \<Rightarrow> setlist_row option" where
  "find_by_share_token pt tok =
     find (\<lambda>s. sl_share_token s = Some tok \<and> sl_share_locked_at s = None \<and> sl_deleted_at s = None)
       (pt_setlists pt)"

definition enable_sharing :: "string \<Rightarrow> uuid \<Rightarrow> platform \<Rightarrow> (api_error + setlist_row) \<times> platform" where
  "enable_sharing tok i pt =
     (case live_setlist pt i of
        None \<Rightarrow> (Inl NotFound, pt)
      | Some s \<Rightarrow>
          if sl_share_locked_at s \<noteq> None then (Inl (rule 403 ''SHARE_LOCKED''), pt)
          else if list_ex (\<lambda>s. sl_share_token s = Some tok \<and> sl_id s \<noteq> i) (pt_setlists pt)
          then (Inl unique_violation, pt)
          else let pt = update_setlists (\<lambda>s. sl_id s = i \<and> sl_share_locked_at s = None)
                          (\<lambda>s. s\<lparr>sl_share_token := Some tok\<rparr>) pt
               in (case find_by_share_token pt tok of
                     None \<Rightarrow> (Inl NotFound, pt)
                   | Some s \<Rightarrow> (Inr s, pt)))"

definition disable_sharing :: "uuid \<Rightarrow> platform \<Rightarrow> api_error + platform" where
  "disable_sharing i pt =
     (if find_setlist pt i = None then Inl NotFound
      else Inr (update_setlists (\<lambda>s. sl_id s = i) (\<lambda>s. s\<lparr>sl_share_token := None\<rparr>) pt))"

definition lock_sharing :: "time \<Rightarrow> uuid \<Rightarrow> uuid \<Rightarrow> string option \<Rightarrow> platform \<Rightarrow> api_error + platform" where
  "lock_sharing now i actor reason pt =
     (if find_setlist pt i = None then Inl NotFound
      else if \<not> is_none_or reason (varchar 500) then Inl too_long
      else if user (pt_db pt) actor = None then Inl fk_violation
      else let pt = update_setlists (\<lambda>s. sl_id s = i)
                      (\<lambda>s. s\<lparr>sl_share_token := None, sl_share_locked_at := Some now\<rparr>) pt
           in Inr (pt\<lparr>pt_gigs := map (\<lambda>g. if gg_setlist g = Some i then g\<lparr>gg_share_token := None\<rparr> else g)
                         (pt_gigs pt)\<rparr>))"

definition unlock_sharing :: "uuid \<Rightarrow> platform \<Rightarrow> api_error + platform" where
  "unlock_sharing i pt =
     (if find_setlist pt i = None then Inl NotFound
      else Inr (update_setlists (\<lambda>s. sl_id s = i) (\<lambda>s. s\<lparr>sl_share_locked_at := None\<rparr>) pt))"

text \<open>The anonymous read (\<open>shared_setlist\<close>).\<close>

definition shared_setlist :: "time \<Rightarrow> platform \<Rightarrow> string \<Rightarrow> api_error + setlist_row" where
  "shared_setlist now pt tok =
     (case find_by_share_token pt tok of
        None \<Rightarrow> Inl NotFound
      | Some s \<Rightarrow>
          if shared_content_visible now pt (sl_user s) (sl_band s) then Inr s else Inl NotFound)"

end
