(* ===== verification/SetlistOrder.thy ===== *)
theory SetlistOrder
  imports Setlists "HOL-Library.Multiset"
begin

text \<open>
  The running order: listing a setlist merges its songs and markers by position, the capped
  listing agrees with the full one, and a reordering of all the items is the order shown.
\<close>

section \<open>Sorting is merging\<close>

text \<open>What a stable sort by \<open>p\<close> makes of two sorted lists, the left one winning ties.\<close>

fun interleave :: "('a \<Rightarrow> int) \<Rightarrow> 'a list \<Rightarrow> 'a list \<Rightarrow> 'a list" where
  "interleave p [] right = right"
| "interleave p (a # left) [] = a # left"
| "interleave p (a # left) (b # right) =
     (if p b < p a then b # interleave p (a # left) right else a # interleave p left (b # right))"

lemma interleave_contents [simp]:
  "mset (interleave p left right) = mset (left @ right)"
  "set (interleave p left right) = set (left @ right)"
proof (induction p left right rule: interleave.induct)
  case (3 p a left b right)
  { case 1 with 3 show ?case by simp }
  { case 2 with 3 show ?case by (auto split: if_splits) }
qed simp_all

lemma sorted_interleave:
  "sorted (map f xs) \<Longrightarrow> sorted (map f ys) \<Longrightarrow> sorted (map f (interleave f xs ys))"
  by (induction f xs ys rule: interleave.induct) force+

lemma filter_interleave:
  "sorted (map f xs) \<Longrightarrow> sorted (map f ys) \<Longrightarrow>
     filter (\<lambda>z. c = f z) (interleave f xs ys) = filter (\<lambda>z. c = f z) xs @ filter (\<lambda>z. c = f z) ys"
proof (induction f xs ys rule: interleave.induct)
  case (3 f x xs y ys)
  show ?case
  proof (cases "f y < f x")
    case False
    with 3 show ?thesis by (cases "c = f x") auto
  next
    case True
    with 3 have "filter (\<lambda>z. f y = f z) (x # xs) = []" by (auto simp: filter_empty_conv)
    with 3 True show ?thesis by (cases "c = f y") auto
  qed
qed simp_all

lemma sort_key_interleave:
  fixes f :: "'a \<Rightarrow> int"
  assumes "sorted (map f xs)" and "sorted (map f ys)"
  shows "sort_key f (xs @ ys) = interleave f xs ys"
  by (rule properties_for_sort_key)
    (use assms in \<open>auto simp: filter_interleave sorted_interleave\<close>)

lemma take_interleave:
  "k \<le> a \<Longrightarrow> k \<le> b \<Longrightarrow> take k (interleave f (take a xs) (take b ys)) = take k (interleave f xs ys)"
proof (induction f xs ys arbitrary: a b k rule: interleave.induct)
  case (2 f x xs)
  then show ?case by (cases a) (auto simp: take_Cons' min_def)
next
  case (3 f x xs y ys)
  show ?case
  proof (cases k)
    case (Suc m)
    with 3 obtain a' b' where ab: "a = Suc a'" "b = Suc b'" "m \<le> a'" "m \<le> b'"
      by (metis Suc_le_D Suc_le_mono)
    show ?thesis
    proof (cases "f y < f x")
      case False
      with 3(2) [of m a' b] ab Suc 3(4) show ?thesis by simp
    next
      case True
      with 3(1) [of m a b'] ab Suc 3(3) show ?thesis by simp
    qed
  qed simp
qed simp

lemma take_sort_key:
  fixes f :: "'a \<Rightarrow> int"
  assumes "sorted (map f xs)" and "sorted (map f ys)" and "k \<le> n"
  shows "take k (sort_key f (take n xs @ take n ys)) = take k (sort_key f (xs @ ys))"
proof -
  have "sorted (map f (take n xs))" "sorted (map f (take n ys))"
    using assms by (simp_all flip: take_map add: sorted_wrt_take)
  then show ?thesis
    unfolding sort_key_interleave [OF assms(1,2)]
    using sort_key_interleave [of f "take n xs" "take n ys"] take_interleave [OF assms(3) assms(3), of f xs ys] by simp
qed

section \<open>The listing\<close>

lemma position_marker_item [simp]: "item_position (marker_item m) = mk_position m"
  by (simp split: marker_type.splits)

declare marker_item.simps [simp del]

lemma sorted_song_rows: "sorted (map item_position (map SongItem (song_rows pt i)))"
  by (simp add: song_rows_def comp_def)

lemma sorted_get_markers: "sorted (map item_position (map marker_item (get_markers pt i)))"
  by (simp add: get_markers_def comp_def)

lemma get_items_capped_eq:
  "get_items_capped pt i n =
     sort_key item_position (take (n + 1) (map SongItem (song_rows pt i))
       @ take (n + 1) (map marker_item (get_markers pt i)))"
  by (simp add: get_items_capped_def merge_items_def song_rows_limited_def markers_limited_def take_map
      Let_def)

section \<open>Reordering\<close>

definition moved :: "(uuid \<times> int) list \<Rightarrow> uuid \<Rightarrow> int \<Rightarrow> int" where
  "moved moves x p = unwrap_or (map_of moves x) p"

fun item_ref_of :: "setlist_item \<Rightarrow> item_ref" where
  "item_ref_of (SongItem s) = \<lparr>ir_type = SongType, ir_id = ss_id s\<rparr>"
| "item_ref_of (BlockItem _ i _) = \<lparr>ir_type = BlockType, ir_id = i\<rparr>"
| "item_ref_of (BreakItem _ i _ _) = \<lparr>ir_type = BreakType, ir_id = i\<rparr>"

lemma item_ref_of_marker:
  "ir_id (item_ref_of (marker_item m)) = mk_id m" "ir_type (item_ref_of (marker_item m)) \<noteq> SongType"
  by (simp_all add: marker_item.simps split: marker_type.splits)

lemma find_setlist_move [simp]:
  "find_setlist (move_songs i ms pt) = find_setlist pt" "find_setlist (move_markers i ms pt) = find_setlist pt"
  by (simp_all add: move_songs_def move_markers_def find_setlist_def fun_eq_iff)

lemma linked_song_cong:
  assumes "pt_songs pt' = pt_songs pt" and "pt_artists pt' = pt_artists pt"
    and "pt_collaborators pt' = pt_collaborators pt"
  shows "linked_song pt' st l = linked_song pt st l"
proof -
  have "find_song pt' i = find_song pt i" "scoped_song pt' st s = scoped_song pt st s" for i s
    using assms by (simp_all add: find_song_def scoped_song_def accepted_collaborator_def)
  with assms show ?thesis by (simp add: linked_song_def split: option.split)
qed

lemma linked_song_move:
  "linked_song (move_songs i ms pt) st l = linked_song pt st l"
  "linked_song (move_markers i ms pt) st l = linked_song pt st l"
  by (rule linked_song_cong; simp add: move_songs_def move_markers_def)+

lemma linked_song_position:
  "linked_song pt st (l\<lparr>ls_position := p\<rparr>) = map_option (\<lambda>s. s\<lparr>ss_position := p\<rparr>) (linked_song pt st l)"
  by (auto simp: linked_song_def option.map_comp comp_def split: option.splits)

lemma linked_song_fields:
  "linked_song pt st l = Some s \<Longrightarrow> ss_id s = ls_song l \<and> ss_position s = ls_position l"
  by (auto simp: linked_song_def find_song_def find_Some_iff split: option.splits if_splits)

lemma map_filter_linked_move:
  "List.map_filter (linked_song pt st)
     (filter (\<lambda>l. ls_setlist l = i)
       (map (\<lambda>l. if ls_setlist l = i then l\<lparr>ls_position := unwrap_or (map_of ms (ls_song l)) (ls_position l)\<rparr>
                else l) ls))
   = map (\<lambda>s. s\<lparr>ss_position := moved ms (ss_id s) (ss_position s)\<rparr>)
       (List.map_filter (linked_song pt st) (filter (\<lambda>l. ls_setlist l = i) ls))"
  by (induction ls)
    (auto simp: List.map_filter_simps linked_song_position moved_def dest: linked_song_fields split: option.splits)

lemma setlist_song_rows_move:
  "setlist_song_rows (move_songs i ms pt) i =
     map (\<lambda>s. s\<lparr>ss_position := moved ms (ss_id s) (ss_position s)\<rparr>) (setlist_song_rows pt i)"
proof (cases "find_setlist pt i")
  case (Some st)
  have f: "linked_song (move_songs i ms pt) st = linked_song pt st" by (simp add: linked_song_move fun_eq_iff)
  have "map (held_song st) (filter (\<lambda>h. hs_setlist h = i)
        (map (\<lambda>h. if hs_setlist h = i then h\<lparr>hs_position := unwrap_or (map_of ms (hs_id h)) (hs_position h)\<rparr>
                 else h) hs))
      = map (\<lambda>s. s\<lparr>ss_position := moved ms (ss_id s) (ss_position s)\<rparr>)
          (map (held_song st) (filter (\<lambda>h. hs_setlist h = i) hs))" for hs
    by (induction hs) (auto simp: held_song_def moved_def)
  with Some map_filter_linked_move [of pt st i ms "pt_linked pt"] show ?thesis
    by (simp add: setlist_song_rows_def f) (simp add: move_songs_def)
qed (simp add: setlist_song_rows_def)

lemma setlist_song_rows_markers [simp]:
  "setlist_song_rows (move_markers i ms pt) j = setlist_song_rows pt j"
proof -
  have "linked_song (move_markers i ms pt) st = linked_song pt st" for st
    by (simp add: linked_song_move fun_eq_iff)
  moreover have "pt_linked (move_markers i ms pt) = pt_linked pt" "pt_held (move_markers i ms pt) = pt_held pt"
    by (simp_all add: move_markers_def)
  ultimately show ?thesis by (simp add: setlist_song_rows_def split: option.split)
qed

lemma markers_of_move:
  "filter (\<lambda>m. mk_setlist m = i) (pt_markers (move_markers i ms pt)) =
     map (\<lambda>m. m\<lparr>mk_position := moved ms (mk_id m) (mk_position m)\<rparr>)
       (filter (\<lambda>m. mk_setlist m = i) (pt_markers pt))"
proof -
  have "filter (\<lambda>m. mk_setlist m = i)
      (map (\<lambda>m. if mk_setlist m = i then m\<lparr>mk_position := unwrap_or (map_of ms (mk_id m)) (mk_position m)\<rparr>
               else m) xs)
    = map (\<lambda>m. m\<lparr>mk_position := moved ms (mk_id m) (mk_position m)\<rparr>) (filter (\<lambda>m. mk_setlist m = i) xs)" for xs
    by (induction xs) (auto simp: moved_def)
  then show ?thesis by (simp add: move_markers_def)
qed


lemma move_Nil [simp]: "move_songs i [] pt = pt" "move_markers i [] pt = pt"
proof -
  have "map (\<lambda>l. if ls_setlist l = i then l\<lparr>ls_position := unwrap_or (map_of [] (ls_song l)) (ls_position l)\<rparr> else l)
      (pt_linked pt) = pt_linked pt"
    by (rule map_idI) simp
  moreover have "map (\<lambda>h. if hs_setlist h = i then h\<lparr>hs_position := unwrap_or (map_of [] (hs_id h)) (hs_position h)\<rparr>
      else h) (pt_held pt) = pt_held pt"
    by (rule map_idI) simp
  moreover have "map (\<lambda>m. if mk_setlist m = i then m\<lparr>mk_position := unwrap_or (map_of [] (mk_id m)) (mk_position m)\<rparr>
      else m) (pt_markers pt) = pt_markers pt"
    by (rule map_idI) simp
  ultimately show "move_songs i [] pt = pt" "move_markers i [] pt = pt"
    unfolding move_songs_def move_markers_def by simp_all
qed

lemma reorder_items_eq:
  "reorder_items i refs pt =
     move_markers i (item_moves (\<lambda>t. t \<noteq> SongType) refs)
       (move_songs i (item_moves (\<lambda>t. t = SongType) refs) pt)"
  by (simp add: reorder_items_def Let_def)

text \<open>The position a reference is given: its place in the list.\<close>

lemma map_of_item_moves:
  assumes "distinct (map ir_id refs)" and "n < length refs" and "P (ir_type (refs ! n))"
  shows "map_of (item_moves P refs) (ir_id (refs ! n)) = Some (int n + 1)"
proof (rule map_of_is_SomeI)
  have "map fst (item_moves P refs) = map (ir_id \<circ> snd) (filter (\<lambda>(_, r). P (ir_type r)) (List.enumerate 0 refs))"
    by (auto simp: item_moves_def)
  moreover have "distinct (map (ir_id \<circ> snd) (List.enumerate 0 refs))"
    using assms(1) by (simp flip: map_map)
  ultimately show "distinct (map fst (item_moves P refs))"
    by (metis (no_types, lifting) distinct_map_filter)
  have "(n, refs ! n) \<in> set (List.enumerate 0 refs)"
    using assms(2) by (simp add: in_set_enumerate_eq)
  then show "(ir_id (refs ! n), int n + 1) \<in> set (item_moves P refs)"
    using assms(3) by (force simp: item_moves_def)
qed

lemma mset_get_items:
  "mset (get_items pt i) =
     image_mset SongItem (mset (setlist_song_rows pt i))
     + image_mset marker_item (mset (filter (\<lambda>m. mk_setlist m = i) (pt_markers pt)))"
  by (simp add: get_items_def merge_items_def song_rows_def get_markers_def)

lemma sorted_get_items: "sorted (map item_position (get_items pt i))"
  by (simp add: get_items_def merge_items_def)

text \<open>A moved item, and what stays of it.\<close>

definition relocate :: "(uuid \<times> int) list \<Rightarrow> (uuid \<times> int) list \<Rightarrow> setlist_item \<Rightarrow> setlist_item" where
  "relocate songs markers x =
     (case x of
        SongItem s \<Rightarrow> SongItem (s\<lparr>ss_position := moved songs (ss_id s) (ss_position s)\<rparr>)
      | BlockItem p i n \<Rightarrow> BlockItem (moved markers i p) i n
      | BreakItem p i l d \<Rightarrow> BreakItem (moved markers i p) i l d)"

lemma item_ref_of_relocate [simp]: "item_ref_of (relocate songs markers x) = item_ref_of x"
  by (cases x) (simp_all add: relocate_def)

lemma relocate_marker_item:
  "relocate songs markers (marker_item m) = marker_item (m\<lparr>mk_position := moved markers (mk_id m) (mk_position m)\<rparr>)"
  by (simp add: relocate_def marker_item.simps split: marker_type.splits)

lemma item_position_relocate:
  "item_position (relocate songs markers x) =
     moved (if ir_type (item_ref_of x) = SongType then songs else markers) (ir_id (item_ref_of x)) (item_position x)"
  by (cases x) (simp_all add: relocate_def)

lemma mset_get_items_move:
  "mset (get_items (move_markers i markers (move_songs i songs pt)) i) =
     image_mset (relocate songs markers) (mset (get_items pt i))"
proof -
  have "pt_markers (move_songs i songs pt) = pt_markers pt" by (simp add: move_songs_def)
  then show ?thesis
    by (simp add: mset_get_items setlist_song_rows_move markers_of_move image_mset.compositionality comp_def
        relocate_marker_item) (simp add: relocate_def)
qed

section \<open>Claims\<close>

text \<open>
  The capped listing is the listing: asking for the first items of a setlist reads at most
  one more song and one more marker than the cap, and still shows exactly the first items of
  the whole running order, and whether there are more.
\<close>

theorem capped_listing_agrees:
  "take n (get_items_capped pt i n) = take n (get_items pt i)
   \<and> (n < length (get_items_capped pt i n) \<longleftrightarrow> n < length (get_items pt i))"
proof -
  have "take n (get_items_capped pt i n) = take n (get_items pt i)"
    unfolding get_items_capped_eq
    using take_sort_key [OF sorted_song_rows sorted_get_markers, of n "n + 1" pt i pt i]
    by (simp add: get_items_def merge_items_def)
  moreover have "n < length (get_items_capped pt i n) \<longleftrightarrow> n < length (get_items pt i)"
    unfolding get_items_capped_eq by (auto simp: get_items_def merge_items_def min_def)
  ultimately show ?thesis by blast
qed

text \<open>
  C24. A reordering is the order shown: when a list names every item of a setlist once, the
  running order is that list afterwards, and every item is still the same song, block or
  break in the same key.
\<close>

theorem reorder_gives_order:
  assumes "distinct (map ir_id refs)" and "mset refs = image_mset item_ref_of (mset (get_items pt i))"
  shows "map item_ref_of (get_items (reorder_items i refs pt) i) = refs
    \<and> (\<exists>f. mset (get_items (reorder_items i refs pt) i) = image_mset f (mset (get_items pt i))
         \<and> (\<forall>x. item_ref_of (f x) = item_ref_of x
              \<and> (\<forall>s. x = SongItem s \<longrightarrow> (\<exists>p. f x = SongItem (s\<lparr>ss_position := p\<rparr>)))))"
proof -
  let ?songs = "item_moves (\<lambda>t. t = SongType) refs" and ?markers = "item_moves (\<lambda>t. t \<noteq> SongType) refs"
  let ?f = "relocate ?songs ?markers" and ?G = "get_items (reorder_items i refs pt) i"
  define at where "at = (\<lambda>r :: item_ref. unwrap_or (map_of (item_moves (\<lambda>_. True) refs) (ir_id r)) 0)"
  have G: "mset ?G = image_mset ?f (mset (get_items pt i))"
    by (simp add: reorder_items_eq mset_get_items_move)
  then have refs: "mset (map item_ref_of ?G) = mset refs"
    using assms(2) by (simp add: image_mset.compositionality comp_def)
  have at: "at (refs ! n) = int n + 1" if "n < length refs" for n
    using map_of_item_moves [OF assms(1) that, of "\<lambda>_. True"] by (simp add: at_def)
  have pos: "item_position x = at (item_ref_of x)" if "x \<in> set ?G" for x
  proof -
    from that obtain y where y: "x = ?f y" "y \<in> set (get_items pt i)"
      using arg_cong [OF G, of set_mset] by auto
    with arg_cong [OF assms(2), of set_mset] have "item_ref_of y \<in> set refs" by auto
    then obtain n where n: "n < length refs" "refs ! n = item_ref_of y" by (auto simp: in_set_conv_nth)
    then show ?thesis
      using map_of_item_moves [OF assms(1) n(1), of "\<lambda>t. t = SongType"]
        map_of_item_moves [OF assms(1) n(1), of "\<lambda>t. t \<noteq> SongType"] at [OF n(1)] y(1)
      by (auto simp: item_position_relocate moved_def)
  qed
  have mono: "sorted (map at refs)" "distinct (map at refs)"
    using at by (auto simp: sorted_iff_nth_mono distinct_conv_nth)
  have "map at (map item_ref_of ?G) = map item_position ?G" using pos by simp
  then have G_sorted: "sorted (map at (map item_ref_of ?G))" by (simp only: sorted_get_items)
  have "set (map item_ref_of ?G) = set refs" using mset_eq_setD [OF refs] .
  moreover have "distinct (map at (map item_ref_of ?G))"
    using mono(2) refs by (metis mset_eq_imp_distinct_iff mset_map)
  ultimately have "map item_ref_of ?G = refs"
    using mono G_sorted by (intro map_sorted_distinct_set_unique [of at]) (auto simp: distinct_map)
  with G show ?thesis by (auto simp: relocate_def split: setlist_item.splits intro!: exI [of _ ?f])
qed


text \<open>A short show, for the witnesses: two songs of Ana's library and a block.\<close>

definition song_of_ana :: "uuid \<Rightarrow> string \<Rightarrow> song_row" where
  "song_of_ana i t =
     \<lparr>sg_id = i, sg_title = t, sg_artist = 40, sg_user = 7, sg_band = None, sg_version_label = None,
      sg_version_of = None, sg_chart = JObj [], sg_tags = [], sg_deleted_at = None\<rparr>"

definition friday :: setlist_row where
  "friday =
     \<lparr>sl_id = 20, sl_title = ''Friday'', sl_description = None, sl_links = [], sl_user = 7, sl_band = None,
      sl_is_repertoire = False, sl_share_token = None, sl_share_locked_at = None, sl_created_at = 0,
      sl_updated_at = 0, sl_updated_by = None, sl_deleted_at = None\<rparr>"

definition linked_at :: "uuid \<Rightarrow> int \<Rightarrow> linked_row" where
  "linked_at song p =
     \<lparr>ls_setlist = 20, ls_song = song, ls_position = p, ls_transpose = 0, ls_added_by = None, ls_added_at = None\<rparr>"

definition pt_show :: platform where
  "pt_show = (pt_of db_ana)
     \<lparr>pt_artists := [\<lparr>ar_id = 40, ar_name = ''Ana'', ar_user = 7, ar_band = None, ar_created_at = 0,
                      ar_deleted_at = None\<rparr>],
      pt_songs := [song_of_ana 30 ''One'', song_of_ana 31 ''Two'', song_of_ana 32 ''Three''],
      pt_setlists := [friday], pt_linked := [linked_at 30 1, linked_at 31 2],
      pt_markers := [\<lparr>mk_id = 50, mk_setlist = 20, mk_type = Block, mk_label = Some ''Ballads'',
                      mk_duration_minutes = None, mk_position = 3, mk_created_at = 0\<rparr>]\<rparr>"

theorem reorder_gives_order_witness:
  "map item_ref_of (get_items (reorder_items 20
       [\<lparr>ir_type = BlockType, ir_id = 50\<rparr>, \<lparr>ir_type = SongType, ir_id = 31\<rparr>, \<lparr>ir_type = SongType, ir_id = 30\<rparr>]
       pt_show) 20)
   = [\<lparr>ir_type = BlockType, ir_id = 50\<rparr>, \<lparr>ir_type = SongType, ir_id = 31\<rparr>, \<lparr>ir_type = SongType, ir_id = 30\<rparr>]"
proof -
  let ?refs = "[\<lparr>ir_type = BlockType, ir_id = (50 :: uuid)\<rparr>, \<lparr>ir_type = SongType, ir_id = 31\<rparr>,
    \<lparr>ir_type = SongType, ir_id = 30\<rparr>]"
  have items: "map item_ref_of (get_items pt_show 20) =
    [\<lparr>ir_type = SongType, ir_id = 30\<rparr>, \<lparr>ir_type = SongType, ir_id = 31\<rparr>, \<lparr>ir_type = BlockType, ir_id = 50\<rparr>]"
    by code_simp
  have "mset ?refs = mset (map item_ref_of (get_items pt_show 20))"
    unfolding items by simp
  then have "mset ?refs = image_mset item_ref_of (mset (get_items pt_show 20))" by (simp only: mset_map)
  moreover have "distinct (map ir_id ?refs)" by simp
  ultimately show ?thesis using reorder_gives_order [of ?refs pt_show 20] by blast
qed

end
