(* ===== verification/SetlistApi.thy ===== *)
theory SetlistApi
  imports Setlists
begin

text \<open>
  The handlers of \<^verbatim>\<open>src/src/controllers/setlist.rs\<close> that change a setlist, each as the sequence
  of its checks and repository calls. Every repository call is its own transaction: what it
  did stays when a later call fails, so a handler answers a result and the tables.
\<close>

section \<open>Sequencing\<close>

text \<open>A read or a check, and a call that changes the tables, before the rest of a handler.\<close>

definition checked :: "api_error + 'a \<Rightarrow> platform \<Rightarrow> ('a \<Rightarrow> (api_error + 'b) \<times> platform) \<Rightarrow> (api_error + 'b) \<times> platform"
where
  "checked r pt k = (case r of Inl e \<Rightarrow> (Inl e, pt) | Inr x \<Rightarrow> k x)"

definition called :: "api_error + platform \<Rightarrow> platform \<Rightarrow> (platform \<Rightarrow> (api_error + 'b) \<times> platform) \<Rightarrow> (api_error + 'b) \<times> platform"
where
  "called r pt k = (case r of Inl e \<Rightarrow> (Inl e, pt) | Inr pt' \<Rightarrow> k pt')"

definition finish :: "'b \<Rightarrow> api_error + platform \<Rightarrow> platform \<Rightarrow> (api_error + 'b) \<times> platform" where
  "finish x r pt = called r pt (\<lambda>pt. (Inr x, pt))"

lemma checked_simps [simp]: "checked (Inl e) pt k = (Inl e, pt)" "checked (Inr x) pt k = k x"
  by (simp_all add: checked_def)

lemma called_simps [simp]: "called (Inl e) pt k = (Inl e, pt)" "called (Inr pt') pt k = k pt'"
  by (simp_all add: called_def)

lemma finish_simps [simp]: "finish x (Inl e) pt = (Inl e, pt)" "finish x (Inr pt') pt = (Inr x, pt')"
  by (simp_all add: finish_def)

section \<open>Payloads\<close>

definition length_between :: "nat \<Rightarrow> nat \<Rightarrow> 'a list \<Rightarrow> bool" where
  "length_between a b s \<longleftrightarrow> a \<le> length s \<and> length s \<le> b"

definition MAX_DESCRIPTION_LENGTH :: nat where "MAX_DESCRIPTION_LENGTH = 2000"

definition validate_description :: "string \<Rightarrow> bool" where
  "validate_description s \<longleftrightarrow> length s \<le> MAX_DESCRIPTION_LENGTH"

record create_payload =
  cp_title :: string
  cp_description :: "string option"
  cp_band_id :: "uuid option"
  cp_links :: "link_input list option"

definition validate_create :: "create_payload \<Rightarrow> api_error + unit" where
  "validate_create p =
     ensure (length_between 1 255 (cp_title p) \<and> is_none_or (cp_description p) validate_description
             \<and> is_none_or (cp_links p) (length_between 0 5)) ValidationError"

definition validate_update :: "update_payload \<Rightarrow> api_error + unit" where
  "validate_update p =
     ensure (is_none_or (up_title p) (length_between 1 255)
             \<and> is_none_or (up_description p) (\<lambda>d. is_none_or d validate_description)
             \<and> is_none_or (up_links p) (length_between 0 5)) ValidationError"

definition validate_reorder :: "'a list \<Rightarrow> api_error + unit" where
  "validate_reorder ids = ensure (length_between 1 1000 ids) ValidationError"

definition validate_block_name :: "string \<Rightarrow> api_error + unit" where
  "validate_block_name name = ensure (length_between 1 255 name) ValidationError"

definition validate_break :: "string option \<Rightarrow> int option \<Rightarrow> api_error + unit" where
  "validate_break label dur =
     ensure (is_none_or label (length_between 0 255) \<and> is_none_or dur (\<lambda>d. 0 \<le> d \<and> d \<le> 1440)) ValidationError"

definition validate_transpose :: "int \<Rightarrow> api_error + unit" where
  "validate_transpose t = ensure (-11 \<le> t \<and> t \<le> 11) ValidationError"

fun ensure_distinct_go :: "uuid set \<Rightarrow> uuid list \<Rightarrow> api_error + unit" where
  "ensure_distinct_go seen [] = Inr ()"
| "ensure_distinct_go seen (i # is) =
     (if i \<in> seen then Inl BadRequest else ensure_distinct_go (insert i seen) is)"

definition ensure_distinct :: "uuid list \<Rightarrow> api_error + unit" where
  "ensure_distinct ids = ensure_distinct_go {} ids"

definition email_not_verified :: api_error where
  "email_not_verified = rule 403 ''EMAIL_NOT_VERIFIED''"

definition require_verified_email :: "db \<Rightarrow> uuid \<Rightarrow> api_error + unit" where
  "require_verified_email db u =
     ensure (is_some_and (user db u) (\<lambda>r. us_email r \<noteq> None \<and> us_email_verified_at r \<noteq> None)) email_not_verified"

section \<open>The setlist\<close>

definition role_has_permission :: "platform \<Rightarrow> uuid \<Rightarrow> band_role \<Rightarrow> band_permission \<Rightarrow> bool" where
  "role_has_permission pt b r p =
     (if satisfies r BandAdmin then True else unwrap_or (role_permission_allowed pt b r p) False)"

definition create_setlist ::
  "(string \<Rightarrow> url option) \<Rightarrow> time \<Rightarrow> uuid \<Rightarrow> uuid \<Rightarrow> create_payload \<Rightarrow> platform \<Rightarrow> (api_error + setlist_row) \<times> platform"
where
  "create_setlist parse now fresh u p pt =
     checked (validate_create p) pt (\<lambda>_.
     checked (case cp_band_id p of
                Some b \<Rightarrow>
                  (case band_role_of pt b u of
                     None \<Rightarrow> Inl NotFound
                   | Some r \<Rightarrow>
                       if \<not> role_has_permission pt b r ManageSetlists then Inl Forbidden
                       else band_guard now pt b BandSetlists 1)
              | None \<Rightarrow> user_guard now pt u Setlists 1) pt (\<lambda>quota.
     checked (is_unique pt (trim (cp_title p)) u (cp_band_id p) None) pt (\<lambda>_.
     checked (create_setlist_row parse now fresh (cp_title p) (cp_description p) (cp_band_id p)
                (unwrap_or (cp_links p) []) u [quota] pt) pt (\<lambda>(s, pt).
     (Inr s, pt)))))"

definition update_setlist ::
  "(string \<Rightarrow> url option) \<Rightarrow> time \<Rightarrow> uuid \<Rightarrow> uuid \<Rightarrow> update_payload \<Rightarrow> platform \<Rightarrow> (api_error + uuid) \<times> platform"
where
  "update_setlist parse now u i p pt =
     checked (validate_update p) pt (\<lambda>_.
     checked (check_permission pt i u EditDetails) pt (\<lambda>_.
     checked (case up_title p of
                None \<Rightarrow> Inr ()
              | Some title \<Rightarrow>
                  (case find_visible pt i u of
                     None \<Rightarrow> Inl NotFound
                   | Some s \<Rightarrow> is_unique pt title (sl_user s) (sl_band s) (Some i))) pt (\<lambda>_.
     finish i (update_details parse now i p u pt) pt)))"

definition delete_setlist :: "time \<Rightarrow> uuid \<Rightarrow> uuid \<Rightarrow> platform \<Rightarrow> (api_error + unit) \<times> platform" where
  "delete_setlist now u i pt =
     checked (check_permission pt i u Manage) pt (\<lambda>_. finish () (trash_setlist now i u pt) pt)"

section \<open>The running order\<close>

definition update_setlist_song :: "time \<Rightarrow> uuid \<Rightarrow> uuid \<Rightarrow> uuid \<Rightarrow> int \<Rightarrow> platform \<Rightarrow> (api_error + unit) \<times> platform"
where
  "update_setlist_song now u i song t pt =
     checked (validate_transpose t) pt (\<lambda>_.
     checked (check_permission pt i u EditItems) pt (\<lambda>_.
     called (set_song_transpose i song t pt) pt (\<lambda>pt.
     finish () (touch now i u pt) pt)))"

definition reorder_setlist_songs :: "time \<Rightarrow> uuid \<Rightarrow> uuid \<Rightarrow> uuid list \<Rightarrow> platform \<Rightarrow> (api_error + unit) \<times> platform"
where
  "reorder_setlist_songs now u i ids pt =
     checked (validate_reorder ids) pt (\<lambda>_.
     checked (ensure_distinct ids) pt (\<lambda>_.
     checked (check_permission pt i u EditItems) pt (\<lambda>_.
     let pt = reorder_songs i ids pt in
     finish () (touch now i u pt) pt)))"

definition reorder_setlist_items :: "time \<Rightarrow> uuid \<Rightarrow> uuid \<Rightarrow> item_ref list \<Rightarrow> platform \<Rightarrow> (api_error + unit) \<times> platform"
where
  "reorder_setlist_items now u i items pt =
     checked (validate_reorder items) pt (\<lambda>_.
     checked (ensure_distinct (map ir_id items)) pt (\<lambda>_.
     checked (check_permission pt i u EditItems) pt (\<lambda>_.
     let pt = reorder_items i items pt in
     finish () (touch now i u pt) pt)))"

definition option_list :: "'a option \<Rightarrow> 'a list" where
  "option_list m = (case m of None \<Rightarrow> [] | Some x \<Rightarrow> [x])"

definition create_setlist_block ::
  "time \<Rightarrow> uuid \<Rightarrow> uuid \<Rightarrow> uuid \<Rightarrow> string \<Rightarrow> platform \<Rightarrow> (api_error + marker_row) \<times> platform"
where
  "create_setlist_block now fresh u i name pt =
     checked (validate_block_name name) pt (\<lambda>_.
     checked (check_permission pt i u EditItems) pt (\<lambda>_.
     checked (setlist_item_room now pt i 1) pt (\<lambda>quota.
     checked (create_marker now fresh i Block (Some (trim name)) None (option_list quota) pt) pt (\<lambda>(m, pt).
     finish m (touch now i u pt) pt))))"

definition create_setlist_break ::
  "time \<Rightarrow> uuid \<Rightarrow> uuid \<Rightarrow> uuid \<Rightarrow> string option \<Rightarrow> int option \<Rightarrow> platform \<Rightarrow> (api_error + marker_row) \<times> platform"
where
  "create_setlist_break now fresh u i label dur pt =
     checked (validate_break label dur) pt (\<lambda>_.
     checked (check_permission pt i u EditItems) pt (\<lambda>_.
     checked (setlist_item_room now pt i 1) pt (\<lambda>quota.
     checked (create_marker now fresh i Break label dur (option_list quota) pt) pt (\<lambda>(m, pt).
     finish m (touch now i u pt) pt))))"

definition update_setlist_block ::
  "time \<Rightarrow> uuid \<Rightarrow> uuid \<Rightarrow> uuid \<Rightarrow> string \<Rightarrow> platform \<Rightarrow> (api_error + marker_row) \<times> platform"
where
  "update_setlist_block now u i marker name pt =
     checked (validate_block_name name) pt (\<lambda>_.
     checked (check_permission pt i u EditItems) pt (\<lambda>_.
     case update_marker i marker (Some (trim name)) None False pt of
       (Inl e, pt) \<Rightarrow> (Inl e, pt)
     | (Inr m, pt) \<Rightarrow> finish m (touch now i u pt) pt))"

definition update_setlist_break ::
  "time \<Rightarrow> uuid \<Rightarrow> uuid \<Rightarrow> uuid \<Rightarrow> string option \<Rightarrow> int option \<Rightarrow> platform \<Rightarrow> (api_error + marker_row) \<times> platform"
where
  "update_setlist_break now u i marker label dur pt =
     checked (validate_break label dur) pt (\<lambda>_.
     checked (check_permission pt i u EditItems) pt (\<lambda>_.
     case update_marker i marker label dur True pt of
       (Inl e, pt) \<Rightarrow> (Inl e, pt)
     | (Inr m, pt) \<Rightarrow> finish m (touch now i u pt) pt))"

definition delete_setlist_marker :: "time \<Rightarrow> uuid \<Rightarrow> uuid \<Rightarrow> uuid \<Rightarrow> platform \<Rightarrow> (api_error + unit) \<times> platform"
where
  "delete_setlist_marker now u i marker pt =
     checked (check_permission pt i u EditItems) pt (\<lambda>_.
     called (delete_marker i marker pt) pt (\<lambda>pt.
     finish () (touch now i u pt) pt))"

section \<open>Public links\<close>

definition enable_setlist_sharing :: "time \<Rightarrow> string \<Rightarrow> uuid \<Rightarrow> uuid \<Rightarrow> platform \<Rightarrow> (api_error + setlist_row) \<times> platform"
where
  "enable_setlist_sharing now tok u i pt =
     checked (check_permission pt i u Manage) pt (\<lambda>_.
     checked (require_verified_email (pt_db pt) u) pt (\<lambda>_.
     checked (ensure_feature now (pt_db pt) u PublicSharing) pt (\<lambda>_.
     enable_sharing tok i pt)))"

definition disable_setlist_sharing :: "uuid \<Rightarrow> uuid \<Rightarrow> platform \<Rightarrow> (api_error + unit) \<times> platform" where
  "disable_setlist_sharing u i pt =
     checked (check_permission pt i u Manage) pt (\<lambda>_. finish () (disable_sharing i pt) pt)"

text \<open>\<open>withhold_share_token_from_non_managers\<close>, for a setlist the caller was found.\<close>

definition withhold_share_token :: "platform \<Rightarrow> uuid \<Rightarrow> setlist_row \<Rightarrow> api_error + setlist_row" where
  "withhold_share_token pt u s =
     (if sl_share_token s = None then Inr s
      else if sl_band s = None then Inr (if sl_user s \<noteq> u then s\<lparr>sl_share_token := None\<rparr> else s)
      else case check_permission pt (sl_id s) u Manage of
             Inr _ \<Rightarrow> Inr s
           | Inl (DatabaseError e) \<Rightarrow> Inl (DatabaseError e)
           | Inl _ \<Rightarrow> Inr (s\<lparr>sl_share_token := None\<rparr>))"

end
