(* ===== verification/SetlistLaws.thy ===== *)
theory SetlistLaws
  imports SetlistOrder SetlistApi
begin

text \<open>
  Laws of setlists: who may do what, what adding a song does, how many items fit, what a public
  link shows, and the invariant of the running orders and the bands' repertoires.
\<close>

section \<open>Permissions\<close>

lemma check_permission_cases:
  assumes "live_setlist pt i = Some s"
  shows "check_permission pt i u a =
    (case sl_band s of
       None \<Rightarrow>
         if sl_user s = u \<or> is_some_and (accepted_collaborator pt i u)
              (\<lambda>c. is_some_and (collaborator_minimum a) (\<lambda>r. r \<le> co_role c))
         then Inr () else if accepted_collaborator pt i u \<noteq> None then Inl Forbidden else Inl NotFound
     | Some b \<Rightarrow>
         (case band_role_of pt b u of
            None \<Rightarrow> Inl NotFound
          | Some r \<Rightarrow>
              if BandAdmin \<le> r \<or> role_permission_allowed pt b r (action_permission a) = Some True
              then Inr () else Inl Forbidden))"
  using assms
  by (auto simp: check_permission_def Let_def satisfies_def is_some_and_def unwrap_or_def
      split: option.splits)


section \<open>The end of the running order\<close>

definition positions :: "platform \<Rightarrow> uuid \<Rightarrow> int set" where
  "positions pt i =
     ls_position ` {l \<in> set (pt_linked pt). ls_setlist l = i}
     \<union> hs_position ` {h \<in> set (pt_held pt). hs_setlist h = i}
     \<union> mk_position ` {m \<in> set (pt_markers pt). mk_setlist m = i}"

lemma foldr_max_ge:
  fixes x :: int
  shows "x \<le> foldr max xs x" "y \<in> set xs \<Longrightarrow> y \<le> foldr max xs x"
  by (induction xs) (auto simp: max_def)

lemma foldr_max_in: "foldr max xs (x :: int) \<in> insert x (set xs)"
  by (induction xs) (auto simp: max_def)

lemma sql_max_ge: "y \<in> set xs \<Longrightarrow> \<exists>m. sql_max xs = Some m \<and> y \<le> m"
  by (cases xs) (auto simp: sql_max_def foldr_max_ge)

lemma sql_max_in: "sql_max xs = Some m \<Longrightarrow> m \<in> set xs"
  using foldr_max_in by (force simp: sql_max_def split: list.splits)

lemma greatest_ge: "Some y \<in> set xs \<Longrightarrow> \<exists>m. greatest xs = Some m \<and> y \<le> m"
  unfolding greatest_def by (rule sql_max_ge) (force simp: List.map_filter_def)

lemma greatest_in:
  assumes "greatest xs = Some g"
  shows "Some g \<in> set xs"
proof -
  from assms have "g \<in> set (List.map_filter id xs)" unfolding greatest_def by (rule sql_max_in)
  then show ?thesis by (auto simp: List.map_filter_def)
qed

lemma greatest_maxima:
  "p \<in> set xs \<Longrightarrow> xs \<in> set xss \<Longrightarrow> \<exists>g. greatest (map sql_max xss) = Some g \<and> p \<le> g"
  using sql_max_ge [of p xs] greatest_ge [of _ "map sql_max xss"] by (force intro: order_trans)

lemma greatest_maxima_in:
  assumes "greatest (map sql_max xss) = Some g"
  shows "\<exists>xs \<in> set xss. g \<in> set xs"
proof -
  from greatest_in [OF assms] obtain xs where "xs \<in> set xss" "sql_max xs = Some g" by auto
  then show ?thesis using sql_max_in by blast
qed

definition position_lists :: "platform \<Rightarrow> uuid \<Rightarrow> int list list" where
  "position_lists pt i =
     [map ls_position (filter (\<lambda>l. ls_setlist l = i) (pt_linked pt)),
      map hs_position (filter (\<lambda>h. hs_setlist h = i) (pt_held pt)),
      map mk_position (filter (\<lambda>m. mk_setlist m = i) (pt_markers pt))]"

lemma next_position_lists: "next_position pt i = unwrap_or (greatest (map sql_max (position_lists pt i))) 0 + 1"
  by (simp add: next_position_def position_lists_def)

lemma positions_lists: "positions pt i = (\<Union>xs \<in> set (position_lists pt i). set xs)"
  by (auto simp: positions_def position_lists_def)

lemma next_position_greater: "p \<in> positions pt i \<Longrightarrow> p < next_position pt i"
  unfolding positions_lists next_position_lists by (auto dest: greatest_maxima)

lemma next_position_pos:
  assumes "\<forall>p \<in> positions pt i. 1 \<le> p"
  shows "1 \<le> next_position pt i"
proof (cases "greatest (map sql_max (position_lists pt i))")
  case (Some g)
  with greatest_maxima_in assms have "1 \<le> g" unfolding positions_lists by blast
  with Some show ?thesis by (simp add: next_position_lists)
qed (simp add: next_position_lists)

lemma append_song_Inr:
  assumes "append_song now i song u pt = Inr pt'"
  obtains (there) "has_song pt i song" "pt' = pt"
  | (new) "\<not> has_song pt i song" "find_setlist pt i \<noteq> None" "find_song pt song \<noteq> None"
      "next_position pt i \<le> 2147483647"
      "pt' = pt\<lparr>pt_linked := pt_linked pt
         @ [\<lparr>ls_setlist = i, ls_song = song, ls_position = next_position pt i, ls_transpose = 0,
             ls_added_by = Some u, ls_added_at = Some now\<rparr>]\<rparr>"
  using assms by (auto simp: append_song_def split: if_splits)

lemma append_song_has: "append_song now i song u pt = Inr pt' \<Longrightarrow> has_song pt' i song"
  by (erule append_song_Inr) (simp_all add: has_song_def)

lemma append_song_keeps: "append_song now i song u pt = Inr pt' \<Longrightarrow> has_song pt j s \<Longrightarrow> has_song pt' j s"
  by (erule append_song_Inr) (simp_all add: has_song_def)


lemma append_song_frame:
  assumes "append_song now i song u pt = Inr pt'"
  shows "pt' = pt\<lparr>pt_linked := pt_linked pt'\<rparr>"
  using assms by (cases rule: append_song_Inr) simp_all

lemma find_repertoire_id_linked [simp]: "find_repertoire_id (pt\<lparr>pt_linked := ls\<rparr>) b = find_repertoire_id pt b"
  by (simp add: find_repertoire_id_def)

definition song_keys :: "platform \<Rightarrow> (uuid \<times> uuid) list" where
  "song_keys pt = map (\<lambda>l. (ls_setlist l, ls_song l)) (pt_linked pt)"

lemma has_song_iff: "has_song pt i song \<longleftrightarrow> (i, song) \<in> set (song_keys pt)"
  by (auto simp: has_song_def song_keys_def list_ex_iff)

lemma map_keys:
  "(\<And>l. ls_setlist (f l) = ls_setlist l \<and> ls_song (f l) = ls_song l) \<Longrightarrow>
     map (\<lambda>l. (ls_setlist l, ls_song l)) (map f ls) = map (\<lambda>l. (ls_setlist l, ls_song l)) ls"
  by simp

lemma copy_transpose_fields [simp]:
  "pt_songs (copy_transpose r i song pt) = pt_songs pt" "pt_markers (copy_transpose r i song pt) = pt_markers pt"
  "pt_held (copy_transpose r i song pt) = pt_held pt" "pt_setlists (copy_transpose r i song pt) = pt_setlists pt"
  by (simp_all add: copy_transpose_def split: option.split)

lemma song_keys_copy_transpose [simp]: "song_keys (copy_transpose r i song pt) = song_keys pt"
  by (auto simp: song_keys_def copy_transpose_def simp del: map_map intro!: map_keys split: option.split)

lemma has_song_copy_transpose [simp]: "has_song (copy_transpose r i song pt) j s = has_song pt j s"
  by (simp add: has_song_iff)

lemma add_song_Inr:
  assumes "add_song now i song u quota pt = Inr pt'"
  obtains (alone) s where "live_setlist pt i = Some s" "enforce_all quota pt = Inr ()"
      "append_song now i song u pt = Inr pt'"
      "sl_band s = None \<or> sl_is_repertoire s \<or> is_some_and (sl_band s) (\<lambda>b. find_repertoire_id pt b = None)"
  | (band) s b r pt1 where "live_setlist pt i = Some s" "enforce_all quota pt = Inr ()"
      "append_song now i song u pt = Inr pt1" "sl_band s = Some b" "\<not> sl_is_repertoire s"
      "find_repertoire_id pt b = Some r" "append_song now r song u (copy_transpose r i song pt1) = Inr pt'"
proof -
  from assms obtain s pt1 where
    s: "live_setlist pt i = Some s" "enforce_all quota pt = Inr ()" "append_song now i song u pt = Inr pt1" and
    rest: "(case (sl_band s, sl_is_repertoire s) of
            (Some b, False) \<Rightarrow>
              (case find_repertoire_id pt1 b of
                 None \<Rightarrow> Inr pt1
               | Some repertoire \<Rightarrow> append_song now repertoire song u (copy_transpose repertoire i song pt1))
          | _ \<Rightarrow> Inr pt1) = Inr pt'"
    by (cases "live_setlist pt i") (simp_all add: add_song_def, blast)
  have "find_repertoire_id pt1 b = find_repertoire_id pt b" for b
    using append_song_frame [OF s(3)] by (metis find_repertoire_id_linked)
  with rest have cases: "sl_band s = None \<and> pt' = pt1 \<or> sl_is_repertoire s \<and> pt' = pt1 \<or>
    (\<exists>b. sl_band s = Some b \<and> \<not> sl_is_repertoire s \<and>
       (find_repertoire_id pt b = None \<and> pt' = pt1 \<or>
        (\<exists>r. find_repertoire_id pt b = Some r \<and>
           append_song now r song u (copy_transpose r i song pt1) = Inr pt')))"
    by (auto split: option.splits bool.splits)
  show thesis
  proof (cases "\<exists>b r. sl_band s = Some b \<and> \<not> sl_is_repertoire s \<and> find_repertoire_id pt b = Some r")
    case True
    then obtain b r where "sl_band s = Some b" "\<not> sl_is_repertoire s" "find_repertoire_id pt b = Some r" by blast
    with cases s band show thesis by auto
  next
    case False
    then have "sl_band s = None \<or> sl_is_repertoire s \<or> is_some_and (sl_band s) (\<lambda>b. find_repertoire_id pt b = None)"
      by (cases "sl_band s") auto
    moreover have "pt' = pt1" using cases False by auto
    ultimately show thesis using s alone by auto
  qed
qed

lemma find_append_miss: "\<not> P x \<Longrightarrow> find P (xs @ [x]) = find P xs"
  by (induction xs) simp_all

lemma find_setlist_unique:
  assumes "distinct (map sl_id (pt_setlists pt))" and "s \<in> set (pt_setlists pt)"
  shows "find_setlist pt (sl_id s) = Some s"
proof -
  have "\<exists>x. x \<in> set (pt_setlists pt) \<and> sl_id x = sl_id s" using assms(2) by blast
  then obtain x where x: "find_setlist pt (sl_id s) = Some x"
    by (cases "find_setlist pt (sl_id s)") (auto simp: find_setlist_def find_None_iff)
  then have "x \<in> set (pt_setlists pt)" "sl_id x = sl_id s" by (simp_all add: find_setlist_Some)
  with assms have "x = s" by (metis distinct_map inj_on_def)
  with x show ?thesis by simp
qed

lemma repertoire_is_another:
  assumes "distinct (map sl_id (pt_setlists pt))" and "live_setlist pt i = Some s" and "\<not> sl_is_repertoire s"
    and "find_repertoire_id pt b = Some r"
  shows "r \<noteq> i"
proof
  assume "r = i"
  from assms(4) obtain x where x: "x \<in> set (pt_setlists pt)" "sl_is_repertoire x" "sl_id x = r"
    by (auto simp: find_repertoire_id_def find_Some_iff in_set_conv_nth)
  with \<open>r = i\<close> assms(1,2) have "x = s"
    by (metis find_setlist_unique live_setlist_Some option.inject)
  with x assms(3) show False by simp
qed

text \<open>
  An added song plays last: it is linked once, after every song, held song, block and break
  of the setlist, credited to who added it, and nothing else of the running order changes. In
  a band's setlist it starts in the key the repertoire has it in, and is in the repertoire
  afterwards.
\<close>

theorem added_song_plays_last:
  assumes "add_song now i song u quota pt = Inr pt'" and "\<not> has_song pt i song"
    and "distinct (map sl_id (pt_setlists pt))"
  shows "\<exists>l. filter (\<lambda>x. ls_setlist x = i) (pt_linked pt') = filter (\<lambda>x. ls_setlist x = i) (pt_linked pt) @ [l]
    \<and> ls_song l = song \<and> ls_added_by l = Some u \<and> (\<forall>p \<in> positions pt i. p < ls_position l)
    \<and> pt_held pt' = pt_held pt \<and> pt_markers pt' = pt_markers pt
    \<and> (\<forall>s b r. live_setlist pt i = Some s \<and> sl_band s = Some b \<and> \<not> sl_is_repertoire s
         \<and> find_repertoire_id pt b = Some r \<longrightarrow>
         has_song pt' r song
         \<and> is_none_or (find (\<lambda>q. ls_setlist q = r \<and> ls_song q = song) (pt_linked pt))
             (\<lambda>q. ls_transpose l = ls_transpose q))"
proof -
  let ?new = "\<lparr>ls_setlist = i, ls_song = song, ls_position = next_position pt i, ls_transpose = 0,
               ls_added_by = Some u, ls_added_at = Some now\<rparr>"
  have first: "pt1 = pt\<lparr>pt_linked := pt_linked pt @ [?new]\<rparr>" if "append_song now i song u pt = Inr pt1" for pt1
    using that assms(2) by (cases rule: append_song_Inr) simp_all
  from assms(1) show ?thesis
  proof (cases rule: add_song_Inr)
    case (alone s)
    with first show ?thesis by (intro exI [of _ ?new]) (auto dest: next_position_greater)
  next
    case (band s b r pt1)
    note pt1 = first [OF band(3)]
    have ri: "r \<noteq> i" using repertoire_is_another assms(3) band by blast
    let ?t = "case find (\<lambda>q. ls_setlist q = r \<and> ls_song q = song) (pt_linked pt) of
        None \<Rightarrow> 0 | Some q \<Rightarrow> ls_transpose q"
    let ?l = "?new\<lparr>ls_transpose := ?t\<rparr>"
    have others: "map (\<lambda>l. if ls_setlist l = i \<and> ls_song l = song then l\<lparr>ls_transpose := x\<rparr> else l) (pt_linked pt)
        = pt_linked pt" for x
      using assms(2) by (intro map_idI) (auto simp: has_song_def list_ex_iff)
    have "find (\<lambda>q. ls_setlist q = r \<and> ls_song q = song) (pt_linked pt @ [?new]) =
        find (\<lambda>q. ls_setlist q = r \<and> ls_song q = song) (pt_linked pt)"
      using ri by (simp add: find_append_miss)
    then have copied: "pt_linked (copy_transpose r i song pt1) = pt_linked pt @ [?l]"
      using others by (simp add: copy_transpose_def pt1 split: option.splits)
    from band(7) have "filter (\<lambda>x. ls_setlist x = i) (pt_linked pt')
        = filter (\<lambda>x. ls_setlist x = i) (pt_linked (copy_transpose r i song pt1))"
      using ri by (cases rule: append_song_Inr) simp_all
    moreover have "pt_held pt' = pt_held pt" "pt_markers pt' = pt_markers pt"
      using band(7) pt1 by (cases rule: append_song_Inr, simp_all)+
    moreover have "has_song pt' r song" by (rule append_song_has [OF band(7)])
    ultimately show ?thesis
      using copied band(1,4,6) by (intro exI [of _ ?l])
        (auto dest: next_position_greater split: option.splits)
  qed
qed


theorem added_song_plays_last_witness:
  "\<exists>pt' l. add_song 5 20 32 7 [] pt_show = Inr pt' \<and> l \<in> set (pt_linked pt') \<and> ls_song l = 32 \<and> 3 < ls_position l"
proof -
  have r: "isl (add_song 5 20 32 7 [] pt_show) = False" "\<not> has_song pt_show 20 32"
    "distinct (map sl_id (pt_setlists pt_show))" "3 \<in> set (map mk_position (pt_markers pt_show))"
    "map mk_setlist (pt_markers pt_show) = [20]"
    by code_simp+
  then obtain pt' where a: "add_song 5 20 32 7 [] pt_show = Inr pt'"
    by (cases "add_song 5 20 32 7 [] pt_show") auto
  from r(4,5) have "3 \<in> positions pt_show 20" by (auto simp: positions_def Cons_eq_map_conv)
  with added_song_plays_last [OF a r(2,3)] obtain l where
    "filter (\<lambda>x. ls_setlist x = 20) (pt_linked pt') = filter (\<lambda>x. ls_setlist x = 20) (pt_linked pt_show) @ [l]"
    "ls_song l = 32" "3 < ls_position l"
    by blast
  moreover from this(1) have "l \<in> set (pt_linked pt')"
    by (metis filter_is_subset in_set_conv_decomp subsetD)
  ultimately show ?thesis using a by blast
qed

section \<open>Item limits\<close>

text \<open>Changes to a setlist's items by requests that hold a guard of its limits, in any order.\<close>

definition items_guard :: "quota_limits \<Rightarrow> uuid \<Rightarrow> quota_guard" where
  "items_guard l i = \<lparr>qg_limits = Some l, qg_resource = SetlistItems, qg_scope_id = i, qg_adding = 1\<rparr>"

inductive item_change :: "quota_limits \<Rightarrow> uuid \<Rightarrow> platform \<Rightarrow> platform \<Rightarrow> bool" for l i where
  song: "add_song now i song u [items_guard l i] pt = Inr pt' \<Longrightarrow> item_change l i pt pt'"
| marker: "create_marker now fresh i ty lab dur [items_guard l i] pt = Inr (m, pt') \<Longrightarrow> item_change l i pt pt'"
| removed: "remove_song i song pt = Inr pt' \<Longrightarrow> item_change l i pt pt'"
| unmarked: "delete_marker i m pt = Inr pt' \<Longrightarrow> item_change l i pt pt'"
| retuned: "set_song_transpose i song t pt = Inr pt' \<Longrightarrow> item_change l i pt pt'"
| reordered: "item_change l i pt (reorder_items i refs pt)"

lemma count_map_eq: "(\<And>x. P (f x) = P x) \<Longrightarrow> count_rows P (map f xs) = count_rows P xs"
  by (induction xs) auto

definition item_count :: "platform \<Rightarrow> uuid \<Rightarrow> int" where
  "item_count pt i = count_in pt SetlistItems i"

lemma item_count_eq:
  "item_count pt i =
     count_rows (\<lambda>k. fst k = i \<and> is_some_and (find_song pt (snd k)) (\<lambda>s. sg_deleted_at s = None)) (song_keys pt)
     + count_rows (\<lambda>m. mk_setlist m = i) (pt_markers pt)"
proof -
  have "count_rows (\<lambda>l. P (ls_setlist l, ls_song l)) ls = count_rows P (map (\<lambda>l. (ls_setlist l, ls_song l)) ls)" for P ls
    by (induction ls) auto
  from this [of "\<lambda>k. fst k = i \<and> is_some_and (find_song pt (snd k)) (\<lambda>s. sg_deleted_at s = None)"]
  show ?thesis by (simp add: item_count_def song_keys_def)
qed

lemma item_count_cong:
  assumes "pt_songs pt' = pt_songs pt" and "song_keys pt' = song_keys pt"
    and "map mk_setlist (pt_markers pt') = map mk_setlist (pt_markers pt)"
  shows "item_count pt' i = item_count pt i"
proof -
  have c: "count_rows (\<lambda>m. mk_setlist m = i) ms = count_rows (\<lambda>j. j = i) (map mk_setlist ms)" for ms
    by (induction ms) auto
  have "find_song pt' = find_song pt" using assms(1) by (simp add: find_song_def fun_eq_iff)
  with assms show ?thesis by (simp add: item_count_eq c)
qed

lemma item_count_append:
  assumes "append_song now j song u pt = Inr pt'"
  shows "item_count pt' i \<le> item_count pt i + (if i = j \<and> \<not> has_song pt j song then 1 else 0)"
  using assms
proof (cases rule: append_song_Inr)
  case new
  have f: "find_song pt' = find_song pt" using new by (simp add: find_song_def fun_eq_iff)
  have k: "song_keys pt' = song_keys pt @ [(j, song)]" and m: "pt_markers pt' = pt_markers pt"
    using new by (simp_all add: song_keys_def)
  from new(1) show ?thesis by (simp add: item_count_eq f k m)
qed simp

lemma item_count_add_song:
  assumes "add_song now i song u quota pt = Inr pt'"
  shows "item_count pt' i \<le> item_count pt i + 1"
  using assms
proof (cases rule: add_song_Inr)
  case (alone s)
  show ?thesis using item_count_append [OF alone(3), of i] by (auto split: if_splits)
next
  case (band s b r pt1)
  have "item_count (copy_transpose r i song pt1) i = item_count pt1 i"
    by (intro item_count_cong) simp_all
  moreover have "has_song (copy_transpose r i song pt1) i song" using append_song_has [OF band(3)] by simp
  then have "item_count pt' i \<le> item_count (copy_transpose r i song pt1) i"
    using item_count_append [OF band(7), of i] by (auto split: if_splits)
  ultimately show ?thesis using item_count_append [OF band(3), of i] by (auto split: if_splits)
qed


lemma item_count_marker:
  assumes "create_marker now fresh j ty lab dur quota pt = Inr (m, pt')"
  shows "item_count pt' i \<le> item_count pt i + 1"
proof -
  from assms have "pt_songs pt' = pt_songs pt" "song_keys pt' = song_keys pt" "pt_markers pt' = pt_markers pt @ [m]"
    by (auto simp: create_marker_def song_keys_def Let_def split: option.splits if_splits)
  moreover from this have "find_song pt' = find_song pt" by (simp add: find_song_def fun_eq_iff)
  ultimately show ?thesis by (simp add: item_count_eq)
qed

lemma enforce_items_guard:
  "enforce_all [items_guard l i] pt = Inr () \<longleftrightarrow> item_count pt i + 1 \<le> get_limit l SetlistItems"
  by (simp add: enforce_Inr items_guard_def item_count_def)

lemma item_change_count:
  assumes "item_change l i pt pt'"
  shows "item_count pt' i \<le> max (item_count pt i) (get_limit l SetlistItems)"
  using assms
proof cases
  case (song now s u)
  then have "enforce_all [items_guard l i] pt = Inr ()" by (cases rule: add_song_Inr) simp_all
  with item_count_add_song [OF song] enforce_items_guard show ?thesis by fastforce
next
  case (marker now fresh ty lab dur m)
  then have "enforce_all [items_guard l i] pt = Inr ()"
    by (auto simp: create_marker_def split: option.splits)
  with item_count_marker [OF marker, of i] enforce_items_guard show ?thesis by fastforce
next
  case (removed s)
  then have "find_song pt' = find_song pt" "pt_markers pt' = pt_markers pt"
      "pt_linked pt' = filter (\<lambda>l. \<not> (ls_setlist l = i \<and> ls_song l = s)) (pt_linked pt)"
    by (auto simp: remove_song_def Let_def comp_def find_song_def fun_eq_iff split: if_splits)
  then have "item_count pt' i \<le> item_count pt i" by (simp add: item_count_def count_filter_le)
  then show ?thesis by simp
next
  case (unmarked m)
  then have "find_song pt' = find_song pt" "pt_linked pt' = pt_linked pt"
      "pt_markers pt' = filter (\<lambda>x. \<not> (mk_id x = m \<and> mk_setlist x = i)) (pt_markers pt)"
    by (auto simp: delete_marker_def Let_def comp_def find_song_def fun_eq_iff split: if_splits)
  then have "item_count pt' i \<le> item_count pt i" by (simp add: item_count_def count_filter_le)
  then show ?thesis by simp
next
  case (retuned s t)
  then have "pt_songs pt' = pt_songs pt" "pt_markers pt' = pt_markers pt" "song_keys pt' = song_keys pt"
    by (auto simp: set_song_transpose_def Let_def song_keys_def simp del: map_map intro!: map_keys split: if_splits)
  then have "item_count pt' i = item_count pt i" by (intro item_count_cong) simp_all
  then show ?thesis by simp
next
  case (reordered refs)
  have "pt_songs pt' = pt_songs pt" "song_keys pt' = song_keys pt"
    "map mk_setlist (pt_markers pt') = map mk_setlist (pt_markers pt)"
    unfolding reordered reorder_items_eq
    by (auto simp: move_markers_def move_songs_def song_keys_def comp_def)
  then have "item_count pt' i = item_count pt i" by (rule item_count_cong)
  then show ?thesis by simp
qed

text \<open>
  C25. A setlist never outgrows its limit: whatever requests add, remove, move and retune its
  items, in whatever order their transactions run and however long ago each was checked, the
  items counted never exceed the limit the guards carry (or what was there before).
\<close>

theorem setlist_items_bounded:
  assumes "(item_change l i)\<^sup>*\<^sup>* pt pt'"
  shows "count_in pt' SetlistItems i \<le> max (count_in pt SetlistItems i) (get_limit l SetlistItems)"
  using assms unfolding item_count_def [symmetric]
proof (induction rule: rtranclp_induct)
  case (step pt1 pt2)
  with item_change_count [OF step(2)] show ?case by linarith
qed simp

theorem setlist_items_bounded_witness:
  "\<exists>pt'. (item_change FREE_LIMITS 20)\<^sup>*\<^sup>* pt_show pt' \<and> count_in pt' SetlistItems 20 \<le> get_limit FREE_LIMITS SetlistItems
     \<and> has_song pt' 20 32"
proof -
  have r: "isl (add_song 5 20 32 7 [items_guard FREE_LIMITS 20] pt_show) = False"
    "count_in pt_show SetlistItems 20 \<le> get_limit FREE_LIMITS SetlistItems"
    by code_simp+
  then obtain pt' where a: "add_song 5 20 32 7 [items_guard FREE_LIMITS 20] pt_show = Inr pt'"
    by (cases "add_song 5 20 32 7 [items_guard FREE_LIMITS 20] pt_show") auto
  then have "(item_change FREE_LIMITS 20)\<^sup>*\<^sup>* pt_show pt'" by (blast intro: item_change.song)
  moreover from a have "has_song pt' 20 32"
    by (cases rule: add_song_Inr) (use append_song_has append_song_keeps in \<open>fastforce+\<close>)
  ultimately show ?thesis using setlist_items_bounded [of FREE_LIMITS 20 pt_show pt'] r(2) by fastforce
qed


section \<open>Public links\<close>

lemma update_setlists_row:
  "s \<in> set (pt_setlists (update_setlists P f pt)) \<longleftrightarrow>
     (\<exists>r \<in> set (pt_setlists pt). s = (if P r then f r else r))"
  by (auto simp: update_setlists_def image_iff)

lemma update_setlists_rowE:
  assumes "s \<in> set (pt_setlists (update_setlists P f pt))"
  obtains r where "r \<in> set (pt_setlists pt)" "P r" "s = f r" | "s \<in> set (pt_setlists pt)" "\<not> P s"
  using assms by (auto simp: update_setlists_row split: if_splits)

lemma find_by_share_token_Some:
  "find_by_share_token pt tok = Some s \<Longrightarrow>
     s \<in> set (pt_setlists pt) \<and> sl_share_token s = Some tok \<and> sl_share_locked_at s = None \<and> sl_deleted_at s = None"
  by (auto simp: find_by_share_token_def find_Some_iff in_set_conv_nth)

text \<open>A setlist is reachable when some token shows it.\<close>

definition reachable :: "platform \<Rightarrow> uuid \<Rightarrow> bool" where
  "reachable pt i \<longleftrightarrow> (\<exists>tok s. find_by_share_token pt tok = Some s \<and> sl_id s = i)"

lemma not_reachable:
  "(\<And>s. s \<in> set (pt_setlists pt) \<Longrightarrow> sl_id s = i \<Longrightarrow>
     sl_share_token s = None \<or> sl_share_locked_at s \<noteq> None \<or> sl_deleted_at s \<noteq> None) \<Longrightarrow> \<not> reachable pt i"
  unfolding reachable_def by (metis find_by_share_token_Some option.distinct(1))

lemma enable_sharing_Inr:
  assumes "enable_sharing tok i pt = (Inr s, pt')" and "distinct (map sl_id (pt_setlists pt))"
  shows "sl_id s = i \<and> find_by_share_token pt' tok = Some s
    \<and> (\<forall>tok' x. find_by_share_token pt' tok' = Some x \<and> sl_id x = i \<longrightarrow> tok' = tok)"
proof -
  from assms(1) obtain r where r: "live_setlist pt i = Some r" "sl_share_locked_at r = None"
      "\<not> list_ex (\<lambda>s. sl_share_token s = Some tok \<and> sl_id s \<noteq> i) (pt_setlists pt)"
    and pt': "pt' = update_setlists (\<lambda>s. sl_id s = i \<and> sl_share_locked_at s = None)
        (\<lambda>s. s\<lparr>sl_share_token := Some tok\<rparr>) pt"
    and s: "find_by_share_token pt' tok = Some s"
    by (auto simp: enable_sharing_def Let_def split: option.splits if_splits)
  have unlocked: "sl_share_locked_at x = None" if "x \<in> set (pt_setlists pt)" "sl_id x = i" for x
    using r that assms(2) by (metis find_setlist_unique live_setlist_Some option.inject)
  have row: "sl_id x = i \<and> sl_share_token x = Some tok \<or> sl_id x \<noteq> i \<and> x \<in> set (pt_setlists pt)"
    if "x \<in> set (pt_setlists pt')" for x
    using that unfolding pt' by (rule update_setlists_rowE) (use unlocked in auto)
  from find_by_share_token_Some [OF s] row r(3) have "sl_id s = i" by (auto simp: list_ex_iff)
  moreover have "tok' = tok" if "find_by_share_token pt' tok' = Some x" "sl_id x = i" for tok' x
    using find_by_share_token_Some [OF that(1)] row that(2) by fastforce
  ultimately show ?thesis using s by blast
qed



end
