(* ===== verification/SetlistRun.thy ===== *)
theory SetlistRun
  imports SetlistLaws
begin

text \<open>
  Every request on setlists, and the invariant they keep. The invariant is stated on the shape of
  the tables: which setlists there are, of which band and whether they are its repertoire, which
  songs each links, and which markers each has. Most requests leave the shape alone.
\<close>

section \<open>Shape and invariant\<close>

definition skeleton :: "platform \<Rightarrow> (uuid \<times> uuid option \<times> bool) list" where
  "skeleton pt = map (\<lambda>s. (sl_id s, sl_band s, sl_is_repertoire s)) (pt_setlists pt)"

definition marker_keys :: "platform \<Rightarrow> (uuid \<times> uuid) list" where
  "marker_keys pt = map (\<lambda>m. (mk_id m, mk_setlist m)) (pt_markers pt)"

text \<open>A band's repertoire holds every song of the band's setlists.\<close>

definition covers :: "(uuid \<times> uuid option \<times> bool) list \<Rightarrow> (uuid \<times> uuid) list \<Rightarrow> bool" where
  "covers sk ks \<longleftrightarrow>
     (\<forall>i b r song. (i, Some b, False) \<in> set sk \<and> (r, Some b, True) \<in> set sk \<and> (i, song) \<in> set ks
        \<longrightarrow> (r, song) \<in> set ks)"

definition one_repertoire :: "(uuid \<times> uuid option \<times> bool) list \<Rightarrow> bool" where
  "one_repertoire sk \<longleftrightarrow>
     (\<forall>b r r'. (r, Some b, True) \<in> set sk \<and> (r', Some b, True) \<in> set sk \<longrightarrow> r = r')"

definition shape_ok ::
  "(uuid \<times> uuid option \<times> bool) list \<Rightarrow> (uuid \<times> uuid) list \<Rightarrow> (uuid \<times> uuid) list \<Rightarrow> bool"
where
  "shape_ok sk ks ms \<longleftrightarrow>
     distinct (map fst sk) \<and> one_repertoire sk \<and> covers sk ks
     \<and> distinct ks \<and> fst ` set ks \<subseteq> fst ` set sk \<and> distinct (map fst ms)
     \<and> (\<forall>i b. (i, b, True) \<in> set sk \<longrightarrow> count_rows (\<lambda>m. snd m = i) ms \<le> MAX_REPERTOIRE_MARKERS)"

definition position_ok :: "int \<Rightarrow> bool" where
  "position_ok p \<longleftrightarrow> 1 \<le> p \<and> p \<le> 2147483647"

definition key_ok :: "int \<Rightarrow> bool" where
  "key_ok t \<longleftrightarrow> -11 \<le> t \<and> t \<le> 11"

definition rows_ok :: "platform \<Rightarrow> bool" where
  "rows_ok pt \<longleftrightarrow>
     (\<forall>l \<in> set (pt_linked pt). position_ok (ls_position l) \<and> key_ok (ls_transpose l))
     \<and> (\<forall>h \<in> set (pt_held pt). position_ok (hs_position h) \<and> key_ok (hs_transpose h))
     \<and> (\<forall>m \<in> set (pt_markers pt). position_ok (mk_position m))"

definition setlists_ok :: "platform \<Rightarrow> bool" where
  "setlists_ok pt \<longleftrightarrow> shape_ok (skeleton pt) (song_keys pt) (marker_keys pt) \<and> rows_ok pt"

lemma setlists_okI:
  assumes "setlists_ok pt" and "skeleton pt' = skeleton pt" and "song_keys pt' = song_keys pt"
    and "marker_keys pt' = marker_keys pt" and "rows_ok pt'"
  shows "setlists_ok pt'"
  using assms by (simp add: setlists_ok_def)

lemma setlists_ok_distinct: "setlists_ok pt \<Longrightarrow> distinct (map sl_id (pt_setlists pt))"
  by (simp add: setlists_ok_def shape_ok_def skeleton_def comp_def)

lemma skeleton_row: "s \<in> set (pt_setlists pt) \<Longrightarrow> (sl_id s, sl_band s, sl_is_repertoire s) \<in> set (skeleton pt)"
  by (auto simp: skeleton_def)

lemma skeleton_unique:
  "setlists_ok pt \<Longrightarrow> (i, b, r) \<in> set (skeleton pt) \<Longrightarrow> (i, b', r') \<in> set (skeleton pt) \<Longrightarrow> b = b' \<and> r = r'"
  by (auto simp: setlists_ok_def shape_ok_def dest: eq_key_imp_eq_value)

section \<open>Operations that keep the shape\<close>

lemma update_setlists_ok:
  assumes "setlists_ok pt"
    and "\<And>s. sl_id (f s) = sl_id s \<and> sl_band (f s) = sl_band s \<and> sl_is_repertoire (f s) = sl_is_repertoire s"
  shows "setlists_ok (update_setlists P f pt)"
  using assms(1)
proof (rule setlists_okI)
  show "skeleton (update_setlists P f pt) = skeleton pt"
    using assms(2) by (auto simp: skeleton_def update_setlists_def)
qed (use assms(1) in \<open>auto simp: song_keys_def marker_keys_def rows_ok_def setlists_ok_def update_setlists_def\<close>)

lemma touch_ok: "setlists_ok pt \<Longrightarrow> touch now i u pt = Inr pt' \<Longrightarrow> setlists_ok pt'"
  by (auto simp: touch_def split: if_splits intro!: update_setlists_ok)

lemma trash_setlist_ok: "setlists_ok pt \<Longrightarrow> trash_setlist now i u pt = Inr pt' \<Longrightarrow> setlists_ok pt'"
  by (auto simp: trash_setlist_def split: option.splits if_splits intro!: update_setlists_ok)

lemma disable_sharing_ok: "setlists_ok pt \<Longrightarrow> disable_sharing i pt = Inr pt' \<Longrightarrow> setlists_ok pt'"
  by (auto simp: disable_sharing_def split: if_splits intro!: update_setlists_ok)

lemma unlock_sharing_ok: "setlists_ok pt \<Longrightarrow> unlock_sharing i pt = Inr pt' \<Longrightarrow> setlists_ok pt'"
  by (auto simp: unlock_sharing_def split: if_splits intro!: update_setlists_ok)

lemma setlists_ok_gigs [simp]: "setlists_ok (pt\<lparr>pt_gigs := gs\<rparr>) = setlists_ok pt"
  by (simp add: setlists_ok_def skeleton_def song_keys_def marker_keys_def rows_ok_def)

lemma lock_sharing_ok: "setlists_ok pt \<Longrightarrow> lock_sharing now i u reason pt = Inr pt' \<Longrightarrow> setlists_ok pt'"
  by (auto simp: lock_sharing_def Let_def split: if_splits intro!: update_setlists_ok)

lemma enable_sharing_ok: "setlists_ok pt \<Longrightarrow> setlists_ok (snd (enable_sharing tok i pt))"
  by (auto simp: enable_sharing_def Let_def split: option.splits intro!: update_setlists_ok)

lemma update_details_ok:
  assumes "setlists_ok pt" and "update_details parse now i p u pt = Inr pt'"
  shows "setlists_ok pt'"
proof -
  have ok: "setlists_ok (update_setlists (\<lambda>s. sl_id s = i) f pt)" if "setlists_ok pt"
    "\<And>s. sl_id (f s) = sl_id s \<and> sl_band (f s) = sl_band s \<and> sl_is_repertoire (f s) = sl_is_repertoire s" for f pt
    using update_setlists_ok that by blast
  show ?thesis
    using assms by (auto simp: update_details_def Let_def split: option.splits if_splits intro!: ok)
qed

lemma set_song_transpose_ok:
  assumes "setlists_ok pt" and "set_song_transpose i song t pt = Inr pt'"
  shows "setlists_ok pt'"
  using assms(1)
proof (rule setlists_okI)
  show "skeleton pt' = skeleton pt" "marker_keys pt' = marker_keys pt"
    using assms(2) by (auto simp: set_song_transpose_def Let_def skeleton_def marker_keys_def split: if_splits)
  show "song_keys pt' = song_keys pt"
    using assms(2) by (auto simp: set_song_transpose_def Let_def song_keys_def simp del: map_map intro!: map_keys
        split: if_splits)
  show "rows_ok pt'"
    using assms by (auto simp: set_song_transpose_def Let_def rows_ok_def setlists_ok_def key_ok_def
        split: if_splits)
qed

lemma moved_position_ok:
  "\<forall>p \<in> snd ` set moves. position_ok p \<Longrightarrow> position_ok d \<Longrightarrow> position_ok (unwrap_or (map_of moves x) d)"
  by (cases "map_of moves x") (force dest: map_of_SomeD)+

lemma move_songs_ok:
  assumes "setlists_ok pt" and "\<forall>p \<in> snd ` set moves. position_ok p"
  shows "setlists_ok (move_songs i moves pt)"
  using assms(1)
proof (rule setlists_okI)
  show "rows_ok (move_songs i moves pt)"
    using assms by (auto simp: rows_ok_def setlists_ok_def moved_position_ok move_songs_def)
  show "song_keys (move_songs i moves pt) = song_keys pt"
    by (auto simp: song_keys_def move_songs_def simp del: map_map intro!: map_keys)
qed (simp_all add: skeleton_def marker_keys_def move_songs_def)

lemma move_markers_ok:
  assumes "setlists_ok pt" and "\<forall>p \<in> snd ` set moves. position_ok p"
  shows "setlists_ok (move_markers i moves pt)"
  using assms(1)
proof (rule setlists_okI)
  show "rows_ok (move_markers i moves pt)"
    using assms by (auto simp: rows_ok_def setlists_ok_def moved_position_ok move_markers_def)
  show "marker_keys (move_markers i moves pt) = marker_keys pt"
    by (auto simp: marker_keys_def move_markers_def)
qed (simp_all add: skeleton_def song_keys_def move_markers_def)

lemma positions_enumerate: "p \<in> set (List.enumerate k xs) \<Longrightarrow> k \<le> fst p \<and> fst p < k + length xs"
  by (simp add: in_set_enumerate_eq)

lemma reorder_songs_ok:
  assumes "setlists_ok pt" and "length ids \<le> 1000"
  shows "setlists_ok (reorder_songs i ids pt)"
  unfolding reorder_songs_def
  using assms by (intro move_songs_ok) (auto simp: position_ok_def dest!: positions_enumerate)

lemma reorder_items_ok:
  assumes "setlists_ok pt" and "length refs \<le> 1000"
  shows "setlists_ok (reorder_items i refs pt)"
  unfolding reorder_items_eq
  using assms by (intro move_songs_ok move_markers_ok)
    (auto simp: item_moves_def position_ok_def dest!: positions_enumerate)

lemma update_marker_ok:
  assumes "setlists_ok pt"
  shows "setlists_ok (snd (update_marker i m lab dur b pt))"
proof -
  let ?f = "\<lambda>x. if mk_id x = m \<and> mk_setlist x = i
      then (if b then x\<lparr>mk_label := lab, mk_duration_minutes := dur\<rparr> else x\<lparr>mk_label := lab\<rparr>) else x"
  have "setlists_ok (pt\<lparr>pt_markers := map ?f (pt_markers pt)\<rparr>)"
    using assms
    by (rule setlists_okI) (use assms in \<open>auto simp: skeleton_def song_keys_def marker_keys_def rows_ok_def setlists_ok_def\<close>)
  then show ?thesis using assms by (auto simp: update_marker_def Let_def split: option.splits)
qed


section \<open>Operations that change the shape\<close>

lemma positions_ok:
  assumes "setlists_ok pt"
  shows "1 \<le> next_position pt i"
  using assms by (intro next_position_pos) (auto simp: positions_def setlists_ok_def rows_ok_def position_ok_def)

lemma append_song_shape:
  assumes "append_song now i song u pt = Inr pt'" and "rows_ok pt" and "1 \<le> next_position pt i"
  shows "skeleton pt' = skeleton pt \<and> marker_keys pt' = marker_keys pt \<and> rows_ok pt'
    \<and> song_keys pt' = (if (i, song) \<in> set (song_keys pt) then song_keys pt else song_keys pt @ [(i, song)])
    \<and> i \<in> fst ` set (skeleton pt) \<union> fst ` set (song_keys pt)"
  using assms(1)
proof (cases rule: append_song_Inr)
  case there
  with assms(2) show ?thesis by (force simp: has_song_iff)
next
  case new
  then obtain s where "s \<in> set (pt_setlists pt)" "sl_id s = i" by (auto dest: find_setlist_Some)
  then have "i \<in> fst ` set (skeleton pt)" by (force simp: skeleton_def)
  with new assms show ?thesis
    by (auto simp: skeleton_def marker_keys_def rows_ok_def song_keys_def has_song_iff position_ok_def key_ok_def)
qed

lemma copy_transpose_shape:
  assumes "rows_ok pt"
  shows "skeleton (copy_transpose r i song pt) = skeleton pt \<and> marker_keys (copy_transpose r i song pt) = marker_keys pt
    \<and> rows_ok (copy_transpose r i song pt)"
proof -
  have "key_ok (ls_transpose q)" if "find (\<lambda>x. ls_setlist x = r \<and> ls_song x = song) (pt_linked pt) = Some q" for q
    using that assms by (auto simp: find_Some_iff rows_ok_def)
  then show ?thesis
    using assms by (auto simp: copy_transpose_def skeleton_def marker_keys_def rows_ok_def split: option.splits)
qed

text \<open>Adding a key to a setlist, and to the repertoire of its band when there is one.\<close>

definition keys_with :: "(uuid \<times> uuid) list \<Rightarrow> uuid \<times> uuid \<Rightarrow> (uuid \<times> uuid) list" where
  "keys_with ks k = (if k \<in> set ks then ks else ks @ [k])"

lemma keys_with [simp]: "set (keys_with ks k) = insert k (set ks)" "distinct (keys_with ks k) = distinct ks"
  by (auto simp: keys_with_def)

lemma shape_ok_add:
  assumes "shape_ok sk ks ms" and "(i, band, rep) \<in> set sk"
    and "rep \<or> (\<forall>b r. band = Some b \<longrightarrow> (r, Some b, True) \<notin> set sk)"
  shows "shape_ok sk (keys_with ks (i, song)) ms"
proof -
  have "(i, b', r') = (i, band, rep)" if "(i, b', r') \<in> set sk" for b' r'
    using that assms(1,2) by (auto simp: shape_ok_def dest: eq_key_imp_eq_value)
  then have "b' = band \<and> r' = rep" if "(i, b', r') \<in> set sk" for b' r' using that by blast
  then have new: False if "(i, Some b, False) \<in> set sk" "(r, Some b, True) \<in> set sk" for b r
    using that assms(3) by blast
  have "covers sk ks" using assms(1) by (simp add: shape_ok_def)
  then have "covers sk (keys_with ks (i, song))" unfolding covers_def using new by (simp, blast)
  with assms(1) imageI [OF assms(2), of fst] show ?thesis by (simp add: shape_ok_def)
qed

lemma shape_ok_add_both:
  assumes "shape_ok sk ks ms" and "(i, Some b, False) \<in> set sk" and "(r, Some b, True) \<in> set sk"
  shows "shape_ok sk (keys_with (keys_with ks (i, song)) (r, song)) ms"
proof -
  have i: "b' = Some b \<and> \<not> r'" if "(i, b', r') \<in> set sk" for b' r'
    using that assms(1,2) by (auto simp: shape_ok_def dest: eq_key_imp_eq_value)
  have r: "b' = Some b \<and> r'" if "(r, b', r') \<in> set sk" for b' r'
    using that assms(1,3) by (auto simp: shape_ok_def dest: eq_key_imp_eq_value)
  have one: "q = r" if "(q, Some b, True) \<in> set sk" for q
    using that assms(1,3) by (auto simp: shape_ok_def one_repertoire_def)
  have "covers sk ks" using assms(1) by (simp add: shape_ok_def)
  then have "covers sk (keys_with (keys_with ks (i, song)) (r, song))"
    unfolding covers_def using i r one by (simp, blast)
  with assms(1) imageI [OF assms(2), of fst] imageI [OF assms(3), of fst] show ?thesis
    by (simp add: shape_ok_def)
qed

lemma repertoire_row:
  "find_repertoire_id pt b = Some r \<Longrightarrow> (r, Some b, True) \<in> set (skeleton pt)"
  "find_repertoire_id pt b = None \<Longrightarrow> (r, Some b, True) \<notin> set (skeleton pt)"
  by (force simp: find_repertoire_id_def find_Some_iff find_None_iff skeleton_def in_set_conv_nth)+

lemma add_song_ok:
  assumes "setlists_ok pt" and "add_song now i song u quota pt = Inr pt'"
  shows "setlists_ok pt'"
  using assms(2)
proof (cases rule: add_song_Inr)
  case (alone s)
  have row: "(i, sl_band s, sl_is_repertoire s) \<in> set (skeleton pt)"
    using live_setlist_Some [OF alone(1)] skeleton_row [of s pt] by simp
  have "setlists_ok pt' \<longleftrightarrow> shape_ok (skeleton pt) (keys_with (song_keys pt) (i, song)) (marker_keys pt)"
    using append_song_shape [OF alone(3)] assms(1) positions_ok [OF assms(1)]
    by (simp add: setlists_ok_def keys_with_def)
  moreover have "sl_is_repertoire s \<or> (\<forall>b r. sl_band s = Some b \<longrightarrow> (r, Some b, True) \<notin> set (skeleton pt))"
    using alone(4) repertoire_row(2) [of pt] by (auto simp: is_some_and_def)
  ultimately show ?thesis using shape_ok_add [OF _ row] assms(1) by (simp add: setlists_ok_def)
next
  case (band s b r pt1)
  have row: "(i, Some b, False) \<in> set (skeleton pt)"
    using live_setlist_Some [OF band(1)] skeleton_row [of s pt] band(4,5) by simp
  note one = append_song_shape [OF band(3)]
  have pt1: "rows_ok pt1" "skeleton pt1 = skeleton pt" "marker_keys pt1 = marker_keys pt"
      "song_keys pt1 = keys_with (song_keys pt) (i, song)"
    using one assms(1) positions_ok [OF assms(1)] by (simp_all add: setlists_ok_def keys_with_def)
  let ?pt2 = "copy_transpose r i song pt1"
  note two = copy_transpose_shape [OF pt1(1), of r i song]
  have "1 \<le> next_position ?pt2 r"
    using two by (intro next_position_pos) (auto simp: positions_def rows_ok_def position_ok_def)
  with append_song_shape [OF band(7)] two have "skeleton pt' = skeleton pt" "marker_keys pt' = marker_keys pt"
      "rows_ok pt'" "song_keys pt' = keys_with (keys_with (song_keys pt) (i, song)) (r, song)"
    by (simp_all add: pt1 keys_with_def)
  with shape_ok_add_both [OF _ row repertoire_row(1) [OF band(6)]] assms(1) show ?thesis
    by (simp add: setlists_ok_def)
qed

lemma remove_song_ok:
  assumes "setlists_ok pt" and "remove_song i song pt = Inr pt'"
    and "find_setlist pt i = Some s" and "\<not> sl_is_repertoire s"
  shows "setlists_ok pt'"
proof -
  have "(i, sl_band s, False) \<in> set (skeleton pt)"
    using find_setlist_Some [OF assms(3)] skeleton_row [of s pt] assms(4) by simp
  then have norep: "(i, b, True) \<notin> set (skeleton pt)" for b
    using skeleton_unique [OF assms(1)] by blast
  have keys: "song_keys pt' = filter (\<lambda>k. k \<noteq> (i, song)) (song_keys pt)"
  proof -
    have "map (\<lambda>l. (ls_setlist l, ls_song l)) (filter (Not \<circ> (\<lambda>l. ls_setlist l = i \<and> ls_song l = song)) ls)
        = filter (\<lambda>k. k \<noteq> (i, song)) (map (\<lambda>l. (ls_setlist l, ls_song l)) ls)" for ls
      by (induction ls) auto
    with assms(2) show ?thesis by (auto simp: remove_song_def Let_def song_keys_def split: if_splits)
  qed
  have rest: "skeleton pt' = skeleton pt" "marker_keys pt' = marker_keys pt" "rows_ok pt'"
    using assms(1,2) by (auto simp: remove_song_def Let_def skeleton_def marker_keys_def rows_ok_def setlists_ok_def
        split: if_splits)
  have "covers (skeleton pt) (song_keys pt')"
    using assms(1) norep unfolding setlists_ok_def shape_ok_def covers_def keys by auto
  with assms(1) rest keys show ?thesis by (auto simp: setlists_ok_def shape_ok_def)
qed


lemma count_rows_snd: "count_rows (\<lambda>m. mk_setlist m = i) ms = count_rows (\<lambda>k. snd k = i) (map (\<lambda>m. (mk_id m, mk_setlist m)) ms)"
  by (induction ms) auto

lemma create_marker_ok:
  assumes "setlists_ok pt" and "create_marker now fresh i ty lab dur quota pt = Inr (m, pt')"
  shows "setlists_ok pt'"
proof -
  from assms(2) obtain s where s: "live_setlist pt i = Some s"
    "\<not> (sl_is_repertoire s \<and> count_rows (\<lambda>m. mk_setlist m = i) (pt_markers pt) \<ge> MAX_REPERTOIRE_MARKERS)"
    "next_position pt i \<le> 2147483647" "\<not> list_ex (\<lambda>m. mk_id m = fresh) (pt_markers pt)"
    and m: "mk_id m = fresh" "mk_setlist m = i" "mk_position m = next_position pt i"
    and pt': "pt' = pt\<lparr>pt_markers := pt_markers pt @ [m]\<rparr>"
    by (auto simp: create_marker_def Let_def split: option.splits if_splits)
  have row: "(i, sl_band s, sl_is_repertoire s) \<in> set (skeleton pt)"
    using live_setlist_Some [OF s(1)] skeleton_row [of s pt] by simp
  have rest: "skeleton pt' = skeleton pt" "song_keys pt' = song_keys pt"
      "marker_keys pt' = marker_keys pt @ [(fresh, i)]"
    using m by (simp_all add: pt' skeleton_def song_keys_def marker_keys_def)
  have "rows_ok pt'"
    using assms(1) positions_ok [OF assms(1)] m s(3) by (auto simp: pt' rows_ok_def setlists_ok_def position_ok_def)
  moreover have "fresh \<notin> fst ` set (marker_keys pt)" using s(4) by (auto simp: marker_keys_def list_ex_iff)
  moreover have "count_rows (\<lambda>m. snd m = j) (marker_keys pt @ [(fresh, i)]) \<le> MAX_REPERTOIRE_MARKERS"
    if j: "(j, b, True) \<in> set (skeleton pt)" for j b
  proof (cases "j = i")
    case True
    with skeleton_unique [OF assms(1) row] j have "sl_is_repertoire s" by blast
    with s(2) True show ?thesis by (simp add: marker_keys_def count_rows_snd)
  next
    case False
    have "count_rows (\<lambda>m. snd m = j) (marker_keys pt) \<le> MAX_REPERTOIRE_MARKERS"
      using assms(1) j unfolding setlists_ok_def shape_ok_def by blast
    with False show ?thesis by simp
  qed
  ultimately show ?thesis using assms(1) rest unfolding setlists_ok_def shape_ok_def by auto
qed

lemma delete_marker_ok:
  assumes "setlists_ok pt" and "delete_marker i m pt = Inr pt'"
  shows "setlists_ok pt'"
proof -
  have pt': "pt' = pt\<lparr>pt_markers := filter (Not \<circ> (\<lambda>x. mk_id x = m \<and> mk_setlist x = i)) (pt_markers pt)\<rparr>"
    using assms(2) by (simp add: delete_marker_def Let_def split: if_splits)
  have "marker_keys pt' = filter (\<lambda>k. k \<noteq> (m, i)) (marker_keys pt)"
  proof -
    have "map (\<lambda>m. (mk_id m, mk_setlist m)) (filter (Not \<circ> (\<lambda>x. mk_id x = m \<and> mk_setlist x = i)) ms)
        = filter (\<lambda>k. k \<noteq> (m, i)) (map (\<lambda>m. (mk_id m, mk_setlist m)) ms)" for ms
      by (induction ms) auto
    then show ?thesis by (simp add: marker_keys_def pt')
  qed
  moreover have "skeleton pt' = skeleton pt" "song_keys pt' = song_keys pt" "rows_ok pt'"
    using assms(1) by (simp_all add: pt' skeleton_def song_keys_def rows_ok_def setlists_ok_def)
  moreover have "count_rows P (filter Q ms) \<le> x" if "count_rows P ms \<le> x" for P Q :: "uuid \<times> uuid \<Rightarrow> bool" and ms x
    using that count_filter_le [of P Q ms] by linarith
  ultimately show ?thesis using assms(1) by (simp add: setlists_ok_def shape_ok_def distinct_map_filter)
qed

lemma create_setlist_row_ok:
  assumes "setlists_ok pt"
    and "create_setlist_row parse now fresh title desc band links u quota pt = Inr (s, pt')"
  shows "setlists_ok pt'"
proof -
  from assms(2) have s: "sl_id s = fresh" "sl_band s = band" "\<not> sl_is_repertoire s" "find_setlist pt fresh = None"
    and pt': "pt' = pt\<lparr>pt_setlists := pt_setlists pt @ [s]\<rparr>"
    by (auto simp: create_setlist_row_def Let_def split: if_splits)
  have rest: "skeleton pt' = skeleton pt @ [(fresh, band, False)]" "song_keys pt' = song_keys pt"
      "marker_keys pt' = marker_keys pt" "rows_ok pt'"
    using s assms(1) by (simp_all add: pt' skeleton_def song_keys_def marker_keys_def rows_ok_def setlists_ok_def)
  have new: "fresh \<notin> fst ` set (skeleton pt)"
    using s(4) by (auto simp: skeleton_def find_setlist_def find_None_iff)
  then have "fresh \<notin> fst ` set (song_keys pt)" using assms(1) by (auto simp: setlists_ok_def shape_ok_def)
  then have "(fresh, song) \<notin> set (song_keys pt)" for song by force
  then have "covers (skeleton pt') (song_keys pt')"
    using assms(1) unfolding rest(1,2) by (auto simp: setlists_ok_def shape_ok_def covers_def)
  moreover have "one_repertoire (skeleton pt')"
    using assms(1) unfolding rest(1) by (auto simp: setlists_ok_def shape_ok_def one_repertoire_def)
  ultimately show ?thesis using assms(1) new rest unfolding setlists_ok_def shape_ok_def by auto
qed

lemma delete_setlist_row_ok:
  assumes "setlists_ok pt" and "delete_setlist_row i pt = Inr pt'"
  shows "setlists_ok pt'"
proof -
  from assms(2) obtain s where s: "find_setlist pt i = Some s" "\<not> sl_is_repertoire s"
    by (auto simp: delete_setlist_row_def split: option.splits if_splits)
  have row: "(i, sl_band s, False) \<in> set (skeleton pt)"
    using find_setlist_Some [OF s(1)] skeleton_row [of s pt] s(2) by simp
  have "(sl_id x = i \<and> \<not> sl_is_repertoire x) = (sl_id x = i)" if "x \<in> set (pt_setlists pt)" for x
    using skeleton_unique [OF assms(1) row] skeleton_row [OF that] by blast
  then have "filter (\<lambda>s. \<not> (sl_id s = i \<and> \<not> sl_is_repertoire s)) (pt_setlists pt)
      = filter (\<lambda>s. sl_id s \<noteq> i) (pt_setlists pt)"
    by (intro filter_cong) auto
  moreover have "map (\<lambda>s. (sl_id s, sl_band s, sl_is_repertoire s)) (filter (\<lambda>s. sl_id s \<noteq> i) xs)
      = filter (\<lambda>k. fst k \<noteq> i) (map (\<lambda>s. (sl_id s, sl_band s, sl_is_repertoire s)) xs)" for xs
    by (induction xs) auto
  ultimately have sk: "skeleton pt' = filter (\<lambda>k. fst k \<noteq> i) (skeleton pt)"
    using assms(2) s by (auto simp: delete_setlist_row_def skeleton_def)
  have "map (\<lambda>l. (ls_setlist l, ls_song l)) (filter (\<lambda>l. ls_setlist l \<noteq> i) xs)
      = filter (\<lambda>k. fst k \<noteq> i) (map (\<lambda>l. (ls_setlist l, ls_song l)) xs)" for xs
    by (induction xs) auto
  then have ks: "song_keys pt' = filter (\<lambda>k. fst k \<noteq> i) (song_keys pt)"
    using assms(2) s by (auto simp: delete_setlist_row_def song_keys_def)
  have "map (\<lambda>m. (mk_id m, mk_setlist m)) (filter (\<lambda>m. mk_setlist m \<noteq> i) xs)
      = filter (\<lambda>k. snd k \<noteq> i) (map (\<lambda>m. (mk_id m, mk_setlist m)) xs)" for xs
    by (induction xs) auto
  then have ms: "marker_keys pt' = filter (\<lambda>k. snd k \<noteq> i) (marker_keys pt)"
    using assms(2) s by (auto simp: delete_setlist_row_def marker_keys_def)
  have "rows_ok pt'"
    using assms s by (auto simp: delete_setlist_row_def rows_ok_def setlists_ok_def)
  moreover have "count_rows P (filter Q ks) \<le> x" if "count_rows P ks \<le> x" for P Q :: "uuid \<times> uuid \<Rightarrow> bool" and ks x
    using that count_filter_le [of P Q ks] by linarith
  moreover have "covers (skeleton pt') (song_keys pt')" "one_repertoire (skeleton pt')"
    using assms(1) row unfolding sk ks setlists_ok_def shape_ok_def covers_def one_repertoire_def by auto
  ultimately show ?thesis
    using assms(1) unfolding setlists_ok_def shape_ok_def sk ks ms by (auto simp: distinct_map_filter)
qed

section \<open>Requests\<close>

lemma checked_ok:
  "(\<And>x. r = Inr x \<Longrightarrow> setlists_ok (snd (k x))) \<Longrightarrow> setlists_ok pt \<Longrightarrow> setlists_ok (snd (checked r pt k))"
  by (cases r) simp_all

lemma called_ok:
  "(\<And>pt'. r = Inr pt' \<Longrightarrow> setlists_ok (snd (k pt'))) \<Longrightarrow> setlists_ok pt \<Longrightarrow> setlists_ok (snd (called r pt k))"
  by (cases r) simp_all

lemma finish_ok:
  "(\<And>pt'. r = Inr pt' \<Longrightarrow> setlists_ok pt') \<Longrightarrow> setlists_ok pt \<Longrightarrow> setlists_ok (snd (finish x r pt))"
  by (cases r) simp_all

inductive setlist_step :: "platform \<Rightarrow> platform \<Rightarrow> bool" where
  created: "setlist_step pt (snd (create_setlist parse now fresh u cp pt))"
| updated: "setlist_step pt (snd (update_setlist parse now u i up pt))"
| trashed: "setlist_step pt (snd (delete_setlist now u i pt))"
| purged: "delete_setlist_row i pt = Inr pt' \<Longrightarrow> setlist_step pt pt'"
| added: "add_song now i song u quota pt = Inr pt' \<Longrightarrow> setlist_step pt pt'"
| removed: "find_setlist pt i = Some s \<Longrightarrow> \<not> sl_is_repertoire s \<Longrightarrow> remove_song i song pt = Inr pt'
    \<Longrightarrow> setlist_step pt pt'"
| retuned: "setlist_step pt (snd (update_setlist_song now u i song t pt))"
| songs_reordered: "setlist_step pt (snd (reorder_setlist_songs now u i ids pt))"
| items_reordered: "setlist_step pt (snd (reorder_setlist_items now u i refs pt))"
| block: "setlist_step pt (snd (create_setlist_block now fresh u i name pt))"
| break: "setlist_step pt (snd (create_setlist_break now fresh u i lab dur pt))"
| block_renamed: "setlist_step pt (snd (update_setlist_block now u i m name pt))"
| break_changed: "setlist_step pt (snd (update_setlist_break now u i m lab dur pt))"
| unmarked: "setlist_step pt (snd (delete_setlist_marker now u i m pt))"
| shared: "setlist_step pt (snd (enable_setlist_sharing now tok u i pt))"
| unshared: "setlist_step pt (snd (disable_setlist_sharing u i pt))"
| locked: "lock_sharing now i u reason pt = Inr pt' \<Longrightarrow> setlist_step pt pt'"
| unlocked: "unlock_sharing i pt = Inr pt' \<Longrightarrow> setlist_step pt pt'"

lemma setlist_step_ok:
  assumes "setlist_step pt pt'" and "setlists_ok pt"
  shows "setlists_ok pt'"
  using assms
proof cases
  case (created parse now fresh u cp)
  show ?thesis unfolding created create_setlist_def
    by (intro checked_ok) (auto simp: assms(2) dest: create_setlist_row_ok [OF assms(2)])
next
  case (updated parse now u i up)
  show ?thesis unfolding updated update_setlist_def
    by (intro checked_ok finish_ok) (auto simp: assms(2) dest: update_details_ok [OF assms(2)])
next
  case (trashed now u i)
  show ?thesis unfolding trashed delete_setlist_def
    by (intro checked_ok finish_ok) (auto simp: assms(2) dest: trash_setlist_ok [OF assms(2)])
next
  case (purged i)
  then show ?thesis using delete_setlist_row_ok assms(2) by blast
next
  case (added now i song u quota)
  then show ?thesis using add_song_ok assms(2) by blast
next
  case (removed i s song)
  then show ?thesis using remove_song_ok assms(2) by blast
next
  case (retuned now u i song t)
  show ?thesis unfolding retuned update_setlist_song_def
    by (intro checked_ok called_ok finish_ok) (auto intro: assms(2) dest: set_song_transpose_ok [OF assms(2)] touch_ok)
next
  case (songs_reordered now u i ids)
  show ?thesis unfolding songs_reordered reorder_setlist_songs_def Let_def
    by (intro checked_ok finish_ok)
      (auto intro: assms(2) reorder_songs_ok touch_ok simp: validate_reorder_def length_between_def)
next
  case (items_reordered now u i refs)
  show ?thesis unfolding items_reordered reorder_setlist_items_def Let_def
    by (intro checked_ok finish_ok)
      (auto intro: assms(2) reorder_items_ok touch_ok simp: validate_reorder_def length_between_def)
next
  case (block now fresh u i name)
  show ?thesis unfolding block create_setlist_block_def
    by (intro checked_ok) (auto intro: assms(2) intro!: finish_ok dest: create_marker_ok [OF assms(2)] touch_ok)
next
  case (break now fresh u i lab dur)
  show ?thesis unfolding break create_setlist_break_def
    by (intro checked_ok) (auto intro: assms(2) intro!: finish_ok dest: create_marker_ok [OF assms(2)] touch_ok)
next
  case (block_renamed now u i m name)
  show ?thesis unfolding block_renamed update_setlist_block_def
    using update_marker_ok [OF assms(2), of i m "Some (trim name)" None False] assms(2) touch_ok
    by (intro checked_ok) (auto split: prod.splits sum.splits intro!: finish_ok)
next
  case (break_changed now u i m lab dur)
  show ?thesis unfolding break_changed update_setlist_break_def
    using update_marker_ok [OF assms(2), of i m lab dur True] assms(2) touch_ok
    by (intro checked_ok) (auto split: prod.splits sum.splits intro!: finish_ok)
next
  case (unmarked now u i m)
  show ?thesis unfolding unmarked delete_setlist_marker_def
    by (intro checked_ok called_ok finish_ok) (auto intro: assms(2) dest: delete_marker_ok [OF assms(2)] touch_ok)
next
  case (shared now tok u i)
  show ?thesis unfolding shared enable_setlist_sharing_def
    by (intro checked_ok enable_sharing_ok assms(2))
next
  case (unshared u i)
  show ?thesis unfolding unshared disable_setlist_sharing_def
    by (intro checked_ok finish_ok) (auto simp: assms(2) dest: disable_sharing_ok [OF assms(2)])
next
  case (locked now i u reason)
  then show ?thesis using lock_sharing_ok assms(2) by blast
next
  case (unlocked i)
  then show ?thesis using unlock_sharing_ok assms(2) by blast
qed

lemma added_song_linked: "add_song now i song u quota pt = Inr pt' \<Longrightarrow> has_song pt' i song"
  by (cases rule: add_song_Inr) (use append_song_has append_song_keeps in \<open>fastforce+\<close>)

section \<open>Claims\<close>

text \<open>
  C22. Setlists stay consistent: whatever sequence of requests creates, edits, fills, reorders,
  shares, trashes and purges setlists, no setlist links a song twice, every position and key
  is in range, a band has one repertoire, with at most 200 blocks and breaks, and the
  repertoire holds every song of every setlist of its band.
\<close>

theorem setlists_invariant:
  assumes "setlists_ok pt" and "setlist_step\<^sup>*\<^sup>* pt pt'"
  shows "setlists_ok pt'"
  using assms(2,1) by (induction rule: rtranclp_induct) (auto intro: setlist_step_ok)

theorem setlists_invariant_witness:
  "\<exists>pt'. setlist_step\<^sup>*\<^sup>* pt_show pt' \<and> setlists_ok pt' \<and> has_song pt' 20 32"
proof -
  have ok: "setlists_ok pt_show"
    by (simp add: setlists_ok_def shape_ok_def rows_ok_def skeleton_def song_keys_def marker_keys_def covers_def
        one_repertoire_def position_ok_def key_ok_def pt_show_def friday_def linked_at_def pt_of_def)
  have "isl (add_song 5 20 32 7 [items_guard FREE_LIMITS 20] pt_show) = False" by code_simp
  then obtain pt' where a: "add_song 5 20 32 7 [items_guard FREE_LIMITS 20] pt_show = Inr pt'"
    by (cases "add_song 5 20 32 7 [items_guard FREE_LIMITS 20] pt_show") auto
  from added_song_linked [OF a] have "has_song pt' 20 32" .
  moreover have run: "setlist_step\<^sup>*\<^sup>* pt_show pt'" using setlist_step.added [OF a] by blast
  ultimately show ?thesis using setlists_invariant [OF ok run] run by blast
qed

end
