(* ===== verification/Effects.thy ===== *)
theory Effects
  imports Prelude
begin

text \<open>
  Operations with effects: a function from the state of the world to a result, which may be
  an error, and the world it leaves behind. An error does not undo what was done before it;
  \<open>atomically\<close> is what undoes, for the part of the world a transaction protects.

  \<open>keeps\<close> is the way an invariant is shown of a whole operation: its rules follow the
  combinators, so that a proof goes through the operation's body in the order of the code.
\<close>

type_synonym ('s, 'e, 'a) eff = "'s \<Rightarrow> ('e + 'a) \<times> 's"

definition eret :: "'a \<Rightarrow> ('s, 'e, 'a) eff" where
  "eret x s = (Inr x, s)"

definition efail :: "'e \<Rightarrow> ('s, 'e, 'a) eff" where
  "efail e s = (Inl e, s)"

text \<open>The question-mark operator: an error ends the operation.\<close>

definition ebind :: "('s, 'e, 'a) eff \<Rightarrow> ('a \<Rightarrow> ('s, 'e, 'b) eff) \<Rightarrow> ('s, 'e, 'b) eff" where
  "ebind m f s = (case m s of (Inl e, s') \<Rightarrow> (Inl e, s') | (Inr x, s') \<Rightarrow> f x s')"

text \<open>A \<open>match\<close> on the \<open>Result\<close> of an operation: its error is a value.\<close>

definition etry :: "('s, 'e, 'a) eff \<Rightarrow> ('s, 'f, 'e + 'a) eff" where
  "etry m s = (case m s of (r, s') \<Rightarrow> (Inr r, s'))"

definition emap_err :: "('e \<Rightarrow> 'f) \<Rightarrow> ('s, 'e, 'a) eff \<Rightarrow> ('s, 'f, 'a) eff" where
  "emap_err f m s = (case m s of (r, s') \<Rightarrow> (map_sum f id r, s'))"

definition eget :: "('s \<Rightarrow> 'a) \<Rightarrow> ('s, 'e, 'a) eff" where
  "eget f s = (Inr (f s), s)"

definition eupdate :: "('s \<Rightarrow> 's) \<Rightarrow> ('s, 'e, unit) eff" where
  "eupdate f s = (Inr (), f s)"

definition eresult :: "'e + 'a \<Rightarrow> ('s, 'e, 'a) eff" where
  "eresult r s = (r, s)"

text \<open>A loop whose body may fail.\<close>

fun efor :: "'a list \<Rightarrow> ('a \<Rightarrow> ('s, 'e, unit) eff) \<Rightarrow> ('s, 'e, unit) eff" where
  "efor [] f = eret ()"
| "efor (x # xs) f = ebind (f x) (\<lambda>_. efor xs f)"

fun efold :: "('b \<Rightarrow> 'a \<Rightarrow> ('s, 'e, 'b) eff) \<Rightarrow> 'b \<Rightarrow> 'a list \<Rightarrow> ('s, 'e, 'b) eff" where
  "efold f acc [] = eret acc"
| "efold f acc (x # xs) = ebind (f acc x) (\<lambda>acc. efold f acc xs)"

text \<open>A transaction over the second part of the world: an error rolls that part back.\<close>

definition atomically :: "('p \<times> 't, 'e, 'a) eff \<Rightarrow> ('p \<times> 't, 'e, 'a) eff" where
  "atomically m w =
     (case m w of
        (Inl e, (p, t)) \<Rightarrow> (Inl e, (p, snd w))
      | r \<Rightarrow> r)"

section \<open>Running\<close>

lemma eff_simps [simp]:
  "eret x s = (Inr x, s)"
  "efail e s = (Inl e, s)"
  "eget f s = (Inr (f s), s)"
  "eupdate g s = (Inr (), g s)"
  "eresult r s = (r, s)"
  by (simp_all add: eret_def efail_def eget_def eupdate_def eresult_def)

lemma ebind_simps [simp]:
  "m s = (Inl e, s') \<Longrightarrow> ebind m f s = (Inl e, s')"
  "m s = (Inr x, s') \<Longrightarrow> ebind m f s = f x s'"
  by (simp_all add: ebind_def)

lemma ebind_ret [simp]: "ebind (eret x) f = f x"
  and ebind_fail [simp]: "ebind (efail e) f = efail e"
  by (simp_all add: ebind_def fun_eq_iff)

lemma ebind_eq_Inr:
  "ebind m f s = (Inr y, s'') \<longleftrightarrow> (\<exists>x s'. m s = (Inr x, s') \<and> f x s' = (Inr y, s''))"
  by (auto simp: ebind_def split: prod.splits sum.splits)

lemma ebind_eq_Inl:
  "ebind m f s = (Inl e, s'') \<longleftrightarrow>
     m s = (Inl e, s'') \<or> (\<exists>x s'. m s = (Inr x, s') \<and> f x s' = (Inl e, s''))"
  by (auto simp: ebind_def split: prod.splits sum.splits)

lemma etry_simp [simp]: "m s = (r, s') \<Longrightarrow> etry m s = (Inr r, s')"
  by (simp add: etry_def)

lemma ebind_etry: "ebind (etry m) f s = (case m s of (r, s') \<Rightarrow> f r s')"
  by (simp add: ebind_def etry_def split: prod.split)

lemma emap_err_simps [simp]:
  "m s = (Inl e, s') \<Longrightarrow> emap_err f m s = (Inl (f e), s')"
  "m s = (Inr x, s') \<Longrightarrow> emap_err f m s = (Inr x, s')"
  by (simp_all add: emap_err_def)

lemma emap_err_eq_Inr: "emap_err f m s = (Inr x, s') \<longleftrightarrow> m s = (Inr x, s')"
  by (cases "m s"; cases "fst (m s)") (auto simp: emap_err_def)

lemma atomically_simps [simp]:
  "m w = (Inl e, (p, t)) \<Longrightarrow> atomically m w = (Inl e, (p, snd w))"
  "m w = (Inr x, w') \<Longrightarrow> atomically m w = (Inr x, w')"
  by (simp_all add: atomically_def)

lemma atomically_eq_Inr: "atomically m w = (Inr x, w') \<longleftrightarrow> m w = (Inr x, w')"
  by (auto simp: atomically_def split: prod.splits sum.splits)

lemma atomically_Inl: "atomically m w = (Inl e, w') \<Longrightarrow> snd w' = snd w"
  by (auto simp: atomically_def split: prod.splits sum.splits)

section \<open>Invariants\<close>

text \<open>\<open>R\<close> relates the world before and after; it is kept whatever the result.\<close>

definition keeps :: "('s \<Rightarrow> 's \<Rightarrow> bool) \<Rightarrow> ('s, 'e, 'a) eff \<Rightarrow> bool" where
  "keeps R m \<longleftrightarrow> (\<forall>s r s'. m s = (r, s') \<longrightarrow> R s s')"

lemma keepsI: "(\<And>s r s'. m s = (r, s') \<Longrightarrow> R s s') \<Longrightarrow> keeps R m"
  by (simp add: keeps_def)

lemma keepsD: "keeps R m \<Longrightarrow> m s = (r, s') \<Longrightarrow> R s s'"
  by (simp add: keeps_def)

lemma keeps_snd: "keeps R m \<Longrightarrow> R s (snd (m s))"
  by (cases "m s") (auto dest: keepsD)

text \<open>The relations an operation can be shown to keep: they are closed under doing nothing and under going on.\<close>

locale chain =
  fixes R :: "'s \<Rightarrow> 's \<Rightarrow> bool"
  assumes stay: "R s s"
    and onward: "R s t \<Longrightarrow> R t u \<Longrightarrow> R s u"
begin

lemma ret: "keeps R (eret x)" and fails: "keeps R (efail e)" and get: "keeps R (eget f)"
  and result: "keeps R (eresult r)"
  by (simp_all add: keeps_def stay)

lemma update: "(\<And>s. R s (g s)) \<Longrightarrow> keeps R (eupdate g)"
  by (simp add: keeps_def)

lemma bind:
  assumes "keeps R m" and "\<And>x. keeps R (f x)"
  shows "keeps R (ebind m f)"
proof (rule keepsI)
  fix s r u
  assume b: "ebind m f s = (r, u)"
  obtain q t where m: "m s = (q, t)" by (cases "m s")
  with assms(1) have "R s t" by (rule keepsD)
  with b m show "R s u"
    by (cases q) (auto intro: onward keepsD [OF assms(2)])
qed

lemma tries: "keeps R m \<Longrightarrow> keeps R (etry m)"
  by (auto simp: keeps_def etry_def split: prod.splits)

lemma maps_err: "keeps R m \<Longrightarrow> keeps R (emap_err h m)"
  by (auto simp: keeps_def emap_err_def split: prod.splits)

lemma loop: "(\<And>x. keeps R (f x)) \<Longrightarrow> keeps R (efor xs f)"
  by (induction xs) (simp_all add: ret bind)

lemma folds: "(\<And>acc x. keeps R (f acc x)) \<Longrightarrow> keeps R (efold f acc xs)"
  by (induction xs arbitrary: acc) (simp_all add: ret bind)

lemmas rules = ret fails get result bind tries maps_err loop folds

end

end
