(* ===== verification/Subscriptions.thy ===== *)
theory Subscriptions
  imports Store
begin

text \<open>
  Subscription changes, from \<^verbatim>\<open>src/src/services/billing.rs\<close>: granting plan time,
  trials, mirroring the payment provider's subscriptions (\<open>apply_payment_subscription\<close>),
  ending them and bringing back the complimentary plan a purchase replaced. Every
  operation writes its event in the same transaction.
\<close>

section \<open>Guards\<close>

definition staff_cannot_subscribe :: api_error where
  "staff_cannot_subscribe = rule 403 ''STAFF_CANNOT_SUBSCRIBE''"

definition paid_subscription_active :: api_error where
  "paid_subscription_active = rule 409 ''PAID_SUBSCRIPTION_ACTIVE''"

definition ensure_not_staff :: "db \<Rightarrow> uuid \<Rightarrow> api_error + unit" where
  "ensure_not_staff db u =
     (if is_some_and (user db u) (\<lambda>r. us_role r \<in> set [Admin, Moderator])
      then Inl staff_cannot_subscribe else Inr ())"

definition ensure_plan_exists :: "db \<Rightarrow> string \<Rightarrow> api_error + unit" where
  "ensure_plan_exists db c = (if plan_exists db c then Inr () else Inl (rule 404 ''PLAN_NOT_FOUND''))"

record grant_outcome =
  go_kind :: string
  go_plan_code :: string
  go_status :: subscription_status
  go_current_period_end :: "time option"

definition outcome_notification :: "grant_outcome \<Rightarrow> uuid \<Rightarrow> notification" where
  "outcome_notification g u =
     subscription_changed u (go_kind g) (Some (go_plan_code g)) (Some (status_key (go_status g)))
       (go_current_period_end g)"

section \<open>Granting plan time\<close>

text \<open>
  The row an upsert writes: the \<open>INSERT\<close> when the account has none, the \<open>DO UPDATE\<close>
  otherwise, which keeps the columns it does not name.
\<close>

definition blank_sub :: "string \<Rightarrow> subscription_status \<Rightarrow> subscription_source \<Rightarrow> time \<Rightarrow> sub_row" where
  "blank_sub plan_code status source now =
     \<lparr>sb_plan_code = plan_code, sb_status = status, sb_source = source, sb_started_at = now,
      sb_current_period_end = None, sb_trial_ends_at = None, sb_cancel_at_period_end = False,
      sb_canceled_at = None, sb_external_ref = None, sb_provider_status = None,
      sb_billing_interval = None, sb_unit_amount_cents = None, sb_currency = None,
      sb_past_due_since = None, sb_terms_version = None, sb_terms_accepted_at = None,
      sb_note = None, sb_trial_reminder_sent_at = None, sb_paid_trial_reminder_sent_at = None,
      sb_renewal_reminder_period_end = None, sb_created_at = now, sb_updated_at = now,
      sb_updated_by = None\<rparr>"

definition granted_row ::
  "time \<Rightarrow> string \<Rightarrow> subscription_source \<Rightarrow> time option \<Rightarrow> string option \<Rightarrow> uuid option
     \<Rightarrow> sub_row option \<Rightarrow> sub_row"
where
  "granted_row now plan_code source period_end note actor current =
     (case current of
        None \<Rightarrow>
          (blank_sub plan_code Active source now)
            \<lparr>sb_current_period_end := period_end, sb_note := note, sb_updated_by := actor\<rparr>
      | Some s \<Rightarrow>
          s\<lparr>sb_plan_code := plan_code, sb_status := Active, sb_source := source,
            sb_started_at := now, sb_current_period_end := period_end, sb_trial_ends_at := None,
            sb_cancel_at_period_end := False, sb_canceled_at := None, sb_note := note,
            sb_updated_at := now, sb_updated_by := actor, sb_trial_reminder_sent_at := None,
            sb_past_due_since := None, sb_provider_status := None, sb_unit_amount_cents := None,
            sb_currency := None, sb_paid_trial_reminder_sent_at := None,
            sb_renewal_reminder_period_end := None, sb_terms_version := None,
            sb_terms_accepted_at := None\<rparr>)"

definition extended_row ::
  "time \<Rightarrow> subscription_source \<Rightarrow> time option \<Rightarrow> string option \<Rightarrow> uuid option \<Rightarrow> sub_row \<Rightarrow> sub_row"
where
  "extended_row now source period_end note actor s =
     s\<lparr>sb_current_period_end := period_end, sb_status := Active, sb_source := source,
       sb_trial_ends_at := (if sb_status s = Trialing then None else sb_trial_ends_at s),
       sb_note := (case note of Some n \<Rightarrow> Some n | None \<Rightarrow> sb_note s),
       sb_updated_at := now, sb_updated_by := actor\<rparr>"

definition grant_plan_time ::
  "time \<Rightarrow> uuid \<Rightarrow> string \<Rightarrow> int option \<Rightarrow> subscription_source \<Rightarrow> uuid option \<Rightarrow> string option
     \<Rightarrow> json \<Rightarrow> db \<Rightarrow> api_error + (grant_outcome \<times> db)"
where
  "grant_plan_time now u plan_code dys source actor note reference db =
     rbind (ensure_not_staff db u) (\<lambda>_.
     rbind (ensure_plan_exists db plan_code) (\<lambda>_.
     let current = db_subs db u in
     if is_some_and current (paid_and_effective now) then Inl paid_subscription_active
     else
       let same_plan = is_some_and current (\<lambda>s. sub_effective now s \<and> sb_plan_code s = plan_code);
           kind = (if same_plan then ''extended'' else ''plan_granted'');
           period_end =
             (if same_plan then
                (case (dys, Option.bind current sb_current_period_end) of
                   (Some d, Some e) \<Rightarrow> Some (max e now + days d)
                 | _ \<Rightarrow> None)
              else map_option (\<lambda>d. now + days d) dys);
           row = (case current of
                    Some s \<Rightarrow>
                      if same_plan then extended_row now source period_end note actor s
                      else granted_row now plan_code source period_end note actor current
                  | None \<Rightarrow> granted_row now plan_code source period_end note actor current);
           data = json_extend
             (JObj [(''days'', json_of_opt JInt dys), (''source'', JStr (source_key source)),
                    (''note'', json_of_opt JStr note)]) reference
       in rbind (write_sub u row db) (\<lambda>db.
          rbind (record_event now u kind current (Some plan_code) (Some Active) data actor db) (\<lambda>db.
          Inr (\<lparr>go_kind = kind, go_plan_code = plan_code, go_status = Active,
                go_current_period_end = period_end\<rparr>, db)))))"

section \<open>Trials\<close>

definition trial_row ::
  "time \<Rightarrow> string \<Rightarrow> time \<Rightarrow> uuid option \<Rightarrow> sub_row option \<Rightarrow> sub_row"
where
  "trial_row now plan_code ends_at actor current =
     (case current of
        None \<Rightarrow>
          (blank_sub plan_code Trialing TrialSource now)
            \<lparr>sb_current_period_end := Some ends_at, sb_trial_ends_at := Some ends_at,
             sb_updated_by := actor\<rparr>
      | Some s \<Rightarrow>
          s\<lparr>sb_plan_code := plan_code, sb_status := Trialing, sb_source := TrialSource,
            sb_started_at := now, sb_current_period_end := Some ends_at,
            sb_trial_ends_at := Some ends_at, sb_cancel_at_period_end := False,
            sb_canceled_at := None, sb_updated_at := now, sb_updated_by := actor,
            sb_trial_reminder_sent_at := None, sb_past_due_since := None,
            sb_provider_status := None, sb_unit_amount_cents := None, sb_currency := None,
            sb_paid_trial_reminder_sent_at := None, sb_renewal_reminder_period_end := None,
            sb_terms_version := None, sb_terms_accepted_at := None\<rparr>)"

definition start_trial ::
  "time \<Rightarrow> uuid \<Rightarrow> string \<Rightarrow> int \<Rightarrow> uuid option \<Rightarrow> db \<Rightarrow> api_error + (grant_outcome option \<times> db)"
where
  "start_trial now u plan_code dys actor db =
     (if ensure_not_staff db u \<noteq> Inr () then Inr (None, db)
      else
        rbind (ensure_plan_exists db plan_code) (\<lambda>_.
        let current = db_subs db u in
        if is_some_and current (sub_effective now) then Inr (None, db)
        else
          let ends_at = now + days dys in
          rbind (write_sub u (trial_row now plan_code ends_at actor current) db) (\<lambda>db.
          rbind (record_event now u ''trial_started'' current (Some plan_code) (Some Trialing)
                   (JObj [(''days'', JInt dys)]) actor db) (\<lambda>db.
          Inr (Some \<lparr>go_kind = ''trial_started'', go_plan_code = plan_code, go_status = Trialing,
                     go_current_period_end = Some ends_at\<rparr>, db)))))"

definition not_eligible :: api_error where
  "not_eligible = rule 403 ''PROMO_CODE_NOT_ELIGIBLE''"

definition extend_trial ::
  "time \<Rightarrow> uuid \<Rightarrow> int \<Rightarrow> billing_settings \<Rightarrow> db \<Rightarrow> api_error + (grant_outcome \<times> db)"
where
  "extend_trial now u dys settings db =
     (let fresh =
        rbind (start_trial now u (bs_trial_plan settings) dys None db) (\<lambda>(g, db).
          case g of None \<Rightarrow> Inl not_eligible | Some g \<Rightarrow> Inr (g, db))
      in case db_subs db u of
        None \<Rightarrow> fresh
      | Some s \<Rightarrow>
          if paid_and_effective now s then Inl paid_subscription_active
          else if sub_effective now s \<and> sb_status s = Trialing then
            let base = max (unwrap_or (or_else (sb_trial_ends_at s) (sb_current_period_end s)) now) now;
                ends_at = base + days dys
            in rbind (write_sub u (s\<lparr>sb_trial_ends_at := Some ends_at,
                         sb_current_period_end := Some ends_at, sb_updated_at := now,
                         sb_trial_reminder_sent_at := None\<rparr>) db) (\<lambda>db.
               rbind (record_event now u ''trial_extended'' (Some s) (Some (sb_plan_code s))
                        (Some Trialing) (JObj [(''days'', JInt dys)]) None db) (\<lambda>db.
               Inr (\<lparr>go_kind = ''trial_extended'', go_plan_code = sb_plan_code s,
                     go_status = Trialing, go_current_period_end = Some ends_at\<rparr>, db)))
          else if sub_effective now s then Inl not_eligible
          else fresh)"

section \<open>Paid subscriptions\<close>

definition map_provider_status :: "string \<Rightarrow> subscription_status option" where
  "map_provider_status st =
     (if st \<in> set [''active'', ''trialing''] then Some Active
      else if st = ''past_due'' then Some PastDue
      else if st = ''canceled'' then Some Canceled
      else if st \<in> set [''unpaid'', ''paused''] then Some Expired
      else None)"

record payment_snapshot =
  ps_external_ref :: string
  ps_plan_code :: string
  ps_interval :: "billing_interval option"
  ps_status :: "subscription_status option"
  ps_provider_status :: string
  ps_current_period_end :: "time option"
  ps_cancel_at_period_end :: bool
  ps_ended_at :: "time option"
  ps_trial_end :: "time option"
  ps_unit_amount :: "int option"
  ps_currency :: "string option"

record payment_change =
  pc_kind :: string
  pc_plan_code :: string
  pc_status :: subscription_status
  pc_current_period_end :: "time option"
  pc_extra :: json

definition change_notification :: "payment_change \<Rightarrow> uuid \<Rightarrow> notification option" where
  "change_notification c u =
     (if pc_kind c \<in> set [''subscribed'', ''plan_changed'', ''payment_failed'', ''cancel_scheduled'',
            ''resumed'', ''canceled'', ''withdrawn'', ''refunded'', ''disputed'']
      then
        let n = subscription_changed u (pc_kind c) (Some (pc_plan_code c))
                  (Some (status_key (pc_status c))) (pc_current_period_end c)
        in Some (n\<lparr>nt_data := json_extend (nt_data n) (pc_extra c)\<rparr>)
      else None)"

definition change_ended :: "payment_change \<Rightarrow> bool" where
  "change_ended c = (pc_kind c \<in> set [''canceled'', ''withdrawn'', ''refunded'', ''disputed''])"

datatype applied = Changed payment_change | Unchanged | Duplicate string

text \<open>
  What mirroring a snapshot means for an account's current row (\<open>match current\<close>): the kind
  of the change, or \<open>None\<close> when there is nothing to apply.
\<close>

definition change_kind ::
  "payment_snapshot \<Rightarrow> subscription_status \<Rightarrow> time option \<Rightarrow> time option \<Rightarrow> sub_row option \<Rightarrow> string option"
where
  "change_kind snap status period_end trial_end same_current =
     (let live = is_live status; interval = map_option interval_key (ps_interval snap) in
      case same_current of
        None \<Rightarrow> Some ''subscribed''
      | Some c \<Rightarrow>
          let was_live = is_live (sb_status c) in
          if \<not> was_live \<and> \<not> live then None
          else if was_live \<and> \<not> live then Some ''canceled''
          else if \<not> was_live \<and> live then Some ''subscribed''
          else if sb_plan_code c \<noteq> ps_plan_code snap \<or> sb_billing_interval c \<noteq> interval
          then Some ''plan_changed''
          else if sb_status c = Active \<and> status = PastDue then Some ''payment_failed''
          else if sb_status c = PastDue \<and> status = Active then Some ''payment_recovered''
          else if \<not> sb_cancel_at_period_end c \<and> ps_cancel_at_period_end snap
          then Some ''cancel_scheduled''
          else if sb_cancel_at_period_end c \<and> \<not> ps_cancel_at_period_end snap then Some ''resumed''
          else if opt_less (sb_current_period_end c) period_end then Some ''renewed''
          else if sb_provider_status c \<noteq> Some (ps_provider_status snap)
                  \<or> sb_unit_amount_cents c \<noteq> ps_unit_amount snap \<or> sb_trial_ends_at c \<noteq> trial_end
          then Some ''updated''
          else None)"

text \<open>The upsert; the \<open>CASE\<close>s keep a column only for the same paid subscription.\<close>

definition mirrored_row ::
  "time \<Rightarrow> payment_snapshot \<Rightarrow> subscription_status \<Rightarrow> time option \<Rightarrow> time option \<Rightarrow> time option
     \<Rightarrow> sub_row option \<Rightarrow> sub_row"
where
  "mirrored_row now snap status period_end trial_end past_due_since current =
     (let base =
        (case current of
           None \<Rightarrow> blank_sub (ps_plan_code snap) status Payment now
         | Some s \<Rightarrow>
             let other = (sb_external_ref s \<noteq> Some (ps_external_ref snap) \<or> sb_source s \<noteq> Payment) in
             s\<lparr>sb_plan_code := ps_plan_code snap, sb_status := status, sb_source := Payment,
               sb_started_at := (if other then now else sb_started_at s),
               sb_paid_trial_reminder_sent_at :=
                 (if other then None else sb_paid_trial_reminder_sent_at s),
               sb_renewal_reminder_period_end :=
                 (if other then None else sb_renewal_reminder_period_end s),
               sb_terms_version := (if other then None else sb_terms_version s),
               sb_terms_accepted_at := (if other then None else sb_terms_accepted_at s),
               sb_note := None, sb_updated_at := now, sb_updated_by := None,
               sb_trial_reminder_sent_at := None\<rparr>)
      in base\<lparr>sb_current_period_end := period_end, sb_trial_ends_at := trial_end,
              sb_cancel_at_period_end := ps_cancel_at_period_end snap,
              sb_canceled_at := (if is_live status then None else Some now),
              sb_external_ref := Some (ps_external_ref snap),
              sb_billing_interval := map_option interval_key (ps_interval snap),
              sb_past_due_since := past_due_since,
              sb_provider_status := Some (ps_provider_status snap),
              sb_unit_amount_cents := ps_unit_amount snap, sb_currency := ps_currency snap\<rparr>)"

text \<open>
  The latest purchase event of a subscription that says what it replaced
  (\<open>ORDER BY created_at DESC LIMIT 1\<close>; of two at the same time, the one written last).
\<close>

fun latest_event :: "event_row option \<Rightarrow> event_row list \<Rightarrow> event_row option" where
  "latest_event best [] = best"
| "latest_event best (e # es) =
     latest_event
       (case best of
          None \<Rightarrow> Some e
        | Some b \<Rightarrow> if ev_created_at b \<le> ev_created_at e then Some e else Some b) es"

definition replaced_grant :: "db \<Rightarrow> uuid \<Rightarrow> string \<Rightarrow> json option" where
  "replaced_grant db u external_ref =
     map_option (\<lambda>e. json_index (ev_data e) ''replaced'')
       (latest_event None
          (filter (\<lambda>e. ev_user e = u \<and> ev_kind e = ''subscribed''
                       \<and> json_get (ev_data e) ''external_ref'' = Some (JStr external_ref)
                       \<and> json_get (ev_data e) ''replaced'' \<noteq> None) (db_events db)))"

fun json_time :: "json \<Rightarrow> time option" where
  "json_time (JTime t) = Some t"
| "json_time _ = None"

definition restored_row :: "time \<Rightarrow> string \<Rightarrow> time option \<Rightarrow> sub_row \<Rightarrow> sub_row" where
  "restored_row now plan_code until s =
     s\<lparr>sb_plan_code := plan_code, sb_status := Active, sb_source := AdminSource,
       sb_current_period_end := until, sb_started_at := now, sb_canceled_at := None,
       sb_cancel_at_period_end := False, sb_external_ref := None, sb_billing_interval := None,
       sb_past_due_since := None, sb_provider_status := None, sb_unit_amount_cents := None,
       sb_currency := None, sb_trial_ends_at := None, sb_updated_at := now\<rparr>"

definition restore_complimentary_grant ::
  "time \<Rightarrow> uuid \<Rightarrow> string \<Rightarrow> db \<Rightarrow> api_error + (bool \<times> db)"
where
  "restore_complimentary_grant now u external_ref db =
     (case replaced_grant db u external_ref of
        None \<Rightarrow> Inr (False, db)
      | Some replaced \<Rightarrow>
     (case as_str (json_index replaced ''plan_code'') of
        None \<Rightarrow> Inr (False, db)
      | Some plan_code \<Rightarrow>
          let until = json_time (json_index replaced ''current_period_end'') in
          if is_some_and until (\<lambda>e. e \<le> now) then Inr (False, db)
          else
            rbind (case db_subs db u of
                     None \<Rightarrow> Inr db
                   | Some s \<Rightarrow> write_sub u (restored_row now plan_code until s) db) (\<lambda>db.
            rbind (record_event now u ''grant_restored'' None (Some plan_code) (Some Active)
                     (JObj [(''source'', JStr (source_key AdminSource)),
                            (''after'', JStr external_ref)]) None db) (\<lambda>db.
            Inr (True, db)))))"

definition apply_payment_subscription ::
  "time \<Rightarrow> uuid \<Rightarrow> payment_snapshot \<Rightarrow> db \<Rightarrow> api_error + (applied \<times> db)"
where
  "apply_payment_subscription now u snap db =
     (case ps_status snap of
        None \<Rightarrow> Inr (Unchanged, db)
      | Some status \<Rightarrow>
     rbind (ensure_plan_exists db (ps_plan_code snap)) (\<lambda>_.
     let current = db_subs db u;
         live = is_live status;
         same = is_some_and current (\<lambda>c. sb_source c = Payment
                  \<and> sb_external_ref c = Some (ps_external_ref snap))
     in
     if \<not> same \<and> \<not> live then Inr (Unchanged, db)
     else case (if same then None
                else Option.bind (opt_filter (paid_and_effective now) current) sb_external_ref) of
       Some current_ref \<Rightarrow> Inr (Duplicate current_ref, db)
     | None \<Rightarrow>
     let period_end = (if live then ps_current_period_end snap
                       else Some (unwrap_or (ps_ended_at snap) now));
         trial_end = opt_filter (\<lambda>_. ps_provider_status snap = ''trialing'') (ps_trial_end snap);
         past_due_since =
           (if status = PastDue
            then Some (unwrap_or
                   (Option.bind (opt_filter (\<lambda>c. same \<and> sb_status c = PastDue) current)
                      sb_past_due_since) now)
            else None)
     in
     case change_kind snap status period_end trial_end (opt_filter (\<lambda>_. same) current) of
       None \<Rightarrow> Inr (Unchanged, db)
     | Some kind \<Rightarrow>
         rbind (write_sub u (mirrored_row now snap status period_end trial_end past_due_since current) db)
           (\<lambda>db.
         let data0 = [(''source'', JStr (source_key Payment)),
                      (''external_ref'', JStr (ps_external_ref snap)),
                      (''interval'', json_of_opt JStr (map_option interval_key (ps_interval snap))),
                      (''provider_status'', JStr (ps_provider_status snap))];
             replaced = opt_filter (\<lambda>c. \<not> same \<and> sb_source c = AdminSource \<and> sub_effective now c) current;
             data =
               (case (kind = ''subscribed'', replaced) of
                  (True, Some c) \<Rightarrow>
                    JObj ((''replaced'',
                      JObj [(''plan_code'', JStr (sb_plan_code c)),
                            (''source'', JStr (source_key (sb_source c))),
                            (''current_period_end'', json_of_opt JTime (sb_current_period_end c))])
                      # data0)
                | _ \<Rightarrow> JObj data0)
         in
         rbind (record_event now u kind current (Some (ps_plan_code snap)) (Some status) data None db)
           (\<lambda>db.
         rbind (if kind = ''canceled''
                then map_sum id snd (restore_complimentary_grant now u (ps_external_ref snap) db)
                else Inr db) (\<lambda>db.
         Inr (Changed \<lparr>pc_kind = kind, pc_plan_code = ps_plan_code snap, pc_status = status,
                        pc_current_period_end = period_end, pc_extra = JNull\<rparr>, db))))))"

definition end_paid_subscription ::
  "time \<Rightarrow> uuid \<Rightarrow> string \<Rightarrow> string \<Rightarrow> json \<Rightarrow> uuid option \<Rightarrow> db
     \<Rightarrow> api_error + (payment_change option \<times> db)"
where
  "end_paid_subscription now u external_ref kind data actor db =
     (case opt_filter (\<lambda>c. sb_source c = Payment \<and> sb_external_ref c = Some external_ref
                           \<and> is_live (sb_status c)) (db_subs db u) of
        None \<Rightarrow> Inr (None, db)
      | Some c \<Rightarrow>
          rbind (write_sub u
                   (c\<lparr>sb_status := Canceled, sb_current_period_end := Some now,
                      sb_canceled_at := Some now, sb_cancel_at_period_end := False,
                      sb_past_due_since := None, sb_provider_status := Some ''canceled'',
                      sb_updated_at := now, sb_updated_by := actor\<rparr>) db) (\<lambda>db.
          rbind (record_event now u kind (Some c) (Some (sb_plan_code c)) (Some Canceled)
                   (json_extend (JObj [(''source'', JStr (source_key Payment)),
                                       (''external_ref'', JStr external_ref)]) data) actor db) (\<lambda>db.
          rbind (restore_complimentary_grant now u external_ref db) (\<lambda>(_, db).
          Inr (Some \<lparr>pc_kind = kind, pc_plan_code = sb_plan_code c, pc_status = Canceled,
                      pc_current_period_end = Some now, pc_extra = data\<rparr>, db)))))"

text \<open>
  \<open>revoke_subscription\<close> after the paid subscription, if any, was canceled at the provider.
\<close>

definition revoke_subscription :: "time \<Rightarrow> uuid \<Rightarrow> uuid \<Rightarrow> db \<Rightarrow> api_error + (bool \<times> db)" where
  "revoke_subscription now u actor db =
     (case db_subs db u of
        None \<Rightarrow> Inr (False, db)
      | Some c \<Rightarrow>
          rbind (write_sub u (c\<lparr>sb_status := Expired, sb_current_period_end := Some now,
                                sb_updated_at := now, sb_updated_by := Some actor\<rparr>) db) (\<lambda>db.
          rbind (record_event now u ''revoked'' (Some c) (Some (sb_plan_code c)) (Some Expired)
                   (JObj []) (Some actor) db) (\<lambda>db.
          Inr (True, notify_all [subscription_changed u ''revoked'' (Some (sb_plan_code c))
                                   (Some ''expired'') (Some now)] db))))"

section \<open>Snapshots of the provider\<close>

record gateway_subscription =
  gw_id :: string
  gw_customer_id :: string
  gw_status :: string
  gw_item_id :: string
  gw_price_id :: string
  gw_plan_code :: "string option"
  gw_interval :: "billing_interval option"
  gw_current_period_end :: "int option"
  gw_cancel_at_period_end :: bool
  gw_canceled_at :: "int option"
  gw_ended_at :: "int option"
  gw_user_id :: "uuid option"
  gw_has_pending_update :: bool
  gw_trial_end :: "int option"
  gw_unit_amount :: "int option"
  gw_currency :: "string option"
  gw_latest_invoice_id :: "string option"
  gw_latest_invoice_status :: "string option"
  gw_hosted_invoice_url :: "string option"
  gw_latest_payment_status :: "string option"

text \<open>A Unix time within the range of chrono's calendar.\<close>

definition unix_to_naive :: "int \<Rightarrow> time option" where
  "unix_to_naive t =
     (if -8334601228800 \<le> t \<and> t \<le> 8210266876799 then Some (seconds t) else None)"

definition snapshot_of :: "gateway_subscription \<Rightarrow> payment_snapshot option" where
  "snapshot_of g =
     map_option (\<lambda>plan_code.
       \<lparr>ps_external_ref = gw_id g, ps_plan_code = plan_code, ps_interval = gw_interval g,
        ps_status = map_provider_status (gw_status g), ps_provider_status = gw_status g,
        ps_current_period_end = Option.bind (gw_current_period_end g) unix_to_naive,
        ps_cancel_at_period_end = gw_cancel_at_period_end g,
        ps_ended_at = Option.bind (gw_ended_at g) unix_to_naive,
        ps_trial_end = Option.bind (gw_trial_end g) unix_to_naive,
        ps_unit_amount = gw_unit_amount g, ps_currency = gw_currency g\<rparr>) (gw_plan_code g)"

section \<open>What an operation may touch\<close>

text \<open>
  The frame of an operation on the subscription of \<open>u\<close>: it writes that row and appends
  events and notices about \<open>u\<close>, and nothing else.
\<close>

definition sub_frame :: "uuid \<Rightarrow> db \<Rightarrow> db \<Rightarrow> bool" where
  "sub_frame u db db' \<longleftrightarrow>
     db_users db' = db_users db \<and> db_plans db' = db_plans db \<and> db_settings db' = db_settings db
     \<and> db_ledger db' = db_ledger db \<and> db_promos db' = db_promos db
     \<and> db_redemptions db' = db_redemptions db \<and> db_referrals db' = db_referrals db
     \<and> db_job_runs db' = db_job_runs db
     \<and> (\<forall>v. v \<noteq> u \<longrightarrow> db_subs db' v = db_subs db v)
     \<and> (\<exists>es. db_events db' = db_events db @ es \<and> (\<forall>e \<in> set es. ev_user e = u))
     \<and> (\<exists>ns. db_notices db' = db_notices db @ ns \<and> (\<forall>n \<in> set ns. nt_user n = u))"

lemma sub_frame_refl [simp, intro]: "sub_frame u db db"
  by (simp add: sub_frame_def)

lemma sub_frame_trans [trans]:
  assumes "sub_frame u a b" and "sub_frame u b c"
  shows "sub_frame u a c"
proof -
  from assms obtain es es' ns ns' where
    "db_events b = db_events a @ es" "\<forall>e \<in> set es. ev_user e = u"
    "db_events c = db_events b @ es'" "\<forall>e \<in> set es'. ev_user e = u"
    "db_notices b = db_notices a @ ns" "\<forall>n \<in> set ns. nt_user n = u"
    "db_notices c = db_notices b @ ns'" "\<forall>n \<in> set ns'. nt_user n = u"
    by (auto simp: sub_frame_def)
  then have "\<exists>es. db_events c = db_events a @ es \<and> (\<forall>e \<in> set es. ev_user e = u)"
    and "\<exists>ns. db_notices c = db_notices a @ ns \<and> (\<forall>n \<in> set ns. nt_user n = u)"
    by (auto intro: exI [of _ "es @ es'"] exI [of _ "ns @ ns'"])
  with assms show ?thesis by (simp add: sub_frame_def)
qed

lemma write_sub_frame: "write_sub u s db = Inr db' \<Longrightarrow> sub_frame u db db'"
  by (auto simp: write_sub_Inr sub_frame_def)

lemma record_event_frame: "record_event now u k f p st d a db = Inr db' \<Longrightarrow> sub_frame u db db'"
  by (auto dest!: record_event_Inr simp: sub_frame_def)

lemma notify_frame: "\<forall>n \<in> set ns. nt_user n = u \<Longrightarrow> sub_frame u db (notify_all ns db)"
  by (simp add: sub_frame_def notify_all_def)

lemma sub_frame_user [simp]: "sub_frame u db db' \<Longrightarrow> user db' v = user db v"
  by (simp add: sub_frame_def user_def)

lemma sub_frame_plan_exists [simp]: "sub_frame u db db' \<Longrightarrow> plan_exists db' c = plan_exists db c"
  by (simp add: sub_frame_def plan_exists_def)

text \<open>One row and its event: the shape of every successful change.\<close>

lemma write_record:
  assumes "write_sub u s db = Inr db1" and "record_event now u k f p st d a db1 = Inr db2"
  shows "sub_frame u db db2" and "db_subs db2 u = Some s" and "sub_row_ok s" and "user db u \<noteq> None"
    and "plan_exists db (sb_plan_code s)"
    and "db_events db2 = db_events db @ [event_of now u k f p st d a]"
    and "db_notices db2 = db_notices db"
proof -
  show "sub_frame u db db2"
    using sub_frame_trans [OF write_sub_frame [OF assms(1)] record_event_frame [OF assms(2)]] .
  have 1: "db1 = db\<lparr>db_subs := (db_subs db)(u \<mapsto> s)\<rparr> \<and> sub_row_ok s \<and> user db u \<noteq> None
      \<and> plan_exists db (sb_plan_code s)"
    using assms(1) by (simp add: write_sub_Inr)
  have 2: "db2 = db1\<lparr>db_events := db_events db1 @ [event_of now u k f p st d a]\<rparr>"
    using record_event_Inr [OF assms(2)] by simp
  show "db_subs db2 u = Some s" and "sub_row_ok s" and "user db u \<noteq> None"
    and "plan_exists db (sb_plan_code s)"
    and "db_events db2 = db_events db @ [event_of now u k f p st d a]"
    and "db_notices db2 = db_notices db"
    using 1 2 by simp_all
qed

section \<open>Well-formed subscriptions\<close>

text \<open>
  What every row of the table satisfies, whichever operation wrote it: the table's checks,
  a provider id on a paid subscription, a failure time on a failed renewal (which only a
  paid subscription has), and the trial's end on a trial.
\<close>

definition sub_wf :: "sub_row \<Rightarrow> bool" where
  "sub_wf s \<longleftrightarrow>
     sub_row_ok s
     \<and> (sb_source s = Payment \<longrightarrow> sb_external_ref s \<noteq> None)
     \<and> (sb_status s = PastDue \<longrightarrow> sb_source s = Payment \<and> sb_past_due_since s \<noteq> None)
     \<and> (sb_status s = Trialing \<longrightarrow> sb_source s = TrialSource \<and> sb_trial_ends_at s \<noteq> None
          \<and> sb_trial_ends_at s = sb_current_period_end s)"

definition subs_ok :: "db \<Rightarrow> bool" where
  "subs_ok db \<longleftrightarrow> (\<forall>u s. db_subs db u = Some s \<longrightarrow>
     sub_wf s \<and> user db u \<noteq> None \<and> plan_exists db (sb_plan_code s))"

lemma subs_okD: "subs_ok db \<Longrightarrow> db_subs db u = Some s \<Longrightarrow> sub_wf s"
  by (simp add: subs_ok_def)

lemma subs_ok_write:
  assumes "subs_ok db" and "sub_frame u db db'"
    and "db_subs db' u = Some s \<Longrightarrow> sub_wf s \<and> user db u \<noteq> None \<and> plan_exists db (sb_plan_code s)"
    and "db_subs db' u \<noteq> None \<Longrightarrow> db_subs db' u = Some s"
  shows "subs_ok db'"
  unfolding subs_ok_def
proof (intro allI impI)
  fix v t
  assume t: "db_subs db' v = Some t"
  show "sub_wf t \<and> user db' v \<noteq> None \<and> plan_exists db' (sb_plan_code t)"
  proof (cases "v = u")
    case True
    then show ?thesis using assms t by auto
  next
    case False
    then have "db_subs db v = Some t" using assms(2) t by (simp add: sub_frame_def)
    then show ?thesis using assms(1,2) by (auto simp: subs_ok_def)
  qed
qed

text \<open>A frame that leaves the row alone keeps well-formedness.\<close>

lemma subs_ok_same:
  assumes "subs_ok db" and "sub_frame u db db'" and "db_subs db' u = db_subs db u"
  shows "subs_ok db'"
proof (cases "db_subs db u")
  case None
  with assms show ?thesis by (intro subs_ok_write [OF assms(1,2), of undefined]) auto
next
  case (Some s)
  with assms show ?thesis
    by (intro subs_ok_write [OF assms(1,2), of s]) (auto simp: subs_ok_def)
qed

end
