(* ===== verification/Provider.thy ===== *)
theory Provider
  imports Effects Decimal Subscriptions
begin

text \<open>
  What the API asks of a payment provider, from \<^verbatim>\<open>src/src/payments/mod.rs\<close>: the
  objects it exchanges with it and the trait \<open>PaymentGateway\<close> as a record of operations over
  the provider's own state \<open>'g\<close>, of which nothing is assumed. Every call, a read too, may
  change that state and may fail.
\<close>

section \<open>Errors\<close>

record payment_error =
  pe_status :: "nat option"
  pe_code :: "string option"
  pe_message :: string

definition transport_error :: "string \<Rightarrow> payment_error" where
  "transport_error message = \<lparr>pe_status = None, pe_code = None, pe_message = message\<rparr>"

definition is_missing :: "payment_error \<Rightarrow> bool" where
  "is_missing e = (pe_code e = Some ''resource_missing'')"

definition is_permission_denied :: "payment_error \<Rightarrow> bool" where
  "is_permission_denied e = (pe_status e = Some 403)"

text \<open>\<open>Display\<close>, which the queue of customers to delete stores.\<close>

definition payment_error_text :: "payment_error \<Rightarrow> string" where
  "payment_error_text e =
     (case (pe_status e, pe_code e) of
        (Some st, Some c) \<Rightarrow> show_nat st @ '' '' @ c @ '': '' @ pe_message e
      | (Some st, None) \<Rightarrow> show_nat st @ '': '' @ pe_message e
      | _ \<Rightarrow> pe_message e)"

text \<open>\<open>From<PaymentError> for ApiError\<close>: the client never sees the provider's details.\<close>

definition provider_error :: "payment_error \<Rightarrow> api_error" where
  "provider_error e = rule 502 ''PAYMENT_PROVIDER_ERROR''"

section \<open>Objects\<close>

record price_spec =
  sp_plan_code :: string
  sp_product_name :: string
  sp_interval :: billing_interval
  sp_currency :: string
  sp_unit_amount :: int

definition lookup_key :: "price_spec \<Rightarrow> string" where
  "lookup_key spec =
     ''setlyst_'' @ sp_plan_code spec @ ''_'' @ provider_key (sp_interval spec) @ ''_''
       @ show_int (sp_unit_amount spec) @ ''_'' @ map to_ascii_lowercase (sp_currency spec)"

record checkout_request =
  cr_user_id :: uuid
  cr_customer_id :: string
  cr_price_id :: string
  cr_plan_code :: string
  cr_interval :: billing_interval
  cr_success_url :: string
  cr_cancel_url :: string
  cr_locale :: string
  cr_trial_end :: "int option"
  cr_coupon_id :: "string option"
  cr_redemption_id :: "uuid option"
  cr_terms_message :: "string option"
  cr_terms_version :: "string option"
  cr_idempotency_key :: string

record checkout_session =
  cs_id :: string
  cs_url :: string

definition may_charge :: "gateway_subscription \<Rightarrow> bool" where
  "may_charge s =
     (gw_status s \<in> set [''active'', ''trialing'', ''past_due'', ''unpaid'', ''incomplete''])"

record 'a page =
  pg_items :: "'a list"
  pg_last_id :: "string option"
  pg_has_more :: bool

record gateway_invoice =
  iv_id :: string
  iv_customer_id :: "string option"
  iv_subscription_id :: "string option"
  iv_user_id :: "uuid option"
  iv_payment_intent_id :: "string option"
  iv_plan_code :: "string option"
  iv_interval :: "billing_interval option"
  iv_amount_paid :: int
  iv_currency :: string
  iv_paid_at :: "int option"

record gateway_refund =
  rf_id :: string
  rf_payment_intent_id :: "string option"
  rf_charge_id :: "string option"
  rf_amount :: int
  rf_currency :: "string option"
  rf_status :: string
  rf_created :: "int option"

definition counts :: "gateway_refund \<Rightarrow> bool" where
  "counts r = (rf_status r \<in> set [''succeeded'', ''pending''])"

record payment_fees =
  pf_charge_id :: "string option"
  pf_fee :: int
  pf_net :: int

definition provider_locale :: "string \<Rightarrow> string" where
  "provider_locale l = (if l = ''pt-BR'' then ''pt-BR'' else if l = ''es'' then ''es'' else ''en'')"

section \<open>The gateway\<close>

type_synonym ('g, 'a) ask = "('g, payment_error, 'a) eff"

record 'g gateway =
  gt_create_customer :: "uuid \<Rightarrow> string option \<Rightarrow> string \<Rightarrow> string \<Rightarrow> int \<Rightarrow> ('g, string) ask"
  gt_update_customer :: "string \<Rightarrow> string option \<Rightarrow> string \<Rightarrow> ('g, unit) ask"
  gt_ensure_price :: "price_spec \<Rightarrow> ('g, string) ask"
  gt_create_coupon :: "int \<Rightarrow> string \<Rightarrow> string \<Rightarrow> ('g, string) ask"
  gt_create_checkout :: "checkout_request \<Rightarrow> ('g, checkout_session) ask"
  gt_expire_checkout :: "string \<Rightarrow> ('g, unit) ask"
  gt_list_subscriptions ::
    "string option \<Rightarrow> string option \<Rightarrow> ('g, gateway_subscription page) ask"
  gt_create_portal :: "string \<Rightarrow> string \<Rightarrow> string \<Rightarrow> ('g, string) ask"
  gt_get_subscription :: "string \<Rightarrow> ('g, gateway_subscription) ask"
  gt_change_price :: "string \<Rightarrow> string \<Rightarrow> string \<Rightarrow> ('g, gateway_subscription) ask"
  gt_cancel_now :: "string \<Rightarrow> ('g, unit) ask"
  gt_get_paid_invoice :: "string \<Rightarrow> ('g, gateway_invoice option) ask"
  gt_list_subscription_invoices :: "string \<Rightarrow> ('g, gateway_invoice list) ask"
  gt_refund :: "string \<Rightarrow> int option \<Rightarrow> string \<Rightarrow> ('g, gateway_refund) ask"
  gt_list_refunds_for_payment :: "string \<Rightarrow> ('g, gateway_refund list) ask"
  gt_customer_balance :: "string \<Rightarrow> ('g, int) ask"
  gt_debit_customer_credit :: "string \<Rightarrow> int \<Rightarrow> string \<Rightarrow> string \<Rightarrow> ('g, unit) ask"
  gt_payment_fees :: "string \<Rightarrow> ('g, payment_fees option) ask"
  gt_list_paid_invoices :: "string option \<Rightarrow> ('g, gateway_invoice page) ask"
  gt_invoice_for_payment :: "string \<Rightarrow> ('g, string option) ask"
  gt_list_refunds :: "string option \<Rightarrow> ('g, gateway_refund page) ask"
  gt_delete_customer :: "string \<Rightarrow> ('g, unit) ask"

text \<open>The configured integration: the gateway, the webhook's secret, live or test mode.\<close>

record 'g payments =
  pm_gateway :: "'g gateway"
  pm_webhook_secret :: string
  pm_livemode :: bool

end
