(* ===== verification/Stripe.thy ===== *)
theory Stripe
  imports Provider
begin

text \<open>
  The gateway over Stripe's REST API, from \<^verbatim>\<open>src/src/payments/stripe.rs\<close>: reading
  Stripe's objects out of JSON, the form parameters of every request, the check of ids before
  they reach a path and the retry of calls that are safe to repeat.

  The HTTP client (the crate \<open>reqwest\<close>) is a parameter: \<open>http m path params key\<close> sends one
  request and yields the status and the JSON of the answer, or the reason there is none. So are
  the texts of UUIDs (the crate \<open>uuid\<close>).
\<close>

section \<open>Requests\<close>

datatype http_method = GET | POST | DELETE

type_synonym params = "(string \<times> string) list"

type_synonym 'g http =
  "http_method \<Rightarrow> string \<Rightarrow> params \<Rightarrow> string option \<Rightarrow> ('g, string, nat \<times> json) eff"

definition PRODUCT_PREFIX :: string where
  "PRODUCT_PREFIX = ''setlyst_plan_''"

definition id_char :: "char \<Rightarrow> bool" where
  "id_char c = (is_ascii_alphanumeric c \<or> c = CHR ''_'')"

definition checked_id :: "string \<Rightarrow> payment_error + string" where
  "checked_id i =
     (if i \<noteq> [] \<and> byte_len i \<le> 255 \<and> list_all id_char i then Inr i
      else Inl (transport_error (''invalid Stripe id '' @ quoted i)))"

definition is_transient :: "payment_error \<Rightarrow> bool" where
  "is_transient e = (case pe_status e of None \<Rightarrow> True | Some st \<Rightarrow> st = 429 \<or> st \<ge> 500)"

definition call_once ::
  "'g http \<Rightarrow> http_method \<Rightarrow> string \<Rightarrow> params \<Rightarrow> string option \<Rightarrow> ('g, json) ask"
where
  "call_once http m path params key =
     ebind (emap_err transport_error (http m path params key)) (\<lambda>(st, body).
       if 200 \<le> st \<and> st \<le> 299 then eret body
       else efail
         \<lparr>pe_status = Some st,
          pe_code = Option.bind (or_else (pointer body [Field ''error'', Field ''code''])
                                   (pointer body [Field ''error'', Field ''type''])) as_str,
          pe_message = unwrap_or (str_at body [Field ''error'', Field ''message''])
                         ''unknown error''\<rparr>)"

text \<open>Reads and writes with an idempotency key are sent a second time when the first try fails.\<close>

definition call ::
  "'g http \<Rightarrow> http_method \<Rightarrow> string \<Rightarrow> params \<Rightarrow> string option \<Rightarrow> ('g, json) ask"
where
  "call http m path params key =
     (let repeatable = (m = GET \<or> key \<noteq> None) in
      ebind (etry (call_once http m path params key)) (\<lambda>r.
        case r of
          Inl e \<Rightarrow>
            if repeatable \<and> is_transient e then call_once http m path params key else efail e
        | Inr body \<Rightarrow> eret body))"

section \<open>Reading objects\<close>

definition int_at :: "json \<Rightarrow> token list \<Rightarrow> int option" where
  "int_at v p = Option.bind (pointer v p) as_i64"

definition list_at :: "json \<Rightarrow> token list \<Rightarrow> json list option" where
  "list_at v p = Option.bind (pointer v p) as_array"

text \<open>\<open>iter().find_map(f)\<close>.\<close>

fun find_map :: "('a \<Rightarrow> 'b option) \<Rightarrow> 'a list \<Rightarrow> 'b option" where
  "find_map f [] = None"
| "find_map f (x # xs) = (case f x of Some y \<Rightarrow> Some y | None \<Rightarrow> find_map f xs)"

definition some_text :: "string option \<Rightarrow> string option" where
  "some_text m = opt_filter (\<lambda>s. s \<noteq> []) m"

text \<open>An expandable field: an id, or the object with its id.\<close>

definition id_or_object :: "json option \<Rightarrow> string option" where
  "id_or_object v =
     (case v of
        Some (JStr i) \<Rightarrow> some_text (Some i)
      | Some (JObj m) \<Rightarrow> some_text (Option.bind (map_of m ''id'') as_str)
      | _ \<Rightarrow> None)"

definition text_id :: "json option \<Rightarrow> string option" where
  "text_id v =
     (case v of
        Some (JStr i) \<Rightarrow> Some i
      | Some w \<Rightarrow> str_at w [Field ''id'']
      | None \<Rightarrow> None)"

definition payment_status_of :: "json \<Rightarrow> string option" where
  "payment_status_of value =
     Option.bind (list_at value [Field ''latest_invoice'', Field ''payments'', Field ''data''])
       (find_map (\<lambda>p. str_at p [Field ''payment'', Field ''payment_intent'', Field ''status'']))"

definition parse_subscription ::
  "(string \<Rightarrow> uuid option) \<Rightarrow> json \<Rightarrow> payment_error + gateway_subscription"
where
  "parse_subscription parse_uuid value =
     (case pointer value [Field ''items'', Field ''data'', Elem 0] of
        None \<Rightarrow> Inl (transport_error ''subscription without items'')
      | Some item \<Rightarrow>
     (case json_get item ''price'' of
        None \<Rightarrow> Inl (transport_error ''subscription item without a price'')
      | Some price \<Rightarrow>
     (case str_at value [Field ''id''] of
        None \<Rightarrow> Inl (transport_error ''subscription without an id'')
      | Some i \<Rightarrow>
          let product_id = text_id (json_get price ''product'') in
          Inr
            \<lparr>gw_id = i,
             gw_customer_id = unwrap_or (text_id (json_get value ''customer'')) [],
             gw_status = unwrap_or (str_at value [Field ''status'']) [],
             gw_item_id = unwrap_or (str_at item [Field ''id'']) [],
             gw_price_id = unwrap_or (str_at price [Field ''id'']) [],
             gw_plan_code =
               or_else (some_text (str_at price [Field ''metadata'', Field ''plan_code'']))
                 (Option.bind product_id (strip_prefix PRODUCT_PREFIX)),
             gw_interval =
               Option.bind (str_at price [Field ''recurring'', Field ''interval'']) interval_from_provider,
             gw_current_period_end =
               or_else (int_at item [Field ''current_period_end''])
                 (int_at value [Field ''current_period_end'']),
             gw_cancel_at_period_end =
               unwrap_or (Option.bind (json_get value ''cancel_at_period_end'') as_bool) False,
             gw_canceled_at = int_at value [Field ''canceled_at''],
             gw_ended_at = int_at value [Field ''ended_at''],
             gw_user_id = Option.bind (str_at value [Field ''metadata'', Field ''user_id'']) parse_uuid,
             gw_has_pending_update = is_some_and (json_get value ''pending_update'') (\<lambda>p. p \<noteq> JNull),
             gw_trial_end = int_at value [Field ''trial_end''],
             gw_unit_amount = int_at price [Field ''unit_amount''],
             gw_currency = map_option (map to_ascii_uppercase) (str_at price [Field ''currency'']),
             gw_latest_invoice_id = id_or_object (json_get value ''latest_invoice''),
             gw_latest_invoice_status = str_at value [Field ''latest_invoice'', Field ''status''],
             gw_hosted_invoice_url =
               str_at value [Field ''latest_invoice'', Field ''hosted_invoice_url''],
             gw_latest_payment_status = payment_status_of value\<rparr>)))"

definition parse_refund :: "json \<Rightarrow> gateway_refund option" where
  "parse_refund value =
     map_option (\<lambda>i.
       \<lparr>rf_id = i,
        rf_payment_intent_id = id_or_object (json_get value ''payment_intent''),
        rf_charge_id = id_or_object (json_get value ''charge''),
        rf_amount = unwrap_or (int_at value [Field ''amount'']) 0,
        rf_currency = map_option (map to_ascii_uppercase) (str_at value [Field ''currency'']),
        rf_status = unwrap_or (str_at value [Field ''status'']) [],
        rf_created = int_at value [Field ''created'']\<rparr>) (str_at value [Field ''id''])"

text \<open>A longer billing period than this is a yearly charge. The difference wraps in \<open>i64\<close>.\<close>

definition YEARLY_PERIOD_SECS :: int where
  "YEARLY_PERIOD_SECS = 60 * 86400"

text \<open>The line of an invoice that was charged the most, and what it is for.\<close>

definition main_line :: "json \<Rightarrow> json option" where
  "main_line value =
     Option.bind (list_at value [Field ''lines'', Field ''data''])
       (max_by_key (\<lambda>l. unwrap_or (int_at l [Field ''amount'']) (- (2 ^ 63))))"

definition line_plan_code :: "json \<Rightarrow> string option" where
  "line_plan_code l =
     or_else (some_text (str_at l [Field ''price'', Field ''metadata'', Field ''plan_code'']))
       (Option.bind
          (or_else (id_or_object (pointer l [Field ''pricing'', Field ''price_details'', Field ''product'']))
             (or_else (id_or_object (pointer l [Field ''price'', Field ''product'']))
                (id_or_object (pointer l [Field ''plan'', Field ''product'']))))
          (strip_prefix PRODUCT_PREFIX))"

definition line_interval :: "json \<Rightarrow> billing_interval option" where
  "line_interval l =
     or_else
       (Option.bind (str_at l [Field ''price'', Field ''recurring'', Field ''interval''])
          interval_from_provider)
       (case (int_at l [Field ''period'', Field ''start''], int_at l [Field ''period'', Field ''end'']) of
          (Some start, Some end_at) \<Rightarrow>
            Some (if wrap64 (end_at - start) > YEARLY_PERIOD_SECS then Yearly else Monthly)
        | _ \<Rightarrow> None)"

definition parse_invoice :: "(string \<Rightarrow> uuid option) \<Rightarrow> json \<Rightarrow> gateway_invoice option" where
  "parse_invoice parse_uuid value =
     (if str_at value [Field ''status''] \<noteq> Some ''paid'' then None
      else case (opt_filter (\<lambda>a. a > 0) (int_at value [Field ''amount_paid'']), str_at value [Field ''id'']) of
        (Some amount, Some i) \<Rightarrow>
          Some
            \<lparr>iv_id = i,
             iv_customer_id = id_or_object (json_get value ''customer''),
             iv_subscription_id =
               or_else
                 (id_or_object (pointer value
                    [Field ''parent'', Field ''subscription_details'', Field ''subscription'']))
                 (id_or_object (json_get value ''subscription'')),
             iv_user_id =
               Option.bind
                 (Option.bind
                    (or_else
                       (pointer value [Field ''parent'', Field ''subscription_details'',
                                       Field ''metadata'', Field ''user_id''])
                       (pointer value [Field ''subscription_details'', Field ''metadata'',
                                       Field ''user_id''])) as_str) parse_uuid,
             iv_payment_intent_id =
               or_else
                 (Option.bind (list_at value [Field ''payments'', Field ''data''])
                    (find_map (\<lambda>p.
                       id_or_object (pointer p [Field ''payment'', Field ''payment_intent'']))))
                 (id_or_object (json_get value ''payment_intent'')),
             iv_plan_code = Option.bind (main_line value) line_plan_code,
             iv_interval = Option.bind (main_line value) line_interval,
             iv_amount_paid = amount,
             iv_currency =
               map to_ascii_uppercase (unwrap_or (str_at value [Field ''currency'']) ''brl''),
             iv_paid_at =
               or_else (int_at value [Field ''status_transitions'', Field ''paid_at''])
                 (int_at value [Field ''created''])\<rparr>
      | _ \<Rightarrow> None)"

text \<open>The page of a listing: what could be read, where the next page starts, whether there is one.\<close>

definition page_of :: "(json \<Rightarrow> 'a option) \<Rightarrow> json \<Rightarrow> 'a page" where
  "page_of parse body =
     (let data = Option.bind (json_get body ''data'') as_array in
      \<lparr>pg_items = List.map_filter parse (unwrap_or data []),
       pg_last_id =
         Option.bind data (\<lambda>d. if d = [] then None else str_at (last d) [Field ''id'']),
       pg_has_more =
         unwrap_or (Option.bind (json_get body ''has_more'') as_bool) False
         \<and> is_some_and data (\<lambda>d. d \<noteq> [])\<rparr>)"

definition field_of :: "string \<Rightarrow> string \<Rightarrow> json \<Rightarrow> payment_error + string" where
  "field_of k message body =
     (case str_at body [Field k] of Some t \<Rightarrow> Inr t | None \<Rightarrow> Inl (transport_error message))"

definition url_of :: "json \<Rightarrow> payment_error + string" where
  "url_of body = field_of ''url'' ''Stripe answered without a URL'' body"

definition id_of :: "json \<Rightarrow> payment_error + string" where
  "id_of body = field_of ''id'' ''Stripe answered without an id'' body"

section \<open>The operations\<close>

definition checkout_params :: "(uuid \<Rightarrow> string) \<Rightarrow> checkout_request \<Rightarrow> params" where
  "checkout_params uuid_text r =
     [(''mode'', ''subscription''),
      (''customer'', cr_customer_id r),
      (''client_reference_id'', uuid_text (cr_user_id r)),
      (''line_items[0][price]'', cr_price_id r),
      (''line_items[0][quantity]'', ''1''),
      (''success_url'', cr_success_url r),
      (''cancel_url'', cr_cancel_url r),
      (''locale'', provider_locale (cr_locale r)),
      (''metadata[user_id]'', uuid_text (cr_user_id r)),
      (''metadata[plan_code]'', cr_plan_code r),
      (''metadata[interval]'', interval_key (cr_interval r)),
      (''subscription_data[metadata][user_id]'', uuid_text (cr_user_id r)),
      (''subscription_data[metadata][plan_code]'', cr_plan_code r),
      (''payment_method_types[0]'', ''card'')]
     @ (case cr_terms_message r of
          Some m \<Rightarrow> [(''consent_collection[terms_of_service]'', ''required''),
                     (''custom_text[terms_of_service_acceptance][message]'', m)]
        | None \<Rightarrow> [])
     @ (case cr_terms_version r of Some v \<Rightarrow> [(''metadata[terms_version]'', v)] | None \<Rightarrow> [])
     @ (case cr_trial_end r of
          Some t \<Rightarrow> [(''subscription_data[trial_end]'', show_int t)] | None \<Rightarrow> [])
     @ (case cr_coupon_id r of Some c \<Rightarrow> [(''discounts[0][coupon]'', c)] | None \<Rightarrow> [])
     @ (case cr_redemption_id r of
          Some d \<Rightarrow> [(''metadata[redemption_id]'', uuid_text d)] | None \<Rightarrow> [])"

definition create_customer ::
  "(uuid \<Rightarrow> string) \<Rightarrow> 'g http \<Rightarrow> uuid \<Rightarrow> string option \<Rightarrow> string \<Rightarrow> string \<Rightarrow> int \<Rightarrow> ('g, string) ask"
where
  "create_customer uuid_text http u email name locale_key generation =
     ebind (call http POST ''/v1/customers''
              ([(''name'', name), (''metadata[user_id]'', uuid_text u),
                (''preferred_locales[0]'', provider_locale locale_key)]
               @ (case email of Some e \<Rightarrow> [(''email'', e)] | None \<Rightarrow> []))
              (Some (''setlyst-customer-'' @ uuid_text u @ ''-'' @ show_int generation)))
       (\<lambda>body. eresult (id_of body))"

definition update_customer :: "'g http \<Rightarrow> string \<Rightarrow> string option \<Rightarrow> string \<Rightarrow> ('g, unit) ask" where
  "update_customer http customer_id email name =
     ebind (eresult (checked_id customer_id)) (\<lambda>i.
     ebind (call http POST (''/v1/customers/'' @ i)
              [(''name'', name), (''email'', unwrap_or email [])] None) (\<lambda>_. eret ()))"

definition ensure_product :: "'g http \<Rightarrow> price_spec \<Rightarrow> ('g, string) ask" where
  "ensure_product http spec =
     (let i = PRODUCT_PREFIX @ sp_plan_code spec in
      ebind (etry (call http POST ''/v1/products''
                     [(''id'', i), (''name'', sp_product_name spec),
                      (''metadata[plan_code]'', sp_plan_code spec)]
                     (Some (''setlyst-product-'' @ i)))) (\<lambda>created.
        case created of
          Inr _ \<Rightarrow> eret i
        | Inl e \<Rightarrow>
            if pe_status e = Some 400 then
              ebind (eresult (checked_id i)) (\<lambda>c.
              ebind (etry (call http GET (''/v1/products/'' @ c) [] None)) (\<lambda>found.
                case found of Inr _ \<Rightarrow> eret i | Inl (_ :: payment_error) \<Rightarrow> efail e))
            else efail e))"

definition ensure_price :: "'g http \<Rightarrow> price_spec \<Rightarrow> ('g, string) ask" where
  "ensure_price http spec =
     ebind (call http GET ''/v1/prices''
              [(''lookup_keys[]'', lookup_key spec), (''active'', ''true''), (''limit'', ''1'')] None)
       (\<lambda>found.
        case str_at found [Field ''data'', Elem 0, Field ''id''] of
          Some i \<Rightarrow> eret i
        | None \<Rightarrow>
            ebind (ensure_product http spec) (\<lambda>product.
            ebind (call http POST ''/v1/prices''
                     [(''product'', product),
                      (''currency'', map to_ascii_lowercase (sp_currency spec)),
                      (''unit_amount'', show_int (sp_unit_amount spec)),
                      (''recurring[interval]'', provider_key (sp_interval spec)),
                      (''lookup_key'', lookup_key spec),
                      (''transfer_lookup_key'', ''true''),
                      (''nickname'', lookup_key spec),
                      (''metadata[plan_code]'', sp_plan_code spec),
                      (''metadata[interval]'', interval_key (sp_interval spec))]
                     (Some (''setlyst-price-'' @ lookup_key spec))) (\<lambda>body.
            eresult (id_of body))))"

definition create_coupon :: "int \<Rightarrow> 'g http \<Rightarrow> int \<Rightarrow> string \<Rightarrow> string \<Rightarrow> ('g, string) ask" where
  "create_coupon now_secs http percent name key =
     ebind (call http POST ''/v1/coupons''
              [(''percent_off'', show_int (max 1 (min 100 percent))), (''duration'', ''once''),
               (''max_redemptions'', ''1''), (''redeem_by'', show_int (now_secs + 25 * 3600)),
               (''name'', take 40 name)] (Some key)) (\<lambda>body. eresult (id_of body))"

definition create_checkout ::
  "(uuid \<Rightarrow> string) \<Rightarrow> 'g http \<Rightarrow> checkout_request \<Rightarrow> ('g, checkout_session) ask"
where
  "create_checkout uuid_text http r =
     ebind (call http POST ''/v1/checkout/sessions'' (checkout_params uuid_text r)
              (Some (cr_idempotency_key r))) (\<lambda>body.
     ebind (eresult (id_of body)) (\<lambda>i.
     ebind (eresult (url_of body)) (\<lambda>url.
     eret \<lparr>cs_id = i, cs_url = url\<rparr>)))"

definition expire_checkout :: "'g http \<Rightarrow> string \<Rightarrow> ('g, unit) ask" where
  "expire_checkout http session_id =
     ebind (eresult (checked_id session_id)) (\<lambda>i.
     ebind (etry (call http POST (''/v1/checkout/sessions/'' @ i @ ''/expire'') [] None)) (\<lambda>r.
       case r of
         Inr _ \<Rightarrow> eret ()
       | Inl e \<Rightarrow>
           if pe_status e = Some 400 \<or> pe_status e = Some 404 then eret () else efail e))"

text \<open>A parameter of a request that is an id, when there is one.\<close>

definition id_param :: "string \<Rightarrow> string option \<Rightarrow> payment_error + params" where
  "id_param k m = (case m of None \<Rightarrow> Inr [] | Some i \<Rightarrow> map_sum id (\<lambda>c. [(k, c)]) (checked_id i))"

definition list_subscriptions ::
  "(string \<Rightarrow> uuid option) \<Rightarrow> 'g http \<Rightarrow> string option \<Rightarrow> string option
     \<Rightarrow> ('g, gateway_subscription page) ask"
where
  "list_subscriptions parse_uuid http customer_id starting_after =
     ebind (eresult (id_param ''customer'' customer_id)) (\<lambda>c.
     ebind (eresult (id_param ''starting_after'' starting_after)) (\<lambda>a.
     ebind (call http GET ''/v1/subscriptions''
              ([(''status'', ''all''), (''limit'', ''100'')] @ c @ a) None) (\<lambda>body.
     eret (page_of (\<lambda>s. case parse_subscription parse_uuid s of Inr g \<Rightarrow> Some g | Inl _ \<Rightarrow> None) body))))"

definition create_portal :: "'g http \<Rightarrow> string \<Rightarrow> string \<Rightarrow> string \<Rightarrow> ('g, string) ask" where
  "create_portal http customer_id return_url locale_key =
     ebind (eresult (checked_id customer_id)) (\<lambda>i.
     ebind (call http POST ''/v1/billing_portal/sessions''
              [(''customer'', i), (''return_url'', return_url),
               (''locale'', provider_locale locale_key)] None) (\<lambda>body.
     eresult (url_of body)))"

definition get_subscription ::
  "(string \<Rightarrow> uuid option) \<Rightarrow> 'g http \<Rightarrow> string \<Rightarrow> ('g, gateway_subscription) ask"
where
  "get_subscription parse_uuid http i =
     ebind (eresult (checked_id i)) (\<lambda>c.
     ebind (call http GET (''/v1/subscriptions/'' @ c) [] None) (\<lambda>body.
     eresult (parse_subscription parse_uuid body)))"

text \<open>\<open>fresh\<close> is the text of the UUID drawn for the change's key.\<close>

definition change_price ::
  "string \<Rightarrow> (string \<Rightarrow> uuid option) \<Rightarrow> 'g http \<Rightarrow> string \<Rightarrow> string \<Rightarrow> string
     \<Rightarrow> ('g, gateway_subscription) ask"
where
  "change_price fresh parse_uuid http subscription_id item_id price_id =
     ebind (eresult (checked_id subscription_id)) (\<lambda>s.
     ebind (eresult (checked_id item_id)) (\<lambda>it.
     ebind (eresult (checked_id price_id)) (\<lambda>p.
     ebind (call http POST (''/v1/subscriptions/'' @ s)
              [(''items[0][id]'', it), (''items[0][price]'', p),
               (''proration_behavior'', ''always_invoice''),
               (''payment_behavior'', ''pending_if_incomplete''),
               (''expand[]'', ''latest_invoice.payments.data.payment.payment_intent'')]
              (Some (''setlyst-change-'' @ subscription_id @ ''-'' @ price_id @ ''-'' @ fresh))) (\<lambda>body.
     ebind (eresult (parse_subscription parse_uuid body)) (\<lambda>updated.
     if gw_price_id updated \<noteq> price_id then
       efail \<lparr>pe_status = None, pe_code = Some ''price_mismatch'',
              pe_message = ''subscription '' @ subscription_id @ '' is on '' @ gw_price_id updated
                @ '' after a change to '' @ price_id\<rparr>
     else eret updated)))))"

definition get_paid_invoice ::
  "(string \<Rightarrow> uuid option) \<Rightarrow> 'g http \<Rightarrow> string \<Rightarrow> ('g, gateway_invoice option) ask"
where
  "get_paid_invoice parse_uuid http i =
     ebind (eresult (checked_id i)) (\<lambda>c.
     ebind (call http GET (''/v1/invoices/'' @ c) [(''expand[]'', ''payments'')] None) (\<lambda>body.
     eret (parse_invoice parse_uuid body)))"

definition list_subscription_invoices ::
  "(string \<Rightarrow> uuid option) \<Rightarrow> 'g http \<Rightarrow> string \<Rightarrow> ('g, gateway_invoice list) ask"
where
  "list_subscription_invoices parse_uuid http subscription_id =
     ebind (eresult (checked_id subscription_id)) (\<lambda>i.
     ebind (call http GET ''/v1/invoices''
              [(''subscription'', i), (''status'', ''paid''), (''limit'', ''100''),
               (''expand[]'', ''data.payments'')] None) (\<lambda>body.
     eret (List.map_filter (parse_invoice parse_uuid) (unwrap_or (list_at body [Field ''data'']) []))))"

definition refund_payment ::
  "'g http \<Rightarrow> string \<Rightarrow> int option \<Rightarrow> string \<Rightarrow> ('g, gateway_refund) ask"
where
  "refund_payment http payment_intent amount key =
     ebind (eresult (checked_id payment_intent)) (\<lambda>i.
     ebind (call http POST ''/v1/refunds''
              ([(''payment_intent'', i), (''reason'', ''requested_by_customer'')]
               @ (case amount of Some a \<Rightarrow> [(''amount'', show_int a)] | None \<Rightarrow> [])) (Some key)) (\<lambda>body.
     case parse_refund body of
       Some r \<Rightarrow> eret r
     | None \<Rightarrow> efail (transport_error ''unreadable Stripe refund'')))"

definition customer_balance :: "'g http \<Rightarrow> string \<Rightarrow> ('g, int) ask" where
  "customer_balance http customer_id =
     ebind (eresult (checked_id customer_id)) (\<lambda>i.
     ebind (call http GET (''/v1/customers/'' @ i) [] None) (\<lambda>body.
     eret (unwrap_or (int_at body [Field ''balance'']) 0)))"

definition debit_customer_credit ::
  "'g http \<Rightarrow> string \<Rightarrow> int \<Rightarrow> string \<Rightarrow> string \<Rightarrow> ('g, unit) ask"
where
  "debit_customer_credit http customer_id amount currency key =
     (if amount \<le> 0 then eret ()
      else
        ebind (eresult (checked_id customer_id)) (\<lambda>i.
        ebind (call http POST (''/v1/customers/'' @ i @ ''/balance_transactions'')
                 [(''amount'', show_int amount), (''currency'', currency),
                  (''description'', ''Credit cancelled: subscription refunded'')] (Some key)) (\<lambda>_.
        eret ())))"

definition list_refunds_for_payment :: "'g http \<Rightarrow> string \<Rightarrow> ('g, gateway_refund list) ask" where
  "list_refunds_for_payment http payment_intent =
     ebind (eresult (checked_id payment_intent)) (\<lambda>i.
     ebind (call http GET ''/v1/refunds'' [(''payment_intent'', i), (''limit'', ''100'')] None) (\<lambda>body.
     eret (List.map_filter parse_refund (unwrap_or (list_at body [Field ''data'']) []))))"

definition payment_fees_of :: "'g http \<Rightarrow> string \<Rightarrow> ('g, payment_fees option) ask" where
  "payment_fees_of http payment_intent =
     ebind (eresult (checked_id payment_intent)) (\<lambda>i.
     ebind (call http GET (''/v1/payment_intents/'' @ i)
              [(''expand[]'', ''latest_charge.balance_transaction'')] None) (\<lambda>body.
     let at = (\<lambda>k. int_at body [Field ''latest_charge'', Field ''balance_transaction'', Field k]) in
     eret (case (at ''fee'', at ''net'') of
             (Some fee, Some net) \<Rightarrow>
               Some \<lparr>pf_charge_id = id_or_object (json_get body ''latest_charge''),
                     pf_fee = fee, pf_net = net\<rparr>
           | _ \<Rightarrow> None)))"

definition list_paid_invoices ::
  "(string \<Rightarrow> uuid option) \<Rightarrow> 'g http \<Rightarrow> string option \<Rightarrow> ('g, gateway_invoice page) ask"
where
  "list_paid_invoices parse_uuid http starting_after =
     ebind (eresult (id_param ''starting_after'' starting_after)) (\<lambda>a.
     ebind (call http GET ''/v1/invoices''
              ([(''status'', ''paid''), (''limit'', ''100''), (''expand[]'', ''data.payments'')] @ a) None)
       (\<lambda>body. eret (page_of (parse_invoice parse_uuid) body)))"

definition invoice_for_payment :: "'g http \<Rightarrow> string \<Rightarrow> ('g, string option) ask" where
  "invoice_for_payment http payment_intent =
     ebind (eresult (checked_id payment_intent)) (\<lambda>i.
     ebind (call http GET ''/v1/invoice_payments''
              [(''payment[type]'', ''payment_intent''), (''payment[payment_intent]'', i),
               (''limit'', ''1'')] None) (\<lambda>body.
     eret (id_or_object (pointer body [Field ''data'', Elem 0, Field ''invoice'']))))"

definition list_refunds :: "'g http \<Rightarrow> string option \<Rightarrow> ('g, gateway_refund page) ask" where
  "list_refunds http starting_after =
     ebind (eresult (id_param ''starting_after'' starting_after)) (\<lambda>a.
     ebind (call http GET ''/v1/refunds'' ([(''limit'', ''100'')] @ a) None) (\<lambda>body.
     eret (page_of parse_refund body)))"

text \<open>An object that is gone already is not an error.\<close>

definition delete_path :: "'g http \<Rightarrow> string \<Rightarrow> ('g, unit) ask" where
  "delete_path http path =
     ebind (etry (call http DELETE path [] None)) (\<lambda>r.
       case r of
         Inr _ \<Rightarrow> eret ()
       | Inl e \<Rightarrow> if pe_code e = Some ''resource_missing'' then eret () else efail e)"

definition delete_customer :: "'g http \<Rightarrow> string \<Rightarrow> ('g, unit) ask" where
  "delete_customer http customer_id =
     ebind (eresult (checked_id customer_id)) (\<lambda>i. delete_path http (''/v1/customers/'' @ i))"

definition cancel_now ::
  "(string \<Rightarrow> uuid option) \<Rightarrow> 'g http \<Rightarrow> string \<Rightarrow> ('g, unit) ask"
where
  "cancel_now parse_uuid http subscription_id =
     ebind (get_subscription parse_uuid http subscription_id) (\<lambda>current.
     if gw_status current \<in> set [''canceled'', ''incomplete_expired''] then eret ()
     else
       ebind (eresult (checked_id subscription_id)) (\<lambda>i.
       delete_path http (''/v1/subscriptions/'' @ i)))"

text \<open>
  The gateway the server runs with (\<open>impl PaymentGateway for StripeGateway\<close>), at a time and
  with the UUID its next change of a price draws.
\<close>

definition stripe_gateway ::
  "(uuid \<Rightarrow> string) \<Rightarrow> (string \<Rightarrow> uuid option) \<Rightarrow> int \<Rightarrow> string \<Rightarrow> 'g http \<Rightarrow> 'g gateway"
where
  "stripe_gateway uuid_text parse_uuid now_secs fresh http =
     \<lparr>gt_create_customer = create_customer uuid_text http,
      gt_update_customer = update_customer http,
      gt_ensure_price = ensure_price http,
      gt_create_coupon = create_coupon now_secs http,
      gt_create_checkout = create_checkout uuid_text http,
      gt_expire_checkout = expire_checkout http,
      gt_list_subscriptions = list_subscriptions parse_uuid http,
      gt_create_portal = create_portal http,
      gt_get_subscription = get_subscription parse_uuid http,
      gt_change_price = change_price fresh parse_uuid http,
      gt_cancel_now = cancel_now parse_uuid http,
      gt_get_paid_invoice = get_paid_invoice parse_uuid http,
      gt_list_subscription_invoices = list_subscription_invoices parse_uuid http,
      gt_refund = refund_payment http,
      gt_list_refunds_for_payment = list_refunds_for_payment http,
      gt_customer_balance = customer_balance http,
      gt_debit_customer_credit = debit_customer_credit http,
      gt_payment_fees = payment_fees_of http,
      gt_list_paid_invoices = list_paid_invoices parse_uuid http,
      gt_invoice_for_payment = invoice_for_payment http,
      gt_list_refunds = list_refunds http,
      gt_delete_customer = delete_customer http\<rparr>"

end
