(* ===== verification/StripeLaws.thy ===== *)
theory StripeLaws
  imports Stripe
begin

text \<open>
  Laws of the Stripe client: no request ever leaves the API's own paths, whatever ids it is
  given, and two prices share a lookup key only when they are the same price.
\<close>

section \<open>Paths\<close>

definition path_char :: "char \<Rightarrow> bool" where
  "path_char c \<longleftrightarrow> id_char c \<or> c = CHR ''/''"

definition clean_path :: "string \<Rightarrow> bool" where
  "clean_path p \<longleftrightarrow> starts_with p ''/v1/'' \<and> list_all path_char p"

text \<open>The transport behind a guard that answers every other path itself.\<close>

definition guarded :: "'g http \<Rightarrow> 'g http" where
  "guarded http m path params key s =
     (if clean_path path then http m path params key s else (Inl ''refused'', s))"

lemma checked_id_Inr: "checked_id i = Inr c \<longleftrightarrow> c = i \<and> i \<noteq> [] \<and> byte_len i \<le> 255 \<and> list_all id_char i"
  by (auto simp: checked_id_def)

lemma ebind_eresult_cong:
  "r = r' \<Longrightarrow> (\<And>x. r' = Inr x \<Longrightarrow> f x = g x) \<Longrightarrow> ebind (eresult r) f = ebind (eresult r') g"
  by (cases r') (auto simp: ebind_def eresult_def fun_eq_iff)

lemma ebind_cong:
  assumes "m = m'" and "\<And>x. f x = g x"
  shows "ebind m f = ebind m' g"
proof -
  from assms(2) have "f = g" by (rule ext)
  with assms(1) show ?thesis by simp
qed

lemma list_all_id_path: "list_all id_char i \<Longrightarrow> list_all path_char i"
  by (auto simp: list_all_iff path_char_def)

lemma clean_append: "clean_path p \<Longrightarrow> list_all path_char r \<Longrightarrow> clean_path (p @ r)"
  unfolding clean_path_def starts_with_iff by auto

lemma checked_path: "checked_id i = Inr c \<Longrightarrow> list_all path_char c"
  by (simp add: checked_id_Inr list_all_id_path)

lemma clean_paths:
  "clean_path ''/v1/customers''" "clean_path ''/v1/customers/''" "clean_path ''/v1/products''"
  "clean_path ''/v1/products/''" "clean_path ''/v1/prices''" "clean_path ''/v1/coupons''"
  "clean_path ''/v1/checkout/sessions''" "clean_path ''/v1/checkout/sessions/''"
  "clean_path ''/v1/subscriptions''" "clean_path ''/v1/subscriptions/''"
  "clean_path ''/v1/billing_portal/sessions''" "clean_path ''/v1/invoices''"
  "clean_path ''/v1/invoices/''" "clean_path ''/v1/refunds''" "clean_path ''/v1/payment_intents/''"
  "clean_path ''/v1/invoice_payments''"
  "list_all path_char ''/expire''" "list_all path_char ''/balance_transactions''"
  by code_simp+

text \<open>Two transports that agree on clean paths cannot be told apart by the client.\<close>

locale transports =
  fixes http http' :: "'g http"
  assumes agree: "clean_path p \<Longrightarrow> http m p params key s = http' m p params key s"
begin

lemma call_agrees:
  assumes "clean_path p"
  shows "call http m p params key = call http' m p params key"
proof -
  have "http m p params key = http' m p params key" by (rule ext) (rule agree [OF assms])
  then have "call_once http m p params key = call_once http' m p params key"
    by (simp only: call_once_def)
  then show ?thesis by (simp only: call_def)
qed

lemma call_append:
  assumes "clean_path p" and "list_all path_char i"
  shows "call http m (p @ i) params key = call http' m (p @ i) params key"
  by (rule call_agrees [OF clean_append [OF assms]])

lemmas calls = clean_paths call_agrees call_append clean_append checked_path list_all_append

lemma get_agrees: "get_subscription parse http = get_subscription parse http'"
  unfolding get_subscription_def
  by (intro ext ebind_eresult_cong refl) (simp only: calls)

lemma delete_agrees: "clean_path p \<Longrightarrow> delete_path http p = delete_path http' p"
  unfolding delete_path_def by (simp only: call_agrees)

lemma product_agrees: "ensure_product http = ensure_product http'"
proof (rule ext)
  fix spec :: price_spec
  let ?i = "PRODUCT_PREFIX @ sp_plan_code spec"
  have found: "ebind (eresult (checked_id ?i)) (\<lambda>c. ebind (etry (call http GET (''/v1/products/'' @ c) [] None)) h)
      = ebind (eresult (checked_id ?i)) (\<lambda>c. ebind (etry (call http' GET (''/v1/products/'' @ c) [] None)) h)"
    for h :: "payment_error + json \<Rightarrow> ('g, string) ask"
    by (intro ebind_eresult_cong refl) (simp only: calls)
  show "ensure_product http spec = ensure_product http' spec"
    unfolding ensure_product_def Let_def found by (simp only: calls)
qed

lemma price_agrees: "ensure_price http = ensure_price http'"
  unfolding ensure_price_def by (simp only: calls product_agrees)

lemma create_customer_agrees: "create_customer text http = create_customer text http'"
  unfolding create_customer_def by (intro ext ebind_eresult_cong refl if_cong) (simp only: calls)?

lemma update_customer_agrees: "update_customer http = update_customer http'"
  unfolding update_customer_def by (intro ext ebind_eresult_cong refl if_cong) (simp only: calls)?

lemma create_coupon_agrees: "create_coupon secs http = create_coupon secs http'"
  unfolding create_coupon_def by (intro ext ebind_eresult_cong refl if_cong) (simp only: calls)?

lemma create_checkout_agrees: "create_checkout text http = create_checkout text http'"
  unfolding create_checkout_def by (intro ext ebind_eresult_cong refl if_cong) (simp only: calls)?

lemma expire_checkout_agrees: "expire_checkout http = expire_checkout http'"
  unfolding expire_checkout_def by (intro ext ebind_eresult_cong refl if_cong) (simp only: calls)?

lemma list_subscriptions_agrees: "list_subscriptions parse http = list_subscriptions parse http'"
  unfolding list_subscriptions_def by (intro ext ebind_eresult_cong refl if_cong) (simp only: calls)?

lemma create_portal_agrees: "create_portal http = create_portal http'"
  unfolding create_portal_def by (intro ext ebind_eresult_cong refl if_cong) (simp only: calls)?

lemma change_price_agrees: "change_price fresh parse http = change_price fresh parse http'"
  unfolding change_price_def by (intro ext ebind_eresult_cong refl if_cong) (simp only: calls)?

lemma get_paid_invoice_agrees: "get_paid_invoice parse http = get_paid_invoice parse http'"
  unfolding get_paid_invoice_def by (intro ext ebind_eresult_cong refl if_cong) (simp only: calls)?

lemma list_subscription_invoices_agrees: "list_subscription_invoices parse http = list_subscription_invoices parse http'"
  unfolding list_subscription_invoices_def by (intro ext ebind_eresult_cong refl if_cong) (simp only: calls)?

lemma refund_payment_agrees: "refund_payment http = refund_payment http'"
  unfolding refund_payment_def by (intro ext ebind_eresult_cong refl if_cong) (simp only: calls)?

lemma customer_balance_agrees: "customer_balance http = customer_balance http'"
  unfolding customer_balance_def by (intro ext ebind_eresult_cong refl if_cong) (simp only: calls)?

lemma debit_customer_credit_agrees: "debit_customer_credit http = debit_customer_credit http'"
  unfolding debit_customer_credit_def by (intro ext ebind_eresult_cong refl if_cong) (simp only: calls)?

lemma list_refunds_for_payment_agrees: "list_refunds_for_payment http = list_refunds_for_payment http'"
  unfolding list_refunds_for_payment_def by (intro ext ebind_eresult_cong refl if_cong) (simp only: calls)?

lemma payment_fees_of_agrees: "payment_fees_of http = payment_fees_of http'"
  unfolding payment_fees_of_def by (intro ext ebind_eresult_cong refl if_cong) (simp only: calls)?

lemma list_paid_invoices_agrees: "list_paid_invoices parse http = list_paid_invoices parse http'"
  unfolding list_paid_invoices_def by (intro ext ebind_eresult_cong refl if_cong) (simp only: calls)?

lemma invoice_for_payment_agrees: "invoice_for_payment http = invoice_for_payment http'"
  unfolding invoice_for_payment_def by (intro ext ebind_eresult_cong refl if_cong) (simp only: calls)?

lemma list_refunds_agrees: "list_refunds http = list_refunds http'"
  unfolding list_refunds_def by (intro ext ebind_eresult_cong refl if_cong) (simp only: calls)?

lemma delete_customer_agrees: "delete_customer http = delete_customer http'"
  unfolding delete_customer_def
  by (intro ext ebind_eresult_cong refl delete_agrees clean_append clean_paths) (rule checked_path)

lemma cancel_agrees: "cancel_now parse http = cancel_now parse http'"
  unfolding cancel_now_def get_agrees
  by (intro ext ebind_cong refl if_cong ebind_eresult_cong delete_agrees clean_append clean_paths)
    (rule checked_path)

lemma gateway_agrees: "stripe_gateway text parse secs fresh http = stripe_gateway text parse secs fresh http'"
  unfolding stripe_gateway_def
  by (simp only: create_customer_agrees update_customer_agrees create_coupon_agrees create_checkout_agrees expire_checkout_agrees list_subscriptions_agrees create_portal_agrees change_price_agrees get_paid_invoice_agrees list_subscription_invoices_agrees refund_payment_agrees customer_balance_agrees debit_customer_credit_agrees list_refunds_for_payment_agrees payment_fees_of_agrees list_paid_invoices_agrees invoice_for_payment_agrees list_refunds_agrees price_agrees
      get_agrees delete_customer_agrees cancel_agrees)

end

interpretation guarded: transports http "guarded http" for http
  by unfold_locales (simp add: guarded_def)

text \<open>
  C10. Whatever ids, prices, customers or events the API passes to the Stripe client, a request
  only ever goes to a path below \<open>/v1/\<close> made of letters, digits, underscores and slashes: a
  client whose transport refuses all other paths behaves exactly like one without the guard.
\<close>

theorem requests_stay_on_api_paths:
  "stripe_gateway uuid_text parse_uuid now_secs fresh (guarded http)
     = stripe_gateway uuid_text parse_uuid now_secs fresh http"
  by (rule guarded.gateway_agrees [symmetric])

section \<open>Lookup keys\<close>

text \<open>The last part of a text after a separator it does not hold.\<close>

lemma last_part_unique:
  fixes a :: string
  assumes "c \<notin> set b" and "c \<notin> set b'" and "a @ c # b = a' @ c # b'"
  shows "a = a' \<and> b = b'"
proof -
  have "rev b @ c # rev a = rev b' @ c # rev a'"
    using arg_cong [OF assms(3), of rev] by simp
  then have "split_once c (rev b @ c # rev a) = split_once c (rev b' @ c # rev a')" by simp
  with assms(1,2) show ?thesis by (simp add: split_once_append)
qed

lemma show_nat_inj: "show_nat n = show_nat m \<Longrightarrow> n = m"
  by (metis parse_show_nat of_nat_eq_iff)

lemma sign_no_digit: "\<not> is_ascii_digit (CHR ''-'')"
  by code_simp

lemma show_nat_no_sign: "show_nat n \<noteq> CHR ''-'' # s"
  using show_nat_digits [of n] sign_no_digit by (auto simp: list_all_iff)

lemma show_int_inj: "show_int i = show_int j \<Longrightarrow> i = j"
  using show_nat_no_sign show_nat_no_sign [symmetric]
  by (auto simp: show_int_def split: if_splits dest: show_nat_inj)

lemma show_int_no_underscore: "CHR ''_'' \<notin> set (show_int i)"
  using show_nat_digits [of "nat i"] show_nat_digits [of "nat (- i)"]
  by (auto simp: show_int_def list_all_iff is_ascii_digit_def code_def)

lemma interval_text:
  "CHR ''_'' \<notin> set (provider_key i)" "provider_key i = provider_key j \<Longrightarrow> i = j"
  by (cases i; cases j; simp)+

lemma lower_no_underscore:
  assumes s: "CHR ''_'' \<notin> set s"
  shows "CHR ''_'' \<notin> set (map to_ascii_lowercase s)"
proof -
  have other: "to_ascii_lowercase c \<noteq> CHR ''_''" if "c \<noteq> CHR ''_''" for c
  proof (cases "is_ascii_uppercase c")
    case True
    then have "code (to_ascii_lowercase c) = code c + 32" and "65 \<le> code c"
      by (auto simp: to_ascii_lowercase_def is_ascii_uppercase_def code_def)
    moreover have "code (CHR ''_'') = 95" by code_simp
    ultimately show ?thesis by auto
  qed (use that in \<open>simp add: to_ascii_lowercase_def\<close>)
  show ?thesis
  proof
    assume "CHR ''_'' \<in> set (map to_ascii_lowercase s)"
    then obtain c where c: "c \<in> set s" "CHR ''_'' = to_ascii_lowercase c"
      unfolding set_map by (rule imageE)
    have "c \<noteq> CHR ''_''" using c(1) s by metis
    from other [OF this] c(2) show False by simp
  qed
qed

text \<open>
  Stripe finds a price by its lookup key, so a key never names two prices: two prices with
  the same key, in currencies written without an underscore, are for the same plan (whatever
  its code looks like, underscores included), billing interval and amount, in the same
  currency up to the case of its letters.
\<close>

theorem lookup_key_injective:
  assumes "lookup_key a = lookup_key b"
    and "CHR ''_'' \<notin> set (sp_currency a)" and "CHR ''_'' \<notin> set (sp_currency b)"
  shows "sp_plan_code a = sp_plan_code b \<and> sp_interval a = sp_interval b
    \<and> sp_unit_amount a = sp_unit_amount b
    \<and> map to_ascii_lowercase (sp_currency a) = map to_ascii_lowercase (sp_currency b)"
proof -
  let ?p = "\<lambda>s. ''setlyst_'' @ sp_plan_code s" and ?i = "\<lambda>s. provider_key (sp_interval s)"
  let ?n = "\<lambda>s. show_int (sp_unit_amount s)" and ?c = "\<lambda>s. map to_ascii_lowercase (sp_currency s)"
  have key: "lookup_key s = ((?p s @ CHR ''_'' # ?i s) @ CHR ''_'' # ?n s) @ CHR ''_'' # ?c s" for s
    by (simp add: lookup_key_def)
  have 1: "(?p a @ CHR ''_'' # ?i a) @ CHR ''_'' # ?n a = (?p b @ CHR ''_'' # ?i b) @ CHR ''_'' # ?n b \<and> ?c a = ?c b"
    by (rule last_part_unique [OF lower_no_underscore [OF assms(2)] lower_no_underscore [OF assms(3)]
          assms(1) [unfolded key]])
  have 2: "?p a @ CHR ''_'' # ?i a = ?p b @ CHR ''_'' # ?i b \<and> ?n a = ?n b"
    by (rule last_part_unique [OF show_int_no_underscore show_int_no_underscore 1 [THEN conjunct1]])
  have 3: "?p a = ?p b \<and> ?i a = ?i b"
    by (rule last_part_unique [OF interval_text(1) interval_text(1) 2 [THEN conjunct1]])
  from 1 2 3 show ?thesis by (auto dest: interval_text(2) show_int_inj)
qed

lemma lookup_key_injective_witness:
  "sp_plan_code \<lparr>sp_plan_code = ''band_pro'', sp_product_name = ''Band'', sp_interval = Monthly,
       sp_currency = ''BRL'', sp_unit_amount = 1990\<rparr> = ''band_pro''"
  using lookup_key_injective
    [of "\<lparr>sp_plan_code = ''band_pro'', sp_product_name = ''Band'', sp_interval = Monthly,
          sp_currency = ''BRL'', sp_unit_amount = 1990\<rparr>"
        "\<lparr>sp_plan_code = ''band_pro'', sp_product_name = ''Band Pro'', sp_interval = Monthly,
          sp_currency = ''brl'', sp_unit_amount = 1990\<rparr>"]
  by (simp add: lookup_key_def to_ascii_lowercase_def is_ascii_uppercase_def code_def char_of_def)

end
