(* ===== verification/SubscriptionLaws.thy ===== *)
theory SubscriptionLaws
  imports Subscriptions
begin

text \<open>
  What the subscription operations promise. Each has a lemma that says what a successful
  run did; two locales state the contracts its callers rely on (it touches one account
  only and keeps rows well formed; it never disturbs a paid subscription in effect), with
  the operations of the model as their interpretations; the claims follow.
\<close>

section \<open>What each operation did\<close>

lemma is_some_and_iff: "is_some_and m P \<longleftrightarrow> (\<exists>x. m = Some x \<and> P x)"
  by (cases m) simp_all

text \<open>Fields of the rows the operations write.\<close>

lemma granted_row_fields:
  "sb_plan_code (granted_row now c src e note a cur) = c"
  "sb_status (granted_row now c src e note a cur) = Active"
  "sb_source (granted_row now c src e note a cur) = src"
  "sb_current_period_end (granted_row now c src e note a cur) = e"
  "sb_past_due_since (granted_row now c src e note a cur) = None"
  by (simp_all add: granted_row_def blank_sub_def split: option.splits)

lemma extended_row_fields:
  "sb_plan_code (extended_row now src e note a s) = sb_plan_code s"
  "sb_status (extended_row now src e note a s) = Active"
  "sb_source (extended_row now src e note a s) = src"
  "sb_current_period_end (extended_row now src e note a s) = e"
  by (simp_all add: extended_row_def)

lemma trial_row_fields:
  "sb_plan_code (trial_row now c e a cur) = c"
  "sb_status (trial_row now c e a cur) = Trialing"
  "sb_source (trial_row now c e a cur) = TrialSource"
  "sb_current_period_end (trial_row now c e a cur) = Some e"
  "sb_trial_ends_at (trial_row now c e a cur) = Some e"
  by (simp_all add: trial_row_def blank_sub_def split: option.splits)

lemma mirrored_row_fields:
  "sb_plan_code (mirrored_row now snap st e te pds cur) = ps_plan_code snap"
  "sb_status (mirrored_row now snap st e te pds cur) = st"
  "sb_source (mirrored_row now snap st e te pds cur) = Payment"
  "sb_current_period_end (mirrored_row now snap st e te pds cur) = e"
  "sb_trial_ends_at (mirrored_row now snap st e te pds cur) = te"
  "sb_external_ref (mirrored_row now snap st e te pds cur) = Some (ps_external_ref snap)"
  "sb_billing_interval (mirrored_row now snap st e te pds cur) = map_option interval_key (ps_interval snap)"
  "sb_cancel_at_period_end (mirrored_row now snap st e te pds cur) = ps_cancel_at_period_end snap"
  "sb_past_due_since (mirrored_row now snap st e te pds cur) = pds"
  "sb_provider_status (mirrored_row now snap st e te pds cur) = Some (ps_provider_status snap)"
  "sb_unit_amount_cents (mirrored_row now snap st e te pds cur) = ps_unit_amount snap"
  by (simp_all add: mirrored_row_def blank_sub_def Let_def split: option.splits)

lemmas row_fields = granted_row_fields extended_row_fields trial_row_fields mirrored_row_fields

text \<open>A grant.\<close>

definition same_plan :: "time \<Rightarrow> string \<Rightarrow> sub_row option \<Rightarrow> bool" where
  "same_plan now c cur = is_some_and cur (\<lambda>s. sub_effective now s \<and> sb_plan_code s = c)"

definition granted_end :: "time \<Rightarrow> string \<Rightarrow> int option \<Rightarrow> sub_row option \<Rightarrow> time option" where
  "granted_end now c dys cur =
     (if same_plan now c cur then
        (case (dys, Option.bind cur sb_current_period_end) of
           (Some d, Some e) \<Rightarrow> Some (max e now + days d)
         | _ \<Rightarrow> None)
      else map_option (\<lambda>d. now + days d) dys)"

lemma grant_plan_time_Inr:
  assumes "grant_plan_time now u c dys src actor note reference db = Inr (g, db')"
  obtains row data where
    "ensure_not_staff db u = Inr ()" "\<not> is_some_and (db_subs db u) (paid_and_effective now)"
    "row = (case db_subs db u of
       Some s \<Rightarrow> if same_plan now c (db_subs db u)
                  then extended_row now src (granted_end now c dys (db_subs db u)) note actor s
                  else granted_row now c src (granted_end now c dys (db_subs db u)) note actor (db_subs db u)
     | None \<Rightarrow> granted_row now c src (granted_end now c dys (db_subs db u)) note actor (db_subs db u))"
    "sub_frame u db db'" "db_subs db' u = Some row" "sub_row_ok row" "user db u \<noteq> None"
    "plan_exists db (sb_plan_code row)"
    "go_current_period_end g = granted_end now c dys (db_subs db u)"
    "db_events db' = db_events db @
       [event_of now u (go_kind g) (db_subs db u) (Some c) (Some Active) data actor]"
proof -
  define row where "row = (case db_subs db u of
       Some s \<Rightarrow> if same_plan now c (db_subs db u)
                  then extended_row now src (granted_end now c dys (db_subs db u)) note actor s
                  else granted_row now c src (granted_end now c dys (db_subs db u)) note actor (db_subs db u)
     | None \<Rightarrow> granted_row now c src (granted_end now c dys (db_subs db u)) note actor (db_subs db u))"
  from assms obtain db1 data where
    staff: "ensure_not_staff db u = Inr ()" and paid: "\<not> is_some_and (db_subs db u) (paid_and_effective now)"
    and w: "write_sub u row db = Inr db1"
    and r: "record_event now u (go_kind g) (db_subs db u) (Some c) (Some Active) data actor db1 = Inr db'"
    and e: "go_current_period_end g = granted_end now c dys (db_subs db u)"
    unfolding grant_plan_time_def Let_def same_plan_def [symmetric] granted_end_def [symmetric]
      row_def [symmetric]
    by (auto split: if_splits)
  show thesis
    by (rule that [OF staff paid row_def write_record(1-5) [OF w r] e write_record(6) [OF w r]])
qed

lemma grant_row_fields:
  assumes "row = (case cur of
       Some s \<Rightarrow> if same_plan now c cur then extended_row now src e note actor s
                  else granted_row now c src e note actor cur
     | None \<Rightarrow> granted_row now c src e note actor cur)"
  shows "sb_plan_code row = c" "sb_status row = Active" "sb_source row = src"
    "sb_current_period_end row = e"
  using assms by (auto simp: row_fields same_plan_def split: option.splits if_splits)

text \<open>A trial.\<close>

lemma start_trial_Inr:
  assumes "start_trial now u c dys actor db = Inr (g, db')"
  obtains
    (nothing) "g = None" "db' = db"
  | (started) row data g' where "g = Some g'" "go_current_period_end g' = Some (now + days dys)"
      "\<not> is_some_and (db_subs db u) (sub_effective now)"
      "row = trial_row now c (now + days dys) actor (db_subs db u)"
      "sub_frame u db db'" "db_subs db' u = Some row" "sub_row_ok row" "user db u \<noteq> None"
      "plan_exists db (sb_plan_code row)" "ensure_not_staff db u = Inr ()"
      "db_events db' = db_events db @
         [event_of now u ''trial_started'' (db_subs db u) (Some c) (Some Trialing) data actor]"
proof (cases "g")
  case None
  with assms have "db' = db"
    by (auto simp: start_trial_def Let_def split: if_splits)
  with None show thesis by (rule nothing)
next
  case (Some g')
  with assms obtain db1 where
    staff: "ensure_not_staff db u = Inr ()" and free: "\<not> is_some_and (db_subs db u) (sub_effective now)"
    and w: "write_sub u (trial_row now c (now + days dys) actor (db_subs db u)) db = Inr db1"
    and r: "record_event now u ''trial_started'' (db_subs db u) (Some c) (Some Trialing)
              (JObj [(''days'', JInt dys)]) actor db1 = Inr db'"
    and e: "go_current_period_end g' = Some (now + days dys)"
    by (auto simp: start_trial_def Let_def split: if_splits)
  show thesis
    by (rule started [OF Some e free refl write_record(1-5) [OF w r] staff write_record(6) [OF w r]])
qed

lemma extend_trial_Inr:
  assumes "extend_trial now u dys settings db = Inr (g, db')"
  obtains
    (fresh) "start_trial now u (bs_trial_plan settings) dys None db = Inr (Some g, db')"
      "\<not> is_some_and (db_subs db u) (sub_effective now)"
  | (longer) s row where "db_subs db u = Some s" "sub_effective now s" "sb_status s = Trialing"
      "\<not> paid_and_effective now s"
      "row = s\<lparr>sb_trial_ends_at := go_current_period_end g, sb_current_period_end := go_current_period_end g,
               sb_updated_at := now, sb_trial_reminder_sent_at := None\<rparr>"
      "go_current_period_end g =
         Some (max (unwrap_or (or_else (sb_trial_ends_at s) (sb_current_period_end s)) now) now + days dys)"
      "sub_frame u db db'" "db_subs db' u = Some row" "sub_row_ok row" "user db u \<noteq> None"
      "plan_exists db (sb_plan_code row)"
proof (cases "is_some_and (db_subs db u) (sub_effective now)")
  case False
  with assms have "start_trial now u (bs_trial_plan settings) dys None db = Inr (Some g, db')"
    by (auto simp: extend_trial_def Let_def paid_and_effective_def is_some_and_iff
        split: option.splits if_splits)
  then show thesis using False by (rule fresh)
next
  case True
  then obtain s where s: "db_subs db u = Some s" "sub_effective now s" by (auto simp: is_some_and_iff)
  define ends_at where
    "ends_at = max (unwrap_or (or_else (sb_trial_ends_at s) (sb_current_period_end s)) now) now + days dys"
  from assms s obtain db1 where
    t: "sb_status s = Trialing" "\<not> paid_and_effective now s"
    and w: "write_sub u (s\<lparr>sb_trial_ends_at := Some ends_at, sb_current_period_end := Some ends_at,
              sb_updated_at := now, sb_trial_reminder_sent_at := None\<rparr>) db = Inr db1"
    and r: "record_event now u ''trial_extended'' (Some s) (Some (sb_plan_code s)) (Some Trialing)
              (JObj [(''days'', JInt dys)]) None db1 = Inr db'"
    and e: "go_current_period_end g = Some ends_at"
    by (auto simp: extend_trial_def Let_def ends_at_def split: if_splits)
  show thesis
    by (rule longer [OF s t _ _ write_record(1-5) [OF w r]]) (simp_all add: e ends_at_def)
qed

text \<open>Bringing a complimentary plan back.\<close>

definition restorable :: "time \<Rightarrow> uuid \<Rightarrow> string \<Rightarrow> db \<Rightarrow> (string \<times> time option) option" where
  "restorable now u external_ref db =
     Option.bind (replaced_grant db u external_ref) (\<lambda>r.
     Option.bind (as_str (json_index r ''plan_code'')) (\<lambda>c.
     let until = json_time (json_index r ''current_period_end'') in
     if is_some_and until (\<lambda>e. e \<le> now) then None else Some (c, until)))"

lemma restore_Inr:
  assumes "restore_complimentary_grant now u external_ref db = Inr (b, db')"
  obtains
    (no) "b = False" "db' = db" "restorable now u external_ref db = None"
  | (yes) c until where "b = True" "restorable now u external_ref db = Some (c, until)" "sub_frame u db db'"
      "db_subs db' u = map_option (restored_row now c until) (db_subs db u)"
      "\<And>s. db_subs db u = Some s \<Longrightarrow>
         sub_row_ok (restored_row now c until s) \<and> user db u \<noteq> None \<and> plan_exists db c"
proof (cases "restorable now u external_ref db")
  case None
  with assms have "b = False \<and> db' = db"
    by (auto simp: restore_complimentary_grant_def restorable_def Let_def
        split: option.splits if_splits Option.bind_splits)
  then show thesis using None by (intro no) simp_all
next
  case (Some cu)
  then obtain c until where cu: "restorable now u external_ref db = Some (c, until)"
    by (cases cu) simp
  show thesis
  proof (cases "db_subs db u")
    case None
    with assms cu have "b = True"
      and r: "record_event now u ''grant_restored'' None (Some c) (Some Active)
        (JObj [(''source'', JStr (source_key AdminSource)), (''after'', JStr external_ref)]) None db = Inr db'"
      by (auto simp: restore_complimentary_grant_def restorable_def Let_def
          split: option.splits if_splits Option.bind_splits)
    then show thesis using None
      by (intro yes [OF _ cu record_event_frame [OF r]]) (auto dest!: record_event_Inr)
  next
    case (Some s)
    with assms cu obtain db1 where "b = True"
      and w: "write_sub u (restored_row now c until s) db = Inr db1"
      and r: "record_event now u ''grant_restored'' None (Some c) (Some Active)
        (JObj [(''source'', JStr (source_key AdminSource)), (''after'', JStr external_ref)]) None db1 = Inr db'"
      by (auto simp: restore_complimentary_grant_def restorable_def Let_def
          split: option.splits if_splits Option.bind_splits)
    with Some write_record(1-5) [OF w r] show thesis
      by (intro yes [OF _ cu write_record(1) [OF w r]]) (simp_all add: restored_row_def)
  qed
qed

text \<open>Mirroring a snapshot.\<close>

definition same_sub :: "payment_snapshot \<Rightarrow> sub_row option \<Rightarrow> bool" where
  "same_sub snap cur =
     is_some_and cur (\<lambda>c. sb_source c = Payment \<and> sb_external_ref c = Some (ps_external_ref snap))"

definition snap_end :: "time \<Rightarrow> payment_snapshot \<Rightarrow> subscription_status \<Rightarrow> time option" where
  "snap_end now snap st =
     (if is_live st then ps_current_period_end snap else Some (unwrap_or (ps_ended_at snap) now))"

definition snap_trial_end :: "payment_snapshot \<Rightarrow> time option" where
  "snap_trial_end snap = opt_filter (\<lambda>_. ps_provider_status snap = ''trialing'') (ps_trial_end snap)"

definition snap_past_due :: "time \<Rightarrow> payment_snapshot \<Rightarrow> subscription_status \<Rightarrow> sub_row option \<Rightarrow> time option" where
  "snap_past_due now snap st cur =
     (if st = PastDue
      then Some (unwrap_or
             (Option.bind (opt_filter (\<lambda>c. same_sub snap cur \<and> sb_status c = PastDue) cur)
                sb_past_due_since) now)
      else None)"

definition subscribed_data :: "payment_snapshot \<Rightarrow> (string \<times> json) list" where
  "subscribed_data snap =
     [(''source'', JStr (source_key Payment)), (''external_ref'', JStr (ps_external_ref snap)),
      (''interval'', json_of_opt JStr (map_option interval_key (ps_interval snap))),
      (''provider_status'', JStr (ps_provider_status snap))]"

definition replaced_data :: "sub_row \<Rightarrow> json" where
  "replaced_data c =
     JObj [(''plan_code'', JStr (sb_plan_code c)), (''source'', JStr (source_key (sb_source c))),
           (''current_period_end'', json_of_opt JTime (sb_current_period_end c))]"

definition change_data :: "time \<Rightarrow> payment_snapshot \<Rightarrow> string \<Rightarrow> sub_row option \<Rightarrow> json" where
  "change_data now snap kind cur =
     (case (kind = ''subscribed'',
            opt_filter (\<lambda>c. \<not> same_sub snap cur \<and> sb_source c = AdminSource \<and> sub_effective now c) cur) of
        (True, Some c) \<Rightarrow> JObj ((''replaced'', replaced_data c) # subscribed_data snap)
      | _ \<Rightarrow> JObj (subscribed_data snap))"

lemma apply_unfold:
  "apply_payment_subscription now u snap db =
     (case ps_status snap of
        None \<Rightarrow> Inr (Unchanged, db)
      | Some st \<Rightarrow>
     rbind (ensure_plan_exists db (ps_plan_code snap)) (\<lambda>_.
     if \<not> same_sub snap (db_subs db u) \<and> \<not> is_live st then Inr (Unchanged, db)
     else case (if same_sub snap (db_subs db u) then None
                else Option.bind (opt_filter (paid_and_effective now) (db_subs db u)) sb_external_ref) of
       Some current_ref \<Rightarrow> Inr (Duplicate current_ref, db)
     | None \<Rightarrow>
     case change_kind snap st (snap_end now snap st) (snap_trial_end snap)
            (opt_filter (\<lambda>_. same_sub snap (db_subs db u)) (db_subs db u)) of
       None \<Rightarrow> Inr (Unchanged, db)
     | Some kind \<Rightarrow>
         rbind (write_sub u (mirrored_row now snap st (snap_end now snap st) (snap_trial_end snap)
                  (snap_past_due now snap st (db_subs db u)) (db_subs db u)) db) (\<lambda>db1.
         rbind (record_event now u kind (db_subs db u) (Some (ps_plan_code snap)) (Some st)
                  (change_data now snap kind (db_subs db u)) None db1) (\<lambda>db2.
         rbind (if kind = ''canceled''
                then map_sum id snd (restore_complimentary_grant now u (ps_external_ref snap) db2)
                else Inr db2) (\<lambda>db3.
         Inr (Changed \<lparr>pc_kind = kind, pc_plan_code = ps_plan_code snap, pc_status = st,
                        pc_current_period_end = snap_end now snap st, pc_extra = JNull\<rparr>, db3))))))"
  unfolding apply_payment_subscription_def Let_def same_sub_def [symmetric] snap_end_def [symmetric]
    snap_trial_end_def [symmetric] snap_past_due_def [symmetric] subscribed_data_def [symmetric]
    replaced_data_def [symmetric] change_data_def [symmetric]
  by (rule refl)

lemma map_sum_snd_Inr: "map_sum id snd m = Inr y \<longleftrightarrow> (\<exists>x. m = Inr (x, y))"
  by (cases m) auto

definition snap_row :: "time \<Rightarrow> payment_snapshot \<Rightarrow> subscription_status \<Rightarrow> sub_row option \<Rightarrow> sub_row" where
  "snap_row now snap st cur =
     mirrored_row now snap st (snap_end now snap st) (snap_trial_end snap) (snap_past_due now snap st cur) cur"

lemma apply_Inr:
  assumes "apply_payment_subscription now u snap db = Inr (r, db')"
  obtains
    (idle) "db' = db" "\<And>ch. r \<noteq> Changed ch"
  | (changed) ch st db2 where "r = Changed ch" "ps_status snap = Some st"
      "plan_exists db (ps_plan_code snap)"
      "same_sub snap (db_subs db u) \<or> is_live st \<and>
         Option.bind (opt_filter (paid_and_effective now) (db_subs db u)) sb_external_ref = None"
      "change_kind snap st (snap_end now snap st) (snap_trial_end snap)
         (opt_filter (\<lambda>_. same_sub snap (db_subs db u)) (db_subs db u)) = Some (pc_kind ch)"
      "sub_frame u db db2" "db_subs db2 u = Some (snap_row now snap st (db_subs db u))"
      "sub_row_ok (snap_row now snap st (db_subs db u))" "user db u \<noteq> None"
      "db_events db2 = db_events db @
         [event_of now u (pc_kind ch) (db_subs db u) (Some (ps_plan_code snap)) (Some st)
            (change_data now snap (pc_kind ch) (db_subs db u)) None]"
      "if pc_kind ch = ''canceled''
       then \<exists>b. restore_complimentary_grant now u (ps_external_ref snap) db2 = Inr (b, db') else db' = db2"
proof (cases "\<exists>ch. r = Changed ch")
  case False
  with assms have "db' = db"
    unfolding apply_unfold by (auto split: option.splits if_splits)
  with False show thesis by (intro idle) auto
next
  case True
  then obtain ch where ch: "r = Changed ch" by blast
  from assms [unfolded ch apply_unfold] obtain st db1 db2 where
    st: "ps_status snap = Some st" and plan: "ensure_plan_exists db (ps_plan_code snap) = Inr ()"
    and same: "same_sub snap (db_subs db u) \<or> is_live st \<and>
         Option.bind (opt_filter (paid_and_effective now) (db_subs db u)) sb_external_ref = None"
    and kind: "change_kind snap st (snap_end now snap st) (snap_trial_end snap)
         (opt_filter (\<lambda>_. same_sub snap (db_subs db u)) (db_subs db u)) = Some (pc_kind ch)"
    and w: "write_sub u (snap_row now snap st (db_subs db u)) db = Inr db1"
    and e: "record_event now u (pc_kind ch) (db_subs db u) (Some (ps_plan_code snap)) (Some st)
            (change_data now snap (pc_kind ch) (db_subs db u)) None db1 = Inr db2"
    and fin: "(if pc_kind ch = ''canceled''
        then map_sum id snd (restore_complimentary_grant now u (ps_external_ref snap) db2)
        else Inr db2) = Inr db'"
    unfolding snap_row_def
    by (simp only: sum.inject applied.inject prod.inject
        split: option.splits if_splits) (auto split: option.splits if_splits)
  have "plan_exists db (ps_plan_code snap)"
    using plan by (simp add: ensure_plan_exists_def split: if_splits)
  then show thesis
    using fin
    by (intro changed [OF ch st _ same kind write_record(1-4) [OF w e] write_record(6) [OF w e]])
      (auto simp: map_sum_snd_Inr split: if_splits)
qed

lemma restore_frame: "restore_complimentary_grant now u r db = Inr (b, db') \<Longrightarrow> sub_frame u db db'"
  by (erule restore_Inr) auto

lemma apply_frame:
  assumes "apply_payment_subscription now u snap db = Inr (r, db')"
  shows "sub_frame u db db'"
  using assms
proof (cases rule: apply_Inr)
  case (changed ch st db2)
  then show ?thesis
    by (cases "pc_kind ch = ''canceled''") (auto dest!: restore_frame intro: sub_frame_trans)
qed simp

lemma end_paid_Inr:
  assumes "end_paid_subscription now u external_ref kind data actor db = Inr (r, db')"
  obtains
    (nothing) "r = None" "db' = db"
  | (ended) c row db2 b data' where "db_subs db u = Some c" "sb_source c = Payment"
      "sb_external_ref c = Some external_ref" "is_live (sb_status c)" "r \<noteq> None"
      "row = c\<lparr>sb_status := Canceled, sb_current_period_end := Some now,
               sb_canceled_at := Some now, sb_cancel_at_period_end := False,
               sb_past_due_since := None, sb_provider_status := Some ''canceled'',
               sb_updated_at := now, sb_updated_by := actor\<rparr>"
      "sub_frame u db db2" "db_subs db2 u = Some row" "sub_row_ok row" "user db u \<noteq> None"
      "plan_exists db (sb_plan_code row)"
      "db_events db2 = db_events db @
         [event_of now u kind (Some c) (Some (sb_plan_code c)) (Some Canceled) data' actor]"
      "restore_complimentary_grant now u external_ref db2 = Inr (b, db')"
proof (cases "opt_filter (\<lambda>c. sb_source c = Payment \<and> sb_external_ref c = Some external_ref
                           \<and> is_live (sb_status c)) (db_subs db u)")
  case None
  with assms show thesis by - (rule nothing, auto simp: end_paid_subscription_def)
next
  case (Some c)
  define row where "row = c\<lparr>sb_status := Canceled, sb_current_period_end := Some now,
               sb_canceled_at := Some now, sb_cancel_at_period_end := False,
               sb_past_due_since := None, sb_provider_status := Some ''canceled'',
               sb_updated_at := now, sb_updated_by := actor\<rparr>"
  from assms Some obtain db1 db2 b where
    w: "write_sub u row db = Inr db1"
    and e: "record_event now u kind (Some c) (Some (sb_plan_code c)) (Some Canceled)
        (json_extend (JObj [(''source'', JStr (source_key Payment)),
                            (''external_ref'', JStr external_ref)]) data) actor db1 = Inr db2"
    and f: "restore_complimentary_grant now u external_ref db2 = Inr (b, db')" and r: "r \<noteq> None"
    by (auto simp: end_paid_subscription_def row_def)
  from Some have c: "db_subs db u = Some c" "sb_source c = Payment"
      "sb_external_ref c = Some external_ref" "is_live (sb_status c)"
    by (simp_all add: opt_filter_eq_Some)
  show thesis
    by (rule ended [OF c r row_def write_record(1-6) [OF w e] f])
qed

lemma revoke_Inr:
  assumes "revoke_subscription now u actor db = Inr (r, db')"
  obtains
    (nothing) "r = False" "db' = db" "db_subs db u = None"
  | (revoked) c row where "r = True" "db_subs db u = Some c"
      "row = c\<lparr>sb_status := Expired, sb_current_period_end := Some now,
               sb_updated_at := now, sb_updated_by := Some actor\<rparr>"
      "sub_frame u db db'" "db_subs db' u = Some row" "sub_row_ok row" "user db u \<noteq> None"
      "plan_exists db (sb_plan_code row)"
proof (cases "db_subs db u")
  case None
  with assms show thesis by - (rule nothing, auto simp: revoke_subscription_def)
next
  case (Some c)
  define row where "row = c\<lparr>sb_status := Expired, sb_current_period_end := Some now,
               sb_updated_at := now, sb_updated_by := Some actor\<rparr>"
  from assms Some obtain db1 db2 where
    w: "write_sub u row db = Inr db1"
    and e: "record_event now u ''revoked'' (Some c) (Some (sb_plan_code c)) (Some Expired)
              (JObj []) (Some actor) db1 = Inr db2"
    and r: "r = True"
    and n: "db' = notify_all [subscription_changed u ''revoked'' (Some (sb_plan_code c))
                                   (Some ''expired'') (Some now)] db2"
    by (auto simp: revoke_subscription_def row_def)
  have "sub_frame u db2 db'" unfolding n by (rule notify_frame) (simp add: subscription_changed_def)
  with write_record(1) [OF w e] have "sub_frame u db db'" by (rule sub_frame_trans)
  moreover have "db_subs db' u = Some row" using write_record(2) [OF w e] n by (simp add: notify_all_def)
  ultimately show thesis
    by (rule revoked [OF r Some row_def _ _ write_record(3-5) [OF w e]])
qed

section \<open>Rows stay well formed\<close>

lemma grant_wf:
  assumes "subs_ok db" and "src \<noteq> Payment"
    and "grant_plan_time now u c dys src actor note reference db = Inr (g, db')"
  shows "subs_ok db'"
  using assms(3)
proof (cases rule: grant_plan_time_Inr)
  case (1 row data)
  from grant_row_fields [OF 1(3)] \<open>sub_row_ok row\<close> assms(2) have "sub_wf row"
    by (simp add: sub_wf_def)
  with 1 show ?thesis by (intro subs_ok_write [OF assms(1), of u _ row]) auto
qed

lemma start_trial_wf:
  assumes "subs_ok db" and "start_trial now u c dys actor db = Inr (g, db')"
  shows "subs_ok db'"
  using assms(2)
proof (cases rule: start_trial_Inr)
  case (started row data g')
  then have "sub_wf row" by (simp add: sub_wf_def row_fields)
  with started show ?thesis by (intro subs_ok_write [OF assms(1), of u _ row]) auto
qed (use assms in simp)

lemma extend_trial_wf:
  assumes "subs_ok db" and "extend_trial now u dys settings db = Inr (g, db')"
  shows "subs_ok db'"
  using assms(2)
proof (cases rule: extend_trial_Inr)
  case (longer s row)
  then have "sub_wf row" using subs_okD [OF assms(1), of u s] by (auto simp: sub_wf_def)
  with longer show ?thesis by (intro subs_ok_write [OF assms(1), of u _ row]) auto
qed (use start_trial_wf [OF assms(1)] in simp)

lemma restore_wf:
  assumes "subs_ok db" and "restore_complimentary_grant now u r db = Inr (b, db')"
  shows "subs_ok db'"
  using assms(2)
proof (cases rule: restore_Inr)
  case (yes c until)
  show ?thesis
  proof (cases "db_subs db u")
    case None
    then show ?thesis using subs_ok_same [OF assms(1) yes(3)] yes(4) by simp
  next
    case (Some s)
    with yes(5) have "sub_wf (restored_row now c until s)"
      by (simp add: sub_wf_def restored_row_def)
    with Some yes show ?thesis
      by (intro subs_ok_write [OF assms(1) yes(3), of "restored_row now c until s"])
        (auto simp: restored_row_def)
  qed
qed (use assms in simp)

lemma apply_wf:
  assumes "subs_ok db" and "ps_status snap \<noteq> Some Trialing"
    and "apply_payment_subscription now u snap db = Inr (r, db')"
  shows "subs_ok db'"
  using assms(3)
proof (cases rule: apply_Inr)
  case (changed ch st db2)
  have "sub_wf (snap_row now snap st (db_subs db u))"
    using changed(2,8) assms(2)
    by (auto simp: sub_wf_def snap_row_def mirrored_row_fields snap_past_due_def)
  then have "subs_ok db2"
    using changed(3,7,9)
    by (intro subs_ok_write [OF assms(1) changed(6), of "snap_row now snap st (db_subs db u)"])
      (auto simp: snap_row_def mirrored_row_fields)
  with changed(11) show ?thesis by (auto dest: restore_wf split: if_splits)
qed (use assms in simp)

lemma end_paid_wf:
  assumes "subs_ok db" and "end_paid_subscription now u ref kind data actor db = Inr (r, db')"
  shows "subs_ok db'"
  using assms(2)
proof (cases rule: end_paid_Inr)
  case (ended c row db2 b data')
  have "sub_wf row" using ended subs_okD [OF assms(1) ended(1)] by (auto simp: sub_wf_def)
  then have "subs_ok db2"
    using ended by (intro subs_ok_write [OF assms(1) ended(7), of row]) auto
  then show ?thesis using restore_wf ended(13) by blast
qed (use assms in simp)

lemma revoke_wf:
  assumes "subs_ok db" and "revoke_subscription now u actor db = Inr (r, db')"
  shows "subs_ok db'"
  using assms(2)
proof (cases rule: revoke_Inr)
  case (revoked c row)
  then have "sub_wf row" using subs_okD [OF assms(1) revoked(2)] by (auto simp: sub_wf_def)
  with revoked show ?thesis by (intro subs_ok_write [OF assms(1), of u _ row]) auto
qed (use assms in simp)

lemma end_paid_frame:
  "end_paid_subscription now u ref kind data actor db = Inr (r, db') \<Longrightarrow> sub_frame u db db'"
  by (erule end_paid_Inr) (auto dest!: restore_frame intro: sub_frame_trans)

lemma snapshot_status: "snapshot_of g = Some snap \<Longrightarrow> ps_status snap \<noteq> Some Trialing"
  by (auto simp: snapshot_of_def map_provider_status_def split: if_splits)

section \<open>The contracts\<close>

text \<open>A call that fails is rolled back.\<close>

definition attempt :: "(time \<Rightarrow> uuid \<Rightarrow> db \<Rightarrow> api_error + ('r \<times> db)) \<Rightarrow> time \<times> uuid \<Rightarrow> db \<Rightarrow> db" where
  "attempt op call db = (case op (fst call) (snd call) db of Inl e \<Rightarrow> db | Inr (r, db') \<Rightarrow> db')"

text \<open>
  An operation on one account's subscription: what its callers rely on is that it touches
  that account only and keeps the table well formed.
\<close>

locale subscription_op =
  fixes op :: "time \<Rightarrow> uuid \<Rightarrow> db \<Rightarrow> api_error + ('r \<times> db)"
  assumes frame: "op now u db = Inr (r, db') \<Longrightarrow> sub_frame u db db'"
    and wf: "subs_ok db \<Longrightarrow> op now u db = Inr (r, db') \<Longrightarrow> subs_ok db'"
begin

lemma attempt_frame: "sub_frame (snd call) db (attempt op call db)"
  using frame by (auto simp: attempt_def split: sum.splits)

lemma attempts_wf: "subs_ok db \<Longrightarrow> subs_ok (fold (attempt op) calls db)"
  using wf by (induction calls arbitrary: db) (auto simp: attempt_def split: sum.splits)

lemma attempts_other:
  "u \<notin> set (map snd calls) \<Longrightarrow> db_subs (fold (attempt op) calls db) u = db_subs db u"
proof (induction calls arbitrary: db)
  case (Cons call calls)
  then have "db_subs (attempt op call db) u = db_subs db u"
    using attempt_frame [of call db] by (auto simp: sub_frame_def)
  with Cons show ?case by simp
qed simp

lemma attempts_ledger: "db_ledger (fold (attempt op) calls db) = db_ledger db"
proof (induction calls arbitrary: db)
  case (Cons call calls)
  then show ?case using attempt_frame [of call db] by (auto simp: sub_frame_def)
qed simp

end

text \<open>
  A complimentary operation (it gives plan time away) also never disturbs a paid
  subscription in effect: the provider keeps charging for it.
\<close>

locale complimentary_op = subscription_op +
  assumes protects_paid:
    "op now u db = Inr (r, db') \<Longrightarrow> db_subs db u = Some s \<Longrightarrow> paid_and_effective now s \<Longrightarrow>
     db_subs db' u = Some s"
begin

lemma attempts_protect:
  "db_subs db u = Some s \<Longrightarrow> \<forall>(now, v) \<in> set calls. v = u \<longrightarrow> paid_and_effective now s \<Longrightarrow>
   db_subs (fold (attempt op) calls db) u = Some s"
proof (induction calls arbitrary: db)
  case (Cons call calls)
  obtain now v where call: "call = (now, v)" by (cases call)
  have "db_subs (attempt op call db) u = Some s"
  proof (cases "v = u")
    case True
    then have "paid_and_effective now s" using Cons.prems(2) call by auto
    then show ?thesis
      using Cons.prems(1) protects_paid True by (auto simp: attempt_def call split: sum.splits)
  next
    case False
    then show ?thesis
      using attempt_frame [of call db] Cons.prems(1) call by (auto simp: sub_frame_def)
  qed
  with Cons show ?case by auto
qed simp

end

lemma grant_frame: "grant_plan_time now u c dys src actor note reference db = Inr (g, db') \<Longrightarrow> sub_frame u db db'"
  by (erule grant_plan_time_Inr)

lemma start_trial_frame: "start_trial now u c dys actor db = Inr (g, db') \<Longrightarrow> sub_frame u db db'"
  by (erule start_trial_Inr) auto

lemma extend_trial_frame: "extend_trial now u dys settings db = Inr (g, db') \<Longrightarrow> sub_frame u db db'"
  by (erule extend_trial_Inr) (auto dest: start_trial_frame)

lemma revoke_frame: "revoke_subscription now u actor db = Inr (r, db') \<Longrightarrow> sub_frame u db db'"
  by (erule revoke_Inr) auto

lemma grant_protects:
  assumes "grant_plan_time now u c dys src actor note reference db = Inr (g, db')"
    and "db_subs db u = Some s" and "paid_and_effective now s"
  shows "db_subs db' u = Some s"
  using assms by (auto elim!: grant_plan_time_Inr)

lemma start_trial_protects:
  assumes "start_trial now u c dys actor db = Inr (g, db')"
    and "db_subs db u = Some s" and "paid_and_effective now s"
  shows "db_subs db' u = Some s"
  using assms(1)
  by (cases rule: start_trial_Inr) (use assms in \<open>auto simp: paid_and_effective_def\<close>)

lemma extend_trial_protects:
  assumes "extend_trial now u dys settings db = Inr (g, db')"
    and "db_subs db u = Some s" and "paid_and_effective now s"
  shows "db_subs db' u = Some s"
  using assms(1)
  by (cases rule: extend_trial_Inr) (use assms in \<open>auto simp: paid_and_effective_def\<close>)

text \<open>The interpretations: the grants of the code, one per source that makes them.\<close>

interpretation admin_grant: complimentary_op
  "\<lambda>now u. grant_plan_time now u c dys AdminSource actor memo reference" for c dys actor memo reference
  by unfold_locales (auto dest: grant_frame grant_wf [rotated -1] grant_protects)

interpretation promo_grant: complimentary_op
  "\<lambda>now u. grant_plan_time now u c dys PromoCodeSource actor memo reference" for c dys actor memo reference
  by unfold_locales (auto dest: grant_frame grant_wf [rotated -1] grant_protects)

interpretation credits_grant: complimentary_op
  "\<lambda>now u. grant_plan_time now u c dys CreditsSource actor memo reference" for c dys actor memo reference
  by unfold_locales (auto dest: grant_frame grant_wf [rotated -1] grant_protects)

interpretation trial: complimentary_op "\<lambda>now u. start_trial now u c dys actor" for c dys actor
  by unfold_locales (auto dest: start_trial_frame start_trial_wf start_trial_protects)

interpretation trial_extension: complimentary_op "\<lambda>now u. extend_trial now u dys settings" for dys settings
  by unfold_locales (auto dest: extend_trial_frame extend_trial_wf extend_trial_protects)

interpretation paid_end: subscription_op
  "\<lambda>now u. end_paid_subscription now u ref kind data actor" for ref kind data actor
  by unfold_locales (auto dest: end_paid_frame end_paid_wf)

interpretation revocation: subscription_op "\<lambda>now u. revoke_subscription now u actor" for actor
  by unfold_locales (auto dest: revoke_frame revoke_wf)

section \<open>Claims\<close>

lemma less_max_plus_days: "0 < d \<Longrightarrow> now < max e now + days d"
  using days_pos(1) [of d] by linarith

lemma effective_plan_code:
  assumes "db_subs db u = Some s" and "sub_effective now s" and "plan_exists db (sb_plan_code s)"
  shows "map_option pl_code (load_effective_plan now db u) = Some (sb_plan_code s)"
proof -
  from assms(3) obtain p where p: "find_plan_row db (sb_plan_code s) = Some p"
    by (auto simp: plan_exists_find)
  from find_plan_row_code [OF p] show ?thesis
    using assms p by (simp add: load_effective_plan_eq plan_of_row_def)
qed


text \<open>A small database for the witnesses: one plan, one regular account, one member of staff.\<close>

definition plan_pro :: plan_row where
  "plan_pro =
     \<lparr>pr_code = ''pro'', pr_name = JObj [], pr_description = JObj [], pr_price_monthly_cents = 3990,
      pr_price_yearly_cents = 39900, pr_currency = ''BRL'', pr_limits = None, pr_features = JObj [],
      pr_highlighted = False, pr_is_public = True, pr_sort_order = 30, pr_updated_at = 0\<rparr>"

definition account :: "role \<Rightarrow> user_row" where
  "account r =
     \<lparr>us_role = r, us_email = Some ''ana@example.com'', us_email_verified_at = Some 0,
      us_created_at = 0, us_account_in_app = True\<rparr>"

definition db0 :: db where
  "db0 =
     \<lparr>db_users = [(7, account RoleUser), (8, account RoleUser), (9, account Admin)],
      db_plans = [plan_pro, plan_pro\<lparr>pr_code := ''basic''\<rparr>], db_settings = None, db_subs = (\<lambda>_. None),
      db_events = [], db_ledger = [], db_promos = [], db_redemptions = [], db_referrals = [],
      db_job_runs = (\<lambda>_. None), db_notices = []\<rparr>"

lemma applied_result:
  "(case m of Inr (Changed ch, d) \<Rightarrow> P d | _ \<Rightarrow> False) \<Longrightarrow> \<exists>ch d. m = Inr (Changed ch, d) \<and> P d"
  by (auto split: sum.splits prod.splits applied.splits)

lemma some_result:
  "(case m of Inr (Some x, d) \<Rightarrow> P d | _ \<Rightarrow> False) \<Longrightarrow> \<exists>x d. m = Inr (Some x, d) \<and> P d"
  by (auto split: sum.splits prod.splits option.splits)

lemma ok_result: "\<not> isl m \<Longrightarrow> \<exists>x d. m = Inr (x, d)"
  by (cases m) auto

definition purchase :: payment_snapshot where
  "purchase =
     \<lparr>ps_external_ref = ''sub_1'', ps_plan_code = ''pro'', ps_interval = Some Monthly,
      ps_status = Some Active, ps_provider_status = ''active'',
      ps_current_period_end = Some (days 30), ps_cancel_at_period_end = False, ps_ended_at = None,
      ps_trial_end = None, ps_unit_amount = Some 3990, ps_currency = Some ''BRL''\<rparr>"

definition paid_sub :: sub_row where
  "paid_sub = snap_row 0 purchase Active None"


text \<open>
  A successful grant of plan time gives the account that plan from now on, and never
  takes time away: whenever the account already had the same plan, every moment the old
  subscription covered is still covered.
\<close>

theorem grant_never_shortens:
  assumes "grant_plan_time now u c dys src actor memo ref db = Inr (g, db')"
    and "src \<noteq> Payment" and "is_none_or dys (\<lambda>d. 0 < d)"
  shows "map_option pl_code (load_effective_plan now db' u) = Some c
    \<and> (\<exists>s'. db_subs db' u = Some s' \<and> sb_plan_code s' = c
         \<and> (\<forall>d. dys = Some d \<longrightarrow> is_none_or (sb_current_period_end s') (\<lambda>e. now + days d \<le> e))
         \<and> (\<forall>s t. db_subs db u = Some s \<and> sub_effective now s \<and> sb_plan_code s = c
              \<and> sub_effective t s \<longrightarrow> sub_effective t s'))"
  using assms(1)
proof (cases rule: grant_plan_time_Inr)
  case (1 row data)
  note row = grant_row_fields [OF 1(3)]
  let ?e = "granted_end now c dys (db_subs db u)"
  have eff: "sub_effective t row \<longleftrightarrow> is_none_or ?e (\<lambda>e. t < e)" for t
    using assms(2) row
    by (cases ?e) (auto simp: sub_effective_def in_effect_iff is_live_def retries_over_def period_over_def)
  have later: "is_none_or ?e (\<lambda>e. now + days d \<le> e)" if "dys = Some d" for d
    using that by (auto simp: granted_end_def is_none_or_def split: option.splits)
  then have "sub_effective now row"
    using assms(3) unfolding eff
    by (cases dys) (auto simp: granted_end_def is_none_or_def less_max_plus_days split: option.splits)
  moreover have "sub_effective t row"
    if s: "db_subs db u = Some s" "sub_effective now s" "sb_plan_code s = c" "sub_effective t s" for s t
  proof -
    have "sb_source s \<noteq> Payment" using 1(2) s by (simp add: paid_and_effective_def)
    then have "is_none_or (sb_current_period_end s) (\<lambda>e. t < e)"
      using s(4) by (cases "sb_current_period_end s")
        (simp_all add: sub_effective_def in_effect_iff period_over_def)
    moreover have "same_plan now c (db_subs db u)" using s by (simp add: same_plan_def)
    ultimately show ?thesis
      unfolding eff using s(1) assms(3)
      by (auto simp: granted_end_def is_none_or_def split: option.splits)
        (smt (verit) days_pos(1))
  qed
  moreover have "plan_exists db' (sb_plan_code row)"
    using 1 by simp
  ultimately show ?thesis
    using effective_plan_code [OF 1(5), of now] 1(5) row later by auto
qed

theorem grant_never_shortens_witness:
  "\<exists>g db'. grant_plan_time 0 7 ''pro'' (Some 30) AdminSource (Some 9) None JNull db0 = Inr (g, db')
     \<and> map_option pl_code (load_effective_plan 0 db' 7) = Some ''pro''"
proof -
  have "\<not> isl (grant_plan_time 0 7 ''pro'' (Some 30) AdminSource (Some 9) None JNull db0)"
    by code_simp
  then obtain g db' where r: "grant_plan_time 0 7 ''pro'' (Some 30) AdminSource (Some 9) None JNull db0 = Inr (g, db')"
    by (cases "grant_plan_time 0 7 ''pro'' (Some 30) AdminSource (Some 9) None JNull db0") auto
  have "AdminSource \<noteq> Payment" "is_none_or (Some 30 :: int option) (\<lambda>d. 0 < d)" by simp_all
  from grant_never_shortens [OF r this] r show ?thesis by blast
qed

subsection \<open>Mirroring the provider\<close>

lemma change_kind_canceled: "change_kind snap st e te cur = Some ''canceled'' \<Longrightarrow> \<not> is_live st"
  by (auto simp: change_kind_def Let_def split: option.splits if_splits)

lemma change_kind_again:
  "change_kind snap st (snap_end later snap st) (snap_trial_end snap) (Some (snap_row now snap st cur)) = None"
  by (auto simp: change_kind_def Let_def snap_row_def mirrored_row_fields snap_end_def)

lemma same_sub_snap_row [simp]: "same_sub snap (Some (snap_row now snap st cur))"
  by (simp add: same_sub_def snap_row_def mirrored_row_fields)

lemma apply_again:
  assumes "apply_payment_subscription now u snap db = Inr (Changed ch, db')"
  shows "apply_payment_subscription later u snap db' = Inr (Unchanged, db')"
  using assms
proof (cases rule: apply_Inr)
  case (changed ch' st db2)
  have plan: "ensure_plan_exists db' (ps_plan_code snap) = Inr ()"
    using changed(3) apply_frame [OF assms] by (simp add: ensure_plan_exists_def)
  show ?thesis
  proof (cases "db_subs db' u = db_subs db2 u")
    case True
    then show ?thesis
      using changed(2,7) plan change_kind_again [of snap st later now "db_subs db u"]
      by (simp add: apply_unfold)
  next
    case False
    then have k: "pc_kind ch' = ''canceled''" and r: "\<exists>b. restore_complimentary_grant now u (ps_external_ref snap) db2 = Inr (b, db')"
      using changed(11) by (auto split: if_splits)
    from k changed(5) have dead: "\<not> is_live st" by (auto dest: change_kind_canceled)
    from r obtain b where "restore_complimentary_grant now u (ps_external_ref snap) db2 = Inr (b, db')" by blast
    then have "\<not> same_sub snap (db_subs db' u)"
      using False changed(7) by (cases rule: restore_Inr) (auto simp: same_sub_def restored_row_def)
    with dead plan changed(2) show ?thesis by (simp add: apply_unfold)
  qed
qed blast

text \<open>
  Mirroring is idempotent: once a report of the provider has been applied, applying the
  same report again at any later time changes nothing, even when the first application ended
  the subscription and brought a complimentary plan back.
\<close>

theorem mirror_idempotent:
  assumes "apply_payment_subscription now u snap db = Inr (Changed ch, db')"
  shows "apply_payment_subscription later u snap db' = Inr (Unchanged, db')"
  using assms by (rule apply_again)

lemma purchase_applies:
  "\<exists>ch db'. apply_payment_subscription 0 7 purchase db0 = Inr (Changed ch, db')"
proof -
  have "case apply_payment_subscription 0 7 purchase db0 of Inr (Changed ch, db') \<Rightarrow> True | _ \<Rightarrow> False"
    by code_simp
  then show ?thesis by (auto split: sum.splits applied.splits)
qed

theorem mirror_idempotent_witness:
  "\<exists>ch db'. apply_payment_subscription 0 7 purchase db0 = Inr (Changed ch, db')
     \<and> apply_payment_subscription (days 3) 7 purchase db' = Inr (Unchanged, db')"
proof -
  from purchase_applies obtain ch db' where
    a: "apply_payment_subscription 0 7 purchase db0 = Inr (Changed ch, db')" by blast
  from mirror_idempotent [OF a, of "days 3"] a show ?thesis by blast
qed

text \<open>
  A report about another subscription never replaces a paid subscription in effect:
  nothing is written, and a live one is answered as a duplicate of the current one.
\<close>

theorem mirror_never_steals:
  assumes "db_subs db u = Some s" and "paid_and_effective now s" and "sb_external_ref s = Some r"
    and "r \<noteq> ps_external_ref snap" and "apply_payment_subscription now u snap db = Inr (res, db')"
  shows "db' = db \<and> (\<forall>ch. res \<noteq> Changed ch)
    \<and> (is_some_and (ps_status snap) is_live \<longrightarrow> res = Duplicate r)"
proof -
  have "\<not> same_sub snap (db_subs db u)" using assms(1,3,4) by (simp add: same_sub_def)
  then show ?thesis
    using assms by (auto simp: apply_unfold split: option.splits if_splits)
qed

theorem mirror_never_steals_witness:
  "apply_payment_subscription (days 1) 7 (purchase\<lparr>ps_external_ref := ''sub_2''\<rparr>)
     (db0\<lparr>db_subs := [7 \<mapsto> paid_sub]\<rparr>) = Inr (Duplicate ''sub_1'', db0\<lparr>db_subs := [7 \<mapsto> paid_sub]\<rparr>)"
proof -
  let ?db = "db0\<lparr>db_subs := [7 \<mapsto> paid_sub]\<rparr>" and ?snap = "purchase\<lparr>ps_external_ref := ''sub_2''\<rparr>"
  have "\<not> isl (apply_payment_subscription (days 1) 7 ?snap ?db)" by code_simp
  then obtain res db' where a: "apply_payment_subscription (days 1) 7 ?snap ?db = Inr (res, db')"
    by (cases "apply_payment_subscription (days 1) 7 ?snap ?db") auto
  have "db_subs ?db 7 = Some paid_sub" "paid_and_effective (days 1) paid_sub"
    "sb_external_ref paid_sub = Some ''sub_1''" "''sub_1'' \<noteq> ps_external_ref ?snap"
    "is_some_and (ps_status ?snap) is_live"
    by (simp, code_simp+)
  from mirror_never_steals [OF this(1-4) a] this(5) a show ?thesis by blast
qed

subsection \<open>Complimentary plans come back\<close>

lemma latest_event_snoc:
  "latest_event best (es @ [e]) =
     (case latest_event best es of
        None \<Rightarrow> Some e
      | Some b \<Rightarrow> if ev_created_at b \<le> ev_created_at e then Some e else Some b)"
  by (induction best es rule: latest_event.induct) (auto split: option.splits)

lemma latest_event_in:
  "latest_event best es = Some e \<Longrightarrow> best = Some e \<or> e \<in> set es"
  by (induction best es rule: latest_event.induct) (auto split: option.splits if_splits)

lemma latest_event_last:
  assumes "\<forall>e' \<in> set es. ev_created_at e' \<le> ev_created_at e"
  shows "latest_event None (es @ [e]) = Some e"
  using latest_event_in [of None es] assms by (auto simp: latest_event_snoc split: option.splits)

lemma json_index_replaced [simp]:
  "json_index (replaced_data c) ''plan_code'' = JStr (sb_plan_code c)"
  "json_time (json_index (replaced_data c) ''current_period_end'') = sb_current_period_end c"
  by (simp_all add: replaced_data_def json_index_def json_get_def json_of_opt_def split: option.splits)

text \<open>
  The event of a purchase over a complimentary plan is found again as long as no later
  purchase event of the same subscription was written.
\<close>

lemma restorable_after_purchase:
  assumes "db_events db' = db_events db
      @ [event_of now u ''subscribed'' f p st
           (JObj ((''replaced'', replaced_data c) # subscribed_data snap)) a] @ es"
    and "\<forall>e \<in> set (db_events db). ev_created_at e \<le> now" and "\<forall>e \<in> set es. ev_kind e \<noteq> ''subscribed''"
    and "is_none_or (sb_current_period_end c) (\<lambda>e. later < e)"
  shows "restorable later u (ps_external_ref snap) db' = Some (sb_plan_code c, sb_current_period_end c)"
proof -
  let ?P = "\<lambda>e. ev_user e = u \<and> ev_kind e = ''subscribed''
       \<and> json_get (ev_data e) ''external_ref'' = Some (JStr (ps_external_ref snap))
       \<and> json_get (ev_data e) ''replaced'' \<noteq> None"
  let ?e = "event_of now u ''subscribed'' f p st
           (JObj ((''replaced'', replaced_data c) # subscribed_data snap)) a"
  have "?P ?e" by (simp add: json_get_def subscribed_data_def)
  moreover have "filter ?P es = []" using assms(3) by (auto simp: filter_empty_conv)
  ultimately have "filter ?P (db_events db') = filter ?P (db_events db) @ [?e]"
    by (simp add: assms(1))
  then have "replaced_grant db' u (ps_external_ref snap) = Some (replaced_data c)"
    using latest_event_last [of "filter ?P (db_events db)" ?e] assms(2)
    by (simp add: replaced_grant_def json_index_def json_get_def)
  then show ?thesis
    using assms(4) by (cases "sb_current_period_end c") (simp_all add: restorable_def Let_def)
qed

text \<open>
  A purchase only borrows the place of a complimentary plan: when the paid subscription
  that replaced a staff grant ends (canceled, withdrawn, refunded or disputed) while the
  grant would still be running, the account gets the same plan back, until the same day.
\<close>

theorem complimentary_plan_restored:
  assumes "db_subs db u = Some s" and "sb_source s = AdminSource" and "sub_effective now s"
    and "\<forall>e \<in> set (db_events db). ev_created_at e \<le> now"
    and "apply_payment_subscription now u snap db = Inr (Changed ch, db1)"
    and "kind \<in> set [''canceled'', ''withdrawn'', ''refunded'', ''disputed'']"
    and "end_paid_subscription later u (ps_external_ref snap) kind data actor db1 = Inr (Some ch', db2)"
    and "is_none_or (sb_current_period_end s) (\<lambda>e. later < e)"
  shows "\<exists>s'. db_subs db2 u = Some s' \<and> sb_plan_code s' = sb_plan_code s \<and> sb_source s' = AdminSource
    \<and> sb_current_period_end s' = sb_current_period_end s \<and> sub_effective later s'"
  using assms(5)
proof (cases rule: apply_Inr)
  case (changed ch0 st dbm)
  have "\<not> same_sub snap (db_subs db u)" using assms(1,2) by (simp add: same_sub_def)
  then have kind: "pc_kind ch0 = ''subscribed''"
    using changed(5) assms(1) by (simp add: change_kind_def Let_def)
  then have "db1 = dbm" using changed(11) by simp
  then have ev: "db_events db1 = db_events db @ [event_of now u ''subscribed'' (db_subs db u)
      (Some (ps_plan_code snap)) (Some st)
      (JObj ((''replaced'', replaced_data s) # subscribed_data snap)) None]"
    using changed(10) kind assms(1-3) by (simp add: change_data_def same_sub_def)
  from assms(7) show ?thesis
  proof (cases rule: end_paid_Inr)
    case (ended c row dbe b data')
    have "restorable later u (ps_external_ref snap) dbe = Some (sb_plan_code s, sb_current_period_end s)"
      by (rule restorable_after_purchase [of _ db now u "db_subs db u" "Some (ps_plan_code snap)"
          "Some st" s snap None
          "[event_of later u kind (Some c) (Some (sb_plan_code c)) (Some Canceled) data' actor]"])
        (use ended(12) ev assms(4,6,8) in \<open>auto simp: event_of_def\<close>)
    with ended(13) have "db_subs db2 u = map_option (restored_row later (sb_plan_code s)
        (sb_current_period_end s)) (db_subs dbe u)"
      by (cases rule: restore_Inr) auto
    then have "db_subs db2 u = Some (restored_row later (sb_plan_code s) (sb_current_period_end s) row)"
      using ended(8) by simp
    moreover have "sub_effective later (restored_row later (sb_plan_code s) (sb_current_period_end s) row)"
      using assms(8) by (cases "sb_current_period_end s")
        (simp_all add: restored_row_def sub_effective_def in_effect_iff is_live_def retries_over_def period_over_def)
    ultimately show ?thesis by (simp add: restored_row_def)
  qed simp
qed blast

theorem complimentary_plan_restored_witness:
  "\<exists>(db2 :: db) s'. db_subs db2 7 = Some s' \<and> sb_plan_code s' = ''basic'' \<and> sub_effective (days 3) s'"
proof -
  let ?s = "granted_row 0 ''basic'' AdminSource (Some (days 60)) None (Some 9) None"
  let ?db = "db0\<lparr>db_subs := [7 \<mapsto> ?s]\<rparr>"
  have "case apply_payment_subscription 0 7 purchase ?db of
      Inr (Changed ch, db1) \<Rightarrow>
        (case end_paid_subscription (days 3) 7 (ps_external_ref purchase) ''refunded'' JNull None db1 of
           Inr (Some ch', db2) \<Rightarrow> True | _ \<Rightarrow> False)
    | _ \<Rightarrow> False"
    by code_simp
  from applied_result [OF this] obtain ch db1 where
    a: "apply_payment_subscription 0 7 purchase ?db = Inr (Changed ch, db1)"
    and m: "case end_paid_subscription (days 3) 7 (ps_external_ref purchase) ''refunded'' JNull None db1 of
        Inr (Some ch', db2) \<Rightarrow> True | _ \<Rightarrow> False"
    by blast
  from some_result [OF m] obtain ch' db2 where
    e: "end_paid_subscription (days 3) 7 (ps_external_ref purchase) ''refunded'' JNull None db1 = Inr (Some ch', db2)"
    by blast
  have s: "db_subs ?db 7 = Some ?s" by simp
  have "sb_source ?s = AdminSource" "sub_effective 0 ?s"
    "\<forall>e \<in> set (db_events ?db). ev_created_at e \<le> 0"
    "''refunded'' \<in> set [''canceled'', ''withdrawn'', ''refunded'', ''disputed'']"
    "is_none_or (sb_current_period_end ?s) (\<lambda>e. days 3 < e)" "sb_plan_code ?s = ''basic''"
    by code_simp+
  from complimentary_plan_restored [OF s this(1-3) a this(4) e this(5)] obtain s' where
    "db_subs db2 7 = Some s'" "sb_plan_code s' = sb_plan_code ?s" "sub_effective (days 3) s'"
    by blast
  then show ?thesis unfolding \<open>sb_plan_code ?s = ''basic''\<close> by blast
qed

text \<open>
  Ending a paid subscription is final: afterwards the account has no paid subscription
  that is, or ever again becomes, in effect, the end is in its history, and nobody else's
  subscription, the credits and the promo codes are as they were.
\<close>

theorem paid_end_is_final:
  assumes "end_paid_subscription now u external_ref kind data actor db = Inr (Some ch, db')"
  shows "(\<forall>s t. db_subs db' u = Some s \<and> sb_source s = Payment \<longrightarrow> \<not> sub_effective t s)
    \<and> (\<exists>e \<in> set (db_events db'). ev_user e = u \<and> ev_kind e = kind \<and> ev_to_status e = Some Canceled)
    \<and> (\<forall>v. v \<noteq> u \<longrightarrow> db_subs db' v = db_subs db v) \<and> db_ledger db' = db_ledger db
    \<and> db_redemptions db' = db_redemptions db"
proof -
  have frame: "sub_frame u db db'" using end_paid_frame [OF assms] .
  from assms show ?thesis
  proof (cases rule: end_paid_Inr)
    case (ended c row db2 b data')
    have "\<exists>e \<in> set (db_events db2). ev_user e = u \<and> ev_kind e = kind \<and> ev_to_status e = Some Canceled"
      by (simp add: ended(12))
    then have ev: "\<exists>e \<in> set (db_events db'). ev_user e = u \<and> ev_kind e = kind \<and> ev_to_status e = Some Canceled"
      using restore_frame [OF ended(13)] by (auto simp: sub_frame_def)
    have "\<not> sub_effective t s" if "db_subs db' u = Some s" "sb_source s = Payment" for s t
      using ended(13)
    proof (cases rule: restore_Inr)
      case no
      with that ended(6,8) show ?thesis by (auto simp: sub_effective_def in_effect_iff is_live_def)
    next
      case (yes c' until)
      with that ended(8) show ?thesis by (auto simp: restored_row_def)
    qed
    with ev frame show ?thesis by (auto simp: sub_frame_def)
  qed simp
qed

theorem paid_end_is_final_witness:
  "\<exists>ch db'. end_paid_subscription (days 1) 7 ''sub_1'' ''withdrawn'' JNull None
       (db0\<lparr>db_subs := [7 \<mapsto> paid_sub]\<rparr>) = Inr (Some ch, db') \<and> db_ledger db' = []"
proof -
  let ?db = "db0\<lparr>db_subs := [7 \<mapsto> paid_sub]\<rparr>"
  have "case end_paid_subscription (days 1) 7 ''sub_1'' ''withdrawn'' JNull None ?db of
      Inr (Some ch, db') \<Rightarrow> True | _ \<Rightarrow> False"
    by code_simp
  from some_result [OF this] obtain ch db' where
    e: "end_paid_subscription (days 1) 7 ''sub_1'' ''withdrawn'' JNull None ?db = Inr (Some ch, db')"
    by blast
  have l: "db_ledger ?db = []" by (simp add: db0_def)
  from paid_end_is_final [OF e] l e show ?thesis by auto
qed

end
