(* ===== verification/Credits.thy ===== *)
theory Credits
  imports SubscriptionLaws
begin

text \<open>
  Credits, promo codes, rewards and referrals, from
  \<^verbatim>\<open>src/src/services/billing.rs\<close>. The credit ledger is an append-only list of
  entries whose sum is the balance; everything that is bought, given or taken back is an
  entry. The claims bound what a code, a reward or a referral can pay.
\<close>

section \<open>The ledger\<close>

definition add_credits ::
  "time \<Rightarrow> uuid \<Rightarrow> int \<Rightarrow> string \<Rightarrow> uuid option \<Rightarrow> string option \<Rightarrow> uuid option \<Rightarrow> db \<Rightarrow> api_error + db"
where
  "add_credits now u amount reason reference_id note actor db =
     (if amount = 0 then Inr db
      else write_ledger
        \<lparr>lg_user = u, lg_amount = amount, lg_reason = reason, lg_reference_id = reference_id,
         lg_note = note, lg_actor = actor, lg_created_at = now\<rparr> db)"

definition credit_balance :: "db \<Rightarrow> uuid \<Rightarrow> int" where
  "credit_balance db u = sum_list (map lg_amount (filter (\<lambda>e. lg_user e = u) (db_ledger db)))"

section \<open>Promo codes\<close>

record redemption_summary =
  rs_kind :: promo_kind
  rs_plan_code :: "string option"
  rs_days :: "int option"
  rs_credits :: "int option"
  rs_discount_percent :: "int option"

definition promo_invalid :: api_error where
  "promo_invalid = rule 400 ''PROMO_CODE_INVALID''"

definition promo_expired :: api_error where
  "promo_expired = rule 400 ''PROMO_CODE_EXPIRED''"

definition promo_already :: api_error where
  "promo_already = rule 409 ''PROMO_CODE_ALREADY_REDEEMED''"

definition promo_exhausted :: api_error where
  "promo_exhausted = rule 409 ''PROMO_CODE_EXHAUSTED''"

text \<open>The guards of \<open>redeem_promo_code\<close>, up to the counter.\<close>

definition promo_checks :: "time \<Rightarrow> uuid \<Rightarrow> promo_row \<Rightarrow> db \<Rightarrow> api_error + unit" where
  "promo_checks now u p db =
     (if is_some_and (pm_starts_at p) (\<lambda>s. s > now) then Inl promo_invalid
      else if is_some_and (pm_expires_at p) (\<lambda>e. e \<le> now) then Inl promo_expired
      else if list_ex (\<lambda>r. rd_promo r = pm_id p \<and> rd_user r = u) (db_redemptions db)
      then Inl promo_already
      else if pm_new_users_only p then
        (case user db u of
           None \<Rightarrow> Inl (DatabaseError OtherSqlx)
         | Some r \<Rightarrow>
             if us_created_at r < unwrap_or (pm_starts_at p) (pm_created_at p) then Inl not_eligible
             else Inr ())
      else Inr ())"

text \<open>
  The counter and the redemption row. A redemption count past the largest \<open>INTEGER\<close> is a
  database error.
\<close>

definition count_redemption :: "time \<Rightarrow> uuid \<Rightarrow> promo_row \<Rightarrow> db \<Rightarrow> api_error + db" where
  "count_redemption now u p db =
     (if \<not> is_none_or (pm_max_redemptions p) (\<lambda>m. pm_redemptions_count p < m) then Inl promo_exhausted
      else if pm_redemptions_count p + 1 > 2147483647 then Inl (DatabaseError (Database ''22003''))
      else if list_ex (\<lambda>r. rd_promo r = pm_id p \<and> rd_user r = u) (db_redemptions db)
      then Inl promo_already
      else if user db u = None then Inl fk_violation
      else Inr (db\<lparr>db_promos :=
                    map (\<lambda>q. if pm_id q = pm_id p
                         then q\<lparr>pm_redemptions_count := pm_redemptions_count q + 1, pm_updated_at := now\<rparr>
                         else q) (db_promos db),
                  db_redemptions := db_redemptions db
                    @ [\<lparr>rd_promo = pm_id p, rd_user = u, rd_redeemed_at = now, rd_applied_at = None\<rparr>]\<rparr>))"

definition apply_promo ::
  "time \<Rightarrow> uuid \<Rightarrow> string \<Rightarrow> promo_row \<Rightarrow> billing_settings \<Rightarrow> db \<Rightarrow> api_error + (notification list \<times> db)"
where
  "apply_promo now u normalized p settings db =
     (case pm_kind p of
        PlanGrant \<Rightarrow>
          rbind (grant_plan_time now u (unwrap_or (pm_plan_code p) []) (pm_duration_days p)
                   PromoCodeSource None None
                   (JObj [(''promo_code_id'', JInt (int (pm_id p))), (''promo_code'', JStr normalized)]) db)
            (\<lambda>(g, db). Inr ([outcome_notification g u], db))
      | TrialExtension \<Rightarrow>
          rbind (extend_trial now u (max (unwrap_or (pm_duration_days p) 0) 1) settings db)
            (\<lambda>(g, db). Inr ([outcome_notification g u], db))
      | Credits \<Rightarrow>
          let amount = unwrap_or (pm_credits p) 0 in
          rbind (add_credits now u amount ''promo_code'' (Some (pm_id p)) None None db)
            (\<lambda>db. Inr ([credits_granted u amount ''promo_code''], db))
      | Discount \<Rightarrow> Inr ([], db))"

definition redeem_promo_code ::
  "time \<Rightarrow> uuid \<Rightarrow> string \<Rightarrow> db \<Rightarrow> api_error + (redemption_summary \<times> db)"
where
  "redeem_promo_code now u c db =
     (let normalized = to_uppercase (trim c); settings = load_settings db in
      case opt_filter (\<lambda>p. pm_disabled_at p = None) (find (\<lambda>p. pm_code p = normalized) (db_promos db)) of
        None \<Rightarrow> Inl promo_invalid
      | Some p \<Rightarrow>
          rbind (promo_checks now u p db) (\<lambda>_.
          rbind (count_redemption now u p db) (\<lambda>db.
          rbind (apply_promo now u normalized p settings db) (\<lambda>(ns, db).
          Inr (\<lparr>rs_kind = pm_kind p, rs_plan_code = pm_plan_code p, rs_days = pm_duration_days p,
                rs_credits = pm_credits p, rs_discount_percent = pm_discount_percent p\<rparr>,
               notify_all ns db)))))"

section \<open>Rewards\<close>

definition redeem_reward :: "time \<Rightarrow> uuid \<Rightarrow> string \<Rightarrow> db \<Rightarrow> api_error + (unit \<times> db)" where
  "redeem_reward now u reward_id db =
     (case find (\<lambda>r. rw_id r = reward_id) (bs_rewards (load_settings db)) of
        None \<Rightarrow> Inl (rule 404 ''REWARD_NOT_FOUND'')
      | Some r \<Rightarrow>
          let balance = credit_balance db u in
          if balance < rw_cost r then
            Inl (rule_with_meta 409 ''INSUFFICIENT_CREDITS''
                   (JObj [(''balance'', JInt balance), (''required'', JInt (rw_cost r))]))
          else
            rbind (add_credits now u (- rw_cost r) ''reward_redemption'' None (Some (rw_id r)) None db) (\<lambda>db.
            rbind (grant_plan_time now u (rw_plan r) (Some (rw_days r)) CreditsSource None None
                     (JObj [(''reward_id'', JStr (rw_id r)), (''cost'', JInt (rw_cost r))]) db) (\<lambda>(g, db).
            Inr ((), notify_all [outcome_notification g u] db))))"

section \<open>Referrals\<close>

definition pending_referral :: "db \<Rightarrow> uuid \<Rightarrow> referral_row option" where
  "pending_referral db referred_id =
     find (\<lambda>r. rr_referred r = referred_id \<and> rr_status r = RefPending) (db_referrals db)"

text \<open>
  \<open>UPDATE referrals ... WHERE id = $1 AND ...\<close>: how many rows it changed, and the table.
\<close>

definition update_referrals ::
  "(referral_row \<Rightarrow> bool) \<Rightarrow> (referral_row \<Rightarrow> referral_row) \<Rightarrow> db \<Rightarrow> nat \<times> db"
where
  "update_referrals P f db =
     (length (filter P (db_referrals db)),
      db\<lparr>db_referrals := map (\<lambda>r. if P r then f r else r) (db_referrals db)\<rparr>)"

definition reject_referral :: "uuid \<Rightarrow> string \<Rightarrow> db \<Rightarrow> api_error + (unit \<times> db)" where
  "reject_referral i note db =
     Inr ((), snd (update_referrals (\<lambda>r. rr_id r = i \<and> rr_status r = RefPending)
                     (\<lambda>r. r\<lparr>rr_status := RefRejected, rr_note := Some note\<rparr>) db))"

text \<open>The mailbox an address delivers to (\<^verbatim>\<open>models/user.rs\<close>).\<close>

definition canonical_email :: "string \<Rightarrow> string" where
  "canonical_email email0 =
     (let email = to_lowercase (trim email0) in
      case rsplit_once (CHR ''@'') email of
        None \<Rightarrow> email
      | Some (local_part, domain) \<Rightarrow>
          let local_part = takeWhile (\<lambda>c. c \<noteq> CHR ''+'') local_part;
              gmail = (domain = ''gmail.com'' \<or> domain = ''googlemail.com'')
          in (if gmail then filter (\<lambda>c. c \<noteq> CHR ''.'') local_part else local_part)
             @ CHR ''@'' # (if gmail then ''gmail.com'' else domain))"

text \<open>
  The e-mails are read into \<open>String\<close>s: an account without one is a decoding error.
\<close>

definition same_mailbox :: "db \<Rightarrow> uuid \<Rightarrow> uuid \<Rightarrow> api_error + bool" where
  "same_mailbox db a b =
     (let rows = filter (\<lambda>(i, _). i = a \<or> i = b) (db_users db) in
      if list_ex (\<lambda>(_, r). us_email r = None) rows then Inl (DatabaseError OtherSqlx)
      else
        let mailbox = (\<lambda>i. map_option (\<lambda>(_, r). canonical_email (the (us_email r)))
                             (find (\<lambda>(j, _). j = i) rows))
        in Inr (case (mailbox a, mailbox b) of (Some x, Some y) \<Rightarrow> x = y | _ \<Rightarrow> False))"

definition qualify_referral :: "time \<Rightarrow> uuid \<Rightarrow> db \<Rightarrow> api_error + (unit \<times> db)" where
  "qualify_referral now referred_id db =
     (case pending_referral db referred_id of
        None \<Rightarrow> Inr ((), db)
      | Some referral \<Rightarrow>
          let settings = load_settings db in
          if \<not> rf_enabled (bs_referral settings)
          then reject_referral (rr_id referral) ''referral_disabled'' db
          else
            rbind (if rr_referrer referral = referred_id then Inr True
                   else same_mailbox db (rr_referrer referral) referred_id) (\<lambda>self.
            if self then reject_referral (rr_id referral) ''self_referral'' db
            else
              let (rows, db1) = update_referrals
                    (\<lambda>r. rr_id r = rr_id referral \<and> rr_status r = RefPending
                         \<and> rr_referred_rewarded_at r = None)
                    (\<lambda>r. r\<lparr>rr_referred_rewarded_at := Some now\<rparr>) db
              in if rows = 0 then Inr ((), db)
                 else
                   let credits = rf_referred_credits (bs_referral settings) in
                   rbind (add_credits now referred_id credits ''referral_referred''
                            (Some (rr_id referral)) None None db1) (\<lambda>db.
                   Inr ((), if credits > 0
                            then notify_all [credits_granted referred_id credits ''referral_referred''] db
                            else db))))"

text \<open>\<open>month_start\<close> is Postgres' \<open>date_trunc('month', ...)\<close>.\<close>

definition reward_referrer_on_payment ::
  "(time \<Rightarrow> time) \<Rightarrow> time \<Rightarrow> uuid \<Rightarrow> db \<Rightarrow> api_error + (unit \<times> db)"
where
  "reward_referrer_on_payment month_start now referred_id db =
     (case pending_referral db referred_id of
        None \<Rightarrow> Inr ((), db)
      | Some referral \<Rightarrow>
          let settings = load_settings db; referrer = rr_referrer referral in
          if \<not> rf_enabled (bs_referral settings)
          then reject_referral (rr_id referral) ''referral_disabled'' db
          else if referrer = referred_id then reject_referral (rr_id referral) ''self_referral'' db
          else
            let rewarded_this_month =
                  length (filter (\<lambda>r. rr_referrer r = referrer \<and> rr_status r = RefRewarded
                                      \<and> is_some_and (rr_rewarded_at r) (\<lambda>t. t \<ge> month_start now))
                            (db_referrals db))
            in if int rewarded_this_month \<ge> rf_max_rewarded_per_month (bs_referral settings)
               then reject_referral (rr_id referral) ''monthly_limit_reached'' db
               else
                 let (rows, db1) = update_referrals
                       (\<lambda>r. rr_id r = rr_id referral \<and> rr_status r = RefPending)
                       (\<lambda>r. r\<lparr>rr_status := RefRewarded, rr_rewarded_at := Some now\<rparr>) db
                 in if rows = 0 then Inr ((), db)
                    else
                      let credits = rf_referrer_credits (bs_referral settings) in
                      rbind (add_credits now referrer credits ''referral_referrer''
                               (Some (rr_id referral)) None None db1) (\<lambda>db.
                      Inr ((), if credits > 0
                               then notify_all [credits_granted referrer credits ''referral_referrer''] db
                               else db)))"

definition REFERRAL_CLAWBACK_DAYS :: int where
  "REFERRAL_CLAWBACK_DAYS = 30"

definition granted_for :: "db \<Rightarrow> uuid \<Rightarrow> uuid \<Rightarrow> int" where
  "granted_for db u referral_id =
     sum_list (map lg_amount
       (filter (\<lambda>e. lg_user e = u \<and> lg_reference_id e = Some referral_id
                    \<and> lg_reason e \<in> set [''referral_referrer'', ''referral_reversed'']) (db_ledger db)))"

definition reverse_referral_reward :: "time \<Rightarrow> uuid \<Rightarrow> string \<Rightarrow> db \<Rightarrow> api_error + (unit \<times> db)" where
  "reverse_referral_reward now referred_id reason db =
     (case find (\<lambda>r. rr_referred r = referred_id \<and> rr_status r = RefRewarded
                     \<and> is_some_and (rr_rewarded_at r) (\<lambda>t. t \<ge> now - days REFERRAL_CLAWBACK_DAYS))
              (db_referrals db) of
        None \<Rightarrow> Inr ((), db)
      | Some referral \<Rightarrow>
          let granted = granted_for db (rr_referrer referral) (rr_id referral);
              note = ''reward_reversed:'' @ reason
          in if \<not> varchar 255 note then Inl too_long
          else
          let (rows, db1) = update_referrals (\<lambda>r. rr_id r = rr_id referral \<and> rr_status r = RefRewarded)
                (\<lambda>r. r\<lparr>rr_status := RefRejected, rr_note := Some note\<rparr>) db
          in if rows = 0 then Inr ((), db)
             else if granted > 0 then
               rbind (add_credits now (rr_referrer referral) (- (min granted 2147483647))
                        ''referral_reversed'' (Some (rr_id referral)) (Some reason) None db1) (\<lambda>db.
               Inr ((), db))
             else Inr ((), db1))"

end
