(* ===== verification/CreditLaws.thy ===== *)
theory CreditLaws
  imports Credits
begin

text \<open>
  What credits, promo codes and rewards promise. The ledger is an account book:
  its contract (an entry moves one balance, by its amount) is a locale whose lemmas carry
  the proofs about balances, and \<open>add_credits\<close> is its instance. Promo codes keep their
  counters equal to their redemptions.
\<close>

section \<open>The account book\<close>

text \<open>
  \<open>post u a\<close> books the amount \<open>a\<close> for \<open>u\<close>, or fails and leaves the book unchanged.
\<close>

locale account_book =
  fixes post :: "'u \<Rightarrow> int \<Rightarrow> 's \<Rightarrow> 'e + 's"
    and balance :: "'s \<Rightarrow> 'u \<Rightarrow> int"
  assumes post_balance: "post u a s = Inr s' \<Longrightarrow> balance s' v = balance s v + (if v = u then a else 0)"
begin

text \<open>A debit that is covered by the balance leaves a balance that is not negative.\<close>

lemma covered_debit:
  "cost \<le> balance s u \<Longrightarrow> post u (- cost) s = Inr s' \<Longrightarrow>
   balance s' u = balance s u - cost \<and> 0 \<le> balance s' u"
  using post_balance [of u "- cost" s s' u] by simp

lemma post_other: "post u a s = Inr s' \<Longrightarrow> v \<noteq> u \<Longrightarrow> balance s' v = balance s v"
  using post_balance [of u a s s' v] by simp

lemma post_exact: "post u a s = Inr s' \<Longrightarrow> balance s' u = balance s u + a"
  using post_balance [of u a s s' u] by simp

end

definition entry_of ::
  "time \<Rightarrow> uuid \<Rightarrow> int \<Rightarrow> string \<Rightarrow> uuid option \<Rightarrow> string option \<Rightarrow> uuid option \<Rightarrow> ledger_row list"
where
  "entry_of now u a reason ref memo actor =
     (if a = 0 then [] else
        [\<lparr>lg_user = u, lg_amount = a, lg_reason = reason, lg_reference_id = ref, lg_note = memo,
          lg_actor = actor, lg_created_at = now\<rparr>])"

lemma add_credits_Inr:
  assumes "add_credits now u a reason ref memo actor db = Inr db'"
  shows "db' = db\<lparr>db_ledger := db_ledger db @ entry_of now u a reason ref memo actor\<rparr>"
  using assms by (auto simp: add_credits_def write_ledger_Inr entry_of_def split: if_splits)

lemma credit_balance_entries:
  "credit_balance (db\<lparr>db_ledger := db_ledger db @ es\<rparr>) u
     = credit_balance db u + sum_list (map lg_amount (filter (\<lambda>e. lg_user e = u) es))"
  by (simp add: credit_balance_def)

lemma credit_balance_cong: "db_ledger db' = db_ledger db \<Longrightarrow> credit_balance db' = credit_balance db"
  by (simp add: credit_balance_def fun_eq_iff)

lemma add_credits_balance:
  assumes "add_credits now u a reason ref memo actor db = Inr db'"
  shows "credit_balance db' v = credit_balance db v + (if v = u then a else 0)"
  unfolding add_credits_Inr [OF assms] credit_balance_entries by (simp add: entry_of_def)

interpretation credit_ledger: account_book
  "\<lambda>u a. add_credits now u a reason ref memo actor" credit_balance for now reason ref memo actor
  by unfold_locales (rule add_credits_balance)

text \<open>Everything but the ledger is as it was.\<close>

lemma add_credits_frame:
  assumes "add_credits now u a reason ref memo actor db = Inr db'"
  shows "db_users db' = db_users db" "db_plans db' = db_plans db" "db_settings db' = db_settings db"
    "db_subs db' = db_subs db" "db_events db' = db_events db" "db_promos db' = db_promos db"
    "db_redemptions db' = db_redemptions db" "db_referrals db' = db_referrals db"
    "db_job_runs db' = db_job_runs db" "db_notices db' = db_notices db"
  unfolding add_credits_Inr [OF assms] by simp_all

lemma notify_all_fields [simp]:
  "db_users (notify_all ns db) = db_users db" "db_plans (notify_all ns db) = db_plans db"
  "db_settings (notify_all ns db) = db_settings db" "db_subs (notify_all ns db) = db_subs db"
  "db_events (notify_all ns db) = db_events db" "db_ledger (notify_all ns db) = db_ledger db"
  "db_promos (notify_all ns db) = db_promos db" "db_redemptions (notify_all ns db) = db_redemptions db"
  "db_referrals (notify_all ns db) = db_referrals db" "db_job_runs (notify_all ns db) = db_job_runs db"
  by (simp_all add: notify_all_def)

lemma sub_frameD:
  assumes "sub_frame u db db'"
  shows "db_users db' = db_users db" "db_plans db' = db_plans db" "db_settings db' = db_settings db"
    "db_ledger db' = db_ledger db" "db_promos db' = db_promos db" "db_redemptions db' = db_redemptions db"
    "db_referrals db' = db_referrals db"
  using assms by (simp_all add: sub_frame_def)

section \<open>Rewards\<close>

lemma redeem_reward_Inr:
  assumes "redeem_reward now u i db = Inr (x, db')"
  obtains r db1 db2 g where "find (\<lambda>r. rw_id r = i) (bs_rewards (load_settings db)) = Some r"
    "rw_cost r \<le> credit_balance db u"
    "add_credits now u (- rw_cost r) ''reward_redemption'' None (Some (rw_id r)) None db = Inr db1"
    "grant_plan_time now u (rw_plan r) (Some (rw_days r)) CreditsSource None None
       (JObj [(''reward_id'', JStr (rw_id r)), (''cost'', JInt (rw_cost r))]) db1 = Inr (g, db2)"
    "db' = notify_all [outcome_notification g u] db2"
  using assms by (auto simp: redeem_reward_def Let_def split: option.splits if_splits)

lemma grant_effective:
  assumes "grant_plan_time now u c dys src actor memo reference db = Inr (g, db')"
    and "src \<noteq> Payment" and "is_none_or dys (\<lambda>d. 0 < d)"
  shows "map_option pl_code (load_effective_plan now db' u) = Some c"
  using assms(1)
proof (cases rule: grant_plan_time_Inr)
  case (1 row data)
  note row = grant_row_fields [OF 1(3)]
  let ?e = "granted_end now c dys (db_subs db u)"
  have "is_none_or ?e (\<lambda>e. now < e)"
    using assms(3)
    by (cases dys) (auto simp: granted_end_def is_none_or_def less_max_plus_days split: option.splits)
  then have "sub_effective now row"
    using assms(2) row
    by (cases ?e) (auto simp: sub_effective_def in_effect_iff is_live_def retries_over_def period_over_def)
  then show ?thesis using effective_plan_code [OF 1(5), of now] 1 row by simp
qed

lemma effective_plan_cong:
  "db_subs db' = db_subs db \<Longrightarrow> db_plans db' = db_plans db \<Longrightarrow>
   load_effective_plan now db' u = load_effective_plan now db u"
  by (simp add: load_effective_plan_eq find_plan_row_def split: option.split)

text \<open>
  A reward is paid for exactly once and only from credits the account has: after a
  redemption the account is on the reward's plan, its balance went down by the reward's cost
  and is not negative, and nobody else's balance moved.
\<close>

theorem reward_paid_from_balance:
  assumes "redeem_reward now u i db = Inr (x, db')"
    and "\<forall>r \<in> set (bs_rewards (load_settings db)). 0 < rw_days r"
  shows "\<exists>r \<in> set (bs_rewards (load_settings db)). rw_id r = i
    \<and> credit_balance db' u = credit_balance db u - rw_cost r \<and> 0 \<le> credit_balance db' u
    \<and> (\<forall>v. v \<noteq> u \<longrightarrow> credit_balance db' v = credit_balance db v)
    \<and> map_option pl_code (load_effective_plan now db' u) = Some (rw_plan r)"
  using assms(1)
proof (cases rule: redeem_reward_Inr)
  case (1 r db1 db2 g)
  have r: "r \<in> set (bs_rewards (load_settings db))" "rw_id r = i"
    using 1(1) by (auto simp: find_Some_iff)
  have "db_ledger db' = db_ledger db1"
    using sub_frameD(4) [OF grant_frame [OF 1(4)]] 1(5) by simp
  then have b: "credit_balance db' = credit_balance db1" by (rule credit_balance_cong)
  have "map_option pl_code (load_effective_plan now db2 u) = Some (rw_plan r)"
    using grant_effective [OF 1(4)] assms(2) r(1) by simp
  then have p: "map_option pl_code (load_effective_plan now db' u) = Some (rw_plan r)"
    using effective_plan_cong [of db' db2] 1(5) by simp
  show ?thesis
    using r credit_ledger.covered_debit [OF 1(2,3)] credit_ledger.post_other [OF 1(3)] b p by auto
qed

theorem reward_paid_from_balance_witness:
  "\<exists>db'. redeem_reward 0 7 ''pro_30d''
      (db0\<lparr>db_ledger := entry_of 0 7 150 ''admin_adjustment'' None None (Some 9)\<rparr>) = Inr ((), db')
     \<and> 0 \<le> credit_balance db' 7"
proof -
  let ?db = "db0\<lparr>db_ledger := entry_of 0 7 150 ''admin_adjustment'' None None (Some 9)\<rparr>"
  have "\<not> isl (redeem_reward 0 7 ''pro_30d'' ?db)" by code_simp
  then obtain x db' where r: "redeem_reward 0 7 ''pro_30d'' ?db = Inr (x, db')"
    by (cases "redeem_reward 0 7 ''pro_30d'' ?db") auto
  have "\<forall>r \<in> set (bs_rewards (load_settings ?db)). 0 < rw_days r" by code_simp
  from reward_paid_from_balance [OF r this] r show ?thesis by auto
qed

section \<open>Promo codes\<close>

lemma promo_checks_Inr:
  assumes "promo_checks now u p db = Inr x"
  shows "is_none_or (pm_starts_at p) (\<lambda>s. s \<le> now)" "is_none_or (pm_expires_at p) (\<lambda>e. now < e)"
    "\<not> (\<exists>r \<in> set (db_redemptions db). rd_promo r = pm_id p \<and> rd_user r = u)"
    "pm_new_users_only p \<Longrightarrow> \<exists>r. user db u = Some r
       \<and> unwrap_or (pm_starts_at p) (pm_created_at p) \<le> us_created_at r"
  using assms
  by (auto simp: promo_checks_def is_none_or_def is_some_and_iff list_ex_iff not_less
      split: if_splits option.splits)

definition counted :: "time \<Rightarrow> promo_row \<Rightarrow> promo_row \<Rightarrow> promo_row" where
  "counted now p q =
     (if pm_id q = pm_id p
      then q\<lparr>pm_redemptions_count := pm_redemptions_count q + 1, pm_updated_at := now\<rparr> else q)"

lemma count_redemption_Inr:
  assumes "count_redemption now u p db = Inr db'"
  shows "is_none_or (pm_max_redemptions p) (\<lambda>m. pm_redemptions_count p < m)"
    "user db u \<noteq> None"
    "db' = db\<lparr>db_promos := map (counted now p) (db_promos db),
              db_redemptions := db_redemptions db
                @ [\<lparr>rd_promo = pm_id p, rd_user = u, rd_redeemed_at = now, rd_applied_at = None\<rparr>]\<rparr>"
  using assms by (auto simp: count_redemption_def counted_def [abs_def] split: if_splits)

lemma redeem_promo_code_Inr:
  assumes "redeem_promo_code now u c db = Inr (s, db')"
  obtains p db1 db2 ns where
    "find (\<lambda>p. pm_code p = to_uppercase (trim c)) (db_promos db) = Some p" "pm_disabled_at p = None"
    "promo_checks now u p db = Inr ()" "count_redemption now u p db = Inr db1"
    "apply_promo now u (to_uppercase (trim c)) p (load_settings db) db1 = Inr (ns, db2)"
    "db' = notify_all ns db2" "rs_kind s = pm_kind p" "rs_credits s = pm_credits p"
  using assms
  by (auto simp: redeem_promo_code_def Let_def opt_filter_eq_Some split: option.splits)

text \<open>What applying a code may touch: the account's subscription and its credits.\<close>

lemma apply_promo_frame:
  assumes "apply_promo now u c p st db = Inr (ns, db')"
  shows "db_promos db' = db_promos db" "db_redemptions db' = db_redemptions db"
    "db_users db' = db_users db" "db_plans db' = db_plans db" "db_referrals db' = db_referrals db"
    "db_settings db' = db_settings db" "\<And>v. v \<noteq> u \<Longrightarrow> db_subs db' v = db_subs db v"
  using assms
  by (auto simp: apply_promo_def Let_def sub_frame_def split: promo_kind.splits
      dest!: grant_frame extend_trial_frame add_credits_Inr)

text \<open>
  A redeemed code was usable: it exists under that name, is enabled, has started and not
  expired, had a redemption left, and an account it is restricted to new accounts is new.
  The account is remembered as having used it.
\<close>

theorem redeemed_code_was_usable:
  assumes "redeem_promo_code now u c db = Inr (s, db')"
  shows "\<exists>p \<in> set (db_promos db). pm_code p = to_uppercase (trim c) \<and> pm_disabled_at p = None
    \<and> is_none_or (pm_starts_at p) (\<lambda>t. t \<le> now) \<and> is_none_or (pm_expires_at p) (\<lambda>t. now < t)
    \<and> is_none_or (pm_max_redemptions p) (\<lambda>m. pm_redemptions_count p < m)
    \<and> (pm_new_users_only p \<longrightarrow> is_some_and (user db u)
         (\<lambda>r. unwrap_or (pm_starts_at p) (pm_created_at p) \<le> us_created_at r))
    \<and> (\<exists>r \<in> set (db_redemptions db'). rd_promo r = pm_id p \<and> rd_user r = u)"
  using assms
proof (cases rule: redeem_promo_code_Inr)
  case (1 p db1 db2 ns)
  have p: "p \<in> set (db_promos db)" "pm_code p = to_uppercase (trim c)"
    using 1(1) by (auto simp: find_Some_iff)
  have "\<exists>r \<in> set (db_redemptions db'). rd_promo r = pm_id p \<and> rd_user r = u"
    using apply_promo_frame(2) [OF 1(5)] count_redemption_Inr(3) [OF 1(4)] 1(6) by simp
  then show ?thesis
    using p 1(2) promo_checks_Inr [OF 1(3)] count_redemption_Inr(1) [OF 1(4)]
    by (intro bexI [of _ p]) auto
qed

definition welcome_code :: promo_row where
  "welcome_code =
     \<lparr>pm_id = 50, pm_code = ''WELCOME1'', pm_kind = Credits, pm_plan_code = None,
      pm_duration_days = None, pm_credits = Some 40, pm_discount_percent = None,
      pm_max_redemptions = Some 2, pm_redemptions_count = 0, pm_new_users_only = False,
      pm_starts_at = None, pm_expires_at = None, pm_disabled_at = None, pm_created_at = 0,
      pm_updated_at = 0\<rparr>"

lemma welcome_redeemed:
  "\<exists>s db'. redeem_promo_code 5 7 '' welcome1'' (db0\<lparr>db_promos := [welcome_code]\<rparr>) = Inr (s, db')"
proof -
  have "\<not> isl (redeem_promo_code 5 7 '' welcome1'' (db0\<lparr>db_promos := [welcome_code]\<rparr>))" by code_simp
  from ok_result [OF this] show ?thesis .
qed

theorem redeemed_code_was_usable_witness:
  "\<exists>s db'. redeem_promo_code 5 7 '' welcome1'' (db0\<lparr>db_promos := [welcome_code]\<rparr>) = Inr (s, db')
     \<and> (\<exists>r \<in> set (db_redemptions db'). rd_user r = 7)"
proof -
  from welcome_redeemed obtain s db' where
    r: "redeem_promo_code 5 7 '' welcome1'' (db0\<lparr>db_promos := [welcome_code]\<rparr>) = Inr (s, db')" by blast
  from redeemed_code_was_usable [OF r] r show ?thesis by blast
qed

text \<open>
  The books of the promo codes: ids and names are unique, a counter is the number of its
  redemptions and within its limit, and nobody redeemed a code twice.
\<close>

definition promos_ok :: "db \<Rightarrow> bool" where
  "promos_ok db \<longleftrightarrow>
     distinct (map pm_id (db_promos db))
     \<and> distinct (map (\<lambda>r. (rd_promo r, rd_user r)) (db_redemptions db))
     \<and> (\<forall>p \<in> set (db_promos db).
          pm_redemptions_count p = int (length (filter (\<lambda>r. rd_promo r = pm_id p) (db_redemptions db)))
          \<and> is_none_or (pm_max_redemptions p) (\<lambda>m. pm_redemptions_count p \<le> m))"

lemma counted_fields [simp]:
  "pm_id (counted now p q) = pm_id q" "pm_max_redemptions (counted now p q) = pm_max_redemptions q"
  "pm_redemptions_count (counted now p q) = pm_redemptions_count q + (if pm_id q = pm_id p then 1 else 0)"
  by (simp_all add: counted_def)

lemma count_redemption_ok:
  assumes ok: "promos_ok db" and p: "p \<in> set (db_promos db)"
    and free: "\<not> (\<exists>r \<in> set (db_redemptions db). rd_promo r = pm_id p \<and> rd_user r = u)"
    and c: "count_redemption now u p db = Inr db'"
  shows "promos_ok db'"
proof -
  note c' = count_redemption_Inr [OF c]
  have prm: "db_promos db' = map (counted now p) (db_promos db)" unfolding c'(3) by simp
  have uniq: "q = p" if "q \<in> set (db_promos db)" "pm_id q = pm_id p" for q
    using ok p that by (auto simp: promos_ok_def distinct_map inj_on_def)
  have "pm_redemptions_count (counted now p q)
        = int (length (filter (\<lambda>r. rd_promo r = pm_id q) (db_redemptions db')))
      \<and> is_none_or (pm_max_redemptions q) (\<lambda>m. pm_redemptions_count (counted now p q) \<le> m)"
    if q: "q \<in> set (db_promos db)" for q
  proof (cases "pm_id q = pm_id p")
    case True
    then have "q = p" using uniq q by blast
    then show ?thesis
      using ok p c'(1) unfolding c'(3) by (cases "pm_max_redemptions p") (simp_all add: promos_ok_def)
  next
    case False
    then show ?thesis using ok q unfolding c'(3) promos_ok_def by force
  qed
  then have "\<forall>q \<in> set (db_promos db').
      pm_redemptions_count q = int (length (filter (\<lambda>r. rd_promo r = pm_id q) (db_redemptions db')))
      \<and> is_none_or (pm_max_redemptions q) (\<lambda>m. pm_redemptions_count q \<le> m)"
    by (simp only: prm set_map ball_simps counted_fields(1,2)) blast
  moreover have "distinct (map pm_id (db_promos db'))" "distinct (map (\<lambda>r. (rd_promo r, rd_user r)) (db_redemptions db'))"
    using ok free unfolding c'(3) by (auto simp: promos_ok_def comp_def)
  ultimately show ?thesis unfolding promos_ok_def by blast
qed

lemma promos_ok_cong:
  "db_promos db' = db_promos db \<Longrightarrow> db_redemptions db' = db_redemptions db \<Longrightarrow> promos_ok db' = promos_ok db"
  by (simp add: promos_ok_def)

lemma redeem_promos_ok:
  assumes "promos_ok db" and "redeem_promo_code now u c db = Inr (s, db')"
  shows "promos_ok db'"
  using assms(2)
proof (cases rule: redeem_promo_code_Inr)
  case (1 p db1 db2 ns)
  have "p \<in> set (db_promos db)" using 1(1) by (auto simp: find_Some_iff)
  from count_redemption_ok [OF assms(1) this promo_checks_Inr(3) [OF 1(3)] 1(4)]
  show ?thesis
    using promos_ok_cong [of db' db1] apply_promo_frame(1,2) [OF 1(5)] 1(6) by simp
qed

text \<open>A code that was used once stays used by that account.\<close>

lemma redeemed_again:
  assumes r: "redeem_promo_code now u c db = Inr (s, db')"
    and d: "distinct (map pm_code (db_promos db))"
  shows "isl (redeem_promo_code later u c db')"
  using r
proof (cases rule: redeem_promo_code_Inr)
  case (1 p db1 db2 ns)
  have p: "p \<in> set (db_promos db)" "pm_code p = to_uppercase (trim c)"
    using 1(1) by (auto simp: find_Some_iff)
  note cr = count_redemption_Inr(3) [OF 1(4)]
  have pr: "db_promos db' = map (counted now p) (db_promos db)"
    and rd: "\<exists>r \<in> set (db_redemptions db'). rd_promo r = pm_id p \<and> rd_user r = u"
    using apply_promo_frame(1,2) [OF 1(5)] cr 1(6) by simp_all
  have code: "pm_code (counted now p q) = pm_code q" for q by (simp add: counted_def)
  show ?thesis
  proof (rule ccontr)
    assume "\<not> isl (redeem_promo_code later u c db')"
    then obtain s2 db3 where "redeem_promo_code later u c db' = Inr (s2, db3)" by (auto dest: ok_result)
    then show False
    proof (cases rule: redeem_promo_code_Inr)
      case (1 q db4 db5 ns2)
      from 1(1) obtain q0 where q: "q = counted now p q0" "q0 \<in> set (db_promos db)"
        "pm_code q0 = to_uppercase (trim c)"
        unfolding pr by (auto simp: find_Some_iff code)
      then have "q0 = p" using d p by (auto simp: distinct_map inj_on_def)
      then have "pm_id q = pm_id p" using q(1) by simp
      with promo_checks_Inr(3) [OF 1(3)] rd show False by simp
    qed
  qed
qed

text \<open>
  Promo codes are accounted for: a redemption keeps every counter equal to the number of
  redemptions and within the code's limit, and no account redeems a code twice.
\<close>

theorem promo_codes_accounted:
  assumes "promos_ok db" and "distinct (map pm_code (db_promos db))"
    and "redeem_promo_code now u c db = Inr (s, db')"
  shows "promos_ok db' \<and> isl (redeem_promo_code later u c db')"
  using redeem_promos_ok [OF assms(1,3)] redeemed_again [OF assms(3,2)] by simp

theorem promo_codes_accounted_witness:
  "\<exists>s db'. redeem_promo_code 5 7 '' welcome1'' (db0\<lparr>db_promos := [welcome_code]\<rparr>) = Inr (s, db')
     \<and> promos_ok db' \<and> isl (redeem_promo_code 6 7 '' welcome1'' db')"
proof -
  from welcome_redeemed obtain s db' where
    r: "redeem_promo_code 5 7 '' welcome1'' (db0\<lparr>db_promos := [welcome_code]\<rparr>) = Inr (s, db')" by blast
  have "promos_ok (db0\<lparr>db_promos := [welcome_code]\<rparr>)"
    "distinct (map pm_code (db_promos (db0\<lparr>db_promos := [welcome_code]\<rparr>)))"
    by code_simp+
  from promo_codes_accounted [OF this r, of 6] r show ?thesis by blast
qed

end
