(* ===== verification/ReferralLaws.thy ===== *)
theory ReferralLaws
  imports CreditLaws
begin

text \<open>
  Referrals. A referral moves along one state machine (pending, then rewarded or rejected;
  a reward can be taken back, a rejection is final), and the ledger books each payment of a
  referral at most once. Both are laws of one locale, \<open>referral_op\<close>, which the three
  operations of \<^verbatim>\<open>src/src/services/billing.rs\<close> interpret; \<open>referral_run\<close> is what
  any interleaving of them does.
\<close>

section \<open>The state machine\<close>

inductive referral_move :: "referral_status \<Rightarrow> referral_status \<Rightarrow> bool" where
  stay: "referral_move s s"
| reward: "referral_move RefPending RefRewarded"
| reject: "referral_move RefPending RefRejected"
| take_back: "referral_move RefRewarded RefRejected"

inductive_cases referral_move_RejectedE: "referral_move RefRejected s"
inductive_simps referral_move_simps [simp]:
  "referral_move RefRejected s" "referral_move s RefPending" "referral_move RefRewarded s"

lemma referral_move_trans [trans]: "referral_move a b \<Longrightarrow> referral_move b c \<Longrightarrow> referral_move a c"
  by (auto elim!: referral_move.cases intro: referral_move.intros)

definition referral_evolves :: "referral_row \<Rightarrow> referral_row \<Rightarrow> bool" where
  "referral_evolves r r' \<longleftrightarrow>
     rr_id r' = rr_id r \<and> rr_referrer r' = rr_referrer r \<and> rr_referred r' = rr_referred r
     \<and> rr_created_at r' = rr_created_at r \<and> referral_move (rr_status r) (rr_status r')
     \<and> (rr_referred_rewarded_at r \<noteq> None \<longrightarrow> rr_referred_rewarded_at r' = rr_referred_rewarded_at r)"

definition referrals_evolve :: "db \<Rightarrow> db \<Rightarrow> bool" where
  "referrals_evolve db db' \<longleftrightarrow> list_all2 referral_evolves (db_referrals db) (db_referrals db')"

lemma referral_evolves_refl [simp]: "referral_evolves r r"
  by (simp add: referral_evolves_def referral_move.stay)

lemma referral_evolves_trans: "referral_evolves a b \<Longrightarrow> referral_evolves b c \<Longrightarrow> referral_evolves a c"
  by (auto simp: referral_evolves_def intro: referral_move_trans)

lemma referrals_evolve_same: "db_referrals db' = db_referrals db \<Longrightarrow> referrals_evolve db db'"
  by (simp add: referrals_evolve_def list.rel_refl)

lemma referrals_evolve_trans [trans]:
  "referrals_evolve a b \<Longrightarrow> referrals_evolve b c \<Longrightarrow> referrals_evolve a c"
  unfolding referrals_evolve_def by (rule list_all2_trans [of referral_evolves referral_evolves]) (auto intro: referral_evolves_trans)

lemma update_evolves:
  assumes "\<And>r. P r \<Longrightarrow> referral_evolves r (f r)"
  shows "referrals_evolve db (db\<lparr>db_referrals := map (\<lambda>r. if P r then f r else r) (db_referrals db)\<rparr>)"
  using assms by (simp add: referrals_evolve_def list_all2_map2 list_all2_same)

lemma referrals_evolve_ids:
  assumes "referrals_evolve db db'"
  shows "map rr_id (db_referrals db') = map rr_id (db_referrals db)"
  using assms unfolding referrals_evolve_def
  by (induction rule: list_all2_induct) (auto simp: referral_evolves_def)

lemma referrals_evolve_final:
  assumes "referrals_evolve db db'" and "distinct (map rr_id (db_referrals db))"
    and "r \<in> set (db_referrals db)" and "r' \<in> set (db_referrals db')" and "rr_id r' = rr_id r"
  shows "referral_evolves r r'"
proof -
  from assms(1,3) obtain q where q: "q \<in> set (db_referrals db')" "referral_evolves r q"
    unfolding referrals_evolve_def by (metis in_set_conv_nth list_all2_conv_all_nth)
  then have "rr_id q = rr_id r'" using assms(5) by (simp add: referral_evolves_def)
  moreover have "distinct (map rr_id (db_referrals db'))"
    using assms(2) referrals_evolve_ids [OF assms(1)] by simp
  ultimately have "q = r'" using q(1) assms(4) by (simp add: distinct_map inj_on_def)
  with q(2) show ?thesis by simp
qed

section \<open>The books\<close>

text \<open>The entries a referral has under one reason.\<close>

definition payments :: "db \<Rightarrow> string \<Rightarrow> uuid \<Rightarrow> ledger_row list" where
  "payments db reason i = filter (\<lambda>e. lg_reason e = reason \<and> lg_reference_id e = Some i) (db_ledger db)"

definition row_books :: "db \<Rightarrow> referral_row \<Rightarrow> bool" where
  "row_books db r \<longleftrightarrow>
     length (payments db ''referral_referred'' (rr_id r)) \<le> (if rr_referred_rewarded_at r = None then 0 else 1)
     \<and> length (payments db ''referral_referrer'' (rr_id r)) \<le> (if rr_status r = RefPending then 0 else 1)
     \<and> length (payments db ''referral_reversed'' (rr_id r)) \<le> (if rr_status r = RefRejected then 1 else 0)
     \<and> (\<forall>e \<in> set (payments db ''referral_referred'' (rr_id r)). lg_user e = rr_referred r)
     \<and> (\<forall>e \<in> set (payments db ''referral_referrer'' (rr_id r)). lg_user e = rr_referrer r)"

definition referral_books :: "db \<Rightarrow> bool" where
  "referral_books db \<longleftrightarrow>
     distinct (map rr_id (db_referrals db)) \<and> distinct (map rr_referred (db_referrals db))
     \<and> (\<forall>r \<in> set (db_referrals db). row_books db r)"

lemma payments_append:
  "db_ledger db' = db_ledger db @ es \<Longrightarrow>
   payments db' reason i = payments db reason i
     @ filter (\<lambda>e. lg_reason e = reason \<and> lg_reference_id e = Some i) es"
  by (simp add: payments_def)

lemma payments_entry:
  "filter (\<lambda>e. lg_reason e = reason \<and> lg_reference_id e = Some i) (entry_of now u a why ref memo actor)
     = (if reason = why \<and> ref = Some i then entry_of now u a why ref memo actor else [])"
  by (auto simp: entry_of_def)

lemma entry_of_user: "e \<in> set (entry_of now u a why ref memo actor) \<Longrightarrow> lg_user e = u"
  and entry_of_ref: "e \<in> set (entry_of now u a why ref memo actor) \<Longrightarrow> lg_reference_id e = ref"
  and entry_of_reason: "e \<in> set (entry_of now u a why ref memo actor) \<Longrightarrow> lg_reason e = why"
  and length_entry_of: "length (entry_of now u a why ref memo actor) \<le> 1"
  by (auto simp: entry_of_def split: if_splits)

lemma same_referral:
  "distinct (map rr_id (db_referrals db)) \<Longrightarrow> r \<in> set (db_referrals db) \<Longrightarrow> q \<in> set (db_referrals db) \<Longrightarrow>
   rr_id q = rr_id r \<Longrightarrow> q = r"
  by (auto simp: distinct_map inj_on_def)

text \<open>One referral changes and gets entries of its own: the books stay right.\<close>

lemma books_step:
  assumes ok: "referral_books db" and r0: "r0 \<in> set (db_referrals db)" "P r0"
    and P: "\<And>r. P r \<Longrightarrow> rr_id r = rr_id r0" and ev: "referral_evolves r0 (f r0)"
    and refs: "db_referrals db' = map (\<lambda>r. if P r then f r else r) (db_referrals db)"
    and led: "db_ledger db' = db_ledger db @ es"
    and es: "\<forall>e \<in> set es. lg_reference_id e = Some (rr_id r0)"
    and new: "row_books db' (f r0)"
  shows "referral_books db'" and "referrals_evolve db db'"
proof -
  have ids: "distinct (map rr_id (db_referrals db))" using ok by (simp add: referral_books_def)
  have only: "P r \<longleftrightarrow> r = r0" if "r \<in> set (db_referrals db)" for r
    using same_referral [OF ids r0(1) that] P [of r] r0(2) by blast
  have step: "referral_evolves r (if P r then f r else r)" if "r \<in> set (db_referrals db)" for r
    using only [OF that] ev by auto
  then show evolve: "referrals_evolve db db'"
    unfolding referrals_evolve_def refs by (simp add: list_all2_map2 list_all2_same)
  have referred: "map rr_referred (db_referrals db') = map rr_referred (db_referrals db)"
    unfolding refs using step by (auto simp: referral_evolves_def)
  have "row_books db' (if P r then f r else r)" if r: "r \<in> set (db_referrals db)" for r
  proof (cases "P r")
    case True
    then show ?thesis using only [OF r] new by simp
  next
    case False
    then have other: "rr_id r \<noteq> rr_id r0" using only [OF r] same_referral [OF ids r0(1) r] by auto
    have "filter (\<lambda>e. lg_reason e = reason \<and> lg_reference_id e = Some (rr_id r)) es = []" for reason
      using es other by (auto simp: filter_empty_conv)
    then have "payments db' reason (rr_id r) = payments db reason (rr_id r)" for reason
      using payments_append [OF led] by simp
    then show ?thesis using ok r False by (simp add: referral_books_def row_books_def)
  qed
  then have "\<forall>r \<in> set (db_referrals db'). row_books db' r"
    by (simp only: refs set_map ball_simps) blast
  then show "referral_books db'"
    using ok referred referrals_evolve_ids [OF evolve] by (simp only: referral_books_def)
qed

section \<open>What each operation did\<close>

definition change_referrals ::
  "(referral_row \<Rightarrow> bool) \<Rightarrow> (referral_row \<Rightarrow> referral_row) \<Rightarrow> db \<Rightarrow> db"
where
  "change_referrals P f db =
     db\<lparr>db_referrals := map (\<lambda>r. if P r then f r else r) (db_referrals db)\<rparr>"

lemma update_referrals_eq:
  "update_referrals P f db = (length (filter P (db_referrals db)), change_referrals P f db)"
  by (simp add: update_referrals_def change_referrals_def)

definition rejected_with :: "string \<Rightarrow> referral_row \<Rightarrow> referral_row" where
  "rejected_with memo r = r\<lparr>rr_status := RefRejected, rr_note := Some memo\<rparr>"

lemma reject_referral_eq:
  "reject_referral i memo db =
     Inr ((), change_referrals (\<lambda>r. rr_id r = i \<and> rr_status r = RefPending) (rejected_with memo) db)"
  by (simp add: reject_referral_def update_referrals_eq rejected_with_def [abs_def])

lemma pending_referral_Some:
  "pending_referral db u = Some r \<Longrightarrow>
   r \<in> set (db_referrals db) \<and> rr_referred r = u \<and> rr_status r = RefPending"
  by (auto simp: pending_referral_def find_Some_iff)

lemma qualify_Inr:
  assumes "qualify_referral now u db = Inr (x, db')"
  obtains
    (idle) "db' = db"
  | (rejected) r memo where "pending_referral db u = Some r"
      "db' = change_referrals (\<lambda>q. rr_id q = rr_id r \<and> rr_status q = RefPending) (rejected_with memo) db"
  | (paid) r q where "pending_referral db u = Some r" "rr_referrer r \<noteq> u"
      "q \<in> set (db_referrals db)" "rr_id q = rr_id r" "rr_status q = RefPending" "rr_referred_rewarded_at q = None"
      "db_referrals db' = db_referrals (change_referrals
         (\<lambda>q. rr_id q = rr_id r \<and> rr_status q = RefPending \<and> rr_referred_rewarded_at q = None)
         (\<lambda>q. q\<lparr>rr_referred_rewarded_at := Some now\<rparr>) db)"
      "db_ledger db' = db_ledger db
         @ entry_of now u (rf_referred_credits (bs_referral (load_settings db))) ''referral_referred''
             (Some (rr_id r)) None None"
      "db_subs db' = db_subs db" "db_users db' = db_users db" "db_plans db' = db_plans db"
      "db_promos db' = db_promos db" "db_redemptions db' = db_redemptions db"
proof (cases "pending_referral db u")
  case None
  with assms show thesis by - (rule idle, simp add: qualify_referral_def)
next
  case (Some r)
  let ?P = "\<lambda>q. rr_id q = rr_id r \<and> rr_status q = RefPending \<and> rr_referred_rewarded_at q = None"
  let ?c = "rf_referred_credits (bs_referral (load_settings db))"
  let ?db1 = "change_referrals ?P (\<lambda>q. q\<lparr>rr_referred_rewarded_at := Some now\<rparr>) db"
  consider (rej) memo where "reject_referral (rr_id r) memo db = Inr (x, db')"
    | (same) "db' = db"
    | (pay) db1 ns where "filter ?P (db_referrals db) \<noteq> []" "rr_referrer r \<noteq> u"
        "add_credits now u ?c ''referral_referred'' (Some (rr_id r)) None None ?db1 = Inr db1"
        "db' = notify_all ns db1"
  proof (cases "rf_enabled (bs_referral (load_settings db))")
    case False
    with assms Some show thesis by - (rule rej, simp add: qualify_referral_def Let_def)
  next
    case True
    with assms Some obtain self where
      self: "(if rr_referrer r = u then Inr True else same_mailbox db (rr_referrer r) u) = Inr self"
      and rest: "(if self then reject_referral (rr_id r) ''self_referral'' db
        else if length (filter ?P (db_referrals db)) = 0 then Inr ((), db)
        else rbind (add_credits now u ?c ''referral_referred'' (Some (rr_id r)) None None ?db1) (\<lambda>db.
          Inr ((), if ?c > 0 then notify_all [credits_granted u ?c ''referral_referred''] db else db)))
        = Inr (x, db')"
      by (auto simp only: qualify_referral_def Let_def update_referrals_eq option.case prod.case
          rbind_eq_Inr_iff if_False not_True_eq_False)
    show thesis
    proof (cases "self \<or> filter ?P (db_referrals db) = []")
      case True
      with rest rej same show thesis by (auto split: if_splits)
    next
      case False
      with rest obtain db1 where
        a: "add_credits now u ?c ''referral_referred'' (Some (rr_id r)) None None ?db1 = Inr db1"
        and d: "db' = (if ?c > 0 then notify_all [credits_granted u ?c ''referral_referred''] db1 else db1)"
        by auto
      have "db' = notify_all (if ?c > 0 then [credits_granted u ?c ''referral_referred''] else []) db1"
        using d by (simp add: notify_all_def)
      moreover have "rr_referrer r \<noteq> u" using self False by (auto split: if_splits)
      ultimately show thesis using pay a False by blast
    qed
  qed
  then show thesis
  proof cases
    case (rej memo)
    then show thesis using Some by (intro rejected) (auto simp: reject_referral_eq)
  next
    case same
    then show thesis by (rule idle)
  next
    case (pay db1 ns)
    then obtain q where q: "q \<in> set (db_referrals db)" "?P q" by (auto simp: filter_empty_conv)
    show thesis
      by (rule paid [OF Some pay(2) q(1)])
        (use q add_credits_Inr [OF pay(3)] pay(4) in \<open>simp_all add: change_referrals_def\<close>)
  qed
qed

definition rewarded_since :: "time \<Rightarrow> uuid \<Rightarrow> db \<Rightarrow> nat" where
  "rewarded_since start v db =
     length (filter (\<lambda>r. rr_referrer r = v \<and> rr_status r = RefRewarded
                         \<and> is_some_and (rr_rewarded_at r) (\<lambda>t. t \<ge> start)) (db_referrals db))"

lemma reward_Inr:
  assumes "reward_referrer_on_payment ms now u db = Inr (x, db')"
  obtains
    (idle) "db' = db"
  | (rejected) r memo where "pending_referral db u = Some r"
      "db' = change_referrals (\<lambda>q. rr_id q = rr_id r \<and> rr_status q = RefPending) (rejected_with memo) db"
  | (paid) r where "pending_referral db u = Some r" "rr_referrer r \<noteq> u"
      "int (rewarded_since (ms now) (rr_referrer r) db) < rf_max_rewarded_per_month (bs_referral (load_settings db))"
      "db_referrals db' = db_referrals (change_referrals (\<lambda>q. rr_id q = rr_id r \<and> rr_status q = RefPending)
         (\<lambda>q. q\<lparr>rr_status := RefRewarded, rr_rewarded_at := Some now\<rparr>) db)"
      "db_ledger db' = db_ledger db
         @ entry_of now (rr_referrer r) (rf_referrer_credits (bs_referral (load_settings db)))
             ''referral_referrer'' (Some (rr_id r)) None None"
      "db_subs db' = db_subs db" "db_users db' = db_users db" "db_plans db' = db_plans db"
      "db_promos db' = db_promos db" "db_redemptions db' = db_redemptions db"
proof (cases "pending_referral db u")
  case None
  with assms show thesis by - (rule idle, simp add: reward_referrer_on_payment_def)
next
  case (Some r)
  let ?P = "\<lambda>q. rr_id q = rr_id r \<and> rr_status q = RefPending"
  let ?st = "bs_referral (load_settings db)"
  let ?c = "rf_referrer_credits ?st"
  let ?db1 = "change_referrals ?P (\<lambda>q. q\<lparr>rr_status := RefRewarded, rr_rewarded_at := Some now\<rparr>) db"
  note unf = assms [unfolded reward_referrer_on_payment_def Let_def update_referrals_eq Some
      rewarded_since_def [symmetric] option.case prod.case]
  show thesis
  proof (cases "rf_enabled ?st \<and> rr_referrer r \<noteq> u
      \<and> int (rewarded_since (ms now) (rr_referrer r) db) < rf_max_rewarded_per_month ?st")
    case False
    then obtain memo where "reject_referral (rr_id r) memo db = Inr (x, db')"
      using unf by (auto split: if_splits)
    then show thesis using Some by (intro rejected) (auto simp: reject_referral_eq)
  next
    case True
    have "filter ?P (db_referrals db) \<noteq> []"
      using pending_referral_Some [OF Some] by (auto simp: filter_empty_conv)
    with True unf obtain db1 where
      a: "add_credits now (rr_referrer r) ?c ''referral_referrer'' (Some (rr_id r)) None None ?db1 = Inr db1"
      and d: "db' = (if ?c > 0 then notify_all [credits_granted (rr_referrer r) ?c ''referral_referrer''] db1 else db1)"
      by auto
    show thesis
      by (rule paid [OF Some]) (use True d add_credits_Inr [OF a] in \<open>auto simp: change_referrals_def\<close>)
  qed
qed

lemma reverse_Inr:
  assumes "reverse_referral_reward now u reason db = Inr (x, db')"
  obtains
    (idle) "db' = db" "\<not> (\<exists>r \<in> set (db_referrals db). rr_referred r = u \<and> rr_status r = RefRewarded
         \<and> is_some_and (rr_rewarded_at r) (\<lambda>t. t \<ge> now - days REFERRAL_CLAWBACK_DAYS))"
  | (reversed) r where "r \<in> set (db_referrals db)" "rr_referred r = u" "rr_status r = RefRewarded"
      "is_some_and (rr_rewarded_at r) (\<lambda>t. t \<ge> now - days REFERRAL_CLAWBACK_DAYS)"
      "db_referrals db' = db_referrals (change_referrals (\<lambda>q. rr_id q = rr_id r \<and> rr_status q = RefRewarded)
         (rejected_with (''reward_reversed:'' @ reason)) db)"
      "db_ledger db' = db_ledger db
         @ (if granted_for db (rr_referrer r) (rr_id r) > 0 then
              entry_of now (rr_referrer r) (- (min (granted_for db (rr_referrer r) (rr_id r)) 2147483647))
                ''referral_reversed'' (Some (rr_id r)) (Some reason) None
            else [])"
      "db_subs db' = db_subs db" "db_users db' = db_users db" "db_plans db' = db_plans db"
      "db_promos db' = db_promos db" "db_redemptions db' = db_redemptions db"
proof -
  let ?Q = "\<lambda>r. rr_referred r = u \<and> rr_status r = RefRewarded
     \<and> is_some_and (rr_rewarded_at r) (\<lambda>t. t \<ge> now - days REFERRAL_CLAWBACK_DAYS)"
  show thesis
  proof (cases "find ?Q (db_referrals db)")
    case None
    with assms have "db' = db" by (simp add: reverse_referral_reward_def)
    moreover from None have "\<not> (\<exists>r \<in> set (db_referrals db). ?Q r)" by (auto simp: find_None_iff)
    ultimately show thesis by (rule idle)
  next
    case (Some r)
    then have r: "r \<in> set (db_referrals db)" "?Q r" by (auto simp: find_Some_iff)
    let ?P = "\<lambda>q. rr_id q = rr_id r \<and> rr_status q = RefRewarded"
    let ?db1 = "change_referrals ?P (\<lambda>q. q\<lparr>rr_status := RefRejected, rr_note := Some (''reward_reversed:'' @ reason)\<rparr>) db"
    let ?g = "granted_for db (rr_referrer r) (rr_id r)"
    have "filter ?P (db_referrals db) \<noteq> []" using r by (auto simp: filter_empty_conv)
    note unf = assms [unfolded reverse_referral_reward_def Let_def update_referrals_eq Some option.case prod.case]
    have "db_ledger db' = db_ledger ?db1
         @ (if ?g > 0 then
              entry_of now (rr_referrer r) (- (min ?g 2147483647)) ''referral_reversed'' (Some (rr_id r)) (Some reason) None
            else [])
       \<and> db_referrals db' = db_referrals ?db1 \<and> db_subs db' = db_subs ?db1 \<and> db_users db' = db_users ?db1
       \<and> db_plans db' = db_plans ?db1 \<and> db_promos db' = db_promos ?db1 \<and> db_redemptions db' = db_redemptions ?db1"
      using unf \<open>filter ?P (db_referrals db) \<noteq> []\<close> by (auto dest!: add_credits_Inr split: if_splits)
    then show thesis
      by (intro reversed [OF r(1)]) (use r(2) in \<open>auto simp: change_referrals_def rejected_with_def\<close>)
  qed
qed

section \<open>The contract of the three operations\<close>

lemma books_reject:
  assumes "referral_books db" and "r \<in> set (db_referrals db)" and "rr_status r = s0"
    and "s0 = RefPending"
    and "db' = change_referrals (\<lambda>q. rr_id q = rr_id r \<and> rr_status q = s0) (rejected_with memo) db"
  shows "referral_books db' \<and> referrals_evolve db db'"
proof -
  have "row_books db r" using assms(1,2) by (simp add: referral_books_def)
  then have new: "row_books db' (rejected_with memo r)"
    unfolding assms(5)
    using assms(3,4) by (auto simp: row_books_def rejected_with_def payments_def change_referrals_def)
  have ev: "referral_evolves r (rejected_with memo r)"
    using assms(3,4) by (auto simp: referral_evolves_def rejected_with_def intro: referral_move.intros)
  show ?thesis
    using books_step [OF assms(1,2), of "\<lambda>q. rr_id q = rr_id r \<and> rr_status q = s0" "rejected_with memo" db' "[]"]
      new ev assms(3,5) by (simp add: change_referrals_def)
qed

lemma books_same: "referral_books db \<Longrightarrow> referral_books db \<and> referrals_evolve db db"
  by (simp add: referrals_evolve_same)

lemma qualify_books:
  assumes ok: "referral_books db" and q: "qualify_referral now u db = Inr (x, db')"
  shows "referral_books db' \<and> referrals_evolve db db'"
  using q
proof (cases rule: qualify_Inr)
  case (rejected r memo)
  then show ?thesis using books_reject [OF ok] pending_referral_Some by blast
next
  case (paid r q)
  have ids: "distinct (map rr_id (db_referrals db))" using ok by (simp add: referral_books_def)
  have "q = r" using same_referral [OF ids _ paid(3,4)] pending_referral_Some [OF paid(1)] by blast
  then have u: "rr_referred q = u" using pending_referral_Some [OF paid(1)] by simp
  let ?f = "\<lambda>q. q\<lparr>rr_referred_rewarded_at := Some now\<rparr>"
  have "row_books db q" using ok paid(3) by (simp add: referral_books_def)
  then have "row_books db' (?f q)"
    using paid(4-6) u length_entry_of
    by (auto simp: row_books_def payments_append [OF paid(8)] payments_entry dest: entry_of_user)
  then show ?thesis
    using books_step [OF ok paid(3), of "\<lambda>q. rr_id q = rr_id r \<and> rr_status q = RefPending \<and> rr_referred_rewarded_at q = None" ?f, OF _ _ _ _ paid(8)]
      paid(4-7) entry_of_ref by (simp add: change_referrals_def referral_evolves_def referral_move.stay)
qed (use books_same [OF ok] in simp)

lemma reward_books:
  assumes ok: "referral_books db" and q: "reward_referrer_on_payment ms now u db = Inr (x, db')"
  shows "referral_books db' \<and> referrals_evolve db db'"
  using q
proof (cases rule: reward_Inr)
  case (rejected r memo)
  then show ?thesis using books_reject [OF ok] pending_referral_Some by blast
next
  case (paid r)
  note r = pending_referral_Some [OF paid(1)]
  let ?f = "\<lambda>q. q\<lparr>rr_status := RefRewarded, rr_rewarded_at := Some now\<rparr>"
  have "row_books db r" using ok r by (simp add: referral_books_def)
  then have "row_books db' (?f r)"
    using r length_entry_of
    by (auto simp: row_books_def payments_append [OF paid(5)] payments_entry dest: entry_of_user)
  then show ?thesis
    using books_step [OF ok, of r "\<lambda>q. rr_id q = rr_id r \<and> rr_status q = RefPending" ?f, OF _ _ _ _ _ paid(5)]
      r paid(4) entry_of_ref by (simp add: change_referrals_def referral_evolves_def referral_move.reward)
qed (use books_same [OF ok] in simp)

lemma reverse_books:
  assumes ok: "referral_books db" and q: "reverse_referral_reward now u reason db = Inr (x, db')"
  shows "referral_books db' \<and> referrals_evolve db db'"
  using q
proof (cases rule: reverse_Inr)
  case (reversed r)
  let ?f = "rejected_with (''reward_reversed:'' @ reason)"
  have "row_books db r" using ok reversed(1) by (simp add: referral_books_def)
  then have "row_books db' (?f r)"
    using reversed(3) length_entry_of
    by (auto simp: row_books_def rejected_with_def payments_append [OF reversed(6)] payments_entry
        dest: entry_of_reason)
  moreover have "\<forall>e \<in> set (if granted_for db (rr_referrer r) (rr_id r) > 0 then
              entry_of now (rr_referrer r) (- (min (granted_for db (rr_referrer r) (rr_id r)) 2147483647))
                ''referral_reversed'' (Some (rr_id r)) (Some reason) None
            else []). lg_reference_id e = Some (rr_id r)"
    using entry_of_ref by auto
  ultimately show ?thesis
    using books_step [OF ok reversed(1), of "\<lambda>q. rr_id q = rr_id r \<and> rr_status q = RefRewarded" ?f, OF _ _ _ _ reversed(6)]
      reversed(3,5) by (simp add: change_referrals_def rejected_with_def referral_evolves_def)
qed (use books_same [OF ok] in simp)

locale referral_op =
  fixes op :: "time \<Rightarrow> uuid \<Rightarrow> db \<Rightarrow> api_error + (unit \<times> db)"
  assumes books: "referral_books db \<Longrightarrow> op now u db = Inr (x, db') \<Longrightarrow>
    referral_books db' \<and> referrals_evolve db db'"
begin

lemma attempts_books:
  "referral_books db \<Longrightarrow>
   referral_books (fold (attempt op) calls db) \<and> referrals_evolve db (fold (attempt op) calls db)"
proof (induction calls arbitrary: db)
  case (Cons call calls)
  have "referral_books (attempt op call db) \<and> referrals_evolve db (attempt op call db)"
    using Cons.prems books by (auto simp: attempt_def referrals_evolve_same split: sum.splits)
  then show ?case using Cons.IH [of "attempt op call db"] by (auto intro: referrals_evolve_trans)
qed (simp add: referrals_evolve_same)

end

interpretation qualification: referral_op qualify_referral
  by unfold_locales (rule qualify_books)

interpretation referrer_reward: referral_op "reward_referrer_on_payment ms" for ms
  by unfold_locales (rule reward_books)

interpretation reward_reversal: referral_op "\<lambda>now u. reverse_referral_reward now u reason" for reason
  by unfold_locales (rule reverse_books)

text \<open>Any interleaving of the operations that succeed.\<close>

inductive referral_run :: "(time \<Rightarrow> time) \<Rightarrow> db \<Rightarrow> db \<Rightarrow> bool" for ms where
  start: "referral_run ms db db"
| verified: "referral_run ms db db1 \<Longrightarrow> qualify_referral now u db1 = Inr (x, db2) \<Longrightarrow> referral_run ms db db2"
| invoice_paid: "referral_run ms db db1 \<Longrightarrow> reward_referrer_on_payment ms now u db1 = Inr (x, db2)
    \<Longrightarrow> referral_run ms db db2"
| refunded: "referral_run ms db db1 \<Longrightarrow> reverse_referral_reward now u reason db1 = Inr (x, db2)
    \<Longrightarrow> referral_run ms db db2"

lemma run_books:
  "referral_run ms db db' \<Longrightarrow> referral_books db \<Longrightarrow> referral_books db' \<and> referrals_evolve db db'"
proof (induction rule: referral_run.induct)
  case (start db)
  then show ?case by (simp add: books_same)
next
  case (verified db db1 now u x db2)
  then show ?case using qualification.books referrals_evolve_trans by blast
next
  case (invoice_paid db db1 now u x db2)
  then show ?case using referrer_reward.books referrals_evolve_trans by blast
next
  case (refunded db db1 now u reason x db2)
  then show ?case using reward_reversal.books referrals_evolve_trans by blast
qed

section \<open>Claims\<close>


definition pending_ref :: referral_row where
  "pending_ref =
     \<lparr>rr_id = 60, rr_referrer = 7, rr_referred = 8, rr_status = RefPending, rr_note = None,
      rr_created_at = 0, rr_rewarded_at = None, rr_referred_rewarded_at = None\<rparr>"

text \<open>Two accounts with different addresses, the second referred by the first.\<close>

definition db_ref :: db where
  "db_ref = db0\<lparr>db_users := [(7, account RoleUser), (8, (account RoleUser)\<lparr>us_email := Some ''bea@example.com''\<rparr>)],
                db_referrals := [pending_ref]\<rparr>"

lemma db_ref_books: "referral_books db_ref"
  by (simp add: referral_books_def row_books_def payments_def db_ref_def db0_def pending_ref_def)


lemma length_filter_update:
  "length (filter Q (map (\<lambda>q. if P q then f q else q) xs))
     \<le> length (filter Q xs) + length (filter (\<lambda>q. P q \<and> Q (f q)) xs)"
  by (induction xs) auto

lemma length_filter_key:
  "distinct (map g xs) \<Longrightarrow> length (filter (\<lambda>x. g x = k \<and> R x) xs) \<le> 1"
  by (induction xs) (auto simp: filter_empty_conv image_iff)

lemma rewarded_since_reject:
  "rewarded_since t v (change_referrals (\<lambda>q. rr_id q = i \<and> rr_status q = RefPending) (rejected_with memo) db)
     = rewarded_since t v db"
proof -
  have "map (\<lambda>q. if rr_id q = i \<and> rr_status q = RefPending then rejected_with memo q else q) rs = rs'
      \<Longrightarrow> length (filter (\<lambda>r. rr_referrer r = v \<and> rr_status r = RefRewarded
                         \<and> is_some_and (rr_rewarded_at r) (\<lambda>a. a \<ge> t)) rs')
        = length (filter (\<lambda>r. rr_referrer r = v \<and> rr_status r = RefRewarded
                         \<and> is_some_and (rr_rewarded_at r) (\<lambda>a. a \<ge> t)) rs)" for rs rs'
    by (induction rs arbitrary: rs') (auto simp: rejected_with_def)
  then show ?thesis by (simp add: rewarded_since_def change_referrals_def)
qed

text \<open>
  Nobody is rewarded past the monthly limit: paying out a referrer on an invoice never
  brings anybody's count of referrals rewarded this month above the configured limit.
\<close>

theorem reward_respects_monthly_limit:
  assumes "referral_books db" and "reward_referrer_on_payment ms now u db = Inr (x, db')"
  shows "int (rewarded_since (ms now) v db')
    \<le> max (int (rewarded_since (ms now) v db)) (rf_max_rewarded_per_month (bs_referral (load_settings db)))"
  using assms(2)
proof (cases rule: reward_Inr)
  case (rejected r memo)
  then show ?thesis by (simp add: rewarded_since_reject)
next
  case (paid r)
  let ?P = "\<lambda>q. rr_id q = rr_id r \<and> rr_status q = RefPending"
  let ?f = "\<lambda>q. q\<lparr>rr_status := RefRewarded, rr_rewarded_at := Some now\<rparr>"
  let ?Q = "\<lambda>q. rr_referrer q = v \<and> rr_status q = RefRewarded \<and> is_some_and (rr_rewarded_at q) (\<lambda>t. t \<ge> ms now)"
  have ids: "distinct (map rr_id (db_referrals db))" using assms(1) by (simp add: referral_books_def)
  have r: "r \<in> set (db_referrals db)" using pending_referral_Some [OF paid(1)] by simp
  have "rewarded_since (ms now) v db' \<le> rewarded_since (ms now) v db
      + length (filter (\<lambda>q. ?P q \<and> ?Q (?f q)) (db_referrals db))"
    using length_filter_update [of ?Q ?P ?f "db_referrals db"] paid(4)
    by (simp add: rewarded_since_def change_referrals_def)
  moreover have "length (filter (\<lambda>q. ?P q \<and> ?Q (?f q)) (db_referrals db)) \<le> (if v = rr_referrer r then 1 else 0)"
  proof (cases "v = rr_referrer r")
    case True
    then show ?thesis
      using length_filter_key [OF ids, of "rr_id r" "\<lambda>q. rr_status q = RefPending \<and> ?Q (?f q)"] by simp
  next
    case False
    then have "filter (\<lambda>q. ?P q \<and> ?Q (?f q)) (db_referrals db) = []"
      using same_referral [OF ids r] by (auto simp: filter_empty_conv)
    then show ?thesis by simp
  qed
  ultimately show ?thesis using paid(3) by (cases "v = rr_referrer r") auto
qed simp

theorem reward_respects_monthly_limit_witness:
  "\<exists>x db'. reward_referrer_on_payment (\<lambda>_. 0) 5 8 db_ref = Inr (x, db')
     \<and> int (rewarded_since 0 7 db') \<le> max 0 (rf_max_rewarded_per_month (bs_referral (load_settings db_ref)))"
proof -
  have "\<not> isl (reward_referrer_on_payment (\<lambda>_. 0) 5 8 db_ref)" by code_simp
  from ok_result [OF this] obtain x db' where
    r: "reward_referrer_on_payment (\<lambda>_. 0) 5 8 db_ref = Inr (x, db')" by blast
  have z: "rewarded_since 0 7 db_ref = 0" by code_simp
  show ?thesis using reward_respects_monthly_limit [OF db_ref_books r, of 7] r by (auto simp: z)
qed

lemma granted_for_append:
  "db_ledger db' = db_ledger db @ es \<Longrightarrow> granted_for db' u i = granted_for db u i
     + sum_list (map lg_amount (filter (\<lambda>e. lg_user e = u \<and> lg_reference_id e = Some i
         \<and> lg_reason e \<in> set [''referral_referrer'', ''referral_reversed'']) es))"
  by (simp add: granted_for_def)

lemma credit_balance_append:
  "db_ledger db' = db_ledger db @ es \<Longrightarrow> credit_balance db' u = credit_balance db u
     + sum_list (map lg_amount (filter (\<lambda>e. lg_user e = u) es))"
  by (simp add: credit_balance_def)

lemma change_referrals_rows:
  "db_referrals (change_referrals P f db) = map (\<lambda>r. if P r then f r else r) (db_referrals db)"
  by (simp add: change_referrals_def)

lemma change_rejected:
  assumes "q \<in> set (db_referrals (change_referrals (\<lambda>q. rr_id q = i \<and> rr_status q = RefRewarded)
      (rejected_with memo) db))" and "rr_id q = i"
  shows "rr_status q \<noteq> RefRewarded"
proof -
  have "q \<in> (\<lambda>q. if rr_id q = i \<and> rr_status q = RefRewarded then rejected_with memo q else q)
      ` set (db_referrals db)"
    using assms(1) unfolding change_referrals_rows set_map .
  then obtain p where "q = (if rr_id p = i \<and> rr_status p = RefRewarded then rejected_with memo p else p)"
    by blast
  then show ?thesis
    using assms(2) by (cases "rr_id p = i \<and> rr_status p = RefRewarded") (simp_all add: rejected_with_def, blast?)
qed

text \<open>
  C20. A refunded reward is taken back in full, once: when the referred account's payment is
  refunded within the window, the referral is rejected, the referrer's balance goes down by
  what the referral had paid (below zero if it was spent), nothing of it is left granted, and
  a second refund changes nothing.
\<close>

theorem reward_taken_back:
  assumes "referral_books db" and "r \<in> set (db_referrals db)" and "rr_referred r = u"
    and "rr_status r = RefRewarded"
    and "is_some_and (rr_rewarded_at r) (\<lambda>t. t \<ge> now - days REFERRAL_CLAWBACK_DAYS)"
    and "0 \<le> granted_for db (rr_referrer r) (rr_id r)"
    and "granted_for db (rr_referrer r) (rr_id r) \<le> 2147483647"
    and "reverse_referral_reward now u reason db = Inr (x, db')"
  shows "granted_for db' (rr_referrer r) (rr_id r) = 0
    \<and> credit_balance db' (rr_referrer r)
        = credit_balance db (rr_referrer r) - granted_for db (rr_referrer r) (rr_id r)
    \<and> (\<forall>q \<in> set (db_referrals db'). rr_id q = rr_id r \<longrightarrow> rr_status q = RefRejected)
    \<and> reverse_referral_reward later u reason' db' = Inr ((), db')"
  using assms(8)
proof (cases rule: reverse_Inr)
  case idle
  then show ?thesis using assms(2-5) by blast
next
  case (reversed r')
  have d: "distinct (map rr_id (db_referrals db))" "distinct (map rr_referred (db_referrals db))"
    using assms(1) by (simp_all add: referral_books_def)
  have "r' = r" using d(2) reversed(1,2) assms(2,3) by (auto simp: distinct_map inj_on_def)
  note rev = reversed [unfolded \<open>r' = r\<close>]
  let ?g = "granted_for db (rr_referrer r) (rr_id r)"
  have g: "granted_for db' (rr_referrer r) (rr_id r) = 0"
    and b: "credit_balance db' (rr_referrer r) = credit_balance db (rr_referrer r) - ?g"
    using assms(6,7) unfolding granted_for_append [OF rev(6)] credit_balance_append [OF rev(6)]
    by (simp_all add: entry_of_def min_def)
  have evolve: "referrals_evolve db db'" and books': "referral_books db'"
    using reverse_books [OF assms(1,8)] by simp_all
  have st: "rr_status q = RefRejected" if q: "q \<in> set (db_referrals db')" "rr_id q = rr_id r" for q
    using change_rejected [of q "rr_id r"] q rev(5) referrals_evolve_final [OF evolve d(1) assms(2) q] assms(4)
    by (auto simp: referral_evolves_def)
  have "find (\<lambda>q. rr_referred q = u \<and> rr_status q = RefRewarded
      \<and> is_some_and (rr_rewarded_at q) (\<lambda>t. t \<ge> later - days REFERRAL_CLAWBACK_DAYS)) (db_referrals db') = None"
    unfolding find_None_iff
  proof (rule notI)
    assume "\<exists>q. q \<in> set (db_referrals db') \<and> rr_referred q = u \<and> rr_status q = RefRewarded
      \<and> is_some_and (rr_rewarded_at q) (\<lambda>t. t \<ge> later - days REFERRAL_CLAWBACK_DAYS)"
    then obtain q where q: "q \<in> set (db_referrals db')" "rr_referred q = u" "rr_status q = RefRewarded" by blast
    from evolve assms(2) obtain q' where q': "q' \<in> set (db_referrals db')" "referral_evolves r q'"
      unfolding referrals_evolve_def by (metis in_set_conv_nth list_all2_conv_all_nth)
    then have "rr_referred q' = rr_referred q" using q(2) assms(3) by (simp add: referral_evolves_def)
    then have "q = q'" using books' q(1) q'(1) by (auto simp: referral_books_def distinct_map inj_on_def)
    then show False using st [OF q(1)] q' q(3) by (simp add: referral_evolves_def)
  qed
  then have "reverse_referral_reward later u reason' db' = Inr ((), db')"
    by (simp add: reverse_referral_reward_def)
  with g b st show ?thesis by blast
qed

definition db_rewarded :: db where
  "db_rewarded = db_ref\<lparr>
     db_referrals := [pending_ref\<lparr>rr_status := RefRewarded, rr_rewarded_at := Some 5\<rparr>],
     db_ledger := entry_of 5 7 20 ''referral_referrer'' (Some 60) None None\<rparr>"

theorem reward_taken_back_witness:
  "\<exists>x db'. reverse_referral_reward (days 10) 8 ''refunded'' db_rewarded = Inr (x, db')
     \<and> credit_balance db' 7 = 0 \<and> reverse_referral_reward (days 11) 8 ''refunded'' db' = Inr ((), db')"
proof -
  let ?r = "pending_ref\<lparr>rr_status := RefRewarded, rr_rewarded_at := Some 5\<rparr>"
  have books: "referral_books db_rewarded"
    by (simp add: referral_books_def row_books_def payments_def db_rewarded_def db_ref_def db0_def
        pending_ref_def entry_of_def)
  have "\<not> isl (reverse_referral_reward (days 10) 8 ''refunded'' db_rewarded)" by code_simp
  from ok_result [OF this] obtain x db' where
    e: "reverse_referral_reward (days 10) 8 ''refunded'' db_rewarded = Inr (x, db')" by blast
  have c: "?r \<in> set (db_referrals db_rewarded)" by (simp add: db_rewarded_def)
  have f: "rr_referred ?r = 8" "rr_status ?r = RefRewarded"
    "is_some_and (rr_rewarded_at ?r) (\<lambda>t. t \<ge> days 10 - days REFERRAL_CLAWBACK_DAYS)"
    "0 \<le> granted_for db_rewarded (rr_referrer ?r) (rr_id ?r)"
    "granted_for db_rewarded (rr_referrer ?r) (rr_id ?r) \<le> 2147483647"
    "credit_balance db_rewarded 7 = 20" "granted_for db_rewarded 7 60 = 20"
    by code_simp+
  from reward_taken_back [OF books c f(1-5) e, of "days 11" "''refunded''"] e f(6,7)
  show ?thesis by (auto simp: pending_ref_def)
qed

text \<open>
  A referrer without an e-mail address blocks the accounts it referred: verifying the
  address of an account whose pending referral comes from such a referrer fails with a
  database error, instead of paying the welcome bonus or rejecting the referral.
\<close>

theorem qualify_referrer_without_email:
  assumes "pending_referral db u = Some r" and "rf_enabled (bs_referral (load_settings db))"
    and "rr_referrer r \<noteq> u" and "(rr_referrer r, a) \<in> set (db_users db)" and "us_email a = None"
  shows "qualify_referral now u db = Inl (DatabaseError OtherSqlx)"
proof -
  have "list_ex (\<lambda>(_, r). us_email r = None) (filter (\<lambda>(i, _). i = rr_referrer r \<or> i = u) (db_users db))"
    unfolding list_ex_iff using assms(4,5) by (intro bexI [of _ "(rr_referrer r, a)"]) simp_all
  then have "same_mailbox db (rr_referrer r) u = Inl (DatabaseError OtherSqlx)"
    unfolding same_mailbox_def Let_def by (rule if_P)
  then show ?thesis using assms(1-3) by (simp add: qualify_referral_def Let_def)
qed

theorem qualify_referrer_without_email_witness:
  "qualify_referral 5 8 (db_ref\<lparr>db_users := [(7, (account RoleUser)\<lparr>us_email := None\<rparr>), (8, account RoleUser)]\<rparr>)
     = Inl (DatabaseError OtherSqlx)"
proof -
  let ?db = "db_ref\<lparr>db_users := [(7, (account RoleUser)\<lparr>us_email := None\<rparr>), (8, account RoleUser)]\<rparr>"
  have p: "pending_referral ?db 8 = Some pending_ref" "rf_enabled (bs_referral (load_settings ?db))"
    "rr_referrer pending_ref \<noteq> (8 :: uuid)"
    "(rr_referrer pending_ref, (account RoleUser)\<lparr>us_email := None\<rparr>) \<in> set (db_users ?db)"
    by (simp_all add: db_ref_def db0_def pending_ref_def pending_referral_def load_settings_def
        default_billing_settings_def default_referral_settings_def)
  show ?thesis by (rule qualify_referrer_without_email [OF p]) simp
qed

end
