(* ===== verification/Maintenance.thy ===== *)
theory Maintenance
  imports ReferralLaws Entitlements
begin

text \<open>
  Trials for everyone, the hourly maintenance, reminders, price notices and the right of
  withdrawal, from \<^verbatim>\<open>src/src/services/billing.rs\<close>. The maintenance is not one transaction:
  each statement commits on its own, so an operation that can fail half-way returns the
  state it left together with its result.
\<close>

section \<open>Trials for everyone\<close>

definition start_registration_trial :: "time \<Rightarrow> uuid \<Rightarrow> db \<Rightarrow> db" where
  "start_registration_trial now u db =
     (let settings = load_settings db in
      if \<not> bs_enforced settings \<or> bs_trial_days settings \<le> 0 then db
      else
        let had_plan = (db_subs db u \<noteq> None
              \<or> list_ex (\<lambda>e. ev_user e = u \<and> ev_kind e = ''trial_started'') (db_events db))
        in if had_plan then db
           else case start_trial now u (bs_trial_plan settings) (bs_trial_days settings) None db of
             Inl e \<Rightarrow> db
           | Inr (None, db) \<Rightarrow> db
           | Inr (Some g, db) \<Rightarrow> notify_all [outcome_notification g u] db)"

text \<open>The subscriptions with their accounts, and \<open>UPDATE subscriptions ... RETURNING\<close>.\<close>

definition sub_rows :: "db \<Rightarrow> (uuid \<times> sub_row) list" where
  "sub_rows db = List.map_filter (\<lambda>(u, _). map_option (Pair u) (db_subs db u)) (db_users db)"

definition update_subs :: "(uuid \<Rightarrow> sub_row \<Rightarrow> bool) \<Rightarrow> (sub_row \<Rightarrow> sub_row) \<Rightarrow> db \<Rightarrow> (uuid \<times> sub_row) list \<times> db"
where
  "update_subs P f db =
     (filter (\<lambda>(u, s). P u s) (sub_rows db),
      db\<lparr>db_subs := (\<lambda>u. map_option (\<lambda>s. if P u s then f s else s) (db_subs db u))\<rparr>)"

text \<open>Who gets a trial from \<open>grant_trials\<close>.\<close>

definition trial_candidates :: "db \<Rightarrow> uuid list" where
  "trial_candidates db =
     map fst (filter (\<lambda>(u, r). db_subs db u = None \<and> us_role r = RoleUser
                               \<and> us_email r \<noteq> None \<and> us_email_verified_at r \<noteq> None) (db_users db))"

definition bulk_event :: "time \<Rightarrow> string \<Rightarrow> int \<Rightarrow> uuid \<Rightarrow> uuid \<Rightarrow> event_row" where
  "bulk_event now plan_code dys actor u =
     event_of now u ''trial_started'' None (Some plan_code) (Some Trialing)
       (JObj [(''days'', JInt dys), (''bulk'', JBool True)]) (Some actor)"

definition grant_trials :: "time \<Rightarrow> int \<Rightarrow> uuid \<Rightarrow> db \<Rightarrow> api_error + (int \<times> db)" where
  "grant_trials now dys actor db =
     (let settings = load_settings db; plan_code = bs_trial_plan settings in
      rbind (ensure_plan_exists db plan_code) (\<lambda>_.
      let ends_at = now + days dys;
          users = trial_candidates db;
          row = (blank_sub plan_code Trialing TrialSource now)
                  \<lparr>sb_current_period_end := Some ends_at, sb_trial_ends_at := Some ends_at,
                   sb_updated_by := Some actor\<rparr>
      in if users \<noteq> [] \<and> user db actor = None then Inl fk_violation
         else if users \<noteq> [] \<and> \<not> varchar 32 plan_code then Inl too_long
         else
           let told = filter (\<lambda>u. is_some_and (user db u) us_account_in_app) users
           in Inr (int (length users),
                   db\<lparr>db_subs := (\<lambda>u. if u \<in> set users then Some row else db_subs db u),
                      db_events := db_events db @ map (bulk_event now plan_code dys actor) users,
                      db_notices := db_notices db
                        @ map (\<lambda>u. subscription_changed u ''trial_started'' (Some plan_code)
                                     (Some ''trialing'') (Some ends_at)) told\<rparr>)))"

section \<open>The hourly maintenance\<close>

definition claim_job_run :: "time \<Rightarrow> string \<Rightarrow> time \<Rightarrow> db \<Rightarrow> bool \<times> db" where
  "claim_job_run now name every db =
     (if is_none_or (db_job_runs db name) (\<lambda>last. last \<le> now - every)
      then (True, db\<lparr>db_job_runs := (db_job_runs db)(name \<mapsto> now)\<rparr>)
      else (False, db))"

definition expires :: "time \<Rightarrow> sub_row \<Rightarrow> bool" where
  "expires now s \<longleftrightarrow>
     sb_status s \<in> set [Trialing, Active, PastDue]
     \<and> is_some_and (sb_current_period_end s) (\<lambda>e. e \<le> now) \<and> sb_source s \<noteq> Payment"

definition expired_event :: "time \<Rightarrow> uuid \<Rightarrow> string \<Rightarrow> subscription_status \<Rightarrow> event_row" where
  "expired_event now u plan_code from_status =
     \<lparr>ev_user = u, ev_kind = ''expired'', ev_from_plan = Some plan_code, ev_to_plan = Some plan_code,
      ev_from_status = Some from_status, ev_to_status = Some Expired, ev_data = JObj [],
      ev_actor = None, ev_created_at = now\<rparr>"

text \<open>The loop over the expired subscriptions: the event, the notice, the lost links.\<close>

fun expire_each ::
  "time \<Rightarrow> (uuid \<times> string \<times> subscription_status) list \<Rightarrow> platform
     \<Rightarrow> (api_error + notification list) \<times> platform"
where
  "expire_each now [] pt = (Inr [], pt)"
| "expire_each now ((u, plan_code, from_status) # rest) pt =
     (case write_event (expired_event now u plan_code from_status) (pt_db pt) of
        Inl e \<Rightarrow> (Inl e, pt)
      | Inr db \<Rightarrow>
          let pt = snd (revoke_shares_if_lost now u (pt\<lparr>pt_db := db\<rparr>));
              n = subscription_changed u ''expired'' (Some plan_code) (Some ''expired'') (Some now)
          in (case expire_each now rest pt of
                (Inl e, pt) \<Rightarrow> (Inl e, pt)
              | (Inr ns, pt) \<Rightarrow> (Inr (n # ns), pt)))"

definition trial_reminder_due :: "time \<Rightarrow> sub_row \<Rightarrow> bool" where
  "trial_reminder_due now s \<longleftrightarrow>
     sb_status s = Trialing \<and> sb_trial_reminder_sent_at s = None
     \<and> is_some_and (sb_trial_ends_at s) (\<lambda>e. e > now \<and> e \<le> now + days 3)"

definition send_trial_reminders :: "time \<Rightarrow> db \<Rightarrow> notification list \<times> db" where
  "send_trial_reminders now db =
     (case update_subs (\<lambda>_ s. trial_reminder_due now s) (\<lambda>s. s\<lparr>sb_trial_reminder_sent_at := Some now\<rparr>) db of
        (rows, db) \<Rightarrow> (map (\<lambda>(u, s). trial_ending u (sb_plan_code s) (the (sb_trial_ends_at s))) rows, db))"

text \<open>
  \<open>run_subscription_maintenance\<close> once the provider's subscriptions have been reconciled:
  expiry and trial reminders while plans are enforced.
\<close>

definition expire_and_remind ::
  "time \<Rightarrow> nat \<times> nat \<Rightarrow> platform \<Rightarrow> (api_error + nat \<times> nat) \<times> platform"
where
  "expire_and_remind now counts pt =
     (case counts of (expired_count, reminded) \<Rightarrow>
      if \<not> bs_enforced (load_settings (pt_db pt)) then (Inr (expired_count, reminded), pt)
      else
        let (rows, db) = update_subs (\<lambda>_ s. expires now s)
              (\<lambda>s. s\<lparr>sb_status := Expired, sb_updated_at := now\<rparr>) (pt_db pt)
        in (case expire_each now (map (\<lambda>(u, s). (u, sb_plan_code s, sb_status s)) rows)
                   (pt\<lparr>pt_db := db\<rparr>) of
              (Inl e, pt) \<Rightarrow> (Inl e, pt)
            | (Inr ns, pt) \<Rightarrow>
                let (reminders, db) = send_trial_reminders now (pt_db pt)
                in (Inr (expired_count + length rows, reminded + length reminders),
                    pt\<lparr>pt_db := notify_all (ns @ reminders) db\<rparr>)))"

section \<open>Reminders of the paid plans\<close>

definition PAID_TRIAL_REMINDER_DAYS :: int where "PAID_TRIAL_REMINDER_DAYS = 7"
definition RENEWAL_REMINDER_DAYS :: int where "RENEWAL_REMINDER_DAYS = 7"

definition paid_trial_due :: "time \<Rightarrow> uuid option \<Rightarrow> uuid \<Rightarrow> sub_row \<Rightarrow> bool" where
  "paid_trial_due now only u s \<longleftrightarrow>
     sb_source s = Payment \<and> sb_status s = Active \<and> sb_provider_status s = Some ''trialing''
     \<and> sb_paid_trial_reminder_sent_at s = None \<and> \<not> sb_cancel_at_period_end s
     \<and> is_some_and (sb_trial_ends_at s) (\<lambda>e. e > now \<and> e \<le> now + days PAID_TRIAL_REMINDER_DAYS)
     \<and> is_none_or only (\<lambda>v. u = v)"

definition send_paid_trial_reminders :: "time \<Rightarrow> uuid option \<Rightarrow> db \<Rightarrow> nat \<times> db" where
  "send_paid_trial_reminders now only db =
     (case update_subs (paid_trial_due now only) (\<lambda>s. s\<lparr>sb_paid_trial_reminder_sent_at := Some now\<rparr>) db of
        (rows, db) \<Rightarrow>
          (length rows,
           notify_all (map (\<lambda>(u, s). billing_notice u ''paid_trial_ending'' (sb_plan_code s)
             (JObj [(''charge_at'', json_of_opt JTime (sb_trial_ends_at s)),
                    (''amount_cents'', json_of_opt JInt (sb_unit_amount_cents s)),
                    (''currency'', json_of_opt JStr (sb_currency s)),
                    (''interval'', json_of_opt JStr (sb_billing_interval s))])) rows) db))"

definition renewal_due :: "time \<Rightarrow> uuid option \<Rightarrow> int \<Rightarrow> uuid \<Rightarrow> sub_row \<Rightarrow> bool" where
  "renewal_due now only within u s \<longleftrightarrow>
     sb_source s = Payment \<and> sb_status s = Active \<and> sb_billing_interval s = Some ''yearly''
     \<and> unwrap_or (sb_provider_status s) ''active'' = ''active'' \<and> \<not> sb_cancel_at_period_end s
     \<and> is_some_and (sb_current_period_end s) (\<lambda>e. e > now \<and> e \<le> now + days within)
     \<and> sb_renewal_reminder_period_end s \<noteq> sb_current_period_end s
     \<and> is_none_or only (\<lambda>v. u = v)"

definition send_renewal_reminders ::
  "time \<Rightarrow> uuid option \<Rightarrow> int \<Rightarrow> (int \<times> string) option \<Rightarrow> db \<Rightarrow> nat \<times> db"
where
  "send_renewal_reminders now only within amount db =
     (case update_subs (renewal_due now only within)
             (\<lambda>s. s\<lparr>sb_renewal_reminder_period_end := sb_current_period_end s\<rparr>) db of
        (rows, db) \<Rightarrow>
          (length rows,
           notify_all (map (\<lambda>(u, s).
             let (cents, currency) = (case amount of
                    Some (c, cur) \<Rightarrow> (Some c, Some cur)
                  | None \<Rightarrow> (sb_unit_amount_cents s, sb_currency s))
             in billing_notice u ''renewal_reminder'' (sb_plan_code s)
                  (JObj [(''renews_at'', json_of_opt JTime (sb_current_period_end s)),
                         (''amount_cents'', json_of_opt JInt cents),
                         (''currency'', json_of_opt JStr currency),
                         (''interval'', JStr ''yearly'')])) rows) db))"

record new_prices =
  np_monthly_cents :: "int option"
  np_yearly_cents :: "int option"

definition price_change_of :: "new_prices \<Rightarrow> sub_row \<Rightarrow> int option" where
  "price_change_of prices s =
     opt_filter (\<lambda>n. Some n \<noteq> sb_unit_amount_cents s)
       (if sb_billing_interval s = Some ''yearly'' then np_yearly_cents prices else np_monthly_cents prices)"

fun tell_each ::
  "time \<Rightarrow> string \<Rightarrow> new_prices \<Rightarrow> time \<Rightarrow> (uuid \<times> sub_row) list \<Rightarrow> db
     \<Rightarrow> (api_error + notification list) \<times> db"
where
  "tell_each now plan_code prices effective_at [] db = (Inr [], db)"
| "tell_each now plan_code prices effective_at ((u, s) # rest) db =
     (case price_change_of prices s of
        None \<Rightarrow> tell_each now plan_code prices effective_at rest db
      | Some new_amount \<Rightarrow>
          let data = JObj [(''interval'', json_of_opt JStr (sb_billing_interval s)),
                           (''old_amount_cents'', json_of_opt JInt (sb_unit_amount_cents s)),
                           (''new_amount_cents'', JInt new_amount),
                           (''currency'', json_of_opt JStr (sb_currency s)),
                           (''effective_at'', JTime effective_at)]
          in (case record_event_row now u ''price_change_notified'' (Some plan_code) data None db of
                Inl e \<Rightarrow> (Inl e, db)
              | Inr db \<Rightarrow>
                  (case tell_each now plan_code prices effective_at rest db of
                     (Inl e, db) \<Rightarrow> (Inl e, db)
                   | (Inr ns, db) \<Rightarrow> (Inr (billing_notice u ''price_change'' plan_code data # ns), db))))"

definition price_change_subscriber :: "string \<Rightarrow> sub_row \<Rightarrow> bool" where
  "price_change_subscriber plan_code s \<longleftrightarrow>
     sb_source s = Payment \<and> sb_plan_code s = plan_code \<and> sb_status s \<in> set [Active, PastDue]
     \<and> \<not> sb_cancel_at_period_end s"

definition notify_price_change ::
  "time \<Rightarrow> string \<Rightarrow> new_prices \<Rightarrow> time \<Rightarrow> db \<Rightarrow> (api_error + nat) \<times> db"
where
  "notify_price_change now plan_code prices effective_at db =
     (case tell_each now plan_code prices effective_at
             (filter (\<lambda>(_, s). price_change_subscriber plan_code s) (sub_rows db)) db of
        (Inl e, db) \<Rightarrow> (Inl e, db)
      | (Inr ns, db) \<Rightarrow> (Inr (length ns), notify_all ns db))"

section \<open>The right of withdrawal\<close>

definition withdrawal_deadline :: "time \<Rightarrow> time \<Rightarrow> bool \<Rightarrow> time" where
  "withdrawal_deadline first_paid latest_paid yearly =
     (let first = first_paid + days WITHDRAWAL_DAYS in
      if yearly then max first (latest_paid + days WITHDRAWAL_DAYS) else first)"

text \<open>A row of \<open>payments\<close>, the ledger of the payments received.\<close>

record payment_row =
  py_invoice_id :: string
  py_payment_intent_id :: "string option"
  py_charge_id :: "string option"
  py_customer_id :: "string option"
  py_subscription_id :: "string option"
  py_user_id :: "uuid option"
  py_plan_code :: "string option"
  py_billing_interval :: "string option"
  py_amount_cents :: int
  py_refunded_cents :: int
  py_disputed_cents :: int
  py_dispute_status :: "string option"
  py_fee_cents :: "int option"
  py_net_cents :: "int option"
  py_currency :: string
  py_paid_at :: time
  py_created_at :: time
  py_updated_at :: time

text \<open>\<open>MIN\<close> and \<open>MAX\<close> are null over no rows.\<close>

definition withdrawal_eligible_until :: "time \<Rightarrow> payment_row list \<Rightarrow> db \<Rightarrow> uuid \<Rightarrow> time option" where
  "withdrawal_eligible_until now paid db u =
     (case opt_filter (\<lambda>s. sb_source s = Payment \<and> sb_status s \<in> set [Active, PastDue]) (db_subs db u) of
        None \<Rightarrow> None
      | Some s \<Rightarrow>
          (case map py_paid_at
                  (filter (\<lambda>p. py_subscription_id p \<noteq> None \<and> py_subscription_id p = sb_external_ref s
                               \<and> py_amount_cents p > 0 \<and> py_refunded_cents p < py_amount_cents p) paid) of
             [] \<Rightarrow> None
           | t # ts \<Rightarrow>
               opt_filter (\<lambda>d. d > now)
                 (Some (withdrawal_deadline (foldr min ts t) (foldr max ts t)
                          (sb_billing_interval s = Some ''yearly'')))))"

section \<open>Lemmas\<close>

lemma update_subs_eq:
  "update_subs P f db =
     (filter (\<lambda>(u, s). P u s) (sub_rows db),
      db\<lparr>db_subs := (\<lambda>u. map_option (\<lambda>s. if P u s then f s else s) (db_subs db u))\<rparr>)"
  by (simp add: update_subs_def)

lemma sub_rows_Some: "(u, s) \<in> set (sub_rows db) \<Longrightarrow> db_subs db u = Some s"
  by (auto simp: sub_rows_def List.map_filter_def split: option.splits)

text \<open>
  A reminder stamps the row it is sent for, and a stamped row is not due again: the shape of
  every reminder.
\<close>

locale reminder =
  fixes due :: "'p \<Rightarrow> time \<Rightarrow> uuid \<Rightarrow> sub_row \<Rightarrow> bool"
    and stamp :: "time \<Rightarrow> sub_row \<Rightarrow> sub_row"
  assumes stamped: "due p now u s \<Longrightarrow> \<not> due q later u (stamp now s)"
begin

lemma once:
  assumes "db_subs db u = Some s" and "due p now u s"
  shows "(u, s') \<notin> set (fst (update_subs (due q later) g (snd (update_subs (due p now) (stamp now) db))))"
proof
  assume "(u, s') \<in> set (fst (update_subs (due q later) g (snd (update_subs (due p now) (stamp now) db))))"
  then have d: "due q later u s'"
    and "(u, s') \<in> set (sub_rows (snd (update_subs (due p now) (stamp now) db)))"
    by (auto simp: update_subs_eq)
  from sub_rows_Some [OF this(2)] have "s' = stamp now s"
    using assms by (simp add: update_subs_eq)
  with d stamped [OF assms(2)] show False by simp
qed

end

interpretation trial_ending: reminder
  "\<lambda>(_ :: unit) now (_ :: uuid) s. trial_reminder_due now s" "\<lambda>now s. s\<lparr>sb_trial_reminder_sent_at := Some now\<rparr>"
  by unfold_locales (simp add: trial_reminder_due_def)

interpretation paid_trial_ending: reminder
  "\<lambda>only now u s. paid_trial_due now only u s" "\<lambda>now s. s\<lparr>sb_paid_trial_reminder_sent_at := Some now\<rparr>"
  by unfold_locales (simp add: paid_trial_due_def)

interpretation renewal: reminder
  "\<lambda>(only, within) now u s. renewal_due now only within u s"
  "\<lambda>now s. s\<lparr>sb_renewal_reminder_period_end := sb_current_period_end s\<rparr>"
  by unfold_locales (auto simp: renewal_due_def)

lemma update_subs_none:
  assumes "\<And>s'. (u, s') \<notin> set (fst (update_subs P g db))" and "\<And>v s. P v s \<Longrightarrow> v = u"
  shows "filter (\<lambda>(v, s). P v s) (sub_rows db) = []"
  unfolding filter_empty_conv
proof (intro ballI notI)
  fix x
  assume x: "x \<in> set (sub_rows db)" and p: "case x of (v, s) \<Rightarrow> P v s"
  obtain v s where vs: "x = (v, s)" by (cases x)
  with p assms(2) have "v = u" by auto
  with x p vs have "(u, s) \<in> set (fst (update_subs P g db))" by (simp add: update_subs_eq)
  with assms(1) show False by blast
qed

lemma paid_trial_only_empty:
  assumes "\<And>s'. (u, s') \<notin> set (fst (update_subs (paid_trial_due now (Some u)) (\<lambda>s. s) db))"
  shows "fst (send_paid_trial_reminders now (Some u) db) = 0"
  using update_subs_none [OF assms]
  by (simp add: send_paid_trial_reminders_def update_subs_eq paid_trial_due_def)

lemma renewal_only_empty:
  assumes "\<And>s'. (u, s') \<notin> set (fst (update_subs (renewal_due now (Some u) within) (\<lambda>s. s) db))"
  shows "fst (send_renewal_reminders now (Some u) within amount db) = 0"
  using update_subs_none [OF assms]
  by (simp add: send_renewal_reminders_def update_subs_eq renewal_due_def)

section \<open>Claims\<close>

text \<open>
  Every reminder is sent once: an account that was told its trial is ending, that its
  first charge is coming or that its yearly plan renews is not told again by any later run
  for the same trial, subscription or period.
\<close>

theorem reminders_sent_once:
  assumes "db_subs db u = Some s"
  shows "(trial_reminder_due now s \<longrightarrow>
      u \<notin> nt_user ` set (fst (send_trial_reminders later (snd (send_trial_reminders now db)))))
    \<and> (paid_trial_due now only u s \<longrightarrow>
      fst (send_paid_trial_reminders later (Some u) (snd (send_paid_trial_reminders now only db))) = 0)
    \<and> (renewal_due now only within u s \<longrightarrow>
      fst (send_renewal_reminders later (Some u) within' amount'
             (snd (send_renewal_reminders now only within amount db))) = 0)"
proof (intro conjI impI)
  assume d: "trial_reminder_due now s"
  show "u \<notin> nt_user ` set (fst (send_trial_reminders later (snd (send_trial_reminders now db))))"
    using trial_ending.once [OF assms d, where later = later]
    by (auto simp: send_trial_reminders_def update_subs_eq trial_ending_def)
next
  assume d: "paid_trial_due now only u s"
  have "(u, s') \<notin> set (fst (update_subs (paid_trial_due later (Some u)) g
      (snd (send_paid_trial_reminders now only db))))" for s' g
    using paid_trial_ending.once [OF assms d, where q = "Some u" and later = later and s' = s' and g = g]
    by (simp add: send_paid_trial_reminders_def update_subs_eq notify_all_def sub_rows_def)
  then show "fst (send_paid_trial_reminders later (Some u) (snd (send_paid_trial_reminders now only db))) = 0"
    by (rule paid_trial_only_empty)
next
  assume d: "renewal_due now only within u s"
  have "(u, s') \<notin> set (fst (update_subs (renewal_due later (Some u) within') g
      (snd (send_renewal_reminders now only within amount db))))" for s' g
    using renewal.once [OF assms, where p = "(only, within)" and now = now and s' = s'
        and q = "(Some u, within')" and later = later and g = g] d
    by (simp add: send_renewal_reminders_def update_subs_eq notify_all_def sub_rows_def)
  then show "fst (send_renewal_reminders later (Some u) within' amount'
      (snd (send_renewal_reminders now only within amount db))) = 0"
    by (rule renewal_only_empty)
qed

definition yearly_sub :: sub_row where
  "yearly_sub = paid_sub\<lparr>sb_billing_interval := Some ''yearly''\<rparr>"

theorem reminders_sent_once_witness:
  "fst (send_renewal_reminders (days 25) None 7 None (db0\<lparr>db_subs := [7 \<mapsto> yearly_sub]\<rparr>)) = 1
   \<and> fst (send_renewal_reminders (days 26) (Some 7) 7 None
       (snd (send_renewal_reminders (days 25) None 7 None (db0\<lparr>db_subs := [7 \<mapsto> yearly_sub]\<rparr>)))) = 0"
proof -
  have s: "db_subs (db0\<lparr>db_subs := [7 \<mapsto> yearly_sub]\<rparr>) 7 = Some yearly_sub" by simp
  have d: "renewal_due (days 25) None 7 7 yearly_sub" by code_simp
  have "fst (send_renewal_reminders (days 25) None 7 None (db0\<lparr>db_subs := [7 \<mapsto> yearly_sub]\<rparr>)) = 1"
    by code_simp
  with reminders_sent_once [OF s] d show ?thesis by blast
qed

lemma start_registration_trial_started:
  assumes "start_registration_trial now u db \<noteq> db"
  shows "\<exists>e \<in> set (db_events (start_registration_trial now u db)). ev_user e = u \<and> ev_kind e = ''trial_started''"
proof -
  from assms obtain r where
    r: "start_trial now u (bs_trial_plan (load_settings db)) (bs_trial_days (load_settings db)) None db = Inr r"
    and d: "start_registration_trial now u db
      = (case r of (None, db) \<Rightarrow> db | (Some g, db) \<Rightarrow> notify_all [outcome_notification g u] db)"
    by (auto simp: start_registration_trial_def Let_def split: if_splits sum.splits prod.splits)
  obtain g db1 where g: "r = (g, db1)" by (cases r)
  from r [unfolded g] show ?thesis
  proof (cases rule: start_trial_Inr)
    case nothing
    then show ?thesis using assms d g by simp
  next
    case (started row data g')
    then show ?thesis using d g by simp
  qed
qed

lemma registration_trial_blocked:
  assumes "\<exists>e \<in> set (db_events db). ev_user e = u \<and> ev_kind e = ''trial_started''"
  shows "start_registration_trial now u db = db"
  using assms by (auto simp: start_registration_trial_def Let_def list_ex_iff)

text \<open>
  An account gets at most one registration trial, however often the sign-up, the e-mail
  verification and later requests ask for it and whatever happened in between: once a call
  has started one, every later call changes nothing.
\<close>

theorem one_registration_trial:
  assumes "start_registration_trial now u db \<noteq> db"
    and "db_events db2 = db_events (start_registration_trial now u db) @ es"
  shows "start_registration_trial later u db2 = db2"
  using start_registration_trial_started [OF assms(1)] assms(2)
  by (intro registration_trial_blocked) auto

definition db_enforced :: db where
  "db_enforced = db0\<lparr>db_settings := Some (default_billing_settings\<lparr>bs_enforced := True\<rparr>)\<rparr>"

theorem one_registration_trial_witness:
  "start_registration_trial (days 90) 7 (start_registration_trial 0 7 db_enforced)
     = start_registration_trial 0 7 db_enforced
   \<and> db_subs (start_registration_trial 0 7 db_enforced) 7 \<noteq> None"
proof -
  have n: "db_subs (start_registration_trial 0 7 db_enforced) 7 \<noteq> None" by code_simp
  have "db_subs db_enforced 7 = None" by (simp add: db_enforced_def db0_def)
  with n have c: "start_registration_trial 0 7 db_enforced \<noteq> db_enforced" by auto
  have "start_registration_trial (days 90) 7 (start_registration_trial 0 7 db_enforced)
      = start_registration_trial 0 7 db_enforced"
    by (rule one_registration_trial [OF c, of _ "[]"]) simp
  with n show ?thesis by simp
qed

text \<open>
  A job runs at most once per interval: after a run was claimed every later claim within
  the interval is refused and changes nothing, and the first one after it is granted.
\<close>

theorem job_runs_once_per_interval:
  assumes "claim_job_run now name every db = (True, db1)"
  shows "claim_job_run later name every db1 =
    (if later < now + every then (False, db1)
     else (True, db1\<lparr>db_job_runs := (db_job_runs db1)(name \<mapsto> later)\<rparr>))"
  using assms by (auto simp: claim_job_run_def split: if_splits)

theorem job_runs_once_per_interval_witness:
  "\<exists>db1. claim_job_run 5 ''stripe_reconciliation'' (days 1) db0 = (True, db1)
     \<and> claim_job_run 6 ''stripe_reconciliation'' (days 1) db1 = (False, db1)"
proof -
  obtain b db1 where c: "claim_job_run 5 ''stripe_reconciliation'' (days 1) db0 = (b, db1)" by fastforce
  then have b: "claim_job_run 5 ''stripe_reconciliation'' (days 1) db0 = (True, db1)"
    by (simp add: claim_job_run_def db0_def split: if_splits)
  have "(6 :: time) < 5 + days 1" by code_simp
  with job_runs_once_per_interval [OF b, of 6] b show ?thesis by auto
qed

section \<open>What expiry may change\<close>

lemma revoke_shares_db [simp]: "pt_db (snd (revoke_shares_if_lost now u pt)) = pt_db pt"
  by (simp add: revoke_shares_if_lost_def)

text \<open>The loop appends events; the rest of the database is as it was.\<close>

lemma expire_each_frame:
  "expire_each now rows pt = (r, pt') \<Longrightarrow>
     \<exists>es. pt_db pt' = (pt_db pt)\<lparr>db_events := db_events (pt_db pt) @ es\<rparr>"
proof (induction now rows pt arbitrary: r pt' rule: expire_each.induct)
  case (1 now pt)
  then show ?case by (auto intro: exI [of _ "[]"])
next
  case (2 now u c st rest pt)
  show ?case
  proof (cases "write_event (expired_event now u c st) (pt_db pt)")
    case (Inl e)
    with 2(2) show ?thesis by (auto intro: exI [of _ "[]"])
  next
    case (Inr db)
    let ?pt = "snd (revoke_shares_if_lost now u (pt\<lparr>pt_db := db\<rparr>))"
    from 2(2) Inr obtain r1 where "expire_each now rest ?pt = (r1, pt')"
      by (auto simp: Let_def split: prod.splits sum.splits)
    from 2(1) [OF Inr refl refl this] obtain es where "pt_db pt' = db\<lparr>db_events := db_events db @ es\<rparr>"
      by auto
    moreover have "db = (pt_db pt)\<lparr>db_events := db_events (pt_db pt) @ [expired_event now u c st]\<rparr>"
      using Inr by (simp add: write_event_Inr)
    ultimately show ?thesis by (intro exI [of _ "expired_event now u c st # es"]) simp
  qed
qed

lemma expires_not_effective:
  "expires now s \<Longrightarrow> now \<le> t \<Longrightarrow> \<not> sub_effective t s"
  by (auto simp: expires_def is_some_and_iff sub_effective_def in_effect_iff period_over_def)

lemma expired_row_not_effective: "\<not> sub_effective t (s\<lparr>sb_status := Expired, sb_updated_at := now\<rparr>)"
  by (simp add: sub_effective_def in_effect_iff is_live_def)

lemma find_plan_row_cong: "db_plans db' = db_plans db \<Longrightarrow> find_plan_row db' c = find_plan_row db c"
  by (simp add: find_plan_row_def)

text \<open>Rows that agree on what is read keep the plan in effect.\<close>

lemma effective_plan_same:
  assumes "db_plans db' = db_plans db"
    and "db_subs db' u = map_option f (db_subs db u)"
    and "\<And>s. db_subs db u = Some s \<Longrightarrow> sub_effective t (f s) = sub_effective t s"
    and "\<And>s. db_subs db u = Some s \<Longrightarrow> sb_plan_code (f s) = sb_plan_code s"
  shows "load_effective_plan t db' u = load_effective_plan t db u"
proof (cases "db_subs db u")
  case None
  with assms(2) show ?thesis by (simp add: load_effective_plan_def)
next
  case (Some s)
  with assms(2) have "db_subs db' u = Some (f s)" by simp
  with Some assms(3,4) [OF Some] show ?thesis
    by (simp add: load_effective_plan_eq find_plan_row_cong [OF assms(1)])
qed

text \<open>
  C21. The maintenance never takes a plan away that is in effect: whatever it expires, reminds
  or fails at, every account has at that moment and at any later one exactly the plan it
  would have had, no paid subscription changes its status, and after a complete run with
  plans enforced nothing is left that should have expired.
\<close>

theorem expiry_keeps_plans_in_effect:
  assumes "expire_and_remind now counts pt = (r, pt')" and "now \<le> t"
  shows "load_effective_plan t (pt_db pt') u = load_effective_plan t (pt_db pt) u
    \<and> (\<forall>s. db_subs (pt_db pt) u = Some s \<and> sb_source s = Payment \<longrightarrow>
         is_some_and (db_subs (pt_db pt') u) (\<lambda>s'. sb_status s' = sb_status s \<and> sb_source s' = Payment))
    \<and> (bs_enforced (load_settings (pt_db pt)) \<and> \<not> isl r \<longrightarrow>
         is_none_or (db_subs (pt_db pt') u) (\<lambda>s'. \<not> expires now s'))"
proof (cases "bs_enforced (load_settings (pt_db pt))")
  case False
  with assms show ?thesis by (auto simp: expire_and_remind_def split: prod.splits)
next
  case True
  let ?f = "\<lambda>s. if expires now s then s\<lparr>sb_status := Expired, sb_updated_at := now\<rparr> else s"
  let ?g = "\<lambda>s. if trial_reminder_due now s then s\<lparr>sb_trial_reminder_sent_at := Some now\<rparr> else s"
  let ?db1 = "(pt_db pt)\<lparr>db_subs := (\<lambda>u. map_option ?f (db_subs (pt_db pt) u))\<rparr>"
  obtain rows pt1 r1 where e: "expire_each now rows (pt\<lparr>pt_db := ?db1\<rparr>) = (r1, pt1)"
    and cases: "isl r \<and> pt' = pt1 \<or> (\<exists>ns. \<not> isl r \<and> pt_db pt' = notify_all ns (snd (send_trial_reminders now (pt_db pt1))))"
    using assms(1) True
    by (fastforce simp: expire_and_remind_def update_subs_eq split: prod.splits sum.splits)
  from expire_each_frame [OF e] obtain es where
    db1: "pt_db pt1 = ?db1\<lparr>db_events := db_events ?db1 @ es\<rparr>" by auto
  define h where "h = (if isl r then ?f else ?g \<circ> ?f)"
  have subs: "db_subs (pt_db pt') v = map_option h (db_subs (pt_db pt) v)" for v
    using cases db1
    by (auto simp: h_def send_trial_reminders_def update_subs_eq option.map_comp)
  have plans: "db_plans (pt_db pt') = db_plans (pt_db pt)"
    using cases db1 by (auto simp: send_trial_reminders_def update_subs_eq)
  have g: "sub_effective t (?g s) = sub_effective t s" "sb_plan_code (?g s) = sb_plan_code s"
    "sb_status (?g s) = sb_status s" "sb_source (?g s) = sb_source s"
    "sb_current_period_end (?g s) = sb_current_period_end s" for s
    by (simp_all add: sub_effective_def)
  have f: "sub_effective t (?f s) = sub_effective t s" "sb_plan_code (?f s) = sb_plan_code s"
    "sb_source (?f s) = sb_source s" for s
    using expires_not_effective [of now s t] expired_row_not_effective [where t = t and s = s and now = now] assms(2) by auto
  have h: "sub_effective t (h s) = sub_effective t s" "sb_plan_code (h s) = sb_plan_code s"
    "sb_source (h s) = sb_source s" for s
    using f [of s] g [of "?f s"] by (simp_all add: h_def)
  have paid: "sb_source s = Payment \<Longrightarrow> sb_status (h s) = sb_status s" for s
    using g(3) [of s] by (simp add: h_def expires_def)
  have finished: "\<not> expires now (h s)" if "\<not> isl r" for s
    using that g(3-5) [of "?f s"] by (auto simp: h_def expires_def)
  show ?thesis
    using effective_plan_same [OF plans subs, where t = t and u = u] h paid finished subs [of u]
    by (cases "db_subs (pt_db pt) u") auto
qed

definition pt_expiring :: platform where
  "pt_expiring = db_shared\<lparr>pt_db :=
     db_enforced\<lparr>db_subs := [7 \<mapsto> trial_row 0 ''pro'' (days 10) None None, 8 \<mapsto> paid_sub]\<rparr>\<rparr>"

theorem expiry_keeps_plans_in_effect_witness:
  "is_none_or (db_subs (pt_db (snd (expire_and_remind (days 20) (0, 0) pt_expiring))) 7)
     (\<lambda>s'. \<not> expires (days 20) s')
   \<and> load_effective_plan (days 21) (pt_db (snd (expire_and_remind (days 20) (0, 0) pt_expiring))) 8
     = load_effective_plan (days 21) (pt_db pt_expiring) 8"
proof -
  obtain r pt' where e: "expire_and_remind (days 20) (0, 0) pt_expiring = (r, pt')" by fastforce
  have "\<not> isl (fst (expire_and_remind (days 20) (0, 0) pt_expiring))"
    and b: "bs_enforced (load_settings (pt_db pt_expiring))" and l: "days 20 \<le> days 21"
    by code_simp+
  then have "\<not> isl r" using e by simp
  with expiry_keeps_plans_in_effect [OF e l] b show ?thesis unfolding e by simp
qed

end
