(* ===== verification/Shop.thy ===== *)
theory Shop
  imports Provider Maintenance
begin

text \<open>
  The state the payments work on: the platform with its billing tables, the columns of
  \<^verbatim>\<open>users\<close> only payments read, and the tables of
  \<^verbatim>\<open>src/src/database/migrations/0012_billing.sql\<close> and \<^verbatim>\<open>0013_finance.sql\<close> that are
  theirs: checkout pages, applied webhook events, the queue of customers to delete, the ledger
  of payments and refunds. The world of an operation is this state beside the provider's.
\<close>

section \<open>Tables\<close>

record promotion_row =
  pn_plan_code :: "string option"
  pn_discount_percent :: int
  pn_starts_at :: time
  pn_ends_at :: time
  pn_active :: bool

record session_row =
  ss_session_id :: string
  ss_user :: uuid
  ss_created_at :: time
  ss_expired_at :: "time option"
  ss_completed_at :: "time option"

record applied_event =
  ae_id :: string
  ae_type :: string
  ae_received_at :: time

record cleanup_row =
  cl_customer_id :: string
  cl_attempts :: int
  cl_last_error :: string
  cl_next_attempt_at :: time
  cl_created_at :: time

record refund_row =
  re_id :: string
  re_payment_intent_id :: "string option"
  re_charge_id :: "string option"
  re_amount_cents :: int
  re_currency :: "string option"
  re_status :: string
  re_created_at :: time
  re_updated_at :: time

record audit_row =
  au_action :: string
  au_actor :: uuid
  au_actor_name :: string
  au_target :: uuid
  au_target_name :: string
  au_meta :: json
  au_ip :: "string option"

text \<open>
  \<open>sh_customers\<close> and \<open>sh_generations\<close> are \<open>users.stripe_customer_id\<close> (a unique column) and
  \<open>users.stripe_customer_generation\<close>, \<open>sh_languages\<close> the supported language of the account's
  preferences. A row of \<open>promo_redemptions\<close> is known by its code and its account, which are
  unique together; \<open>sh_redemption_ids\<close> gives them for its id.
\<close>

record shop =
  sh_pt :: platform
  sh_customers :: "uuid \<rightharpoonup> string"
  sh_generations :: "uuid \<Rightarrow> int"
  sh_usernames :: "uuid \<Rightarrow> string"
  sh_languages :: "uuid \<Rightarrow> string option"
  sh_promotions :: "promotion_row list"
  sh_redemption_ids :: "(uuid \<times> uuid \<times> uuid) list"
  sh_sessions :: "session_row list"
  sh_applied :: "applied_event list"
  sh_cleanup :: "cleanup_row list"
  sh_payments :: "payment_row list"
  sh_refunds :: "refund_row list"
  sh_audit :: "audit_row list"

abbreviation sh_db :: "shop \<Rightarrow> db" where
  "sh_db sh \<equiv> pt_db (sh_pt sh)"

definition with_db :: "db \<Rightarrow> shop \<Rightarrow> shop" where
  "with_db db sh = sh\<lparr>sh_pt := (sh_pt sh)\<lparr>pt_db := db\<rparr>\<rparr>"

definition find_payment :: "string \<Rightarrow> shop \<Rightarrow> payment_row option" where
  "find_payment invoice_id sh = find (\<lambda>p. py_invoice_id p = invoice_id) (sh_payments sh)"

text \<open>\<open>SELECT id FROM users WHERE stripe_customer_id = $1\<close>.\<close>

definition user_by_customer :: "string \<Rightarrow> shop \<Rightarrow> uuid option" where
  "user_by_customer c sh = map_option fst (find (\<lambda>(u, _). sh_customers sh u = Some c) (db_users (sh_db sh)))"

section \<open>Operations over the world\<close>

type_synonym ('g, 'a) op = "('g \<times> shop, api_error, 'a) eff"

text \<open>A call to the provider whose error the code looks at, and one it passes on.\<close>

definition ask :: "('g, 'a) ask \<Rightarrow> ('g \<times> shop, payment_error, 'a) eff" where
  "ask m w = (case m (fst w) of (r, g) \<Rightarrow> (r, (g, snd w)))"

definition provided :: "('g, 'a) ask \<Rightarrow> ('g, 'a) op" where
  "provided m = emap_err provider_error (ask m)"

definition reading :: "(shop \<Rightarrow> 'a) \<Rightarrow> ('g, 'a) op" where
  "reading f = eget (\<lambda>w. f (snd w))"

definition modify :: "(shop \<Rightarrow> shop) \<Rightarrow> ('g, unit) op" where
  "modify f = eupdate (\<lambda>w. (fst w, f (snd w)))"

text \<open>A statement or a transaction of billing: on an error the tables are as before.\<close>

definition billing_op :: "(db \<Rightarrow> api_error + 'a \<times> db) \<Rightarrow> ('g, 'a) op" where
  "billing_op f w =
     (case f (sh_db (snd w)) of
        Inl e \<Rightarrow> (Inl e, w)
      | Inr (x, db) \<Rightarrow> (Inr x, (fst w, with_db db (snd w))))"

section \<open>Lemmas\<close>

lemma with_db_simps [simp]:
  "sh_db (with_db db sh) = db"
  "sh_customers (with_db db sh) = sh_customers sh"
  "sh_generations (with_db db sh) = sh_generations sh"
  "sh_redemption_ids (with_db db sh) = sh_redemption_ids sh"
  "sh_sessions (with_db db sh) = sh_sessions sh"
  "sh_applied (with_db db sh) = sh_applied sh"
  "sh_cleanup (with_db db sh) = sh_cleanup sh"
  "sh_payments (with_db db sh) = sh_payments sh"
  "sh_refunds (with_db db sh) = sh_refunds sh"
  "sh_audit (with_db db sh) = sh_audit sh"
  "with_db (sh_db sh) sh = sh"
  by (simp_all add: with_db_def)

lemma op_simps [simp]:
  "reading f w = (Inr (f (snd w)), w)"
  "modify g w = (Inr (), (fst w, g (snd w)))"
  by (simp_all add: reading_def modify_def)

text \<open>
  A relation on the tables alone that chains is kept by calls to the provider and by
  transactions: this is what every proof about an operation uses.
\<close>

locale tables =
  fixes R :: "shop \<Rightarrow> shop \<Rightarrow> bool"
  assumes stay: "R t t"
    and onward: "R t u \<Longrightarrow> R u v \<Longrightarrow> R t v"
begin

definition safe :: "('g \<times> shop, 'e, 'a) eff \<Rightarrow> bool" where
  "safe m = keeps (\<lambda>w w'. R (snd w) (snd w')) m"

lemma world: "chain (\<lambda>w w'. R (snd w) (snd w'))"
  by unfold_locales (blast intro: stay onward)+

lemma safeI: "(\<And>w r w'. m w = (r, w') \<Longrightarrow> R (snd w) (snd w')) \<Longrightarrow> safe m"
  by (simp add: safe_def keepsI)

lemma safeD: "safe m \<Longrightarrow> m w = (r, w') \<Longrightarrow> R (snd w) (snd w')"
  unfolding safe_def by (rule keepsD)

lemma safe_result: "safe m \<Longrightarrow> R (snd w) (snd (snd (m w)))"
  by (cases "m w") (auto dest: safeD)

lemma ret: "safe (eret x)" and fails: "safe (efail e)" and get: "safe (eget f)"
  and result: "safe (eresult r)" and read: "safe (reading h)"
  by (simp_all add: safe_def keeps_def stay reading_def)

lemma bind: "safe m \<Longrightarrow> (\<And>x. safe (f x)) \<Longrightarrow> safe (ebind m f)"
  unfolding safe_def by (rule chain.bind [OF world])

lemma tries: "safe m \<Longrightarrow> safe (etry m)"
  unfolding safe_def by (rule chain.tries [OF world])

lemma maps_err: "safe m \<Longrightarrow> safe (emap_err h m)"
  unfolding safe_def by (rule chain.maps_err [OF world])

lemma loop: "(\<And>x. safe (f x)) \<Longrightarrow> safe (efor xs f)"
  unfolding safe_def by (rule chain.loop [OF world])

lemma folds: "(\<And>acc x. safe (f acc x)) \<Longrightarrow> safe (efold f acc xs)"
  unfolding safe_def by (rule chain.folds [OF world])

lemma asks: "safe (ask m)"
  by (rule safeI) (auto simp: ask_def stay split: prod.splits)

lemma provides: "safe (provided m)"
  by (simp add: provided_def maps_err asks)

lemma modifies: "(\<And>t. R t (g t)) \<Longrightarrow> safe (modify g)"
  by (rule safeI) auto

lemma transaction: "safe m \<Longrightarrow> safe (atomically m)"
proof (rule safeI)
  fix w r w'
  assume m: "safe m" and w: "atomically m w = (r, w')"
  show "R (snd w) (snd w')"
  proof (cases r)
    case (Inl e)
    with w show ?thesis by (auto dest: atomically_Inl simp: stay)
  next
    case (Inr x)
    with w have "m w = (Inr x, w')" by (simp add: atomically_eq_Inr)
    with m show ?thesis by (rule safeD)
  qed
qed

lemma billing:
  assumes "\<And>t x db. f (sh_db t) = Inr (x, db) \<Longrightarrow> R t (with_db db t)"
  shows "safe (billing_op f)"
proof (rule safeI)
  fix w r w'
  assume "billing_op f w = (r, w')"
  then show "R (snd w) (snd w')"
    using assms by (auto simp: billing_op_def stay split: sum.splits prod.splits)
qed

lemma branches:
  "(b \<Longrightarrow> safe m) \<Longrightarrow> (\<not> b \<Longrightarrow> safe m') \<Longrightarrow> safe (if b then m else m')"
  "safe m \<Longrightarrow> (\<And>x. opt = Some x \<Longrightarrow> safe (f x)) \<Longrightarrow> safe (case_option m f opt)"
  "(\<And>e. safe (h e)) \<Longrightarrow> (\<And>x. safe (f x)) \<Longrightarrow> safe (case_sum h f res)"
  "(\<And>x y. safe (k x y)) \<Longrightarrow> safe (case_prod k pair)"
  "safe m \<Longrightarrow> safe m' \<Longrightarrow> safe (case_bool m m' flag)"
  by (simp_all split: option.split sum.split prod.split bool.split)

text \<open>The proof of an operation: one rule per combinator, in the order of its body.\<close>

lemmas safe_rules = ret fails get result read bind tries maps_err loop folds asks provides transaction branches

end

end
