(* ===== verification/Ledger.thy ===== *)
theory Ledger
  imports Stripe Shop Credits
begin

text \<open>
  The ledger of payments, from \<^verbatim>\<open>src/src/services/finance.rs\<close>: recording invoices, their
  fees, refunds and disputes, from the webhook's events and from a walk over the provider's
  listings. The report computed from the ledger is not modelled.
\<close>

section \<open>Recording a payment\<close>

definition account_of :: "gateway_invoice \<Rightarrow> shop \<Rightarrow> uuid option" where
  "account_of invoice sh =
     or_else (Option.bind (iv_customer_id invoice) (\<lambda>c. user_by_customer c sh))
       (opt_filter (\<lambda>u. user (sh_db sh) u \<noteq> None) (iv_user_id invoice))"

definition new_payment :: "time \<Rightarrow> gateway_invoice \<Rightarrow> uuid option \<Rightarrow> payment_row" where
  "new_payment now invoice u =
     \<lparr>py_invoice_id = iv_id invoice, py_payment_intent_id = iv_payment_intent_id invoice,
      py_charge_id = None, py_customer_id = iv_customer_id invoice,
      py_subscription_id = iv_subscription_id invoice, py_user_id = u,
      py_plan_code = iv_plan_code invoice,
      py_billing_interval = map_option interval_key (iv_interval invoice),
      py_amount_cents = iv_amount_paid invoice, py_refunded_cents = 0, py_disputed_cents = 0,
      py_dispute_status = None, py_fee_cents = None, py_net_cents = None,
      py_currency = map to_ascii_uppercase (iv_currency invoice),
      py_paid_at = unwrap_or (Option.bind (iv_paid_at invoice) unix_to_naive) now,
      py_created_at = now, py_updated_at = now\<rparr>"

definition payment_fits :: "payment_row \<Rightarrow> bool" where
  "payment_fits p \<longleftrightarrow>
     varchar 255 (py_invoice_id p) \<and> is_none_or (py_payment_intent_id p) (varchar 255)
     \<and> is_none_or (py_charge_id p) (varchar 255) \<and> is_none_or (py_customer_id p) (varchar 255)
     \<and> is_none_or (py_subscription_id p) (varchar 255) \<and> is_none_or (py_plan_code p) (varchar 32)
     \<and> is_none_or (py_dispute_status p) (varchar 40) \<and> varchar 3 (py_currency p)"

text \<open>The \<open>DO UPDATE\<close> fills in what the row does not know yet.\<close>

definition completed_payment :: "payment_row \<Rightarrow> payment_row \<Rightarrow> payment_row" where
  "completed_payment new p =
     p\<lparr>py_payment_intent_id := or_else (py_payment_intent_id p) (py_payment_intent_id new),
       py_customer_id := or_else (py_customer_id p) (py_customer_id new),
       py_subscription_id := or_else (py_subscription_id p) (py_subscription_id new),
       py_user_id := or_else (py_user_id p) (py_user_id new),
       py_plan_code := or_else (py_plan_code p) (py_plan_code new),
       py_billing_interval := or_else (py_billing_interval p) (py_billing_interval new),
       py_updated_at := py_updated_at new\<rparr>"

definition upsert_payment :: "payment_row \<Rightarrow> shop \<Rightarrow> bool \<times> shop" where
  "upsert_payment new sh =
     (if find_payment (py_invoice_id new) sh = None
      then (True, sh\<lparr>sh_payments := sh_payments sh @ [new]\<rparr>)
      else (False, sh\<lparr>sh_payments :=
              map (\<lambda>p. if py_invoice_id p = py_invoice_id new then completed_payment new p else p)
                (sh_payments sh)\<rparr>))"

text \<open>A failure to pay the referrer is logged and dropped.\<close>

definition record_invoice :: "(time \<Rightarrow> time) \<Rightarrow> time \<Rightarrow> gateway_invoice \<Rightarrow> ('g, bool) op" where
  "record_invoice month_start now invoice =
     (if iv_amount_paid invoice \<le> 0 then eret False
      else
        ebind (reading (account_of invoice)) (\<lambda>u.
        let new = new_payment now invoice u in
        if \<not> payment_fits new then efail too_long
        else
          ebind (reading (\<lambda>sh. fst (upsert_payment new sh))) (\<lambda>inserted.
          ebind (modify (\<lambda>sh. snd (upsert_payment new sh))) (\<lambda>_.
          case (inserted, u) of
            (True, Some u) \<Rightarrow>
              ebind (etry (billing_op (reward_referrer_on_payment month_start now u)))
                (\<lambda>_ :: api_error + unit. eret True)
          | _ \<Rightarrow> eret inserted))))"

text \<open>An \<open>UPDATE\<close> of the payments that satisfy \<open>P\<close>: how many there were.\<close>

definition update_payments ::
  "(payment_row \<Rightarrow> bool) \<Rightarrow> (payment_row \<Rightarrow> payment_row) \<Rightarrow> ('g, payment_row list) op"
where
  "update_payments P f =
     ebind (reading (\<lambda>sh. map f (filter P (sh_payments sh)))) (\<lambda>rows.
     if \<not> list_all payment_fits rows then efail too_long
     else
       ebind (modify (\<lambda>sh. sh\<lparr>sh_payments := map (\<lambda>p. if P p then f p else p) (sh_payments sh)\<rparr>)) (\<lambda>_.
       eret rows))"

definition set_fees :: "time \<Rightarrow> string \<Rightarrow> payment_fees \<Rightarrow> ('g, unit) op" where
  "set_fees now invoice_id fees =
     ebind (update_payments (\<lambda>p. py_invoice_id p = invoice_id)
              (\<lambda>p. p\<lparr>py_fee_cents := Some (pf_fee fees), py_net_cents := Some (pf_net fees),
                     py_charge_id := or_else (py_charge_id p) (pf_charge_id fees),
                     py_updated_at := now\<rparr>)) (\<lambda>_. eret ())"

section \<open>Refunds\<close>

definition refunded_sum :: "string \<Rightarrow> refund_row list \<Rightarrow> int" where
  "refunded_sum payment_intent rows =
     sum_list (map re_amount_cents
       (filter (\<lambda>r. re_payment_intent_id r = Some payment_intent
                    \<and> re_status r \<in> set [''succeeded'', ''pending'']) rows))"

definition set_refunded :: "time \<Rightarrow> string \<Rightarrow> int \<Rightarrow> ('g, nat) op" where
  "set_refunded now payment_intent refunded =
     ebind (reading (\<lambda>sh. refunded_sum payment_intent (sh_refunds sh))) (\<lambda>total.
     ebind (update_payments (\<lambda>p. py_payment_intent_id p = Some payment_intent)
              (\<lambda>p. p\<lparr>py_refunded_cents :=
                       min (py_amount_cents p) (max (py_refunded_cents p) (max (max refunded 0) total)),
                     py_updated_at := now\<rparr>)) (\<lambda>rows.
     eret (length rows)))"

definition recompute_refunded :: "time \<Rightarrow> string \<Rightarrow> ('g, nat) op" where
  "recompute_refunded now payment_intent =
     ebind (reading (\<lambda>sh. refunded_sum payment_intent (sh_refunds sh))) (\<lambda>total.
     ebind (update_payments (\<lambda>p. py_payment_intent_id p = Some payment_intent)
              (\<lambda>p. p\<lparr>py_refunded_cents := min (py_amount_cents p) total, py_updated_at := now\<rparr>)) (\<lambda>rows.
     eret (length rows)))"

definition new_refund :: "time \<Rightarrow> gateway_refund \<Rightarrow> refund_row" where
  "new_refund now r =
     \<lparr>re_id = rf_id r, re_payment_intent_id = rf_payment_intent_id r, re_charge_id = rf_charge_id r,
      re_amount_cents = max (rf_amount r) 0, re_currency = rf_currency r, re_status = rf_status r,
      re_created_at = unwrap_or (Option.bind (rf_created r) unix_to_naive) now,
      re_updated_at = now\<rparr>"

definition refund_fits :: "refund_row \<Rightarrow> bool" where
  "refund_fits r \<longleftrightarrow>
     varchar 255 (re_id r) \<and> is_none_or (re_payment_intent_id r) (varchar 255)
     \<and> is_none_or (re_charge_id r) (varchar 255) \<and> is_none_or (re_currency r) (varchar 3)
     \<and> varchar 30 (re_status r)"

definition completed_refund :: "refund_row \<Rightarrow> refund_row \<Rightarrow> refund_row" where
  "completed_refund new r =
     r\<lparr>re_payment_intent_id := or_else (re_payment_intent_id r) (re_payment_intent_id new),
       re_charge_id := or_else (re_charge_id r) (re_charge_id new),
       re_amount_cents := re_amount_cents new, re_status := re_status new,
       re_updated_at := re_updated_at new\<rparr>"

definition upsert_refund_row :: "refund_row \<Rightarrow> shop \<Rightarrow> shop" where
  "upsert_refund_row new sh =
     (if list_ex (\<lambda>r. re_id r = re_id new) (sh_refunds sh)
      then sh\<lparr>sh_refunds := map (\<lambda>r. if re_id r = re_id new then completed_refund new r else r)
                (sh_refunds sh)\<rparr>
      else sh\<lparr>sh_refunds := sh_refunds sh @ [new]\<rparr>)"

definition store_refund :: "time \<Rightarrow> gateway_refund \<Rightarrow> ('g, unit) op" where
  "store_refund now r =
     (let new = new_refund now r in
      if refund_fits new then modify (upsert_refund_row new) else efail too_long)"

definition import_invoice_of ::
  "(time \<Rightarrow> time) \<Rightarrow> time \<Rightarrow> 'g payments option \<Rightarrow> string \<Rightarrow> ('g, bool) op"
where
  "import_invoice_of month_start now pays payment_intent =
     (case pays of
        None \<Rightarrow> eret False
      | Some pay \<Rightarrow>
          ebind (provided (gt_invoice_for_payment (pm_gateway pay) payment_intent)) (\<lambda>i.
          case i of
            None \<Rightarrow> eret False
          | Some invoice_id \<Rightarrow>
              ebind (provided (gt_get_paid_invoice (pm_gateway pay) invoice_id)) (\<lambda>invoice.
              case invoice of
                None \<Rightarrow> eret False
              | Some invoice \<Rightarrow> ebind (record_invoice month_start now invoice) (\<lambda>_. eret True))))"

definition upsert_refund ::
  "(time \<Rightarrow> time) \<Rightarrow> time \<Rightarrow> 'g payments option \<Rightarrow> gateway_refund \<Rightarrow> ('g, unit) op"
where
  "upsert_refund month_start now pays r =
     ebind (store_refund now r) (\<lambda>_.
     case rf_payment_intent_id r of
       None \<Rightarrow> eret ()
     | Some payment_intent \<Rightarrow>
         ebind (recompute_refunded now payment_intent) (\<lambda>n.
         if n \<noteq> 0 then eret ()
         else
           ebind (import_invoice_of month_start now pays payment_intent) (\<lambda>imported.
           if imported then ebind (recompute_refunded now payment_intent) (\<lambda>_. eret ())
           else eret ())))"

definition apply_refund_object ::
  "(time \<Rightarrow> time) \<Rightarrow> time \<Rightarrow> 'g payments option \<Rightarrow> json \<Rightarrow> ('g, unit) op"
where
  "apply_refund_object month_start now pays obj =
     (case parse_refund obj of
        Some r \<Rightarrow> upsert_refund month_start now pays r
      | None \<Rightarrow> eret ())"

text \<open>The refunds the provider lists for a charge; a failure to list them is logged.\<close>

definition store_refunds_of ::
  "time \<Rightarrow> 'g payments option \<Rightarrow> string \<Rightarrow> ('g, unit) op"
where
  "store_refunds_of now pays payment_intent =
     (case pays of
        None \<Rightarrow> eret ()
      | Some pay \<Rightarrow>
          ebind (etry (ask (gt_list_refunds_for_payment (pm_gateway pay) payment_intent))) (\<lambda>r.
          case r of
            Inr refunds \<Rightarrow> efor refunds (store_refund now)
          | Inl (_ :: payment_error) \<Rightarrow> eret ()))"

definition apply_refund_event ::
  "(time \<Rightarrow> time) \<Rightarrow> time \<Rightarrow> 'g payments option \<Rightarrow> json \<Rightarrow> ('g, string option) op"
where
  "apply_refund_event month_start now pays charge =
     (case (text_id (json_get charge ''payment_intent''), int_at charge [Field ''amount_refunded'']) of
        (Some payment_intent, Some refunded) \<Rightarrow>
          ebind (store_refunds_of now pays payment_intent) (\<lambda>_.
          ebind (set_refunded now payment_intent refunded) (\<lambda>n.
          if n > 0 then eret (Some payment_intent)
          else
            ebind (import_invoice_of month_start now pays payment_intent) (\<lambda>imported.
            if imported then
              ebind (set_refunded now payment_intent refunded) (\<lambda>_. eret (Some payment_intent))
            else eret None)))
      | _ \<Rightarrow> eret None)"

text \<open>The payment's account and subscription, when it was the latest and was refunded in full.\<close>

definition fully_refunded_latest_payment :: "string \<Rightarrow> shop \<Rightarrow> (uuid \<times> string) option" where
  "fully_refunded_latest_payment payment_intent sh =
     find_map (\<lambda>p.
       case (py_user_id p, py_subscription_id p) of
         (Some u, Some s) \<Rightarrow>
           if py_payment_intent_id p = Some payment_intent
              \<and> py_refunded_cents p \<ge> py_amount_cents p
              \<and> \<not> list_ex (\<lambda>q. py_subscription_id q = Some s \<and> py_paid_at q > py_paid_at p)
                    (sh_payments sh)
           then Some (u, s) else None
       | _ \<Rightarrow> None) (sh_payments sh)"

section \<open>Disputes\<close>

record disputed_payment =
  dp_user_id :: "uuid option"
  dp_subscription_id :: "string option"
  dp_amount :: int
  dp_status :: string

definition mark_disputed ::
  "time \<Rightarrow> string \<Rightarrow> int \<Rightarrow> string \<Rightarrow> string option \<Rightarrow> ('g, (uuid option \<times> string option) option) op"
where
  "mark_disputed now payment_intent amount status charge =
     ebind (update_payments (\<lambda>p. py_payment_intent_id p = Some payment_intent)
              (\<lambda>p. p\<lparr>py_disputed_cents := min (py_amount_cents p) (max amount 0),
                     py_dispute_status := Some status,
                     py_charge_id := or_else (py_charge_id p) charge, py_updated_at := now\<rparr>)) (\<lambda>rows.
     eret (case rows of [] \<Rightarrow> None | p # _ \<Rightarrow> Some (py_user_id p, py_subscription_id p)))"

definition apply_dispute ::
  "(time \<Rightarrow> time) \<Rightarrow> time \<Rightarrow> 'g payments option \<Rightarrow> json \<Rightarrow> ('g, disputed_payment option) op"
where
  "apply_dispute month_start now pays dispute =
     (case text_id (json_get dispute ''payment_intent'') of
        None \<Rightarrow> eret None
      | Some payment_intent \<Rightarrow>
          let status = unwrap_or (str_at dispute [Field ''status'']) ''needs_response'';
              amount = (if status = ''won'' then 0 else unwrap_or (int_at dispute [Field ''amount'']) 0);
              charge = text_id (json_get dispute ''charge'')
          in
          ebind (mark_disputed now payment_intent amount status charge) (\<lambda>row.
          ebind
            (if row = None then
               ebind (import_invoice_of month_start now pays payment_intent) (\<lambda>imported.
               if imported then mark_disputed now payment_intent amount status charge else eret row)
             else eret row) (\<lambda>row.
          eret (map_option (\<lambda>(u, s).
            \<lparr>dp_user_id = u, dp_subscription_id = s, dp_amount = amount, dp_status = status\<rparr>) row))))"

section \<open>The walk over the provider's listings\<close>

datatype sync_cursor = Invoices "string option" | Refunds "string option"

definition parse_cursor :: "string option \<Rightarrow> sync_cursor" where
  "parse_cursor v =
     (let value = unwrap_or (map_option trim v) [] in
      case strip_prefix ''refunds:'' value of
        Some rest \<Rightarrow> Refunds (some_text (Some rest))
      | None \<Rightarrow>
          (case strip_prefix ''invoices:'' value of
             Some rest \<Rightarrow> Invoices (some_text (Some rest))
           | None \<Rightarrow> Invoices None))"

fun encode_cursor :: "sync_cursor \<Rightarrow> string" where
  "encode_cursor (Invoices after) = ''invoices:'' @ unwrap_or after []"
| "encode_cursor (Refunds after) = ''refunds:'' @ unwrap_or after []"

record sync_result =
  sy_scanned :: int
  sy_imported :: int
  sy_refunds_applied :: int
  sy_done :: bool
  sy_cursor :: "string option"

definition MAX_SYNC_PAGES :: nat where
  "MAX_SYNC_PAGES = 200"

definition record_page ::
  "(time \<Rightarrow> time) \<Rightarrow> time \<Rightarrow> gateway_invoice list \<Rightarrow> sync_result \<Rightarrow> ('g, sync_result) op"
where
  "record_page month_start now invoices result =
     efold (\<lambda>result invoice.
       ebind (record_invoice month_start now invoice) (\<lambda>new.
       eret (result\<lparr>sy_scanned := sy_scanned result + 1,
                    sy_imported := sy_imported result + (if new then 1 else 0)\<rparr>)))
       result invoices"

text \<open>The payments of a page's refunds, each once, in order (a \<open>BTreeSet\<close>, bytewise).\<close>

definition touched :: "gateway_refund list \<Rightarrow> string list" where
  "touched refunds =
     sort_key (map code) (remdups (List.map_filter rf_payment_intent_id refunds))"

definition store_page ::
  "time \<Rightarrow> gateway_refund list \<Rightarrow> sync_result \<Rightarrow> ('g, sync_result) op"
where
  "store_page now refunds result =
     ebind (efor refunds (store_refund now)) (\<lambda>_.
     efold (\<lambda>result payment_intent.
       ebind (recompute_refunded now payment_intent) (\<lambda>n.
       eret (result\<lparr>sy_refunds_applied := sy_refunds_applied result + int n\<rparr>)))
       result (touched refunds))"

text \<open>
  The loop over the pages; \<open>late n\<close> says whether the time budget is used up when \<open>n\<close> rounds
  are left.
\<close>

fun sync_pages ::
  "(nat \<Rightarrow> bool) \<Rightarrow> (time \<Rightarrow> time) \<Rightarrow> time \<Rightarrow> 'g payments \<Rightarrow> nat \<Rightarrow> sync_cursor \<Rightarrow> sync_result
     \<Rightarrow> ('g, sync_result) op"
where
  "sync_pages late month_start now pay 0 position result =
     eret (result\<lparr>sy_cursor := Some (encode_cursor position)\<rparr>)"
| "sync_pages late month_start now pay (Suc n) position result =
     (if late (Suc n) then eret (result\<lparr>sy_cursor := Some (encode_cursor position)\<rparr>)
      else case position of
        Invoices after \<Rightarrow>
          ebind (provided (gt_list_paid_invoices (pm_gateway pay) after)) (\<lambda>page.
          ebind (record_page month_start now (pg_items page) result) (\<lambda>result.
          sync_pages late month_start now pay n
            (case (pg_has_more page, pg_last_id page) of
               (True, Some bottom) \<Rightarrow> Invoices (Some bottom)
             | _ \<Rightarrow> Refunds None) result))
      | Refunds after \<Rightarrow>
          ebind (provided (gt_list_refunds (pm_gateway pay) after)) (\<lambda>page.
          ebind (store_page now (pg_items page) result) (\<lambda>result.
          case (pg_has_more page, pg_last_id page) of
            (True, Some bottom) \<Rightarrow> sync_pages late month_start now pay n (Refunds (Some bottom)) result
          | _ \<Rightarrow> eret (result\<lparr>sy_done := True\<rparr>))))"

definition payments_unavailable :: "nat \<Rightarrow> api_error" where
  "payments_unavailable status = rule status ''PAYMENTS_UNAVAILABLE''"

definition sync_from_provider ::
  "(nat \<Rightarrow> bool) \<Rightarrow> (time \<Rightarrow> time) \<Rightarrow> time \<Rightarrow> 'g payments option \<Rightarrow> string option
     \<Rightarrow> ('g, sync_result) op"
where
  "sync_from_provider late month_start now pays cursor =
     (case pays of
        None \<Rightarrow> efail (payments_unavailable 409)
      | Some pay \<Rightarrow>
          sync_pages late month_start now pay MAX_SYNC_PAGES (parse_cursor cursor)
            \<lparr>sy_scanned = 0, sy_imported = 0, sy_refunds_applied = 0, sy_done = False,
             sy_cursor = None\<rparr>)"

end
