(* ===== verification/Mirror.thy ===== *)
theory Mirror
  imports Ledger Entitlements
begin

text \<open>
  Mirroring the provider's subscriptions, from \<^verbatim>\<open>src/src/services/payments.rs\<close>: applying
  a fetched subscription to its account, what happens to a second subscription of an account,
  and the reconciliation that repairs what the webhook missed.

  A transaction holds the lock of its subscription from before the fetch to its end, so it is
  run whole. The ledger of a canceled duplicate is written on another connection while the
  transaction is open; here it is part of it, which differs only when a later statement of the
  transaction fails.
\<close>

section \<open>Applying a subscription\<close>

record mirror_options =
  mo_event :: "(string \<times> string) option"
  mo_redemption_id :: "uuid option"
  mo_terms_version :: "string option"

definition no_options :: mirror_options where
  "no_options = \<lparr>mo_event = None, mo_redemption_id = None, mo_terms_version = None\<rparr>"

definition the_payments :: "'g payments option \<Rightarrow> ('g, 'g payments) op" where
  "the_payments pays =
     (case pays of Some pay \<Rightarrow> eret pay | None \<Rightarrow> efail (payments_unavailable 503))"

definition already_refunded :: "payment_error \<Rightarrow> bool" where
  "already_refunded e = (pe_code e = Some ''charge_already_refunded'')"

definition cancel_duplicate ::
  "(time \<Rightarrow> time) \<Rightarrow> time \<Rightarrow> 'g payments \<Rightarrow> gateway_subscription \<Rightarrow> ('g, int) op"
where
  "cancel_duplicate month_start now pay duplicate =
     ebind (provided (gt_cancel_now (pm_gateway pay) (gw_id duplicate))) (\<lambda>_.
     case gw_latest_invoice_id duplicate of
       None \<Rightarrow> eret 0
     | Some invoice_id \<Rightarrow>
         ebind (provided (gt_get_paid_invoice (pm_gateway pay) invoice_id)) (\<lambda>paid.
         case paid of
           None \<Rightarrow> eret 0
         | Some invoice \<Rightarrow>
        (case iv_payment_intent_id invoice of
           None \<Rightarrow> eret 0
         | Some payment_intent \<Rightarrow>
             ebind (etry (ask (gt_refund (pm_gateway pay) payment_intent None
                                 (''setlyst-duplicate-'' @ iv_id invoice)))) (\<lambda>r.
             case r of
               Inl e \<Rightarrow> if already_refunded e then eret 0 else efail (provider_error e)
             | Inr refund \<Rightarrow>
                 ebind (etry (record_invoice month_start now invoice)) (\<lambda>_ :: api_error + bool.
                 ebind (etry (upsert_refund month_start now (Some pay) refund)) (\<lambda>_ :: api_error + unit.
                 eret (if counts refund then rf_amount refund else 0)))))))"

definition resolve_duplicate ::
  "(time \<Rightarrow> time) \<Rightarrow> time \<Rightarrow> 'g payments option \<Rightarrow> uuid \<Rightarrow> gateway_subscription \<Rightarrow> payment_snapshot
     \<Rightarrow> string \<Rightarrow> ('g, payment_change option) op"
where
  "resolve_duplicate month_start now pays u duplicate snap current_ref =
     ebind (the_payments pays) (\<lambda>pay.
     ebind (etry (ask (gt_get_subscription (pm_gateway pay) current_ref))) (\<lambda>fetched.
     ebind (case fetched of
              Inr current \<Rightarrow> eret (Some current)
            | Inl e \<Rightarrow> if is_missing e then eret None else efail (provider_error e)) (\<lambda>current.
     case opt_filter (\<lambda>c. gw_status c \<in> set [''active'', ''trialing'', ''past_due'']) current of
       Some c \<Rightarrow>
         ebind (cancel_duplicate month_start now pay duplicate) (\<lambda>refunded.
         ebind (billing_op (\<lambda>db. map_sum id (\<lambda>db. ((), db))
                  (record_event_row now u ''duplicate_canceled'' (Some (ps_plan_code snap))
                     (JObj [(''source'', JStr (source_key Payment)),
                            (''external_ref'', JStr (gw_id duplicate)),
                            (''kept'', JStr (gw_id c)),
                            (''refunded_cents'', JInt refunded)]) None db))) (\<lambda>_.
         eret None))
     | None \<Rightarrow>
         ebind
           (case Option.bind current snapshot_of of
              Some current_snap \<Rightarrow>
                ebind (billing_op (apply_payment_subscription now u current_snap)) (\<lambda>a.
                eret (case a of Changed _ \<Rightarrow> True | _ \<Rightarrow> False))
            | None \<Rightarrow> eret False) (\<lambda>ended.
         ebind
           (if ended then eret None
            else billing_op (end_paid_subscription now u current_ref ''canceled''
                               (JObj [(''reason'', JStr ''replaced'')]) None)) (\<lambda>_.
         ebind (billing_op (apply_payment_subscription now u snap)) (\<lambda>a.
         eret (case a of Changed change \<Rightarrow> Some change | _ \<Rightarrow> None)))))))"

text \<open>\<open>INSERT INTO stripe_events ... ON CONFLICT DO NOTHING\<close>: whether the event is new.\<close>

definition claim_event :: "time \<Rightarrow> string \<Rightarrow> string \<Rightarrow> ('g, bool) op" where
  "claim_event now i kind =
     (if \<not> (varchar 255 i \<and> varchar 100 kind) then efail too_long
      else
        ebind (reading (\<lambda>sh. list_ex (\<lambda>e. ae_id e = i) (sh_applied sh))) (\<lambda>known.
        if known then eret False
        else
          ebind (modify (\<lambda>sh. sh\<lparr>sh_applied := sh_applied sh
                   @ [\<lparr>ae_id = i, ae_type = kind, ae_received_at = now\<rparr>]\<rparr>)) (\<lambda>_.
          eret True)))"

text \<open>The account learns its customer unless it has one, or someone else has this one.\<close>

definition learn_customer :: "uuid \<Rightarrow> string \<Rightarrow> ('g, unit) op" where
  "learn_customer u c =
     ebind (reading (\<lambda>sh. user (sh_db sh) u \<noteq> None \<and> sh_customers sh u = None
                         \<and> user_by_customer c sh = None)) (\<lambda>applies.
     if \<not> applies then eret ()
     else if \<not> varchar 255 c then efail too_long
     else modify (\<lambda>sh. sh\<lparr>sh_customers := (sh_customers sh)(u \<mapsto> c)\<rparr>))"

definition spend_redemption :: "time \<Rightarrow> uuid \<Rightarrow> uuid \<Rightarrow> shop \<Rightarrow> shop" where
  "spend_redemption now i u sh =
     with_db ((sh_db sh)\<lparr>db_redemptions :=
       map (\<lambda>r. if map_of (sh_redemption_ids sh) i = Some (rd_promo r, rd_user r) \<and> rd_user r = u
                   \<and> rd_applied_at r = None
                then r\<lparr>rd_applied_at := Some now\<rparr> else r) (db_redemptions (sh_db sh))\<rparr>) sh"

definition accept_terms :: "time \<Rightarrow> uuid \<Rightarrow> string \<Rightarrow> string \<Rightarrow> shop \<Rightarrow> shop" where
  "accept_terms now u external_ref version sh =
     (case db_subs (sh_db sh) u of
        None \<Rightarrow> sh
      | Some s \<Rightarrow>
          if sb_source s = Payment \<and> sb_external_ref s = Some external_ref
          then with_db ((sh_db sh)\<lparr>db_subs := (db_subs (sh_db sh))(u \<mapsto>
                 s\<lparr>sb_terms_version := Some (take 40 version),
                   sb_terms_accepted_at := or_else (sb_terms_accepted_at s) (Some now)\<rparr>)\<rparr>) sh
          else sh)"

definition mirror_in ::
  "(time \<Rightarrow> time) \<Rightarrow> time \<Rightarrow> 'g payments option \<Rightarrow> uuid \<Rightarrow> gateway_subscription \<Rightarrow> mirror_options
     \<Rightarrow> ('g, payment_change option) op"
where
  "mirror_in month_start now pays u subscription options =
     (case snapshot_of subscription of
        None \<Rightarrow> eret None
      | Some snap \<Rightarrow>
          ebind (case mo_event options of
                   None \<Rightarrow> eret True
                 | Some (i, kind) \<Rightarrow> claim_event now i kind) (\<lambda>first.
          if \<not> first then eret None
          else
            ebind (learn_customer u (gw_customer_id subscription)) (\<lambda>_.
            ebind (billing_op (apply_payment_subscription now u snap)) (\<lambda>applied.
            ebind (case applied of
                     Changed change \<Rightarrow> eret (Some change)
                   | Unchanged \<Rightarrow> eret None
                   | Duplicate current_ref \<Rightarrow>
                       resolve_duplicate month_start now pays u subscription snap current_ref) (\<lambda>change.
            ebind (case mo_redemption_id options of
                     None \<Rightarrow> eret ()
                   | Some i \<Rightarrow> modify (spend_redemption now i u)) (\<lambda>_.
            ebind (case mo_terms_version options of
                     None \<Rightarrow> eret ()
                   | Some version \<Rightarrow> modify (accept_terms now u (gw_id subscription) version)) (\<lambda>_.
            eret change)))))))"

text \<open>What follows a committed change.\<close>

definition notify :: "notification list \<Rightarrow> shop \<Rightarrow> shop" where
  "notify ns sh = with_db (notify_all ns (sh_db sh)) sh"

definition drop_lost_shares :: "time \<Rightarrow> uuid \<Rightarrow> shop \<Rightarrow> shop" where
  "drop_lost_shares now u sh = sh\<lparr>sh_pt := snd (revoke_shares_if_lost now u (sh_pt sh))\<rparr>"

definition after_change :: "time \<Rightarrow> uuid \<Rightarrow> payment_change option \<Rightarrow> ('g, unit) op" where
  "after_change now u change =
     (case change of
        None \<Rightarrow> eret ()
      | Some c \<Rightarrow>
          ebind (modify (notify (case change_notification c u of Some n \<Rightarrow> [n] | None \<Rightarrow> []))) (\<lambda>_.
          if change_ended c then modify (drop_lost_shares now u) else eret ()))"

section \<open>Whose subscription it is\<close>

definition owner_of ::
  "(string \<Rightarrow> uuid option) \<Rightarrow> gateway_subscription \<Rightarrow> string option \<Rightarrow> shop \<Rightarrow> uuid option"
where
  "owner_of parse_uuid subscription client_reference sh =
     (let exists = (\<lambda>u. user (sh_db sh) u \<noteq> None) in
      or_else (opt_filter exists (gw_user_id subscription))
        (or_else
           (if gw_customer_id subscription = [] then None
            else user_by_customer (gw_customer_id subscription) sh)
           (opt_filter exists (Option.bind client_reference parse_uuid))))"

definition sync_subscription ::
  "(string \<Rightarrow> uuid option) \<Rightarrow> (time \<Rightarrow> time) \<Rightarrow> time \<Rightarrow> 'g payments \<Rightarrow> string \<Rightarrow> string option
     \<Rightarrow> mirror_options \<Rightarrow> ('g, uuid option) op"
where
  "sync_subscription parse_uuid month_start now pay subscription_id client_reference options =
     ebind (atomically
       (ebind (provided (gt_get_subscription (pm_gateway pay) subscription_id)) (\<lambda>subscription.
        ebind (reading (owner_of parse_uuid subscription client_reference)) (\<lambda>owner.
        case owner of
          None \<Rightarrow> eret None
        | Some u \<Rightarrow>
            ebind (mirror_in month_start now (Some pay) u subscription options) (\<lambda>change.
            eret (Some (u, change)))))))
     (\<lambda>outcome.
       case outcome of
         None \<Rightarrow> eret None
       | Some (u, change) \<Rightarrow> ebind (after_change now u change) (\<lambda>_. eret (Some u)))"

section \<open>Reconciliation\<close>

text \<open>Past the renewal grace, or the grace of a failed payment: \<open>late\<close> is the end that counts.\<close>

definition lapsed :: "time \<Rightarrow> time \<Rightarrow> sub_row \<Rightarrow> bool" where
  "lapsed now late s \<longleftrightarrow>
     sb_source s = Payment \<and> sb_status s \<in> set [Trialing, Active, PastDue]
     \<and> (is_some_and (sb_current_period_end s) (\<lambda>e. e \<le> late)
        \<or> sb_status s = PastDue
          \<and> is_some_and (sb_past_due_since s) (\<lambda>t. t \<le> now - days PAYMENT_GRACE_DAYS))"

definition expire_lapsed_in ::
  "time \<Rightarrow> uuid \<Rightarrow> string option \<Rightarrow> db \<Rightarrow> api_error + (string option \<times> db)"
where
  "expire_lapsed_in now u external_ref db =
     (case opt_filter (\<lambda>s. lapsed now (now - days RENEWAL_GRACE_DAYS) s
                           \<and> sb_external_ref s = external_ref) (db_subs db u) of
        None \<Rightarrow> Inr (None, db)
      | Some s \<Rightarrow>
          rbind (write_sub u (s\<lparr>sb_status := Expired, sb_updated_at := now\<rparr>) db) (\<lambda>db.
          rbind (record_event now u ''expired'' (Some s) (Some (sb_plan_code s)) (Some Expired)
                   (JObj [(''source'', JStr (source_key Payment)),
                          (''external_ref'', json_of_opt JStr external_ref)]) None db) (\<lambda>db.
          Inr (Some (sb_plan_code s), db))))"

definition after_expiry :: "time \<Rightarrow> uuid \<Rightarrow> string option \<Rightarrow> ('g, unit) op" where
  "after_expiry now u plan_code =
     (case plan_code of
        None \<Rightarrow> eret ()
      | Some p \<Rightarrow>
          ebind (modify (notify [subscription_changed u ''expired'' (Some p) (Some ''expired'') (Some now)]))
            (\<lambda>_. modify (drop_lost_shares now u)))"

definition expire_lapsed :: "time \<Rightarrow> uuid \<Rightarrow> string option \<Rightarrow> ('g, bool) op" where
  "expire_lapsed now u external_ref =
     ebind (billing_op (expire_lapsed_in now u external_ref)) (\<lambda>expired.
     ebind (after_expiry now u expired) (\<lambda>_.
     eret (expired \<noteq> None)))"

definition out_of_grace :: "time \<Rightarrow> uuid \<Rightarrow> string \<Rightarrow> shop \<Rightarrow> bool" where
  "out_of_grace now u external_ref sh =
     is_some_and (db_subs (sh_db sh) u) (\<lambda>s. sb_external_ref s = Some external_ref
       \<and> sb_status s = PastDue
       \<and> is_some_and (sb_past_due_since s) (\<lambda>t. t \<le> now - days PAYMENT_GRACE_DAYS))"

text \<open>A renewal that still fails after the grace period is canceled at the provider too.\<close>

definition cancel_if_failing ::
  "'g payments \<Rightarrow> bool \<Rightarrow> string \<Rightarrow> gateway_subscription \<Rightarrow> ('g, gateway_subscription) op"
where
  "cancel_if_failing pay out external_ref subscription =
     (if out \<and> gw_status subscription \<in> set [''past_due'', ''unpaid'']
      then
        ebind (provided (gt_cancel_now (pm_gateway pay) external_ref)) (\<lambda>_.
        provided (gt_get_subscription (pm_gateway pay) external_ref))
      else eret subscription)"

definition reconcile_one ::
  "(time \<Rightarrow> time) \<Rightarrow> time \<Rightarrow> 'g payments \<Rightarrow> uuid \<Rightarrow> string \<Rightarrow> ('g, bool) op"
where
  "reconcile_one month_start now pay u external_ref =
     ebind (atomically
       (ebind (etry (ask (gt_get_subscription (pm_gateway pay) external_ref))) (\<lambda>r.
        ebind (case r of
                 Inr subscription \<Rightarrow> eret (Some subscription)
               | Inl e \<Rightarrow> if is_missing e then eret None else efail (provider_error e)) (\<lambda>fetched.
        ebind (case fetched of
                 None \<Rightarrow> eret None
               | Some subscription \<Rightarrow>
                   ebind (reading (out_of_grace now u external_ref)) (\<lambda>out.
                   ebind (cancel_if_failing pay out external_ref subscription) (\<lambda>subscription.
                   mirror_in month_start now (Some pay) u subscription no_options))) (\<lambda>change.
        ebind (billing_op (expire_lapsed_in now u (Some external_ref))) (\<lambda>expired.
        eret (change, expired)))))))
     (\<lambda>(change, expired).
        ebind (after_change now u change) (\<lambda>_.
        ebind (after_expiry now u expired) (\<lambda>_.
        eret (expired \<noteq> None))))"

definition reconcile_due ::
  "(time \<Rightarrow> time) \<Rightarrow> time \<Rightarrow> 'g payments option \<Rightarrow> ('g, int) op"
where
  "reconcile_due month_start now pays =
     ebind (reading (\<lambda>sh. map (\<lambda>(u, s). (u, sb_external_ref s))
              (filter (\<lambda>(_, s). lapsed now now s) (sub_rows (sh_db sh))))) (\<lambda>due.
     efold (\<lambda>expired (u, external_ref).
       ebind (etry
         (case (pays, external_ref) of
            (Some pay, Some i) \<Rightarrow> reconcile_one month_start now pay u i
          | _ \<Rightarrow> expire_lapsed now u external_ref)) (\<lambda>r :: api_error + bool.
       eret (if r = Inr True then expired + 1 else expired))) 0 due)"

text \<open>Whether the local row already says what the provider says.\<close>

definition in_sync :: "uuid \<Rightarrow> gateway_subscription \<Rightarrow> shop \<Rightarrow> bool" where
  "in_sync u subscription sh =
     (case snapshot_of subscription of
        None \<Rightarrow> True
      | Some snap \<Rightarrow>
          let live = is_some_and (ps_status snap) is_live in
          (case opt_filter (\<lambda>s. sb_source s = Payment \<and> sb_external_ref s = Some (gw_id subscription))
                  (db_subs (sh_db sh) u) of
             Some s \<Rightarrow>
               Some (sb_status s) = ps_status snap
               \<and> (\<not> live \<or> sb_current_period_end s = ps_current_period_end snap)
               \<and> sb_cancel_at_period_end s = ps_cancel_at_period_end snap
               \<and> sb_provider_status s = Some (ps_provider_status snap)
               \<and> sb_plan_code s = ps_plan_code snap
           | None \<Rightarrow> \<not> live))"

definition MAX_RECONCILE_PAGES :: nat where
  "MAX_RECONCILE_PAGES = 50"

definition reconcile_page ::
  "(string \<Rightarrow> uuid option) \<Rightarrow> (time \<Rightarrow> time) \<Rightarrow> time \<Rightarrow> 'g payments \<Rightarrow> gateway_subscription list \<Rightarrow> int
     \<Rightarrow> ('g, int) op"
where
  "reconcile_page parse_uuid month_start now pay subscriptions drifted =
     efold (\<lambda>drifted subscription.
       if gw_plan_code subscription = None then eret drifted
       else
         ebind (reading (owner_of parse_uuid subscription None)) (\<lambda>owner.
         case owner of
           None \<Rightarrow> eret drifted
         | Some u \<Rightarrow>
             ebind (reading (in_sync u subscription)) (\<lambda>same.
             if same then eret drifted
             else
               ebind (etry (sync_subscription parse_uuid month_start now pay (gw_id subscription) None
                              no_options)) (\<lambda>r :: api_error + uuid option.
               eret (case r of Inr _ \<Rightarrow> drifted + 1 | Inl _ \<Rightarrow> drifted))))) drifted subscriptions"

fun reconcile_pages ::
  "(string \<Rightarrow> uuid option) \<Rightarrow> (time \<Rightarrow> time) \<Rightarrow> time \<Rightarrow> 'g payments \<Rightarrow> nat \<Rightarrow> string option \<Rightarrow> int
     \<Rightarrow> ('g, int) op"
where
  "reconcile_pages parse_uuid month_start now pay 0 after drifted = eret drifted"
| "reconcile_pages parse_uuid month_start now pay (Suc n) after drifted =
     ebind (provided (gt_list_subscriptions (pm_gateway pay) None after)) (\<lambda>page.
     ebind (reconcile_page parse_uuid month_start now pay (pg_items page) drifted) (\<lambda>drifted.
     case (pg_has_more page, pg_last_id page) of
       (True, Some bottom) \<Rightarrow> reconcile_pages parse_uuid month_start now pay n (Some bottom) drifted
     | _ \<Rightarrow> eret drifted))"

definition reconcile_all ::
  "(string \<Rightarrow> uuid option) \<Rightarrow> (time \<Rightarrow> time) \<Rightarrow> time \<Rightarrow> 'g payments option \<Rightarrow> ('g, int) op"
where
  "reconcile_all parse_uuid month_start now pays =
     (case pays of
        None \<Rightarrow> eret 0
      | Some pay \<Rightarrow> reconcile_pages parse_uuid month_start now pay MAX_RECONCILE_PAGES None 0)"

end
