(* ===== verification/Checkout.thy ===== *)
theory Checkout
  imports Mirror
begin

text \<open>
  Buying and changing a paid plan, and the provider's customer behind an account, from
  \<^verbatim>\<open>src/src/services/payments.rs\<close>: checkout pages, plan changes, the billing portal,
  canceling everything of an account, and the queue of customers still to be deleted.
\<close>

section \<open>The account and its customer\<close>

record account =
  ac_username :: string
  ac_email :: "string option"
  ac_email_verified_at :: "time option"
  ac_customer_id :: "string option"
  ac_generation :: int

definition load_account :: "uuid \<Rightarrow> shop \<Rightarrow> api_error + account" where
  "load_account u sh =
     (case user (sh_db sh) u of
        None \<Rightarrow> Inl NotFound
      | Some r \<Rightarrow>
          Inr \<lparr>ac_username = sh_usernames sh u, ac_email = us_email r,
               ac_email_verified_at = us_email_verified_at r, ac_customer_id = sh_customers sh u,
               ac_generation = sh_generations sh u\<rparr>)"

definition fetching :: "(shop \<Rightarrow> api_error + 'a) \<Rightarrow> ('g, 'a) op" where
  "fetching f w = (f (snd w), w)"

definition MIN_TRIAL_HOURS :: int where "MIN_TRIAL_HOURS = 49"
definition MAX_TRIAL_DAYS :: int where "MAX_TRIAL_DAYS = 729"
definition CHECKOUT_SESSION_HOURS :: int where "CHECKOUT_SESSION_HOURS = 24"

definition hours :: "int \<Rightarrow> int" where
  "hours n = n * 3600000000"

definition user_locale :: "uuid \<Rightarrow> shop \<Rightarrow> string" where
  "user_locale u sh = unwrap_or (opt_filter (\<lambda>l. l \<in> set SUPPORTED_LANGUAGES) (sh_languages sh u)) ''en''"

definition ensure_enforced :: "shop \<Rightarrow> api_error + unit" where
  "ensure_enforced sh =
     (if bs_enforced (load_settings (sh_db sh)) then Inr () else Inl (rule 409 ''BILLING_NOT_ENFORCED''))"

definition purchasable_plan :: "string \<Rightarrow> billing_interval \<Rightarrow> shop \<Rightarrow> api_error + plan" where
  "purchasable_plan plan_code interval sh =
     (case opt_filter pl_is_public (map_option plan_of_row (find_plan_row (sh_db sh) plan_code)) of
        None \<Rightarrow> Inl (rule 404 ''PLAN_NOT_FOUND'')
      | Some p \<Rightarrow> if price_of interval p \<le> 0 then Inl (rule 400 ''PLAN_NOT_PURCHASABLE'') else Inr p)"

definition price_spec_of :: "plan \<Rightarrow> billing_interval \<Rightarrow> price_spec" where
  "price_spec_of p interval =
     (let name = unwrap_or
        (opt_filter (\<lambda>n. trim n \<noteq> [])
           (find_map (\<lambda>l. Option.bind (json_get (pl_name p) l) as_str) [''pt-BR'', ''en'']))
        (pl_code p)
      in \<lparr>sp_plan_code = pl_code p, sp_product_name = ''Setlyst '' @ name, sp_interval = interval,
          sp_currency = pl_currency p, sp_unit_amount = price_of interval p\<rparr>)"

text \<open>How many accounts forgot the customer.\<close>

definition clear_customer :: "string \<Rightarrow> ('g, nat) op" where
  "clear_customer c =
     ebind (reading (\<lambda>sh. filter (\<lambda>(u, _). sh_customers sh u = Some c) (db_users (sh_db sh)))) (\<lambda>rows.
     ebind (reading (\<lambda>sh. list_ex (\<lambda>(u, _). sh_generations sh u \<ge> 2147483647) rows)) (\<lambda>overflow.
     if overflow then efail (DatabaseError (Database ''22003''))
     else
       ebind (modify (\<lambda>sh. sh
         \<lparr>sh_customers := (\<lambda>u. if u \<in> fst ` set rows then None else sh_customers sh u),
          sh_generations := (\<lambda>u. if u \<in> fst ` set rows then sh_generations sh u + 1
                                 else sh_generations sh u)\<rparr>)) (\<lambda>_.
       eret (length rows))))"

text \<open>The first customer stored wins; the column is unique.\<close>

definition store_customer :: "uuid \<Rightarrow> string \<Rightarrow> ('g, string) op" where
  "store_customer u c =
     ebind (reading (\<lambda>sh. (user (sh_db sh) u, sh_customers sh u, user_by_customer c sh)))
       (\<lambda>(found, known, owner).
         if found = None then efail (DatabaseError OtherSqlx)
         else case known of
           Some k \<Rightarrow> eret k
         | None \<Rightarrow>
             if \<not> varchar 255 c then efail too_long
             else if owner \<noteq> None then efail (DatabaseError (Database ''23505''))
             else ebind (modify (\<lambda>sh. sh\<lparr>sh_customers := (sh_customers sh)(u \<mapsto> c)\<rparr>)) (\<lambda>_. eret c))"

definition ensure_customer ::
  "'g payments \<Rightarrow> uuid \<Rightarrow> account \<Rightarrow> string \<Rightarrow> ('g, string) op"
where
  "ensure_customer pay u acc locale_key =
     (case ac_customer_id acc of
        Some i \<Rightarrow> eret i
      | None \<Rightarrow>
          ebind (provided (gt_create_customer (pm_gateway pay) u (ac_email acc) (ac_username acc)
                             locale_key (ac_generation acc))) (\<lambda>i.
          store_customer u i))"

section \<open>Discounts\<close>

definition running_promotions :: "time \<Rightarrow> shop \<Rightarrow> promotion_row list" where
  "running_promotions now sh =
     filter (\<lambda>p. pn_active p \<and> pn_starts_at p \<le> now \<and> pn_ends_at p > now) (sh_promotions sh)"

text \<open>The unused discounts of an account: percent, when it was redeemed, the redemption.\<close>

definition discount_redemptions :: "time \<Rightarrow> uuid \<Rightarrow> shop \<Rightarrow> (int \<times> time \<times> uuid) list" where
  "discount_redemptions now u sh =
     List.map_filter (\<lambda>r.
       case (find (\<lambda>p. pm_id p = rd_promo r) (db_promos (sh_db sh)),
             find (\<lambda>(_, k). k = (rd_promo r, rd_user r)) (sh_redemption_ids sh)) of
         (Some p, Some (i, _)) \<Rightarrow>
           (case pm_discount_percent p of
              Some percent \<Rightarrow>
                if rd_user r = u \<and> pm_kind p = Discount \<and> rd_applied_at r = None
                   \<and> pm_disabled_at p = None \<and> is_none_or (pm_expires_at p) (\<lambda>e. e > now)
                then Some (percent, rd_redeemed_at r, i) else None
            | None \<Rightarrow> None)
       | _ \<Rightarrow> None) (db_redemptions (sh_db sh))"

definition best_redemption :: "time \<Rightarrow> uuid \<Rightarrow> shop \<Rightarrow> (uuid \<times> int) option" where
  "best_redemption now u sh =
     (case sort_key (\<lambda>(percent, _, _). - percent)
             (sort_key (\<lambda>(_, at, _). at) (discount_redemptions now u sh)) of
        [] \<Rightarrow> None
      | (percent, _, i) # _ \<Rightarrow> Some (i, percent))"

definition best_promotion :: "time \<Rightarrow> string \<Rightarrow> shop \<Rightarrow> int option" where
  "best_promotion now plan_code sh =
     map_option pn_discount_percent
       (max_by_key pn_discount_percent
          (filter (\<lambda>p. is_none_or (pn_plan_code p) (\<lambda>c. c = plan_code)) (running_promotions now sh)))"

definition best_discount :: "time \<Rightarrow> uuid \<Rightarrow> string \<Rightarrow> shop \<Rightarrow> (int \<times> uuid option) option" where
  "best_discount now u plan_code sh =
     (case (best_promotion now plan_code sh, best_redemption now u sh) of
        (Some p, Some (i, r)) \<Rightarrow> if r > p then Some (r, Some i) else Some (p, None)
      | (Some p, None) \<Rightarrow> Some (p, None)
      | (None, Some (i, r)) \<Rightarrow> Some (r, Some i)
      | (None, None) \<Rightarrow> None)"

section \<open>Checkout\<close>

definition app_base :: "string option \<Rightarrow> string" where
  "app_base config = trim_end_matches (\<lambda>c. c = CHR ''/'') (unwrap_or config ''http://localhost:3000'')"

definition app_url :: "string option \<Rightarrow> string \<Rightarrow> string \<Rightarrow> string" where
  "app_url config locale_key path = app_base config @ ''/'' @ locale_key @ path"

text \<open>The text around the link to the Subscription Terms, in the language of the page.\<close>

definition terms_text :: "string \<Rightarrow> string \<times> string" where
  "terms_text locale_key =
     (if locale_key = ''pt-BR'' then
        (''Li e aceito os [Termos de Assinatura]('',
         ''). A assinatura renova automaticamente pelo pre'' @ [CHR 0xE7] @ ''o vigente; voc'' @ [CHR 0xEA]
         @ '' pode cancelar quando quiser e desistir em at'' @ [CHR 0xE9]
         @ '' 7 dias da cobran'' @ [CHR 0xE7] @ ''a com reembolso integral.'')
      else if locale_key = ''es'' then
        (''Le'' @ [CHR 0xED] @ '' y acepto los [T'' @ [CHR 0xE9] @ ''rminos de Suscripci'' @ [CHR 0xF3] @ ''n]('',
         ''). La suscripci'' @ [CHR 0xF3] @ ''n se renueva autom'' @ [CHR 0xE1]
         @ ''ticamente al precio vigente; puedes cancelarla cuando quieras y desistir hasta 7 d''
         @ [CHR 0xED] @ ''as despu'' @ [CHR 0xE9] @ ''s del cobro con reembolso total.'')
      else
        (''I have read and accept the [Subscription Terms]('',
         ''). The subscription renews automatically at the current price; you can cancel at any ''
         @ ''time and withdraw within 7 days of the charge for a full refund.''))"

definition terms_message :: "string option \<Rightarrow> string \<Rightarrow> string" where
  "terms_message config locale_key =
     (case terms_text locale_key of
        (opening, rest) \<Rightarrow> opening @ app_url config locale_key ''/legal/subscription'' @ rest)"

text \<open>Whether the customer has a subscription that charges; \<open>None\<close> when there is no such customer.\<close>

definition provider_has_live_subscription :: "'g payments \<Rightarrow> string \<Rightarrow> ('g, bool option) op" where
  "provider_has_live_subscription pay customer_id =
     ebind (etry (ask (gt_list_subscriptions (pm_gateway pay) (Some customer_id) None))) (\<lambda>r.
     case r of
       Inr page \<Rightarrow> eret (Some (list_ex may_charge (pg_items page)))
     | Inl e \<Rightarrow> if is_missing e then eret None else efail (provider_error e))"

record checkout_payload =
  ck_plan_code :: string
  ck_interval :: billing_interval

definition validate_checkout :: "checkout_payload \<Rightarrow> api_error + unit" where
  "validate_checkout payload =
     (if len_between 2 32 (ck_plan_code payload) then Inr () else Inl ValidationError)"

text \<open>The rest of a running trial, as the Unix time of the first charge.\<close>

definition carried_trial :: "time \<Rightarrow> sub_row option \<Rightarrow> int option" where
  "carried_trial now subscription =
     map_option (\<lambda>end_at. timestamp (min end_at (now + days MAX_TRIAL_DAYS)))
       (opt_filter (\<lambda>end_at. end_at > now + hours MIN_TRIAL_HOURS)
          (Option.bind (opt_filter (\<lambda>s. sb_status s = Trialing \<and> sub_effective now s) subscription)
             sb_trial_ends_at))"

text \<open>
  The customer to charge: the stored one unless the provider no longer knows it; refused
  when it has a subscription that may charge.
\<close>

definition checkout_customer :: "'g payments \<Rightarrow> uuid \<Rightarrow> account \<Rightarrow> string \<Rightarrow> ('g, string) op" where
  "checkout_customer pay u acc locale_key =
     ebind (ensure_customer pay u acc locale_key) (\<lambda>customer_id.
     ebind (provider_has_live_subscription pay customer_id) (\<lambda>live.
     case live of
       Some True \<Rightarrow> efail paid_subscription_active
     | Some False \<Rightarrow> eret customer_id
     | None \<Rightarrow>
         ebind (clear_customer customer_id) (\<lambda>_.
         ebind (fetching (load_account u)) (\<lambda>acc.
         ensure_customer pay u acc locale_key))))"

definition checkout_coupon ::
  "(uuid \<Rightarrow> string) \<Rightarrow> time \<Rightarrow> 'g payments \<Rightarrow> uuid \<Rightarrow> price_spec \<Rightarrow> (int \<times> uuid option) option
     \<Rightarrow> ('g, string option \<times> uuid option) op"
where
  "checkout_coupon uuid_text now pay u spec discount =
     (case discount of
        None \<Rightarrow> eret (None, None)
      | Some (percent, redemption) \<Rightarrow>
          let key = ''setlyst-coupon-'' @ uuid_text u @ ''-'' @ show_int percent @ ''-''
                @ (case redemption of None \<Rightarrow> ''promotion'' | Some i \<Rightarrow> uuid_text i) @ ''-''
                @ show_int (timestamp now div 3600)
          in ebind (provided (gt_create_coupon (pm_gateway pay) percent
                      (sp_product_name spec @ '' -'' @ show_int percent @ ''%'') key)) (\<lambda>c.
             eret (Some c, redemption)))"

definition open_sessions :: "uuid \<Rightarrow> shop \<Rightarrow> session_row list" where
  "open_sessions u sh =
     filter (\<lambda>s. ss_user s = u \<and> ss_expired_at s = None \<and> ss_completed_at s = None) (sh_sessions sh)"

definition update_session ::
  "string \<Rightarrow> (session_row \<Rightarrow> session_row) \<Rightarrow> shop \<Rightarrow> shop"
where
  "update_session i f sh =
     sh\<lparr>sh_sessions := map (\<lambda>s. if ss_session_id s = i then f s else s) (sh_sessions sh)\<rparr>"

text \<open>Earlier pages that may still be open are expired at the provider, then marked.\<close>

definition expire_earlier :: "time \<Rightarrow> 'g payments \<Rightarrow> session_row list \<Rightarrow> ('g, unit) op" where
  "expire_earlier now pay sessions =
     efor sessions (\<lambda>s.
       ebind (if ss_created_at s > now - hours CHECKOUT_SESSION_HOURS
              then provided (gt_expire_checkout (pm_gateway pay) (ss_session_id s)) else eret ()) (\<lambda>_.
       modify (update_session (ss_session_id s) (\<lambda>s. s\<lparr>ss_expired_at := Some now\<rparr>))))"

definition insert_session :: "time \<Rightarrow> uuid \<Rightarrow> string \<Rightarrow> ('g, unit) op" where
  "insert_session now u i =
     (if \<not> varchar 255 i then efail too_long
      else modify (\<lambda>sh.
        if list_ex (\<lambda>s. ss_session_id s = i) (sh_sessions sh) then sh
        else sh\<lparr>sh_sessions := sh_sessions sh
               @ [\<lparr>ss_session_id = i, ss_user = u, ss_created_at = now, ss_expired_at = None,
                   ss_completed_at = None\<rparr>]\<rparr>))"

definition CURRENT_TERMS_VERSION :: string where
  "CURRENT_TERMS_VERSION = ''2026-09-24''"

definition open_checkout ::
  "(uuid \<Rightarrow> string) \<Rightarrow> string option \<Rightarrow> time \<Rightarrow> 'g payments \<Rightarrow> uuid \<Rightarrow> checkout_payload \<Rightarrow> plan \<Rightarrow> string
     \<Rightarrow> string \<Rightarrow> string \<Rightarrow> int option \<Rightarrow> string option \<Rightarrow> uuid option \<Rightarrow> ('g, checkout_session) op"
where
  "open_checkout uuid_text config now pay u payload p customer_id price_id locale_key trial_end coupon_id
       redemption_id =
     atomically
       (ebind (reading (open_sessions u)) (\<lambda>earlier.
        ebind (expire_earlier now pay earlier) (\<lambda>_.
        ebind (reading (\<lambda>sh. length (filter (\<lambda>s. ss_user s = u) (sh_sessions sh)))) (\<lambda>attempt.
        ebind (provided (gt_create_checkout (pm_gateway pay)
                 \<lparr>cr_user_id = u, cr_customer_id = customer_id, cr_price_id = price_id,
                  cr_plan_code = pl_code p, cr_interval = ck_interval payload,
                  cr_success_url =
                    app_url config locale_key ''/dashboard/settings?checkout=success#subscription'',
                  cr_cancel_url =
                    app_url config locale_key ''/dashboard/settings?checkout=canceled#subscription'',
                  cr_locale = locale_key, cr_trial_end = trial_end, cr_coupon_id = coupon_id,
                  cr_redemption_id = redemption_id,
                  cr_terms_message = Some (terms_message config locale_key),
                  cr_terms_version = Some CURRENT_TERMS_VERSION,
                  cr_idempotency_key =
                    ''setlyst-checkout-'' @ uuid_text u @ ''-'' @ pl_code p @ ''-''
                      @ interval_key (ck_interval payload) @ ''-'' @ show_nat attempt\<rparr>)) (\<lambda>session.
        ebind (insert_session now u (cs_id session)) (\<lambda>_.
        eret session))))))"

definition start_checkout ::
  "(uuid \<Rightarrow> string) \<Rightarrow> string option \<Rightarrow> time \<Rightarrow> 'g payments option \<Rightarrow> uuid \<Rightarrow> checkout_payload
     \<Rightarrow> ('g, string) op"
where
  "start_checkout uuid_text config now pays u payload =
     ebind (eresult (validate_checkout payload)) (\<lambda>_.
     ebind (the_payments pays) (\<lambda>pay.
     ebind (fetching ensure_enforced) (\<lambda>_.
     ebind (fetching (purchasable_plan (ck_plan_code payload) (ck_interval payload))) (\<lambda>p.
     ebind (fetching (load_account u)) (\<lambda>acc.
     if ac_email acc = None \<or> ac_email_verified_at acc = None
     then efail (rule 403 ''EMAIL_NOT_VERIFIED'')
     else
       ebind (reading (\<lambda>sh. db_subs (sh_db sh) u)) (\<lambda>subscription.
       if is_some_and subscription (paid_and_effective now) then efail paid_subscription_active
       else
         ebind (reading (user_locale u)) (\<lambda>locale_key.
         ebind (reading (best_discount now u (pl_code p))) (\<lambda>discount.
         ebind (checkout_customer pay u acc locale_key) (\<lambda>customer_id.
         let spec = price_spec_of p (ck_interval payload) in
         ebind (provided (gt_ensure_price (pm_gateway pay) spec)) (\<lambda>price_id.
         ebind (checkout_coupon uuid_text now pay u spec discount) (\<lambda>(coupon_id, redemption_id).
         ebind (open_checkout uuid_text config now pay u payload p customer_id price_id locale_key
                  (carried_trial now subscription) coupon_id redemption_id) (\<lambda>session.
         eret (cs_url session)))))))))))))"

section \<open>Changing the plan\<close>

definition no_paid_subscription :: api_error where
  "no_paid_subscription = rule 409 ''NO_PAID_SUBSCRIPTION''"

definition paid_subscription_ref :: "time \<Rightarrow> uuid \<Rightarrow> shop \<Rightarrow> string option" where
  "paid_subscription_ref now u sh =
     Option.bind (opt_filter (paid_and_effective now) (db_subs (sh_db sh) u)) sb_external_ref"

definition pending_change_error :: "gateway_subscription \<Rightarrow> api_error" where
  "pending_change_error updated =
     (let declined = (gw_latest_payment_status updated = Some ''requires_payment_method'') in
      case opt_filter (\<lambda>_. gw_latest_invoice_status updated = Some ''open'' \<and> \<not> declined)
             (gw_hosted_invoice_url updated) of
        Some url \<Rightarrow>
          rule_with_meta 402 ''PAYMENT_ACTION_REQUIRED'' (JObj [(''hosted_invoice_url'', JStr url)])
      | None \<Rightarrow> rule 402 ''PAYMENT_DECLINED'')"

definition check_changeable :: "gateway_subscription \<Rightarrow> api_error + unit" where
  "check_changeable current =
     (if gw_status current \<in> set [''past_due'', ''unpaid''] then Inl (rule 409 ''SUBSCRIPTION_PAST_DUE'')
      else if gw_status current \<notin> set [''active'', ''trialing''] then Inl no_paid_subscription
      else if gw_cancel_at_period_end current then Inl (rule 409 ''SUBSCRIPTION_CANCELING'')
      else Inr ())"

text \<open>\<open>change_plan\<close>, up to the billing state it answers with.\<close>

definition change_plan ::
  "(time \<Rightarrow> time) \<Rightarrow> time \<Rightarrow> 'g payments option \<Rightarrow> uuid \<Rightarrow> checkout_payload \<Rightarrow> ('g, unit) op"
where
  "change_plan month_start now pays u payload =
     ebind (eresult (validate_checkout payload)) (\<lambda>_.
     ebind (the_payments pays) (\<lambda>pay.
     ebind (fetching ensure_enforced) (\<lambda>_.
     ebind (fetching (purchasable_plan (ck_plan_code payload) (ck_interval payload))) (\<lambda>p.
     ebind (reading (paid_subscription_ref now u)) (\<lambda>found.
     case found of
       None \<Rightarrow> efail no_paid_subscription
     | Some subscription_id \<Rightarrow>
         ebind (atomically
           (ebind (provided (gt_get_subscription (pm_gateway pay) subscription_id)) (\<lambda>current.
            ebind (eresult (check_changeable current)) (\<lambda>_.
            ebind (provided (gt_ensure_price (pm_gateway pay) (price_spec_of p (ck_interval payload))))
              (\<lambda>price_id.
            if price_id = gw_price_id current
               \<or> gw_plan_code current = Some (pl_code p) \<and> gw_interval current = Some (ck_interval payload)
            then efail (rule 409 ''PLAN_ALREADY_ACTIVE'')
            else
              ebind (provided (gt_change_price (pm_gateway pay) (gw_id current) (gw_item_id current) price_id))
                (\<lambda>updated.
              if gw_has_pending_update updated then efail (pending_change_error updated)
              else mirror_in month_start now pays u updated no_options))))))
           (\<lambda>change. after_change now u change))))))"

definition open_portal :: "string option \<Rightarrow> 'g payments option \<Rightarrow> uuid \<Rightarrow> ('g, string) op" where
  "open_portal config pays u =
     ebind (the_payments pays) (\<lambda>pay.
     ebind (fetching (load_account u)) (\<lambda>acc.
     case ac_customer_id acc of
       None \<Rightarrow> efail no_paid_subscription
     | Some customer_id \<Rightarrow>
         ebind (reading (user_locale u)) (\<lambda>locale_key.
         ebind (etry (ask (gt_create_portal (pm_gateway pay) customer_id
                  (app_url config locale_key ''/dashboard/settings#subscription'') locale_key))) (\<lambda>r.
         case r of
           Inr url \<Rightarrow> eret url
         | Inl e \<Rightarrow>
             if is_missing e then ebind (clear_customer customer_id) (\<lambda>_. efail no_paid_subscription)
             else efail (provider_error e)))))"

section \<open>Leaving the provider\<close>

definition cancel_paid_subscription :: "time \<Rightarrow> 'g payments option \<Rightarrow> uuid \<Rightarrow> ('g, unit) op" where
  "cancel_paid_subscription now pays u =
     ebind (reading (paid_subscription_ref now u)) (\<lambda>mirrored.
     ebind (reading (\<lambda>sh. sh_customers sh u)) (\<lambda>customer.
     case pays of
       None \<Rightarrow> eret ()
     | Some pay \<Rightarrow>
         ebind (case customer of
                  None \<Rightarrow> eret []
                | Some c \<Rightarrow>
                    ebind (etry (ask (gt_list_subscriptions (pm_gateway pay) (Some c) None))) (\<lambda>r.
                    case r of
                      Inr page \<Rightarrow> eret (map gw_id (filter may_charge (pg_items page)))
                    | Inl e \<Rightarrow> if is_missing e then eret [] else efail (provider_error e))) (\<lambda>more.
         efor (sort_key (map code) (remdups ((case mirrored of Some i \<Rightarrow> [i] | None \<Rightarrow> []) @ more)))
           (\<lambda>i. provided (gt_cancel_now (pm_gateway pay) i)))))"

text \<open>A customer whose deletion failed is queued; storing it is best effort.\<close>

definition queue_customer :: "time \<Rightarrow> string \<Rightarrow> string \<Rightarrow> shop \<Rightarrow> shop" where
  "queue_customer now c message sh =
     (if \<not> varchar 255 c \<or> list_ex (\<lambda>r. cl_customer_id r = c) (sh_cleanup sh) then sh
      else sh\<lparr>sh_cleanup := sh_cleanup sh
             @ [\<lparr>cl_customer_id = c, cl_attempts = 1, cl_last_error = take 500 message,
                 cl_next_attempt_at = now + hours 1, cl_created_at = now\<rparr>]\<rparr>)"

definition forget_customer :: "time \<Rightarrow> 'g payments option \<Rightarrow> string option \<Rightarrow> ('g, unit) op" where
  "forget_customer now pays customer_id =
     (case customer_id of
        None \<Rightarrow> eret ()
      | Some c \<Rightarrow>
          ebind (case pays of
                   None \<Rightarrow> eret (Some ''payments are not configured'')
                 | Some pay \<Rightarrow>
                     ebind (etry (ask (gt_delete_customer (pm_gateway pay) c))) (\<lambda>r.
                     eret (case r of Inr _ \<Rightarrow> None | Inl e \<Rightarrow> Some (payment_error_text e)))) (\<lambda>failure.
          case failure of
            None \<Rightarrow> eret ()
          | Some message \<Rightarrow> modify (queue_customer now c message)))"

text \<open>Hourly at first, then at most daily.\<close>

definition cleanup_wait :: "int \<Rightarrow> int" where
  "cleanup_wait attempts = hours (min (2 ^ nat (max 0 (min 5 attempts))) 24)"

definition due_cleanup :: "time \<Rightarrow> shop \<Rightarrow> (string \<times> int) list" where
  "due_cleanup now sh =
     map (\<lambda>r. (cl_customer_id r, cl_attempts r))
       (take 50 (sort_key cl_next_attempt_at (filter (\<lambda>r. cl_next_attempt_at r \<le> now) (sh_cleanup sh))))"

definition cleanup_done :: "string \<Rightarrow> shop \<Rightarrow> shop" where
  "cleanup_done c sh = sh\<lparr>sh_cleanup := filter (\<lambda>r. cl_customer_id r \<noteq> c) (sh_cleanup sh)\<rparr>"

definition cleanup_later :: "time \<Rightarrow> string \<Rightarrow> int \<Rightarrow> string \<Rightarrow> shop \<Rightarrow> shop" where
  "cleanup_later now c attempts message sh =
     sh\<lparr>sh_cleanup := map (\<lambda>r. if cl_customer_id r = c
          then r\<lparr>cl_attempts := cl_attempts r + 1, cl_last_error := take 500 message,
                 cl_next_attempt_at := now + cleanup_wait attempts\<rparr> else r) (sh_cleanup sh)\<rparr>"

definition process_cleanup_queue :: "time \<Rightarrow> 'g payments option \<Rightarrow> ('g, int) op" where
  "process_cleanup_queue now pays =
     (case pays of
        None \<Rightarrow> eret 0
      | Some pay \<Rightarrow>
          ebind (reading (due_cleanup now)) (\<lambda>due.
          efold (\<lambda>deleted (c, attempts).
            ebind (etry (ask (gt_delete_customer (pm_gateway pay) c))) (\<lambda>r.
            case r of
              Inr _ \<Rightarrow> ebind (modify (cleanup_done c)) (\<lambda>_. eret (deleted + 1))
            | Inl e \<Rightarrow>
                ebind (modify (cleanup_later now c attempts (payment_error_text e))) (\<lambda>_. eret deleted)))
            0 due))"

definition sync_customer_email :: "'g payments option \<Rightarrow> uuid \<Rightarrow> ('g, unit) op" where
  "sync_customer_email pays u =
     (case pays of
        None \<Rightarrow> eret ()
      | Some pay \<Rightarrow>
          ebind (fetching (load_account u)) (\<lambda>acc.
          case ac_customer_id acc of
            None \<Rightarrow> eret ()
          | Some customer_id \<Rightarrow>
              ebind (etry (ask (gt_update_customer (pm_gateway pay) customer_id (ac_email acc)
                                  (ac_username acc)))) (\<lambda>r.
              case r of
                Inr _ \<Rightarrow> eret ()
              | Inl e \<Rightarrow>
                  if is_missing e then ebind (clear_customer customer_id) (\<lambda>_. eret ()) else eret ())))"

end
