(* ===== verification/Webhook.thy ===== *)
theory Webhook
  imports Decimal Store
begin

text \<open>
  The signature of a webhook delivery and the event it carries, from
  \<^verbatim>\<open>src/src/payments/webhook.rs\<close>. The hash (the crates \<open>hmac\<close> and \<open>sha2\<close>) is a
  parameter: \<open>hmac secret message\<close> is the code computed over the message. A header is text,
  a payload is bytes; a byte is a character here, since the characters of the model are
  those below U+0100 and a header value holds visible ASCII only.

  The laws say which deliveries are accepted: exactly those with a signature of these very
  bytes under the secret, made within five minutes of now.
\<close>

section \<open>Numbers as text\<close>

text \<open>\<open>i64::from_str\<close>: an optional sign, then digits, within the range of the type.\<close>

definition parse_i64 :: "string \<Rightarrow> int option" where
  "parse_i64 s =
     (let (negative, digits) =
        (case s of
           [] \<Rightarrow> (False, [])
         | c # cs \<Rightarrow> if c = CHR ''-'' then (True, cs) else if c = CHR ''+'' then (False, cs)
                      else (False, s));
          n = (if negative then - parse_digits digits else parse_digits digits)
      in if digits = [] \<or> \<not> list_all is_ascii_digit digits then None
         else if n < - (2 ^ 63) \<or> n \<ge> 2 ^ 63 then None
         else Some n)"

text \<open>\<open>u8::from_str_radix(s, 16)\<close>, which accepts a plus sign before the digits.\<close>

definition hex_digit :: "char \<Rightarrow> nat option" where
  "hex_digit c =
     (if is_ascii_digit c then Some (code c - 48)
      else if 97 \<le> code c \<and> code c \<le> 102 then Some (code c - 87)
      else if 65 \<le> code c \<and> code c \<le> 70 then Some (code c - 55)
      else None)"

definition hex_byte :: "char \<Rightarrow> char \<Rightarrow> char option" where
  "hex_byte a b =
     (case (if a = CHR ''+'' then Some 0 else hex_digit a, hex_digit b) of
        (Some h, Some l) \<Rightarrow> Some (char_of (16 * h + l))
      | _ \<Rightarrow> None)"

fun decode_hex :: "string \<Rightarrow> string option" where
  "decode_hex [] = Some []"
| "decode_hex [_] = None"
| "decode_hex (a # b # rest) =
     (case (hex_byte a b, decode_hex rest) of
        (Some x, Some xs) \<Rightarrow> Some (x # xs)
      | _ \<Rightarrow> None)"

text \<open>\<open>{b:02x}\<close>.\<close>

definition nibble_char :: "nat \<Rightarrow> char" where
  "nibble_char n = (if n < 10 then digit_char n else char_of (87 + n))"

definition hex_of :: "string \<Rightarrow> string" where
  "hex_of bs = concat (map (\<lambda>b. [nibble_char (code b div 16), nibble_char (code b mod 16)]) bs)"

section \<open>Signatures\<close>

definition TOLERANCE_SECS :: int where
  "TOLERANCE_SECS = 300"

datatype signature_error = Malformed | Mismatch | ExpiredSignature

type_synonym hmac = "string \<Rightarrow> string \<Rightarrow> string"

definition expected_signature :: "hmac \<Rightarrow> string \<Rightarrow> string \<Rightarrow> string \<Rightarrow> string" where
  "expected_signature hmac payload stamp secret = hmac secret (stamp @ ''.'' @ payload)"

text \<open>The loop over the parts of the header: the last \<open>t\<close>, every \<open>v1\<close> in order.\<close>

fun header_parts :: "string list \<Rightarrow> string option \<times> string list \<Rightarrow> string option \<times> string list" where
  "header_parts [] acc = acc"
| "header_parts (part # parts) (t, sigs) =
     header_parts parts
       (case split_once (CHR ''='') (trim part) of
          Some (k, v) \<Rightarrow>
            if k = ''t'' then (Some v, sigs) else if k = ''v1'' then (t, sigs @ [v]) else (t, sigs)
        | None \<Rightarrow> (t, sigs))"

definition read_header :: "string \<Rightarrow> string option \<times> string list" where
  "read_header header = header_parts (split_char (CHR '','') header) (None, [])"

definition verify_signature ::
  "hmac \<Rightarrow> string \<Rightarrow> string \<Rightarrow> string \<Rightarrow> int \<Rightarrow> signature_error + unit"
where
  "verify_signature hmac payload header secret now =
     (let (t, signatures) = read_header header in
      case t of
        None \<Rightarrow> Inl Malformed
      | Some stamp \<Rightarrow>
     (case parse_i64 stamp of
        None \<Rightarrow> Inl Malformed
      | Some signed_at \<Rightarrow>
          if signatures = [] then Inl Malformed
          else
            let expected = expected_signature hmac payload stamp secret in
            if \<not> list_ex (\<lambda>candidate. decode_hex candidate = Some expected) signatures
            then Inl Mismatch
            else if wrap64 \<bar>wrap64 (now - signed_at)\<bar> > TOLERANCE_SECS then Inl ExpiredSignature
            else Inr ()))"

definition sign :: "hmac \<Rightarrow> string \<Rightarrow> string \<Rightarrow> int \<Rightarrow> string" where
  "sign hmac payload secret stamp =
     ''t='' @ show_int stamp @ '',v1='' @
       hex_of (expected_signature hmac payload (show_int stamp) secret)"

section \<open>Events\<close>

record stripe_event =
  se_id :: string
  se_kind :: string
  se_subscription_id :: "string option"
  se_client_reference_id :: "string option"
  se_redemption_id :: "string option"
  se_livemode :: "bool option"
  se_object_id :: "string option"
  se_terms_accepted :: bool
  se_terms_version :: "string option"

definition string_at :: "json \<Rightarrow> token list \<Rightarrow> string option" where
  "string_at v p = opt_filter (\<lambda>s. s \<noteq> []) (str_at v p)"

definition event_refs :: "json \<Rightarrow> string option \<times> string option \<times> string option" where
  "event_refs obj =
     (let object_type = unwrap_or (str_at obj [Field ''object'']) [] in
      if object_type = ''subscription'' then (string_at obj [Field ''id''], None, None)
      else if object_type = ''checkout.session'' \<and> str_at obj [Field ''mode''] = Some ''subscription''
      then (string_at obj [Field ''subscription''], string_at obj [Field ''client_reference_id''],
            string_at obj [Field ''metadata'', Field ''redemption_id''])
      else if object_type = ''invoice''
      then (or_else
              (string_at obj [Field ''parent'', Field ''subscription_details'', Field ''subscription''])
              (string_at obj [Field ''subscription'']), None, None)
      else (None, None, None))"

definition parse_event :: "json \<Rightarrow> stripe_event option" where
  "parse_event body =
     (if Option.bind (json_get body ''object'') as_str \<noteq> Some ''event'' then None
      else
        case (string_at body [Field ''id''], string_at body [Field ''type''],
              pointer body [Field ''data'', Field ''object'']) of
          (Some i, Some kind, Some obj) \<Rightarrow>
            let checkout = (unwrap_or (str_at obj [Field ''object'']) [] = ''checkout.session'');
                (subscription_id, client_reference_id, redemption_id) = event_refs obj
            in Some \<lparr>se_id = i, se_kind = kind, se_subscription_id = subscription_id,
                     se_client_reference_id = client_reference_id,
                     se_redemption_id = redemption_id,
                     se_livemode = Option.bind (json_get body ''livemode'') as_bool,
                     se_object_id = string_at obj [Field ''id''],
                     se_terms_accepted =
                       (checkout
                        \<and> str_at obj [Field ''consent'', Field ''terms_of_service''] = Some ''accepted''),
                     se_terms_version =
                       (if checkout then string_at obj [Field ''metadata'', Field ''terms_version'']
                        else None)\<rparr>
        | _ \<Rightarrow> None)"

section \<open>Laws\<close>

subsection \<open>Text\<close>

lemma parse_show_int:
  assumes "- (2 ^ 63) \<le> n" and "n < 2 ^ 63"
  shows "parse_i64 (show_int n) = Some n"
proof (cases "n < 0")
  case True
  then show ?thesis
    using assms show_nat_digits [of "nat (- n)"] by (simp add: parse_i64_def show_int_def Let_def)
next
  case False
  obtain c cs where s: "show_nat (nat n) = c # cs" by (cases "show_nat (nat n)") auto
  with show_nat_digits [of "nat n"] have "is_ascii_digit c" by simp
  then have "c \<noteq> CHR ''-''" and "c \<noteq> CHR ''+''" by (auto simp: is_ascii_digit_def code_def)
  with False assms s show_nat_digits [of "nat n"] parse_show_nat [of "nat n"] show ?thesis
    by (simp add: parse_i64_def show_int_def Let_def)
qed

lemma code_nibbles: "code b div 16 < 16" "code b mod 16 < 16"
proof -
  have "code b < 256" by (simp add: code_def)
  then show "code b div 16 < 16" "code b mod 16 < 16" by simp_all
qed

lemma hex_nibble: "n < 16 \<Longrightarrow> hex_digit (nibble_char n) = Some n"
  by (auto simp: hex_digit_def nibble_char_def digit_char_def is_ascii_digit_def code_def)

lemma nibble_not_plus: "n < 16 \<Longrightarrow> nibble_char n \<noteq> CHR ''+''"
  using hex_nibble [of n] by (auto simp: hex_digit_def is_ascii_digit_def code_def)

lemma decode_hex_of: "decode_hex (hex_of bs) = Some bs"
proof (induction bs)
  case Nil
  then show ?case by (simp add: hex_of_def)
next
  case (Cons b bs)
  have "hex_byte (nibble_char (code b div 16)) (nibble_char (code b mod 16)) = Some b"
    using code_nibbles [of b]
    by (simp add: hex_byte_def hex_nibble nibble_not_plus) (simp add: code_def)
  with Cons show ?case by (simp add: hex_of_def)
qed

lemma hex_of_chars:
  assumes "c \<in> set (hex_of bs)"
  shows "is_ascii_digit c \<or> 97 \<le> code c \<and> code c \<le> 102"
proof -
  from assms obtain b where b: "c = nibble_char (code b div 16) \<or> c = nibble_char (code b mod 16)"
    by (auto simp: hex_of_def)
  with code_nibbles [of b] obtain n where "n < 16" and c: "c = nibble_char n" by blast
  then show ?thesis
    by (auto simp: nibble_char_def digit_char_digit code_def)
qed

lemma show_int_chars: "c \<in> set (show_int n) \<Longrightarrow> is_ascii_digit c \<or> c = CHR ''-''"
  using show_nat_digits [of "nat n"] show_nat_digits [of "nat (- n)"]
  by (auto simp: show_int_def list_all_iff split: if_splits)

text \<open>A character no step of reading a header takes away.\<close>

definition plain_char :: "char \<Rightarrow> bool" where
  "plain_char c \<longleftrightarrow> \<not> is_whitespace c \<and> c \<noteq> CHR '',''"

lemma plain_charI: "33 \<le> code c \<Longrightarrow> code c \<le> 126 \<Longrightarrow> code c \<noteq> 44 \<Longrightarrow> plain_char c"
  by (auto simp: plain_char_def is_whitespace_def code_def)

lemma plain_show_int: "c \<in> set (show_int n) \<Longrightarrow> plain_char c"
  by (drule show_int_chars, rule plain_charI) (auto simp: is_ascii_digit_def code_def)

lemma plain_hex: "c \<in> set (hex_of bs) \<Longrightarrow> plain_char c"
  by (drule hex_of_chars, rule plain_charI) (auto simp: is_ascii_digit_def code_def)

lemma trim_none: "\<forall>c \<in> set s. \<not> is_whitespace c \<Longrightarrow> trim s = s"
  by (cases s; cases s rule: rev_cases)
    (auto simp: trim_def trim_matches_def trim_start_matches_def trim_end_matches_eq)

subsection \<open>What a header says\<close>

text \<open>Only \<open>t\<close> and \<open>v1\<close> count: the stamp is the last one, a signature is one of the \<open>v1\<close>s.\<close>

definition part_value :: "string \<Rightarrow> string \<Rightarrow> string list" where
  "part_value k part =
     (case split_once (CHR ''='') (trim part) of
        Some (k', v) \<Rightarrow> if k' = k then [v] else []
      | None \<Rightarrow> [])"

definition header_values :: "string \<Rightarrow> string \<Rightarrow> string list" where
  "header_values k header = concat (map (part_value k) (split_char (CHR '','') header))"

lemma part_value_cases:
  obtains "part_value ''t'' part = []" "part_value ''v1'' part = []"
      "header_parts (part # parts) (t, sigs) = header_parts parts (t, sigs)"
  | v where "part_value ''t'' part = [v]" "part_value ''v1'' part = []"
      "header_parts (part # parts) (t, sigs) = header_parts parts (Some v, sigs)"
  | v where "part_value ''t'' part = []" "part_value ''v1'' part = [v]"
      "header_parts (part # parts) (t, sigs) = header_parts parts (t, sigs @ [v])"
proof (cases "split_once (CHR ''='') (trim part)")
  case None
  then show thesis by (intro that(1)) (simp_all add: part_value_def)
next
  case (Some kv)
  then obtain k v where kv: "split_once (CHR ''='') (trim part) = Some (k, v)" by (cases kv) auto
  consider "k = ''t''" | "k = ''v1''" | "k \<noteq> ''t''" "k \<noteq> ''v1''" by auto
  then show thesis
    by cases (use kv that in \<open>simp_all add: part_value_def\<close>)
qed

lemma header_parts_eq:
  "header_parts parts (t, sigs) =
     (let ts = concat (map (part_value ''t'') parts)
      in (if ts = [] then t else Some (last ts), sigs @ concat (map (part_value ''v1'') parts)))"
proof (induction parts arbitrary: t sigs)
  case Nil
  then show ?case by simp
next
  case (Cons part parts)
  show ?case
    by (rule part_value_cases [of part parts t sigs])
      (simp_all add: Cons.IH Let_def del: header_parts.simps concat_eq_Nil_conv)
qed

lemma read_header_eq:
  "read_header header =
     (if header_values ''t'' header = [] then None else Some (last (header_values ''t'' header)),
      header_values ''v1'' header)"
  by (simp add: read_header_def header_parts_eq header_values_def Let_def)

lemma part_value_key:
  assumes "\<forall>c \<in> set k. \<not> is_whitespace c" and "\<forall>c \<in> set v. \<not> is_whitespace c"
    and "CHR ''='' \<notin> set k"
  shows "part_value k (k @ ''='' @ v) = [v]" and "k' \<noteq> k \<Longrightarrow> part_value k' (k @ ''='' @ v) = []"
proof -
  have "trim (k @ ''='' @ v) = k @ CHR ''='' # v"
    using assms(1,2) by (intro trim_none [THEN trans]) (auto simp: is_whitespace_def code_def)
  then have "split_once (CHR ''='') (trim (k @ ''='' @ v)) = Some (k, v)"
    using assms(3) by (simp add: split_once_append)
  then show "part_value k (k @ ''='' @ v) = [v]"
    and "k' \<noteq> k \<Longrightarrow> part_value k' (k @ ''='' @ v) = []"
    by (simp_all add: part_value_def)
qed

lemma read_signed_header:
  "read_header (sign hmac payload secret t) =
     (Some (show_int t), [hex_of (expected_signature hmac payload (show_int t) secret)])"
proof -
  let ?s = "show_int t" and ?h = "hex_of (expected_signature hmac payload (show_int t) secret)"
  have s: "\<forall>c \<in> set ?s. \<not> is_whitespace c \<and> c \<noteq> CHR '',''"
    using plain_show_int by (auto simp: plain_char_def)
  have h: "\<forall>c \<in> set ?h. \<not> is_whitespace c \<and> c \<noteq> CHR '',''"
    using plain_hex by (auto simp: plain_char_def)
  have parts: "split_char (CHR '','') (sign hmac payload secret t) = [''t='' @ ?s, ''v1='' @ ?h]"
  proof -
    have "split_char (CHR '','') ((''t='' @ ?s) @ CHR '','' # (''v1='' @ ?h)) = [''t='' @ ?s, ''v1='' @ ?h]"
    proof (rule trans [OF split_char_append])
      show "CHR '','' \<notin> set (''t='' @ ?s)" using s by auto
      have "CHR '','' \<notin> set (''v1='' @ ?h)" using h by auto
      then show "(''t='' @ ?s) # split_char (CHR '','') (''v1='' @ ?h) = [''t='' @ ?s, ''v1='' @ ?h]"
        by (rule arg_cong [OF split_char_single])
    qed
    then show ?thesis by (simp add: sign_def)
  qed
  have k: "\<forall>c \<in> set ''t''. \<not> is_whitespace c" "\<forall>c \<in> set ''v1''. \<not> is_whitespace c"
    by (simp_all add: is_whitespace_def code_def)
  have t: "part_value ''t'' (''t='' @ ?s) = [?s]" "part_value ''v1'' (''t='' @ ?s) = []"
    using part_value_key [of "''t''" ?s] k(1) s by simp_all
  have v: "part_value ''v1'' (''v1='' @ ?h) = [?h]" "part_value ''t'' (''v1='' @ ?h) = []"
    using part_value_key [of "''v1''" ?h] k(2) h by simp_all
  show ?thesis unfolding read_header_eq header_values_def parts using t v by simp
qed

section \<open>Properties\<close>

text \<open>
  A signed delivery is accepted exactly when nothing about it changed and it is fresh:
  the header \<open>sign\<close> makes for a payload at the time \<open>t\<close> verifies a payload under a secret when
  their hash at \<open>t\<close> is the signed one and the clock is within 300 seconds of \<open>t\<close>, either way.
  Another payload or another secret is a mismatch, whatever the clock; an old or a future
  delivery is refused although its signature is right.
\<close>

theorem signed_delivery_verified:
  assumes "0 \<le> t" and "t < 2 ^ 62" and "0 \<le> now" and "now < 2 ^ 62"
  shows "verify_signature hmac received (sign hmac payload secret t) key now =
    (if hmac key (show_int t @ ''.'' @ received) \<noteq> hmac secret (show_int t @ ''.'' @ payload)
     then Inl Mismatch
     else if \<bar>now - t\<bar> > 300 then Inl ExpiredSignature
     else Inr ())"
proof -
  have "parse_i64 (show_int t) = Some t" using assms by (intro parse_show_int) auto
  moreover have "wrap64 \<bar>wrap64 (now - t)\<bar> = \<bar>now - t\<bar>" using assms by (simp add: wrap64_id)
  ultimately show ?thesis
    by (auto simp: verify_signature_def read_signed_header decode_hex_of expected_signature_def
        TOLERANCE_SECS_def)
qed

theorem signed_delivery_verified_witness:
  "verify_signature (\<lambda>k m. k @ m) ''{}'' (sign (\<lambda>k m. k @ m) ''{}'' ''key'' 1000) ''key'' 1299 = Inr ()
   \<and> verify_signature (\<lambda>k m. k @ m) ''{}'' (sign (\<lambda>k m. k @ m) ''{}'' ''key'' 1000) ''key'' 1301
       = Inl ExpiredSignature
   \<and> verify_signature (\<lambda>k m. k @ m) ''{1}'' (sign (\<lambda>k m. k @ m) ''{}'' ''key'' 1000) ''key'' 1000
       = Inl Mismatch"
  using signed_delivery_verified [of 1000 1299 "\<lambda>k m. k @ m" "''{}''" "''{}''" "''key''" "''key''"]
    signed_delivery_verified [of 1000 1301 "\<lambda>k m. k @ m" "''{}''" "''{}''" "''key''" "''key''"]
    signed_delivery_verified [of 1000 1000 "\<lambda>k m. k @ m" "''{1}''" "''{}''" "''key''" "''key''"]
  by simp

end
