(* ===== verification/Payments.thy ===== *)
theory Payments
  imports Checkout Webhook
begin

text \<open>
  The webhook of the payment provider and the refunds that end a subscription, from
  \<^verbatim>\<open>src/src/services/payments.rs\<close>. What \<^verbatim>\<open>serde_json\<close> reads from a body and the hash of
  the signature are parameters, as is what the crate \<open>uuid\<close> reads from a text.
\<close>

section \<open>Events about payments\<close>

text \<open>A failure to reverse the referral's reward is logged and dropped.\<close>

definition take_reward_back :: "time \<Rightarrow> uuid \<Rightarrow> string \<Rightarrow> ('g, unit) op" where
  "take_reward_back now u reason =
     ebind (etry (billing_op (reverse_referral_reward now u reason))) (\<lambda>_ :: api_error + unit. eret ())"

definition record_paid_invoice ::
  "(time \<Rightarrow> time) \<Rightarrow> time \<Rightarrow> 'g payments \<Rightarrow> string \<Rightarrow> ('g, unit) op"
where
  "record_paid_invoice month_start now pay invoice_id =
     ebind (provided (gt_get_paid_invoice (pm_gateway pay) invoice_id)) (\<lambda>paid.
     case paid of
       None \<Rightarrow> eret ()
     | Some invoice \<Rightarrow>
         ebind (record_invoice month_start now invoice) (\<lambda>_.
         case iv_payment_intent_id invoice of
           None \<Rightarrow> eret ()
         | Some payment_intent \<Rightarrow>
             ebind (provided (gt_payment_fees (pm_gateway pay) payment_intent)) (\<lambda>fees.
             case fees of
               None \<Rightarrow> eret ()
             | Some fees \<Rightarrow> set_fees now (iv_id invoice) fees)))"

definition live_at_home :: "uuid \<Rightarrow> string \<Rightarrow> shop \<Rightarrow> bool" where
  "live_at_home u subscription_id sh =
     is_some_and (db_subs (sh_db sh) u) (\<lambda>s. sb_source s = Payment
       \<and> sb_external_ref s = Some subscription_id \<and> sb_status s \<in> set [Active, PastDue])"

definition handle_charge_refunded ::
  "(time \<Rightarrow> time) \<Rightarrow> time \<Rightarrow> 'g payments \<Rightarrow> json \<Rightarrow> ('g, unit) op"
where
  "handle_charge_refunded month_start now pay charge =
     ebind (apply_refund_event month_start now (Some pay) charge) (\<lambda>refunded.
     case refunded of
       None \<Rightarrow> eret ()
     | Some payment_intent \<Rightarrow>
         ebind (reading (fully_refunded_latest_payment payment_intent)) (\<lambda>whole.
         case whole of
           None \<Rightarrow> eret ()
         | Some (u, subscription_id) \<Rightarrow>
             ebind (reading (live_at_home u subscription_id)) (\<lambda>live.
             if \<not> live then eret ()
             else
               ebind (provided (gt_cancel_now (pm_gateway pay) subscription_id)) (\<lambda>_.
               ebind (billing_op (end_paid_subscription now u subscription_id ''canceled''
                                    (JObj [(''reason'', JStr ''refunded'')]) None)) (\<lambda>change.
               ebind (take_reward_back now u ''refunded'') (\<lambda>_.
               after_change now u change))))))"

definition handle_dispute ::
  "(time \<Rightarrow> time) \<Rightarrow> time \<Rightarrow> 'g payments \<Rightarrow> stripe_event \<Rightarrow> json \<Rightarrow> ('g, unit) op"
where
  "handle_dispute month_start now pay event dispute =
     ebind (apply_dispute month_start now (Some pay) dispute) (\<lambda>disputed.
     case disputed of
       None \<Rightarrow> eret ()
     | Some d \<Rightarrow>
         if se_kind event \<noteq> ''charge.dispute.created'' then eret ()
         else case (dp_user_id d, dp_subscription_id d) of
           (Some u, Some subscription_id) \<Rightarrow>
             ebind (provided (gt_cancel_now (pm_gateway pay) subscription_id)) (\<lambda>_.
             ebind (billing_op (end_paid_subscription now u subscription_id ''disputed''
                      (JObj [(''dispute_status'', JStr (dp_status d)),
                             (''disputed_cents'', JInt (dp_amount d))]) None)) (\<lambda>change.
             ebind (take_reward_back now u ''disputed'') (\<lambda>_.
             after_change now u change)))
         | _ \<Rightarrow> eret ())"

section \<open>The webhook\<close>

definition HANDLED_EVENTS :: "string list" where
  "HANDLED_EVENTS =
     [''checkout.session.completed'', ''checkout.session.async_payment_succeeded'',
      ''customer.subscription.created'', ''customer.subscription.updated'',
      ''customer.subscription.deleted'', ''customer.subscription.paused'',
      ''customer.subscription.resumed'', ''customer.subscription.pending_update_applied'',
      ''customer.subscription.pending_update_expired'', ''customer.subscription.trial_will_end'',
      ''invoice.paid'', ''invoice.payment_failed'', ''invoice.payment_action_required'',
      ''invoice.upcoming'']"

definition REFUND_EVENTS :: "string list" where
  "REFUND_EVENTS = [''refund.created'', ''refund.updated'', ''charge.refund.updated'']"

definition DISPUTE_EVENTS :: "string list" where
  "DISPUTE_EVENTS =
     [''charge.dispute.created'', ''charge.dispute.updated'', ''charge.dispute.closed'',
      ''charge.dispute.funds_withdrawn'', ''charge.dispute.funds_reinstated'']"

definition event_options :: "(string \<Rightarrow> uuid option) \<Rightarrow> stripe_event \<Rightarrow> mirror_options" where
  "event_options parse_uuid event =
     \<lparr>mo_event = Some (se_id event, se_kind event),
      mo_redemption_id =
        Option.bind (opt_filter (\<lambda>_. starts_with (se_kind event) ''checkout.session.'')
                       (se_redemption_id event)) parse_uuid,
      mo_terms_version =
        (if se_kind event = ''checkout.session.completed'' \<and> se_terms_accepted event
         then Some (unwrap_or (se_terms_version event) CURRENT_TERMS_VERSION) else None)\<rparr>"

text \<open>The amount and the currency an announced renewal will charge.\<close>

definition announced_amount :: "json \<Rightarrow> (int \<times> string) option" where
  "announced_amount obj =
     (case (int_at obj [Field ''amount_due''], str_at obj [Field ''currency'']) of
        (Some amount, Some currency) \<Rightarrow> Some (amount, map to_ascii_uppercase currency)
      | _ \<Rightarrow> None)"

definition complete_session :: "time \<Rightarrow> stripe_event \<Rightarrow> shop \<Rightarrow> shop" where
  "complete_session now event sh =
     (case (se_kind event = ''checkout.session.completed'', se_object_id event) of
        (True, Some i) \<Rightarrow>
          update_session i
            (\<lambda>s. s\<lparr>ss_completed_at := or_else (ss_completed_at s) (Some now)\<rparr>) sh
      | _ \<Rightarrow> sh)"

definition remind_owner :: "time \<Rightarrow> string \<Rightarrow> json \<Rightarrow> uuid \<Rightarrow> shop \<Rightarrow> shop" where
  "remind_owner now kind obj u sh =
     (if kind = ''customer.subscription.trial_will_end''
      then with_db (snd (send_paid_trial_reminders now (Some u) (sh_db sh))) sh
      else if kind = ''invoice.upcoming''
      then with_db (snd (send_renewal_reminders now (Some u) 45 (announced_amount obj) (sh_db sh))) sh
      else sh)"

text \<open>The events that concern a subscription.\<close>

definition handle_subscription_event ::
  "(string \<Rightarrow> uuid option) \<Rightarrow> (time \<Rightarrow> time) \<Rightarrow> time \<Rightarrow> 'g payments \<Rightarrow> stripe_event \<Rightarrow> json
     \<Rightarrow> ('g, unit) op"
where
  "handle_subscription_event parse_uuid month_start now pay event obj =
     ebind (modify (complete_session now event)) (\<lambda>_.
     ebind (case se_subscription_id event of
              None \<Rightarrow> eret None
            | Some i \<Rightarrow>
                sync_subscription parse_uuid month_start now pay i (se_client_reference_id event)
                  (event_options parse_uuid event)) (\<lambda>owner.
     ebind (case (se_kind event = ''invoice.paid'', se_object_id event) of
              (True, Some invoice_id) \<Rightarrow>
                ebind (etry (record_paid_invoice month_start now pay invoice_id))
                  (\<lambda>_ :: api_error + unit. eret ())
            | _ \<Rightarrow> eret ()) (\<lambda>_.
     case owner of
       None \<Rightarrow> eret ()
     | Some u \<Rightarrow> modify (remind_owner now (se_kind event) obj u))))"

definition handle_event ::
  "(string \<Rightarrow> uuid option) \<Rightarrow> (time \<Rightarrow> time) \<Rightarrow> time \<Rightarrow> 'g payments \<Rightarrow> stripe_event \<Rightarrow> json
     \<Rightarrow> ('g, unit) op"
where
  "handle_event parse_uuid month_start now pay event obj =
     (if se_livemode event \<noteq> Some (pm_livemode pay) then eret ()
      else if se_kind event = ''charge.refunded''
      then handle_charge_refunded month_start now pay obj
      else if se_kind event \<in> set REFUND_EVENTS
      then apply_refund_object month_start now (Some pay) obj
      else if se_kind event \<in> set DISPUTE_EVENTS
      then handle_dispute month_start now pay event obj
      else if se_kind event = ''customer.deleted''
      then (case se_object_id event of
              Some customer_id \<Rightarrow> ebind (clear_customer customer_id) (\<lambda>_. eret ())
            | None \<Rightarrow> eret ())
      else if se_kind event = ''checkout.session.expired''
      then (case se_object_id event of
              Some session_id \<Rightarrow>
                modify (update_session session_id
                  (\<lambda>s. s\<lparr>ss_expired_at := or_else (ss_expired_at s) (Some now)\<rparr>))
            | None \<Rightarrow> eret ())
      else if se_kind event \<notin> set HANDLED_EVENTS then eret ()
      else handle_subscription_event parse_uuid month_start now pay event obj)"

text \<open>Everything before the event is looked at: who sent it, and whether it is an event.\<close>

definition admit_event ::
  "hmac \<Rightarrow> (string \<Rightarrow> json option) \<Rightarrow> time \<Rightarrow> 'g payments \<Rightarrow> string \<Rightarrow> string option
     \<Rightarrow> api_error + (stripe_event \<times> json)"
where
  "admit_event hmac parse_json now pay body signature =
     (case signature of
        None \<Rightarrow> Inl BadRequest
      | Some sig \<Rightarrow>
          if verify_signature hmac body sig (pm_webhook_secret pay) (timestamp now) \<noteq> Inr ()
          then Inl BadRequest
          else case parse_json body of
            None \<Rightarrow> Inl BadRequest
          | Some value \<Rightarrow>
              (case parse_event value of
                 None \<Rightarrow> Inl BadRequest
               | Some event \<Rightarrow>
                   Inr (event, unwrap_or (pointer value [Field ''data'', Field ''object'']) JNull)))"

definition handle_webhook ::
  "hmac \<Rightarrow> (string \<Rightarrow> json option) \<Rightarrow> (string \<Rightarrow> uuid option) \<Rightarrow> (time \<Rightarrow> time) \<Rightarrow> time
     \<Rightarrow> 'g payments option \<Rightarrow> string \<Rightarrow> string option \<Rightarrow> ('g, unit) op"
where
  "handle_webhook hmac parse_json parse_uuid month_start now pays body signature =
     ebind (the_payments pays) (\<lambda>pay.
     ebind (eresult (admit_event hmac parse_json now pay body signature)) (\<lambda>(event, obj).
     handle_event parse_uuid month_start now pay event obj))"

section \<open>Withdrawal and refunds\<close>

definition SELF_SERVICE_WITHDRAWALS_PER_YEAR :: nat where
  "SELF_SERVICE_WITHDRAWALS_PER_YEAR = 2"

definition withdrawal_not_eligible :: "time option \<Rightarrow> api_error" where
  "withdrawal_not_eligible eligible_until =
     rule_with_meta 409 ''WITHDRAWAL_NOT_ELIGIBLE''
       (JObj [(''eligible_until'', json_of_opt JTime eligible_until)])"

definition withdrawal_limit_reached :: api_error where
  "withdrawal_limit_reached =
     rule_with_meta 409 ''WITHDRAWAL_NOT_ELIGIBLE''
       (JObj [(''eligible_until'', JNull), (''reason'', JStr ''limit''),
              (''contact_support'', JBool True)])"

definition withdrawals_in_last_year :: "time \<Rightarrow> uuid \<Rightarrow> shop \<Rightarrow> nat" where
  "withdrawals_in_last_year now u sh =
     length (filter (\<lambda>e. ev_user e = u \<and> ev_kind e = ''withdrawn'' \<and> ev_created_at e \<ge> now - days 365)
               (db_events (sh_db sh)))"

definition paid_at :: "time \<Rightarrow> gateway_invoice \<Rightarrow> time" where
  "paid_at at i = unwrap_or (Option.bind (iv_paid_at i) unix_to_naive) at"

text \<open>\<open>Inl\<close> of the deadline when a withdrawal is not allowed.\<close>

definition invoices_to_refund ::
  "gateway_invoice list \<Rightarrow> bool \<Rightarrow> time \<Rightarrow> bool \<Rightarrow> time option + gateway_invoice list"
where
  "invoices_to_refund invoices yearly at staff =
     (let sorted_invoices = sort_key (paid_at at) invoices in
      if sorted_invoices = [] then (if staff then Inr [] else Inl None)
      else
        let first = hd sorted_invoices; latest = last sorted_invoices;
            deadline = withdrawal_deadline (paid_at at first) (paid_at at latest) yearly;
            window = days WITHDRAWAL_DAYS
        in if at \<le> paid_at at first + window then Inr sorted_invoices
           else if at \<le> deadline then Inr (filter (\<lambda>i. paid_at at i + window \<ge> at) sorted_invoices)
           else if staff then Inr [latest]
           else Inl (Some deadline))"

definition refundable_sub :: "uuid \<Rightarrow> shop \<Rightarrow> (string \<times> string option) option" where
  "refundable_sub u sh =
     (case opt_filter (\<lambda>s. sb_source s = Payment \<and> sb_status s \<in> set [Active, PastDue])
             (db_subs (sh_db sh) u) of
        Some s \<Rightarrow> map_option (\<lambda>i. (i, sb_billing_interval s)) (sb_external_ref s)
      | None \<Rightarrow> None)"

text \<open>A credit left on the customer's balance is canceled before its charge is refunded.\<close>

definition cancel_credit :: "'g payments \<Rightarrow> string option \<Rightarrow> string \<Rightarrow> string \<Rightarrow> ('g, unit) op" where
  "cancel_credit pay customer subscription_id currency =
     (case customer of
        None \<Rightarrow> eret ()
      | Some c \<Rightarrow>
          ebind (provided (gt_customer_balance (pm_gateway pay) c)) (\<lambda>balance.
          if balance < 0 then
            provided (gt_debit_customer_credit (pm_gateway pay) c (- balance) currency
              (''setlyst-withdraw-credit-'' @ subscription_id @ ''-'' @ show_int (- balance)))
          else eret ()))"

text \<open>The refund of every invoice: what they give back together, and the refunds made.\<close>

definition refund_invoices ::
  "'g payments \<Rightarrow> gateway_invoice list \<Rightarrow> ('g, int \<times> gateway_refund list) op"
where
  "refund_invoices pay invoices =
     efold (\<lambda>(refunded, refunds) invoice.
       case iv_payment_intent_id invoice of
         None \<Rightarrow> eret (refunded, refunds)
       | Some payment_intent \<Rightarrow>
           ebind (etry (ask (gt_refund (pm_gateway pay) payment_intent None
                               (''setlyst-withdraw-'' @ iv_id invoice)))) (\<lambda>r.
           case r of
             Inr refund \<Rightarrow>
               eret (if counts refund then refunded + rf_amount refund else refunded, refunds @ [refund])
           | Inl e \<Rightarrow>
               if already_refunded e then eret (refunded, refunds) else efail (provider_error e)))
       (0, []) invoices"

definition write_ledger_of ::
  "(time \<Rightarrow> time) \<Rightarrow> time \<Rightarrow> 'g payments \<Rightarrow> gateway_invoice list \<Rightarrow> gateway_refund list \<Rightarrow> ('g, unit) op"
where
  "write_ledger_of month_start now pay invoices refunds =
     ebind (efor invoices (\<lambda>i. ebind (etry (record_invoice month_start now i))
                                  (\<lambda>_ :: api_error + bool. eret ()))) (\<lambda>_.
     efor refunds (\<lambda>r. ebind (etry (upsert_refund month_start now (Some pay) r))
                          (\<lambda>_ :: api_error + unit. eret ())))"

definition known_name :: "shop \<Rightarrow> uuid \<Rightarrow> string" where
  "known_name sh u = (if user (sh_db sh) u = None then [] else sh_usernames sh u)"

definition audit_refund ::
  "uuid \<Rightarrow> uuid option \<Rightarrow> string \<Rightarrow> int \<Rightarrow> string \<Rightarrow> string \<Rightarrow> string option \<Rightarrow> shop \<Rightarrow> shop"
where
  "audit_refund u actor subscription_id refunded currency reason ip sh =
     sh\<lparr>sh_audit := sh_audit sh
       @ [\<lparr>au_action = (if actor \<noteq> None then ''billing.subscription_refunded''
                        else ''billing.subscription_withdrawn''),
           au_actor = unwrap_or actor u, au_actor_name = known_name sh (unwrap_or actor u),
           au_target = u, au_target_name = known_name sh u,
           au_meta = JObj [(''subscription'', JStr subscription_id),
                           (''refunded_cents'', JInt refunded), (''currency'', JStr currency),
                           (''reason'', JStr reason)],
           au_ip = ip\<rparr>]\<rparr>"

text \<open>The transaction: the refunds at the provider, then the end of the subscription here.\<close>

definition refund_transaction ::
  "time \<Rightarrow> 'g payments \<Rightarrow> uuid \<Rightarrow> uuid option \<Rightarrow> string \<Rightarrow> string \<Rightarrow> bool
     \<Rightarrow> ('g, payment_change option \<times> int \<times> string \<times> gateway_invoice list \<times> gateway_refund list) op"
where
  "refund_transaction now pay u actor reason subscription_id yearly =
     ebind (reading (live_at_home u subscription_id)) (\<lambda>still.
     if \<not> still then efail no_paid_subscription
     else
       ebind (provided (gt_list_subscription_invoices (pm_gateway pay) subscription_id)) (\<lambda>invoices.
       ebind (eresult (map_sum withdrawal_not_eligible id
                (invoices_to_refund invoices yearly now (actor \<noteq> None)))) (\<lambda>to_refund.
       let currency = (case to_refund @ invoices of
                         i # _ \<Rightarrow> map to_ascii_lowercase (iv_currency i)
                       | [] \<Rightarrow> ''brl'')
       in
       ebind (reading (\<lambda>sh. sh_customers sh u)) (\<lambda>customer.
       ebind (cancel_credit pay customer subscription_id currency) (\<lambda>_.
       ebind (refund_invoices pay to_refund) (\<lambda>(refunded, refunds).
       ebind (provided (gt_cancel_now (pm_gateway pay) subscription_id)) (\<lambda>_.
       ebind (billing_op (end_paid_subscription now u subscription_id
                (if actor \<noteq> None then ''refunded'' else ''withdrawn'')
                (JObj [(''refunded_cents'', JInt refunded), (''currency'', JStr currency),
                       (''reason'', JStr reason),
                       (''invoices'', JArr (map (\<lambda>i. JStr (iv_id i)) to_refund))]) actor)) (\<lambda>change.
       eret (change, refunded, currency, to_refund, refunds)))))))))"

definition refund_and_end ::
  "(time \<Rightarrow> time) \<Rightarrow> time \<Rightarrow> 'g payments option \<Rightarrow> uuid \<Rightarrow> uuid option \<Rightarrow> string \<Rightarrow> string option
     \<Rightarrow> ('g, int \<times> string) op"
where
  "refund_and_end month_start now pays u actor reason ip =
     ebind (the_payments pays) (\<lambda>pay.
     ebind (reading (refundable_sub u)) (\<lambda>found.
     case found of
       None \<Rightarrow> efail no_paid_subscription
     | Some (subscription_id, interval) \<Rightarrow>
         ebind (reading (withdrawals_in_last_year now u)) (\<lambda>withdrawn.
         if actor = None \<and> withdrawn \<ge> SELF_SERVICE_WITHDRAWALS_PER_YEAR
         then efail withdrawal_limit_reached
         else
           ebind (atomically (refund_transaction now pay u actor reason subscription_id
                                (interval = Some ''yearly'')))
             (\<lambda>(change, refunded, currency, to_refund, refunds).
           ebind (write_ledger_of month_start now pay to_refund refunds) (\<lambda>_.
           ebind (modify (audit_refund u actor subscription_id refunded currency reason ip)) (\<lambda>_.
           ebind (if refunded > 0
                  then take_reward_back now u (if actor \<noteq> None then ''refunded'' else ''withdrawn'')
                  else eret ()) (\<lambda>_.
           ebind (after_change now u change) (\<lambda>_.
           eret (refunded, currency)))))))))"

definition withdraw ::
  "(time \<Rightarrow> time) \<Rightarrow> time \<Rightarrow> 'g payments option \<Rightarrow> uuid \<Rightarrow> string option \<Rightarrow> ('g, int \<times> string) op"
where
  "withdraw month_start now pays u ip = refund_and_end month_start now pays u None ''withdrawal'' ip"

definition refund_and_cancel ::
  "(time \<Rightarrow> time) \<Rightarrow> time \<Rightarrow> 'g payments option \<Rightarrow> uuid \<Rightarrow> uuid \<Rightarrow> string \<Rightarrow> string option
     \<Rightarrow> ('g, int \<times> string) op"
where
  "refund_and_cancel month_start now pays u actor reason ip =
     refund_and_end month_start now pays u (Some actor) reason ip"

end
