(* ===== verification/BillingRun.thy ===== *)
theory BillingRun
  imports Maintenance
begin

text \<open>
  Billing as a whole: one step relation over every operation of
  \<^verbatim>\<open>src/src/services/billing.rs\<close> that changes the database, and the invariant all of them
  keep: subscriptions are well formed, promo codes are accounted for, the books of the
  referrals are right.
\<close>

section \<open>The invariant\<close>

definition billing_ok :: "db \<Rightarrow> bool" where
  "billing_ok db \<longleftrightarrow> subs_ok db \<and> promos_ok db \<and> referral_books db"

lemma subs_ok_cong:
  "db_subs db' = db_subs db \<Longrightarrow> db_users db' = db_users db \<Longrightarrow> db_plans db' = db_plans db \<Longrightarrow>
   subs_ok db' = subs_ok db"
  by (simp add: subs_ok_def user_def plan_exists_def)

lemma referral_books_cong:
  "db_referrals db' = db_referrals db \<Longrightarrow> db_ledger db' = db_ledger db \<Longrightarrow> referral_books db' = referral_books db"
  by (simp add: referral_books_def row_books_def payments_def)

lemma books_other_entry:
  assumes "db_referrals db' = db_referrals db" and "db_ledger db' = db_ledger db @ entry_of now u a why ref memo actor"
    and "why \<notin> set [''referral_referred'', ''referral_referrer'', ''referral_reversed'']"
  shows "referral_books db' = referral_books db"
proof -
  have "payments db' reason i = payments db reason i" if "reason \<noteq> why" for reason i
    using that by (simp add: payments_append [OF assms(2)] payments_entry)
  then have "payments db' ''referral_referred'' = payments db ''referral_referred''"
    "payments db' ''referral_referrer'' = payments db ''referral_referrer''"
    "payments db' ''referral_reversed'' = payments db ''referral_reversed''"
    using assms(3) by (auto simp: fun_eq_iff)
  then show ?thesis using assms(1) by (simp add: referral_books_def row_books_def)
qed

lemma billing_ok_sub_frame:
  assumes "billing_ok db" and "sub_frame u db db'" and "subs_ok db'"
  shows "billing_ok db'"
  using assms sub_frameD [OF assms(2)] promos_ok_cong [of db' db] referral_books_cong [of db' db]
  by (simp add: billing_ok_def)

lemma billing_ok_notify [simp]: "billing_ok (notify_all ns db) = billing_ok db"
  using subs_ok_cong [of "notify_all ns db" db] promos_ok_cong [of "notify_all ns db" db]
    referral_books_cong [of "notify_all ns db" db]
  by (simp add: billing_ok_def)

text \<open>Referral operations leave subscriptions and promo codes alone.\<close>

definition billing_core :: "db \<Rightarrow> (uuid \<rightharpoonup> sub_row) \<times> (uuid \<times> user_row) list \<times> plan_row list \<times> promo_row list \<times> redemption_row list" where
  "billing_core db = (db_subs db, db_users db, db_plans db, db_promos db, db_redemptions db)"

lemma core_simps [simp]:
  "billing_core (notify_all ns db) = billing_core db"
  "billing_core (change_referrals P f db) = billing_core db"
  by (simp_all add: billing_core_def change_referrals_def)

lemma add_credits_core: "add_credits now u a why ref memo actor db = Inr db' \<Longrightarrow> billing_core db' = billing_core db"
  by (auto dest!: add_credits_Inr simp: billing_core_def)

lemma qualify_core:
  assumes "qualify_referral now u db = Inr (x, db')"
  shows "billing_core db' = billing_core db"
  using assms by (cases rule: qualify_Inr) (simp_all add: billing_core_def change_referrals_def)

lemma reward_core:
  assumes "reward_referrer_on_payment ms now u db = Inr (x, db')"
  shows "billing_core db' = billing_core db"
  using assms by (cases rule: reward_Inr) (simp_all add: billing_core_def change_referrals_def)

lemma reverse_core:
  assumes "reverse_referral_reward now u reason db = Inr (x, db')"
  shows "billing_core db' = billing_core db"
  using assms by (cases rule: reverse_Inr) (simp_all add: billing_core_def)

lemma billing_ok_core:
  assumes "billing_ok db" and "billing_core db' = billing_core db" and "referral_books db'"
  shows "billing_ok db'"
  using assms subs_ok_cong [of db' db] promos_ok_cong [of db' db]
  by (simp add: billing_ok_def billing_core_def)

section \<open>Each operation keeps it\<close>

lemma billing_ok_promo:
  assumes ok: "billing_ok db" and r: "redeem_promo_code now u c db = Inr (s, db')"
  shows "billing_ok db'"
  using r
proof (cases rule: redeem_promo_code_Inr)
  case (1 p db1 db2 ns)
  note cr = count_redemption_Inr(3) [OF 1(4)]
  have s1: "subs_ok db1" and b1: "referral_books db1"
    using ok subs_ok_cong [of db1 db] referral_books_cong [of db1 db] by (simp_all add: cr billing_ok_def)
  have "subs_ok db2 \<and> referral_books db2"
  proof (cases "pm_kind p")
    case PlanGrant
    then obtain g where g: "grant_plan_time now u (unwrap_or (pm_plan_code p) []) (pm_duration_days p)
        PromoCodeSource None None (JObj [(''promo_code_id'', JInt (int (pm_id p))),
          (''promo_code'', JStr (to_uppercase (trim c)))]) db1 = Inr (g, db2)"
      using 1(5) by (auto simp: apply_promo_def)
    from grant_wf [OF s1 _ g] sub_frameD [OF grant_frame [OF g]] referral_books_cong [of db2 db1] b1
    show ?thesis by simp
  next
    case TrialExtension
    then obtain g where g: "extend_trial now u (max (unwrap_or (pm_duration_days p) 0) 1) (load_settings db) db1 = Inr (g, db2)"
      using 1(5) by (auto simp: apply_promo_def)
    from extend_trial_wf [OF s1 g] sub_frameD [OF extend_trial_frame [OF g]] referral_books_cong [of db2 db1] b1
    show ?thesis by simp
  next
    case Credits
    then have "add_credits now u (unwrap_or (pm_credits p) 0) ''promo_code'' (Some (pm_id p)) None None db1 = Inr db2"
      using 1(5) by (auto simp: apply_promo_def Let_def)
    note a = add_credits_Inr [OF this]
    show ?thesis
      using s1 b1 subs_ok_cong [of db2 db1]
        books_other_entry [of db2 db1 now u "unwrap_or (pm_credits p) 0" "''promo_code''" "Some (pm_id p)" None None]
      by (simp add: a)
  next
    case Discount
    then show ?thesis using 1(5) s1 b1 by (simp add: apply_promo_def)
  qed
  moreover have "promos_ok db2"
    using redeem_promos_ok [OF _ r] ok promos_ok_cong [of "notify_all ns db2" db2] 1(6)
    by (simp add: billing_ok_def)
  ultimately have "billing_ok db2" by (simp add: billing_ok_def)
  then show ?thesis using 1(6) by simp
qed

lemma billing_ok_reward:
  assumes ok: "billing_ok db" and r: "redeem_reward now u i db = Inr (x, db')"
  shows "billing_ok db'"
  using r
proof (cases rule: redeem_reward_Inr)
  case (1 r db1 db2 g)
  note a = add_credits_Inr [OF 1(3)]
  have "billing_ok db1"
    using ok subs_ok_cong [of db1 db] promos_ok_cong [of db1 db]
      books_other_entry [of db1 db now u "- rw_cost r" "''reward_redemption''" None "Some (rw_id r)" None]
    by (simp add: a billing_ok_def)
  moreover have "subs_ok db2" using grant_wf [OF _ _ 1(4)] calculation by (simp add: billing_ok_def)
  ultimately have "billing_ok db2" by (rule billing_ok_sub_frame [OF _ grant_frame [OF 1(4)]])
  with 1(5) show ?thesis by simp
qed

lemma billing_ok_referral:
  assumes ok: "billing_ok db"
  shows "qualify_referral now u db = Inr (x, db') \<Longrightarrow> billing_ok db'"
    and "reward_referrer_on_payment ms now u db = Inr (x, db') \<Longrightarrow> billing_ok db'"
    and "reverse_referral_reward now u reason db = Inr (x, db') \<Longrightarrow> billing_ok db'"
proof -
  have b: "referral_books db" using ok by (simp add: billing_ok_def)
  show "qualify_referral now u db = Inr (x, db') \<Longrightarrow> billing_ok db'"
    using billing_ok_core [OF ok qualify_core] qualification.books [OF b] by blast
  show "reward_referrer_on_payment ms now u db = Inr (x, db') \<Longrightarrow> billing_ok db'"
    using billing_ok_core [OF ok reward_core] referrer_reward.books [OF b] by blast
  show "reverse_referral_reward now u reason db = Inr (x, db') \<Longrightarrow> billing_ok db'"
    using billing_ok_core [OF ok reverse_core] reward_reversal.books [OF b] by blast
qed

text \<open>Bulk updates of subscriptions.\<close>

lemma subs_ok_update:
  assumes "subs_ok db" and "\<And>u s. P u s \<Longrightarrow> sub_wf s \<Longrightarrow> sub_wf (f s) \<and> sb_plan_code (f s) = sb_plan_code s"
  shows "subs_ok (snd (update_subs P f db))"
  using assms by (fastforce simp: subs_ok_def update_subs_eq user_def plan_exists_def)

lemma billing_ok_update:
  assumes "billing_ok db" and "\<And>u s. P u s \<Longrightarrow> sub_wf s \<Longrightarrow> sub_wf (f s) \<and> sb_plan_code (f s) = sb_plan_code s"
  shows "billing_ok (snd (update_subs P f db))"
proof -
  have "subs_ok (snd (update_subs P f db))" using subs_ok_update [of db P f] assms by (simp add: billing_ok_def)
  moreover have "promos_ok (snd (update_subs P f db)) = promos_ok db"
    by (rule promos_ok_cong) (simp_all add: update_subs_eq)
  moreover have "referral_books (snd (update_subs P f db)) = referral_books db"
    by (rule referral_books_cong) (simp_all add: update_subs_eq)
  ultimately show ?thesis using assms(1) by (simp add: billing_ok_def)
qed

lemma billing_ok_events:
  "billing_ok (db\<lparr>db_events := es\<rparr>) = billing_ok db"
  using subs_ok_cong [of "db\<lparr>db_events := es\<rparr>" db] promos_ok_cong [of "db\<lparr>db_events := es\<rparr>" db]
    referral_books_cong [of "db\<lparr>db_events := es\<rparr>" db]
  by (simp add: billing_ok_def)

lemma wf_stamps:
  "sub_wf (s\<lparr>sb_trial_reminder_sent_at := t\<rparr>) = sub_wf s"
  "sub_wf (s\<lparr>sb_paid_trial_reminder_sent_at := t\<rparr>) = sub_wf s"
  "sub_wf (s\<lparr>sb_renewal_reminder_period_end := t\<rparr>) = sub_wf s"
  "sub_wf s \<Longrightarrow> sub_wf (s\<lparr>sb_status := Expired, sb_updated_at := now\<rparr>)"
  by (simp_all add: sub_wf_def sub_row_ok_def)

lemma billing_ok_reminders:
  assumes "billing_ok db"
  shows "billing_ok (snd (send_trial_reminders now db))"
    and "billing_ok (snd (send_paid_trial_reminders now only db))"
    and "billing_ok (snd (send_renewal_reminders now only within amount db))"
proof -
  show "billing_ok (snd (send_trial_reminders now db))"
    using billing_ok_update [OF assms, of "\<lambda>_ s. trial_reminder_due now s" "\<lambda>s. s\<lparr>sb_trial_reminder_sent_at := Some now\<rparr>"]
    by (simp add: send_trial_reminders_def wf_stamps split_beta)
  show "billing_ok (snd (send_paid_trial_reminders now only db))"
    using billing_ok_update [OF assms, of "paid_trial_due now only" "\<lambda>s. s\<lparr>sb_paid_trial_reminder_sent_at := Some now\<rparr>"]
    by (simp add: send_paid_trial_reminders_def wf_stamps split_beta)
  show "billing_ok (snd (send_renewal_reminders now only within amount db))"
    using billing_ok_update [OF assms, of "renewal_due now only within"
        "\<lambda>s. s\<lparr>sb_renewal_reminder_period_end := sb_current_period_end s\<rparr>"]
    by (simp add: send_renewal_reminders_def wf_stamps split_beta)
qed

lemma tell_each_frame:
  "tell_each now c prices t rows db = (r, db') \<Longrightarrow> \<exists>es. db' = db\<lparr>db_events := db_events db @ es\<rparr>"
proof (induction now c prices t rows db arbitrary: r db' rule: tell_each.induct)
  case (1 now c prices t db)
  then show ?case by (auto intro: exI [of _ "[]"])
next
  case (2 now c prices t u s rest db)
  show ?case
  proof (cases "price_change_of prices s")
    case None
    with 2(1,3) show ?thesis by simp
  next
    case (Some n)
    let ?d = "JObj [(''interval'', json_of_opt JStr (sb_billing_interval s)),
        (''old_amount_cents'', json_of_opt JInt (sb_unit_amount_cents s)), (''new_amount_cents'', JInt n),
        (''currency'', json_of_opt JStr (sb_currency s)), (''effective_at'', JTime t)]"
    show ?thesis
    proof (cases "record_event_row now u ''price_change_notified'' (Some c) ?d None db")
      case (Inl e)
      with Some 2(3) show ?thesis by (auto simp: Let_def intro: exI [of _ "[]"])
    next
      case (Inr db1)
      with Some 2(3) obtain r1 where "tell_each now c prices t rest db1 = (r1, db')"
        by (auto simp: Let_def split: prod.splits sum.splits)
      from 2(2) [OF Some refl Inr this] obtain es where "db' = db1\<lparr>db_events := db_events db1 @ es\<rparr>" by auto
      moreover obtain e where "db1 = db\<lparr>db_events := db_events db @ [e]\<rparr>"
        using Inr by (auto simp: record_event_row_def dest: record_event_Inr)
      ultimately show ?thesis by (intro exI [of _ "e # es"]) simp
    qed
  qed
qed

lemma billing_ok_price_change:
  assumes "billing_ok db" and "notify_price_change now c prices t db = (r, db')"
  shows "billing_ok db'"
proof -
  obtain r1 db1 where t: "tell_each now c prices t
      (filter (\<lambda>(_, s). price_change_subscriber c s) (sub_rows db)) db = (r1, db1)" by fastforce
  from tell_each_frame [OF t] assms(1) have "billing_ok db1" by (auto simp: billing_ok_events)
  then show ?thesis
    using assms(2) t by (cases r1) (auto simp: notify_price_change_def)
qed

lemma billing_ok_grant_trials:
  assumes ok: "billing_ok db" and g: "grant_trials now dys actor db = Inr (n, db')"
  shows "billing_ok db'"
proof -
  let ?c = "bs_trial_plan (load_settings db)"
  define row where "row = (blank_sub ?c Trialing TrialSource now)
      \<lparr>sb_current_period_end := Some (now + days dys), sb_trial_ends_at := Some (now + days dys),
       sb_updated_by := Some actor\<rparr>"
  have plan: "plan_exists db ?c"
    and subs: "db_subs db' = (\<lambda>u. if u \<in> set (trial_candidates db) then Some row else db_subs db u)"
    and same: "db_users db' = db_users db" "db_plans db' = db_plans db" "db_promos db' = db_promos db"
      "db_redemptions db' = db_redemptions db" "db_referrals db' = db_referrals db" "db_ledger db' = db_ledger db"
    using g by (auto simp: grant_trials_def Let_def ensure_plan_exists_def row_def split: if_splits)
  have wf: "sub_wf row \<and> sb_plan_code row = ?c"
    by (simp add: row_def sub_wf_def sub_row_ok_def blank_sub_def)
  have known: "user db u \<noteq> None" if "u \<in> set (trial_candidates db)" for u
    using that by (auto simp: trial_candidates_def user_def map_of_eq_None_iff rev_image_eqI)
  have "subs_ok db'"
    unfolding subs_ok_def
  proof (intro allI impI)
    fix u s
    assume s: "db_subs db' u = Some s"
    have "sub_wf s \<and> user db u \<noteq> None \<and> plan_exists db (sb_plan_code s)"
    proof (cases "u \<in> set (trial_candidates db)")
      case True
      then show ?thesis using s subs wf known plan by auto
    next
      case False
      then show ?thesis using s subs ok by (auto simp: billing_ok_def subs_ok_def)
    qed
    then show "sub_wf s \<and> user db' u \<noteq> None \<and> plan_exists db' (sb_plan_code s)"
      by (simp add: user_def plan_exists_def same)
  qed
  then show ?thesis
    using ok promos_ok_cong [of db' db] referral_books_cong [of db' db] same by (simp add: billing_ok_def)
qed

text \<open>The shape of a maintenance run while billing is enforced.\<close>

lemma maintenance_shape:
  assumes "expire_and_remind now counts pt = (r, pt')" and "bs_enforced (load_settings (pt_db pt))"
  obtains rows pt1 r1 where
    "expire_each now rows (pt\<lparr>pt_db := snd (update_subs (\<lambda>_ s. expires now s)
        (\<lambda>s. s\<lparr>sb_status := Expired, sb_updated_at := now\<rparr>) (pt_db pt))\<rparr>) = (r1, pt1)"
    and "pt' = pt1 \<or> (\<exists>ns. pt_db pt' = notify_all ns (snd (send_trial_reminders now (pt_db pt1))))"
proof -
  let ?u = "update_subs (\<lambda>_ s. expires now s) (\<lambda>s. s\<lparr>sb_status := Expired, sb_updated_at := now\<rparr>) (pt_db pt)"
  let ?rows = "map (\<lambda>(u, s). (u, sb_plan_code s, sb_status s)) (fst ?u)"
  obtain r1 pt1 where x: "expire_each now ?rows (pt\<lparr>pt_db := snd ?u\<rparr>) = (r1, pt1)" by fastforce
  have "pt' = pt1 \<or> (\<exists>ns. pt_db pt' = notify_all ns (snd (send_trial_reminders now (pt_db pt1))))"
    using assms x by (cases r1) (auto simp: expire_and_remind_def Let_def split_beta)
  with x show ?thesis by (rule that)
qed

lemma billing_ok_maintenance:
  assumes ok: "billing_ok (pt_db pt)" and e: "expire_and_remind now counts pt = (r, pt')"
  shows "billing_ok (pt_db pt')"
proof (cases "bs_enforced (load_settings (pt_db pt))")
  case False
  with assms show ?thesis by (auto simp: expire_and_remind_def split: prod.splits)
next
  case True
  let ?f = "\<lambda>s. s\<lparr>sb_status := Expired, sb_updated_at := now\<rparr>"
  let ?db1 = "snd (update_subs (\<lambda>_ s. expires now s) ?f (pt_db pt))"
  obtain rows pt1 r1 where x: "expire_each now rows (pt\<lparr>pt_db := ?db1\<rparr>) = (r1, pt1)"
    and cases: "pt' = pt1 \<or> (\<exists>ns. pt_db pt' = notify_all ns (snd (send_trial_reminders now (pt_db pt1))))"
    by (rule maintenance_shape [OF e True])
  have "billing_ok ?db1" by (rule billing_ok_update [OF ok]) (simp add: wf_stamps)
  with expire_each_frame [OF x] have "billing_ok (pt_db pt1)" by (auto simp: billing_ok_events)
  with cases billing_ok_reminders(1) show ?thesis by auto
qed

lemma maintenance_accounts:
  assumes e: "expire_and_remind now counts pt = (r, pt')"
  shows "db_users (pt_db pt') = db_users (pt_db pt) \<and> db_plans (pt_db pt') = db_plans (pt_db pt)"
proof (cases "bs_enforced (load_settings (pt_db pt))")
  case False
  with assms show ?thesis by (auto simp: expire_and_remind_def split: prod.splits)
next
  case True
  obtain rows pt1 r1 where x: "expire_each now rows (pt\<lparr>pt_db := snd (update_subs (\<lambda>_ s. expires now s)
        (\<lambda>s. s\<lparr>sb_status := Expired, sb_updated_at := now\<rparr>) (pt_db pt))\<rparr>) = (r1, pt1)"
    and cases: "pt' = pt1 \<or> (\<exists>ns. pt_db pt' = notify_all ns (snd (send_trial_reminders now (pt_db pt1))))"
    by (rule maintenance_shape [OF e True])
  from expire_each_frame [OF x]
  have "db_users (pt_db pt1) = db_users (pt_db pt) \<and> db_plans (pt_db pt1) = db_plans (pt_db pt)"
    by (auto simp: update_subs_eq)
  with cases show ?thesis by (auto simp: send_trial_reminders_def update_subs_eq split_beta)
qed

lemma billing_ok_registration:
  assumes ok: "billing_ok db"
  shows "billing_ok (start_registration_trial now u db)"
proof -
  let ?t = "start_trial now u (bs_trial_plan (load_settings db)) (bs_trial_days (load_settings db)) None db"
  have "billing_ok d" if t: "?t = Inr (g, d)" for g d
    using billing_ok_sub_frame [OF ok start_trial_frame [OF t]] start_trial_wf [OF _ t] ok
    by (simp add: billing_ok_def)
  then show ?thesis
    using ok by (auto simp: start_registration_trial_def Let_def split: sum.split option.split)
qed

section \<open>Steps\<close>

text \<open>
  What the server can do to the billing tables, one transaction or job run at a time, in any
  order and at any clock reading; \<open>ms\<close> is Postgres' start of the month. Snapshots come from
  the provider through \<open>snapshot_of\<close>.
\<close>

inductive billing_step :: "(time \<Rightarrow> time) \<Rightarrow> db \<Rightarrow> db \<Rightarrow> bool" for ms where
  granted: "grant_plan_time now u c dys src actor memo reference db = Inr (g, db') \<Longrightarrow> src \<noteq> Payment
    \<Longrightarrow> billing_step ms db db'"
| trial: "start_trial now u c dys actor db = Inr (t, db') \<Longrightarrow> billing_step ms db db'"
| extended: "extend_trial now u dys settings db = Inr (g, db') \<Longrightarrow> billing_step ms db db'"
| mirrored: "snapshot_of gw = Some snap \<Longrightarrow> apply_payment_subscription now u snap db = Inr (a, db')
    \<Longrightarrow> billing_step ms db db'"
| ended: "end_paid_subscription now u external_ref kind data actor db = Inr (ch, db') \<Longrightarrow> billing_step ms db db'"
| revoked: "revoke_subscription now u staff db = Inr (b, db') \<Longrightarrow> billing_step ms db db'"
| code_redeemed: "redeem_promo_code now u c db = Inr (s, db') \<Longrightarrow> billing_step ms db db'"
| reward_redeemed: "redeem_reward now u i db = Inr (x, db') \<Longrightarrow> billing_step ms db db'"
| address_verified: "qualify_referral now u db = Inr (x, db') \<Longrightarrow> billing_step ms db db'"
| referrer_paid: "reward_referrer_on_payment ms now u db = Inr (x, db') \<Longrightarrow> billing_step ms db db'"
| reward_reversed: "reverse_referral_reward now u reason db = Inr (x, db') \<Longrightarrow> billing_step ms db db'"
| registered: "billing_step ms db (start_registration_trial now u db)"
| bulk_trials: "grant_trials now dys staff db = Inr (n, db') \<Longrightarrow> billing_step ms db db'"
| maintained: "expire_and_remind now counts pt = (r, pt') \<Longrightarrow> billing_step ms (pt_db pt) (pt_db pt')"
| paid_trials_reminded: "billing_step ms db (snd (send_paid_trial_reminders now only db))"
| renewals_reminded: "billing_step ms db (snd (send_renewal_reminders now only within amount db))"
| prices_announced: "notify_price_change now c prices t db = (r', db') \<Longrightarrow> billing_step ms db db'"
| job_claimed: "billing_step ms db (snd (claim_job_run now job every db))"

lemma billing_ok_claim: "billing_ok db \<Longrightarrow> billing_ok (snd (claim_job_run now job every db))"
  using subs_ok_cong [of "db\<lparr>db_job_runs := (db_job_runs db)(job \<mapsto> now)\<rparr>" db]
    promos_ok_cong [of "db\<lparr>db_job_runs := (db_job_runs db)(job \<mapsto> now)\<rparr>" db]
    referral_books_cong [of "db\<lparr>db_job_runs := (db_job_runs db)(job \<mapsto> now)\<rparr>" db]
  by (simp add: claim_job_run_def billing_ok_def)

lemma billing_step_ok:
  assumes "billing_step ms db db'" and ok: "billing_ok db"
  shows "billing_ok db'"
  using assms
proof (induction rule: billing_step.induct)
  case (granted now u c dys src actor memo reference db g db')
  then show ?case
    using billing_ok_sub_frame [OF _ grant_frame] grant_wf by (metis billing_ok_def)
next
  case (trial now u c dys actor db t db')
  then show ?case using billing_ok_sub_frame [OF _ start_trial_frame] start_trial_wf by (metis billing_ok_def)
next
  case (extended now u dys settings db g db')
  then show ?case using billing_ok_sub_frame [OF _ extend_trial_frame] extend_trial_wf by (metis billing_ok_def)
next
  case (mirrored gw snap now u db a db')
  have "subs_ok db'"
    using apply_wf [OF _ snapshot_status [OF mirrored(1)] mirrored(2)] mirrored(3) by (simp add: billing_ok_def)
  then show ?case using billing_ok_sub_frame [OF mirrored(3) apply_frame [OF mirrored(2)]] by simp
next
  case (ended now u external_ref kind data actor db ch db')
  then show ?case using billing_ok_sub_frame [OF _ end_paid_frame] end_paid_wf by (metis billing_ok_def)
next
  case (revoked now u staff db b db')
  then show ?case using billing_ok_sub_frame [OF _ revoke_frame] revoke_wf by (metis billing_ok_def)
next
  case (code_redeemed now u c db s db')
  show ?case by (rule billing_ok_promo [OF code_redeemed(2,1)])
next
  case (reward_redeemed now u i db x db')
  show ?case by (rule billing_ok_reward [OF reward_redeemed(2,1)])
next
  case (address_verified now u db x db')
  show ?case by (rule billing_ok_referral(1) [OF address_verified(2,1)])
next
  case (referrer_paid now u db x db')
  show ?case by (rule billing_ok_referral(2) [OF referrer_paid(2,1)])
next
  case (reward_reversed now u reason db x db')
  show ?case by (rule billing_ok_referral(3) [OF reward_reversed(2,1)])
next
  case (registered db now u)
  then show ?case by (rule billing_ok_registration)
next
  case (bulk_trials now dys staff db n db')
  show ?case by (rule billing_ok_grant_trials [OF bulk_trials(2,1)])
next
  case (maintained now counts pt r pt')
  show ?case by (rule billing_ok_maintenance [OF maintained(2,1)])
next
  case (paid_trials_reminded db now only)
  then show ?case by (rule billing_ok_reminders(2))
next
  case (renewals_reminded db now only within amount)
  then show ?case by (rule billing_ok_reminders(3))
next
  case (prices_announced now c prices t db r' db')
  show ?case by (rule billing_ok_price_change [OF prices_announced(2,1)])
next
  case (job_claimed db now job every)
  then show ?case by (rule billing_ok_claim)
qed

text \<open>
  C18. Billing stays consistent: whatever sequence of grants, trials, purchases, ends, codes,
  rewards, referrals, reminders and maintenance runs happens, every subscription stays well
  formed (a paid one has its provider id, a failed renewal its failure time, a trial its
  end, and its plan exists), every promo code's counter is the number of its redemptions and
  within its limit with no account redeeming it twice, and every referral has been paid at
  most once to each side.
\<close>

theorem billing_invariant:
  assumes "billing_ok db" and "(billing_step ms)\<^sup>*\<^sup>* db db'"
  shows "billing_ok db'"
  using assms(2,1) by (induction rule: rtranclp_induct) (auto intro: billing_step_ok)

lemma db0_ok: "billing_ok (db_ref\<lparr>db_promos := [welcome_code]\<rparr>)"
  by (simp add: billing_ok_def subs_ok_def promos_ok_def referral_books_def row_books_def payments_def
      db_ref_def db0_def pending_ref_def welcome_code_def)

theorem billing_invariant_witness:
  "\<exists>db'. (billing_step (\<lambda>_. 0))\<^sup>*\<^sup>* (db_ref\<lparr>db_promos := [welcome_code]\<rparr>) db' \<and> billing_ok db'
     \<and> credit_balance db' 7 = 40"
proof -
  let ?db = "db_ref\<lparr>db_promos := [welcome_code]\<rparr>"
  have c: "case redeem_promo_code 5 7 ''WELCOME1'' ?db of Inr (s, d) \<Rightarrow> credit_balance d 7 = 40 | _ \<Rightarrow> False"
    by code_simp
  then obtain s d where r: "redeem_promo_code 5 7 ''WELCOME1'' ?db = Inr (s, d)" and b: "credit_balance d 7 = 40"
    by (auto split: sum.splits)
  from r have "(billing_step (\<lambda>_. 0))\<^sup>*\<^sup>* ?db d" by (blast intro: billing_step.code_redeemed)
  from billing_invariant [OF db0_ok this] this b show ?thesis by blast
qed

end
