(* ===== verification/Books.thy ===== *)
theory Books
  imports Payments BillingRun
begin

text \<open>
  The invariant of the tables the payments work on, and how they may change: the ledger of
  payments and the records of refunds, applied events and staff actions only grow, and what
  they know of the money is never rewritten. The relation of the two is the one every
  operation of the payments is shown to keep.
\<close>

section \<open>The invariant\<close>

definition payment_ok :: "payment_row \<Rightarrow> bool" where
  "payment_ok p \<longleftrightarrow>
     0 < py_amount_cents p
     \<and> 0 \<le> py_refunded_cents p \<and> py_refunded_cents p \<le> py_amount_cents p
     \<and> 0 \<le> py_disputed_cents p \<and> py_disputed_cents p \<le> py_amount_cents p"

definition payments_ok :: "payment_row list \<Rightarrow> bool" where
  "payments_ok ps \<longleftrightarrow> distinct (map py_invoice_id ps) \<and> list_all payment_ok ps"

definition refunds_ok :: "refund_row list \<Rightarrow> bool" where
  "refunds_ok rs \<longleftrightarrow> distinct (map re_id rs) \<and> list_all (\<lambda>r. 0 \<le> re_amount_cents r) rs"

text \<open>No two accounts share a customer of the provider.\<close>

definition customers_ok :: "shop \<Rightarrow> bool" where
  "customers_ok sh \<longleftrightarrow>
     distinct (List.map_filter (\<lambda>u. sh_customers sh u) (remdups (map fst (db_users (sh_db sh)))))"

definition page_open :: "session_row \<Rightarrow> bool" where
  "page_open s \<longleftrightarrow> ss_expired_at s = None \<and> ss_completed_at s = None"

text \<open>An account has at most one checkout page that can still be paid.\<close>

definition pages_ok :: "session_row list \<Rightarrow> bool" where
  "pages_ok rows \<longleftrightarrow> distinct (map ss_session_id rows) \<and> distinct (map ss_user (filter page_open rows))"

definition shop_ok :: "shop \<Rightarrow> bool" where
  "shop_ok sh \<longleftrightarrow>
     billing_ok (sh_db sh) \<and> payments_ok (sh_payments sh) \<and> refunds_ok (sh_refunds sh) \<and> customers_ok sh
     \<and> distinct (map ae_id (sh_applied sh)) \<and> distinct (map cl_customer_id (sh_cleanup sh))
     \<and> pages_ok (sh_sessions sh)"

section \<open>Growth\<close>

text \<open>What a record says is kept, what it does not say may be filled in.\<close>

definition fills_in :: "'a option \<Rightarrow> 'a option \<Rightarrow> bool" where
  "fills_in a b \<longleftrightarrow> a = None \<or> b = a"

definition payment_grows :: "payment_row \<Rightarrow> payment_row \<Rightarrow> bool" where
  "payment_grows p q \<longleftrightarrow>
     py_invoice_id q = py_invoice_id p \<and> py_amount_cents q = py_amount_cents p
     \<and> py_currency q = py_currency p \<and> py_paid_at q = py_paid_at p \<and> py_created_at q = py_created_at p
     \<and> fills_in (py_payment_intent_id p) (py_payment_intent_id q)
     \<and> fills_in (py_charge_id p) (py_charge_id q) \<and> fills_in (py_customer_id p) (py_customer_id q)
     \<and> fills_in (py_subscription_id p) (py_subscription_id q) \<and> fills_in (py_user_id p) (py_user_id q)
     \<and> fills_in (py_plan_code p) (py_plan_code q)
     \<and> fills_in (py_billing_interval p) (py_billing_interval q)"

definition refund_grows :: "refund_row \<Rightarrow> refund_row \<Rightarrow> bool" where
  "refund_grows r q \<longleftrightarrow>
     re_id q = re_id r \<and> re_currency q = re_currency r \<and> re_created_at q = re_created_at r
     \<and> fills_in (re_payment_intent_id r) (re_payment_intent_id q)
     \<and> fills_in (re_charge_id r) (re_charge_id q)"

text \<open>Every row of the first list is still there, at its place; new rows come after it.\<close>

definition rows_grow :: "('a \<Rightarrow> 'a \<Rightarrow> bool) \<Rightarrow> 'a list \<Rightarrow> 'a list \<Rightarrow> bool" where
  "rows_grow P xs ys \<longleftrightarrow> list_all2 P xs (take (length xs) ys)"

definition books_grow :: "shop \<Rightarrow> shop \<Rightarrow> bool" where
  "books_grow t t' \<longleftrightarrow>
     rows_grow payment_grows (sh_payments t) (sh_payments t')
     \<and> rows_grow refund_grows (sh_refunds t) (sh_refunds t')
     \<and> rows_grow (=) (sh_applied t) (sh_applied t')
     \<and> rows_grow (=) (sh_audit t) (sh_audit t')"

definition same_accounts :: "shop \<Rightarrow> shop \<Rightarrow> bool" where
  "same_accounts t t' \<longleftrightarrow>
     db_users (sh_db t') = db_users (sh_db t) \<and> db_plans (sh_db t') = db_plans (sh_db t)"

definition advances :: "shop \<Rightarrow> shop \<Rightarrow> bool" where
  "advances t t' \<longleftrightarrow> (shop_ok t \<longrightarrow> shop_ok t') \<and> books_grow t t' \<and> same_accounts t t'"

section \<open>It chains\<close>

lemma fills_in_refl [simp]: "fills_in a a"
  and fills_in_or_else [simp]: "fills_in a (or_else a b)"
  by (cases a; simp add: fills_in_def)+

lemma fills_in_trans: "fills_in a b \<Longrightarrow> fills_in b c \<Longrightarrow> fills_in a c"
  by (auto simp: fills_in_def)

lemma grows_refl [simp]: "payment_grows p p" "refund_grows r r"
  by (simp_all add: payment_grows_def refund_grows_def)

lemma payment_grows_trans: "payment_grows p q \<Longrightarrow> payment_grows q r \<Longrightarrow> payment_grows p r"
  unfolding payment_grows_def by (simp, blast intro: fills_in_trans)

lemma refund_grows_trans: "refund_grows p q \<Longrightarrow> refund_grows q r \<Longrightarrow> refund_grows p r"
  unfolding refund_grows_def by (simp, blast intro: fills_in_trans)

lemma rows_grow_iff:
  "rows_grow P xs ys \<longleftrightarrow> (\<exists>old new. ys = old @ new \<and> list_all2 P xs old)"
  unfolding rows_grow_def
  by (metis append_take_drop_id append_eq_conv_conj list_all2_lengthD)

lemma rows_grow_refl: "(\<And>x. P x x) \<Longrightarrow> rows_grow P xs xs"
  by (simp add: rows_grow_def list.rel_refl)

lemma rows_grow_append: "(\<And>x. P x x) \<Longrightarrow> rows_grow P xs (xs @ ys)"
  by (simp add: rows_grow_def list.rel_refl)

lemma rows_grow_map: "(\<And>x. P x (f x)) \<Longrightarrow> rows_grow P xs (map f xs)"
  by (simp add: rows_grow_def list_all2_conv_all_nth)

lemma rows_grow_trans:
  assumes P: "\<And>x y z. P x y \<Longrightarrow> P y z \<Longrightarrow> P x z" and 1: "rows_grow P xs ys" and 2: "rows_grow P ys zs"
  shows "rows_grow P xs zs"
proof -
  from 1 obtain old new where y: "ys = old @ new" and xo: "list_all2 P xs old"
    unfolding rows_grow_iff by auto
  from 2 y obtain old' rest where z: "zs = old' @ rest" and yo: "list_all2 P (old @ new) old'"
    unfolding rows_grow_iff by auto
  from yo obtain a b where "old' = a @ b" and "list_all2 P old a"
    by (auto simp: list_all2_append1)
  moreover have "list_all2 P xs a"
    by (rule list_all2_trans [OF P xo \<open>list_all2 P old a\<close>])
  ultimately show ?thesis unfolding rows_grow_iff using z by auto
qed

interpretation books: tables advances
proof unfold_locales
  show "advances t t" for t
    by (simp add: advances_def books_grow_def same_accounts_def rows_grow_refl)
  show "advances t v" if "advances t u" and "advances u v" for t u v
    using that unfolding advances_def books_grow_def same_accounts_def
    by (auto intro: rows_grow_trans payment_grows_trans refund_grows_trans
        rows_grow_trans [of "(=)"])
qed

section \<open>One table at a time\<close>

lemma asked_keeps:
  "provided m w = (r, w') \<Longrightarrow> snd w' = snd w"
  "ask m w = (q, w') \<Longrightarrow> snd w' = snd w"
  by (auto simp: provided_def ask_def emap_err_def split: prod.splits)

lemma or_else_Some [simp]: "or_else a (Some b) \<noteq> None"
  by (cases a) simp_all

lemmas unchanged = rows_grow_refl [of payment_grows] rows_grow_refl [of refund_grows] rows_grow_refl [of "(=)"]

lemma advances_payments:
  assumes "rows_grow payment_grows (sh_payments t) ps" and "payments_ok (sh_payments t) \<Longrightarrow> payments_ok ps"
  shows "advances t (t\<lparr>sh_payments := ps\<rparr>)"
  using assms by (simp add: advances_def books_grow_def same_accounts_def unchanged shop_ok_def customers_ok_def)

lemma advances_refunds:
  assumes "rows_grow refund_grows (sh_refunds t) rs" and "refunds_ok (sh_refunds t) \<Longrightarrow> refunds_ok rs"
  shows "advances t (t\<lparr>sh_refunds := rs\<rparr>)"
  using assms by (simp add: advances_def books_grow_def same_accounts_def unchanged shop_ok_def customers_ok_def)

lemma advances_applied:
  assumes "list_all (\<lambda>e. ae_id e \<noteq> i) (sh_applied t)" and "ae_id new = i"
  shows "advances t (t\<lparr>sh_applied := sh_applied t @ [new]\<rparr>)"
  using assms
  by (auto simp: advances_def books_grow_def same_accounts_def unchanged shop_ok_def customers_ok_def
      rows_grow_append list_all_iff)

lemma advances_cleanup:
  assumes "distinct (map cl_customer_id (sh_cleanup t)) \<Longrightarrow> distinct (map cl_customer_id rows)"
  shows "advances t (t\<lparr>sh_cleanup := rows\<rparr>)"
  using assms by (simp add: advances_def books_grow_def same_accounts_def unchanged shop_ok_def customers_ok_def)

lemma advances_sessions:
  assumes "pages_ok (sh_sessions t) \<Longrightarrow> pages_ok rows"
  shows "advances t (t\<lparr>sh_sessions := rows\<rparr>)"
  using assms by (simp add: advances_def books_grow_def same_accounts_def unchanged shop_ok_def customers_ok_def)

lemma advances_audit: "advances t (t\<lparr>sh_audit := sh_audit t @ rows\<rparr>)"
  by (simp add: advances_def books_grow_def same_accounts_def unchanged shop_ok_def customers_ok_def
      rows_grow_append)

lemma advances_customers:
  assumes "customers_ok t \<Longrightarrow> customers_ok (t\<lparr>sh_customers := cs\<rparr>)"
  shows "advances t (t\<lparr>sh_customers := cs\<rparr>)" and "advances t (t\<lparr>sh_customers := cs, sh_generations := gs\<rparr>)"
  using assms by (simp_all add: advances_def books_grow_def same_accounts_def unchanged shop_ok_def customers_ok_def)

lemma advances_db:
  assumes "billing_ok (sh_db t) \<Longrightarrow> billing_ok db" and "db_users db = db_users (sh_db t)"
    and "db_plans db = db_plans (sh_db t)"
  shows "advances t (with_db db t)"
  using assms by (simp add: advances_def books_grow_def same_accounts_def unchanged shop_ok_def customers_ok_def)

lemma advances_same_db: "pt_db pt = pt_db (sh_pt t) \<Longrightarrow> advances t (t\<lparr>sh_pt := pt\<rparr>)"
  by (simp add: advances_def books_grow_def same_accounts_def unchanged shop_ok_def customers_ok_def)

section \<open>The ledger\<close>

text \<open>An update of the rows that leaves their keys alone.\<close>

lemma distinct_keys_map:
  assumes "\<And>x. key (g x) = key x" and "distinct (map key xs)"
  shows "distinct (map key (map g xs))"
proof -
  have "map key (map g xs) = map key xs" using assms(1) by simp
  with assms(2) show ?thesis by (simp only:)
qed

lemma payments_ok_map:
  assumes "\<And>p. py_invoice_id (g p) = py_invoice_id p" and "\<And>p. payment_ok p \<Longrightarrow> payment_ok (g p)"
    and "payments_ok ps"
  shows "payments_ok (map g ps)"
  using assms(2,3) distinct_keys_map [of py_invoice_id g ps, OF assms(1)]
  unfolding payments_ok_def by (auto simp: list_all_iff simp del: map_map)

lemma refunds_ok_map:
  assumes "\<And>r. re_id (g r) = re_id r" and "\<And>r. 0 \<le> re_amount_cents r \<Longrightarrow> 0 \<le> re_amount_cents (g r)"
    and "refunds_ok rs"
  shows "refunds_ok (map g rs)"
  using assms(2,3) distinct_keys_map [of re_id g rs, OF assms(1)]
  unfolding refunds_ok_def by (auto simp: list_all_iff simp del: map_map)

lemma update_payments_advance:
  assumes "\<And>p. payment_grows p (f p)" and "\<And>p. payment_ok p \<Longrightarrow> payment_ok (f p)"
  shows "books.safe (update_payments P f)"
proof -
  let ?g = "\<lambda>p. if P p then f p else p"
  have "payments_ok ps \<Longrightarrow> payments_ok (map ?g ps)" for ps
    using assms by (intro payments_ok_map) (auto simp: payment_grows_def)
  then have "advances t (t\<lparr>sh_payments := map ?g (sh_payments t)\<rparr>)" for t
    using assms(1) by (intro advances_payments rows_grow_map) auto
  then show ?thesis
    unfolding update_payments_def
    by (intro books.safe_rules books.modifies)
qed

lemma completed_fields:
  "payment_grows p (completed_payment new p)" "payment_ok (completed_payment new p) = payment_ok p"
  "refund_grows r (completed_refund newr r)"
  by (simp_all add: payment_grows_def payment_ok_def refund_grows_def completed_payment_def completed_refund_def)

lemma upsert_payment_advances:
  assumes "payment_ok new"
  shows "advances t (snd (upsert_payment new t))"
proof (cases "find_payment (py_invoice_id new) t")
  case None
  then have "py_invoice_id new \<notin> set (map py_invoice_id (sh_payments t))"
    by (auto simp: find_payment_def find_None_iff)
  then show ?thesis
    using assms None unfolding upsert_payment_def
    by (auto intro!: advances_payments rows_grow_append simp: payments_ok_def)
next
  case (Some q)
  let ?g = "\<lambda>p. if py_invoice_id p = py_invoice_id new then completed_payment new p else p"
  have "payments_ok ps \<Longrightarrow> payments_ok (map ?g ps)" for ps
    by (rule payments_ok_map) (simp_all add: completed_payment_def payment_ok_def)
  with Some show ?thesis
    unfolding upsert_payment_def by (auto intro!: advances_payments rows_grow_map simp: completed_fields)
qed

lemma upsert_refund_advances:
  assumes "0 \<le> re_amount_cents new"
  shows "advances t (upsert_refund_row new t)"
proof (cases "list_ex (\<lambda>r. re_id r = re_id new) (sh_refunds t)")
  case True
  let ?g = "\<lambda>r. if re_id r = re_id new then completed_refund new r else r"
  have "refunds_ok rs \<Longrightarrow> refunds_ok (map ?g rs)" for rs
    using assms by (intro refunds_ok_map) (simp_all add: completed_refund_def)
  with True show ?thesis
    unfolding upsert_refund_row_def by (auto intro!: advances_refunds rows_grow_map simp: completed_fields)
next
  case False
  then have "refunds_ok (sh_refunds t) \<Longrightarrow> refunds_ok (sh_refunds t @ [new])"
    using assms by (auto simp: refunds_ok_def list_ex_iff)
  with False show ?thesis
    unfolding upsert_refund_row_def by (auto intro!: advances_refunds rows_grow_append)
qed

lemma core_advances:
  assumes "billing_core db = billing_core (sh_db t)" and "billing_ok (sh_db t) \<Longrightarrow> billing_ok db"
  shows "advances t (with_db db t)"
  using assms by (intro advances_db) (simp_all add: billing_core_def)

lemma record_invoice_advances: "books.safe (record_invoice month_start now invoice)"
proof (cases "iv_amount_paid invoice \<le> 0")
  case True
  then show ?thesis by (simp add: record_invoice_def books.ret)
next
  case False
  then have new: "payment_ok (new_payment now invoice u)" for u
    by (simp add: payment_ok_def new_payment_def)
  have rewarded: "books.safe (billing_op (reward_referrer_on_payment month_start now u))" for u
    by (rule books.billing) (auto intro!: core_advances dest: reward_core billing_ok_referral(2))
  show ?thesis
    unfolding record_invoice_def Let_def
    by (intro books.safe_rules books.modifies rewarded upsert_payment_advances new)
qed

end
