(* ===== verification/PaymentRun.thy ===== *)
theory PaymentRun
  imports Books
begin

text \<open>
  The payments as a whole: every operation, with any provider behind it, keeps the invariant
  of the tables and lets the ledger only grow.
\<close>

named_theorems advancing \<open>operations shown to keep the relation of the books\<close>

lemmas [advancing] = update_payments_advance record_invoice_advances

section \<open>The ledger\<close>

lemma set_fees_advances [advancing]: "books.safe (set_fees now invoice_id fees)"
  unfolding set_fees_def
  by (intro books.safe_rules advancing) (simp_all add: payment_grows_def payment_ok_def)

lemma set_refunded_advances [advancing]: "books.safe (set_refunded now payment_intent refunded)"
  unfolding set_refunded_def
  by (intro books.safe_rules advancing) (auto simp: payment_grows_def payment_ok_def)

lemma refunded_sum_nonneg: "refunds_ok rs \<Longrightarrow> 0 \<le> refunded_sum payment_intent rs"
  unfolding refunded_sum_def refunds_ok_def by (auto intro!: sum_list_nonneg simp: list_all_iff)

text \<open>The sum of the recorded refunds is at least zero only while the records are right.\<close>

lemma recompute_advances [advancing]: "books.safe (recompute_refunded now payment_intent)"
proof (rule books.safeI)
  fix w :: "'a \<times> shop" and r w'
  assume r: "recompute_refunded now payment_intent w = (r, w')"
  let ?total = "refunded_sum payment_intent (sh_refunds (snd w))"
  let ?P = "\<lambda>p. py_payment_intent_id p = Some payment_intent"
  let ?f = "\<lambda>p. p\<lparr>py_refunded_cents := min (py_amount_cents p) ?total, py_updated_at := now\<rparr>"
  let ?g = "\<lambda>p. if ?P p then ?f p else p"
  show "advances (snd w) (snd w')"
  proof (cases "list_all payment_fits (map ?f (filter ?P (sh_payments (snd w))))")
    case True
    then have w': "snd w' = (snd w)\<lparr>sh_payments := map ?g (sh_payments (snd w))\<rparr>"
      using r by (simp add: recompute_refunded_def update_payments_def) auto
    have grow: "payment_grows p (?g p)" for p by (simp add: payment_grows_def)
    have "payments_ok (map ?g (sh_payments (snd w)))" if "shop_ok (snd w)"
      using that refunded_sum_nonneg [of "sh_refunds (snd w)" payment_intent]
      by (intro payments_ok_map) (auto simp: shop_ok_def payment_ok_def)
    then show ?thesis
      unfolding w' by (simp add: advances_def books_grow_def same_accounts_def unchanged shop_ok_def
          customers_ok_def rows_grow_map [of payment_grows ?g, OF grow])
  next
    case False
    then show ?thesis
      using r books.stay by (simp add: recompute_refunded_def update_payments_def)
  qed
qed

lemma store_refund_advances [advancing]: "books.safe (store_refund now r)"
  unfolding store_refund_def Let_def
  by (intro books.safe_rules books.modifies upsert_refund_advances) (simp add: new_refund_def)

lemma import_invoice_advances [advancing]:
  "books.safe (import_invoice_of month_start now pays payment_intent)"
  unfolding import_invoice_of_def by (intro books.safe_rules advancing)

lemma upsert_refund_op_advances [advancing]: "books.safe (upsert_refund month_start now pays r)"
  unfolding upsert_refund_def by (intro books.safe_rules advancing)

lemma apply_refund_advances [advancing]:
  "books.safe (apply_refund_object month_start now pays obj)"
  "books.safe (store_refunds_of now pays payment_intent)"
  unfolding apply_refund_object_def store_refunds_of_def by (intro books.safe_rules advancing)+

lemma apply_refund_event_advances [advancing]: "books.safe (apply_refund_event month_start now pays charge)"
  unfolding apply_refund_event_def by (intro books.safe_rules advancing)

lemma mark_disputed_advances [advancing]:
  "books.safe (mark_disputed now payment_intent amount status charge)"
  unfolding mark_disputed_def
  by (intro books.safe_rules advancing) (auto simp: payment_grows_def payment_ok_def)

lemma apply_dispute_advances [advancing]: "books.safe (apply_dispute month_start now pays dispute)"
  unfolding apply_dispute_def Let_def by (intro books.safe_rules advancing)

lemma pages_advance [advancing]:
  "books.safe (record_page month_start now invoices result)"
  "books.safe (store_page now refunds result)"
  unfolding record_page_def store_page_def by (intro books.safe_rules advancing)+

lemma sync_pages_advances [advancing]:
  "books.safe (sync_pages late month_start now pay n position result)"
proof (induction n arbitrary: position result)
  case 0
  then show ?case by (simp only: sync_pages.simps books.ret)
next
  case (Suc n)
  show ?case
    unfolding sync_pages.simps
    by (cases position; simp only: sync_cursor.case; intro books.safe_rules Suc advancing)
qed

lemma sync_from_provider_advances [advancing]:
  "books.safe (sync_from_provider late month_start now pays cursor)"
  unfolding sync_from_provider_def by (intro books.safe_rules advancing)

section \<open>Transactions of billing\<close>

lemma sub_frame_advances:
  assumes "sub_frame u (sh_db t) db" and "subs_ok (sh_db t) \<Longrightarrow> subs_ok db"
  shows "advances t (with_db db t)"
  using assms sub_frameD [OF assms(1)] billing_ok_sub_frame [OF _ assms(1)]
  by (intro advances_db) (auto simp: billing_ok_def)

lemma apply_advances [advancing]:
  assumes "snapshot_of g = Some snap"
  shows "books.safe (billing_op (apply_payment_subscription now u snap))"
  using snapshot_status [OF assms]
  by (intro books.billing sub_frame_advances) (auto intro: apply_frame apply_wf)

lemma end_paid_advances [advancing]:
  "books.safe (billing_op (end_paid_subscription now u external_ref kind data actor))"
  by (intro books.billing sub_frame_advances) (auto intro: end_paid_frame end_paid_wf)

lemma rewards_advance [advancing]:
  "books.safe (billing_op (reward_referrer_on_payment month_start now u))"
  "books.safe (billing_op (reverse_referral_reward now u reason))"
  by (rule books.billing, auto intro!: core_advances dest: reward_core reverse_core billing_ok_referral(2,3))+

lemma event_row_advances [advancing]:
  "books.safe (billing_op (\<lambda>db. map_sum id (\<lambda>db. ((), db)) (record_event_row now u kind plan data actor db)))"
proof (rule books.billing)
  fix t x db
  assume "map_sum id (\<lambda>db. ((), db)) (record_event_row now u kind plan data actor (sh_db t)) = Inr (x, db)"
  then have "record_event_row now u kind plan data actor (sh_db t) = Inr db"
    by (cases "record_event_row now u kind plan data actor (sh_db t)") auto
  then obtain e where db: "db = (sh_db t)\<lparr>db_events := db_events (sh_db t) @ [e]\<rparr>"
    by (auto simp: record_event_row_def dest: record_event_Inr)
  show "advances t (with_db db t)"
    unfolding db by (intro advances_db) (simp_all add: billing_ok_events)
qed

lemma expire_lapsed_in_advances [advancing]:
  "books.safe (billing_op (expire_lapsed_in now u external_ref))"
proof (rule books.billing)
  fix t x db
  assume e: "expire_lapsed_in now u external_ref (sh_db t) = Inr (x, db)"
  show "advances t (with_db db t)"
  proof (cases "opt_filter (\<lambda>s. lapsed now (now - days RENEWAL_GRACE_DAYS) s
        \<and> sb_external_ref s = external_ref) (db_subs (sh_db t) u)")
    case None
    with e have "db = sh_db t" by (simp add: expire_lapsed_in_def)
    then show ?thesis by (simp add: books.stay)
  next
    case (Some s)
    then have s: "db_subs (sh_db t) u = Some s" by (auto simp: opt_filter_def split: option.splits if_splits)
    let ?row = "s\<lparr>sb_status := Expired, sb_updated_at := now\<rparr>"
    from Some e obtain db1 where w: "write_sub u ?row (sh_db t) = Inr db1"
      and r: "record_event now u ''expired'' (Some s) (Some (sb_plan_code s)) (Some Expired)
          (JObj [(''source'', JStr (source_key Payment)),
                 (''external_ref'', json_of_opt JStr external_ref)]) None db1 = Inr db"
      by (auto simp: expire_lapsed_in_def rbind_def split: sum.splits)
    note wr = write_record [OF w r]
    show ?thesis
    proof (rule sub_frame_advances [OF wr(1)])
      assume ok: "subs_ok (sh_db t)"
      have "sub_wf ?row" using subs_okD [OF ok s] by (simp add: wf_stamps)
      then show "subs_ok db"
        using wr(2,4,5) by (intro subs_ok_write [OF ok wr(1), of ?row]) auto
    qed
  qed
qed

section \<open>Mirroring\<close>

lemma the_payments_advances [advancing]: "books.safe (the_payments pays)"
  unfolding the_payments_def by (intro books.safe_rules)

lemma cancel_duplicate_advances [advancing]: "books.safe (cancel_duplicate month_start now pay duplicate)"
  unfolding cancel_duplicate_def by (intro books.safe_rules advancing)

lemma resolve_duplicate_advances [advancing]:
  assumes "snapshot_of g = Some snap"
  shows "books.safe (resolve_duplicate month_start now pays u duplicate snap current_ref)"
proof -
  have other: "books.safe (billing_op (apply_payment_subscription now u current_snap))"
    if "Option.bind current snapshot_of = Some current_snap" for current current_snap
    using that by (cases current) (auto intro: apply_advances)
  show ?thesis
    unfolding resolve_duplicate_def
    by (intro books.safe_rules advancing(1-5) the_payments_advances cancel_duplicate_advances
        event_row_advances end_paid_advances apply_advances [OF assms] other; (rule books.safe_rules | assumption)+)
qed

lemma claim_event_advances [advancing]: "books.safe (claim_event now i kind)"
proof (rule books.safeI)
  fix w :: "'a \<times> shop" and r w'
  assume "claim_event now i kind w = (r, w')"
  then show "advances (snd w) (snd w')"
    by (auto simp: claim_event_def books.stay list_ex_iff intro!: advances_applied [of i]
        simp: list_all_iff split: if_splits)
qed

text \<open>Who has a customer, over accounts that are listed once.\<close>

lemma distinct_filtered:
  "distinct us \<Longrightarrow> distinct (List.map_filter f us) \<longleftrightarrow>
     (\<forall>u \<in> set us. \<forall>v \<in> set us. f u \<noteq> None \<longrightarrow> f u = f v \<longrightarrow> u = v)"
proof (induction us)
  case Nil
  then show ?case by (simp add: map_filter_simps)
next
  case (Cons a us)
  have mem: "x \<in> set (List.map_filter f us) \<longleftrightarrow> (\<exists>v \<in> set us. f v = Some x)" for x
    by (force simp: map_filter_def)
  show ?case
    using Cons by (cases "f a") (auto simp: map_filter_simps mem)
qed

lemma customers_ok_iff:
  "customers_ok t \<longleftrightarrow> (\<forall>u \<in> fst ` set (db_users (sh_db t)). \<forall>v \<in> fst ` set (db_users (sh_db t)).
     sh_customers t u \<noteq> None \<longrightarrow> sh_customers t u = sh_customers t v \<longrightarrow> u = v)"
  unfolding customers_ok_def by (subst distinct_filtered) simp_all

lemma user_by_customer_None:
  "user_by_customer c t = None \<Longrightarrow> u \<in> fst ` set (db_users (sh_db t)) \<Longrightarrow> sh_customers t u \<noteq> Some c"
  by (force simp: user_by_customer_def find_None_iff)

lemma learned_customer_ok:
  assumes free: "user_by_customer c t = None" and ok: "customers_ok t"
  shows "customers_ok (t\<lparr>sh_customers := (sh_customers t)(u \<mapsto> c)\<rparr>)"
  unfolding customers_ok_iff
proof (intro ballI impI)
  let ?t = "t\<lparr>sh_customers := (sh_customers t)(u \<mapsto> c)\<rparr>"
  fix a b
  assume a: "a \<in> fst ` set (db_users (sh_db ?t))" and b: "b \<in> fst ` set (db_users (sh_db ?t))"
    and some: "sh_customers ?t a \<noteq> None" and same: "sh_customers ?t a = sh_customers ?t b"
  have a': "sh_customers t a \<noteq> Some c" and b': "sh_customers t b \<noteq> Some c"
    using a b by (simp_all add: user_by_customer_None [OF free])
  show "a = b"
  proof (cases "a = u \<or> b = u")
    case True
    with same a' b' show ?thesis by (cases "a = u"; cases "b = u") simp_all
  next
    case False
    with some same have "sh_customers t a \<noteq> None" "sh_customers t a = sh_customers t b" by simp_all
    from ok [unfolded customers_ok_iff, rule_format, OF _ _ this] a b show ?thesis by simp
  qed
qed

lemma learn_customer_advances [advancing]: "books.safe (learn_customer u c)"
proof (rule books.safeI)
  fix w :: "'a \<times> shop" and r w'
  assume l: "learn_customer u c w = (r, w')"
  show "advances (snd w) (snd w')"
  proof (cases "user_by_customer c (snd w) = None")
    case True
    have "advances (snd w) ((snd w)\<lparr>sh_customers := (sh_customers (snd w))(u \<mapsto> c)\<rparr>)"
      by (rule advances_customers(1)) (rule learned_customer_ok [OF True])
    with l show ?thesis by (auto simp only: learn_customer_def op_simps ebind_simps eff_simps books.stay
          snd_conv prod.inject split: if_splits)
  qed (use l in \<open>simp add: learn_customer_def books.stay\<close>)
qed

lemma notify_advances: "advances t (notify ns t)"
  unfolding notify_def by (intro advances_db) simp_all

lemma drop_lost_advances: "advances t (drop_lost_shares now u t)"
  unfolding drop_lost_shares_def by (intro advances_same_db) simp

lemma promos_ok_spent:
  "(\<And>r. rd_promo (f r) = rd_promo r \<and> rd_user (f r) = rd_user r) \<Longrightarrow>
   promos_ok (db\<lparr>db_redemptions := map f (db_redemptions db)\<rparr>) = promos_ok db"
  by (simp add: promos_ok_def comp_def filter_map)

lemma spend_advances: "advances t (spend_redemption now i u t)"
proof -
  let ?f = "\<lambda>r. if map_of (sh_redemption_ids t) i = Some (rd_promo r, rd_user r) \<and> rd_user r = u
                 \<and> rd_applied_at r = None then r\<lparr>rd_applied_at := Some now\<rparr> else r"
  let ?db = "(sh_db t)\<lparr>db_redemptions := map ?f (db_redemptions (sh_db t))\<rparr>"
  have "promos_ok ?db = promos_ok (sh_db t)" by (rule promos_ok_spent) simp
  then have "billing_ok (sh_db t) \<Longrightarrow> billing_ok ?db"
    using subs_ok_cong [of ?db "sh_db t"] referral_books_cong [of ?db "sh_db t"] by (simp add: billing_ok_def)
  then show ?thesis unfolding spend_redemption_def by (intro advances_db) simp_all
qed

lemma billing_ok_row:
  assumes ok: "billing_ok db" and s: "db_subs db u = Some s" and wf: "sub_wf s \<Longrightarrow> sub_wf s'"
    and plan: "sb_plan_code s' = sb_plan_code s"
  shows "billing_ok (db\<lparr>db_subs := (db_subs db)(u \<mapsto> s')\<rparr>)"
proof (rule billing_ok_sub_frame [OF ok])
  let ?db = "db\<lparr>db_subs := (db_subs db)(u \<mapsto> s')\<rparr>"
  show f: "sub_frame u db ?db" by (simp add: sub_frame_def)
  have "subs_ok db" using ok by (simp add: billing_ok_def)
  then show "subs_ok ?db"
    using s wf plan by (intro subs_ok_write [OF _ f, of s']) (auto simp: subs_ok_def)
qed

lemma accept_terms_advances: "advances t (accept_terms now u external_ref version t)"
  unfolding accept_terms_def
  by (auto intro!: advances_db billing_ok_row simp: books.stay sub_wf_def sub_row_ok_def split: option.split)

lemma applied_branches:
  "(\<And>c. books.safe (f c)) \<Longrightarrow> books.safe m \<Longrightarrow> (\<And>r. books.safe (h r)) \<Longrightarrow> books.safe (case_applied f m h a)"
  by (cases a) simp_all

lemma mirror_advances [advancing]: "books.safe (mirror_in month_start now pays u subscription options)"
  unfolding mirror_in_def
  by (intro books.safe_rules applied_branches books.modifies claim_event_advances learn_customer_advances
      apply_advances resolve_duplicate_advances spend_advances accept_terms_advances)

lemma after_change_advances [advancing]:
  "books.safe (after_change now u change)" "books.safe (after_expiry now u plan)"
  unfolding after_change_def after_expiry_def
  by (intro books.safe_rules books.modifies notify_advances drop_lost_advances)+

lemma sync_subscription_advances [advancing]:
  "books.safe (sync_subscription parse_uuid month_start now pay i client_reference options)"
  unfolding sync_subscription_def by (intro books.safe_rules advancing)

lemma reconcile_one_advances [advancing]:
  "books.safe (cancel_if_failing pay out external_ref subscription)"
  "books.safe (reconcile_one month_start now pay u external_ref)"
  "books.safe (expire_lapsed now u ref)"
  unfolding reconcile_one_def cancel_if_failing_def expire_lapsed_def by (intro books.safe_rules advancing)+

lemma reconcile_due_advances [advancing]: "books.safe (reconcile_due month_start now pays)"
  unfolding reconcile_due_def by (intro books.safe_rules advancing)

lemma reconcile_pages_advances [advancing]:
  "books.safe (reconcile_pages parse_uuid month_start now pay n after drifted)"
proof (induction n arbitrary: after drifted)
  case 0
  then show ?case by (simp only: reconcile_pages.simps books.ret)
next
  case (Suc n)
  show ?case
    unfolding reconcile_pages.simps reconcile_page_def by (intro books.safe_rules advancing Suc)
qed

lemma reconcile_all_advances [advancing]: "books.safe (reconcile_all parse_uuid month_start now pays)"
  unfolding reconcile_all_def by (intro books.safe_rules advancing)

section \<open>Checkout\<close>

lemma fetching_advances [advancing]: "books.safe (fetching f)"
  by (rule books.safeI) (auto simp: fetching_def books.stay)

lemma fewer_customers_ok:
  assumes "\<And>u. cs u = None \<or> cs u = sh_customers t u" and ok: "customers_ok t"
  shows "customers_ok (t\<lparr>sh_customers := cs\<rparr>)"
  unfolding customers_ok_iff
proof (intro ballI impI)
  let ?t = "t\<lparr>sh_customers := cs\<rparr>"
  fix a b
  assume a: "a \<in> fst ` set (db_users (sh_db ?t))" and b: "b \<in> fst ` set (db_users (sh_db ?t))"
    and some: "sh_customers ?t a \<noteq> None" and same: "sh_customers ?t a = sh_customers ?t b"
  have "sh_customers t a \<noteq> None" "sh_customers t a = sh_customers t b"
    using some same assms(1) [of a] assms(1) [of b] by auto
  from ok [unfolded customers_ok_iff, rule_format, OF _ _ this] a b show "a = b" by simp
qed

lemma clear_customer_advances [advancing]: "books.safe (clear_customer c)"
  unfolding clear_customer_def
  by (intro books.safe_rules books.modifies advances_customers(2) fewer_customers_ok) auto

lemma store_customer_advances [advancing]: "books.safe (store_customer u c)"
proof (rule books.safeI)
  fix w :: "'a \<times> shop" and r w'
  assume l: "store_customer u c w = (r, w')"
  show "advances (snd w) (snd w')"
  proof (cases "user_by_customer c (snd w) = None")
    case True
    have "advances (snd w) ((snd w)\<lparr>sh_customers := (sh_customers (snd w))(u \<mapsto> c)\<rparr>)"
      by (rule advances_customers(1)) (rule learned_customer_ok [OF True])
    with l show ?thesis by (auto simp only: store_customer_def op_simps ebind_simps eff_simps books.stay
          snd_conv prod.inject prod.case split: if_splits option.splits)
  qed (use l in \<open>auto simp: store_customer_def books.stay split: if_splits option.splits\<close>)
qed

lemma ensure_customer_advances [advancing]: "books.safe (ensure_customer pay u acc locale_key)"
  unfolding ensure_customer_def by (intro books.safe_rules advancing)

lemma checkout_customer_advances [advancing]:
  "books.safe (provider_has_live_subscription pay customer_id)"
  "books.safe (checkout_customer pay u acc locale_key)"
  "books.safe (checkout_coupon uuid_text now pay u spec discount)"
  unfolding checkout_customer_def provider_has_live_subscription_def checkout_coupon_def Let_def
  by (intro books.safe_rules advancing)+

text \<open>Marking pages as expired or completed only closes pages.\<close>

lemma pages_ok_marked:
  assumes f: "\<And>s. ss_session_id (f s) = ss_session_id s \<and> ss_user (f s) = ss_user s
      \<and> (page_open (f s) \<longrightarrow> page_open s)" and ok: "pages_ok rows"
  shows "pages_ok (map f rows)"
proof -
  have sub: "set (map ss_user (filter page_open (map f xs))) \<subseteq> set (map ss_user (filter page_open xs))" for xs
    using f by (induction xs) auto
  have "distinct (map ss_user (filter page_open xs)) \<Longrightarrow> distinct (map ss_user (filter page_open (map f xs)))" for xs
  proof (induction xs)
    case (Cons a xs)
    then show ?case using f [of a] sub [of xs] by (cases "page_open a"; cases "page_open (f a)") auto
  qed simp
  then show ?thesis
    using ok distinct_keys_map [of ss_session_id f rows] f by (simp add: pages_ok_def)
qed

lemma update_session_advances:
  assumes "\<And>s. ss_session_id (f s) = ss_session_id s \<and> ss_user (f s) = ss_user s
      \<and> (page_open (f s) \<longrightarrow> page_open s)"
  shows "advances t (update_session i f t)"
  unfolding update_session_def
  by (rule advances_sessions, rule pages_ok_marked) (simp_all add: assms)

lemma mark_expired_advances: "advances t (update_session i (\<lambda>s. s\<lparr>ss_expired_at := Some now\<rparr>) t)"
  by (rule update_session_advances) (simp add: page_open_def)

lemma expire_earlier_advances [advancing]: "books.safe (expire_earlier now pay sessions)"
  unfolding expire_earlier_def
  by (intro books.safe_rules books.modifies mark_expired_advances)

text \<open>Opening a page: every earlier one is closed first, so the new one is the only one.\<close>

lemma expire_earlier_closes:
  "expire_earlier now pay earlier w = (Inr x, w') \<Longrightarrow>
     filter page_open (sh_sessions (snd w')) =
       filter (\<lambda>s. page_open s \<and> ss_session_id s \<notin> ss_session_id ` set earlier) (sh_sessions (snd w))"
proof (induction earlier arbitrary: w)
  case Nil
  then show ?case by (simp add: expire_earlier_def)
next
  case (Cons e earlier)
  from Cons.prems obtain w1 where
    rest: "expire_earlier now pay earlier w1 = (Inr x, w')"
    and w1: "sh_sessions (snd w1) =
      map (\<lambda>s. if ss_session_id s = ss_session_id e then s\<lparr>ss_expired_at := Some now\<rparr> else s) (sh_sessions (snd w))"
    by (auto simp: expire_earlier_def ebind_eq_Inr update_session_def dest!: asked_keeps split: if_splits)
  have "filter (\<lambda>s. page_open s \<and> ss_session_id s \<notin> ss_session_id ` set earlier)
      (map (\<lambda>s. if ss_session_id s = ss_session_id e then s\<lparr>ss_expired_at := Some now\<rparr> else s) xs)
    = filter (\<lambda>s. page_open s \<and> ss_session_id s \<notin> ss_session_id ` set (e # earlier)) xs" for xs
    by (induction xs) (auto simp: page_open_def)
  with Cons.IH [OF rest] w1 show ?case by simp
qed

lemma open_checkout_advances [advancing]:
  "books.safe (open_checkout uuid_text config now pay u payload p customer_id price_id locale_key
     trial_end coupon_id redemption_id)"
proof (rule books.safeI)
  fix w :: "'a \<times> shop" and r w'
  assume run: "open_checkout uuid_text config now pay u payload p customer_id price_id locale_key
     trial_end coupon_id redemption_id w = (r, w')"
  show "advances (snd w) (snd w')"
  proof (cases r)
    case (Inl e)
    with run show ?thesis by (auto simp: open_checkout_def dest!: atomically_Inl intro: books.stay)
  next
    case (Inr session)
    with run obtain w1 w2 where
      closed: "expire_earlier now pay (open_sessions u (snd w)) w = (Inr (), w1)"
      and asked: "snd w2 = snd w1" and ins: "insert_session now u (cs_id session) w2 = (Inr (), w')"
      by (auto simp: open_checkout_def atomically_eq_Inr ebind_eq_Inr dest!: asked_keeps)
    have 1: "advances (snd w) (snd w1)"
      by (rule books.safeD [OF expire_earlier_advances closed])
    let ?i = "cs_id session"
    let ?new = "\<lparr>ss_session_id = ?i, ss_user = u, ss_created_at = now, ss_expired_at = None, ss_completed_at = None\<rparr>"
    show ?thesis
    proof (cases "?i \<in> ss_session_id ` set (sh_sessions (snd w1))")
      case True
      with ins asked 1 show ?thesis by (auto simp: insert_session_def list_ex_iff split: if_splits)
    next
      case False
      have "u \<notin> ss_user ` set (filter page_open (sh_sessions (snd w1)))"
        unfolding expire_earlier_closes [OF closed] by (auto simp: open_sessions_def page_open_def)
      with False have "advances (snd w1) ((snd w1)\<lparr>sh_sessions := sh_sessions (snd w1) @ [?new]\<rparr>)"
        by (intro advances_sessions) (auto simp: pages_ok_def)
      moreover have "snd w' = (snd w1)\<lparr>sh_sessions := sh_sessions (snd w1) @ [?new]\<rparr>"
        using False ins asked by (force simp: insert_session_def list_ex_iff split: if_splits)
      ultimately show ?thesis using books.onward [OF 1] by simp
    qed
  qed
qed

lemma start_checkout_advances [advancing]:
  "books.safe (start_checkout uuid_text config now pays u payload)"
  unfolding start_checkout_def Let_def by (intro books.safe_rules advancing)

lemma change_plan_advances [advancing]: "books.safe (change_plan month_start now pays u payload)"
  unfolding change_plan_def by (intro books.safe_rules advancing)

lemma open_portal_advances [advancing]: "books.safe (open_portal config pays u)"
  unfolding open_portal_def by (intro books.safe_rules advancing)

section \<open>Leaving the provider\<close>

lemma cancel_paid_advances [advancing]: "books.safe (cancel_paid_subscription now pays u)"
  unfolding cancel_paid_subscription_def by (intro books.safe_rules)

lemma queue_customer_advances: "advances t (queue_customer now c message t)"
  unfolding queue_customer_def
  by (auto simp: books.stay list_ex_iff intro!: advances_cleanup)

lemma forget_customer_advances [advancing]: "books.safe (forget_customer now pays customer_id)"
  unfolding forget_customer_def
  by (intro books.safe_rules books.modifies queue_customer_advances)

lemma cleanup_row_advances:
  "advances t (cleanup_done c t)" "advances t (cleanup_later now c attempts message t)"
  unfolding cleanup_done_def cleanup_later_def
  by (rule advances_cleanup, erule distinct_map_filter)
    (rule advances_cleanup, rule distinct_keys_map, simp_all)

lemma cleanup_queue_advances [advancing]: "books.safe (process_cleanup_queue now pays)"
  unfolding process_cleanup_queue_def
  by (intro books.safe_rules books.modifies cleanup_row_advances)

lemma sync_customer_email_advances [advancing]: "books.safe (sync_customer_email pays u)"
  unfolding sync_customer_email_def by (intro books.safe_rules advancing)

section \<open>Webhook and refunds\<close>

lemma take_reward_back_advances [advancing]: "books.safe (take_reward_back now u reason)"
  unfolding take_reward_back_def by (intro books.safe_rules advancing)

lemma record_paid_invoice_advances [advancing]:
  "books.safe (record_paid_invoice month_start now pay invoice_id)"
  unfolding record_paid_invoice_def by (intro books.safe_rules advancing)

lemma charge_events_advance [advancing]:
  "books.safe (handle_charge_refunded month_start now pay charge)"
  "books.safe (handle_dispute month_start now pay event dispute)"
  unfolding handle_charge_refunded_def handle_dispute_def by (intro books.safe_rules advancing)+

lemma complete_session_advances: "advances t (complete_session now event t)"
  unfolding complete_session_def
  by (auto simp: books.stay page_open_def intro!: update_session_advances split: bool.split option.split)

lemma reminders_same_accounts:
  "db_users (snd (send_paid_trial_reminders now only db)) = db_users db"
  "db_plans (snd (send_paid_trial_reminders now only db)) = db_plans db"
  "db_users (snd (send_renewal_reminders now only within amount db)) = db_users db"
  "db_plans (snd (send_renewal_reminders now only within amount db)) = db_plans db"
  by (simp_all add: send_paid_trial_reminders_def send_renewal_reminders_def update_subs_eq split_beta)

lemma either_advances: "advances t a \<Longrightarrow> advances t b \<Longrightarrow> advances t (if c then a else b)"
  by (cases c) simp_all

lemma remind_owner_advances: "advances t (remind_owner now kind obj u t)"
  unfolding remind_owner_def
  by (intro either_advances advances_db reminders_same_accounts billing_ok_reminders books.stay)

lemma expired_session_advances:
  "advances t (update_session i (\<lambda>s. s\<lparr>ss_expired_at := or_else (ss_expired_at s) (Some now)\<rparr>) t)"
  by (rule update_session_advances) (auto simp: page_open_def)

lemma handle_subscription_event_advances [advancing]:
  "books.safe (handle_subscription_event parse_uuid month_start now pay event obj)"
  unfolding handle_subscription_event_def
  by (intro books.safe_rules books.modifies advancing complete_session_advances remind_owner_advances)

lemma handle_event_advances [advancing]: "books.safe (handle_event parse_uuid month_start now pay event obj)"
  unfolding handle_event_def
  by (intro books.safe_rules books.modifies advancing expired_session_advances)

lemma handle_webhook_advances [advancing]:
  "books.safe (handle_webhook hmac parse_json parse_uuid month_start now pays body signature)"
  unfolding handle_webhook_def by (intro books.safe_rules advancing)

lemma pair_branch: "(\<And>x y. books.safe (k x y z)) \<Longrightarrow> books.safe (case_prod k p z)"
  by (cases p) simp

lemma refund_parts_advance [advancing]:
  "books.safe (cancel_credit pay customer i currency)" "books.safe (refund_invoices pay invoices)"
  "books.safe (write_ledger_of month_start now pay invoices refunds)"
  unfolding cancel_credit_def refund_invoices_def write_ledger_of_def by (intro books.safe_rules pair_branch advancing)+

lemma refund_transaction_advances [advancing]:
  "books.safe (refund_transaction now pay u actor reason i yearly)"
  unfolding refund_transaction_def Let_def by (intro books.safe_rules advancing)

lemma audit_refund_advances: "advances t (audit_refund u actor i refunded currency reason ip t)"
  unfolding audit_refund_def by (rule advances_audit)

lemma refund_and_end_advances [advancing]:
  "books.safe (refund_and_end month_start now pays u actor reason ip)"
  unfolding refund_and_end_def
  by (intro books.safe_rules books.modifies advancing audit_refund_advances)

section \<open>Steps\<close>

text \<open>
  What can happen to the world of the payments, in any order and at any clock reading: a
  delivery to the webhook, a request of an account or of the staff, a run of a job, a step of
  the rest of billing, and anything at all at the provider.
\<close>

inductive payments_step :: "'g \<times> shop \<Rightarrow> 'g \<times> shop \<Rightarrow> bool" where
  delivered: "payments_step w (snd (handle_webhook hmac parse_json parse_uuid ms now pays body signature w))"
| reconciled: "payments_step w (snd (reconcile_due ms now pays w))"
| reconciled_all: "payments_step w (snd (reconcile_all parse_uuid ms now pays w))"
| synced: "payments_step w (snd (sync_from_provider late ms now pays cursor w))"
| bought: "payments_step w (snd (start_checkout uuid_text config now pays u payload w))"
| changed: "payments_step w (snd (change_plan ms now pays u payload w))"
| managed: "payments_step w (snd (open_portal config pays u w))"
| withdrew: "payments_step w (snd (withdraw ms now pays u ip w))"
| refunded: "payments_step w (snd (refund_and_cancel ms now pays u actor reason ip w))"
| left: "payments_step w (snd (cancel_paid_subscription now pays u w))"
| forgotten: "payments_step w (snd (forget_customer now pays customer w))"
| cleaned: "payments_step w (snd (process_cleanup_queue now pays w))"
| renamed: "payments_step w (snd (sync_customer_email pays u w))"
| billed: "billing_step ms (sh_db t) db \<Longrightarrow> payments_step (g, t) (g, with_db db t)"
| elsewhere: "payments_step (g, t) (g', t)"

lemma sub_frame_accounts: "sub_frame u db db' \<Longrightarrow> db_users db' = db_users db \<and> db_plans db' = db_plans db"
  by (simp add: sub_frame_def)

lemma core_accounts: "billing_core db' = billing_core db \<Longrightarrow> db_users db' = db_users db \<and> db_plans db' = db_plans db"
  by (simp add: billing_core_def)

text \<open>No operation of billing adds an account or a plan, or takes one away.\<close>

lemma billing_step_accounts:
  "billing_step ms db db' \<Longrightarrow> db_users db' = db_users db \<and> db_plans db' = db_plans db"
proof (induction rule: billing_step.induct)
  case (code_redeemed now u c db s db')
  from code_redeemed show ?case
  proof (cases rule: redeem_promo_code_Inr)
    case (1 p db1 db2 ns)
    then show ?thesis
      using apply_promo_frame(3,4) [OF 1(5)] count_redemption_Inr(3) [OF 1(4)] by simp
  qed
next
  case (reward_redeemed now u i db x db')
  then show ?case
    by (cases rule: redeem_reward_Inr) (auto dest!: grant_frame sub_frame_accounts add_credits_Inr)
next
  case (registered db now u)
  have "db_users d = db_users db \<and> db_plans d = db_plans db"
    if "start_trial now u c dys None db = Inr (g, d)" for c dys g d
    using sub_frame_accounts [OF start_trial_frame [OF that]] .
  then show ?case by (auto simp: start_registration_trial_def Let_def split: sum.split option.split)
next
  case (maintained now counts pt r pt')
  then show ?case by (rule maintenance_accounts)
next
  case (prices_announced now c prices t db r' db')
  then show ?case
    by (fastforce simp: notify_price_change_def dest!: tell_each_frame split: prod.splits sum.splits)
qed (auto dest!: grant_frame start_trial_frame extend_trial_frame apply_frame end_paid_frame revoke_frame
      qualify_core reward_core reverse_core sub_frame_accounts core_accounts
      simp: grant_trials_def Let_def claim_job_run_def send_paid_trial_reminders_def
        send_renewal_reminders_def update_subs_eq split_beta split: if_splits sum.splits prod.splits)

lemma payments_step_advances: "payments_step w w' \<Longrightarrow> advances (snd w) (snd w')"
proof (induction rule: payments_step.induct)
  case (billed ms t db g)
  then show ?case
    using billing_step_ok billing_step_accounts by (fastforce intro: advances_db)
next
  case (elsewhere g t g')
  then show ?case by (simp add: books.stay)
qed (simp_all only: withdraw_def refund_and_cancel_def advancing [THEN books.safe_result])

interpretation world: chain "\<lambda>w w'. advances (snd w) (snd w')"
  by (rule books.world)

lemma payments_run_advances: "payments_step\<^sup>*\<^sup>* w w' \<Longrightarrow> advances (snd w) (snd w')"
  by (induction rule: rtranclp_induct) (auto intro: world.stay world.onward payments_step_advances)

text \<open>A provider that answers nothing, and empty tables, for the examples.\<close>

definition down :: "('g, 'a) ask" where
  "down = efail (transport_error ''down'')"

definition silent :: "'g gateway" where
  "silent =
     \<lparr>gt_create_customer = (\<lambda>_ _ _ _ _. down),
      gt_update_customer = (\<lambda>_ _ _. down),
      gt_ensure_price = (\<lambda>_. down),
      gt_create_coupon = (\<lambda>_ _ _. down),
      gt_create_checkout = (\<lambda>_. down),
      gt_expire_checkout = (\<lambda>_. down),
      gt_list_subscriptions = (\<lambda>_ _. down),
      gt_create_portal = (\<lambda>_ _ _. down),
      gt_get_subscription = (\<lambda>_. down),
      gt_change_price = (\<lambda>_ _ _. down),
      gt_cancel_now = (\<lambda>_. down),
      gt_get_paid_invoice = (\<lambda>_. down),
      gt_list_subscription_invoices = (\<lambda>_. down),
      gt_refund = (\<lambda>_ _ _. down),
      gt_list_refunds_for_payment = (\<lambda>_. down),
      gt_customer_balance = (\<lambda>_. down),
      gt_debit_customer_credit = (\<lambda>_ _ _ _. down),
      gt_payment_fees = (\<lambda>_. down),
      gt_list_paid_invoices = (\<lambda>_. down),
      gt_invoice_for_payment = (\<lambda>_. down),
      gt_list_refunds = (\<lambda>_. down),
      gt_delete_customer = (\<lambda>_. down)\<rparr>"

definition shop_of :: "db \<Rightarrow> shop" where
  "shop_of db =
     \<lparr>sh_pt =
        \<lparr>pt_db = db, pt_quota_defaults = None, pt_quotas = (\<lambda>_. None), pt_artists = [], pt_songs = [],
         pt_setlists = [], pt_linked = [], pt_held = [], pt_markers = [], pt_gigs = [], pt_tours = [],
         pt_members = [], pt_permissions = [], pt_collaborators = []\<rparr>,
      sh_customers = (\<lambda>_. None), sh_generations = (\<lambda>_. 0), sh_usernames = (\<lambda>_. []),
      sh_languages = (\<lambda>_. None), sh_promotions = [], sh_redemption_ids = [], sh_sessions = [],
      sh_applied = [], sh_cleanup = [], sh_payments = [], sh_refunds = [], sh_audit = []\<rparr>"

lemma db_ref_ok: "billing_ok db_ref"
  using db_ref_books
  by (simp add: billing_ok_def subs_ok_def promos_ok_def db_ref_def db0_def)

lemma shop_of_ok: "billing_ok db \<Longrightarrow> shop_ok (shop_of db)"
  by (simp add: shop_of_def shop_ok_def payments_ok_def refunds_ok_def customers_ok_iff pages_ok_def)

definition sample_invoice :: gateway_invoice where
  "sample_invoice =
     \<lparr>iv_id = ''in_1'', iv_customer_id = Some ''cus_1'', iv_subscription_id = Some ''sub_1'',
      iv_user_id = Some 7, iv_payment_intent_id = Some ''pi_1'', iv_plan_code = Some ''pro'',
      iv_interval = Some Monthly, iv_amount_paid = 3990, iv_currency = ''brl'', iv_paid_at = Some 0\<rparr>"

text \<open>A provider that lists one paid invoice and no refund.\<close>

definition one_invoice :: "'g payments" where
  "one_invoice =
     \<lparr>pm_gateway = silent
        \<lparr>gt_list_paid_invoices := (\<lambda>_. eret \<lparr>pg_items = [sample_invoice], pg_last_id = Some ''in_1'', pg_has_more = False\<rparr>),
         gt_list_refunds := (\<lambda>_. eret \<lparr>pg_items = [], pg_last_id = None, pg_has_more = False\<rparr>)\<rparr>,
      pm_webhook_secret = ''whsec'', pm_livemode = False\<rparr>"

definition after_sync :: "unit \<times> shop" where
  "after_sync = snd (sync_from_provider (\<lambda>_. False) (\<lambda>_. 0) 5 (Some one_invoice) None ((), shop_of db_ref))"

lemma after_sync_step: "payments_step\<^sup>*\<^sup>* ((), shop_of db_ref) after_sync"
  unfolding after_sync_def by (rule r_into_rtranclp) (rule payments_step.synced)

lemma after_sync_ledger: "map py_invoice_id (sh_payments (snd after_sync)) = [''in_1'']"
  by code_simp

text \<open>
  C1. The payments keep their tables right whatever the provider answers and in whatever order
  deliveries, checkouts, plan changes, refunds, withdrawals, reconciliations, clean-ups and the
  rest of billing come: billing stays consistent, every payment is recorded once with at most
  its amount refunded and at most its amount disputed, every refund is recorded once, no event
  is applied twice, no customer belongs to two accounts or is queued twice for deletion, and
  an account never has more than one checkout page that can still be paid.
\<close>

theorem payments_invariant:
  assumes "shop_ok (snd w)" and "payments_step\<^sup>*\<^sup>* w w'"
  shows "shop_ok (snd w')"
  using payments_run_advances [OF assms(2)] assms(1) by (simp add: advances_def)

theorem payments_invariant_witness:
  "shop_ok (snd after_sync) \<and> map py_invoice_id (sh_payments (snd after_sync)) = [''in_1'']"
  using payments_invariant [OF _ after_sync_step] shop_of_ok [OF db_ref_ok] after_sync_ledger by simp



end
