(* ===== verification/PaymentLaws.thy ===== *)
theory PaymentLaws
  imports PaymentRun
begin

text \<open>
  Properties of the webhook, the mirroring of subscriptions and the refunds: which deliveries
  can change anything, what an outage of the provider and a second subscription do, and that
  a refund happens whole or not at all.
\<close>

section \<open>What an operation leaves alone\<close>

interpretation same_db: tables "\<lambda>t u. sh_db u = sh_db t"
  by unfold_locales simp_all

interpretation same_subs: tables "\<lambda>t u. db_subs (sh_db u) = db_subs (sh_db t)"
  by unfold_locales simp_all

lemma claim_event_same_db: "same_db.safe (claim_event now i kind)"
  unfolding claim_event_def by (intro same_db.safe_rules same_db.modifies) simp

lemma learn_customer_same_db: "same_db.safe (learn_customer u c)"
  unfolding learn_customer_def by (intro same_db.safe_rules same_db.modifies) simp

named_theorems subs_kept \<open>operations that leave every subscription alone\<close>

lemma update_payments_subs [subs_kept]: "same_subs.safe (update_payments P f)"
  unfolding update_payments_def by (intro same_subs.safe_rules same_subs.modifies) simp

lemma core_subs: "billing_core db' = billing_core db \<Longrightarrow> db_subs db' = db_subs db"
  by (simp add: billing_core_def)

lemma rewards_subs [subs_kept]:
  "same_subs.safe (billing_op (reward_referrer_on_payment month_start now u))"
  "same_subs.safe (billing_op (reverse_referral_reward now u reason))"
  by (rule same_subs.billing, auto dest!: reward_core reverse_core core_subs)+

lemma upsert_rows_subs:
  "db_subs (sh_db (snd (upsert_payment new t))) = db_subs (sh_db t)"
  "db_subs (sh_db (upsert_refund_row newr t)) = db_subs (sh_db t)"
  by (simp_all add: upsert_payment_def upsert_refund_row_def)

lemma record_invoice_subs [subs_kept]: "same_subs.safe (record_invoice month_start now invoice)"
  unfolding record_invoice_def Let_def
  by (intro same_subs.safe_rules same_subs.modifies upsert_rows_subs subs_kept)

lemma ledger_subs [subs_kept]:
  "same_subs.safe (set_fees now invoice_id fees)"
  "same_subs.safe (set_refunded now payment_intent refunded)"
  "same_subs.safe (recompute_refunded now payment_intent)"
  "same_subs.safe (store_refund now r)"
  "same_subs.safe (import_invoice_of month_start now pays payment_intent)"
  unfolding set_fees_def set_refunded_def recompute_refunded_def store_refund_def import_invoice_of_def Let_def
  by (intro same_subs.safe_rules same_subs.modifies upsert_rows_subs subs_kept)+

lemma upsert_refund_subs [subs_kept]: "same_subs.safe (upsert_refund month_start now pays r)"
  unfolding upsert_refund_def by (intro same_subs.safe_rules subs_kept)

lemma event_row_subs [subs_kept]:
  "same_subs.safe (billing_op (\<lambda>db. map_sum id (\<lambda>db. ((), db)) (record_event_row now u kind plan data actor db)))"
proof (rule same_subs.billing)
  fix t x db
  assume "map_sum id (\<lambda>db. ((), db)) (record_event_row now u kind plan data actor (sh_db t)) = Inr (x, db)"
  then have "record_event_row now u kind plan data actor (sh_db t) = Inr db"
    by (cases "record_event_row now u kind plan data actor (sh_db t)") auto
  then show "db_subs (sh_db (with_db db t)) = db_subs (sh_db t)"
    by (auto simp: record_event_row_def dest: record_event_Inr)
qed

lemma after_change_subs [subs_kept]: "same_subs.safe (after_change now u change)"
  unfolding after_change_def
  by (intro same_subs.safe_rules same_subs.modifies) (simp_all add: notify_def drop_lost_shares_def)

lemma cancel_duplicate_subs [subs_kept]: "same_subs.safe (cancel_duplicate month_start now pay duplicate)"
  unfolding cancel_duplicate_def by (intro same_subs.safe_rules subs_kept)

lemma refund_tail_subs [subs_kept]:
  "same_subs.safe (take_reward_back now u reason)"
  "same_subs.safe (write_ledger_of month_start now pay invoices refunds)"
  unfolding take_reward_back_def write_ledger_of_def by (intro same_subs.safe_rules subs_kept)+

lemma audit_refund_subs [subs_kept]:
  "same_subs.safe (modify (audit_refund u actor i refunded currency reason ip))"
  by (rule same_subs.modifies) (simp add: audit_refund_def)

section \<open>A second subscription\<close>

definition charging :: "gateway_subscription \<Rightarrow> bool" where
  "charging c \<longleftrightarrow> gw_status c \<in> set [''active'', ''trialing'', ''past_due'']"

text \<open>The provider has the account's current subscription as charging, or cannot be asked.\<close>

definition still_there :: "'g payments \<Rightarrow> string \<Rightarrow> bool" where
  "still_there pay i \<longleftrightarrow>
     (\<forall>g. case fst (gt_get_subscription (pm_gateway pay) i g) of
            Inr c \<Rightarrow> charging c | Inl e \<Rightarrow> \<not> is_missing e)"

lemma resolve_live_duplicate:
  assumes there: "still_there pay ref"
    and run: "resolve_duplicate month_start now (Some pay) u duplicate snap ref w = (r, w')"
  shows "db_subs (sh_db (snd w')) = db_subs (sh_db (snd w)) \<and> (isl r \<or> r = Inr None)"
proof -
  obtain q g where ask: "gt_get_subscription (pm_gateway pay) ref (fst w) = (q, g)" by fastforce
  let ?w = "(g, snd w)"
  show ?thesis
  proof (cases q)
    case (Inl e)
    moreover have "\<not> is_missing e" using there ask Inl by (auto simp: still_there_def dest: spec [of _ "fst w"])
    ultimately show ?thesis
      using run ask by (auto simp: resolve_duplicate_def the_payments_def ask_def)
  next
    case (Inr c)
    have "charging c" using there ask Inr by (auto simp: still_there_def dest: spec [of _ "fst w"])
    then have live: "opt_filter (\<lambda>c. gw_status c \<in> set [''active'', ''trialing'', ''past_due'']) (Some c) = Some c"
      by (simp add: charging_def opt_filter_def)
    let ?row = "\<lambda>refunded. billing_op (\<lambda>db. map_sum id (\<lambda>db. ((), db))
                  (record_event_row now u ''duplicate_canceled'' (Some (ps_plan_code snap))
                     (JObj [(''source'', JStr (source_key Payment)),
                            (''external_ref'', JStr (gw_id duplicate)),
                            (''kept'', JStr (gw_id c)),
                            (''refunded_cents'', JInt refunded)]) None db))"
    let ?tail = "ebind (cancel_duplicate month_start now pay duplicate) (\<lambda>refunded.
      ebind (?row refunded) (\<lambda>_. eret None))"
    have t: "?tail ?w = (r, w')"
      using run ask Inr live by (simp add: resolve_duplicate_def the_payments_def ask_def)
    have "same_subs.safe ?tail" by (intro same_subs.safe_rules subs_kept)
    from same_subs.safeD [OF this t] have "db_subs (sh_db (snd w')) = db_subs (sh_db (snd w))" by simp
    moreover have "isl r \<or> r = Inr None" using t by (cases r) (auto simp: ebind_eq_Inr)
    ultimately show ?thesis by blast
  qed
qed

lemma duplicate_other_sub:
  assumes "apply_payment_subscription now u snap db = Inr (Duplicate ref, db')"
  shows "db' = db \<and> \<not> same_sub snap (db_subs db u)"
  using assms unfolding apply_unfold by (auto split: option.splits if_splits)

lemma snapshot_ref: "snapshot_of g = Some snap \<Longrightarrow> ps_external_ref snap = gw_id g"
  by (auto simp: snapshot_of_def split: if_splits option.splits)

text \<open>The end of mirroring: a redemption is spent, the terms of this subscription are accepted.\<close>

lemma mirror_tail_subs:
  assumes "\<not> same_sub snap (db_subs (sh_db (snd w)) u)" and "ps_external_ref snap = i"
    and "ebind (case mo_redemption_id options of
                     None \<Rightarrow> eret ()
                   | Some i \<Rightarrow> modify (spend_redemption now i u)) (\<lambda>_.
            ebind (case mo_terms_version options of
                     None \<Rightarrow> eret ()
                   | Some version \<Rightarrow> modify (accept_terms now u i version)) (\<lambda>_.
            eret change)) w = (r, w')"
  shows "db_subs (sh_db (snd w')) = db_subs (sh_db (snd w)) \<and> r = Inr change"
  using assms
  by (auto simp: spend_redemption_def accept_terms_def same_sub_def split: option.splits)


text \<open>The account of the example pays for one subscription when a second one is announced.\<close>

definition gateway_sub :: "string \<Rightarrow> string \<Rightarrow> gateway_subscription" where
  "gateway_sub i status =
     \<lparr>gw_id = i, gw_customer_id = ''cus_1'', gw_status = status, gw_item_id = ''si_1'',
      gw_price_id = ''price_1'', gw_plan_code = Some ''pro'', gw_interval = Some Monthly,
      gw_current_period_end = Some 2592000, gw_cancel_at_period_end = False, gw_canceled_at = None,
      gw_ended_at = None, gw_user_id = Some 7, gw_has_pending_update = False, gw_trial_end = None,
      gw_unit_amount = Some 3990, gw_currency = Some ''BRL'', gw_latest_invoice_id = None,
      gw_latest_invoice_status = None, gw_hosted_invoice_url = None, gw_latest_payment_status = None\<rparr>"

definition paying :: "'g gateway \<Rightarrow> 'g payments" where
  "paying gw = \<lparr>pm_gateway = gw, pm_webhook_secret = ''whsec'', pm_livemode = False\<rparr>"

definition healthy :: "'g payments" where
  "healthy = paying (silent
     \<lparr>gt_get_subscription := (\<lambda>i. eret (gateway_sub i ''active'')), gt_cancel_now := (\<lambda>_. eret ())\<rparr>)"

definition subscribed_shop :: shop where
  "subscribed_shop = shop_of (db0\<lparr>db_subs := [7 \<mapsto> paid_sub]\<rparr>)"

lemma healthy_charging: "still_there healthy i"
  by (simp add: still_there_def healthy_def paying_def gateway_sub_def charging_def)

definition second_purchase :: "(api_error + payment_change option) \<times> (unit \<times> shop)" where
  "second_purchase =
     mirror_in (\<lambda>_. 0) 5 (Some healthy) 7 (gateway_sub ''sub_2'' ''active'') no_options ((), subscribed_shop)"


section \<open>Drift\<close>

lemma in_sync_iff: "in_sync u g sh \<longleftrightarrow>
   (case snapshot_of g of None \<Rightarrow> True
    | Some snap \<Rightarrow>
        (case opt_filter (\<lambda>s. same_sub snap (Some s)) (db_subs (sh_db sh) u) of
           None \<Rightarrow> \<not> is_some_and (ps_status snap) is_live
         | Some s \<Rightarrow>
             Some (sb_status s) = ps_status snap
             \<and> (\<not> is_some_and (ps_status snap) is_live \<or> sb_current_period_end s = ps_current_period_end snap)
             \<and> sb_cancel_at_period_end s = ps_cancel_at_period_end snap
             \<and> sb_provider_status s = Some (ps_provider_status snap)
             \<and> sb_plan_code s = ps_plan_code snap))"
  by (cases "snapshot_of g") (auto simp: in_sync_def Let_def same_sub_def snapshot_ref split: option.split)

lemma canceled_not_live:
  "change_kind snap st period_end trial_end cur = Some ''canceled'' \<Longrightarrow> \<not> is_live st"
  "change_kind snap st period_end trial_end cur = Some k \<Longrightarrow> k \<noteq> ''canceled'' \<Longrightarrow> cur \<noteq> None \<Longrightarrow> is_live st"
  by (auto simp: change_kind_def Let_def split: option.splits if_splits)

text \<open>
  C4. Mirroring repairs drift: whenever a report of the provider changes an account's
  subscription, the stored subscription afterwards says what the provider says, its status,
  plan, end of period, scheduled cancellation and provider status (or is no longer about that
  subscription at all, because it ended and the complimentary plan before it came back), so
  the daily reconciliation has nothing left to do.
\<close>

theorem mirror_repairs_drift:
  assumes snap: "snapshot_of g = Some snap"
    and run: "apply_payment_subscription now u snap (sh_db sh) = Inr (Changed c, db)"
  shows "in_sync u g (with_db db sh)"
  using run
proof (cases rule: apply_Inr)
  case (changed ch st db2)
  let ?row = "snap_row now snap st (db_subs (sh_db sh) u)"
  have row: "same_sub snap (Some ?row)" "sb_status ?row = st" "sb_current_period_end ?row = snap_end now snap st"
    "sb_cancel_at_period_end ?row = ps_cancel_at_period_end snap"
    "sb_provider_status ?row = Some (ps_provider_status snap)" "sb_plan_code ?row = ps_plan_code snap"
    by (simp_all add: snap_row_def mirrored_row_fields same_sub_def)
  have there: "in_sync u g (with_db d sh)" if "db_subs d u = Some ?row" for d
    using that row changed(2) by (simp add: in_sync_iff snap opt_filter_def snap_end_def)
  show ?thesis
  proof (cases "pc_kind ch = ''canceled''")
    case False
    with changed there [of db2] show ?thesis by simp
  next
    case True
    with changed(5) have dead: "\<not> is_live st" by (auto dest: canceled_not_live(1))
    from True changed(11) obtain b where b: "restore_complimentary_grant now u (ps_external_ref snap) db2 = Inr (b, db)"
      by auto
    from b show ?thesis
    proof (cases rule: restore_Inr)
      case no
      with there [of db2] changed(7) show ?thesis by simp
    next
      case (yes c until)
      then show ?thesis
        using dead changed(2,7) by (auto simp: in_sync_iff snap opt_filter_def same_sub_def restored_row_def)
    qed
  qed
next
  case idle
  then show ?thesis by blast
qed

theorem mirror_repairs_drift_witness:
  "\<exists>snap c db. apply_payment_subscription 5 7 snap (sh_db subscribed_shop) = Inr (Changed c, db)
     \<and> \<not> in_sync 7 (gateway_sub ''sub_1'' ''past_due'') subscribed_shop
     \<and> in_sync 7 (gateway_sub ''sub_1'' ''past_due'') (with_db db subscribed_shop)"
proof -
  have drifted: "\<not> in_sync 7 (gateway_sub ''sub_1'' ''past_due'') subscribed_shop" by code_simp
  have "case snapshot_of (gateway_sub ''sub_1'' ''past_due'') of None \<Rightarrow> False
    | Some snap \<Rightarrow> (case apply_payment_subscription 5 7 snap (sh_db subscribed_shop) of
         Inr (Changed c, d) \<Rightarrow> True | _ \<Rightarrow> False)" by code_simp
  then obtain snap c d where s: "snapshot_of (gateway_sub ''sub_1'' ''past_due'') = Some snap"
    and a: "apply_payment_subscription 5 7 snap (sh_db subscribed_shop) = Inr (Changed c, d)"
    by (auto split: option.splits sum.splits prod.splits applied.splits)
  from mirror_repairs_drift [OF s a] a drifted show ?thesis by blast
qed

text \<open>
  One drift is never repaired: a subscription that expired here and is canceled at the
  provider is out of sync for good, because mirroring a canceled subscription onto a row that
  is no longer live changes nothing; the daily reconciliation finds it, counts it and warns of
  it every day.
\<close>

theorem expired_row_never_in_sync:
  assumes "db_subs (sh_db sh) u = Some s" and "sb_source s = Payment" and "sb_status s = Expired"
    and "sb_external_ref s = Some (gw_id g)" and "snapshot_of g = Some snap"
    and "ps_status snap = Some Canceled" and "plan_exists (sh_db sh) (ps_plan_code snap)"
  shows "apply_payment_subscription now u snap (sh_db sh) = Inr (Unchanged, sh_db sh) \<and> \<not> in_sync u g sh"
proof
  have same: "same_sub snap (db_subs (sh_db sh) u)"
    using assms by (simp add: same_sub_def snapshot_ref)
  have "change_kind snap Canceled e t (Some s) = None" for e t
    using assms(3) by (simp add: change_kind_def is_live_def)
  with same show "apply_payment_subscription now u snap (sh_db sh) = Inr (Unchanged, sh_db sh)"
    using assms unfolding apply_unfold by (simp add: ensure_plan_exists_def opt_filter_def)
  show "\<not> in_sync u g sh"
    using same assms by (simp add: in_sync_iff opt_filter_def)
qed

definition expired_shop :: shop where
  "expired_shop = shop_of (db0\<lparr>db_subs := [7 \<mapsto> paid_sub\<lparr>sb_status := Expired\<rparr>]\<rparr>)"

theorem expired_row_never_in_sync_witness:
  "\<not> in_sync 7 (gateway_sub ''sub_1'' ''canceled'') expired_shop"
proof -
  have "case snapshot_of (gateway_sub ''sub_1'' ''canceled'') of None \<Rightarrow> False
    | Some snap \<Rightarrow> ps_status snap = Some Canceled \<and> ps_plan_code snap = ''pro''" by code_simp
  then obtain snap where s: "snapshot_of (gateway_sub ''sub_1'' ''canceled'') = Some snap"
    "ps_status snap = Some Canceled" "ps_plan_code snap = ''pro''" by (auto split: option.splits)
  have r: "db_subs (sh_db expired_shop) 7 = Some (paid_sub\<lparr>sb_status := Expired\<rparr>)"
    by (simp add: expired_shop_def shop_of_def)
  have p: "sb_source (paid_sub\<lparr>sb_status := Expired\<rparr>) = Payment"
    "sb_external_ref (paid_sub\<lparr>sb_status := Expired\<rparr>) = Some (gw_id (gateway_sub ''sub_1'' ''canceled''))"
    "plan_exists (sh_db expired_shop) ''pro''"
    by code_simp+
  from expired_row_never_in_sync [OF r p(1) _ p(2) s(1,2)] p(3) s(3) show ?thesis by simp
qed

section \<open>Refunds\<close>

lemma refund_transaction_ends:
  assumes "refund_transaction now pay u actor reason i yearly w = (Inr x, w')"
  shows "\<not> live_at_home u i (snd w')"
proof -
  obtain kind data w1 change where e:
    "billing_op (end_paid_subscription now u i kind data actor) w1 = (Inr change, w')"
    using assms by (auto simp: refund_transaction_def Let_def ebind_eq_Inr split: if_splits prod.splits)
  then obtain db where d: "end_paid_subscription now u i kind data actor (sh_db (snd w1)) = Inr (change, db)"
    and w': "sh_db (snd w') = db"
    by (auto simp: billing_op_def split: sum.splits prod.splits)
  from d show ?thesis
  proof (cases rule: end_paid_Inr)
    case nothing
    with d show ?thesis
      unfolding live_at_home_def w'
      by (auto simp: end_paid_subscription_def opt_filter_def is_live_def
          split: option.splits if_splits sum.splits prod.splits)
  next
    case (ended c row db2 b data')
    from ended(13) show ?thesis
      by (cases rule: restore_Inr)
        (use ended(6,8) w' in \<open>auto simp: live_at_home_def restored_row_def\<close>)
  qed
qed

lemma live_at_home_cong: "db_subs (sh_db t) = db_subs (sh_db t') \<Longrightarrow> live_at_home u i t = live_at_home u i t'"
  by (simp add: live_at_home_def)

text \<open>Operations that cannot fail: what follows the transaction of a refund.\<close>

definition sure :: "('s, 'e, 'a) eff \<Rightarrow> bool" where
  "sure m \<longleftrightarrow> (\<forall>s. \<not> isl (fst (m s)))"

lemma sure_basics: "sure (eret x)" "sure (etry m)" "sure (modify f)"
  by (simp_all add: sure_def etry_def modify_def split_beta)

lemma sure_bind: "sure m \<Longrightarrow> (\<And>x. sure (f x)) \<Longrightarrow> sure (ebind m f)"
  by (auto simp: sure_def ebind_def split: prod.split sum.split) (metis fst_conv isl_def)

lemma sure_loop: "(\<And>x. sure (f x)) \<Longrightarrow> sure (efor xs f)"
  by (induction xs) (simp_all add: sure_basics sure_bind)

lemma sure_branches:
  "sure m \<Longrightarrow> sure m' \<Longrightarrow> sure (if b then m else m')"
  "sure m \<Longrightarrow> (\<And>x. sure (f x)) \<Longrightarrow> sure (case_option m f opt)"
  by (simp_all split: option.split)

lemmas sure_rules = sure_basics sure_bind sure_loop sure_branches

lemma refund_tail_sure:
  "sure (write_ledger_of month_start now pay invoices refunds)" "sure (take_reward_back now u reason)"
  "sure (after_change now u change)"
  unfolding write_ledger_of_def take_reward_back_def after_change_def by (intro sure_rules)+

lemma sureD: "sure m \<Longrightarrow> m w = (r, w') \<Longrightarrow> \<exists>x. r = Inr x"
  unfolding sure_def by (metis fst_conv isl_def sum.exhaust sum.disc(1))


section \<open>The window of a withdrawal\<close>

definition in_window :: "time \<Rightarrow> gateway_invoice \<Rightarrow> bool" where
  "in_window at i \<longleftrightarrow> at \<le> paid_at at i + days 7"

lemma sorted_ends:
  assumes "xs \<noteq> []"
  shows "hd (sort_key f xs) \<in> set xs" "last (sort_key f xs) \<in> set xs"
    and "x \<in> set xs \<Longrightarrow> f (hd (sort_key f xs)) \<le> f x" "x \<in> set xs \<Longrightarrow> f x \<le> f (last (sort_key f xs))"
proof -
  let ?s = "sort_key f xs"
  have ne: "?s \<noteq> []" using assms by (metis length_0_conv length_sort)
  have mem: "set ?s = set xs" by simp
  show "hd ?s \<in> set xs" "last ?s \<in> set xs"
    using hd_in_set [OF ne] last_in_set [OF ne] unfolding mem by blast+
  have sorted: "sorted (map f ?s)" by simp
  show "f (hd ?s) \<le> f x" if x: "x \<in> set xs"
  proof (cases ?s)
    case (Cons y ys)
    have "x \<in> set (y # ys)" using x mem Cons by metis
    with sorted show ?thesis unfolding Cons by auto
  qed (use ne in blast)
  show "f x \<le> f (last ?s)" if x: "x \<in> set xs"
  proof (cases ?s rule: rev_cases)
    case (snoc ys y)
    have "x \<in> set (ys @ [y])" using x mem snoc by metis
    with sorted show ?thesis unfolding snoc by (auto simp: sorted_append)
  qed (use ne in blast)
qed

text \<open>
  C9. What an account may withdraw from: a monthly subscription while all of its charges, a
  yearly one while at least one of its charges lies within the last seven days. Exactly the
  charges within the last seven days are refunded, oldest first; an older charge never is, and
  a withdrawal that is allowed refunds at least one charge.
\<close>

theorem withdrawal_refunds_window:
  "case invoices_to_refund invoices yearly at False of
     Inl _ \<Rightarrow> \<not> (invoices \<noteq> [] \<and> (if yearly then list_ex (in_window at) invoices else list_all (in_window at) invoices))
   | Inr chosen \<Rightarrow>
       (if yearly then list_ex (in_window at) invoices else list_all (in_window at) invoices)
       \<and> chosen = filter (in_window at) (sort_key (paid_at at) invoices) \<and> chosen \<noteq> []"
proof (cases "invoices = []")
  case True
  then show ?thesis by (simp add: invoices_to_refund_def)
next
  case False
  let ?s = "sort_key (paid_at at) invoices"
  note ends = sorted_ends [OF False, where f = "paid_at at"]
  have ne: "?s \<noteq> []" using False by (metis length_0_conv length_sort)
  have later: "in_window at i \<Longrightarrow> paid_at at i \<le> paid_at at j \<Longrightarrow> in_window at j" for i j
    by (simp add: in_window_def)
  have all: "list_all (in_window at) invoices \<longleftrightarrow> in_window at (hd ?s)"
    unfolding list_all_iff using ends(1) ends(3) later by blast
  have some: "list_ex (in_window at) invoices \<longleftrightarrow> in_window at (last ?s)"
    unfolding list_ex_iff using ends(2) ends(4) later by blast
  have order: "in_window at (hd ?s) \<Longrightarrow> in_window at (last ?s)"
    using ends(2) ends(3) later by blast
  have whole: "in_window at (hd ?s) \<Longrightarrow> filter (in_window at) ?s = ?s"
    using all by (simp add: list_all_iff filter_id_conv)
  have one: "in_window at (last ?s) \<Longrightarrow> filter (in_window at) ?s \<noteq> []"
    using last_in_set [OF ne] unfolding filter_empty_conv by blast
  show ?thesis
    unfolding all some
    using ne order whole one False
    by (auto simp: invoices_to_refund_def Let_def withdrawal_deadline_def WITHDRAWAL_DAYS_def
        le_max_iff_disj in_window_def [symmetric])
qed

section \<open>Deliveries\<close>

lemma verified_header:
  assumes "verify_signature hmac body header secret now = Inr ()"
  shows "\<exists>stamp t. stamp \<in> set (header_values ''t'' header) \<and> parse_i64 stamp = Some t
    \<and> (\<exists>s \<in> set (header_values ''v1'' header). decode_hex s = Some (hmac secret (stamp @ ''.'' @ body)))
    \<and> wrap64 \<bar>wrap64 (now - t)\<bar> \<le> 300"
proof -
  let ?ts = "header_values ''t'' header"
  have ts: "?ts \<noteq> []" and rest: "parse_i64 (last ?ts) \<noteq> None"
    using assms by (auto simp: verify_signature_def read_header_eq Let_def split: if_splits option.splits)
  from rest obtain t where t: "parse_i64 (last ?ts) = Some t" by auto
  have "list_ex (\<lambda>c. decode_hex c = Some (hmac secret (last ?ts @ ''.'' @ body))) (header_values ''v1'' header)
    \<and> wrap64 \<bar>wrap64 (now - t)\<bar> \<le> 300"
    using assms ts t
    by (auto simp: verify_signature_def read_header_eq Let_def expected_signature_def TOLERANCE_SECS_def
        split: if_splits)
  with last_in_set [OF ts] t show ?thesis unfolding list_ex_iff by blast
qed

text \<open>
  C6. Nobody but the provider makes the webhook do anything: a delivery that changes anything,
  here or there, carries a signature header with a time within 300 seconds of the clock and
  a signature that is the hash, under the configured secret, of exactly the received body at
  that time; its body is an event, of the mode (live or test) the server is configured for.
\<close>

theorem deliveries_authenticated:
  assumes run: "handle_webhook hmac parse_json parse_uuid month_start now (Some pay) body signature w = (r, w')"
    and change: "w' \<noteq> w"
  shows "\<exists>header stamp t value event. signature = Some header
    \<and> stamp \<in> set (header_values ''t'' header) \<and> parse_i64 stamp = Some t
    \<and> (\<exists>s \<in> set (header_values ''v1'' header).
          decode_hex s = Some (hmac (pm_webhook_secret pay) (stamp @ ''.'' @ body)))
    \<and> wrap64 \<bar>wrap64 (timestamp now - t)\<bar> \<le> 300
    \<and> parse_json body = Some value \<and> parse_event value = Some event
    \<and> se_livemode event = Some (pm_livemode pay)"
proof -
  from run change obtain event obj where
    admitted: "admit_event hmac parse_json now pay body signature = Inr (event, obj)"
    and handled: "handle_event parse_uuid month_start now pay event obj w = (r, w')"
    by (cases "admit_event hmac parse_json now pay body signature")
      (auto simp: handle_webhook_def the_payments_def)
  from handled change have mode: "se_livemode event = Some (pm_livemode pay)"
    by (auto simp: handle_event_def split: if_splits)
  from admitted obtain header v where header: "signature = Some header"
    and verified: "verify_signature hmac body header (pm_webhook_secret pay) (timestamp now) = Inr ()"
    and parsed: "parse_json body = Some v" "parse_event v = Some event"
    by (auto simp: admit_event_def split: option.splits if_splits)
  from verified_header [OF verified] obtain stamp t where
    stamp: "stamp \<in> set (header_values ''t'' header)" "parse_i64 stamp = Some t"
      "\<exists>s \<in> set (header_values ''v1'' header).
          decode_hex s = Some (hmac (pm_webhook_secret pay) (stamp @ ''.'' @ body))"
      "wrap64 \<bar>wrap64 (timestamp now - t)\<bar> \<le> 300" by (elim exE conjE)
  show ?thesis
    by (intro exI conjI; rule header stamp parsed mode)
qed

text \<open>A delivery of the example: the provider says that a customer was deleted.\<close>

definition sample_event :: "string \<Rightarrow> json \<Rightarrow> json" where
  "sample_event kind obj =
     JObj [(''object'', JStr ''event''), (''id'', JStr ''evt_1''), (''type'', JStr kind),
           (''livemode'', JBool False), (''data'', JObj [(''object'', obj)])]"

definition customer_deleted :: json where
  "customer_deleted = sample_event ''customer.deleted'' (JObj [(''object'', JStr ''customer''), (''id'', JStr ''cus_1'')])"

definition customer_shop :: shop where
  "customer_shop = (shop_of db0)\<lparr>sh_customers := [7 \<mapsto> ''cus_1'']\<rparr>"

definition sample_delivery :: "(api_error + unit) \<times> (unit \<times> shop)" where
  "sample_delivery =
     handle_webhook (\<lambda>k m. k @ m) (\<lambda>_. Some customer_deleted) (\<lambda>_. None) (\<lambda>_. 0) 5000000 (Some (paying silent))
       ''{}'' (Some (sign (\<lambda>k m. k @ m) ''{}'' ''whsec'' 5)) ((), customer_shop)"

theorem deliveries_authenticated_witness:
  "sh_customers (snd (snd sample_delivery)) 7 = None
   \<and> (\<exists>t. wrap64 \<bar>wrap64 (timestamp 5000000 - t)\<bar> \<le> 300)"
proof -
  obtain r w' where run: "sample_delivery = (r, w')" by (rule prod.exhaust)
  have gone: "sh_customers (snd (snd sample_delivery)) 7 = None" by code_simp
  then have changed: "w' \<noteq> ((), customer_shop)" by (auto simp: run customer_shop_def)
  from deliveries_authenticated [OF run [unfolded sample_delivery_def] changed] gone show ?thesis by blast
qed

text \<open>An event that an earlier delivery applied.\<close>

definition known_event :: "string \<Rightarrow> shop \<Rightarrow> bool" where
  "known_event i sh = list_ex (\<lambda>e. ae_id e = i) (sh_applied sh)"

lemma claim_known: "known_event i (snd w) \<Longrightarrow>
    claim_event now i kind w = (Inl too_long, w) \<or> claim_event now i kind w = (Inr False, w)"
  by (simp add: claim_event_def known_event_def)

lemma mirror_known:
  assumes "known_event i (snd w)" and "mo_event options = Some (i, kind)"
  shows "mirror_in month_start now pays u g options w = (Inl too_long, w)
    \<or> mirror_in month_start now pays u g options w = (Inr None, w)"
proof (cases "snapshot_of g")
  case None
  then show ?thesis by (simp add: mirror_in_def)
next
  case (Some snap)
  from claim_known [OF assms(1), of now kind] show ?thesis
  proof
    assume "claim_event now i kind w = (Inl too_long, w)"
    then show ?thesis using Some assms(2) by (intro disjI1) (simp add: mirror_in_def)
  next
    assume "claim_event now i kind w = (Inr False, w)"
    then have "ebind (claim_event now i kind) f w = f False w" for f :: "bool \<Rightarrow> ('a, payment_change option) op"
      by (simp add: ebind_def)
    then show ?thesis by (intro disjI2) (simp add: mirror_in_def Some assms(2))
  qed
qed

lemma sync_known:
  assumes known: "known_event i (snd w)" and options: "mo_event options = Some (i, kind)"
  shows "snd (snd (sync_subscription parse_uuid month_start now pay s client options w)) = snd w"
proof -
  obtain q g where a: "gt_get_subscription (pm_gateway pay) s (fst w) = (q, g)" by (rule prod.exhaust)
  show ?thesis
  proof (cases q)
    case (Inl e)
    with a show ?thesis by (simp add: sync_subscription_def provided_def ask_def)
  next
    case (Inr sub)
    show ?thesis
    proof (cases "owner_of parse_uuid sub client (snd w)")
      case None
      with a Inr show ?thesis by (simp add: sync_subscription_def provided_def ask_def)
    next
      case (Some u)
      have "known_event i (snd (g, snd w))" using known by simp
      from mirror_known [OF this options, of month_start now "Some pay" u sub] a Inr Some
      show ?thesis
        by (auto simp: sync_subscription_def provided_def ask_def after_change_def)
    qed
  qed
qed


definition subscription_updated :: stripe_event where
  "subscription_updated =
     \<lparr>se_id = ''evt_1'', se_kind = ''customer.subscription.updated'', se_subscription_id = Some ''sub_1'',
      se_client_reference_id = None, se_redemption_id = None, se_livemode = Some False,
      se_object_id = Some ''sub_1'', se_terms_accepted = False, se_terms_version = None\<rparr>"

definition delivered_twice :: "nat \<Rightarrow> unit \<times> shop" where
  "delivered_twice n =
     ((\<lambda>w. snd (handle_event (\<lambda>_. None) (\<lambda>_. 0) 5
        (paying (silent\<lparr>gt_get_subscription := (\<lambda>i. eret (gateway_sub i (if n = 1 then ''past_due'' else ''canceled'')))\<rparr>))
        subscription_updated JNull w)) ^^ n) ((), subscribed_shop)"


section \<open>Outages\<close>

definition unreachable :: "'g payments \<Rightarrow> bool" where
  "unreachable pay \<longleftrightarrow>
     (\<forall>i g. case fst (gt_get_subscription (pm_gateway pay) i g) of Inr _ \<Rightarrow> False | Inl e \<Rightarrow> \<not> is_missing e)"

lemma reconcile_one_unreachable:
  assumes "unreachable pay"
  shows "\<exists>e g. reconcile_one month_start now pay u i w = (Inl e, (g, snd w))"
proof -
  obtain q g where a: "gt_get_subscription (pm_gateway pay) i (fst w) = (q, g)" by (rule prod.exhaust)
  from assms have "case q of Inr _ \<Rightarrow> False | Inl e \<Rightarrow> \<not> is_missing e"
    unfolding unreachable_def using a by (metis fst_conv)
  then obtain e where "q = Inl e" "\<not> is_missing e" by (cases q) auto
  with a show ?thesis by (auto simp: reconcile_one_def ask_def)
qed

text \<open>
  C8. An outage of the provider expires nothing: when it cannot be asked about any subscription
  (an error that does not say the subscription is gone), a run of the reconciliation changes no
  table and counts no expiry, however long past their end the subscriptions are. Only the
  provider's word that a renewal failed, or that it does not know the subscription, ends one.
\<close>

theorem outage_expires_nothing:
  assumes ok: "shop_ok (snd w)" and down: "unreachable pay"
  shows "fst (reconcile_due month_start now (Some pay) w) = Inr 0
    \<and> snd (snd (reconcile_due month_start now (Some pay) w)) = snd w"
proof -
  let ?due = "map (\<lambda>(u, s). (u, sb_external_ref s)) (filter (\<lambda>(_, s). lapsed now now s) (sub_rows (sh_db (snd w))))"
  let ?step = "\<lambda>(expired :: int) (u, external_ref).
       ebind (etry
         (case (Some pay, external_ref) of
            (Some pay, Some i) \<Rightarrow> reconcile_one month_start now pay u i
          | _ \<Rightarrow> expire_lapsed now u external_ref)) (\<lambda>r :: api_error + bool.
       eret (if r = Inr True then expired + 1 else expired))"
  have refs: "\<forall>d \<in> set ?due. snd d \<noteq> None"
  proof
    fix d
    assume "d \<in> set ?due"
    then obtain u s where d: "d = (u, sb_external_ref s)" and s: "(u, s) \<in> set (sub_rows (sh_db (snd w)))"
      and l: "lapsed now now s" by auto
    from s ok have "sub_wf s" by (auto simp: shop_ok_def billing_ok_def dest: sub_rows_Some subs_okD)
    with l d show "snd d \<noteq> None" by (auto simp: lapsed_def sub_wf_def)
  qed
  have "\<exists>g'. efold ?step n due (g, snd w) = ((Inr n :: api_error + int), (g', snd w))"
    if "\<forall>d \<in> set due. snd d \<noteq> None" for due n g
    using that
  proof (induction due arbitrary: g)
    case Nil
    then show ?case by simp
  next
    case (Cons d due)
    then obtain u i where d: "d = (u, Some i)" by (cases d) auto
    from reconcile_one_unreachable [OF down, of month_start now u i "(g, snd w)"]
    obtain e g1 where "reconcile_one month_start now pay u i (g, snd w) = (Inl e, (g1, snd w))" by auto
    with Cons d show ?case by simp
  qed
  from this [OF refs, of 0 "fst w"] show ?thesis by (auto simp: reconcile_due_def)
qed

theorem outage_expires_nothing_witness:
  "snd (snd (reconcile_due (\<lambda>_. 0) (days 400) (Some (paying silent)) ((), subscribed_shop))) = subscribed_shop
   \<and> map fst (filter (\<lambda>(_, s). lapsed (days 400) (days 400) s) (sub_rows (sh_db subscribed_shop))) = [7]"
proof -
  have wf: "sub_wf paid_sub" by code_simp
  have ok: "shop_ok (snd ((), subscribed_shop))"
    unfolding subscribed_shop_def snd_conv
    by (rule shop_of_ok)
      (use wf in \<open>simp add: billing_ok_def subs_ok_def promos_ok_def referral_books_def row_books_def db0_def
        user_def plan_exists_def find_plan_row_def paid_sub_def snap_row_def mirrored_row_fields purchase_def plan_pro_def\<close>)
  have down: "unreachable (paying (silent :: unit gateway))"
    by (simp add: unreachable_def paying_def silent_def down_def transport_error_def is_missing_def)
  have "snd (snd (reconcile_due (\<lambda>_. 0) (days 400) (Some (paying silent)) ((), subscribed_shop))) = subscribed_shop"
    using outage_expires_nothing [OF ok down, of "\<lambda>_. 0" "days 400"] by simp
  moreover have "map fst (filter (\<lambda>(_, s). lapsed (days 400) (days 400) s) (sub_rows (sh_db subscribed_shop))) = [7]"
    by code_simp
  ultimately show ?thesis by blast
qed

end
