(* ===== verification/Totp.thy ===== *)
theory Totp
  imports Decimal "HOL-Library.Word"
begin

unbundle bit_operations_syntax

text \<open>
  The second factor: time-based one-time codes (RFC 6238) and the Base32 text their secrets are
  shown as, from \<^verbatim>\<open>src/src/utils/totp.rs\<close>, and how a typed recovery code is read,
  from \<^verbatim>\<open>utils/codes.rs\<close>.

  Bytes are 8-bit words and the registers of the Base32 loops are 32-bit words, as in the code.
  HMAC-SHA1 (crates hmac and sha1) is the parameter \<open>mac\<close>, from key and message to the bytes of
  the hash. The Unix time is a natural number (the code reads it from the clock as a \<open>u64\<close>),
  the time step an integer (\<open>i64\<close>).
\<close>

section \<open>Base32\<close>

type_synonym byte = "8 word"

definition BASE32_ALPHABET :: string where
  "BASE32_ALPHABET = ''ABCDEFGHIJKLMNOPQRSTUVWXYZ234567''"

text \<open>The inner loop of the encoder: all the whole groups of five bits, and how many bits are left.\<close>

fun emit_groups :: "32 word \<Rightarrow> nat \<Rightarrow> string \<times> nat" where
  "emit_groups buffer bits =
     (if bits \<ge> 5
      then let (out, left) = emit_groups buffer (bits - 5)
           in (BASE32_ALPHABET ! unat (drop_bit (bits - 5) buffer AND 0x1f) # out, left)
      else ([], bits))"

declare emit_groups.simps [simp del]

fun encode_bytes :: "32 word \<Rightarrow> nat \<Rightarrow> byte list \<Rightarrow> string" where
  "encode_bytes buffer bits [] =
     (if bits > 0
      then [BASE32_ALPHABET ! unat (push_bit (5 - bits) buffer AND 0x1f)] else [])"
| "encode_bytes buffer bits (b # bs) =
     (let buffer = push_bit 8 buffer OR ucast b;
          (out, left) = emit_groups buffer (bits + 8)
      in out @ encode_bytes buffer left bs)"

definition base32_encode :: "byte list \<Rightarrow> string" where
  "base32_encode data = encode_bytes 0 0 data"

fun position :: "'a \<Rightarrow> 'a list \<Rightarrow> nat option" where
  "position x [] = None"
| "position x (y # ys) = (if x = y then Some 0 else map_option Suc (position x ys))"

fun decode_chars :: "32 word \<Rightarrow> nat \<Rightarrow> string \<Rightarrow> byte list option" where
  "decode_chars buffer bits [] = Some []"
| "decode_chars buffer bits (c # cs) =
     (if c = CHR ''='' \<or> c = CHR '' '' \<or> c = CHR ''-'' then decode_chars buffer bits cs
      else case position (to_ascii_uppercase c) BASE32_ALPHABET of
        None \<Rightarrow> None
      | Some v \<Rightarrow>
          let buffer = push_bit 5 buffer OR of_nat v; bits = bits + 5
          in if bits \<ge> 8
             then map_option (\<lambda>out. ucast (drop_bit (bits - 8) buffer) # out)
                    (decode_chars (buffer AND mask (bits - 8)) (bits - 8) cs)
             else decode_chars (buffer AND mask bits) bits cs)"

definition base32_decode :: "string \<Rightarrow> byte list option" where
  "base32_decode input = decode_chars 0 0 input"

section \<open>One-time codes\<close>

definition DIGITS :: nat where
  "DIGITS = 6"

definition STEP_SECONDS :: nat where
  "STEP_SECONDS = 30"

definition WINDOW :: int where
  "WINDOW = 1"

type_synonym mac = "byte list \<Rightarrow> byte list \<Rightarrow> byte list"

definition to_be_bytes :: "64 word \<Rightarrow> byte list" where
  "to_be_bytes w = map (\<lambda>i. ucast (drop_bit (8 * i) w)) [7, 6, 5, 4, 3, 2, 1, 0]"

definition hotp :: "mac \<Rightarrow> byte list \<Rightarrow> 64 word \<Rightarrow> nat \<Rightarrow> 32 word" where
  "hotp mac secret counter digits =
     (let hash = mac secret (to_be_bytes counter);
          offset = unat (hash ! (length hash - 1) AND 0x0f);
          binary = push_bit 24 (ucast (hash ! offset) AND 0x7f)
                   OR push_bit 16 (ucast (hash ! (offset + 1)))
                   OR push_bit 8 (ucast (hash ! (offset + 2)))
                   OR ucast (hash ! (offset + 3))
      in binary mod 10 ^ digits)"

definition step_at :: "nat \<Rightarrow> nat" where
  "step_at unix_seconds = unix_seconds div STEP_SECONDS"

text \<open>\<open>{:0width$}\<close>: padded with zeros on the left.\<close>

definition zero_padded :: "nat \<Rightarrow> nat \<Rightarrow> string" where
  "zero_padded width n = replicate (width - length (show_nat n)) (CHR ''0'') @ show_nat n"

definition code_of_step :: "mac \<Rightarrow> byte list \<Rightarrow> nat \<Rightarrow> string" where
  "code_of_step mac secret step =
     zero_padded DIGITS (unat (hotp mac secret (of_nat step) DIGITS))"

definition code_at :: "mac \<Rightarrow> byte list \<Rightarrow> nat \<Rightarrow> string" where
  "code_at mac secret unix_seconds = code_of_step mac secret (step_at unix_seconds)"

definition typed_code :: "string \<Rightarrow> string" where
  "typed_code s = filter (\<lambda>c. c \<noteq> CHR '' '') (trim s)"

text \<open>\<open>verify\<close>: the time step whose code was typed. Every step of the window is compared.\<close>

definition totp_verify :: "mac \<Rightarrow> byte list \<Rightarrow> string \<Rightarrow> nat \<Rightarrow> int option \<Rightarrow> int option" where
  "totp_verify mac secret typed unix_seconds last_used_step =
     (let c = typed_code typed in
      if byte_len c \<noteq> DIGITS \<or> \<not> list_all is_ascii_digit c then None
      else
        let current = int (step_at unix_seconds)
        in foldl (\<lambda>matched delta.
             let step = current + delta in
             if step < 0 then matched
             else if code_of_step mac secret (nat step) = c
                     \<and> is_none_or last_used_step (\<lambda>last. step > last) \<and> matched = None
             then Some step else matched) None [- WINDOW .. WINDOW])"

section \<open>Recovery codes\<close>

definition normalize_recovery_code :: "string \<Rightarrow> string option" where
  "normalize_recovery_code input =
     (let compact = map to_ascii_uppercase (filter is_ascii_alphanumeric input)
      in if byte_len compact = 8 then Some (take 4 compact @ ''-'' @ drop 4 compact) else None)"

section \<open>Bits in order\<close>

text \<open>The lowest \<open>n\<close> bits of a register, the highest of them first: what the loops carry over.\<close>

definition low_bits :: "nat \<Rightarrow> 'a::len word \<Rightarrow> bool list" where
  "low_bits n w = map (bit w) (rev [0..<n])"

abbreviation byte_bits :: "byte \<Rightarrow> bool list" where
  "byte_bits b \<equiv> low_bits 8 b"

definition group_bits :: "nat \<Rightarrow> bool list" where
  "group_bits v = low_bits 5 (of_nat v :: 32 word)"

lemma length_low_bits [simp]: "length (low_bits n w) = n"
  by (simp add: low_bits_def)

lemma length_group_bits [simp]: "length (group_bits v) = 5"
  by (simp add: group_bits_def)

lemma low_bits_0 [simp]: "low_bits 0 w = []"
  by (simp add: low_bits_def)

lemma low_bits_Suc: "low_bits (Suc n) w = bit w n # low_bits n w"
  by (simp add: low_bits_def)

lemma low_bits_cong: "(\<And>i. i < n \<Longrightarrow> bit v i = bit w i) \<Longrightarrow> low_bits n v = low_bits n w"
  by (simp add: low_bits_def)

lemma low_bits_split: "low_bits (m + k) w = low_bits m (drop_bit k w) @ low_bits k w"
  by (induction m) (auto simp: low_bits_Suc bit_drop_bit_eq ac_simps)

lemma low_bits_mask: "low_bits n (w AND mask n) = low_bits n w"
  by (rule low_bits_cong) (auto simp: bit_simps dest: bit_imp_le_length)

lemma low_bits_eq_byte: "low_bits 8 v = low_bits 8 w \<Longrightarrow> v = w" for v w :: byte
proof (rule bit_word_eqI)
  fix i
  assume eq: "low_bits 8 v = low_bits 8 w" and "i < LENGTH(8)"
  then have "i < 8" by simp
  from eq have "\<forall>i < 8. bit v i = bit w i" by (auto simp: low_bits_def)
  with \<open>i < 8\<close> show "bit v i = bit w i" by simp
qed

lemma low_bits_push:
  fixes w :: "32 word"
  assumes "n + 8 \<le> 32"
  shows "low_bits (n + 8) (push_bit 8 w OR ucast b) = low_bits n w @ byte_bits b"
proof -
  have "low_bits n (drop_bit 8 (push_bit 8 w OR ucast b)) = low_bits n w"
    using assms by (intro low_bits_cong) (auto simp: bit_simps dest: bit_imp_le_length)
  moreover have "low_bits 8 (push_bit 8 w OR ucast b) = byte_bits b"
    by (simp add: low_bits_def bit_simps)
  ultimately show ?thesis by (simp add: low_bits_split)
qed

lemma low_bits_push_group:
  fixes w :: "32 word"
  assumes "n + 5 \<le> 32" and "v < 32"
  shows "low_bits (n + 5) (push_bit 5 w OR of_nat v) = low_bits n w @ group_bits v"
proof -
  have small: "\<not> bit (of_nat v :: 32 word) i" if "5 \<le> i" for i
  proof -
    have "v div 2 ^ i = 0"
      using assms(2) that power_increasing [of 5 i "2::nat"] by simp
    then have "\<not> bit v i" by (simp add: bit_iff_odd)
    then show ?thesis by (simp add: bit_of_nat_iff)
  qed
  have "low_bits n (drop_bit 5 (push_bit 5 w OR of_nat v)) = low_bits n w"
    using assms small by (intro low_bits_cong) (auto simp: bit_simps dest: bit_imp_le_length)
  moreover have "low_bits 5 (push_bit 5 w OR of_nat v) = group_bits v"
    unfolding group_bits_def by (rule low_bits_cong) (auto simp: bit_simps)
  ultimately show ?thesis by (simp add: low_bits_split)
qed

lemma group_bits_of:
  fixes w :: "32 word"
  shows "group_bits (unat (drop_bit k w AND 0x1f)) = low_bits 5 (drop_bit k w)"
proof -
  have "low_bits 5 (drop_bit k w AND mask 5) = low_bits 5 (drop_bit k w)" by (rule low_bits_mask)
  then show ?thesis by (simp add: group_bits_def mask_numeral)
qed

lemma group_bound: "unat (w AND 0x1f :: 32 word) < 32"
proof -
  have "w AND mask 5 < 2 ^ 5" by (rule and_mask_less_size) (simp add: word_size)
  then show ?thesis by (simp add: mask_numeral word_less_nat_alt)
qed

section \<open>The text and its groups\<close>

abbreviation base32_char :: "nat \<Rightarrow> char" where
  "base32_char v \<equiv> BASE32_ALPHABET ! v"

lemma base32_char_read:
  assumes "v < 32"
  shows "position (to_ascii_uppercase (base32_char v)) BASE32_ALPHABET = Some v
    \<and> base32_char v \<noteq> CHR ''='' \<and> base32_char v \<noteq> CHR '' '' \<and> base32_char v \<noteq> CHR ''-''"
proof -
  have "list_all (\<lambda>v. position (to_ascii_uppercase (base32_char v)) BASE32_ALPHABET = Some v
    \<and> base32_char v \<noteq> CHR ''='' \<and> base32_char v \<noteq> CHR '' '' \<and> base32_char v \<noteq> CHR ''-'') [0..<32]"
    by code_simp
  with assms show ?thesis by (simp add: list_all_iff)
qed

lemma emit_groups_text:
  "bits \<le> 32 \<Longrightarrow> emit_groups buffer bits = (out, left) \<Longrightarrow>
   left < 5 \<and> (\<exists>gs. out = map base32_char gs \<and> (\<forall>v \<in> set gs. v < 32)
     \<and> low_bits bits buffer = concat (map group_bits gs) @ low_bits left buffer)"
proof (induction buffer bits arbitrary: out rule: emit_groups.induct)
  case (1 buffer bits)
  show ?case
  proof (cases "bits \<ge> 5")
    case False
    with 1(3) have "out = []" "left = bits" by (subst (asm) emit_groups.simps; simp)+
    with False show ?thesis by (intro conjI exI [of _ "[]"]) auto
  next
    case True
    define v where "v = unat (drop_bit (bits - 5) buffer AND 0x1f)"
    obtain rest where rest: "emit_groups buffer (bits - 5) = (rest, left)"
      and out: "out = base32_char v # rest"
      using True 1(3) by (subst (asm) emit_groups.simps) (auto simp: v_def split: prod.splits)
    have "bits - 5 \<le> 32" using 1(2) by simp
    from 1(1) [OF True this rest] obtain gs where gs: "left < 5" "rest = map base32_char gs"
      "\<forall>v \<in> set gs. v < 32"
      "low_bits (bits - 5) buffer = concat (map group_bits gs) @ low_bits left buffer"
      by auto
    have "low_bits bits buffer = low_bits 5 (drop_bit (bits - 5) buffer) @ low_bits (bits - 5) buffer"
      using low_bits_split [of 5 "bits - 5" buffer] True by simp
    also have "low_bits 5 (drop_bit (bits - 5) buffer) = group_bits v"
      by (simp add: v_def group_bits_of)
    finally have "low_bits bits buffer = concat (map group_bits (v # gs)) @ low_bits left buffer"
      using gs(4) by simp
    moreover have "v < 32" unfolding v_def by (rule group_bound)
    ultimately show ?thesis using gs out by (intro conjI exI [of _ "v # gs"]) auto
  qed
qed

lemma encode_bytes_text:
  "bits < 5 \<Longrightarrow> \<exists>gs pad. encode_bytes buffer bits bs = map base32_char gs \<and> (\<forall>v \<in> set gs. v < 32)
     \<and> concat (map group_bits gs)
       = low_bits bits buffer @ concat (map byte_bits bs) @ replicate pad False \<and> pad < 5"
proof (induction buffer bits bs rule: encode_bytes.induct)
  case (1 buffer bits)
  show ?case
  proof (cases "bits = 0")
    case True
    then show ?thesis by (intro exI [of _ "[]"] exI [of _ 0]) simp
  next
    case False
    define v where "v = unat (push_bit (5 - bits) buffer AND 0x1f)"
    have "group_bits v = low_bits 5 (push_bit (5 - bits) buffer)"
      using group_bits_of [of 0 "push_bit (5 - bits) buffer"] by (simp add: v_def)
    also have "\<dots> = low_bits bits (drop_bit (5 - bits) (push_bit (5 - bits) buffer))
        @ low_bits (5 - bits) (push_bit (5 - bits) buffer)"
      using low_bits_split [of bits "5 - bits" "push_bit (5 - bits) buffer"] 1 by simp
    also have "low_bits bits (drop_bit (5 - bits) (push_bit (5 - bits) buffer)) = low_bits bits buffer"
      using 1 by (intro low_bits_cong) (auto simp: bit_simps)
    also have "low_bits (5 - bits) (push_bit (5 - bits) buffer) = replicate (5 - bits) False"
      by (rule nth_equalityI) (auto simp: low_bits_def bit_simps rev_nth)
    finally have "group_bits v = low_bits bits buffer @ replicate (5 - bits) False" .
    moreover have "v < 32" unfolding v_def by (rule group_bound)
    ultimately show ?thesis
      using False 1 by (intro exI [of _ "[v]"] exI [of _ "5 - bits"]) (simp add: v_def)
  qed
next
  case (2 buffer bits b bs)
  define buffer' where "buffer' = push_bit 8 buffer OR ucast b"
  obtain out left where out: "emit_groups buffer' (bits + 8) = (out, left)" by (rule prod.exhaust)
  with 2(2) obtain gs where gs: "left < 5" "out = map base32_char gs" "\<forall>v \<in> set gs. v < 32"
    "low_bits (bits + 8) buffer' = concat (map group_bits gs) @ low_bits left buffer'"
    using emit_groups_text [of "bits + 8" buffer' out left] by auto
  from 2(1) [OF buffer'_def out [symmetric] _ gs(1)] obtain hs pad where hs:
    "encode_bytes buffer' left bs = map base32_char hs" "\<forall>v \<in> set hs. v < 32"
    "concat (map group_bits hs) = low_bits left buffer' @ concat (map byte_bits bs) @ replicate pad False"
    "pad < 5"
    by auto
  have "low_bits bits buffer @ byte_bits b = low_bits (bits + 8) buffer'"
    using 2(2) by (simp add: buffer'_def low_bits_push)
  with gs hs have "concat (map group_bits (gs @ hs))
      = low_bits bits buffer @ concat (map byte_bits (b # bs)) @ replicate pad False"
    by simp
  moreover have "encode_bytes buffer bits (b # bs) = map base32_char (gs @ hs)"
    using out gs hs by (simp add: buffer'_def Let_def)
  ultimately show ?case
    using gs hs by (intro exI [of _ "gs @ hs"] exI [of _ pad]) auto
qed

lemma decode_chars_text:
  "bits < 8 \<Longrightarrow> \<forall>v \<in> set gs. v < 32 \<Longrightarrow> length rest < 8 \<Longrightarrow>
   low_bits bits buffer @ concat (map group_bits gs) = concat (map byte_bits bs) @ rest \<Longrightarrow>
   decode_chars buffer bits (map base32_char gs) = Some bs"
proof (induction gs arbitrary: buffer bits bs)
  case Nil
  have "bs = []"
  proof (rule ccontr)
    assume "bs \<noteq> []"
    then obtain b bs' where "bs = b # bs'" by (cases bs) auto
    with Nil(4) have "length (low_bits bits buffer) \<ge> 8" by (simp add: low_bits_def)
    with Nil(1) show False by simp
  qed
  then show ?case by simp
next
  case (Cons v gs)
  define buffer' where "buffer' = push_bit 5 buffer OR of_nat v"
  have v: "v < 32" using Cons(3) by simp
  have step: "decode_chars buffer bits (map base32_char (v # gs)) =
      (if bits + 5 \<ge> 8
       then map_option (\<lambda>out. ucast (drop_bit (bits + 5 - 8) buffer') # out)
              (decode_chars (buffer' AND mask (bits + 5 - 8)) (bits + 5 - 8) (map base32_char gs))
       else decode_chars (buffer' AND mask (bits + 5)) (bits + 5) (map base32_char gs))"
    using base32_char_read [OF v] by (simp add: buffer'_def Let_def)
  have bits: "low_bits (bits + 5) buffer' = low_bits bits buffer @ group_bits v"
    unfolding buffer'_def using Cons(2) v by (intro low_bits_push_group) auto
  then have all: "low_bits (bits + 5) buffer' @ concat (map group_bits gs) = concat (map byte_bits bs) @ rest"
    using Cons(5) by simp
  show ?case
  proof (cases "bits + 5 \<ge> 8")
    case False
    then show ?thesis
      using step Cons(3,4) all by (subst step) (auto intro!: Cons.IH simp: low_bits_mask)
  next
    case True
    define k where "k = bits + 5 - 8"
    have bk: "bits + 5 = 8 + k" using True by (simp add: k_def)
    have "bs \<noteq> []"
    proof
      assume "bs = []"
      with all have "length (low_bits (bits + 5) buffer') + length (concat (map group_bits gs)) = length rest"
        by (metis append_Nil concat.simps(1) length_append list.simps(8))
      with True Cons(4) show False by simp
    qed
    then obtain b bs' where bs: "bs = b # bs'" by (cases bs) auto
    from all have "low_bits 8 (drop_bit k buffer') @ low_bits k buffer' @ concat (map group_bits gs)
        = byte_bits b @ concat (map byte_bits bs') @ rest"
      unfolding bk by (simp add: low_bits_split bs)
    then have first: "low_bits 8 (drop_bit k buffer') = byte_bits b"
      and others: "low_bits k buffer' @ concat (map group_bits gs) = concat (map byte_bits bs') @ rest"
      by (simp_all add: append_eq_append_conv)
    have "byte_bits (ucast (drop_bit k buffer')) = low_bits 8 (drop_bit k buffer')"
      by (simp add: low_bits_def bit_simps)
    with first have "ucast (drop_bit k buffer') = b" by (intro low_bits_eq_byte) simp
    moreover have "decode_chars (buffer' AND mask k) k (map base32_char gs) = Some bs'"
      using Cons(2,3,4) others by (intro Cons.IH) (auto simp: low_bits_mask k_def)
    ultimately show ?thesis using True by (subst step) (simp add: k_def [symmetric] bs)
  qed
qed

section \<open>The properties\<close>

text \<open>
  A secret shown to its owner as Base32 text is read back exactly: whatever the bytes and
  however many, decoding the text the encoder writes gives them back.
\<close>

theorem base32_roundtrip: "base32_decode (base32_encode data) = Some data"
proof -
  obtain gs pad where gs: "base32_encode data = map base32_char gs" "\<forall>v \<in> set gs. v < 32" "pad < 5"
    "concat (map group_bits gs) = concat (map byte_bits data) @ replicate pad False"
    using encode_bytes_text [of 0 0 data] by (auto simp: base32_encode_def)
  then show ?thesis
    unfolding base32_decode_def gs(1) by (intro decode_chars_text [where rest = "replicate pad False"]) auto
qed

text \<open>
  C35. What the second factor accepts: six digits (spaces aside) that are the code of the time
  step before the clock's, of the clock's or of the one after it, of a step later than the last
  one used; the earliest such step is the one used up. So a step, once used, is never accepted
  again, nor is an earlier one, and a code more than one step away from the clock never is.
\<close>

theorem totp_verify_exact:
  "totp_verify mac secret typed now used = Some step \<longleftrightarrow>
     (let fits = (\<lambda>s. \<bar>s - int (step_at now)\<bar> \<le> 1 \<and> 0 \<le> s \<and> is_none_or used (\<lambda>l. l < s)
                   \<and> code_of_step mac secret (nat s) = typed_code typed)
      in length (typed_code typed) = 6 \<and> list_all is_ascii_digit (typed_code typed)
         \<and> fits step \<and> \<not> (fits (step - 1) \<or> fits (step - 2)))"
proof (cases "list_all is_ascii_digit (typed_code typed)")
  case False
  then show ?thesis by (simp add: totp_verify_def)
next
  case digits: True
  define c where "c = int (step_at now)"
  define ok where "ok s \<longleftrightarrow> 0 \<le> s \<and> is_none_or used (\<lambda>l. l < s)
      \<and> code_of_step mac secret (nat s) = typed_code typed" for s
  have c: "0 \<le> c" by (simp add: c_def)
  have window: "[- WINDOW .. WINDOW] = [- 1, 0, 1]" by (simp add: WINDOW_def upto.simps)
  show ?thesis
  proof (cases "length (typed_code typed) = 6")
    case False
    with digits show ?thesis by (simp add: totp_verify_def byte_len_digits DIGITS_def)
  next
    case True
    have eq: "totp_verify mac secret typed now used
        = (if ok (c - 1) then Some (c - 1) else if ok c then Some c
           else if ok (c + 1) then Some (c + 1) else None)"
      using True digits c
      by (simp add: totp_verify_def byte_len_digits DIGITS_def window ok_def c_def [symmetric] Let_def
          conj_ac not_less cong: if_cong)
    consider "step = c - 1" | "step = c" | "step = c + 1" 
      | "c - 1 \<noteq> step" "c \<noteq> step" "c + 1 \<noteq> step" "\<not> \<bar>step - c\<bar> \<le> 1" by linarith
    then have "totp_verify mac secret typed now used = Some step \<longleftrightarrow>
        \<bar>step - c\<bar> \<le> 1 \<and> ok step
        \<and> \<not> (\<bar>step - 1 - c\<bar> \<le> 1 \<and> ok (step - 1) \<or> \<bar>step - 2 - c\<bar> \<le> 1 \<and> ok (step - 2))"
      by cases (simp_all add: eq)
    with True digits show ?thesis by (simp add: Let_def c_def ok_def conj_ac)
  qed
qed

end
