(* ===== verification/ClientAddress.thy ===== *)
theory ClientAddress
  imports Decimal "HOL-Library.Word"
begin

unbundle bit_operations_syntax

text \<open>
  Who the client of a request is, from \<^verbatim>\<open>src/src/middlewares/client_ip.rs\<close>: the address
  rate limits, lock-outs and the audit log go by, with the two groupings of addresses into
  networks (\<open>rate_limit_key\<close>, and \<open>ip_bucket\<close> and \<open>code_requester\<close> of
  \<^verbatim>\<open>services/account.rs\<close>).

  Addresses are those of \<open>std::net\<close>: four bytes, or eight 16-bit segments. Their text is read and
  printed as the standard library does it. A header field is a lower-case name with its value,
  \<open>None\<close> where the value is not text (\<open>to_str\<close> of the http crate). A trusted network (crate ipnet)
  is the test whether it contains an address. The secret is compared in constant time; here that
  is equality.
\<close>

section \<open>Addresses\<close>

type_synonym octet = "8 word"
type_synonym segment = "16 word"

datatype ip = V4 octet octet octet octet | V6 "segment list"

definition from_be_bytes :: "octet \<Rightarrow> octet \<Rightarrow> segment" where
  "from_be_bytes a b = push_bit 8 (ucast a) OR ucast b"

definition high_byte :: "segment \<Rightarrow> octet" where
  "high_byte s = ucast (drop_bit 8 s)"

definition low_byte :: "segment \<Rightarrow> octet" where
  "low_byte s = ucast s"

fun to_ipv4_mapped :: "segment list \<Rightarrow> ip option" where
  "to_ipv4_mapped [s0, s1, s2, s3, s4, s5, s6, s7] =
     (if s0 = 0 \<and> s1 = 0 \<and> s2 = 0 \<and> s3 = 0 \<and> s4 = 0 \<and> s5 = 0xffff
      then Some (V4 (high_byte s6) (low_byte s6) (high_byte s7) (low_byte s7)) else None)"
| "to_ipv4_mapped _ = None"

section \<open>Reading addresses\<close>

text \<open>A reader consumes the front of the text; one that fails consumes nothing.\<close>

definition to_digit :: "nat \<Rightarrow> char \<Rightarrow> nat option" where
  "to_digit radix c =
     (let d = (if is_ascii_digit c then code c - 48
               else if is_ascii_lowercase c then code c - 87
               else if is_ascii_uppercase c then code c - 55 else radix)
      in if d < radix then Some d else None)"

text \<open>A run of digits: at most \<open>max_digits\<close> of them, its value below \<open>bound\<close>.\<close>

definition read_number ::
  "nat \<Rightarrow> nat option \<Rightarrow> bool \<Rightarrow> int \<Rightarrow> string \<Rightarrow> (int \<times> string) option"
where
  "read_number radix max_digits allow_zero_prefix bound s =
     (let run = takeWhile (\<lambda>c. to_digit radix c \<noteq> None) s;
          n = foldl (\<lambda>n c. n * int radix + int (unwrap_or (to_digit radix c) 0)) 0 run
      in if is_some_and max_digits (\<lambda>m. length run > m) \<or> n \<ge> bound \<or> run = []
            \<or> (\<not> allow_zero_prefix \<and> hd run = CHR ''0'' \<and> length run > 1)
         then None else Some (n, drop (length run) s))"

fun read_given_char :: "char \<Rightarrow> string \<Rightarrow> string option" where
  "read_given_char c [] = None"
| "read_given_char c (x # xs) = (if x = c then Some xs else None)"

definition read_separator ::
  "char \<Rightarrow> nat \<Rightarrow> (string \<Rightarrow> ('a \<times> string) option) \<Rightarrow> string \<Rightarrow> ('a \<times> string) option"
where
  "read_separator sep index inner s =
     (if index > 0 then Option.bind (read_given_char sep s) inner else inner s)"

definition read_octet :: "nat \<Rightarrow> string \<Rightarrow> (octet \<times> string) option" where
  "read_octet i s =
     map_option (\<lambda>(n, r). (of_int n, r)) (read_separator (CHR ''.'') i (read_number 10 (Some 3) False 256) s)"

definition read_ipv4 :: "string \<Rightarrow> ((octet \<times> octet \<times> octet \<times> octet) \<times> string) option" where
  "read_ipv4 s =
     Option.bind (read_octet 0 s) (\<lambda>(a, s).
     Option.bind (read_octet 1 s) (\<lambda>(b, s).
     Option.bind (read_octet 2 s) (\<lambda>(c, s).
     Option.bind (read_octet 3 s) (\<lambda>(d, s). Some ((a, b, c, d), s)))))"

text \<open>Up to \<open>limit\<close> segments, the last two possibly as an IPv4 address (then the flag is set).\<close>

function read_groups :: "nat \<Rightarrow> nat \<Rightarrow> string \<Rightarrow> segment list \<times> bool \<times> string" where
  "read_groups limit i s =
     (if i \<ge> limit then ([], False, s)
      else case (if i < limit - 1 then read_separator (CHR '':'') i read_ipv4 s else None) of
        Some ((a, b, c, d), s') \<Rightarrow> ([from_be_bytes a b, from_be_bytes c d], True, s')
      | None \<Rightarrow>
          (case read_separator (CHR '':'') i (read_number 16 (Some 4) True 65536) s of
             None \<Rightarrow> ([], False, s)
           | Some (g, s') \<Rightarrow>
               (case read_groups limit (i + 1) s' of
                  (gs, embedded, s'') \<Rightarrow> (of_int g # gs, embedded, s''))))"
  by pat_completeness auto

termination
  by (relation "measure (\<lambda>(limit, i, _). limit - i)") auto

declare read_groups.simps [simp del]

definition read_ipv6 :: "string \<Rightarrow> (segment list \<times> string) option" where
  "read_ipv6 s =
     (case read_groups 8 0 s of
        (front, embedded, s) \<Rightarrow>
          if length front = 8 then Some (front, s)
          else if embedded then None
          else Option.bind (read_given_char (CHR '':'') s) (\<lambda>s.
               Option.bind (read_given_char (CHR '':'') s) (\<lambda>s.
               case read_groups (8 - (length front + 1)) 0 s of
                 (back, _, s) \<Rightarrow>
                   Some (front @ replicate (8 - length front - length back) 0 @ back, s))))"

definition read_ip :: "string \<Rightarrow> (ip \<times> string) option" where
  "read_ip s =
     (case read_ipv4 s of
        Some ((a, b, c, d), r) \<Rightarrow> Some (V4 a b c d, r)
      | None \<Rightarrow> map_option (\<lambda>(segments, r). (V6 segments, r)) (read_ipv6 s))"

definition read_port :: "string \<Rightarrow> (int \<times> string) option" where
  "read_port s = Option.bind (read_given_char (CHR '':'') s) (read_number 10 None True 65536)"

definition read_scope :: "string \<Rightarrow> string" where
  "read_scope s =
     (case Option.bind (read_given_char (CHR ''%'') s) (read_number 10 None True (2 ^ 32)) of
        None \<Rightarrow> s | Some (_, r) \<Rightarrow> r)"

text \<open>The address of a socket address.\<close>

definition read_socket :: "string \<Rightarrow> (ip \<times> string) option" where
  "read_socket s =
     (case Option.bind (read_ipv4 s) (\<lambda>((a, b, c, d), r). map_option (\<lambda>(_, r). (V4 a b c d, r)) (read_port r)) of
        Some x \<Rightarrow> Some x
      | None \<Rightarrow>
          Option.bind (read_given_char (CHR ''['') s) (\<lambda>s.
          Option.bind (read_ipv6 s) (\<lambda>(segments, s).
          Option.bind (read_given_char (CHR '']'') (read_scope s)) (\<lambda>s.
          map_option (\<lambda>(_, r). (V6 segments, r)) (read_port s)))))"

definition whole :: "('a \<times> string) option \<Rightarrow> 'a option" where
  "whole m = map_option fst (opt_filter (\<lambda>(_, r). r = []) m)"

definition parse_addr :: "string \<Rightarrow> ip option" where
  "parse_addr s = whole (read_ip s)"

definition parse_socket_addr :: "string \<Rightarrow> ip option" where
  "parse_socket_addr s = whole (read_socket s)"

section \<open>Printing addresses\<close>

definition hex_char :: "nat \<Rightarrow> char" where
  "hex_char d = (if d < 10 then char_of (48 + d) else char_of (87 + d))"

function show_hex :: "int \<Rightarrow> string" where
  "show_hex n =
     (if n < 16 then [hex_char (nat n)] else show_hex (n div 16) @ [hex_char (nat (n mod 16))])"
  by pat_completeness auto

termination
  by (relation "measure nat") auto

declare show_hex.simps [simp del]

definition show_v4 :: "octet \<Rightarrow> octet \<Rightarrow> octet \<Rightarrow> octet \<Rightarrow> string" where
  "show_v4 a b c d = join_char (CHR ''.'') (map (\<lambda>x. show_nat (unat x)) [a, b, c, d])"

definition show_segments :: "segment list \<Rightarrow> string" where
  "show_segments ss = join_char (CHR '':'') (map (\<lambda>s. show_hex (uint s)) ss)"

text \<open>The first of the longest runs of zero segments: where it starts and its length.\<close>

fun zero_run :: "nat \<Rightarrow> nat \<times> nat \<Rightarrow> nat \<times> nat \<Rightarrow> segment list \<Rightarrow> nat \<times> nat" where
  "zero_run i longest current [] = longest"
| "zero_run i longest current (s # ss) =
     (if s = 0
      then let current = ((if snd current = 0 then i else fst current), snd current + 1)
           in zero_run (i + 1) (if snd current > snd longest then current else longest) current ss
      else zero_run (i + 1) longest (0, 0) ss)"

fun show_ip :: "ip \<Rightarrow> string" where
  "show_ip (V4 a b c d) = show_v4 a b c d"
| "show_ip (V6 ss) =
     (case to_ipv4_mapped ss of
        Some (V4 a b c d) \<Rightarrow> ''::ffff:'' @ show_v4 a b c d
      | _ \<Rightarrow>
          (case zero_run 0 (0, 0) (0, 0) ss of
             (start, len) \<Rightarrow>
               if len > 1
               then show_segments (take start ss) @ ''::'' @ show_segments (drop (start + len) ss)
               else show_segments ss))"

section \<open>The address of a client\<close>

type_synonym headers = "(string \<times> string option) list"

definition INTERNAL_SECRET_HEADER :: string where
  "INTERNAL_SECRET_HEADER = ''x-setlyst-internal''"

definition INTERNAL_CLIENT_IP_HEADER :: string where
  "INTERNAL_CLIENT_IP_HEADER = ''x-setlyst-client-ip''"

definition UNKNOWN_CLIENT :: ip where
  "UNKNOWN_CLIENT = V4 0 0 0 0"

record client_ip_policy =
  cp_trusted_proxies :: "(ip \<Rightarrow> bool) list"
  cp_internal_secret :: "string option"

definition is_trusted :: "client_ip_policy \<Rightarrow> ip \<Rightarrow> bool" where
  "is_trusted policy a = list_ex (\<lambda>contains. contains a) (cp_trusted_proxies policy)"

fun normalize :: "ip \<Rightarrow> ip" where
  "normalize (V6 ss) = unwrap_or (to_ipv4_mapped ss) (V6 ss)"
| "normalize v4 = v4"

definition parse_ip :: "string \<Rightarrow> ip option" where
  "parse_ip raw =
     (let raw = trim_matches (\<lambda>c. c = CHR 0x22) (trim raw) in
      case parse_addr raw of
        Some a \<Rightarrow> Some (normalize a)
      | None \<Rightarrow>
          (case parse_socket_addr raw of
             Some a \<Rightarrow> Some (normalize a)
           | None \<Rightarrow>
               map_option normalize
                 (Option.bind (strip_prefix ''['' raw) (\<lambda>r. parse_addr (hd (split_char (CHR '']'') r))))))"

definition rate_limit_key :: "ip \<Rightarrow> ip" where
  "rate_limit_key a =
     (case normalize a of
        V6 s \<Rightarrow> V6 [s ! 0, s ! 1, s ! 2, s ! 3, 0, 0, 0, 0]
      | v4 \<Rightarrow> v4)"

text \<open>The first field of a name, if it is text; the fields of a name that are.\<close>

definition header_of :: "headers \<Rightarrow> string \<Rightarrow> string option" where
  "header_of headers name = Option.bind (map_of headers name) id"

definition header_values_of :: "headers \<Rightarrow> string \<Rightarrow> string list" where
  "header_values_of headers name =
     concat (map (\<lambda>(n, v). if n = name then (case v of None \<Rightarrow> [] | Some t \<Rightarrow> [t]) else []) headers)"

definition hops_of :: "string list \<Rightarrow> ip list" where
  "hops_of texts =
     concat (map (\<lambda>t. case parse_ip t of None \<Rightarrow> [] | Some a \<Rightarrow> [a])
       (concat (map (split_char (CHR '','')) texts)))"

definition forwarded_client :: "headers \<Rightarrow> client_ip_policy \<Rightarrow> ip option" where
  "forwarded_client headers policy =
     (let hops = hops_of (header_values_of headers ''x-forwarded-for'')
      in or_else (find (\<lambda>a. \<not> is_trusted policy a) (rev hops))
           (case hops of [] \<Rightarrow> None | a # _ \<Rightarrow> Some a))"

text \<open>The address the internal header names, when it carries the secret.\<close>

definition internal_client :: "headers \<Rightarrow> client_ip_policy \<Rightarrow> ip option" where
  "internal_client headers policy =
     (case (cp_internal_secret policy, header_of headers INTERNAL_SECRET_HEADER) of
        (Some secret, Some sent) \<Rightarrow>
          if secret = trim sent
          then Option.bind (header_of headers INTERNAL_CLIENT_IP_HEADER) parse_ip else None
      | _ \<Rightarrow> None)"

definition resolve_client_ip :: "ip option \<Rightarrow> headers \<Rightarrow> client_ip_policy \<Rightarrow> ip option" where
  "resolve_client_ip peer headers policy =
     (case internal_client headers policy of
        Some a \<Rightarrow> Some a
      | None \<Rightarrow>
          (case map_option normalize peer of
             Some p \<Rightarrow>
               if is_trusted policy p then or_else (forwarded_client headers policy) (Some p) else Some p
           | None \<Rightarrow> forwarded_client headers policy))"

text \<open>\<open>resolve_with_config\<close> and the key extractor of the limiter; \<open>None\<close> is no loaded configuration.\<close>

definition resolve_with_config :: "client_ip_policy option \<Rightarrow> ip option \<Rightarrow> headers \<Rightarrow> ip option" where
  "resolve_with_config config peer headers =
     resolve_client_ip peer headers
       (case config of
          Some policy \<Rightarrow> policy
        | None \<Rightarrow> \<lparr>cp_trusted_proxies = [], cp_internal_secret = None\<rparr>)"

definition extract_key :: "client_ip_policy option \<Rightarrow> ip option \<Rightarrow> headers \<Rightarrow> ip" where
  "extract_key config peer headers =
     unwrap_or (map_option rate_limit_key (resolve_with_config config peer headers)) UNKNOWN_CLIENT"

section \<open>Networks\<close>

text \<open>\<open>ip_bucket\<close> and \<open>code_requester\<close> of the account services.\<close>

definition ip_bucket :: "string option \<Rightarrow> string" where
  "ip_bucket text =
     (case Option.bind text parse_addr of
        Some (V4 a b c d) \<Rightarrow> show_v4 a b c d
      | Some (V6 ss) \<Rightarrow>
          (case to_ipv4_mapped ss of
             Some (V4 a b c d) \<Rightarrow> show_v4 a b c d
           | _ \<Rightarrow> show_segments [ss ! 0, ss ! 1, ss ! 2, ss ! 3] @ ''::/64'')
      | None \<Rightarrow> ''unknown'')"

definition UNKNOWN_REQUESTER :: string where
  "UNKNOWN_REQUESTER = ''unknown''"

definition code_requester :: "string option \<Rightarrow> string" where
  "code_requester text =
     unwrap_or (map_option (\<lambda>a. show_ip (rate_limit_key a)) (Option.bind text (\<lambda>t. parse_addr (trim t))))
       UNKNOWN_REQUESTER"

section \<open>Examples\<close>

text \<open>The cases of the module's own tests.\<close>

lemma parsed_examples:
  "parse_ip ''1.2.3.4'' = Some (V4 1 2 3 4)"
  "parse_ip ''2001:db8::1'' = Some (V6 [0x2001, 0xdb8, 0, 0, 0, 0, 0, 1])"
  "parse_ip ''[2001:db8::2]:443'' = Some (V6 [0x2001, 0xdb8, 0, 0, 0, 0, 0, 2])"
  "parse_ip ''::ffff:203.0.113.5'' = Some (V4 203 0 113 5)"
  "parse_ip ''not-an-ip'' = None" "parse_ip ''1.2.3.04'' = None" "parse_ip ''1.2.3.4:80'' = Some (V4 1 2 3 4)"
  "code_requester (Some ''2001:db8:1:2:aaaa:bbbb:cccc:dddd'') = ''2001:db8:1:2::''"
  "ip_bucket (Some ''2001:db8:1:2:aaaa::1'') = ''2001:db8:1:2::/64''"
  by code_simp+

section \<open>What a client can write\<close>

text \<open>The request carries the internal secret, so it comes from the platform's own web server.\<close>

definition knows_secret :: "headers \<Rightarrow> client_ip_policy \<Rightarrow> bool" where
  "knows_secret headers policy \<longleftrightarrow>
     cp_internal_secret policy \<noteq> None
     \<and> map_option trim (header_of headers INTERNAL_SECRET_HEADER) = cp_internal_secret policy"

lemma internal_needs_secret: "\<not> knows_secret headers policy \<Longrightarrow> internal_client headers policy = None"
  by (auto simp: knows_secret_def internal_client_def split: option.splits)

lemma split_char_join:
  "split_char c (a @ c # b) = split_char c a @ split_char c b"
proof (induction a)
  case (Cons x a)
  then show ?case
    by (cases "split_char c a") (auto split: list.splits)
qed simp

lemma find_append: "find P (xs @ ys) = or_else (find P xs) (find P ys)"
  by (induction xs) auto

lemma find_all_not: "(\<And>x. x \<in> set xs \<Longrightarrow> \<not> P x) \<Longrightarrow> find P xs = None"
  by (simp add: find_None_iff)

lemma hops_of_append: "hops_of (xs @ ys) = hops_of xs @ hops_of ys"
  by (simp add: hops_of_def)

lemma hops_of_forged:
  "hops_of [forged @ CHR '','' # rest] = hops_of [forged] @ hops_of [rest]"
  by (simp add: hops_of_def split_char_join)

lemma hops_of_chain:
  assumes "\<forall>t \<in> set texts. CHR '','' \<notin> set t" and "texts \<noteq> []"
  shows "hops_of [join_char (CHR '','') texts]
    = concat (map (\<lambda>t. case parse_ip t of None \<Rightarrow> [] | Some a \<Rightarrow> [a]) texts)"
  using assms by (simp add: hops_of_def split_join_char)

lemma untrusted_peer:
  assumes "\<not> knows_secret headers policy" and "\<not> is_trusted policy (normalize peer)"
  shows "resolve_client_ip (Some peer) headers policy = Some (normalize peer)"
  using assms by (simp add: resolve_client_ip_def internal_needs_secret)


definition behind_edge :: client_ip_policy where
  "behind_edge = \<lparr>cp_trusted_proxies = [\<lambda>a. case a of V4 x _ _ _ \<Rightarrow> x = 10 | _ \<Rightarrow> False],
     cp_internal_secret = Some ''s3cret''\<rparr>"


section \<open>The two groupings into networks\<close>

definition hex_value :: "string \<Rightarrow> int" where
  "hex_value s = foldl (\<lambda>n c. n * 16 + int (unwrap_or (to_digit 16 c) 0)) 0 s"

lemma hex_chars:
  "list_all (\<lambda>d. to_digit 16 (hex_char d) = Some d \<and> code (hex_char d) \<noteq> 58) [0..<16]"
  by (simp add: upt_rec to_digit_def hex_char_def is_ascii_digit_def is_ascii_lowercase_def
      is_ascii_uppercase_def code_def)

lemma hex_char_facts:
  assumes "d < 16"
  shows "to_digit 16 (hex_char d) = Some d" and "CHR '':'' \<noteq> hex_char d"
proof -
  have "to_digit 16 (hex_char d) = Some d \<and> code (hex_char d) \<noteq> 58"
    using hex_chars assms by (auto simp only: list_all_iff set_upt atLeastLessThan_iff)
  moreover have "code (CHR '':'') = 58" by (simp add: code_def)
  ultimately show "to_digit 16 (hex_char d) = Some d" and "CHR '':'' \<noteq> hex_char d" by auto
qed

lemma hex_value_show: "0 \<le> n \<Longrightarrow> hex_value (show_hex n) = n"
proof (induction n rule: show_hex.induct)
  case (1 n)
  show ?case
  proof (cases "n < 16")
    case True
    with 1(2) show ?thesis by (subst show_hex.simps) (simp add: hex_value_def hex_char_facts)
  next
    case False
    with 1 have "hex_value (show_hex (n div 16)) = n div 16" by simp
    with False show ?thesis
      by (subst show_hex.simps) (simp add: hex_value_def hex_char_facts div_mult_mod_eq)
  qed
qed

lemma show_hex_no_colon: "0 \<le> n \<Longrightarrow> CHR '':'' \<notin> set (show_hex n)"
proof (induction n rule: show_hex.induct)
  case (1 n)
  then show ?case
    using hex_char_facts(2) [of "nat n"] hex_char_facts(2) [of "nat (n mod 16)"]
    by (subst show_hex.simps) (auto simp: nat_less_iff)
qed

lemma show_nat_eq: "show_nat m = show_nat n \<longleftrightarrow> m = n"
  by (metis parse_show_nat of_nat_eq_iff)

lemma digit_text_no: "\<not> is_ascii_digit c \<Longrightarrow> c \<notin> set (show_nat n)"
  using show_nat_digits [of n] by (auto simp: list_all_iff)

lemma show_v4_inj:
  "show_v4 a b c d = show_v4 a' b' c' d' \<longleftrightarrow> a = a' \<and> b = b' \<and> c = c' \<and> d = d'"
proof
  assume eq: "show_v4 a b c d = show_v4 a' b' c' d'"
  have no_dot: "CHR ''.'' \<notin> set (show_nat n)" for n
    by (rule digit_text_no) (simp add: is_ascii_digit_def code_def)
  have "split_char (CHR ''.'') (show_v4 p q r s) = map (\<lambda>x. show_nat (unat x)) [p, q, r, s]" for p q r s
    unfolding show_v4_def by (rule split_join_char) (auto simp: no_dot)
  with eq have "map (\<lambda>x. show_nat (unat x)) [a, b, c, d] = map (\<lambda>x. show_nat (unat x)) [a', b', c', d']"
    by metis
  then show "a = a' \<and> b = b' \<and> c = c' \<and> d = d'" by (simp add: show_nat_eq flip: word_unat_eq_iff)
qed simp

lemma show_segments_inj:
  assumes "show_segments ss = show_segments ts" and "ss \<noteq> []" and "ts \<noteq> []"
  shows "ss = ts"
proof -
  have "split_char (CHR '':'') (show_segments us) = map (\<lambda>s. show_hex (uint s)) us" if "us \<noteq> []" for us
    unfolding show_segments_def using that by (intro split_join_char) (auto simp: show_hex_no_colon)
  with assms have "map (\<lambda>s. show_hex (uint s)) ss = map (\<lambda>s. show_hex (uint s)) ts" by metis
  moreover have "inj (\<lambda>s::segment. show_hex (uint s))"
    by (rule injI) (metis hex_value_show unsigned_greater_eq word_uint_eq_iff)
  ultimately show ?thesis by (simp add: inj_map_eq_map)
qed

lemma mapped_is_v4: "to_ipv4_mapped ss = Some x \<Longrightarrow> \<exists>a b c d. x = V4 a b c d"
  by (cases ss rule: to_ipv4_mapped.cases) (auto split: if_splits)

text \<open>Both groupings, as the text of the rate-limit key.\<close>

fun bucket_text :: "ip \<Rightarrow> string" where
  "bucket_text (V4 a b c d) = show_v4 a b c d"
| "bucket_text (V6 ss) = show_segments (take 4 ss) @ ''::/64''"

lemma ip_bucket_of:
  "parse_addr s = Some a \<Longrightarrow> ip_bucket (Some s) = bucket_text (rate_limit_key a)"
  by (auto simp: ip_bucket_def rate_limit_key_def split: ip.splits option.splits dest: mapped_is_v4)

lemma rate_limit_key_shape:
  "(\<exists>p q r s. rate_limit_key a = V4 p q r s) \<or> (\<exists>p q r s. rate_limit_key a = V6 [p, q, r, s, 0, 0, 0, 0])"
  by (cases "normalize a") (simp_all add: rate_limit_key_def)

lemma v4_no_colon: "CHR '':'' \<notin> set (show_v4 a b c d)"
proof -
  have "CHR '':'' \<notin> set (show_nat n)" for n
    by (rule digit_text_no) (simp add: is_ascii_digit_def code_def)
  then show ?thesis by (simp add: show_v4_def)
qed

text \<open>
  Sign-in lock-outs and rate limits group clients alike: two addresses fall into the same
  lock-out bucket exactly when they share a rate-limit key, which is the address itself for
  IPv4 (also when written as a mapped IPv6 address) and the /64 network for IPv6.
\<close>

theorem buckets_are_rate_limit_keys:
  assumes "parse_addr s = Some a" and "parse_addr t = Some b"
  shows "ip_bucket (Some s) = ip_bucket (Some t) \<longleftrightarrow> rate_limit_key a = rate_limit_key b"
proof
  assume "ip_bucket (Some s) = ip_bucket (Some t)"
  then have eq: "bucket_text (rate_limit_key a) = bucket_text (rate_limit_key b)"
    using assms by (simp add: ip_bucket_of)
  have differ: "show_v4 p q r s \<noteq> show_segments ss @ ''::/64''" for p q r s ss
    using v4_no_colon [of p q r s] by auto
  from rate_limit_key_shape [of a] rate_limit_key_shape [of b] eq
  show "rate_limit_key a = rate_limit_key b"
    by (auto simp: show_v4_inj differ differ [symmetric] dest: show_segments_inj)
qed (simp add: ip_bucket_of assms)

theorem buckets_are_rate_limit_keys_witness:
  "ip_bucket (Some ''2001:db8:1:2:aaaa::1'') = ip_bucket (Some ''2001:db8:1:2::9'')
   \<longleftrightarrow> rate_limit_key (V6 [0x2001, 0xdb8, 1, 2, 0xaaaa, 0, 0, 1])
       = rate_limit_key (V6 [0x2001, 0xdb8, 1, 2, 0, 0, 0, 9])"
  by (rule buckets_are_rate_limit_keys; code_simp)

end
