(* ===== verification/RateLimits.thy ===== *)
theory RateLimits
  imports Auth "HOL-Library.AList"
begin

text \<open>
  The limiter behind the per-account allowances of expensive or abusable operations (imports,
  exports, member changes), from \<^verbatim>\<open>src/src/utils/rate_limit.rs\<close>: at most \<open>max\<close> hits
  of a key in any stretch of time as long as the window.

  The hash map of a limiter is an association list without repeated keys, a queue of instants a
  list with its oldest instant first. An instant is a time on the monotonic clock, and
  \<open>duration_since\<close> is zero when the other instant is later, as in the standard library. The
  mutex serializes the checks; a poisoned one (a panic inside a check) is not modelled.
\<close>

section \<open>The limiter\<close>

record 'k limiter =
  li_window :: time
  li_max :: nat
  li_hits :: "('k \<times> time list) list"
  li_last_prune :: "time option"

definition PRUNE_INTERVAL :: time where
  "PRUNE_INTERVAL = seconds 60"

definition PRUNE_THRESHOLD :: nat where
  "PRUNE_THRESHOLD = 10000"

definition new_limiter :: "nat \<Rightarrow> time \<Rightarrow> 'k limiter" where
  "new_limiter m window =
     \<lparr>li_window = window, li_max = m, li_hits = [], li_last_prune = None\<rparr>"

definition duration_since :: "time \<Rightarrow> time \<Rightarrow> time" where
  "duration_since now t = max 0 (now - t)"

text \<open>Idle keys are swept when there are many, at most once per interval.\<close>

definition prune :: "time \<Rightarrow> 'k limiter \<Rightarrow> 'k limiter" where
  "prune now l =
     (if length (li_hits l) > PRUNE_THRESHOLD
         \<and> is_none_or (li_last_prune l) (\<lambda>at. duration_since now at \<ge> PRUNE_INTERVAL)
      then l\<lparr>li_hits := filter (\<lambda>(_, q). q \<noteq> [] \<and> duration_since now (last q) < li_window l) (li_hits l),
             li_last_prune := Some now\<rparr>
      else l)"

definition queue_of :: "'k \<Rightarrow> 'k limiter \<Rightarrow> time list" where
  "queue_of key l = unwrap_or (map_of (li_hits l) key) []"

text \<open>\<open>check_at\<close>: a hit is recorded, or refused with the time to wait.\<close>

definition check_at :: "'k \<Rightarrow> time \<Rightarrow> 'k limiter \<Rightarrow> (time + unit) \<times> 'k limiter" where
  "check_at key now l =
     (let l = prune now l;
          queue = dropWhile (\<lambda>t. duration_since now t \<ge> li_window l) (queue_of key l)
      in if length queue \<ge> li_max l
         then let oldest = (case queue of [] \<Rightarrow> now | t # _ \<Rightarrow> t)
              in (Inl (max 0 (li_window l - duration_since now oldest)),
                  l\<lparr>li_hits := AList.update key queue (li_hits l)\<rparr>)
         else (Inr (), l\<lparr>li_hits := AList.update key (queue @ [now]) (li_hits l)\<rparr>))"

section \<open>The allowances\<close>

datatype preset =
    BackupImport | BackupExport | SharedExport | SharedImport | ChordproExport | DataExport
  | PdfExport | BandMemberChanges | SetlistCollaboratorChanges | SetlistCollaboratorLookups
  | SetlistItems

definition HOUR :: time where
  "HOUR = seconds 3600"

fun preset_limits :: "preset \<Rightarrow> nat \<times> time" where
  "preset_limits BackupImport = (3, HOUR)"
| "preset_limits BackupExport = (10, HOUR)"
| "preset_limits SharedExport = (30, HOUR)"
| "preset_limits SharedImport = (10, HOUR)"
| "preset_limits ChordproExport = (10, HOUR)"
| "preset_limits DataExport = (10, HOUR)"
| "preset_limits PdfExport = (30, seconds 60)"
| "preset_limits BandMemberChanges = (60, HOUR)"
| "preset_limits SetlistCollaboratorChanges = (60, HOUR)"
| "preset_limits SetlistCollaboratorLookups = (120, seconds (10 * 60))"
| "preset_limits SetlistItems = (300, seconds (5 * 60))"

definition too_many_attempts :: "int \<Rightarrow> api_error" where
  "too_many_attempts secs =
     rule_with_meta 429 ''TOO_MANY_ATTEMPTS''
       (JObj [(''retry_after_seconds'', JInt (max secs 1))])"

text \<open>\<open>presets::limit\<close>: the time to wait is told in whole seconds (\<open>Duration::as_secs\<close>).\<close>

definition limit :: "uuid \<Rightarrow> time \<Rightarrow> uuid limiter \<Rightarrow> (api_error + unit) \<times> uuid limiter" where
  "limit user now l =
     (case check_at user now l of
        (Inr (), l') \<Rightarrow> (Inr (), l')
      | (Inl retry, l') \<Rightarrow> (Inl (too_many_attempts (max (num_seconds retry) 1)), l'))"

section \<open>Runs\<close>

text \<open>The hits of \<open>key\<close> let through in a run of checks, and the limiter the run leaves.\<close>

fun accepted :: "'k \<Rightarrow> 'k limiter \<Rightarrow> ('k \<times> time) list \<Rightarrow> time list" where
  "accepted key l [] = []"
| "accepted key l ((k, now) # rest) =
     (case check_at k now l of
        (r, l') \<Rightarrow> (if r = Inr () \<and> k = key then [now] else []) @ accepted key l' rest)"

fun after_checks :: "'k limiter \<Rightarrow> ('k \<times> time) list \<Rightarrow> 'k limiter" where
  "after_checks l [] = l"
| "after_checks l ((k, now) # rest) = after_checks (snd (check_at k now l)) rest"

lemma accepted_append:
  "accepted key l (xs @ ys) = accepted key l xs @ accepted key (after_checks l xs) ys"
  by (induction key l xs rule: accepted.induct) (simp_all split: prod.split)

lemma after_checks_append: "after_checks l (xs @ ys) = after_checks (after_checks l xs) ys"
  by (induction l xs rule: after_checks.induct) simp_all

lemma prune_fields [simp]:
  "li_window (prune now l) = li_window l" "li_max (prune now l) = li_max l"
  by (simp_all add: prune_def)

lemma check_at_fields [simp]:
  "li_window (snd (check_at k now l)) = li_window l" "li_max (snd (check_at k now l)) = li_max l"
  by (simp_all add: check_at_def Let_def)

lemma after_checks_fields [simp]:
  "li_window (after_checks l evs) = li_window l" "li_max (after_checks l evs) = li_max l"
  by (induction l evs rule: after_checks.induct) simp_all

lemma new_limiter_fields [simp]:
  "li_window (new_limiter m w) = w" "li_max (new_limiter m w) = m" "queue_of k (new_limiter m w) = []"
  by (simp_all add: new_limiter_def queue_of_def)

lemma queue_of_update [simp]:
  "queue_of k (l\<lparr>li_hits := AList.update key q (li_hits l)\<rparr>) = (if k = key then q else queue_of k l)"
  by (simp add: queue_of_def update_conv')

section \<open>The state of a key\<close>

text \<open>
  What the limiter knows of \<open>key\<close> at the time \<open>T\<close>, when the hits let through so far are \<open>H\<close>: its
  queue is the newest part of them, and the older part has left the window.
\<close>

definition knows :: "'k \<Rightarrow> 'k limiter \<Rightarrow> time list \<Rightarrow> time \<Rightarrow> bool" where
  "knows key l H T \<longleftrightarrow> distinct (map fst (li_hits l)) \<and> length (queue_of key l) \<le> li_max l
     \<and> (\<exists>d. H = d @ queue_of key l \<and> (\<forall>h \<in> set d. T - h \<ge> li_window l))
     \<and> sorted H \<and> (\<forall>h \<in> set H. h \<le> T)"

lemma knowsI:
  assumes "distinct (map fst (li_hits l))" and "length (queue_of key l) \<le> li_max l"
    and "H = d @ queue_of key l" and "\<And>h. h \<in> set d \<Longrightarrow> T - h \<ge> li_window l"
    and "sorted H" and "\<And>h. h \<in> set H \<Longrightarrow> h \<le> T"
  shows "knows key l H T"
  using assms by (auto simp: knows_def)

lemma knowsE:
  assumes "knows key l H T"
  obtains d where "distinct (map fst (li_hits l))" and "length (queue_of key l) \<le> li_max l"
    and "H = d @ queue_of key l" and "\<And>h. h \<in> set d \<Longrightarrow> T - h \<ge> li_window l"
    and "sorted H" and "\<And>h. h \<in> set H \<Longrightarrow> h \<le> T"
  using assms by (auto simp: knows_def)

lemma knows_new: "knows key (new_limiter m w) [] T"
  by (simp add: knows_def) (simp add: new_limiter_def)

lemma map_of_filter_distinct:
  "distinct (map fst xs) \<Longrightarrow>
   map_of (filter (\<lambda>(k, q). P q) xs) key = opt_filter P (map_of xs key)"
  by (induction xs) (auto simp: opt_filter_def map_of_eq_None_iff split: option.splits)

lemma prune_cases:
  "prune now l = l \<or> li_hits (prune now l) =
     filter (\<lambda>(_, q). q \<noteq> [] \<and> duration_since now (last q) < li_window l) (li_hits l)"
  by (simp add: prune_def)

lemma queue_of_prune:
  assumes "distinct (map fst (li_hits l))"
  shows "queue_of key (prune now l) = queue_of key l
    \<or> queue_of key (prune now l) = []
      \<and> \<not> (queue_of key l \<noteq> [] \<and> duration_since now (last (queue_of key l)) < li_window l)"
  using prune_cases [of now l] assms
  by (auto simp: queue_of_def map_of_filter_distinct opt_filter_def unwrap_or_def
      split: option.splits if_splits)

lemma sorted_le_last: "sorted xs \<Longrightarrow> x \<in> set xs \<Longrightarrow> x \<le> last xs" for xs :: "int list"
  by (induction xs) auto

lemma knows_prune:
  assumes "knows key l H T" and "T \<le> now"
  shows "knows key (prune now l) H now"
  using assms(1)
proof (rule knowsE)
  fix d
  assume known: "distinct (map fst (li_hits l))" "length (queue_of key l) \<le> li_max l"
    "H = d @ queue_of key l" "\<And>h. h \<in> set d \<Longrightarrow> T - h \<ge> li_window l" "sorted H"
    "\<And>h. h \<in> set H \<Longrightarrow> h \<le> T"
  have older: "now - h \<ge> li_window l" if "h \<in> set d" for h
    using known(4) [OF that] assms(2) by simp
  have past: "h \<le> now" if "h \<in> set H" for h using known(6) [OF that] assms(2) by simp
  have keys: "distinct (map fst (li_hits (prune now l)))"
    using prune_cases [of now l] known(1) by (auto simp: distinct_map_filter)
  from queue_of_prune [OF known(1), of key now] show "knows key (prune now l) H now"
  proof (elim disjE conjE)
    assume "queue_of key (prune now l) = queue_of key l"
    with known keys older past show ?thesis by (intro knowsI [of _ _ _ d]) auto
  next
    assume empty: "queue_of key (prune now l) = []"
      and idle: "\<not> (queue_of key l \<noteq> [] \<and> duration_since now (last (queue_of key l)) < li_window l)"
    have "now - h \<ge> li_window l" if h: "h \<in> set H" for h
    proof (cases "h \<in> set d")
      case True
      then show ?thesis by (rule older)
    next
      case False
      with h known(3) have q: "h \<in> set (queue_of key l)" by simp
      then have "last (queue_of key l) \<in> set H" using known(3) by (cases "queue_of key l") auto
      moreover have "h \<le> last (queue_of key l)"
        using q known(3,5) by (intro sorted_le_last) (auto simp: sorted_append)
      ultimately show ?thesis using idle q past by (auto simp: duration_since_def)
    qed
    with known keys empty past show ?thesis by (intro knowsI [of _ _ _ H]) auto
  qed
qed

lemma knows_check:
  assumes "knows key l H T" and "T \<le> now" and "check_at k now l = (r, l')"
  shows "knows key l' (H @ (if r = Inr () \<and> k = key then [now] else [])) now"
  using knows_prune [OF assms(1,2)]
proof (rule knowsE)
  fix d
  define p where "p = prune now l"
  define q where "q = dropWhile (\<lambda>t. duration_since now t \<ge> li_window p) (queue_of k p)"
  assume known: "distinct (map fst (li_hits (prune now l)))"
    "length (queue_of key (prune now l)) \<le> li_max (prune now l)"
    "H = d @ queue_of key (prune now l)" "\<And>h. h \<in> set d \<Longrightarrow> now - h \<ge> li_window (prune now l)"
    "sorted H" "\<And>h. h \<in> set H \<Longrightarrow> h \<le> now"
  note known = known [folded p_def]
  have r: "r = (if length q \<ge> li_max p then Inl (max 0 (li_window p - duration_since now (case q of [] \<Rightarrow> now | t # _ \<Rightarrow> t)))
      else Inr ())"
    and l': "l' = p\<lparr>li_hits := AList.update k (if length q \<ge> li_max p then q else q @ [now]) (li_hits p)\<rparr>"
    using assms(3) by (auto simp: check_at_def Let_def p_def [symmetric] q_def split: if_splits)
  have keys: "distinct (map fst (li_hits l'))" using known(1) by (simp add: l' distinct_update)
  show "knows key l' (H @ (if r = Inr () \<and> k = key then [now] else [])) now"
  proof (cases "k = key")
    case False
    then show ?thesis
      using known by (intro knowsI [OF keys, of key _ d]) (auto simp: l')
  next
    case True
    define left where "left = takeWhile (\<lambda>t. duration_since now t \<ge> li_window p) (queue_of key p)"
    have queue: "queue_of key p = left @ q" using True by (simp add: left_def q_def)
    have left: "now - h \<ge> li_window p" if "h \<in> set left" for h
    proof -
      from that have "duration_since now h \<ge> li_window p" by (auto simp: left_def dest: set_takeWhileD)
      moreover have "h \<le> now" using that known(3,6) queue by simp
      ultimately show ?thesis by (simp add: duration_since_def)
    qed
    have "length q \<le> li_max p" using known(2) queue by simp
    then show ?thesis
      using True known left queue r
      by (intro knowsI [OF keys, of key _ "d @ left"]) (auto simp: l' sorted_append)
  qed
qed

text \<open>In any stretch of time as long as the window, at most \<open>m\<close> of the hits \<open>H\<close>.\<close>

definition within :: "time \<Rightarrow> time \<Rightarrow> time list \<Rightarrow> time list" where
  "within t w H = filter (\<lambda>h. t - w < h \<and> h \<le> t) H"

definition spread :: "nat \<Rightarrow> time \<Rightarrow> time list \<Rightarrow> bool" where
  "spread m w H \<longleftrightarrow> (\<forall>t. length (within t w H) \<le> m)"

lemma spread_check:
  assumes "knows key l H T" and "T \<le> now" and check: "check_at k now l = (r, l')"
    and spread: "spread (li_max l) (li_window l) H"
  shows "spread (li_max l) (li_window l) (H @ (if r = Inr () \<and> k = key then [now] else []))"
proof (cases "r = Inr () \<and> k = key")
  case False
  then show ?thesis using spread by auto
next
  case True
  have fields: "li_max l' = li_max l" "li_window l' = li_window l"
    using check by (metis check_at_fields snd_conv)+
  have "knows key l' (H @ [now]) now" using knows_check [OF assms(1,2) check] True by simp
  then obtain d where d: "length (queue_of key l') \<le> li_max l" "H @ [now] = d @ queue_of key l'"
    "\<And>h. h \<in> set d \<Longrightarrow> now - h \<ge> li_window l"
    by (auto simp: knows_def fields)
  have "length (within t (li_window l) (H @ [now])) \<le> li_max l" for t
  proof (cases "t < now")
    case True
    then have "within t (li_window l) (H @ [now]) = within t (li_window l) H" by (simp add: within_def)
    with spread show ?thesis by (simp add: spread_def)
  next
    case False
    have "within t (li_window l) d = []"
      using d(3) False by (fastforce simp: within_def filter_empty_conv)
    then have "within t (li_window l) (H @ [now]) = within t (li_window l) (queue_of key l')"
      unfolding d(2) by (simp add: within_def)
    then have "length (within t (li_window l) (H @ [now])) \<le> length (queue_of key l')"
      by (simp add: within_def)
    with d(1) show ?thesis by simp
  qed
  with True show ?thesis by (simp add: spread_def)
qed

lemma knows_run:
  assumes "sorted (T # map snd evs)" and "knows key l H T"
    and "spread (li_max l) (li_window l) H"
  shows "knows key (after_checks l evs) (H @ accepted key l evs) (last (T # map snd evs))
    \<and> spread (li_max l) (li_window l) (H @ accepted key l evs)"
  using assms
proof (induction evs arbitrary: T l H)
  case Nil
  then show ?case by simp
next
  case (Cons ev evs)
  obtain k now where ev: "ev = (k, now)" by (rule prod.exhaust)
  obtain r l' where check: "check_at k now l = (r, l')" by (rule prod.exhaust)
  have fields: "li_max l' = li_max l" "li_window l' = li_window l"
    using check by (metis check_at_fields snd_conv)+
  from Cons.prems(1) ev have "T \<le> now" and sorted: "sorted (now # map snd evs)" by auto
  note step = knows_check [OF Cons.prems(2) this(1) check]
    spread_check [OF Cons.prems(2) this(1) check Cons.prems(3)]
  from Cons.IH [OF sorted step(1)] step(2) check show ?case by (simp add: ev fields)
qed

section \<open>The properties\<close>

text \<open>
  C36. An allowance is never exceeded: however the checks of all accounts come, in any stretch of
  time as long as the window the limiter lets at most \<open>m\<close> hits of a key through, sweeps of idle
  keys included.
\<close>

theorem allowance_never_exceeded:
  assumes "sorted (map snd checks)"
  shows "length (within t window (accepted key (new_limiter m window) checks)) \<le> m"
proof (cases checks)
  case Nil
  then show ?thesis by (simp add: within_def)
next
  case (Cons ev rest)
  have "sorted (snd ev # map snd checks)" using assms Cons by auto
  from knows_run [OF this knows_new] show ?thesis by (simp add: spread_def within_def)
qed

theorem allowance_never_exceeded_witness:
  "accepted (1::nat) (new_limiter 2 5) [(1, 4), (1, 5), (2, 6), (1, 7), (1, 10)] = [4, 5, 10]
   \<and> length (within 9 5 (accepted (1::nat) (new_limiter 2 5) [(1, 4), (1, 5), (2, 6), (1, 7), (1, 10)])) \<le> 2"
proof
  show "accepted (1::nat) (new_limiter 2 5) [(1, 4), (1, 5), (2, 6), (1, 7), (1, 10)] = [4, 5, 10]"
    by (simp add: check_at_def prune_def PRUNE_THRESHOLD_def queue_of_def new_limiter_def
        duration_since_def)
qed (rule allowance_never_exceeded, simp)

lemma refused_queue:
  assumes "knows key l H T" and "T \<le> now" and "0 < li_max l"
    and check: "check_at key now l = (Inl retry, l')"
  shows "\<exists>t q. queue_of key l' = t # q \<and> length (t # q) = li_max l \<and> sorted (t # q)
    \<and> (\<forall>h \<in> set (t # q). h \<le> now) \<and> retry = li_window l - (now - t) \<and> 0 < retry"
proof -
  have fields: "li_max l' = li_max l" "li_window l' = li_window l"
    using check by (metis check_at_fields snd_conv)+
  from knows_check [OF assms(1,2) check] obtain d where d:
    "H = d @ queue_of key l'" "length (queue_of key l') \<le> li_max l" "sorted H" "\<forall>h \<in> set H. h \<le> now"
    by (auto simp: knows_def fields)
  define p where "p = prune now l"
  define q where "q = dropWhile (\<lambda>t. duration_since now t \<ge> li_window p) (queue_of key p)"
  have q: "length q \<ge> li_max l" "queue_of key l' = q"
    and retry: "retry = max 0 (li_window l - duration_since now (case q of [] \<Rightarrow> now | t # _ \<Rightarrow> t))"
    using check by (auto simp: check_at_def Let_def p_def q_def split: if_splits)
  with assms(3) obtain t rest where t: "q = t # rest" by (cases q) auto
  then have "\<not> duration_since now t \<ge> li_window p" using dropWhile_eq_Cons_conv [of _ _ t rest] q_def by metis
  moreover have "t \<le> now" using d(1,4) q(2) t by simp
  ultimately show ?thesis
    using d q retry t by (auto simp: duration_since_def p_def sorted_append)
qed

text \<open>
  C37. A refusal tells exactly how long to wait: if the account does nothing else meanwhile, a
  check after the time it was told, or later, is let through, and any check before that is
  refused. So an account that waits is never shut out for good.
\<close>

theorem retry_is_exact:
  assumes "sorted (map snd checks)" and "\<forall>c \<in> set checks. snd c \<le> now" and "0 < m"
    and "check_at key now (after_checks (new_limiter m window) checks) = (Inl retry, l)"
    and "now \<le> later"
  shows "fst (check_at key later l) = Inr () \<longleftrightarrow> now + retry \<le> later"
proof -
  define l0 where "l0 = after_checks (new_limiter m window :: 'a limiter) checks"
  obtain H T where known: "knows key l0 H T" and T: "T \<le> now"
  proof (cases checks)
    case Nil
    then have "knows key l0 [] now" by (simp add: l0_def knows_new)
    then show ?thesis using that by blast
  next
    case (Cons ev rest)
    have sorted: "sorted (snd ev # map snd checks)" using assms(1) Cons by auto
    have "last (snd ev # map snd checks) \<in> set (map snd checks)"
      using last_in_set [of "map snd checks"] Cons by simp
    with assms(2) have "last (snd ev # map snd checks) \<le> now" by auto
    moreover have "knows key l0 ([] @ accepted key (new_limiter m window) checks) (last (snd ev # map snd checks))"
      unfolding l0_def using knows_run [OF sorted knows_new] by (simp add: spread_def within_def)
    ultimately show ?thesis using that by blast
  qed
  have fields: "li_max l0 = m" "li_window l0 = window" by (simp_all add: l0_def)
  have check: "check_at key now l0 = (Inl retry, l)" using assms(4) by (simp add: l0_def)
  have lf: "li_max l = m" "li_window l = window"
    using check fields by (metis check_at_fields snd_conv)+
  from refused_queue [OF known T _ check] assms(3) fields obtain t q where
    q: "queue_of key l = t # q" "length (t # q) = m" "sorted (t # q)" "\<forall>h \<in> set (t # q). h \<le> now"
      "retry = window - (now - t)"
    by auto
  have known': "knows key l H now" using knows_check [OF known T check] by simp
  then have keys: "distinct (map fst (li_hits l))" by (simp add: knows_def)
  show ?thesis
  proof (cases "now + retry \<le> later")
    case True
    have "queue_of key (prune later l) = t # q \<or> queue_of key (prune later l) = []"
      using queue_of_prune [OF keys, of key later] q(1) by auto
    moreover have "duration_since later t \<ge> window"
      using True q(4,5) by (auto simp: duration_since_def)
    moreover have "length (dropWhile (\<lambda>t. duration_since later t \<ge> window) q) < m"
      using q(2) length_dropWhile_le [of "\<lambda>t. duration_since later t \<ge> window" q] by simp
    ultimately show ?thesis
      using True assms(3) by (auto simp: check_at_def Let_def lf)
  next
    case False
    have stay: "duration_since later h < window" if "h \<in> set (t # q)" for h
      using that False q(3,4,5) assms(5) by (auto simp: duration_since_def)
    have "last (t # q) \<in> set (t # q)" by (rule last_in_set) simp
    then have "duration_since later (last (t # q)) < window" by (rule stay)
    then have "queue_of key (prune later l) = t # q"
      using queue_of_prune [OF keys, of key later] q(1) lf by auto
    then show ?thesis
      using False q(2) stay [of t] by (simp add: check_at_def Let_def lf)
  qed
qed

lemmas limiter_eval = check_at_def prune_def PRUNE_THRESHOLD_def queue_of_def new_limiter_def
  duration_since_def

theorem retry_is_exact_witness:
  "check_at (7::nat) 4 (after_checks (new_limiter 2 5) [(7, 1), (8, 2), (7, 3)])
     = (Inl 2, after_checks (new_limiter 2 5) [(7, 1), (8, 2), (7, 3), (7, 4)])
   \<and> (fst (check_at 7 5 (after_checks (new_limiter 2 5) [(7::nat, 1), (8, 2), (7, 3), (7, 4)])) = Inr ()
      \<longleftrightarrow> (4::time) + 2 \<le> 5)
   \<and> (fst (check_at 7 6 (after_checks (new_limiter 2 5) [(7::nat, 1), (8, 2), (7, 3), (7, 4)])) = Inr ()
      \<longleftrightarrow> (4::time) + 2 \<le> 6)"
proof (intro conjI)
  show refused: "check_at (7::nat) 4 (after_checks (new_limiter 2 5) [(7, 1), (8, 2), (7, 3)])
     = (Inl 2, after_checks (new_limiter 2 5) [(7, 1), (8, 2), (7, 3), (7, 4)])"
    by (simp add: limiter_eval)
  show "fst (check_at 7 5 (after_checks (new_limiter 2 5) [(7::nat, 1), (8, 2), (7, 3), (7, 4)])) = Inr ()
      \<longleftrightarrow> (4::time) + 2 \<le> 5"
    by (rule retry_is_exact [OF _ _ _ refused]) simp_all
  show "fst (check_at 7 6 (after_checks (new_limiter 2 5) [(7::nat, 1), (8, 2), (7, 3), (7, 4)])) = Inr ()
      \<longleftrightarrow> (4::time) + 2 \<le> 6"
    by (rule retry_is_exact [OF _ _ _ refused]) simp_all
qed

text \<open>
  The API tells the time to wait in whole seconds, cut off: an account that waits as long as it
  was told may be refused once more.
\<close>

lemma told_seconds_fall_short:
  defines "l \<equiv> after_checks (new_limiter 1 (seconds 3)) [(7::uuid, 0)]"
  shows "fst (limit 7 500000 l) = Inl (too_many_attempts 2)"
    and "fst (limit 7 (500000 + seconds 2) (snd (limit 7 500000 l))) = Inl (too_many_attempts 1)"
  by (simp_all add: l_def limiter_eval limit_def seconds_def num_seconds_def)

end
