(* ===== verification/Outbox.thy ===== *)
theory Outbox
  imports RateLimits Credits
begin

text \<open>
  The e-mail outbox, from \<^verbatim>\<open>src/src/email/outbox.rs\<close> and \<^verbatim>\<open>email/worker.rs\<close>: what
  may be queued for a mailbox and an account, in which order queued messages are sent, and what
  becomes of a message whose delivery fails. The templates are those of
  \<^verbatim>\<open>email/templates.rs\<close> with the variables that decide something; the texts are left
  out, and so is the locale.

  A row whose payload was wiped (or could not be read) has \<open>None\<close> for its template. The SMTP
  server is the parameter \<open>transport\<close>: its answer to each claimed message. A batch reads the
  clock once; the messages it sends side by side are independent of each other, so they are
  handled one after the other.
\<close>

section \<open>Templates\<close>

datatype category = CatSecurity | CatAccount | CatBands | CatAnnouncements | CatProductUpdates | CatMarketing

definition locked :: "category \<Rightarrow> bool" where
  "locked c = (c = CatSecurity)"

datatype email_template =
    EmailVerificationCode string
  | PasswordResetCode string
  | EmailChangeCode string
  | PasswordChangedMail
  | TwoFactorEnabledMail
  | TwoFactorDisabledMail
  | EmailChangedNotice string
  | AccountDeletedMail
  | NotificationMail category
  | AnnouncementMail string
  | ReleaseNotes
  | TrialEnding
  | SubscriptionChanged string
  | SubscriptionConfirmed
  | PaidTrialEnding
  | RenewalReminder
  | WithdrawalConfirmed
  | PaymentDisputed
  | PriceChange
  | Welcome
  | TestMessage
  | ReauthCode string
  | SecurityNotice string "string option"

fun template_name :: "email_template \<Rightarrow> string" where
  "template_name (EmailVerificationCode _) = ''email_verification_code''"
| "template_name (PasswordResetCode _) = ''password_reset_code''"
| "template_name (EmailChangeCode _) = ''email_change_code''"
| "template_name PasswordChangedMail = ''password_changed''"
| "template_name TwoFactorEnabledMail = ''two_factor_enabled''"
| "template_name TwoFactorDisabledMail = ''two_factor_disabled''"
| "template_name (EmailChangedNotice _) = ''email_changed_notice''"
| "template_name AccountDeletedMail = ''account_deleted''"
| "template_name (NotificationMail _) = ''notification''"
| "template_name (AnnouncementMail _) = ''announcement''"
| "template_name ReleaseNotes = ''release_notes''"
| "template_name TrialEnding = ''trial_ending''"
| "template_name (SubscriptionChanged _) = ''subscription_changed''"
| "template_name SubscriptionConfirmed = ''subscription_confirmed''"
| "template_name PaidTrialEnding = ''paid_trial_ending''"
| "template_name RenewalReminder = ''renewal_reminder''"
| "template_name WithdrawalConfirmed = ''withdrawal_confirmed''"
| "template_name PaymentDisputed = ''payment_disputed''"
| "template_name PriceChange = ''price_change''"
| "template_name Welcome = ''welcome''"
| "template_name TestMessage = ''test_message''"
| "template_name (ReauthCode _) = ''reauth_code''"
| "template_name (SecurityNotice _ _) = ''security_notice''"

fun is_sensitive :: "email_template \<Rightarrow> bool" where
  "is_sensitive (EmailVerificationCode _) = True"
| "is_sensitive (PasswordResetCode _) = True"
| "is_sensitive (EmailChangeCode _) = True"
| "is_sensitive (ReauthCode _) = True"
| "is_sensitive _ = False"

datatype footer_kind =
  ForAddress | ForAccount | ForSecurity | ForDeleted | ForCritical | ForBilling | ForPreference category

definition BILLING_NOTICE_KINDS :: "string list" where
  "BILLING_NOTICE_KINDS =
     [''subscribed'', ''plan_changed'', ''payment_failed'', ''cancel_scheduled'', ''resumed'',
      ''canceled'', ''withdrawn'', ''refunded'', ''disputed'', ''paid_trial_ending'',
      ''renewal_reminder'', ''price_change'']"

fun footer_reason :: "email_template \<Rightarrow> footer_kind" where
  "footer_reason (EmailVerificationCode _) = ForAddress"
| "footer_reason (EmailChangeCode _) = ForAddress"
| "footer_reason (PasswordResetCode _) = ForSecurity"
| "footer_reason PasswordChangedMail = ForSecurity"
| "footer_reason TwoFactorEnabledMail = ForSecurity"
| "footer_reason TwoFactorDisabledMail = ForSecurity"
| "footer_reason (EmailChangedNotice _) = ForSecurity"
| "footer_reason AccountDeletedMail = ForDeleted"
| "footer_reason Welcome = ForAccount"
| "footer_reason TestMessage = ForAccount"
| "footer_reason (NotificationMail c) = (if c = CatSecurity then ForSecurity else ForPreference c)"
| "footer_reason (AnnouncementMail level) =
     (if level = ''critical'' then ForCritical else ForPreference CatAnnouncements)"
| "footer_reason ReleaseNotes = ForPreference CatProductUpdates"
| "footer_reason (SubscriptionChanged kind) =
     (if kind \<in> set BILLING_NOTICE_KINDS then ForBilling else ForPreference CatAccount)"
| "footer_reason SubscriptionConfirmed = ForBilling"
| "footer_reason PaidTrialEnding = ForBilling"
| "footer_reason RenewalReminder = ForBilling"
| "footer_reason WithdrawalConfirmed = ForBilling"
| "footer_reason PaymentDisputed = ForBilling"
| "footer_reason PriceChange = ForBilling"
| "footer_reason TrialEnding = ForPreference CatAccount"
| "footer_reason (SecurityNotice kind _) = (if kind = ''email_in_use'' then ForAddress else ForSecurity)"
| "footer_reason (ReauthCode _) = ForSecurity"

definition unsubscribe_category :: "email_template \<Rightarrow> category option" where
  "unsubscribe_category t =
     (case footer_reason t of
        ForPreference c \<Rightarrow> if locked c then None else Some c
      | _ \<Rightarrow> None)"

section \<open>Preferences\<close>

text \<open>What a user accepts in a category: by e-mail, in the app.\<close>

fun category_key :: "category \<Rightarrow> string" where
  "category_key CatSecurity = ''security''"
| "category_key CatAccount = ''account''"
| "category_key CatBands = ''bands''"
| "category_key CatAnnouncements = ''announcements''"
| "category_key CatProductUpdates = ''product_updates''"
| "category_key CatMarketing = ''marketing''"

definition CATEGORIES :: "category list" where
  "CATEGORIES = [CatSecurity, CatAccount, CatBands, CatAnnouncements, CatProductUpdates, CatMarketing]"

definition category_of_key :: "string \<Rightarrow> category option" where
  "category_of_key k = find (\<lambda>c. category_key c = k) CATEGORIES"

fun default_prefs :: "category \<Rightarrow> bool \<times> bool" where
  "default_prefs CatSecurity = (True, True)"
| "default_prefs CatAccount = (True, True)"
| "default_prefs CatBands = (False, True)"
| "default_prefs CatAnnouncements = (True, True)"
| "default_prefs CatProductUpdates = (False, True)"
| "default_prefs CatMarketing = (False, False)"

definition stored_flag :: "json \<Rightarrow> string \<Rightarrow> bool \<Rightarrow> bool" where
  "stored_flag stored name fallback = unwrap_or (Option.bind (json_get stored name) as_bool) fallback"

definition from_stored :: "json \<Rightarrow> category \<Rightarrow> bool \<times> bool" where
  "from_stored v =
     foldl (\<lambda>prefs (key, stored).
         case category_of_key key of
           None \<Rightarrow> prefs
         | Some c \<Rightarrow>
             if locked c then prefs
             else prefs(c := (stored_flag stored ''email'' (fst (prefs c)),
                              stored_flag stored ''in_app'' (snd (prefs c)))))
       default_prefs
       (unwrap_or (Option.bind (json_get v ''categories'') as_object) [])"

definition prefs_get :: "(category \<Rightarrow> bool \<times> bool) \<Rightarrow> category \<Rightarrow> bool \<times> bool" where
  "prefs_get prefs c = (if locked c then default_prefs c else prefs c)"

section \<open>Queueing\<close>

datatype mail_status = Pending | Sending | Sent | Failed | Skipped

record mail_row =
  mr_id :: uuid
  mr_user :: "uuid option"
  mr_to :: string
  mr_canonical :: string
  mr_template :: string
  mr_payload :: "email_template option"
  mr_status :: mail_status
  mr_priority :: int
  mr_attempts :: int
  mr_scheduled_at :: time
  mr_locked_at :: "time option"
  mr_sent_at :: "time option"
  mr_created_at :: time

record outgoing_email =
  og_user :: "uuid option"
  og_to :: string
  og_template :: email_template

definition ends_with :: "string \<Rightarrow> string \<Rightarrow> bool" where
  "ends_with s suffix = (strip_suffix suffix s \<noteq> None)"

fun contains_text :: "string \<Rightarrow> string \<Rightarrow> bool" where
  "contains_text [] word = (word = [])"
| "contains_text (c # cs) word = (starts_with (c # cs) word \<or> contains_text cs word)"

definition is_code_template :: "string \<Rightarrow> bool" where
  "is_code_template name = ends_with name ''_code''"

definition CODE_EMAILS_PER_ADDRESS_PER_DAY :: nat where
  "CODE_EMAILS_PER_ADDRESS_PER_DAY = 5"

definition ACCOUNT_CODE_EMAILS_PER_ADDRESS_PER_DAY :: nat where
  "ACCOUNT_CODE_EMAILS_PER_ADDRESS_PER_DAY = 20"

definition NOTIFICATION_EMAILS_PER_ADDRESS_PER_DAY :: nat where
  "NOTIFICATION_EMAILS_PER_ADDRESS_PER_DAY = 30"

definition OTHER_EMAILS_PER_ADDRESS_PER_DAY :: nat where
  "OTHER_EMAILS_PER_ADDRESS_PER_DAY = 10"

definition EMAILS_PER_ACCOUNT_PER_DAY :: nat where
  "EMAILS_PER_ACCOUNT_PER_DAY = 50"

definition recipient_daily_cap :: "string \<Rightarrow> nat option" where
  "recipient_daily_cap name =
     (if name = ''announcement'' \<or> name = ''release_notes'' then None
      else if name = ''password_reset_code'' \<or> name = ''reauth_code''
      then Some ACCOUNT_CODE_EMAILS_PER_ADDRESS_PER_DAY
      else if is_code_template name then Some CODE_EMAILS_PER_ADDRESS_PER_DAY
      else if name = ''notification'' then Some NOTIFICATION_EMAILS_PER_ADDRESS_PER_DAY
      else Some OTHER_EMAILS_PER_ADDRESS_PER_DAY)"

definition SECURITY :: int where "SECURITY = 0"
definition ACCOUNT :: int where "ACCOUNT = 3"
definition NORMAL :: int where "NORMAL = 5"
definition BULK :: int where "BULK = 9"

definition priority_of_name :: "string \<Rightarrow> int" where
  "priority_of_name name =
     (if name \<in> set [''password_changed'', ''two_factor_enabled'', ''two_factor_disabled'',
                     ''email_changed_notice'', ''account_deleted'', ''security_notice'']
      then SECURITY
      else if name = ''announcement'' \<or> name = ''release_notes'' then BULK
      else if name = ''welcome'' then ACCOUNT
      else if is_code_template name then SECURITY
      else if list_ex (contains_text name)
                [''trial'', ''subscription'', ''payment'', ''billing'', ''invoice'', ''refund'', ''withdraw'']
      then ACCOUNT else NORMAL)"

fun priority_of :: "email_template \<Rightarrow> int" where
  "priority_of (NotificationMail c) = (if c = CatSecurity then SECURITY else NORMAL)"
| "priority_of t = priority_of_name (template_name t)"

definition DAY :: time where
  "DAY = days 1"

definition sent_to :: "string \<Rightarrow> string \<Rightarrow> mail_row list \<Rightarrow> mail_row list" where
  "sent_to canonical name rows = filter (\<lambda>r. mr_canonical r = canonical \<and> mr_template r = name) rows"

definition new_mail :: "uuid \<Rightarrow> time \<Rightarrow> outgoing_email \<Rightarrow> mail_row" where
  "new_mail i now email =
     (let to = take 254 (trim (og_to email)) in
      \<lparr>mr_id = i, mr_user = og_user email, mr_to = to, mr_canonical = canonical_email to,
       mr_template = template_name (og_template email), mr_payload = Some (og_template email),
       mr_status = Pending, mr_priority = priority_of (og_template email), mr_attempts = 0,
       mr_scheduled_at = now, mr_locked_at = None, mr_sent_at = None, mr_created_at = now\<rparr>)"

text \<open>\<open>enqueue\<close>: past a cap the message is dropped. The flag tells whether it was queued.\<close>

definition enqueue :: "uuid \<Rightarrow> time \<Rightarrow> outgoing_email \<Rightarrow> mail_row list \<Rightarrow> bool \<times> mail_row list" where
  "enqueue i now email rows =
     (let row = new_mail i now email;
          account_cap = (if is_code_template (mr_template row) then None
                         else map_option (\<lambda>u. (u, EMAILS_PER_ACCOUNT_PER_DAY)) (og_user email))
      in if is_none_or (recipient_daily_cap (mr_template row)) (\<lambda>cap.
              length (filter (\<lambda>r. mr_created_at r > now - DAY)
                (sent_to (mr_canonical row) (mr_template row) rows)) < cap)
            \<and> is_none_or account_cap (\<lambda>(u, cap).
              length (filter (\<lambda>r. mr_user r = Some u \<and> \<not> is_code_template (mr_template r)
                              \<and> mr_created_at r > now - DAY) rows) < cap)
         then (True, rows @ [row]) else (False, rows))"

text \<open>\<open>enqueue_many\<close>: bulk mail, without caps.\<close>

definition enqueue_many :: "time \<Rightarrow> (uuid \<times> outgoing_email) list \<Rightarrow> mail_row list \<Rightarrow> mail_row list" where
  "enqueue_many now emails rows = rows @ map (\<lambda>(i, e). new_mail i now e) emails"

text \<open>An address as it is shown in notices sent elsewhere.\<close>

definition mask_email :: "string \<Rightarrow> string" where
  "mask_email email =
     (case split_once (CHR ''@'') email of
        Some (local_part, domain) \<Rightarrow> take 1 local_part @ ''***@'' @ domain
      | None \<Rightarrow> ''***'')"

section \<open>Sending\<close>

definition MAX_ATTEMPTS :: int where
  "MAX_ATTEMPTS = 10"

definition MAX_BACKOFF_SECS :: int where
  "MAX_BACKOFF_SECS = 3600"

definition BATCH_SIZE :: nat where
  "BATCH_SIZE = 25"

definition STALE_LOCK_MINUTES :: int where
  "STALE_LOCK_MINUTES = 10"

definition backoff :: "int \<Rightarrow> time" where
  "backoff attempts =
     (let exponent = nat (min 10 (max 0 (attempts - 1)))
      in seconds (min (30 * 2 ^ exponent) MAX_BACKOFF_SECS))"

datatype answer = Delivered | Refused (permanent: bool)

datatype delivery = WasSent | WasSkipped | Retrying | HasFailed

definition still_wanted :: "(uuid \<Rightarrow> json option) \<Rightarrow> email_template \<Rightarrow> uuid option \<Rightarrow> bool" where
  "still_wanted stored t u =
     (case (u, unsubscribe_category t) of
        (Some u, Some c) \<Rightarrow>
          fst (prefs_get (case stored u of None \<Rightarrow> default_prefs | Some v \<Rightarrow> from_stored v) c)
      | _ \<Rightarrow> True)"

definition finish :: "time \<Rightarrow> mail_status \<Rightarrow> bool \<Rightarrow> mail_row \<Rightarrow> mail_row" where
  "finish now status clear_payload r =
     r\<lparr>mr_status := status, mr_locked_at := None,
       mr_sent_at := (if status = Sent then Some now else mr_sent_at r),
       mr_payload := (if clear_payload then None else mr_payload r)\<rparr>"

definition deliver ::
  "time \<Rightarrow> (uuid \<Rightarrow> json option) \<Rightarrow> (mail_row \<Rightarrow> answer) option \<Rightarrow> mail_row \<Rightarrow> delivery \<times> mail_row"
where
  "deliver now stored transport r =
     (case mr_payload r of
        None \<Rightarrow> (HasFailed, finish now Failed True r)
      | Some t \<Rightarrow>
          if \<not> still_wanted stored t (mr_user r)
          then (WasSkipped, finish now Skipped (is_sensitive t) r)
          else case transport of
            None \<Rightarrow> (WasSkipped, finish now Skipped (is_sensitive t) r)
          | Some send \<Rightarrow>
              (case send r of
                 Delivered \<Rightarrow> (WasSent, finish now Sent (is_sensitive t) r)
               | Refused p \<Rightarrow>
                   if p \<or> mr_attempts r \<ge> MAX_ATTEMPTS
                   then (HasFailed, finish now Failed (is_sensitive t) r)
                   else (Retrying, r\<lparr>mr_status := Pending, mr_locked_at := None,
                           mr_scheduled_at := now + backoff (mr_attempts r)\<rparr>)))"

definition release_stale :: "time \<Rightarrow> mail_row \<Rightarrow> mail_row" where
  "release_stale now r =
     (if mr_status r = Sending \<and> is_some_and (mr_locked_at r) (\<lambda>l. l < now - minutes STALE_LOCK_MINUTES)
      then r\<lparr>mr_status := Pending, mr_locked_at := None\<rparr> else r)"

definition sent_last_hour :: "time \<Rightarrow> mail_row list \<Rightarrow> nat" where
  "sent_last_hour now rows =
     length (filter (\<lambda>r. mr_status r = Sent \<and> mr_priority r > 0
       \<and> is_some_and (mr_sent_at r) (\<lambda>t. t > now - minutes 60)) rows)"

text \<open>The due messages a batch takes; \<open>None\<close> is no limit on the priority.\<close>

definition claimable :: "time \<Rightarrow> int option \<Rightarrow> mail_row list \<Rightarrow> mail_row list" where
  "claimable now max_priority rows =
     take BATCH_SIZE (sort_key mr_priority (sort_key mr_scheduled_at
       (filter (\<lambda>r. mr_status r = Pending \<and> mr_scheduled_at r \<le> now
                  \<and> is_none_or max_priority (\<lambda>m. mr_priority r \<le> m)) rows)))"

definition claim :: "time \<Rightarrow> mail_row \<Rightarrow> mail_row" where
  "claim now r =
     r\<lparr>mr_status := Sending, mr_locked_at := Some now, mr_attempts := mr_attempts r + 1\<rparr>"

text \<open>The messages a batch claims, and the outbox while they are being sent.\<close>

definition claim_batch :: "time \<Rightarrow> nat \<Rightarrow> mail_row list \<Rightarrow> uuid list \<times> mail_row list" where
  "claim_batch now cap rows0 =
     (let rows = map (release_stale now) rows0;
          max_priority = (if sent_last_hour now rows \<ge> cap then Some SECURITY else None);
          ids = map mr_id (claimable now max_priority rows)
      in (ids, map (\<lambda>r. if mr_id r \<in> set ids then claim now r else r) rows))"

definition process_batch ::
  "time \<Rightarrow> nat \<Rightarrow> (uuid \<Rightarrow> json option) \<Rightarrow> (mail_row \<Rightarrow> answer) option \<Rightarrow> mail_row list
     \<Rightarrow> delivery list \<times> mail_row list"
where
  "process_batch now cap stored transport rows0 =
     (let (ids, rows) = claim_batch now cap rows0;
          claimed = sort_key mr_priority (sort_key mr_id (filter (\<lambda>r. mr_id r \<in> set ids) rows))
      in (map (\<lambda>r. fst (deliver now stored transport r)) claimed,
          map (\<lambda>r. if mr_id r \<in> set ids then snd (deliver now stored transport r) else r) rows))"

text \<open>The console: sending a message again, and calling one off.\<close>

definition CODE_TEMPLATES :: "string list" where
  "CODE_TEMPLATES =
     [''email_verification_code'', ''password_reset_code'', ''email_change_code'', ''reauth_code'']"

definition retry_mail :: "uuid \<Rightarrow> time \<Rightarrow> mail_row list \<Rightarrow> mail_row list" where
  "retry_mail i now rows =
     map (\<lambda>r. if mr_id r = i \<and> (mr_status r = Failed \<or> mr_status r = Skipped)
                 \<and> mr_payload r \<noteq> None \<and> mr_template r \<notin> set CODE_TEMPLATES
              then r\<lparr>mr_status := Pending, mr_attempts := 0, mr_scheduled_at := now, mr_locked_at := None\<rparr>
              else r) rows"

definition cancel_mail :: "uuid \<Rightarrow> mail_row list \<Rightarrow> mail_row list" where
  "cancel_mail i rows =
     map (\<lambda>r. if mr_id r = i \<and> mr_status r = Pending
              then r\<lparr>mr_status := Skipped,
                     mr_payload := (if mr_template r \<in> set CODE_TEMPLATES then None else mr_payload r)\<rparr>
              else r) rows"

definition OUTBOX_RETENTION_DAYS :: int where
  "OUTBOX_RETENTION_DAYS = 30"

definition settled :: "mail_row \<Rightarrow> bool" where
  "settled r = (mr_status r = Sent \<or> mr_status r = Skipped \<or> mr_status r = Failed)"

definition cleanup_outbox :: "time \<Rightarrow> mail_row list \<Rightarrow> mail_row list" where
  "cleanup_outbox now rows =
     filter (\<lambda>r. \<not> (settled r \<and> mr_created_at r < now - days OUTBOX_RETENTION_DAYS)) rows"

end
