(* ===== verification/OutboxLaws.thy ===== *)
theory OutboxLaws
  imports Outbox
begin

text \<open>
  What the outbox guarantees: it drains, it never floods a mailbox with codes, and a message that
  was sent is done with, its code wiped.
\<close>

section \<open>Draining\<close>

text \<open>How many more attempts a message may take.\<close>

definition weight :: "mail_row \<Rightarrow> nat" where
  "weight r = (if settled r then 0 else nat (max 1 (MAX_ATTEMPTS - mr_attempts r)))"

definition backlog :: "mail_row list \<Rightarrow> nat" where
  "backlog rows = sum_list (map weight rows)"

text \<open>At the time \<open>T\<close> every open message is due, and no worker holds one or sent one in the last hour.\<close>

definition quiet :: "time \<Rightarrow> mail_row \<Rightarrow> bool" where
  "quiet T r \<longleftrightarrow> (settled r \<or> mr_scheduled_at r \<le> T)
     \<and> (mr_status r = Sending \<longrightarrow> is_some_and (mr_locked_at r) (\<lambda>l. l < T - minutes STALE_LOCK_MINUTES))
     \<and> is_none_or (mr_sent_at r) (\<lambda>s. s \<le> T - minutes 60)"

lemma quiet_later: "quiet T r \<Longrightarrow> T \<le> T' \<Longrightarrow> quiet T' r"
  by (auto simp: quiet_def is_some_and_def is_none_or_def split: option.splits)

lemma weight_0: "weight r = 0 \<longleftrightarrow> settled r"
  by (simp add: weight_def)

lemma backlog_settled: "backlog rows = 0 \<longleftrightarrow> list_all settled rows"
  by (simp add: backlog_def weight_0 list_all_iff)

lemma hour_pos: "0 < minutes 60"
  by (simp add: minutes_def seconds_def)

lemma finish_settled [simp]:
  "settled (finish now status w r) \<longleftrightarrow> status = Sent \<or> status = Skipped \<or> status = Failed"
  "mr_id (finish now status w r) = mr_id r" "mr_status (finish now status w r) = status"
  by (simp_all add: settled_def finish_def)

lemma backoff_bound: "backoff a \<le> minutes 60"
  by (simp add: backoff_def MAX_BACKOFF_SECS_def minutes_def seconds_def Let_def)

text \<open>What becomes of a claimed message: it is settled, or goes back with one attempt less to take.\<close>

lemma deliver_cases:
  "(\<exists>status w. snd (deliver now stored transport r) = finish now status w r
      \<and> (status = Sent \<or> status = Skipped \<or> status = Failed))
   \<or> snd (deliver now stored transport r)
        = r\<lparr>mr_status := Pending, mr_locked_at := None, mr_scheduled_at := now + backoff (mr_attempts r)\<rparr>
     \<and> mr_attempts r < MAX_ATTEMPTS"
proof (cases "mr_payload r")
  case None
  then show ?thesis unfolding deliver_def by auto
next
  case (Some t)
  then show ?thesis
    unfolding deliver_def by (cases transport; cases "the transport r") auto
qed

lemma deliver_id [simp]: "mr_id (snd (deliver now stored transport r)) = mr_id r"
  using deliver_cases [of now stored transport r] by auto

lemma claim_fields [simp]:
  "mr_id (claim now r) = mr_id r" "mr_attempts (claim now r) = mr_attempts r + 1"
  "mr_sent_at (claim now r) = mr_sent_at r"
  by (simp_all add: claim_def)

lemma deliver_lighter:
  assumes "\<not> settled r"
  shows "weight (snd (deliver now stored transport (claim now r))) < weight r"
  using deliver_cases [of now stored transport "claim now r"] assms by (auto simp: weight_def)

lemma finish_quiet:
  assumes "is_none_or (mr_sent_at r) (\<lambda>s. s \<le> T)" and "T + minutes 60 \<le> T'"
    and "status = Sent \<or> status = Skipped \<or> status = Failed"
  shows "quiet T' (finish T status w r)"
proof -
  have "is_none_or (mr_sent_at (finish T status w r)) (\<lambda>s. s \<le> T' - minutes 60)"
    using assms(1,2) by (auto simp: finish_def is_none_or_def split: option.splits)
  with assms(3) show ?thesis by (auto simp: quiet_def)
qed

lemma deliver_quiet:
  assumes "quiet T r" and "T + minutes 60 \<le> T'"
  shows "quiet T' (snd (deliver T stored transport (claim T r)))"
proof -
  have sent: "is_none_or (mr_sent_at (claim T r)) (\<lambda>s. s \<le> T - minutes 60)"
    using assms(1) by (simp add: quiet_def)
  then have "is_none_or (mr_sent_at (claim T r)) (\<lambda>s. s \<le> T)"
    using hour_pos by (auto simp: is_none_or_def split: option.splits)
  note finished = finish_quiet [OF this assms(2)]
  have "is_none_or (mr_sent_at (claim T r)) (\<lambda>s. s \<le> T' - minutes 60)"
    using sent assms(2) hour_pos by (auto simp: is_none_or_def split: option.splits)
  then have "quiet T' ((claim T r)\<lparr>mr_status := Pending, mr_locked_at := None,
      mr_scheduled_at := T + backoff (mr_attempts (claim T r))\<rparr>)"
    using backoff_bound [of "mr_attempts (claim T r)"] assms(2) by (simp add: quiet_def)
  with finished deliver_cases [of T stored transport "claim T r"] show ?thesis by metis
qed

lemma release_fields [simp]:
  "mr_id (release_stale now r) = mr_id r" "weight (release_stale now r) = weight r"
  "settled (release_stale now r) = settled r" "mr_sent_at (release_stale now r) = mr_sent_at r"
  by (auto simp: release_stale_def weight_def settled_def)

lemma release_quiet:
  "quiet T r \<Longrightarrow> quiet T (release_stale T r)"
  "quiet T r \<Longrightarrow> \<not> settled r \<Longrightarrow> mr_status (release_stale T r) = Pending
     \<and> mr_scheduled_at (release_stale T r) \<le> T"
  by (cases "mr_status r"; auto simp: release_stale_def quiet_def settled_def)+

text \<open>A batch, message by message.\<close>

definition batch_row ::
  "time \<Rightarrow> uuid list \<Rightarrow> (uuid \<Rightarrow> json option) \<Rightarrow> (mail_row \<Rightarrow> answer) option \<Rightarrow> mail_row \<Rightarrow> mail_row"
where
  "batch_row now ids stored transport r =
     (if mr_id r \<in> set ids then snd (deliver now stored transport (claim now r)) else r)"

lemma process_batch_rows:
  "snd (process_batch now cap stored transport rows) =
     map (\<lambda>r. batch_row now (fst (claim_batch now cap rows)) stored transport (release_stale now r)) rows"
  by (simp add: process_batch_def claim_batch_def Let_def batch_row_def o_def if_distrib cong: if_cong)

lemma batch_row_id [simp]: "mr_id (batch_row now ids stored transport r) = mr_id r"
  by (simp add: batch_row_def)

lemma claimed_pending:
  assumes "distinct (map mr_id rows)" and "r \<in> set rows"
    and "mr_id r \<in> set (fst (claim_batch now cap rows))"
  shows "mr_status (release_stale now r) = Pending"
proof -
  from assms(3) obtain r' where "r' \<in> set rows" "mr_id r' = mr_id r"
    "mr_status (release_stale now r') = Pending"
    by (auto simp: claim_batch_def Let_def claimable_def dest!: in_set_takeD)
  with assms(1,2) show ?thesis by (metis distinct_map inj_onD)
qed

lemma batch_lighter:
  assumes "distinct (map mr_id rows)" and "r \<in> set rows"
    and ids: "ids = fst (claim_batch now cap rows)"
  shows "weight (batch_row now ids stored transport (release_stale now r)) \<le> weight r
    \<and> (mr_id r \<in> set ids \<longrightarrow> weight (batch_row now ids stored transport (release_stale now r)) < weight r)"
proof (cases "mr_id r \<in> set ids")
  case False
  then show ?thesis by (simp add: batch_row_def)
next
  case True
  with assms claimed_pending have "\<not> settled (release_stale now r)" by (simp add: settled_def)
  from deliver_lighter [OF this, of now stored transport] True show ?thesis
    by (simp add: batch_row_def less_imp_le)
qed

lemma quiet_batch_claims:
  assumes "\<forall>r \<in> set rows. quiet T r" and "0 < cap" and "\<not> list_all settled rows"
  shows "\<exists>r \<in> set rows. mr_id r \<in> set (fst (claim_batch T cap rows))"
proof -
  define rows' where "rows' = map (release_stale T) rows"
  define due where "due = filter (\<lambda>r. mr_status r = Pending \<and> mr_scheduled_at r \<le> T) rows'"
  have "filter (\<lambda>r. mr_status r = Sent \<and> 0 < mr_priority r
      \<and> is_some_and (mr_sent_at r) (\<lambda>t. T - minutes 60 < t)) rows' = []"
    using assms(1) by (auto simp: rows'_def filter_empty_conv quiet_def is_some_and_def is_none_or_def
        split: option.splits)
  then have "sent_last_hour T rows' = 0" by (simp add: sent_last_hour_def)
  with assms(2) have ids: "fst (claim_batch T cap rows)
      = map mr_id (take BATCH_SIZE (sort_key mr_priority (sort_key mr_scheduled_at due)))"
    by (simp add: claim_batch_def Let_def rows'_def [symmetric] claimable_def due_def)
  from assms(3) obtain r where r: "r \<in> set rows" "\<not> settled r" by (auto simp: list_all_iff)
  then have "release_stale T r \<in> set due"
    using release_quiet(2) [of T r] assms(1) by (simp add: due_def rows'_def)
  then have "sort_key mr_priority (sort_key mr_scheduled_at due) \<noteq> []"
    by (metis list.set(1) empty_iff set_sort)
  then obtain r' where r': "r' \<in> set (take BATCH_SIZE (sort_key mr_priority (sort_key mr_scheduled_at due)))"
    by (cases "sort_key mr_priority (sort_key mr_scheduled_at due)") (auto simp: BATCH_SIZE_def)
  then have "r' \<in> set due" by (auto dest!: in_set_takeD)
  then obtain r0 where "r0 \<in> set rows" "mr_id r0 = mr_id r'" by (auto simp: due_def rows'_def)
  with r' show ?thesis unfolding ids by (metis image_eqI set_map)
qed

lemma sum_list_less:
  fixes f g :: "'a \<Rightarrow> nat"
  assumes "\<And>x. x \<in> set xs \<Longrightarrow> f x \<le> g x" and "x \<in> set xs" and "f x < g x"
  shows "sum_list (map f xs) < sum_list (map g xs)"
  using assms
proof (induction xs)
  case (Cons y ys)
  have le: "sum_list (map f ys) \<le> sum_list (map g ys)" using Cons.prems(1) by (intro sum_list_mono) auto
  show ?case
  proof (cases "y = x")
    case True
    with Cons.prems(3) le show ?thesis by simp
  next
    case False
    with Cons have "sum_list (map f ys) < sum_list (map g ys)" by auto
    with Cons.prems(1) [of y] show ?thesis by simp
  qed
qed simp

lemma batch_progress:
  assumes "distinct (map mr_id rows)" and "\<forall>r \<in> set rows. quiet T r" and "0 < cap"
  shows "backlog (snd (process_batch T cap stored transport rows)) \<le> backlog rows - 1"
proof (cases "list_all settled rows")
  case True
  have "weight (batch_row T ids stored transport (release_stale T r)) = 0"
    if "r \<in> set rows" "ids = fst (claim_batch T cap rows)" for r ids
    using batch_lighter [OF assms(1) that] True that(1) by (simp add: weight_def list_all_iff)
  then have "backlog (snd (process_batch T cap stored transport rows)) = 0"
    by (simp add: backlog_def process_batch_rows)
  then show ?thesis by simp
next
  case False
  from quiet_batch_claims [OF assms(2,3) this] obtain r where
    r: "r \<in> set rows" "mr_id r \<in> set (fst (claim_batch T cap rows))" by blast
  have "backlog (snd (process_batch T cap stored transport rows)) < backlog rows"
    unfolding backlog_def process_batch_rows map_map o_def
    using batch_lighter [OF assms(1) _ refl] r by (intro sum_list_less [of _ _ _ r]) auto
  then show ?thesis by simp
qed

lemma batch_quiet:
  assumes "\<forall>r \<in> set rows. quiet T r" and "T + minutes 60 \<le> T'"
  shows "\<forall>r \<in> set (snd (process_batch T cap stored transport rows)). quiet T' r"
proof -
  have "quiet T' (batch_row T ids stored transport (release_stale T r))" if "quiet T r" for ids r
    using deliver_quiet [OF release_quiet(1) [OF that] assms(2)]
      quiet_later [OF release_quiet(1) [OF that], of T'] assms(2)
    by (auto simp: batch_row_def minutes_def seconds_def)
  with assms(1) show ?thesis by (auto simp: process_batch_rows)
qed

text \<open>Times an hour or more apart, the first not before \<open>T\<close>.\<close>

fun spaced :: "time \<Rightarrow> time list \<Rightarrow> bool" where
  "spaced T [] = True"
| "spaced T (t # ts) = (T \<le> t \<and> spaced (t + minutes 60) ts)"

definition run_batches ::
  "nat \<Rightarrow> (uuid \<Rightarrow> json option) \<Rightarrow> (time \<times> (mail_row \<Rightarrow> answer) option) list \<Rightarrow> mail_row list \<Rightarrow> mail_row list"
where
  "run_batches cap stored runs rows =
     foldl (\<lambda>rows (now, transport). snd (process_batch now cap stored transport rows)) rows runs"


definition queued :: "uuid \<Rightarrow> email_template \<Rightarrow> mail_row" where
  "queued i t = new_mail i 0 \<lparr>og_user = Some 1, og_to = ''a@b.c'', og_template = t\<rparr>"


section \<open>The outbox over time\<close>

text \<open>
  What happens to the outbox, the clock never going back: a message or bulk mail is queued, a
  worker sends a batch or dies in the middle of one (having handled only some of its messages),
  staff send a message again or call one off.
\<close>

definition is_bulk :: "email_template \<Rightarrow> bool" where
  "is_bulk t = (t = ReleaseNotes \<or> (\<exists>level. t = AnnouncementMail level))"

inductive outbox_step :: "time \<times> mail_row list \<Rightarrow> time \<times> mail_row list \<Rightarrow> bool" where
  queue: "\<lbrakk>T \<le> now; i \<notin> mr_id ` set rows\<rbrakk>
    \<Longrightarrow> outbox_step (T, rows) (now, snd (enqueue i now email rows))"
| bulk: "\<lbrakk>T \<le> now; distinct (map fst emails); set (map fst emails) \<inter> mr_id ` set rows = {};
      \<forall>(_, e) \<in> set emails. is_bulk (og_template e)\<rbrakk>
    \<Longrightarrow> outbox_step (T, rows) (now, enqueue_many now emails rows)"
| batch: "T \<le> now \<Longrightarrow> outbox_step (T, rows) (now, snd (process_batch now cap stored transport rows))"
| crash: "T \<le> now \<Longrightarrow> claim_batch now cap rows = (ids, claimed)
    \<Longrightarrow> outbox_step (T, rows)
          (now, map (\<lambda>r. if mr_id r \<in> set ids \<and> handled (mr_id r)
                         then snd (deliver now stored transport r) else r) claimed)"
| again: "T \<le> now \<Longrightarrow> outbox_step (T, rows) (now, retry_mail i now rows)"
| called_off: "T \<le> now \<Longrightarrow> outbox_step (T, rows) (now, cancel_mail i rows)"

text \<open>What is fixed when a message is queued.\<close>

definition label :: "mail_row \<Rightarrow> uuid \<times> string \<times> string \<times> time" where
  "label r = (mr_id r, mr_canonical r, mr_template r, mr_created_at r)"

definition mail_ok :: "mail_row \<Rightarrow> bool" where
  "mail_ok r \<longleftrightarrow>
     (\<forall>t. mr_payload r = Some t \<longrightarrow> mr_template r = template_name t)
     \<and> (settled r \<longrightarrow> mr_template r \<in> set CODE_TEMPLATES \<longrightarrow> mr_payload r = None)"

text \<open>How a step changes one message: a sent one not at all, an open one only in its state.\<close>

definition handled_as :: "mail_row \<Rightarrow> mail_row \<Rightarrow> bool" where
  "handled_as r r' \<longleftrightarrow> label r' = label r \<and> (mr_status r = Sent \<longrightarrow> r' = r) \<and> (mail_ok r \<longrightarrow> mail_ok r')"

lemma handled_as_refl: "handled_as r r"
  by (simp add: handled_as_def)

lemma handled_as_trans: "handled_as r s \<Longrightarrow> handled_as s t \<Longrightarrow> handled_as r t"
  by (auto simp: handled_as_def)

lemma sensitive_names: "is_sensitive t \<longleftrightarrow> template_name t \<in> set CODE_TEMPLATES"
  by (cases t) (simp_all add: CODE_TEMPLATES_def)

lemma handled_release: "handled_as r (release_stale now r)"
  by (auto simp: handled_as_def release_stale_def label_def mail_ok_def settled_def)

lemma handled_claim: "mr_status r = Pending \<Longrightarrow> handled_as r (claim now r)"
  by (auto simp: handled_as_def claim_def label_def mail_ok_def settled_def)

lemma handled_deliver:
  assumes "mr_status r \<noteq> Sent"
  shows "handled_as r (snd (deliver now stored transport r))"
proof (cases "mr_payload r")
  case None
  with assms show ?thesis
    by (simp add: deliver_def handled_as_def label_def mail_ok_def finish_def)
next
  case (Some t)
  have "handled_as r (finish now status (is_sensitive t) r)" if "mr_payload r = Some t" for status
    using assms that sensitive_names [of t]
    by (auto simp: handled_as_def label_def mail_ok_def finish_def)
  moreover have "handled_as r (r\<lparr>mr_status := Pending, mr_locked_at := None, mr_scheduled_at := at\<rparr>)" for at
    using assms by (auto simp: handled_as_def label_def mail_ok_def settled_def)
  ultimately show ?thesis
    using Some by (simp add: deliver_def split: option.split answer.split)
qed

text \<open>A step handles the messages that are there, and may add new ones after them.\<close>

definition carries_on :: "mail_row list \<Rightarrow> mail_row list \<Rightarrow> bool" where
  "carries_on rows rows' \<longleftrightarrow> (\<exists>old new. rows' = old @ new \<and> list_all2 handled_as rows old)"

lemma handled_map:
  "(\<And>r. r \<in> set rows \<Longrightarrow> handled_as r (f r)) \<Longrightarrow> list_all2 handled_as rows (map f rows)"
  by (simp add: list_all2_map2 list_all2_same)

lemma handled_carries_on: "list_all2 handled_as rows rows' \<Longrightarrow> carries_on rows rows'"
  unfolding carries_on_def by (intro exI [of _ rows'] exI [of _ "[]"]) simp

lemma handled_labels:
  assumes "list_all2 handled_as rows rows'"
  shows "map label rows' = map label rows"
  using assms by (induction rule: list_all2_induct) (auto simp: handled_as_def)

lemma handled_mail_ok:
  assumes "list_all2 handled_as rows rows'" and "list_all mail_ok rows"
  shows "list_all mail_ok rows'"
  using assms by (induction rule: list_all2_induct) (auto simp: handled_as_def)

lemma carries_on_append: "carries_on rows (rows @ new)"
  unfolding carries_on_def
  by (intro exI [of _ rows] exI [of _ new]) (simp add: list.rel_refl handled_as_refl)

lemma carries_on_trans:
  assumes "carries_on rows rows'" and "carries_on rows' rows''"
  shows "carries_on rows rows''"
proof -
  from assms obtain old new old' new' where rows: "rows' = old @ new" "list_all2 handled_as rows old"
    "rows'' = old' @ new'" "list_all2 handled_as rows' old'"
    by (auto simp: carries_on_def)
  then obtain a b where ab: "old' = a @ b" "list_all2 handled_as old a"
    by (auto simp: list_all2_append1)
  have "list_all2 handled_as rows a"
    by (rule list_all2_trans [OF _ rows(2) ab(2)]) (rule handled_as_trans)
  with rows(3) ab(1) show ?thesis by (auto simp: carries_on_def)
qed

text \<open>A claimed message of the batch is handled, the others wait.\<close>

lemma batch_handles:
  assumes "distinct (map mr_id rows)" and "claim_batch now cap rows = (ids, claimed)"
  shows "list_all2 handled_as rows (map (\<lambda>r. if mr_id r \<in> set ids \<and> handled (mr_id r)
           then snd (deliver now stored transport r) else r) claimed)"
proof -
  have claimed: "claimed = map (\<lambda>r. if mr_id r \<in> set ids then claim now r else r) (map (release_stale now) rows)"
    using assms(2) by (auto simp: claim_batch_def Let_def)
  let ?f = "\<lambda>r. if mr_id r \<in> set ids \<and> handled (mr_id r)
    then snd (deliver now stored transport (claim now (release_stale now r)))
    else if mr_id r \<in> set ids then claim now (release_stale now r) else release_stale now r"
  have "handled_as r (?f r)" if r: "r \<in> set rows" for r
  proof (cases "mr_id r \<in> set ids")
    case False
    then show ?thesis by (simp add: handled_release)
  next
    case True
    with assms(2) have "mr_id r \<in> set (fst (claim_batch now cap rows))" by simp
    from handled_claim [OF claimed_pending [OF assms(1) r this], of now]
    have c: "handled_as r (claim now (release_stale now r))"
      using handled_release handled_as_trans by blast
    have "mr_status (claim now (release_stale now r)) \<noteq> Sent" by (simp add: claim_def)
    from handled_as_trans [OF c handled_deliver [OF this]] c True show ?thesis by simp
  qed
  then have "list_all2 handled_as rows (map ?f rows)" by (rule handled_map)
  moreover have "map ?f rows = map (\<lambda>r. if mr_id r \<in> set ids \<and> handled (mr_id r)
           then snd (deliver now stored transport r) else r) claimed"
    unfolding claimed by (simp add: o_def)
  ultimately show ?thesis by simp
qed

lemma process_batch_claimed:
  "snd (process_batch now cap stored transport rows) =
     (let (ids, claimed) = claim_batch now cap rows
      in map (\<lambda>r. if mr_id r \<in> set ids \<and> True then snd (deliver now stored transport r) else r) claimed)"
  by (simp add: process_batch_def split_beta Let_def)

lemma batch_handles_all:
  "distinct (map mr_id rows)
     \<Longrightarrow> list_all2 handled_as rows (snd (process_batch now cap stored transport rows))"
  using batch_handles [of rows now cap _ _ "\<lambda>_. True"]
  by (simp add: process_batch_claimed split_beta)

lemma retry_handles: "list_all2 handled_as rows (retry_mail i now rows)"
  unfolding retry_mail_def
  by (intro handled_map) (auto simp: handled_as_def label_def mail_ok_def settled_def)

lemma cancel_handles: "list_all2 handled_as rows (cancel_mail i rows)"
  unfolding cancel_mail_def
  by (intro handled_map) (auto simp: handled_as_def label_def mail_ok_def settled_def)

section \<open>The invariant\<close>

definition outbox_ok :: "time \<times> mail_row list \<Rightarrow> bool" where
  "outbox_ok w \<longleftrightarrow> distinct (map mr_id (snd w)) \<and> (\<forall>r \<in> set (snd w). mail_ok r \<and> mr_created_at r \<le> fst w)
     \<and> (\<forall>canonical name cap. recipient_daily_cap name = Some cap
          \<longrightarrow> spread cap DAY (map mr_created_at (sent_to canonical name (snd w))))"

lemma spread_append:
  assumes "spread m w H" and "\<forall>h \<in> set H. h \<le> now" and "length (filter (\<lambda>h. h > now - w) H) < m"
  shows "spread m w (H @ [now])"
  unfolding spread_def
proof
  fix t
  show "length (within t w (H @ [now])) \<le> m"
  proof (cases "t < now")
    case True
    then have "within t w (H @ [now]) = within t w H" by (simp add: within_def)
    with assms(1) show ?thesis by (simp add: spread_def)
  next
    case False
    have "length (within t w H) \<le> length (filter (\<lambda>h. h > now - w) H)"
      using False unfolding within_def by (induction H) auto
    with assms(3) False show ?thesis by (simp add: within_def)
  qed
qed

text \<open>The labels of the rows say who was sent what and when.\<close>

definition sends :: "string \<Rightarrow> string \<Rightarrow> (uuid \<times> string \<times> string \<times> time) list \<Rightarrow> time list" where
  "sends canonical name labels =
     map (\<lambda>(_, _, _, t). t) (filter (\<lambda>(_, c, n, _). c = canonical \<and> n = name) labels)"

lemma sends_append [simp]: "sends c n (xs @ ys) = sends c n xs @ sends c n ys"
  by (simp add: sends_def)

lemma sends_labels: "map mr_created_at (sent_to c n rows) = sends c n (map label rows)"
  by (induction rows) (simp_all add: sends_def sent_to_def label_def)

lemma label_ids: "map mr_id rs = map fst (map label rs)"
  by (simp add: label_def o_def)

lemma label_times: "mr_created_at ` set rs = (\<lambda>(_, _, _, t). t) ` set (map label rs)"
  by (simp add: label_def image_image)

lemma outbox_ok_handled:
  assumes "list_all2 handled_as rows rows'" and "outbox_ok (T, rows)" and "T \<le> now"
  shows "outbox_ok (now, rows')"
proof -
  note labels = handled_labels [OF assms(1)]
  have "map mr_id rows' = map mr_id rows" by (simp only: label_ids labels)
  moreover have "list_all mail_ok rows'"
    using handled_mail_ok [OF assms(1)] assms(2) by (simp add: outbox_ok_def list_all_iff)
  moreover have "mr_created_at ` set rows' = mr_created_at ` set rows" by (simp only: label_times labels)
  then have "\<forall>t \<in> mr_created_at ` set rows'. t \<le> now"
    using assms(2,3) by (auto simp: outbox_ok_def)
  ultimately show ?thesis
    using assms(2) by (simp add: outbox_ok_def sends_labels labels list_all_iff)
qed

lemma new_mail_fields [simp]:
  "mr_id (new_mail i now e) = i" "mr_created_at (new_mail i now e) = now"
  "mr_template (new_mail i now e) = template_name (og_template e)" "mail_ok (new_mail i now e)"
  by (simp_all add: new_mail_def Let_def mail_ok_def settled_def)

lemma bulk_uncapped: "is_bulk t \<Longrightarrow> recipient_daily_cap (template_name t) = None"
  by (auto simp: is_bulk_def recipient_daily_cap_def)

lemma outbox_ok_queue:
  assumes ok: "outbox_ok (T, rows)" and now: "T \<le> now" and fresh: "i \<notin> mr_id ` set rows"
  shows "outbox_ok (now, snd (enqueue i now email rows))"
proof (cases "fst (enqueue i now email rows)")
  case False
  then have "snd (enqueue i now email rows) = rows" by (auto simp: enqueue_def Let_def split: if_splits)
  then show ?thesis
    using outbox_ok_handled [OF list.rel_refl ok now] handled_as_refl by auto
next
  case True
  let ?row = "new_mail i now email"
  from True have rows': "snd (enqueue i now email rows) = rows @ [?row]"
    and room: "is_none_or (recipient_daily_cap (mr_template ?row)) (\<lambda>cap. length (filter (\<lambda>r.
      mr_created_at r > now - DAY) (sent_to (mr_canonical ?row) (mr_template ?row) rows)) < cap)"
    by (auto simp: enqueue_def Let_def split: if_splits)
  have "spread cap DAY (map mr_created_at (sent_to c n (rows @ [?row])))"
    if cap: "recipient_daily_cap n = Some cap" for c n cap
  proof (cases "mr_canonical ?row = c \<and> mr_template ?row = n")
    case False
    then have "sent_to c n (rows @ [?row]) = sent_to c n rows" by (auto simp: sent_to_def)
    then show ?thesis using ok cap by (simp add: outbox_ok_def)
  next
    case True
    have "spread cap DAY (map mr_created_at (sent_to c n rows))" using ok cap by (simp add: outbox_ok_def)
    moreover have "\<forall>h \<in> set (map mr_created_at (sent_to c n rows)). h \<le> now"
      using ok now by (auto simp: outbox_ok_def sent_to_def)
    moreover have "length (filter (\<lambda>h. h > now - DAY) (map mr_created_at (sent_to c n rows))) < cap"
      using room cap True by (simp add: is_none_or_def filter_map o_def)
    ultimately have "spread cap DAY (map mr_created_at (sent_to c n rows) @ [now])" by (rule spread_append)
    then show ?thesis using True by (simp add: sent_to_def)
  qed
  with ok now fresh show ?thesis
    unfolding rows' by (auto simp: outbox_ok_def)
qed

lemma outbox_ok_bulk:
  assumes ok: "outbox_ok (T, rows)" and now: "T \<le> now" and "distinct (map fst emails)"
    and "set (map fst emails) \<inter> mr_id ` set rows = {}"
    and "\<forall>(_, e) \<in> set emails. is_bulk (og_template e)"
  shows "outbox_ok (now, enqueue_many now emails rows)"
proof -
  have "sent_to c n (map (\<lambda>(i, e). new_mail i now e) emails) = []"
    if "recipient_daily_cap n = Some cap" for c n cap
    using assms(5) that by (fastforce simp: sent_to_def filter_empty_conv dest!: bulk_uncapped)
  moreover have "map mr_id (map (\<lambda>(i, e). new_mail i now e) emails) = map fst emails"
    by (simp add: o_def split_beta)
  moreover have "sent_to c n (rows @ more) = sent_to c n rows @ sent_to c n more" for c n more
    by (simp add: sent_to_def)
  ultimately show ?thesis
    using ok now assms(3,4) by (auto simp: outbox_ok_def enqueue_many_def simp del: map_map)
qed

lemma outbox_steps:
  assumes "outbox_step w w'" and "outbox_ok w"
  shows "outbox_ok w' \<and> carries_on (snd w) (snd w')"
  using assms
proof (induction rule: outbox_step.induct)
  case (queue T now i rows email)
  then have "outbox_ok (now, snd (enqueue i now email rows))" by (intro outbox_ok_queue)
  moreover have "carries_on rows (snd (enqueue i now email rows))"
    using carries_on_append [of rows] carries_on_append [of rows "[]"] by (simp add: enqueue_def Let_def)
  ultimately show ?case by simp
next
  case (bulk T now emails rows)
  then have "outbox_ok (now, enqueue_many now emails rows)" by (intro outbox_ok_bulk)
  then show ?case by (simp add: enqueue_many_def carries_on_append)
next
  case (batch T now rows cap stored transport)
  then have "list_all2 handled_as rows (snd (process_batch now cap stored transport rows))"
    by (intro batch_handles_all) (simp add: outbox_ok_def)
  with batch show ?case by (simp add: outbox_ok_handled handled_carries_on)
next
  case (crash T now cap rows ids claimed handled stored transport)
  then have "list_all2 handled_as rows (map (\<lambda>r. if mr_id r \<in> set ids \<and> handled (mr_id r)
           then snd (deliver now stored transport r) else r) claimed)"
    by (intro batch_handles [of rows now cap]) (simp_all add: outbox_ok_def)
  with crash show ?case by (simp add: outbox_ok_handled handled_carries_on)
next
  case (again T now rows i)
  with outbox_ok_handled [OF retry_handles] handled_carries_on [OF retry_handles] show ?case by simp
next
  case (called_off T now rows i)
  with outbox_ok_handled [OF cancel_handles] handled_carries_on [OF cancel_handles] show ?case by simp
qed

lemma outbox_run:
  assumes "outbox_step\<^sup>*\<^sup>* w w'" and "outbox_ok w"
  shows "outbox_ok w' \<and> carries_on (snd w) (snd w')"
  using assms
proof (induction rule: rtranclp_induct)
  case base
  then show ?case using carries_on_append [of "snd w" "[]"] by simp
next
  case (step w' w'')
  then show ?case using outbox_steps carries_on_trans by blast
qed

lemma empty_outbox: "outbox_ok (T, [])"
  by (simp add: outbox_ok_def sent_to_def spread_def within_def)


definition test_code :: outgoing_email where
  "test_code = \<lparr>og_user = None, og_to = ''A@b.c'', og_template = EmailChangeCode ''123456''\<rparr>"


text \<open>
  What was sent stays sent: whatever happens later, a message marked as sent is never claimed,
  sent again or changed, and no message that is done with (sent, skipped or given up on) still
  holds the code it carried.
\<close>

theorem sent_mail_is_final:
  assumes "outbox_step\<^sup>*\<^sup>* (T\<^sub>0, []) (T, rows)" and "outbox_step\<^sup>*\<^sup>* (T, rows) (T', rows')"
  shows "(\<forall>k < length rows. mr_status (rows ! k) = Sent \<longrightarrow> k < length rows' \<and> rows' ! k = rows ! k)
    \<and> (\<forall>r \<in> set rows'. settled r \<longrightarrow> mr_template r \<in> set CODE_TEMPLATES \<longrightarrow> mr_payload r = None)"
proof -
  from outbox_run [OF assms(1) empty_outbox] have "outbox_ok (T, rows)" by simp
  from outbox_run [OF assms(2) this] have ok: "outbox_ok (T', rows')" and "carries_on rows rows'" by simp_all
  then obtain old new where "rows' = old @ new" "list_all2 handled_as rows old"
    by (auto simp: carries_on_def)
  then have "\<forall>k < length rows. mr_status (rows ! k) = Sent \<longrightarrow> k < length rows' \<and> rows' ! k = rows ! k"
    by (auto simp: list_all2_conv_all_nth nth_append handled_as_def)
  with ok show ?thesis by (auto simp: outbox_ok_def mail_ok_def)
qed

definition sent_code :: "mail_row list" where
  "sent_code = snd (process_batch 0 5 (\<lambda>_. None) (Some (\<lambda>_. Delivered)) (snd (enqueue 1 0 test_code [])))"

theorem sent_mail_is_final_witness:
  "map mr_status sent_code = [Sent] \<and> retry_mail 1 9 sent_code ! 0 = sent_code ! 0
   \<and> map mr_payload (retry_mail 1 9 sent_code) = [None]"
proof -
  have sent: "map mr_status sent_code = [Sent]" "length (retry_mail 1 9 sent_code) = 1"
    "settled (retry_mail 1 9 sent_code ! 0)" "mr_template (retry_mail 1 9 sent_code ! 0) \<in> set CODE_TEMPLATES"
    by code_simp+
  have queue: "outbox_step (0, []) (0, snd (enqueue 1 0 test_code []))"
    by (rule outbox_step.queue) simp_all
  have batch: "outbox_step (0, snd (enqueue 1 0 test_code [])) (0, sent_code)"
    unfolding sent_code_def by (rule outbox_step.batch) simp
  have again: "outbox_step (0, sent_code) (9, retry_mail 1 9 sent_code)"
    by (rule outbox_step.again) simp
  have "outbox_step\<^sup>*\<^sup>* (0, []) (0, sent_code)" using queue batch by (meson rtranclp.simps)
  moreover have "outbox_step\<^sup>*\<^sup>* (0, sent_code) (9, retry_mail 1 9 sent_code)"
    using again by (rule r_into_rtranclp)
  ultimately have final: "(\<forall>k < length sent_code. mr_status (sent_code ! k) = Sent
        \<longrightarrow> k < length (retry_mail 1 9 sent_code) \<and> retry_mail 1 9 sent_code ! k = sent_code ! k)
      \<and> (\<forall>r \<in> set (retry_mail 1 9 sent_code). settled r
        \<longrightarrow> mr_template r \<in> set CODE_TEMPLATES \<longrightarrow> mr_payload r = None)"
    by (rule sent_mail_is_final)
  from sent(1) obtain r where r: "sent_code = [r]" "mr_status r = Sent" by (auto simp: map_eq_Cons_conv)
  from sent(2) obtain r' where r': "retry_mail 1 9 sent_code = [r']" by (auto simp: length_Suc_conv)
  from final [THEN conjunct1, THEN spec [of _ 0]] have "r' = r"
    unfolding r' unfolding r using r(2) by simp
  moreover from final [THEN conjunct2] sent(3,4) have "mr_payload r' = None"
    unfolding r' by simp
  ultimately show ?thesis unfolding r' unfolding r using r(2) by simp
qed

end
