(* ===== verification/Passwords.thy ===== *)
theory Passwords
  imports Decimal Errors
begin

text \<open>
  The password policy, from \<^verbatim>\<open>src/src/validations/password.rs\<close>, and the checks of
  \<^verbatim>\<open>utils/hashing.rs\<close> that read a stored hash. Argon2, the Unicode normal form (crates
  argon2 and unicode\_normalization) and the answer of the breach service are parameters.
\<close>

section \<open>Characters\<close>

text \<open>\<open>char::is_lowercase\<close>, \<open>is_uppercase\<close>, \<open>is_numeric\<close> and \<open>is_alphanumeric\<close>, below U+0100.\<close>

definition is_lowercase :: "char \<Rightarrow> bool" where
  "is_lowercase c = (is_ascii_lowercase c \<or> code c = 170 \<or> code c = 181 \<or> code c = 186
     \<or> 223 \<le> code c \<and> code c \<noteq> 247)"

definition is_uppercase :: "char \<Rightarrow> bool" where
  "is_uppercase c = (is_ascii_uppercase c \<or> 192 \<le> code c \<and> code c \<le> 222 \<and> code c \<noteq> 215)"

definition is_numeric :: "char \<Rightarrow> bool" where
  "is_numeric c = (is_ascii_digit c \<or> code c = 178 \<or> code c = 179 \<or> code c = 185
     \<or> 188 \<le> code c \<and> code c \<le> 190)"

definition is_alphanumeric :: "char \<Rightarrow> bool" where
  "is_alphanumeric c = (is_lowercase c \<or> is_uppercase c \<or> is_numeric c)"

fun contains_word :: "string \<Rightarrow> string \<Rightarrow> bool" where
  "contains_word [] w = (w = [])"
| "contains_word (c # cs) w = (starts_with (c # cs) w \<or> contains_word cs w)"

section \<open>The policy\<close>

definition MIN_PASSWORD_LENGTH :: nat where
  "MIN_PASSWORD_LENGTH = 8"

definition MAX_PASSWORD_LENGTH :: nat where
  "MAX_PASSWORD_LENGTH = 128"

definition COMMON_PASSWORDS :: "string list" where
  "COMMON_PASSWORDS =
     [''password'', ''password1'', ''password1!'', ''password123'', ''password123!'',
      ''passw0rd'', ''passw0rd!'', ''p@ssw0rd'', ''p@ssword1'', ''p@ssw0rd1'', ''p@ssw0rd123'',
      ''qwerty123'', ''qwerty123!'', ''qwerty@123'', ''abc12345'', ''abc123456'', ''abcd1234'',
      ''abc@1234'', ''12345678'', ''123456789'', ''1234567890'', ''11111111'', ''iloveyou'',
      ''iloveyou1'', ''welcome1'', ''welcome1!'', ''welcome123'', ''welcome@123'', ''admin123'',
      ''admin@123'', ''admin123!'', ''letmein1'', ''letmein1!'', ''changeme'', ''changeme1'',
      ''changeme1!'', ''senha123'', ''senha@123'', ''senha123!'', ''mudar123'', ''mudar@123'',
      ''setlyst123'', ''setlyst@123'', ''setlyst123!'', ''football1'', ''baseball1'',
      ''sunshine1'', ''princess1'', ''dragon123'', ''monkey123'', ''master123'', ''summer2024!'',
      ''summer2025!'', ''summer2026!'', ''winter2025!'', ''winter2026!'', ''brasil123'',
      ''brasil@123'']"

definition password_issues :: "string \<Rightarrow> string option \<Rightarrow> string list" where
  "password_issues password username =
     map fst (filter snd
       [(''too_short'', length password < MIN_PASSWORD_LENGTH),
        (''too_long'', length password > MAX_PASSWORD_LENGTH),
        (''missing_lowercase'', \<not> list_ex is_lowercase password),
        (''missing_uppercase'', \<not> list_ex is_uppercase password),
        (''missing_digit'', \<not> list_ex is_numeric password),
        (''missing_symbol'', \<not> list_ex (\<lambda>c. \<not> is_alphanumeric c \<and> \<not> is_whitespace c) password),
        (''contains_username'',
           is_some_and (opt_filter (\<lambda>u. length u \<ge> 3) (map_option trim username))
             (\<lambda>u. contains_word (to_lowercase password) (to_lowercase u))),
        (''too_common'', to_lowercase password \<in> set COMMON_PASSWORDS)])"

definition is_password_compliant :: "string \<Rightarrow> string option \<Rightarrow> bool" where
  "is_password_compliant password username = (password_issues password username = [])"

text \<open>\<open>str::parse::<u64>\<close>.\<close>

definition parse_u64 :: "string \<Rightarrow> int option" where
  "parse_u64 s =
     (let d = (case s of [] \<Rightarrow> [] | c # cs \<Rightarrow> if c = CHR ''+'' then cs else s)
      in if d = [] \<or> \<not> list_all is_ascii_digit d \<or> parse_digits d \<ge> 2 ^ 64 then None
         else Some (parse_digits d))"

text \<open>\<open>range_lists_suffix\<close>: what the breach service answers for the first five hex digits.\<close>

definition range_lists_suffix :: "string \<Rightarrow> string \<Rightarrow> bool" where
  "range_lists_suffix body suffix =
     list_ex (\<lambda>line.
         case split_once (CHR '':'') (trim line) of
           None \<Rightarrow> False
         | Some (candidate, count) \<Rightarrow>
             is_some_and (parse_u64 (trim count)) (\<lambda>n. n > 0) \<and> eq_ignore_ascii_case candidate suffix)
       (str_lines body)"

text \<open>\<open>is_breached\<close>: \<open>ask\<close> is the answer of the service for a prefix, if there is one in time.\<close>

definition is_breached :: "(string \<Rightarrow> string) \<Rightarrow> (string \<Rightarrow> string) \<Rightarrow> (string \<Rightarrow> string option) \<Rightarrow> bool \<Rightarrow> string \<Rightarrow> bool"
where
  "is_breached nfkc sha1_hex ask enabled password =
     (if \<not> enabled then False
      else let digest = sha1_hex (nfkc password)
           in case ask (take 5 digest) of
                None \<Rightarrow> False
              | Some body \<Rightarrow> range_lists_suffix body (drop 5 digest))"

definition password_issues_checked :: "(string \<Rightarrow> bool) \<Rightarrow> string \<Rightarrow> string option \<Rightarrow> string list" where
  "password_issues_checked breached password username =
     (let issues = password_issues password username
      in if issues = [] \<and> breached password then [''breached''] else issues)"

section \<open>Stored hashes\<close>

text \<open>
  \<open>verify_password_upgrading\<close>: whether the stored hash should be replaced; \<open>None\<close> is a wrong
  password. \<open>matches\<close> is false for a stored hash that cannot be parsed.
\<close>

definition verify_password_upgrading ::
  "(string \<Rightarrow> string) \<Rightarrow> (string \<Rightarrow> string \<Rightarrow> bool) \<Rightarrow> string \<Rightarrow> string \<Rightarrow> api_error + bool"
where
  "verify_password_upgrading nfkc matches password stored =
     (if matches stored (nfkc password) then Inr False
      else if nfkc password \<noteq> password \<and> matches stored password then Inr True
      else Inl WrongPassword)"

definition verify_password ::
  "(string \<Rightarrow> string) \<Rightarrow> (string \<Rightarrow> string \<Rightarrow> bool) \<Rightarrow> string \<Rightarrow> string \<Rightarrow> api_error + unit"
where
  "verify_password nfkc matches password stored =
     rbind (verify_password_upgrading nfkc matches password stored) (\<lambda>_. Inr ())"

definition service_busy :: api_error where
  "service_busy = rule_with_meta 503 ''SERVICE_BUSY'' (JObj [(''retry_after_seconds'', JInt 5)])"

end
