(* ===== verification/Vault.thy ===== *)
theory Vault
  imports Passwords Totp ClientAddress Outbox Effects Maintenance
begin

text \<open>
  The account security tables (migration \<^verbatim>\<open>0002_account_security.sql\<close> and the security
  columns of \<open>users\<close>) and every statement on them, from
  \<^verbatim>\<open>src/src/database/repositories/security_repository.rs\<close> and the sign-in part of
  \<^verbatim>\<open>user_repository.rs\<close>. A statement, or a transaction under its lock, runs whole. New ids
  come from a counter. The \<open>users\<close> table is kept in two parts: the columns the billing reads (role,
  e-mail, its verification, creation) in the billing tables, the others here.
\<close>

section \<open>Tables\<close>

datatype purpose = EmailVerification | PasswordReset | EmailChange | Reauth

fun purpose_key :: "purpose \<Rightarrow> string" where
  "purpose_key EmailVerification = ''email_verification''"
| "purpose_key PasswordReset = ''password_reset''"
| "purpose_key EmailChange = ''email_change''"
| "purpose_key Reauth = ''reauth''"

record code_row =
  vc_id :: uuid
  vc_user :: uuid
  vc_purpose :: purpose
  vc_code_hash :: string
  vc_code_enc :: "string option"
  vc_target_email :: string
  vc_attempts :: int
  vc_failed_attempts :: int
  vc_expires_at :: time
  vc_consumed_at :: "time option"
  vc_created_at :: time

record request_row =
  vr_user :: uuid
  vr_purpose :: purpose
  vr_requester :: string
  vr_created_at :: time

record challenge_row =
  lc_id :: uuid
  lc_user :: uuid
  lc_token_hash :: string
  lc_method :: string
  lc_attempts :: int
  lc_expires_at :: time
  lc_consumed_at :: "time option"
  lc_pending_link :: "(string \<times> string) option"
  lc_created_at :: time

record recovery_row =
  rc_id :: uuid
  rc_user :: uuid
  rc_code_hash :: string
  rc_used_at :: "time option"

record identity_row =
  oi_user :: uuid
  oi_provider :: string
  oi_subject :: string
  oi_email :: "string option"
  oi_last_used_at :: time

record failure_row =
  lf_user :: uuid
  lf_bucket :: string
  lf_failures :: int
  lf_window_started_at :: time
  lf_locked_until :: "time option"

record factor_row =
  sf_user :: uuid
  sf_window_started_at :: time
  sf_failures :: int

record reauth_row =
  ra_user :: uuid
  ra_window_started_at :: time
  ra_failures :: int
  ra_day_started_at :: time
  ra_day_failures :: int

record login_account =
  ac_username :: string
  ac_status :: user_status
  ac_password_hash :: string
  ac_password_set :: bool
  ac_must_change_password :: bool
  ac_password_changed_at :: "time option"
  ac_token_version :: int
  ac_banned_at :: "time option"
  ac_banned_until :: "time option"
  ac_ban_reason :: "string option"
  ac_role_changed_at :: "time option"
  ac_email_first_verified_at :: "time option"
  ac_totp_secret_enc :: "string option"
  ac_totp_enabled_at :: "time option"
  ac_totp_pending_secret_enc :: "string option"
  ac_totp_pending_created_at :: "time option"
  ac_totp_last_step :: "int option"
  ac_failed_login_count :: int
  ac_locked_until :: "time option"
  ac_last_login_at :: "time option"
  ac_terms_version :: "string option"

record vault =
  va_db :: db
  va_accounts :: "(uuid \<times> login_account) list"
  va_codes :: "code_row list"
  va_requests :: "request_row list"
  va_challenges :: "challenge_row list"
  va_recovery :: "recovery_row list"
  va_identities :: "identity_row list"
  va_failures :: "failure_row list"
  va_factor :: "factor_row list"
  va_reauth :: "reauth_row list"
  va_trials :: "string list"
  va_outbox :: "mail_row list"
  va_alerts :: "(uuid \<times> string) list"
  va_maintenance :: maintenance_settings
  va_registrations_open :: bool
  va_blocked_domains :: "string list"
  va_next :: uuid

type_synonym 'a op = "(vault, api_error, 'a) eff"

text \<open>\<open>UPDATE ... WHERE\<close>, and the upsert on a unique key.\<close>

definition update_where :: "('a \<Rightarrow> bool) \<Rightarrow> ('a \<Rightarrow> 'a) \<Rightarrow> 'a list \<Rightarrow> 'a list" where
  "update_where P f = map (\<lambda>r. if P r then f r else r)"

definition upsert :: "('a \<Rightarrow> bool) \<Rightarrow> 'a \<Rightarrow> ('a \<Rightarrow> 'a) \<Rightarrow> 'a list \<Rightarrow> 'a list" where
  "upsert P new f rows = (if list_ex P rows then update_where P f rows else rows @ [new])"

section \<open>One-time codes\<close>

record code_limits =
  ml_resend_seconds :: int
  ml_window_seconds :: int
  ml_max_per_requester :: nat
  ml_max_in_window :: nat
  ml_max_failures_per_day :: int

datatype code_issue = Issued uuid | Resent uuid string time | Limited int

definition live_code :: "code_row \<Rightarrow> bool" where
  "live_code c = (vc_consumed_at c = None)"

definition codes_of :: "uuid \<Rightarrow> purpose \<Rightarrow> code_row list \<Rightarrow> code_row list" where
  "codes_of u p rows = filter (\<lambda>c. vc_user c = u \<and> vc_purpose c = p) rows"

definition code_failures_since :: "uuid \<Rightarrow> purpose \<Rightarrow> time \<Rightarrow> vault \<Rightarrow> int" where
  "code_failures_since u p since s =
     sum_list (map vc_failed_attempts (filter (\<lambda>c. vc_created_at c \<ge> since) (codes_of u p (va_codes s))))"

definition latest_code :: "uuid \<Rightarrow> purpose \<Rightarrow> vault \<Rightarrow> code_row option" where
  "latest_code u p s = max_by_key vc_created_at (filter live_code (codes_of u p (va_codes s)))"

definition consume_codes :: "time \<Rightarrow> (code_row \<Rightarrow> bool) \<Rightarrow> vault \<Rightarrow> vault" where
  "consume_codes now P s =
     s\<lparr>va_codes := update_where (\<lambda>c. P c \<and> live_code c)
        (\<lambda>c. c\<lparr>vc_consumed_at := Some now, vc_code_enc := None\<rparr>) (va_codes s)\<rparr>"

text \<open>The allowances of a request: how many seconds it has to wait, if any.\<close>

definition code_wait :: "time \<Rightarrow> uuid \<Rightarrow> purpose \<Rightarrow> string \<Rightarrow> code_limits \<Rightarrow> vault \<Rightarrow> int option" where
  "code_wait now u p requester limits s =
     (let rows = filter (\<lambda>r. vr_user r = u \<and> vr_purpose r = p
            \<and> vr_created_at r \<ge> now - seconds (ml_window_seconds limits)) (va_requests s);
          wait = (case max_by_key id (map vr_created_at rows) of
              None \<Rightarrow> 0
            | Some newest \<Rightarrow> ml_resend_seconds limits - num_seconds (now - newest))
      in if wait > 0 then Some wait
         else if length (filter (\<lambda>r. vr_requester r = requester) rows) \<ge> ml_max_per_requester limits
                 \<or> length rows \<ge> ml_max_in_window limits
         then Some (min (ml_window_seconds limits) 3600)
         else if code_failures_since u p (now - days 1) s \<ge> ml_max_failures_per_day limits
         then Some 3600 else None)"

definition create_code ::
  "time \<Rightarrow> uuid \<Rightarrow> purpose \<Rightarrow> string \<Rightarrow> string \<Rightarrow> string \<Rightarrow> time \<Rightarrow> time \<Rightarrow> string \<Rightarrow> code_limits
     \<Rightarrow> code_issue op"
where
  "create_code now u p code_hash code_enc target_email expires_at min_remaining requester limits s =
     (case code_wait now u p requester limits s of
        Some wait \<Rightarrow> (Inr (Limited wait), s)
      | None \<Rightarrow>
          let s = s\<lparr>va_requests := va_requests s
                @ [\<lparr>vr_user = u, vr_purpose = p, vr_requester = requester, vr_created_at = now\<rparr>]\<rparr>
          in case max_by_key vc_created_at (filter (\<lambda>c. live_code c \<and> vc_code_enc c \<noteq> None
                    \<and> to_lowercase (vc_target_email c) = to_lowercase target_email
                    \<and> vc_expires_at c \<ge> now + min_remaining) (codes_of u p (va_codes s))) of
               Some c \<Rightarrow> (Inr (Resent (vc_id c) (the (vc_code_enc c)) (vc_expires_at c)), s)
             | None \<Rightarrow>
                 let s = consume_codes now (\<lambda>c. vc_user c = u \<and> vc_purpose c = p) s;
                     i = va_next s;
                     row = \<lparr>vc_id = i, vc_user = u, vc_purpose = p, vc_code_hash = code_hash,
                       vc_code_enc = Some code_enc, vc_target_email = target_email, vc_attempts = 0,
                       vc_failed_attempts = 0, vc_expires_at = expires_at, vc_consumed_at = None,
                       vc_created_at = now\<rparr>
                 in (Inr (Issued i), s\<lparr>va_codes := va_codes s @ [row], va_next := i + 1\<rparr>))"

definition record_code_failure :: "uuid \<Rightarrow> unit op" where
  "record_code_failure i =
     eupdate (\<lambda>s. s\<lparr>va_codes := update_where (\<lambda>c. vc_id c = i)
        (\<lambda>c. c\<lparr>vc_failed_attempts := vc_failed_attempts c + 1\<rparr>) (va_codes s)\<rparr>)"

definition claimable_code :: "time \<Rightarrow> uuid \<Rightarrow> int \<Rightarrow> code_row \<Rightarrow> bool" where
  "claimable_code now i max_attempts c =
     (vc_id c = i \<and> live_code c \<and> vc_attempts c < max_attempts \<and> vc_expires_at c > now)"

definition claim_code_attempt :: "time \<Rightarrow> uuid \<Rightarrow> int \<Rightarrow> int option op" where
  "claim_code_attempt now i max_attempts s =
     (Inr (map_option (\<lambda>c. vc_attempts c + 1) (find (claimable_code now i max_attempts) (va_codes s))),
      s\<lparr>va_codes := update_where (claimable_code now i max_attempts)
          (\<lambda>c. c\<lparr>vc_attempts := vc_attempts c + 1\<rparr>) (va_codes s)\<rparr>)"

definition release_code_attempt :: "uuid \<Rightarrow> unit op" where
  "release_code_attempt i =
     eupdate (\<lambda>s. s\<lparr>va_codes := update_where (\<lambda>c. vc_id c = i \<and> live_code c)
        (\<lambda>c. c\<lparr>vc_attempts := max (vc_attempts c - 1) 0\<rparr>) (va_codes s)\<rparr>)"

definition use_code :: "time \<Rightarrow> uuid \<Rightarrow> bool op" where
  "use_code now i s =
     (Inr (list_ex (\<lambda>c. vc_id c = i \<and> live_code c) (va_codes s)),
      consume_codes now (\<lambda>c. vc_id c = i) s)"

section \<open>Sign-in challenges\<close>

definition live_challenge :: "challenge_row \<Rightarrow> bool" where
  "live_challenge c = (lc_consumed_at c = None)"

definition consume_challenges :: "time \<Rightarrow> (challenge_row \<Rightarrow> bool) \<Rightarrow> vault \<Rightarrow> vault" where
  "consume_challenges now P s =
     s\<lparr>va_challenges := update_where (\<lambda>c. P c \<and> live_challenge c)
        (\<lambda>c. c\<lparr>lc_consumed_at := Some now\<rparr>) (va_challenges s)\<rparr>"

definition store_challenge ::
  "time \<Rightarrow> uuid \<Rightarrow> string \<Rightarrow> string \<Rightarrow> time \<Rightarrow> (string \<times> string) option \<Rightarrow> unit op"
where
  "store_challenge now u token_hash method expires_at pending_link =
     eupdate (\<lambda>s.
       let s = consume_challenges now (\<lambda>c. lc_user c = u) s
       in s\<lparr>va_challenges := va_challenges s
            @ [\<lparr>lc_id = va_next s, lc_user = u, lc_token_hash = token_hash, lc_method = method,
                lc_attempts = 0, lc_expires_at = expires_at, lc_consumed_at = None,
                lc_pending_link = pending_link, lc_created_at = now\<rparr>],
          va_next := va_next s + 1\<rparr>)"

definition find_challenge :: "string \<Rightarrow> vault \<Rightarrow> challenge_row option" where
  "find_challenge token_hash s = find (\<lambda>c. lc_token_hash c = token_hash) (va_challenges s)"

definition claimable_challenge :: "time \<Rightarrow> uuid \<Rightarrow> int \<Rightarrow> challenge_row \<Rightarrow> bool" where
  "claimable_challenge now i max_attempts c =
     (lc_id c = i \<and> live_challenge c \<and> lc_attempts c < max_attempts \<and> lc_expires_at c > now)"

definition claim_challenge_attempt :: "time \<Rightarrow> uuid \<Rightarrow> int \<Rightarrow> int option op" where
  "claim_challenge_attempt now i max_attempts s =
     (Inr (map_option (\<lambda>c. lc_attempts c + 1)
        (find (claimable_challenge now i max_attempts) (va_challenges s))),
      s\<lparr>va_challenges := update_where (claimable_challenge now i max_attempts)
          (\<lambda>c. c\<lparr>lc_attempts := lc_attempts c + 1\<rparr>) (va_challenges s)\<rparr>)"

definition consume_challenge :: "time \<Rightarrow> uuid \<Rightarrow> bool op" where
  "consume_challenge now i s =
     (Inr (list_ex (\<lambda>c. lc_id c = i \<and> live_challenge c) (va_challenges s)),
      consume_challenges now (\<lambda>c. lc_id c = i) s)"

section \<open>Limits on second factors and confirmations\<close>

datatype factor_claim = Allowed int | LimitedFor int

definition window_retry :: "time \<Rightarrow> int \<Rightarrow> time option \<Rightarrow> int" where
  "window_retry now window_seconds started =
     max 1 (case started of
        None \<Rightarrow> window_seconds
      | Some t \<Rightarrow> num_seconds (t + seconds window_seconds - now))"

definition claim_second_factor_check :: "time \<Rightarrow> uuid \<Rightarrow> int \<Rightarrow> int \<Rightarrow> factor_claim op" where
  "claim_second_factor_check now u max_failures window_seconds s =
     (let window_start = now - seconds window_seconds;
          row = find (\<lambda>r. sf_user r = u) (va_factor s);
          open_window = (\<lambda>r. sf_window_started_at r \<le> window_start);
          claimed = (case row of
              None \<Rightarrow> Some \<lparr>sf_user = u, sf_window_started_at = now, sf_failures = 1\<rparr>
            | Some r \<Rightarrow>
                if open_window r then Some (r\<lparr>sf_failures := 1, sf_window_started_at := now\<rparr>)
                else if sf_failures r < max_failures then Some (r\<lparr>sf_failures := sf_failures r + 1\<rparr>)
                else None)
      in case claimed of
           Some r \<Rightarrow> (Inr (Allowed (sf_failures r)),
             s\<lparr>va_factor := upsert (\<lambda>r. sf_user r = u) r (\<lambda>_. r) (va_factor s)\<rparr>)
         | None \<Rightarrow> (Inr (LimitedFor (window_retry now window_seconds (map_option sf_window_started_at row))), s))"

definition release_second_factor_check :: "uuid \<Rightarrow> unit op" where
  "release_second_factor_check u =
     eupdate (\<lambda>s. s\<lparr>va_factor := update_where (\<lambda>r. sf_user r = u)
        (\<lambda>r. r\<lparr>sf_failures := max (sf_failures r - 1) 0\<rparr>) (va_factor s)\<rparr>)"

definition claim_reauth_check :: "time \<Rightarrow> uuid \<Rightarrow> int \<Rightarrow> int \<Rightarrow> factor_claim op" where
  "claim_reauth_check now u max_failures window_seconds s =
     (let window_start = now - seconds window_seconds;
          row = find (\<lambda>r. ra_user r = u) (va_reauth s);
          claimed = (case row of
              None \<Rightarrow> Some \<lparr>ra_user = u, ra_window_started_at = now, ra_failures = 1,
                            ra_day_started_at = now, ra_day_failures = 0\<rparr>
            | Some r \<Rightarrow>
                if ra_window_started_at r \<le> window_start
                then Some (r\<lparr>ra_failures := 1, ra_window_started_at := now\<rparr>)
                else if ra_failures r < max_failures then Some (r\<lparr>ra_failures := ra_failures r + 1\<rparr>)
                else None)
      in case claimed of
           Some r \<Rightarrow> (Inr (Allowed (ra_failures r)),
             s\<lparr>va_reauth := upsert (\<lambda>r. ra_user r = u) r (\<lambda>_. r) (va_reauth s)\<rparr>)
         | None \<Rightarrow> (Inr (LimitedFor (window_retry now window_seconds (map_option ra_window_started_at row))), s))"

definition release_reauth_check :: "uuid \<Rightarrow> unit op" where
  "release_reauth_check u =
     eupdate (\<lambda>s. s\<lparr>va_reauth := update_where (\<lambda>r. ra_user r = u)
        (\<lambda>r. r\<lparr>ra_failures := max (ra_failures r - 1) 0\<rparr>) (va_reauth s)\<rparr>)"

definition record_reauth_failure_row :: "time \<Rightarrow> uuid \<Rightarrow> int op" where
  "record_reauth_failure_row now u s =
     (let r = (case find (\<lambda>r. ra_user r = u) (va_reauth s) of
              None \<Rightarrow> \<lparr>ra_user = u, ra_window_started_at = now, ra_failures = 0,
                       ra_day_started_at = now, ra_day_failures = 1\<rparr>
            | Some r \<Rightarrow>
                if ra_day_started_at r \<le> now - days 1
                then r\<lparr>ra_day_failures := 1, ra_day_started_at := now\<rparr>
                else r\<lparr>ra_day_failures := ra_day_failures r + 1\<rparr>)
      in (Inr (ra_day_failures r),
          s\<lparr>va_reauth := upsert (\<lambda>r. ra_user r = u) r (\<lambda>_. r) (va_reauth s)\<rparr>))"

section \<open>Trials, recovery codes and identities\<close>

definition claim_trial :: "string \<Rightarrow> bool op" where
  "claim_trial h s =
     (Inr (h \<notin> set (va_trials s)),
      if h \<in> set (va_trials s) then s else s\<lparr>va_trials := va_trials s @ [h]\<rparr>)"

definition release_trial_claim :: "string \<Rightarrow> unit op" where
  "release_trial_claim h = eupdate (\<lambda>s. s\<lparr>va_trials := filter (\<lambda>x. x \<noteq> h) (va_trials s)\<rparr>)"

definition delete_recovery_codes :: "uuid \<Rightarrow> unit op" where
  "delete_recovery_codes u =
     eupdate (\<lambda>s. s\<lparr>va_recovery := filter (\<lambda>r. rc_user r \<noteq> u) (va_recovery s)\<rparr>)"

definition replace_recovery_codes :: "uuid \<Rightarrow> string list \<Rightarrow> unit op" where
  "replace_recovery_codes u hashes =
     eupdate (\<lambda>s. s\<lparr>va_recovery := filter (\<lambda>r. rc_user r \<noteq> u) (va_recovery s)
          @ map (\<lambda>(n, h). \<lparr>rc_id = va_next s + n, rc_user = u, rc_code_hash = h, rc_used_at = None\<rparr>)
              (List.enumerate 0 hashes),
        va_next := va_next s + length hashes\<rparr>)"

definition usable_recovery :: "uuid \<Rightarrow> string \<Rightarrow> recovery_row \<Rightarrow> bool" where
  "usable_recovery u h r = (rc_user r = u \<and> rc_code_hash r = h \<and> rc_used_at r = None)"

text \<open>The row used, if any.\<close>

definition use_recovery_row :: "time \<Rightarrow> uuid \<Rightarrow> string \<Rightarrow> uuid option op" where
  "use_recovery_row now u h s =
     (case find (usable_recovery u h) (va_recovery s) of
        None \<Rightarrow> (Inr None, s)
      | Some r \<Rightarrow> (Inr (Some (rc_id r)),
          s\<lparr>va_recovery := update_where (\<lambda>x. rc_id x = rc_id r \<and> rc_used_at x = None)
             (\<lambda>x. x\<lparr>rc_used_at := Some now\<rparr>) (va_recovery s)\<rparr>))"

definition count_recovery_codes :: "uuid \<Rightarrow> vault \<Rightarrow> nat" where
  "count_recovery_codes u s =
     length (filter (\<lambda>r. rc_user r = u \<and> rc_used_at r = None) (va_recovery s))"

definition find_identity :: "string \<Rightarrow> string \<Rightarrow> vault \<Rightarrow> uuid option" where
  "find_identity provider subject s =
     map_option oi_user (find (\<lambda>r. oi_provider r = provider \<and> oi_subject r = subject) (va_identities s))"

definition list_identities :: "uuid \<Rightarrow> vault \<Rightarrow> identity_row list" where
  "list_identities u s = filter (\<lambda>r. oi_user r = u) (va_identities s)"

text \<open>The unique keys (provider, subject) and (user, provider) refuse a second link.\<close>

definition link_identity :: "time \<Rightarrow> uuid \<Rightarrow> string \<Rightarrow> string \<Rightarrow> string option \<Rightarrow> unit op" where
  "link_identity now u provider subject email s =
     (if list_ex (\<lambda>r. oi_provider r = provider \<and> (oi_subject r = subject \<or> oi_user r = u)) (va_identities s)
      then (Inl (DatabaseError (Database ''23505'')), s)
      else (Inr (), s\<lparr>va_identities := va_identities s
             @ [\<lparr>oi_user = u, oi_provider = provider, oi_subject = subject, oi_email = email,
                 oi_last_used_at = now\<rparr>]\<rparr>))"

definition touch_identity :: "time \<Rightarrow> string \<Rightarrow> string \<Rightarrow> unit op" where
  "touch_identity now provider subject =
     eupdate (\<lambda>s. s\<lparr>va_identities := update_where (\<lambda>r. oi_provider r = provider \<and> oi_subject r = subject)
        (\<lambda>r. r\<lparr>oi_last_used_at := now\<rparr>) (va_identities s)\<rparr>)"

definition unlink_identity :: "uuid \<Rightarrow> string \<Rightarrow> bool op" where
  "unlink_identity u provider s =
     (Inr (list_ex (\<lambda>r. oi_user r = u \<and> oi_provider r = provider) (va_identities s)),
      s\<lparr>va_identities := filter (\<lambda>r. \<not> (oi_user r = u \<and> oi_provider r = provider)) (va_identities s)\<rparr>)"

definition purge_expired :: "time \<Rightarrow> nat op" where
  "purge_expired now s =
     (let cutoff = now - days 1;
          codes = filter (\<lambda>c. \<not> vc_expires_at c < cutoff) (va_codes s);
          challenges = filter (\<lambda>c. \<not> lc_expires_at c < cutoff) (va_challenges s)
      in (Inr (length (va_codes s) - length codes + (length (va_challenges s) - length challenges)),
          s\<lparr>va_codes := update_where (\<lambda>c. vc_expires_at c < now \<or> \<not> live_code c)
              (\<lambda>c. c\<lparr>vc_code_enc := None\<rparr>) codes,
            va_requests := filter (\<lambda>r. \<not> vr_created_at r < cutoff) (va_requests s),
            va_challenges := challenges\<rparr>))"

section \<open>Accounts\<close>

text \<open>A row of \<open>users\<close>, both parts.\<close>

type_synonym user_view = "uuid \<times> login_account \<times> user_row"

definition find_account :: "uuid \<Rightarrow> vault \<Rightarrow> (login_account \<times> user_row) option" where
  "find_account u s =
     (case (map_of (va_accounts s) u, user (va_db s) u) of
        (Some a, Some r) \<Rightarrow> Some (a, r)
      | _ \<Rightarrow> None)"

definition find_view :: "uuid \<Rightarrow> vault \<Rightarrow> user_view option" where
  "find_view u s = map_option (\<lambda>(a, r). (u, a, r)) (find_account u s)"

definition find_by_username :: "string \<Rightarrow> vault \<Rightarrow> user_view option" where
  "find_by_username name s =
     Option.bind (find (\<lambda>(_, a). to_lowercase (ac_username a) = to_lowercase (trim name)) (va_accounts s))
       (\<lambda>(u, _). find_view u s)"

text \<open>The oldest account wins when an address is stored twice.\<close>

definition find_by_email :: "string \<Rightarrow> vault \<Rightarrow> user_view option" where
  "find_by_email email s =
     Option.bind (max_by_key (\<lambda>(_, r). - us_created_at r)
         (filter (\<lambda>(_, r). map_option to_lowercase (us_email r) = Some (to_lowercase (trim email)))
            (db_users (va_db s))))
       (\<lambda>(u, _). find_view u s)"

definition find_by_identifier :: "string \<Rightarrow> vault \<Rightarrow> user_view option" where
  "find_by_identifier identifier s =
     (if CHR ''@'' \<in> set (trim identifier) then find_by_email (trim identifier) s
      else find_by_username (trim identifier) s)"

definition update_account :: "uuid \<Rightarrow> (login_account \<Rightarrow> login_account) \<Rightarrow> vault \<Rightarrow> vault" where
  "update_account u f s =
     s\<lparr>va_accounts := map (\<lambda>(i, a). (i, if i = u then f a else a)) (va_accounts s)\<rparr>"

definition update_user :: "uuid \<Rightarrow> (user_row \<Rightarrow> user_row) \<Rightarrow> vault \<Rightarrow> vault" where
  "update_user u f s =
     s\<lparr>va_db := (va_db s)\<lparr>db_users := map (\<lambda>(i, r). (i, if i = u then f r else r)) (db_users (va_db s))\<rparr>\<rparr>"

definition two_factor_enabled :: "login_account \<Rightarrow> bool" where
  "two_factor_enabled a = (ac_totp_enabled_at a \<noteq> None \<and> ac_totp_secret_enc a \<noteq> None)"

definition email_verified :: "user_row \<Rightarrow> bool" where
  "email_verified r = (us_email_verified_at r \<noteq> None \<and> us_email r \<noteq> None)"

definition locked_until_active :: "time \<Rightarrow> login_account \<Rightarrow> time option" where
  "locked_until_active now a = opt_filter (\<lambda>t. t > now) (ac_locked_until a)"

definition auth_state_of :: "login_account \<Rightarrow> user_row \<Rightarrow> auth_state" where
  "auth_state_of a r =
     \<lparr>as_username = ac_username a, as_role = us_role r, as_status = ac_status a,
      as_token_version = ac_token_version a, as_must_change_password = ac_must_change_password a,
      as_banned_at = ac_banned_at a, as_banned_until = ac_banned_until a,
      as_ban_reason = ac_ban_reason a, as_two_factor_enabled = two_factor_enabled a,
      as_role_since = unwrap_or (ac_role_changed_at a) (us_created_at r)\<rparr>"

definition current_auth_state :: "vault \<Rightarrow> uuid \<Rightarrow> auth_state option" where
  "current_auth_state s u = map_option (\<lambda>(a, r). auth_state_of a r) (find_account u s)"

definition invalidate_pending :: "time \<Rightarrow> uuid \<Rightarrow> vault \<Rightarrow> vault" where
  "invalidate_pending now u s =
     consume_codes now (\<lambda>c. vc_user c = u) (consume_challenges now (\<lambda>c. lc_user c = u) s)"

definition mark_login :: "time \<Rightarrow> uuid \<Rightarrow> bool op" where
  "mark_login now u s =
     (case find_account u s of
        None \<Rightarrow> (Inl (DatabaseError OtherSqlx), s)
      | Some (a, _) \<Rightarrow> (Inr (ac_last_login_at a = None),
          update_account u (\<lambda>a. a\<lparr>ac_last_login_at := Some now\<rparr>) s))"

definition set_password :: "time \<Rightarrow> uuid \<Rightarrow> string \<Rightarrow> bool \<Rightarrow> bool \<Rightarrow> unit op" where
  "set_password now u hash must_change revoke s =
     (if find_account u s = None then (Inl NotFound, s)
      else (Inr (), invalidate_pending now u (update_account u (\<lambda>a. a\<lparr>ac_password_hash := hash,
             ac_password_set := True, ac_must_change_password := must_change,
             ac_password_changed_at := Some now,
             ac_token_version := ac_token_version a + (if revoke then 1 else 0)\<rparr>) s)))"

definition set_must_change_password :: "uuid \<Rightarrow> bool \<Rightarrow> unit op" where
  "set_must_change_password u value_given =
     eupdate (update_account u (\<lambda>a. a\<lparr>ac_must_change_password := value_given\<rparr>))"

definition revoke_sessions :: "time \<Rightarrow> uuid \<Rightarrow> unit op" where
  "revoke_sessions now u s =
     (if find_account u s = None then (Inl NotFound, s)
      else (Inr (), invalidate_pending now u
             (update_account u (\<lambda>a. a\<lparr>ac_token_version := ac_token_version a + 1\<rparr>) s)))"

definition upgrade_password_hash :: "uuid \<Rightarrow> string \<Rightarrow> string \<Rightarrow> unit op" where
  "upgrade_password_hash u old_hash new_hash =
     eupdate (update_account u (\<lambda>a. if ac_password_hash a = old_hash
        then a\<lparr>ac_password_hash := new_hash\<rparr> else a))"

text \<open>The lock after \<open>failures\<close> in a row: 15 minutes, doubled each time, at most a day.\<close>

definition lock_time :: "int \<Rightarrow> int \<Rightarrow> time" where
  "lock_time failures threshold =
     min (days 1) (minutes (15 * 2 ^ nat (min (failures div threshold - 1) 10)))"

definition record_failed_login :: "time \<Rightarrow> uuid \<Rightarrow> int \<Rightarrow> (int \<times> time option) op" where
  "record_failed_login now u threshold s =
     (case find_account u s of
        None \<Rightarrow> (Inl (DatabaseError OtherSqlx), s)
      | Some (a, _) \<Rightarrow>
          let n = ac_failed_login_count a + 1;
              until = (if n mod threshold = 0 then Some (now + lock_time n threshold) else ac_locked_until a)
          in (Inr (n, opt_filter (\<lambda>t. t > now \<and> n mod threshold = 0) until),
              update_account u (\<lambda>a. a\<lparr>ac_failed_login_count := n, ac_locked_until := until\<rparr>) s))"

definition reset_login_failures :: "uuid \<Rightarrow> string option \<Rightarrow> unit op" where
  "reset_login_failures u bucket =
     eupdate (\<lambda>s.
       (update_account u (\<lambda>a. a\<lparr>ac_failed_login_count := 0, ac_locked_until := None\<rparr>) s)
         \<lparr>va_failures := filter (\<lambda>r. \<not> (lf_user r = u \<and> Some (lf_bucket r) = bucket)) (va_failures s)\<rparr>)"

definition NETWORK_LOCKOUT_THRESHOLD :: int where
  "NETWORK_LOCKOUT_THRESHOLD = 5"

definition ACCOUNT_FAILURE_CAP :: int where
  "ACCOUNT_FAILURE_CAP = 20"

definition ACCOUNT_FAILURE_WINDOW_MINUTES :: int where
  "ACCOUNT_FAILURE_WINDOW_MINUTES = 15"

record password_failure =
  pf_network_failures :: int
  pf_network_lock :: "time option"
  pf_account_lock :: "time option"

definition failure_of :: "uuid \<Rightarrow> string \<Rightarrow> vault \<Rightarrow> failure_row option" where
  "failure_of u bucket s = find (\<lambda>r. lf_user r = u \<and> lf_bucket r = bucket) (va_failures s)"

definition store_failure :: "failure_row \<Rightarrow> vault \<Rightarrow> vault" where
  "store_failure r s =
     s\<lparr>va_failures := upsert (\<lambda>x. lf_user x = lf_user r \<and> lf_bucket x = lf_bucket r) r (\<lambda>_. r) (va_failures s)\<rparr>"

definition network_failure :: "time \<Rightarrow> uuid \<Rightarrow> string \<Rightarrow> vault \<Rightarrow> failure_row" where
  "network_failure now u bucket s =
     (case failure_of u bucket s of
        None \<Rightarrow> \<lparr>lf_user = u, lf_bucket = bucket, lf_failures = 1, lf_window_started_at = now,
                 lf_locked_until = None\<rparr>
      | Some r \<Rightarrow>
          let n = lf_failures r + 1
          in r\<lparr>lf_failures := n,
               lf_locked_until := (if n mod NETWORK_LOCKOUT_THRESHOLD = 0
                 then Some (now + lock_time n NETWORK_LOCKOUT_THRESHOLD) else lf_locked_until r)\<rparr>)"

definition account_failure :: "time \<Rightarrow> uuid \<Rightarrow> vault \<Rightarrow> failure_row" where
  "account_failure now u s =
     (case failure_of u ''*'' s of
        None \<Rightarrow> \<lparr>lf_user = u, lf_bucket = ''*'', lf_failures = 1, lf_window_started_at = now,
                 lf_locked_until = None\<rparr>
      | Some r \<Rightarrow>
          if lf_window_started_at r \<le> now - minutes ACCOUNT_FAILURE_WINDOW_MINUTES
          then r\<lparr>lf_failures := 1, lf_window_started_at := now\<rparr>
          else r\<lparr>lf_failures := lf_failures r + 1\<rparr>)"

definition record_password_failure :: "time \<Rightarrow> uuid \<Rightarrow> string \<Rightarrow> password_failure op" where
  "record_password_failure now u bucket s =
     (let network = network_failure now u bucket s;
          s = store_failure network s;
          whole = account_failure now u s;
          s = store_failure whole s;
          until = now + minutes ACCOUNT_FAILURE_WINDOW_MINUTES;
          full = (lf_failures whole = ACCOUNT_FAILURE_CAP)
      in (Inr \<lparr>pf_network_failures = lf_failures network,
               pf_network_lock = opt_filter (\<lambda>t. t > now \<and> lf_failures network mod NETWORK_LOCKOUT_THRESHOLD = 0)
                 (lf_locked_until network),
               pf_account_lock = (if full then Some until else None)\<rparr>,
          if full
          then update_account u (\<lambda>a. a\<lparr>ac_locked_until := Some (max (unwrap_or (ac_locked_until a) until) until)\<rparr>) s
          else s))"

definition network_locked_until :: "time \<Rightarrow> uuid \<Rightarrow> string \<Rightarrow> vault \<Rightarrow> time option" where
  "network_locked_until now u bucket s =
     opt_filter (\<lambda>t. t > now) (Option.bind (failure_of u bucket s) lf_locked_until)"

text \<open>The first proof that the owner controls the address removes what was set up before it.\<close>

definition wipe_second_factors :: "uuid \<Rightarrow> vault \<Rightarrow> vault" where
  "wipe_second_factors u s =
     (update_account u (\<lambda>a. a\<lparr>ac_totp_secret_enc := None, ac_totp_enabled_at := None,
          ac_totp_last_step := None, ac_totp_pending_secret_enc := None,
          ac_totp_pending_created_at := None\<rparr>) s)
       \<lparr>va_recovery := filter (\<lambda>r. rc_user r \<noteq> u) (va_recovery s),
        va_identities := filter (\<lambda>r. oi_user r \<noteq> u) (va_identities s)\<rparr>"

definition password_recovered :: "time \<Rightarrow> string \<Rightarrow> bool \<Rightarrow> login_account \<Rightarrow> login_account" where
  "password_recovered now hash verify_email a =
     a\<lparr>ac_password_hash := hash, ac_password_set := True, ac_must_change_password := False,
       ac_password_changed_at := Some now, ac_token_version := ac_token_version a + 1,
       ac_failed_login_count := 0, ac_locked_until := None,
       ac_email_first_verified_at := (if verify_email
         then Some (unwrap_or (ac_email_first_verified_at a) now) else ac_email_first_verified_at a)\<rparr>"

definition address_proven :: "time \<Rightarrow> bool \<Rightarrow> user_row \<Rightarrow> user_row" where
  "address_proven now verify_email r =
     r\<lparr>us_email_verified_at := (if verify_email then Some (unwrap_or (us_email_verified_at r) now)
                               else us_email_verified_at r)\<rparr>"

definition unlock_account :: "uuid \<Rightarrow> vault \<Rightarrow> vault" where
  "unlock_account u s = s\<lparr>va_failures := filter (\<lambda>r. lf_user r \<noteq> u) (va_failures s)\<rparr>"

definition recover_password :: "time \<Rightarrow> uuid \<Rightarrow> string \<Rightarrow> bool \<Rightarrow> bool op" where
  "recover_password now u hash verify_email s =
     (case find_account u s of
        None \<Rightarrow> (Inl NotFound, s)
      | Some (a, _) \<Rightarrow>
          let first_proof = (verify_email \<and> ac_email_first_verified_at a = None);
              s = invalidate_pending now u (unlock_account u
                    (update_user u (address_proven now verify_email)
                      (update_account u (password_recovered now hash verify_email) s)))
          in (Inr first_proof, if first_proof then wipe_second_factors u s else s))"

definition mark_email_verified :: "time \<Rightarrow> uuid \<Rightarrow> string \<Rightarrow> bool op" where
  "mark_email_verified now u email s =
     (case find_account u s of
        None \<Rightarrow> (Inr False, s)
      | Some (_, r) \<Rightarrow>
          if map_option to_lowercase (us_email r) = Some (to_lowercase email)
             \<and> us_email_verified_at r = None
          then (Inr True, update_user u (\<lambda>r. r\<lparr>us_email_verified_at := Some now\<rparr>)
                 (update_account u (\<lambda>a. a\<lparr>ac_email_first_verified_at :=
                    Some (unwrap_or (ac_email_first_verified_at a) now)\<rparr>) s))
          else (Inr False, s))"

definition change_email :: "time \<Rightarrow> uuid \<Rightarrow> string \<Rightarrow> unit op" where
  "change_email now u new_email =
     eupdate (\<lambda>s. invalidate_pending now u
       (update_user u (\<lambda>r. r\<lparr>us_email := Some (trim new_email), us_email_verified_at := Some now\<rparr>)
         (update_account u (\<lambda>a. a\<lparr>ac_email_first_verified_at :=
            Some (unwrap_or (ac_email_first_verified_at a) now)\<rparr>) s)))"

definition detach_unverified_email :: "time \<Rightarrow> uuid \<Rightarrow> bool op" where
  "detach_unverified_email now u s =
     (case user (va_db s) u of
        None \<Rightarrow> (Inr False, s)
      | Some r \<Rightarrow>
          if us_email_verified_at r = None \<and> us_email r \<noteq> None
          then (Inr True, invalidate_pending now u (update_user u (\<lambda>r. r\<lparr>us_email := None\<rparr>) s))
          else (Inr False, s))"

definition set_pending_totp :: "time \<Rightarrow> uuid \<Rightarrow> string \<Rightarrow> unit op" where
  "set_pending_totp now u secret_enc =
     eupdate (update_account u (\<lambda>a. a\<lparr>ac_totp_pending_secret_enc := Some secret_enc,
        ac_totp_pending_created_at := Some now\<rparr>))"

definition enable_totp :: "time \<Rightarrow> uuid \<Rightarrow> int \<Rightarrow> bool op" where
  "enable_totp now u step s =
     (case map_of (va_accounts s) u of
        None \<Rightarrow> (Inr False, s)
      | Some a \<Rightarrow>
          if ac_totp_pending_secret_enc a \<noteq> None \<and> ac_totp_secret_enc a = None
          then (Inr True, update_account u (\<lambda>a. a\<lparr>ac_totp_secret_enc := ac_totp_pending_secret_enc a,
                 ac_totp_enabled_at := Some now, ac_totp_last_step := Some step,
                 ac_totp_pending_secret_enc := None, ac_totp_pending_created_at := None\<rparr>) s)
          else (Inr False, s))"

definition disable_totp :: "uuid \<Rightarrow> unit op" where
  "disable_totp u =
     eupdate (update_account u (\<lambda>a. a\<lparr>ac_totp_secret_enc := None, ac_totp_enabled_at := None,
        ac_totp_last_step := None, ac_totp_pending_secret_enc := None,
        ac_totp_pending_created_at := None\<rparr>))"

definition claim_totp_step :: "uuid \<Rightarrow> int \<Rightarrow> bool op" where
  "claim_totp_step u step s =
     (case map_of (va_accounts s) u of
        None \<Rightarrow> (Inr False, s)
      | Some a \<Rightarrow>
          if is_none_or (ac_totp_last_step a) (\<lambda>l. l < step)
          then (Inr True, update_account u (\<lambda>a. a\<lparr>ac_totp_last_step := Some step\<rparr>) s)
          else (Inr False, s))"

end
