(* ===== verification/SignIn.thy ===== *)
theory SignIn
  imports Vault
begin

text \<open>
  Signing in, codes and confirmations: \<^verbatim>\<open>src/src/services/account.rs\<close> and the handlers of
  \<^verbatim>\<open>controllers/auth.rs\<close>. Cryptography and what the outside answers are parameters
  (\<open>env\<close>), and so is what a request draws at random or finds (\<open>request\<close>): the clock is read once,
  and the slots for password hashing are either free or busy for the whole request. Work the code
  leaves to the background runs right after the answer. The audit log, locales and the padding of
  answer times are left out; a security notification is kept as its account and event.
\<close>

section \<open>Parameters\<close>

record env =
  ev_nfkc :: "string \<Rightarrow> string"
  ev_matches :: "string \<Rightarrow> string \<Rightarrow> bool"
  ev_argon :: "string \<Rightarrow> string \<Rightarrow> string"
  ev_breached :: "string \<Rightarrow> bool"
  ev_mac :: "string \<Rightarrow> string"
  ev_encrypt :: "string \<Rightarrow> string \<Rightarrow> string"
  ev_decrypt :: "string \<Rightarrow> string option"
  ev_sha256 :: "string \<Rightarrow> string"
  ev_otp_mac :: mac
  ev_session_seconds :: int
  ev_terms_version :: string
  ev_idna :: "string \<Rightarrow> string option"

record request =
  rq_now :: time
  rq_ip :: "string option"
  rq_code :: string
  rq_token :: string
  rq_salt :: string
  rq_busy :: bool

definition hash_code :: "env \<Rightarrow> string \<Rightarrow> string \<Rightarrow> string" where
  "hash_code env scope c = ev_mac env (scope @ '':'' @ c)"

definition verify_code :: "env \<Rightarrow> string \<Rightarrow> string \<Rightarrow> string \<Rightarrow> bool" where
  "verify_code env scope c stored = (hash_code env scope c = stored)"

definition secret_bytes :: "string \<Rightarrow> byte list" where
  "secret_bytes s = map (\<lambda>c. of_nat (code c)) s"

text \<open>\<open>hash_password\<close>, and a check of a password, behind the hashing slots.\<close>

definition hash_password :: "env \<Rightarrow> request \<Rightarrow> string \<Rightarrow> api_error + string" where
  "hash_password env rq password =
     (if rq_busy rq then Inl service_busy else Inr (ev_argon env (rq_salt rq) (ev_nfkc env password)))"

definition check_password :: "env \<Rightarrow> request \<Rightarrow> string \<Rightarrow> string \<Rightarrow> api_error + bool" where
  "check_password env rq password stored =
     (if rq_busy rq then Inl service_busy
      else verify_password_upgrading (ev_nfkc env) (ev_matches env) password stored)"

definition dummy_verify :: "request \<Rightarrow> api_error + unit" where
  "dummy_verify rq = (if rq_busy rq then Inl service_busy else Inr ())"

section \<open>Errors\<close>

definition invalid_credentials :: api_error where
  "invalid_credentials = rule 401 ''INVALID_CREDENTIALS''"

definition account_locked :: "time \<Rightarrow> api_error" where
  "account_locked until = rule_with_meta 429 ''ACCOUNT_LOCKED'' (JObj [(''until'', JTime until)])"

definition invalid_code_plain :: api_error where
  "invalid_code_plain = rule 400 ''INVALID_CODE''"

definition invalid_code :: "int \<Rightarrow> api_error" where
  "invalid_code left = rule_with_meta 400 ''INVALID_CODE'' (JObj [(''attempts_left'', JInt (max left 0))])"

definition code_expired :: api_error where
  "code_expired = rule 400 ''CODE_EXPIRED''"

definition invalid_two_factor_code :: "int option \<Rightarrow> api_error" where
  "invalid_two_factor_code attempts_left =
     (case attempts_left of
        Some left \<Rightarrow> rule_with_meta 401 ''INVALID_TWO_FACTOR_CODE''
          (JObj [(''attempts_left'', JInt (max left 0))])
      | None \<Rightarrow> rule 401 ''INVALID_TWO_FACTOR_CODE'')"

definition two_factor_unavailable :: api_error where
  "two_factor_unavailable = rule 500 ''TWO_FACTOR_UNAVAILABLE''"

definition reauth_required :: "string \<Rightarrow> api_error" where
  "reauth_required method = rule_with_meta 403 ''REAUTH_REQUIRED'' (JObj [(''method'', JStr method)])"

definition weak_password :: "string list \<Rightarrow> api_error" where
  "weak_password issues =
     rule_with_meta 400 ''WEAK_PASSWORD'' (JObj [(''issues'', JArr (map JStr issues))])"

section \<open>Constants\<close>

definition CODE_TTL_MINUTES :: int where "CODE_TTL_MINUTES = 15"
definition REAUTH_CODE_TTL_MINUTES :: int where "REAUTH_CODE_TTL_MINUTES = 10"
definition REAUTH_CODES_PER_HOUR :: nat where "REAUTH_CODES_PER_HOUR = 10"
definition CODE_DAILY_FAILURE_CAP :: int where "CODE_DAILY_FAILURE_CAP = 10"
definition REAUTH_MAX_FAILURES :: int where "REAUTH_MAX_FAILURES = 5"
definition REAUTH_WINDOW_SECONDS :: int where "REAUTH_WINDOW_SECONDS = 15 * 60"
definition REAUTH_DAILY_FAILURES_BEFORE_SIGN_OUT :: int where "REAUTH_DAILY_FAILURES_BEFORE_SIGN_OUT = 10"
definition CODE_MAX_ATTEMPTS :: int where "CODE_MAX_ATTEMPTS = 5"
definition CODE_RESEND_SECONDS :: int where "CODE_RESEND_SECONDS = 60"
definition CODE_DAILY_LIMIT :: nat where "CODE_DAILY_LIMIT = 20"
definition CODE_DAILY_LIMIT_PER_NETWORK :: nat where "CODE_DAILY_LIMIT_PER_NETWORK = 5"
definition REAUTH_CODES_PER_HOUR_PER_NETWORK :: nat where "REAUTH_CODES_PER_HOUR_PER_NETWORK = 5"
definition CHALLENGE_TTL_MINUTES :: int where "CHALLENGE_TTL_MINUTES = 5"
definition CHALLENGE_MAX_ATTEMPTS :: int where "CHALLENGE_MAX_ATTEMPTS = 5"
definition LOCKOUT_THRESHOLD :: int where "LOCKOUT_THRESHOLD = 5"
definition TOTP_SETUP_TTL_MINUTES :: int where "TOTP_SETUP_TTL_MINUTES = 15"
definition SECOND_FACTOR_MAX_FAILURES :: int where "SECOND_FACTOR_MAX_FAILURES = 5"
definition SECOND_FACTOR_WINDOW_SECONDS :: int where "SECOND_FACTOR_WINDOW_SECONDS = 15 * 60"

section \<open>Mail and notices\<close>

definition queue_mail :: "time \<Rightarrow> outgoing_email \<Rightarrow> unit op" where
  "queue_mail now email =
     eupdate (\<lambda>s. s\<lparr>va_outbox := snd (enqueue (va_next s) now email (va_outbox s)),
                    va_next := va_next s + 1\<rparr>)"

definition security_alert :: "uuid \<Rightarrow> string \<Rightarrow> unit op" where
  "security_alert u event = eupdate (\<lambda>s. s\<lparr>va_alerts := va_alerts s @ [(u, event)]\<rparr>)"

text \<open>Nothing but codes is ever sent to an address nobody has proven.\<close>

definition send_security_notice :: "time \<Rightarrow> user_view \<Rightarrow> string \<Rightarrow> string option \<Rightarrow> string option \<Rightarrow> unit op"
where
  "send_security_notice now view kind detail to =
     (let (u, a, r) = view in
      case or_else to (if email_verified r then us_email r else None) of
        None \<Rightarrow> eret ()
      | Some address \<Rightarrow>
          queue_mail now \<lparr>og_user = Some u, og_to = address, og_template = SecurityNotice kind detail\<rparr>)"

definition told_login_locked :: "time \<Rightarrow> uuid \<Rightarrow> vault \<Rightarrow> bool" where
  "told_login_locked now u s =
     list_ex (\<lambda>m. mr_user m = Some u \<and> mr_template m = ''security_notice''
        \<and> (case mr_payload m of Some (SecurityNotice kind _) \<Rightarrow> kind = ''login_locked'' | _ \<Rightarrow> False)
        \<and> mr_created_at m > now - minutes 60) (va_outbox s)"

definition notify_login_locked :: "time \<Rightarrow> user_view \<Rightarrow> unit op" where
  "notify_login_locked now view =
     ebind (eget (told_login_locked now (fst view))) (\<lambda>recent.
     if recent then eret ()
     else ebind (send_security_notice now view ''login_locked'' None None) (\<lambda>_.
          security_alert (fst view) ''login_locked''))"

section \<open>Sessions and challenges\<close>

definition ensure_sign_in_allowed :: "user_row \<Rightarrow> unit op" where
  "ensure_sign_in_allowed r =
     (if is_staff (us_role r) then eret ()
      else ebind (eget va_maintenance) (\<lambda>mt.
           if mt_mode mt = Full then efail (maintenance mt) else eret ()))"

definition ensure_can_sign_in :: "time \<Rightarrow> login_account \<Rightarrow> api_error + unit" where
  "ensure_can_sign_in now a =
     (if ac_status a \<noteq> StatusActive then Inl account_deactivated
      else case active_ban (ac_banned_at a) (ac_banned_until a) now of
        Some until \<Rightarrow> Inl (account_banned until (ac_ban_reason a))
      | None \<Rightarrow> Inr ())"

record session =
  ss_token :: claims
  ss_first_login :: bool
  ss_must_change_password :: bool
  ss_terms_accepted :: bool
  ss_email_verified :: bool
  ss_new_account :: bool

datatype outcome = Session session | Challenge string time

definition issue_session :: "env \<Rightarrow> request \<Rightarrow> user_view \<Rightarrow> bool \<Rightarrow> bool \<Rightarrow> session op" where
  "issue_session env rq view must_change is_new =
     (let (u, a, r) = view in
      ebind (ensure_sign_in_allowed r) (\<lambda>_.
      ebind (reset_login_failures u (Some (ip_bucket (rq_ip rq)))) (\<lambda>_.
      ebind (mark_login (rq_now rq) u) (\<lambda>first.
      eret \<lparr>ss_token = build_claims (rq_now rq) u (auth_state_of a r) (ev_session_seconds env) None,
            ss_first_login = first, ss_must_change_password = must_change,
            ss_terms_accepted = (ac_terms_version a = Some (ev_terms_version env)),
            ss_email_verified = email_verified r, ss_new_account = is_new\<rparr>))))"

definition create_challenge ::
  "env \<Rightarrow> request \<Rightarrow> user_view \<Rightarrow> string \<Rightarrow> (string \<times> string) option \<Rightarrow> outcome op"
where
  "create_challenge env rq view method link =
     (let (u, a, r) = view;
          expires_at = rq_now rq + minutes CHALLENGE_TTL_MINUTES
      in
      ebind (ensure_sign_in_allowed r) (\<lambda>_.
      ebind (store_challenge (rq_now rq) u (ev_sha256 env (rq_token rq)) method expires_at link) (\<lambda>_.
      eret (Challenge (rq_token rq) expires_at))))"

section \<open>Second factors\<close>

definition check_totp :: "env \<Rightarrow> request \<Rightarrow> user_view \<Rightarrow> string \<Rightarrow> bool op" where
  "check_totp env rq view c =
     (let (u, a, r) = view in
      case ac_totp_secret_enc a of
        None \<Rightarrow> eret False
      | Some enc \<Rightarrow>
          (case ev_decrypt env enc of
             None \<Rightarrow> efail two_factor_unavailable
           | Some secret \<Rightarrow>
               (case totp_verify (ev_otp_mac env) (secret_bytes secret) c
                       (nat (max 0 (timestamp (rq_now rq)))) (ac_totp_last_step a) of
                  None \<Rightarrow> eret False
                | Some step \<Rightarrow> claim_totp_step u step)))"

definition use_recovery_code :: "env \<Rightarrow> request \<Rightarrow> uuid \<Rightarrow> string \<Rightarrow> bool op" where
  "use_recovery_code env rq u c =
     (case normalize_recovery_code c of
        None \<Rightarrow> eret False
      | Some normalized \<Rightarrow>
          ebind (use_recovery_row (rq_now rq) u (hash_code env ''recovery'' normalized)) (\<lambda>used.
          eret (used \<noteq> None)))"

definition check_second_factor :: "env \<Rightarrow> request \<Rightarrow> user_view \<Rightarrow> string \<Rightarrow> bool op" where
  "check_second_factor env rq view c =
     (let compact = filter (\<lambda>x. \<not> is_whitespace x) c in
      if byte_len compact = 6 \<and> list_all is_ascii_digit compact then check_totp env rq view compact
      else use_recovery_code env rq (fst view) compact)"

definition sign_out_after_too_many_failures :: "request \<Rightarrow> user_view \<Rightarrow> int \<Rightarrow> unit op" where
  "sign_out_after_too_many_failures rq view day_failures =
     (if day_failures = REAUTH_DAILY_FAILURES_BEFORE_SIGN_OUT then
        ebind (revoke_sessions (rq_now rq) (fst view)) (\<lambda>_.
        ebind (send_security_notice (rq_now rq) view ''reauth_sessions_revoked'' None None) (\<lambda>_.
        security_alert (fst view) ''reauth_sessions_revoked''))
      else eret ())"

definition record_reauth_failure :: "request \<Rightarrow> user_view \<Rightarrow> unit op" where
  "record_reauth_failure rq view =
     ebind (record_reauth_failure_row (rq_now rq) (fst view)) (\<lambda>day_failures.
     sign_out_after_too_many_failures rq view day_failures)"

definition require_second_factor :: "env \<Rightarrow> request \<Rightarrow> user_view \<Rightarrow> string \<Rightarrow> unit op" where
  "require_second_factor env rq view c =
     ebind (claim_second_factor_check (rq_now rq) (fst view) SECOND_FACTOR_MAX_FAILURES
              SECOND_FACTOR_WINDOW_SECONDS) (\<lambda>claim.
     case claim of
       LimitedFor wait \<Rightarrow> efail (too_many_attempts wait)
     | Allowed failures \<Rightarrow>
         ebind (check_second_factor env rq view c) (\<lambda>ok.
         if ok then release_second_factor_check (fst view)
         else ebind (record_reauth_failure rq view) (\<lambda>_.
              efail (invalid_two_factor_code (Some (SECOND_FACTOR_MAX_FAILURES - failures))))))"

section \<open>Codes by e-mail\<close>

fun code_ttl_minutes :: "purpose \<Rightarrow> int" where
  "code_ttl_minutes Reauth = REAUTH_CODE_TTL_MINUTES"
| "code_ttl_minutes _ = CODE_TTL_MINUTES"

definition code_limits_of :: "purpose \<Rightarrow> code_limits" where
  "code_limits_of p =
     (let (window, per_requester, in_window) =
            (if p = Reauth then (3600, REAUTH_CODES_PER_HOUR_PER_NETWORK, REAUTH_CODES_PER_HOUR)
             else (24 * 3600, CODE_DAILY_LIMIT_PER_NETWORK, CODE_DAILY_LIMIT))
      in \<lparr>ml_resend_seconds = CODE_RESEND_SECONDS, ml_window_seconds = window,
          ml_max_per_requester = per_requester, ml_max_in_window = in_window,
          ml_max_failures_per_day = CODE_DAILY_FAILURE_CAP\<rparr>)"

text \<open>While a code is live (with half its lifetime left) the same code is sent again.\<close>

definition send_code ::
  "env \<Rightarrow> request \<Rightarrow> uuid \<Rightarrow> purpose \<Rightarrow> string \<Rightarrow> (string \<Rightarrow> email_template) \<Rightarrow> time op"
where
  "send_code env rq u p target_email template =
     (let now = rq_now rq;
          ttl = minutes (code_ttl_minutes p)
      in
      ebind (create_code now u p (hash_code env (purpose_key p) (rq_code rq))
               (ev_encrypt env (rq_salt rq) (rq_code rq)) target_email (now + ttl) (ttl div 2)
               (code_requester (rq_ip rq)) (code_limits_of p)) (\<lambda>issue.
      ebind (case issue of
               Issued _ \<Rightarrow> eret (rq_code rq, now + ttl)
             | Resent _ enc expires_at \<Rightarrow>
                 (case ev_decrypt env enc of
                    None \<Rightarrow> efail ServerError
                  | Some stored \<Rightarrow> eret (stored, expires_at))
             | Limited wait \<Rightarrow> efail (too_many_attempts wait)) (\<lambda>(c, expires_at).
      ebind (queue_mail now \<lparr>og_user = Some u, og_to = target_email, og_template = template c\<rparr>) (\<lambda>_.
      eret expires_at))))"

definition check_code :: "env \<Rightarrow> request \<Rightarrow> uuid \<Rightarrow> purpose \<Rightarrow> string \<Rightarrow> code_row op" where
  "check_code env rq u p c =
     (let now = rq_now rq in
      ebind (eget (code_failures_since u p (now - days 1))) (\<lambda>failures.
      if failures \<ge> CODE_DAILY_FAILURE_CAP then efail (too_many_attempts 3600)
      else ebind (eget (latest_code u p)) (\<lambda>latest.
      case latest of
        None \<Rightarrow> efail (invalid_code 0)
      | Some stored \<Rightarrow>
          ebind (claim_code_attempt now (vc_id stored) CODE_MAX_ATTEMPTS) (\<lambda>claimed.
          case claimed of
            None \<Rightarrow>
              efail (if vc_attempts stored < CODE_MAX_ATTEMPTS \<and> vc_expires_at stored \<le> now
                     then code_expired else invalid_code 0)
          | Some attempts \<Rightarrow>
              if verify_code env (purpose_key p) (trim c) (vc_code_hash stored) then eret stored
              else ebind (record_code_failure (vc_id stored)) (\<lambda>_.
                   ebind (if attempts \<ge> CODE_MAX_ATTEMPTS then use_code now (vc_id stored) else eret False) (\<lambda>_.
                   efail (invalid_code (CODE_MAX_ATTEMPTS - attempts))))))))"

definition consume_code :: "env \<Rightarrow> request \<Rightarrow> uuid \<Rightarrow> purpose \<Rightarrow> string \<Rightarrow> code_row op" where
  "consume_code env rq u p c =
     ebind (check_code env rq u p c) (\<lambda>stored.
     ebind (use_code (rq_now rq) (vc_id stored)) (\<lambda>first.
     if first then eret stored else efail (invalid_code 0)))"

section \<open>Confirming a sensitive action\<close>

definition check_reauth_password :: "env \<Rightarrow> request \<Rightarrow> user_view \<Rightarrow> string \<Rightarrow> unit op" where
  "check_reauth_password env rq view password =
     (let (u, a, r) = view in
      ebind (claim_reauth_check (rq_now rq) u REAUTH_MAX_FAILURES REAUTH_WINDOW_SECONDS) (\<lambda>claim.
      case claim of
        LimitedFor wait \<Rightarrow> efail (too_many_attempts wait)
      | Allowed _ \<Rightarrow>
          (case check_password env rq password (ac_password_hash a) of
             Inr _ \<Rightarrow> release_reauth_check u
           | Inl e \<Rightarrow>
               if e = WrongPassword
               then ebind (record_reauth_failure rq view) (\<lambda>_. efail WrongPassword)
               else ebind (release_reauth_check u) (\<lambda>_. efail e))))"

record confirmation =
  pr_password :: "string option"
  pr_reauth_code :: "string option"

definition require_recent_auth :: "env \<Rightarrow> request \<Rightarrow> user_view \<Rightarrow> confirmation \<Rightarrow> unit op" where
  "require_recent_auth env rq view given =
     (let (u, a, r) = view in
      if ac_password_set a then
        (case opt_filter (\<lambda>p. p \<noteq> []) (pr_password given) of
           Some password \<Rightarrow> check_reauth_password env rq view password
         | None \<Rightarrow> efail (reauth_required ''password''))
      else
        (case opt_filter (\<lambda>c. c \<noteq> []) (map_option trim (pr_reauth_code given)) of
           None \<Rightarrow> efail (reauth_required ''email_code'')
         | Some c \<Rightarrow>
             ebind (claim_reauth_check (rq_now rq) u REAUTH_MAX_FAILURES REAUTH_WINDOW_SECONDS) (\<lambda>claim.
             case claim of
               LimitedFor wait \<Rightarrow> efail (too_many_attempts wait)
             | Allowed _ \<Rightarrow>
                 ebind (etry (consume_code env rq u Reauth c)) (\<lambda>result.
                 case result of
                   Inr stored \<Rightarrow>
                     ebind (release_reauth_check u) (\<lambda>_.
                     if is_some_and (if email_verified r then us_email r else None)
                          (\<lambda>e. eq_ignore_ascii_case e (vc_target_email stored))
                     then eret () else efail (invalid_code 0))
                 | Inl e \<Rightarrow>
                     if error_code e = ''INVALID_CODE'' \<or> error_code e = ''CODE_EXPIRED''
                     then ebind (record_reauth_failure rq view) (\<lambda>_. efail e)
                     else ebind (release_reauth_check u) (\<lambda>_. efail e)))))"

section \<open>The trial of a proven address\<close>

definition trial_email_hash :: "env \<Rightarrow> string \<Rightarrow> string" where
  "trial_email_hash env email = hash_code env ''trial'' (canonical_email email)"

definition on_trial :: "uuid \<Rightarrow> db \<Rightarrow> bool" where
  "on_trial u db = is_some_and (db_subs db u) (\<lambda>s. sb_source s = TrialSource \<and> sb_status s = Trialing)"

definition start_verified_trial :: "env \<Rightarrow> request \<Rightarrow> uuid \<Rightarrow> string \<Rightarrow> unit op" where
  "start_verified_trial env rq u email =
     (let h = trial_email_hash env email in
      ebind (claim_trial h) (\<lambda>first.
      if \<not> first then eret ()
      else
        ebind (eupdate (\<lambda>s. s\<lparr>va_db := start_registration_trial (rq_now rq) u (va_db s)\<rparr>)) (\<lambda>_.
        ebind (eget (\<lambda>s. on_trial u (va_db s))) (\<lambda>started.
        if started then eret () else release_trial_claim h))))"

definition qualify :: "request \<Rightarrow> uuid \<Rightarrow> unit op" where
  "qualify rq u s =
     (case qualify_referral (rq_now rq) u (va_db s) of
        Inl e \<Rightarrow> (Inl e, s)
      | Inr (_, db) \<Rightarrow> (Inr (), s\<lparr>va_db := db\<rparr>))"

section \<open>Signing in\<close>

definition password_failed :: "request \<Rightarrow> user_view \<Rightarrow> string \<Rightarrow> unit op" where
  "password_failed rq view bucket =
     ebind (record_password_failure (rq_now rq) (fst view) bucket) (\<lambda>failure.
     if or_else (pf_account_lock failure) (pf_network_lock failure) \<noteq> None
     then notify_login_locked (rq_now rq) view else eret ())"

definition login :: "env \<Rightarrow> request \<Rightarrow> string \<Rightarrow> string \<Rightarrow> outcome op" where
  "login env rq username password =
     (if \<not> (1 \<le> length username \<and> length username \<le> 254 \<and> 1 \<le> length password \<and> length password \<le> 256)
      then efail invalid_credentials
      else ebind (eget (find_by_identifier username)) (\<lambda>found.
      case found of
        None \<Rightarrow> ebind (eresult (dummy_verify rq)) (\<lambda>_. efail invalid_credentials)
      | Some (u, a, r) \<Rightarrow>
          let bucket = ip_bucket (rq_ip rq); now = rq_now rq in
          ebind (eget (network_locked_until now u bucket)) (\<lambda>network_lock.
          if network_lock \<noteq> None
          then ebind (eresult (dummy_verify rq)) (\<lambda>_. efail invalid_credentials)
          else
            (case check_password env rq password (ac_password_hash a) of
               Inl e \<Rightarrow>
                 if e = WrongPassword
                 then ebind (password_failed rq (u, a, r) bucket) (\<lambda>_. efail invalid_credentials)
                 else efail e
             | Inr upgrade \<Rightarrow>
                 ebind (case (upgrade, hash_password env rq password) of
                          (True, Inr hash) \<Rightarrow> upgrade_password_hash u (ac_password_hash a) hash
                        | _ \<Rightarrow> eret ()) (\<lambda>_.
                 case locked_until_active now a of
                   Some until \<Rightarrow> efail (account_locked until)
                 | None \<Rightarrow>
                     ebind (eresult (ensure_can_sign_in now a)) (\<lambda>_.
                     let weak = (\<not> ac_must_change_password a
                                 \<and> \<not> is_password_compliant password (Some (ac_username a)))
                     in
                     ebind (if weak then set_must_change_password u True else eret ()) (\<lambda>_.
                     if two_factor_enabled a then create_challenge env rq (u, a, r) ''password'' None
                     else
                       ebind (issue_session env rq (u, a, r) (ac_must_change_password a \<or> weak) False)
                         (\<lambda>session. eret (Session session))))))))) "

record two_factor_payload =
  tf_challenge_token :: string
  tf_code :: "string option"
  tf_recovery_code :: "string option"

definition two_factor_payload_valid :: "two_factor_payload \<Rightarrow> bool" where
  "two_factor_payload_valid p =
     (1 \<le> length (tf_challenge_token p) \<and> length (tf_challenge_token p) \<le> 128
      \<and> is_none_or (tf_code p) (\<lambda>c. 6 \<le> length c \<and> length c \<le> 8)
      \<and> is_none_or (tf_recovery_code p) (\<lambda>c. 8 \<le> length c \<and> length c \<le> 16))"

definition link_google_identity :: "request \<Rightarrow> user_view \<Rightarrow> string \<Rightarrow> string \<Rightarrow> unit op" where
  "link_google_identity rq view subject email =
     ebind (link_identity (rq_now rq) (fst view) ''google'' subject (Some email)) (\<lambda>_.
     ebind (send_security_notice (rq_now rq) view ''google_linked'' (Some (mask_email email)) None) (\<lambda>_.
     security_alert (fst view) ''google_linked''))"

definition has_google :: "uuid \<Rightarrow> vault \<Rightarrow> bool" where
  "has_google u s = list_ex (\<lambda>i. oi_provider i = ''google'') (list_identities u s)"

definition link_pending :: "request \<Rightarrow> user_view \<Rightarrow> challenge_row \<Rightarrow> unit op" where
  "link_pending rq view challenge =
     (case lc_pending_link challenge of
        None \<Rightarrow> eret ()
      | Some (subject, email) \<Rightarrow>
          ebind (eget (\<lambda>s. find_identity ''google'' subject s = None \<and> \<not> has_google (fst view) s)) (\<lambda>free.
          if free then link_google_identity rq view subject email else eret ()))"

text \<open>Before the attempt is claimed: the account has to be able to sign in at all.\<close>

definition two_factor_account :: "request \<Rightarrow> challenge_row \<Rightarrow> user_view op" where
  "two_factor_account rq challenge =
     (let now = rq_now rq in
      if lc_consumed_at challenge \<noteq> None then efail (invalid_two_factor_code (Some 0))
      else if lc_expires_at challenge \<le> now then efail code_expired
      else ebind (eget (find_view (lc_user challenge))) (\<lambda>found.
      case found of
        None \<Rightarrow> efail (invalid_two_factor_code None)
      | Some (u, a, r) \<Rightarrow>
          if is_some_and (ac_password_changed_at a) (\<lambda>t. lc_created_at challenge < t)
          then efail (invalid_two_factor_code (Some 0))
          else case locked_until_active now a of
            Some until \<Rightarrow> efail (account_locked until)
          | None \<Rightarrow>
              ebind (eresult (ensure_can_sign_in now a)) (\<lambda>_.
              ebind (ensure_sign_in_allowed r) (\<lambda>_. eret (u, a, r)))))"

definition second_step_failed :: "request \<Rightarrow> user_view \<Rightarrow> challenge_row \<Rightarrow> int \<Rightarrow> session op" where
  "second_step_failed rq view challenge attempts =
     ebind (if attempts \<ge> CHALLENGE_MAX_ATTEMPTS then consume_challenge (rq_now rq) (lc_id challenge)
            else eret False) (\<lambda>_.
     ebind (record_failed_login (rq_now rq) (fst view) LOCKOUT_THRESHOLD) (\<lambda>(failures, lock).
     case lock of
       Some until \<Rightarrow> ebind (notify_login_locked (rq_now rq) view) (\<lambda>_. efail (account_locked until))
     | None \<Rightarrow> efail (invalid_two_factor_code (Some (CHALLENGE_MAX_ATTEMPTS - attempts)))))"

definition login_two_factor :: "env \<Rightarrow> request \<Rightarrow> two_factor_payload \<Rightarrow> session op" where
  "login_two_factor env rq payload =
     (if \<not> two_factor_payload_valid payload then efail ValidationError
      else
      ebind (eget (find_challenge (ev_sha256 env (trim (tf_challenge_token payload))))) (\<lambda>found.
      case found of
        None \<Rightarrow> efail (invalid_two_factor_code None)
      | Some challenge \<Rightarrow>
          ebind (two_factor_account rq challenge) (\<lambda>view.
          if (tf_code payload = None) = (tf_recovery_code payload = None) then efail BadRequest
          else
          ebind (claim_challenge_attempt (rq_now rq) (lc_id challenge) CHALLENGE_MAX_ATTEMPTS) (\<lambda>claimed.
          case claimed of
            None \<Rightarrow>
              efail (if lc_expires_at challenge \<le> rq_now rq then code_expired
                     else invalid_two_factor_code (Some 0))
          | Some attempts \<Rightarrow>
              ebind (case (tf_code payload, tf_recovery_code payload) of
                       (Some c, _) \<Rightarrow> check_totp env rq view c
                     | (None, Some c) \<Rightarrow> use_recovery_code env rq (fst view) c
                     | (None, None) \<Rightarrow> eret False) (\<lambda>accepted.
              if \<not> accepted then second_step_failed rq view challenge attempts
              else
                ebind (consume_challenge (rq_now rq) (lc_id challenge)) (\<lambda>first.
                if \<not> first then efail (invalid_two_factor_code (Some 0))
                else
                  ebind (link_pending rq view challenge) (\<lambda>_.
                  issue_session env rq view (ac_must_change_password (fst (snd view))) False)))))))"

section \<open>Keeping a session\<close>

definition verify_session :: "(string \<Rightarrow> time \<Rightarrow> claims option) \<Rightarrow> request \<Rightarrow> string \<Rightarrow> claims op" where
  "verify_session verify rq token s =
     (case decode_jwt verify (rq_now rq) token of
        Inl _ \<Rightarrow> (Inl session_revoked, s)
      | Inr claims \<Rightarrow>
          (case check_claims (current_auth_state s) (rq_now rq) claims None of
             Inl e \<Rightarrow> (Inl session_revoked, s)
           | Inr _ \<Rightarrow> (Inr claims, s)))"

definition refresh :: "env \<Rightarrow> (string \<Rightarrow> time \<Rightarrow> claims option) \<Rightarrow> request \<Rightarrow> string \<Rightarrow> claims op" where
  "refresh env verify rq token s =
     (case decode_jwt verify (rq_now rq) token of
        Inl _ \<Rightarrow> (Inl session_revoked, s)
      | Inr claims \<Rightarrow>
          if cl_imp claims \<noteq> None then (Inl session_revoked, s)
          else case check_claims (current_auth_state s) (rq_now rq) claims None of
             Inl e \<Rightarrow> (Inl session_revoked, s)
           | Inr current \<Rightarrow>
               (Inr (renew_claims (rq_now rq) (ev_session_seconds env) (cl_sub claims) current), s))"

section \<open>Password recovery\<close>

text \<open>Always the same answer, whether or not there is an account.\<close>

definition forgot_password :: "env \<Rightarrow> request \<Rightarrow> string \<Rightarrow> unit op" where
  "forgot_password env rq identifier =
     (if \<not> (1 \<le> length identifier \<and> length identifier \<le> 254) then efail ValidationError
      else ebind (eget (find_by_identifier identifier)) (\<lambda>found.
      case found of
        Some (u, a, r) \<Rightarrow>
          (case us_email r of
             Some email \<Rightarrow>
               if ac_status a = StatusActive
               then ebind (etry (send_code env rq u PasswordReset email PasswordResetCode)) (\<lambda>_. eret ())
               else eret ()
           | None \<Rightarrow> eret ())
      | None \<Rightarrow> eret ()))"

record reset_payload =
  rp_identifier :: string
  rp_code :: string
  rp_new_password :: string

definition check_reset_code :: "env \<Rightarrow> request \<Rightarrow> reset_payload \<Rightarrow> (user_view \<times> code_row) op" where
  "check_reset_code env rq payload =
     ebind (eget (\<lambda>s. opt_filter (\<lambda>(_, a, _). ac_status a = StatusActive)
                        (find_by_identifier (rp_identifier payload) s))) (\<lambda>found.
     case found of
       None \<Rightarrow> efail invalid_code_plain
     | Some view \<Rightarrow>
         ebind (emap_err (\<lambda>e. case e of DatabaseError _ \<Rightarrow> e | ServerError \<Rightarrow> e | _ \<Rightarrow> invalid_code_plain)
                  (check_code env rq (fst view) PasswordReset (rp_code payload))) (\<lambda>stored.
         eret (view, stored)))"

definition after_recovery :: "env \<Rightarrow> request \<Rightarrow> user_view \<Rightarrow> code_row \<Rightarrow> bool \<Rightarrow> unit op" where
  "after_recovery env rq view stored verifies_email =
     (let (u, a, r) = view in
      ebind (case us_email r of
               Some email \<Rightarrow>
                 if verifies_email \<or> email_verified r
                 then queue_mail (rq_now rq)
                        \<lparr>og_user = Some u, og_to = email, og_template = PasswordChangedMail\<rparr>
                 else eret ()
             | None \<Rightarrow> eret ()) (\<lambda>_.
      ebind (security_alert u ''password_changed'') (\<lambda>_.
      if verifies_email \<and> us_email_verified_at r = None
      then ebind (qualify rq u) (\<lambda>_. start_verified_trial env rq u (vc_target_email stored))
      else eret ())))"

definition reset_password :: "env \<Rightarrow> request \<Rightarrow> reset_payload \<Rightarrow> unit op" where
  "reset_password env rq payload =
     (if \<not> (1 \<le> length (rp_identifier payload) \<and> length (rp_identifier payload) \<le> 254
            \<and> length (rp_code payload) = 6 \<and> length (rp_new_password payload) \<le> 1024)
      then efail ValidationError
      else
      ebind (check_reset_code env rq payload) (\<lambda>(view, stored).
      let (u, a, r) = view;
          issues = password_issues_checked (ev_breached env) (rp_new_password payload) (Some (ac_username a))
      in if issues \<noteq> []
         then ebind (release_code_attempt (vc_id stored)) (\<lambda>_. efail (weak_password issues))
         else
           ebind (use_code (rq_now rq) (vc_id stored)) (\<lambda>first.
           if \<not> first then efail invalid_code_plain
           else
             let verifies_email = is_some_and (us_email r)
                   (\<lambda>e. eq_ignore_ascii_case e (vc_target_email stored))
             in
             ebind (eresult (hash_password env rq (rp_new_password payload))) (\<lambda>hash.
             ebind (recover_password (rq_now rq) u hash verifies_email) (\<lambda>_.
             after_recovery env rq view stored verifies_email)))))"

end
