(* ===== verification/VaultLaws.thy ===== *)
theory VaultLaws
  imports SignIn
begin

text \<open>
  One-time secrets under any interleaving of requests: the statements of the security tables, run
  in any order (each request's statements between those of the others), use a code, a challenge
  or a recovery code at most once, let a code or challenge be guessed at five times, and a time
  step of an authenticator count once.
\<close>

section \<open>Statements in any order\<close>

datatype vault_event =
    CodeChecked uuid | CodeReleased uuid | CodeUsed uuid
  | ChallengeChecked uuid | ChallengeUsed uuid
  | RecoveryUsed uuid
  | StepUsed uuid int | FactorReset uuid
  | Quiet

definition last_step :: "vault \<Rightarrow> uuid \<Rightarrow> int option option" where
  "last_step s u = map_option ac_totp_last_step (map_of (va_accounts s) u)"

text \<open>Everything that touches none of the secrets (the other columns, counters, mail, ids drawn).\<close>

definition secrets_untouched :: "vault \<Rightarrow> vault \<Rightarrow> bool" where
  "secrets_untouched s s' \<longleftrightarrow>
     va_codes s' = va_codes s \<and> va_challenges s' = va_challenges s \<and> va_recovery s' = va_recovery s
     \<and> last_step s' = last_step s \<and> va_next s \<le> va_next s'"

inductive vault_step :: "vault \<Rightarrow> vault_event \<Rightarrow> vault \<Rightarrow> bool" where
  code_issued: "create_code now u p h enc target expires_at left requester limits s = (Inr issue, s')
    \<Longrightarrow> vault_step s Quiet s'"
| code_checked: "claim_code_attempt now i CODE_MAX_ATTEMPTS s = (Inr (Some n), s')
    \<Longrightarrow> vault_step s (CodeChecked i) s'"
| code_refused: "claim_code_attempt now i CODE_MAX_ATTEMPTS s = (Inr None, s') \<Longrightarrow> vault_step s Quiet s'"
| code_missed: "record_code_failure i s = (Inr (), s') \<Longrightarrow> vault_step s Quiet s'"
| code_released: "release_code_attempt i s = (Inr (), s') \<Longrightarrow> vault_step s (CodeReleased i) s'"
| code_used: "use_code now i s = (Inr True, s') \<Longrightarrow> vault_step s (CodeUsed i) s'"
| code_lost: "use_code now i s = (Inr False, s') \<Longrightarrow> vault_step s Quiet s'"
| challenged: "store_challenge now u h method expires_at link s = (Inr (), s') \<Longrightarrow> vault_step s Quiet s'"
| challenge_checked: "claim_challenge_attempt now i CHALLENGE_MAX_ATTEMPTS s = (Inr (Some n), s')
    \<Longrightarrow> vault_step s (ChallengeChecked i) s'"
| challenge_refused: "claim_challenge_attempt now i CHALLENGE_MAX_ATTEMPTS s = (Inr None, s')
    \<Longrightarrow> vault_step s Quiet s'"
| challenge_used: "consume_challenge now i s = (Inr True, s') \<Longrightarrow> vault_step s (ChallengeUsed i) s'"
| challenge_lost: "consume_challenge now i s = (Inr False, s') \<Longrightarrow> vault_step s Quiet s'"
| recovery_issued: "replace_recovery_codes u hashes s = (Inr (), s') \<Longrightarrow> vault_step s Quiet s'"
| recovery_dropped: "delete_recovery_codes u s = (Inr (), s') \<Longrightarrow> vault_step s Quiet s'"
| recovery_used: "use_recovery_row now u h s = (Inr (Some i), s') \<Longrightarrow> vault_step s (RecoveryUsed i) s'"
| recovery_refused: "use_recovery_row now u h s = (Inr None, s') \<Longrightarrow> vault_step s Quiet s'"
| step_used: "claim_totp_step u step s = (Inr True, s') \<Longrightarrow> vault_step s (StepUsed u step) s'"
| step_refused: "claim_totp_step u step s = (Inr False, s') \<Longrightarrow> vault_step s Quiet s'"
| factor_enabled: "enable_totp now u step s = (Inr True, s') \<Longrightarrow> vault_step s (FactorReset u) s'"
| factor_not_enabled: "enable_totp now u step s = (Inr False, s') \<Longrightarrow> vault_step s Quiet s'"
| factor_disabled: "disable_totp u s = (Inr (), s') \<Longrightarrow> vault_step s (FactorReset u) s'"
| recovered_first: "recover_password now u hash verify s = (Inr True, s') \<Longrightarrow> vault_step s (FactorReset u) s'"
| recovered: "recover_password now u hash verify s = (Inr False, s') \<Longrightarrow> vault_step s Quiet s'"
| password_set: "set_password now u hash must_change revoke s = (Inr (), s') \<Longrightarrow> vault_step s Quiet s'"
| signed_out: "revoke_sessions now u s = (Inr (), s') \<Longrightarrow> vault_step s Quiet s'"
| email_changed: "change_email now u email s = (Inr (), s') \<Longrightarrow> vault_step s Quiet s'"
| email_detached: "detach_unverified_email now u s = (Inr b, s') \<Longrightarrow> vault_step s Quiet s'"
| purged: "purge_expired now s = (Inr n, s') \<Longrightarrow> vault_step s Quiet s'"
| elsewhere: "secrets_untouched s s' \<Longrightarrow> vault_step s Quiet s'"

text \<open>A run, its last event first.\<close>

inductive vault_run :: "vault \<Rightarrow> vault_event list \<Rightarrow> vault \<Rightarrow> bool" where
  start: "vault_run s [] s"
| further: "vault_run s tr s' \<Longrightarrow> vault_step s' e s'' \<Longrightarrow> vault_run s (e # tr) s''"

section \<open>Tickets\<close>

text \<open>
  What the three kinds of secret have in common: an id, whether it is still live, and the
  attempts made on it. \<open>checked\<close>, \<open>released\<close> and \<open>used\<close> count the events of an id.
\<close>

type_synonym ticket = "uuid \<times> bool \<times> int"

definition tickets_ok ::
  "uuid \<Rightarrow> ticket list \<Rightarrow> (uuid \<Rightarrow> nat) \<Rightarrow> (uuid \<Rightarrow> nat) \<Rightarrow> (uuid \<Rightarrow> nat) \<Rightarrow> bool"
where
  "tickets_ok next_id ts checked released used \<longleftrightarrow>
     distinct (map fst ts)
     \<and> (\<forall>i. used i \<le> 1 \<and> checked i \<le> 5 + released i)
     \<and> (\<forall>(i, live, n) \<in> set ts. i < next_id \<and> 0 \<le> n \<and> n \<le> 5
          \<and> int (checked i) \<le> n + int (released i) \<and> (live \<longrightarrow> used i = 0))
     \<and> (\<forall>i \<ge> next_id. checked i = 0 \<and> used i = 0)"

text \<open>Rows may go away, lose their attempts' worth or be spent; new ones have fresh ids.\<close>

definition spent_down :: "ticket list \<Rightarrow> ticket list \<Rightarrow> bool" where
  "spent_down ts ts' \<longleftrightarrow> distinct (map fst ts')
     \<and> (\<forall>(i, live, n) \<in> set ts'. \<exists>live0. (i, live0, n) \<in> set ts \<and> (live \<longrightarrow> live0))"

lemma tickets_spent:
  assumes "tickets_ok k ts checked released used" and "spent_down ts ts'" and "k \<le> k'"
  shows "tickets_ok k' ts' checked released used"
  using assms unfolding tickets_ok_def spent_down_def by fastforce

lemma tickets_new:
  assumes "tickets_ok k ts checked released used" and "distinct (map fst new)"
    and "\<forall>(i, live, n) \<in> set new. k \<le> i \<and> i < k' \<and> n = 0" and "k \<le> k'"
  shows "tickets_ok k' (ts @ new) checked released used"
proof -
  have "fst ` set ts \<inter> fst ` set new = {}"
    using assms(1,3) unfolding tickets_ok_def by fastforce
  moreover have "\<forall>(i, live, n) \<in> set new. checked i = 0 \<and> used i = 0"
    using assms(1,3) unfolding tickets_ok_def by fastforce
  ultimately show ?thesis
    using assms unfolding tickets_ok_def by fastforce
qed

lemma tickets_check:
  assumes "tickets_ok k ts checked released used" and "(i, True, n) \<in> set ts" and "n < 5"
    and "ts' = map (\<lambda>(j, l, m). (j, l, if j = i then m + 1 else m)) ts"
  shows "tickets_ok k ts' (checked(i := checked i + 1)) released used \<and> used i = 0"
proof -
  have fst': "map fst ts' = map fst ts" unfolding assms(4) by (simp add: o_def split_beta)
  have only: "m = n" if "(i, l, m) \<in> set ts" for l m
    using that assms(1,2) unfolding tickets_ok_def by (metis eq_key_imp_eq_value prod.inject)
  have row: "i < k \<and> 0 \<le> n \<and> n \<le> 5 \<and> int (checked i) \<le> n + int (released i) \<and> used i = 0"
    using assms(1,2) unfolding tickets_ok_def by fastforce
  have rows: "\<forall>(j, l, m) \<in> set ts'. j < k \<and> 0 \<le> m \<and> m \<le> 5
      \<and> int ((checked(i := checked i + 1)) j) \<le> m + int (released j) \<and> (l \<longrightarrow> used j = 0)"
    using assms(1,3) only unfolding assms(4) tickets_ok_def by fastforce
  have "checked i + 1 \<le> 5 + released i" using row assms(3) by linarith
  with assms(1) row rows fst' show ?thesis unfolding tickets_ok_def by auto
qed

lemma tickets_release:
  assumes "tickets_ok k ts checked released used"
    and "ts' = map (\<lambda>(j, l, m). (j, l, if j = i \<and> l then max (m - 1) 0 else m)) ts"
  shows "tickets_ok k ts' checked (released(i := released i + 1)) used"
proof -
  have fst': "map fst ts' = map fst ts" unfolding assms(2) by (simp add: o_def split_beta)
  have rows: "\<forall>(j, l, m) \<in> set ts'. j < k \<and> 0 \<le> m \<and> m \<le> 5
      \<and> int (checked j) \<le> m + int ((released(i := released i + 1)) j) \<and> (l \<longrightarrow> used j = 0)"
    using assms(1) unfolding assms(2) tickets_ok_def by fastforce
  moreover have "\<forall>j. used j \<le> 1 \<and> checked j \<le> 5 + (released(i := released i + 1)) j"
    using assms(1) unfolding tickets_ok_def by (auto intro: le_trans)
  moreover have "distinct (map fst ts)" "\<forall>j \<ge> k. checked j = 0 \<and> used j = 0"
    using assms(1) unfolding tickets_ok_def by blast+
  ultimately show ?thesis unfolding tickets_ok_def fst' using rows by (intro conjI)
qed

lemma tickets_use:
  assumes "tickets_ok k ts checked released used" and "(i, True, n) \<in> set ts"
    and "ts' = map (\<lambda>(j, l, m). (j, l \<and> j \<noteq> i, m)) ts"
  shows "tickets_ok k ts' checked released (used(i := used i + 1))"
proof -
  have fst': "map fst ts' = map fst ts" unfolding assms(3) by (simp add: o_def split_beta)
  have row: "i < k \<and> used i = 0" using assms(1,2) unfolding tickets_ok_def by fastforce
  have "\<forall>(j, l, m) \<in> set ts'. j < k \<and> 0 \<le> m \<and> m \<le> 5
      \<and> int (checked j) \<le> m + int (released j) \<and> (l \<longrightarrow> (used(i := used i + 1)) j = 0)"
    using assms(1) unfolding assms(3) tickets_ok_def by fastforce
  with assms(1) row fst' show ?thesis unfolding tickets_ok_def by auto
qed

lemma spent_downI:
  assumes "distinct (map fst ts')"
    and "\<And>i l n. (i, l, n) \<in> set ts' \<Longrightarrow> \<exists>l0. (i, l0, n) \<in> set ts \<and> (l \<longrightarrow> l0)"
  shows "spent_down ts ts'"
  using assms unfolding spent_down_def by blast

lemma spent_rows:
  assumes "distinct (map fst (map t rows))"
    and "\<And>c. c \<in> set rows \<Longrightarrow> fst (t (f c)) = fst (t c) \<and> snd (snd (t (f c))) = snd (snd (t c))
           \<and> (fst (snd (t (f c))) \<longrightarrow> fst (snd (t c)))"
  shows "spent_down (map t rows) (map t (map f rows))"
proof -
  have "map fst (map t (map f rows)) = map fst (map t rows)" using assms(2) by simp
  moreover have "\<exists>l0. (i, l0, n) \<in> set (map t rows) \<and> (l \<longrightarrow> l0)"
    if row: "(i, l, n) \<in> set (map t (map f rows))" for i l n
  proof -
    from row obtain c where c: "c \<in> set rows" "(i, l, n) = t (f c)" by auto
    obtain j l0 m where t: "t c = (j, l0, m)" by (cases "t c")
    have "j = i \<and> m = n \<and> (l \<longrightarrow> l0)" using assms(2) [OF c(1)] unfolding t c(2) [symmetric] by simp
    with t have "t c = (i, l0, n) \<and> (l \<longrightarrow> l0)" by simp
    with c(1) show ?thesis by force
  qed
  ultimately show ?thesis using assms(1) by (intro spent_downI) metis+
qed

lemma spent_rows_filter: "distinct (map fst (map t rows)) \<Longrightarrow> spent_down (map t rows) (map t (filter P rows))"
  by (rule spent_downI) (use distinct_map_filter [of "fst \<circ> t"] in \<open>force simp: o_def\<close>)+

lemma spent_down_filter: "distinct (map fst ts) \<Longrightarrow> spent_down ts (filter P ts)"
  by (auto simp: spent_down_def distinct_map_filter)

lemma spent_down_refl: "distinct (map fst ts) \<Longrightarrow> spent_down ts ts"
  by (auto simp: spent_down_def)

lemma spent_down_trans: "spent_down a b \<Longrightarrow> spent_down b c \<Longrightarrow> spent_down a c"
  unfolding spent_down_def by fastforce

section \<open>The rows as tickets\<close>

definition code_tickets :: "vault \<Rightarrow> ticket list" where
  "code_tickets s = map (\<lambda>c. (vc_id c, live_code c, vc_attempts c)) (va_codes s)"

definition challenge_tickets :: "vault \<Rightarrow> ticket list" where
  "challenge_tickets s = map (\<lambda>c. (lc_id c, live_challenge c, lc_attempts c)) (va_challenges s)"

definition recovery_tickets :: "vault \<Rightarrow> ticket list" where
  "recovery_tickets s = map (\<lambda>c. (rc_id c, rc_used_at c = None, 0)) (va_recovery s)"

text \<open>The time steps used since the second factor was last set up, the latest first.\<close>

fun steps_since_reset :: "uuid \<Rightarrow> vault_event list \<Rightarrow> int list" where
  "steps_since_reset u [] = []"
| "steps_since_reset u (e # tr) =
     (if e = FactorReset u then []
      else case e of StepUsed v step \<Rightarrow> (if v = u then [step] else []) @ steps_since_reset u tr
           | _ \<Rightarrow> steps_since_reset u tr)"

text \<open>No secret is checked once it was used.\<close>

fun checked_unused :: "vault_event list \<Rightarrow> bool" where
  "checked_unused [] = True"
| "checked_unused (e # tr) =
     ((case e of CodeChecked i \<Rightarrow> CodeUsed i \<notin> set tr
       | ChallengeChecked i \<Rightarrow> ChallengeUsed i \<notin> set tr
       | _ \<Rightarrow> True) \<and> checked_unused tr)"

abbreviation events :: "(uuid \<Rightarrow> vault_event) \<Rightarrow> vault_event list \<Rightarrow> uuid \<Rightarrow> nat" where
  "events e tr \<equiv> \<lambda>i. count_list tr (e i)"

definition steps_ok :: "vault_event list \<Rightarrow> vault \<Rightarrow> bool" where
  "steps_ok tr s \<longleftrightarrow> (\<forall>u. sorted_wrt (>) (steps_since_reset u tr)
     \<and> (steps_since_reset u tr \<noteq> [] \<longrightarrow>
          (\<exists>l. last_step s u = Some (Some l) \<and> hd (steps_since_reset u tr) \<le> l)))"

definition secrets_ok :: "vault_event list \<Rightarrow> vault \<Rightarrow> bool" where
  "secrets_ok tr s \<longleftrightarrow>
     tickets_ok (va_next s) (code_tickets s) (events CodeChecked tr) (events CodeReleased tr) (events CodeUsed tr)
     \<and> tickets_ok (va_next s) (challenge_tickets s) (events ChallengeChecked tr) (\<lambda>_. 0) (events ChallengeUsed tr)
     \<and> tickets_ok (va_next s) (recovery_tickets s) (\<lambda>_. 0) (\<lambda>_. 0) (events RecoveryUsed tr)
     \<and> steps_ok tr s \<and> checked_unused tr"


section \<open>What the statements do to the tickets\<close>

definition grown :: "uuid \<Rightarrow> uuid \<Rightarrow> ticket list \<Rightarrow> ticket list \<Rightarrow> bool" where
  "grown k k' ts ts' \<longleftrightarrow> k \<le> k' \<and> (distinct (map fst ts) \<longrightarrow>
     (\<exists>old new. ts' = old @ new \<and> spent_down ts old \<and> distinct (map fst new)
        \<and> (\<forall>(i, live, n) \<in> set new. k \<le> i \<and> i < k' \<and> n = 0)))"

lemma tickets_grown:
  assumes "tickets_ok k ts checked released used" and "grown k k' ts ts'"
  shows "tickets_ok k' ts' checked released used"
proof -
  from assms have "distinct (map fst ts)" by (simp add: tickets_ok_def)
  with assms(2) obtain old new where n: "ts' = old @ new" "spent_down ts old" "distinct (map fst new)"
    "\<forall>(i, live, n) \<in> set new. k \<le> i \<and> i < k' \<and> n = 0" "k \<le> k'"
    by (auto simp: grown_def)
  have "tickets_ok k old checked released used" by (rule tickets_spent [OF assms(1) n(2) order_refl])
  then show ?thesis unfolding n(1) by (rule tickets_new [OF _ n(3-5)])
qed

lemma grown_spent: "(distinct (map fst ts) \<Longrightarrow> spent_down ts ts') \<Longrightarrow> k \<le> k' \<Longrightarrow> grown k k' ts ts'"
  unfolding grown_def by (intro conjI impI exI [of _ ts'] exI [of _ "[]"]) simp_all

lemma grown_refl: "k \<le> k' \<Longrightarrow> grown k k' ts ts"
  by (simp add: grown_spent spent_down_refl)

lemma grown_new:
  assumes "distinct (map fst ts) \<Longrightarrow> spent_down ts old" and "k \<le> k'" and "distinct (map fst new)"
    and "\<forall>(i, live, n) \<in> set new. k \<le> i \<and> i < k' \<and> n = 0"
  shows "grown k k' ts (old @ new)"
  unfolding grown_def using assms by blast

text \<open>A statement that spends secrets or issues new ones, and uses none.\<close>

definition quiet_step :: "vault \<Rightarrow> vault \<Rightarrow> bool" where
  "quiet_step s s' \<longleftrightarrow>
     grown (va_next s) (va_next s') (code_tickets s) (code_tickets s')
     \<and> grown (va_next s) (va_next s') (challenge_tickets s) (challenge_tickets s')
     \<and> grown (va_next s) (va_next s') (recovery_tickets s) (recovery_tickets s')"

lemma quiet_untouched: "secrets_untouched s s' \<Longrightarrow> quiet_step s s'"
  by (simp add: secrets_untouched_def quiet_step_def grown_refl code_tickets_def challenge_tickets_def
      recovery_tickets_def)

lemma tickets_consumed [simp]:
  "challenge_tickets (consume_codes now P s) = challenge_tickets s"
  "recovery_tickets (consume_codes now P s) = recovery_tickets s"
  "va_next (consume_codes now P s) = va_next s" "last_step (consume_codes now P s) = last_step s"
  "code_tickets (consume_challenges now Q s) = code_tickets s"
  "recovery_tickets (consume_challenges now Q s) = recovery_tickets s"
  "va_next (consume_challenges now Q s) = va_next s" "last_step (consume_challenges now Q s) = last_step s"
  by (simp_all add: consume_codes_def consume_challenges_def challenge_tickets_def recovery_tickets_def
      code_tickets_def last_step_def fun_eq_iff)

lemma spent_consume_codes:
  assumes "distinct (map fst (code_tickets s))"
  shows "spent_down (code_tickets s) (code_tickets (consume_codes now P s))"
  using assms unfolding code_tickets_def consume_codes_def update_where_def
  by (simp del: map_map, intro spent_rows) (auto simp: live_code_def)

lemma spent_consume_challenges:
  assumes "distinct (map fst (challenge_tickets s))"
  shows "spent_down (challenge_tickets s) (challenge_tickets (consume_challenges now P s))"
  using assms unfolding challenge_tickets_def consume_challenges_def update_where_def
  by (simp del: map_map, intro spent_rows) (auto simp: live_challenge_def)

lemma map_of_update_account:
  "map_of (va_accounts (update_account u f s)) v
     = map_option (if v = u then f else id) (map_of (va_accounts s) v)"
proof -
  have "map_of (map (\<lambda>(i, a). (i, if i = u then f a else a)) xs) v
      = map_option (if v = u then f else id) (map_of xs v)" for xs
    by (induction xs) (auto simp: option.map_id)
  then show ?thesis by (simp add: update_account_def)
qed

lemma tickets_update [simp]:
  "code_tickets (update_account u f s) = code_tickets s"
  "challenge_tickets (update_account u f s) = challenge_tickets s"
  "recovery_tickets (update_account u f s) = recovery_tickets s"
  "va_next (update_account u f s) = va_next s"
  "code_tickets (update_user u g s) = code_tickets s"
  "challenge_tickets (update_user u g s) = challenge_tickets s"
  "recovery_tickets (update_user u g s) = recovery_tickets s"
  "va_next (update_user u g s) = va_next s" "last_step (update_user u g s) = last_step s"
  by (simp_all add: update_account_def update_user_def code_tickets_def challenge_tickets_def
      recovery_tickets_def last_step_def fun_eq_iff)

lemma last_step_update:
  "last_step (update_account u f s) v
     = (if v = u then map_option (\<lambda>a. ac_totp_last_step (f a)) (map_of (va_accounts s) u) else last_step s v)"
  by (simp add: last_step_def map_of_update_account option.map_comp o_def option.map_id)

lemma last_step_kept:
  "(\<And>a. ac_totp_last_step (f a) = ac_totp_last_step a) \<Longrightarrow> last_step (update_account u f s) = last_step s"
  by (rule ext) (auto simp: last_step_update, simp add: last_step_def)

lemma quiet_consume:
  assumes "code_tickets s0 = code_tickets s" and "challenge_tickets s0 = challenge_tickets s"
    and "recovery_tickets s0 = recovery_tickets s" and "va_next s0 = va_next s"
  shows "quiet_step s (consume_codes now P (consume_challenges now Q s0))"
    and "quiet_step s (consume_codes now P s0)" and "quiet_step s (consume_challenges now Q s0)"
  using spent_consume_codes [of "consume_challenges now Q s0" now P] spent_consume_codes [of s0 now P]
    spent_consume_challenges [of s0 now Q] assms
  by (auto simp: quiet_step_def intro!: grown_spent grown_refl spent_down_refl)

lemma quiet_invalidate:
  assumes "code_tickets s0 = code_tickets s" and "challenge_tickets s0 = challenge_tickets s"
    and "recovery_tickets s0 = recovery_tickets s" and "va_next s0 = va_next s"
  shows "quiet_step s (invalidate_pending now u s0)"
  unfolding invalidate_pending_def by (rule quiet_consume(1) [OF assms])

lemma last_step_invalidate [simp]: "last_step (invalidate_pending now u s) = last_step s"
  by (simp add: invalidate_pending_def)

definition quiet_kept :: "vault \<Rightarrow> vault \<Rightarrow> bool" where
  "quiet_kept s s' \<longleftrightarrow> quiet_step s s' \<and> last_step s' = last_step s"

lemma kept_same [simp]: "quiet_kept s s"
  by (simp add: quiet_kept_def quiet_step_def grown_refl)

lemma quiet_step_refl [simp]: "quiet_step s s"
  by (simp add: quiet_step_def grown_refl)

lemma kept_set_password: "set_password now u hash b c s = (r, s') \<Longrightarrow> quiet_kept s s'"
  by (auto simp: set_password_def quiet_kept_def quiet_invalidate last_step_kept split: if_splits)

lemma kept_revoke: "revoke_sessions now u s = (r, s') \<Longrightarrow> quiet_kept s s'"
  by (auto simp: revoke_sessions_def quiet_kept_def quiet_invalidate last_step_kept split: if_splits)

lemma kept_change_email: "change_email now u email s = (r, s') \<Longrightarrow> quiet_kept s s'"
  by (auto simp: change_email_def quiet_kept_def quiet_invalidate last_step_kept)

lemma kept_detach: "detach_unverified_email now u s = (r, s') \<Longrightarrow> quiet_kept s s'"
  by (auto simp: detach_unverified_email_def quiet_kept_def quiet_invalidate split: option.splits if_splits)

lemma kept_use_code: "use_code now i s = (r, s') \<Longrightarrow> quiet_kept s s'"
  by (auto simp: use_code_def quiet_kept_def quiet_consume)

lemma kept_consume_challenge: "consume_challenge now i s = (r, s') \<Longrightarrow> quiet_kept s s'"
  by (auto simp: consume_challenge_def quiet_kept_def quiet_consume)

lemma kept_create_code:
  assumes "create_code now u p h enc target expires_at left requester limits s = (r, s')"
  shows "quiet_kept s s'"
proof (cases "code_wait now u p requester limits s")
  case (Some wait)
  with assms show ?thesis by (simp add: create_code_def)
next
  case None
  define s1 where "s1 = s\<lparr>va_requests := va_requests s
    @ [\<lparr>vr_user = u, vr_purpose = p, vr_requester = requester, vr_created_at = now\<rparr>]\<rparr>"
  define s2 where "s2 = consume_codes now (\<lambda>c. vc_user c = u \<and> vc_purpose c = p) s1"
  have s1: "code_tickets s1 = code_tickets s" "challenge_tickets s1 = challenge_tickets s"
    "recovery_tickets s1 = recovery_tickets s" "va_next s1 = va_next s" "last_step s1 = last_step s"
    by (simp_all add: s1_def code_tickets_def challenge_tickets_def recovery_tickets_def last_step_def fun_eq_iff)
  from assms None consider "s' = s1" | row where "s' = s2\<lparr>va_codes := va_codes s2 @ [row], va_next := va_next s2 + 1\<rparr>"
      "vc_id row = va_next s2" "vc_attempts row = 0"
    by (auto simp: create_code_def s1_def [symmetric] s2_def [symmetric] Let_def split: option.splits)
  then show ?thesis
  proof cases
    case 1
    then show ?thesis using s1 by (simp add: quiet_kept_def quiet_step_def grown_refl)
  next
    case 2
    have codes: "code_tickets s' = code_tickets s2 @ [(va_next s, live_code row, 0)]"
      using 2 s1(4) by (simp add: code_tickets_def s2_def)
    have "distinct (map fst (code_tickets s)) \<Longrightarrow> spent_down (code_tickets s) (code_tickets s2)"
      using spent_consume_codes [of s1] s1 by (simp add: s2_def)
    then have "grown (va_next s) (va_next s') (code_tickets s) (code_tickets s')"
      unfolding codes using 2 s1(4) by (intro grown_new) (simp_all add: s2_def)
    moreover have "challenge_tickets s' = challenge_tickets s" "recovery_tickets s' = recovery_tickets s"
      "last_step s' = last_step s" "va_next s' = va_next s + 1"
      using 2 s1 by (simp_all add: s2_def consume_codes_def challenge_tickets_def recovery_tickets_def
          last_step_def fun_eq_iff)
    ultimately show ?thesis by (simp add: quiet_kept_def quiet_step_def grown_refl)
  qed
qed

lemma kept_store_challenge:
  assumes "store_challenge now u h method expires_at link s = (r, s')"
  shows "quiet_kept s s'"
proof -
  define s1 where "s1 = consume_challenges now (\<lambda>c. lc_user c = u) s"
  define row where "row = \<lparr>lc_id = va_next s1, lc_user = u, lc_token_hash = h, lc_method = method,
    lc_attempts = 0, lc_expires_at = expires_at, lc_consumed_at = None, lc_pending_link = link,
    lc_created_at = now\<rparr>"
  from assms have s': "s' = s1\<lparr>va_challenges := va_challenges s1 @ [row], va_next := va_next s1 + 1\<rparr>"
    by (simp add: store_challenge_def s1_def row_def Let_def)
  have row: "lc_id row = va_next s1" "lc_attempts row = 0" by (simp_all add: row_def)
  have rows: "challenge_tickets s' = challenge_tickets s1 @ [(va_next s, live_challenge row, 0)]"
    using s' row by (simp add: challenge_tickets_def s1_def)
  have "grown (va_next s) (va_next s') (challenge_tickets s) (challenge_tickets s')"
    unfolding rows using s' spent_consume_challenges [of s]
    by (intro grown_new) (simp_all add: s1_def)
  moreover have "code_tickets s' = code_tickets s" "recovery_tickets s' = recovery_tickets s"
      "last_step s' = last_step s" "va_next s' = va_next s + 1"
    using s' by (simp_all add: s1_def consume_challenges_def code_tickets_def recovery_tickets_def
        last_step_def fun_eq_iff)
  ultimately show ?thesis by (simp add: quiet_kept_def quiet_step_def grown_refl)
qed

lemma kept_delete_recovery: "delete_recovery_codes u s = (r, s') \<Longrightarrow> quiet_kept s s'"
  by (auto simp: delete_recovery_codes_def quiet_kept_def quiet_step_def last_step_def fun_eq_iff
      code_tickets_def challenge_tickets_def recovery_tickets_def
      intro!: grown_refl grown_spent spent_rows_filter spent_down_refl simp del: map_map)

lemma kept_replace_recovery:
  assumes "replace_recovery_codes u hashes s = (r, s')"
  shows "quiet_kept s s'"
proof -
  define new where "new = map (\<lambda>(n, h). (va_next s + n, True, 0 :: int)) (List.enumerate 0 hashes)"
  have rows: "recovery_tickets s' = map (\<lambda>c. (rc_id c, rc_used_at c = None, 0))
      (filter (\<lambda>r. rc_user r \<noteq> u) (va_recovery s)) @ new"
    using assms by (auto simp: replace_recovery_codes_def recovery_tickets_def new_def)
  have next': "va_next s' = va_next s + length hashes"
    using assms by (auto simp: replace_recovery_codes_def)
  have "map fst new = map (\<lambda>n. va_next s + n) (map fst (List.enumerate 0 hashes))"
    by (simp add: new_def o_def split_beta del: map_fst_enumerate)
  then have "distinct (map fst new)" by (simp add: distinct_map distinct_enumerate inj_on_def)
  moreover have "\<forall>(i, live, n) \<in> set new. va_next s \<le> i \<and> i < va_next s' \<and> n = 0"
    by (auto simp: new_def next' in_set_enumerate_eq)
  ultimately have "grown (va_next s) (va_next s') (recovery_tickets s) (recovery_tickets s')"
    unfolding rows using next' by (intro grown_new) (simp_all add: recovery_tickets_def spent_rows_filter)
  moreover have "code_tickets s' = code_tickets s" "challenge_tickets s' = challenge_tickets s"
      "last_step s' = last_step s"
    using assms by (auto simp: replace_recovery_codes_def code_tickets_def challenge_tickets_def
        last_step_def fun_eq_iff)
  ultimately show ?thesis using next' by (simp add: quiet_kept_def quiet_step_def grown_refl)
qed

lemma kept_purge:
  assumes "purge_expired now s = (r, s')"
  shows "quiet_kept s s'"
proof -
  have "spent_down (map (\<lambda>c. (vc_id c, live_code c, vc_attempts c)) rows)
      (map (\<lambda>c. (vc_id c, live_code c, vc_attempts c))
        (update_where P (\<lambda>c. c\<lparr>vc_code_enc := None\<rparr>) (filter Q rows)))"
    if d: "distinct (map fst (map (\<lambda>c. (vc_id c, live_code c, vc_attempts c)) rows))" for P Q and rows :: "code_row list"
  proof -
    let ?t = "\<lambda>c. (vc_id c, live_code c, vc_attempts c)"
    have "map ?t (update_where P (\<lambda>c. c\<lparr>vc_code_enc := None\<rparr>) (filter Q rows)) = map ?t (filter Q rows)"
      by (simp add: update_where_def live_code_def)
    then show ?thesis using spent_rows_filter [OF d, of Q] by simp
  qed
  then show ?thesis
    using assms by (auto simp: purge_expired_def quiet_kept_def quiet_step_def Let_def last_step_def fun_eq_iff
        code_tickets_def challenge_tickets_def recovery_tickets_def
        intro!: grown_refl grown_spent spent_rows_filter spent_down_refl simp del: map_map)
qed

lemma kept_code_missed: "record_code_failure i s = (r, s') \<Longrightarrow> quiet_kept s s'"
proof -
  assume "record_code_failure i s = (r, s')"
  then have s': "s' = s\<lparr>va_codes := map (\<lambda>c. if vc_id c = i
      then c\<lparr>vc_failed_attempts := vc_failed_attempts c + 1\<rparr> else c) (va_codes s)\<rparr>"
    by (auto simp: record_code_failure_def update_where_def)
  have "code_tickets s' = code_tickets s" by (auto simp: s' code_tickets_def live_code_def)
  then show ?thesis by (simp add: s' quiet_kept_def quiet_step_def challenge_tickets_def recovery_tickets_def
        last_step_def fun_eq_iff grown_refl)
qed

lemma kept_refused:
  "claim_code_attempt now i k s = (Inr None, s') \<Longrightarrow> quiet_kept s s'"
  "claim_challenge_attempt now i k s = (Inr None, s') \<Longrightarrow> quiet_kept s s'"
  "use_recovery_row now u h s = (Inr None, s') \<Longrightarrow> quiet_kept s s'"
  "claim_totp_step u step s = (Inr False, s') \<Longrightarrow> quiet_kept s s'"
  "enable_totp now u step s = (Inr False, s') \<Longrightarrow> quiet_kept s s'"
proof -
  have id: "update_where P f rows = rows" if "find P rows = None" for P f and rows :: "'x list"
    using that unfolding update_where_def find_None_iff by (intro map_idI) auto
  show "claim_code_attempt now i k s = (Inr None, s') \<Longrightarrow> quiet_kept s s'"
    by (auto simp: claim_code_attempt_def id)
  show "claim_challenge_attempt now i k s = (Inr None, s') \<Longrightarrow> quiet_kept s s'"
    by (auto simp: claim_challenge_attempt_def id)
  show "use_recovery_row now u h s = (Inr None, s') \<Longrightarrow> quiet_kept s s'"
    by (auto simp: use_recovery_row_def split: option.splits)
  show "claim_totp_step u step s = (Inr False, s') \<Longrightarrow> quiet_kept s s'"
    by (auto simp: claim_totp_step_def split: option.splits if_splits)
  show "enable_totp now u step s = (Inr False, s') \<Longrightarrow> quiet_kept s s'"
    by (auto simp: enable_totp_def split: option.splits if_splits)
qed


section \<open>Using and checking\<close>

lemma find_holds: "find P xs = Some x \<Longrightarrow> x \<in> set xs \<and> P x"
  by (auto simp: find_Some_iff)

lemma code_check_tickets:
  assumes "claim_code_attempt now i CODE_MAX_ATTEMPTS s = (Inr (Some n), s')"
    and "distinct (map fst (code_tickets s))"
  shows "\<exists>m. (i, True, m) \<in> set (code_tickets s) \<and> m < 5"
    and "code_tickets s' = map (\<lambda>(j, l, m). (j, l, if j = i then m + 1 else m)) (code_tickets s)"
    and "challenge_tickets s' = challenge_tickets s" "recovery_tickets s' = recovery_tickets s"
      "va_next s' = va_next s" "last_step s' = last_step s"
proof -
  let ?P = "claimable_code now i CODE_MAX_ATTEMPTS"
  from assms(1) obtain c where c: "c \<in> set (va_codes s)" "?P c"
    by (auto simp: claim_code_attempt_def dest: find_holds)
  from assms(1) have s': "s' = s\<lparr>va_codes := update_where ?P
      (\<lambda>c. c\<lparr>vc_attempts := vc_attempts c + 1\<rparr>) (va_codes s)\<rparr>"
    by (simp add: claim_code_attempt_def)
  have "distinct (map vc_id (va_codes s))" using assms(2) by (simp add: code_tickets_def o_def)
  then have "?P c' = (vc_id c' = i)" if "c' \<in> set (va_codes s)" for c'
    using that c unfolding claimable_code_def by (metis distinct_map inj_onD)
  then show "code_tickets s' = map (\<lambda>(j, l, m). (j, l, if j = i then m + 1 else m)) (code_tickets s)"
    by (simp add: s' code_tickets_def update_where_def live_code_def)
  show "\<exists>m. (i, True, m) \<in> set (code_tickets s) \<and> m < 5"
    using c by (force simp: code_tickets_def claimable_code_def CODE_MAX_ATTEMPTS_def)
qed (use assms(1) in \<open>auto simp: claim_code_attempt_def challenge_tickets_def recovery_tickets_def
  last_step_def fun_eq_iff\<close>)

lemma challenge_check_tickets:
  assumes "claim_challenge_attempt now i CHALLENGE_MAX_ATTEMPTS s = (Inr (Some n), s')"
    and "distinct (map fst (challenge_tickets s))"
  shows "\<exists>m. (i, True, m) \<in> set (challenge_tickets s) \<and> m < 5"
    and "challenge_tickets s' = map (\<lambda>(j, l, m). (j, l, if j = i then m + 1 else m)) (challenge_tickets s)"
    and "code_tickets s' = code_tickets s" "recovery_tickets s' = recovery_tickets s"
      "va_next s' = va_next s" "last_step s' = last_step s"
proof -
  let ?P = "claimable_challenge now i CHALLENGE_MAX_ATTEMPTS"
  from assms(1) obtain c where c: "c \<in> set (va_challenges s)" "?P c"
    by (auto simp: claim_challenge_attempt_def dest: find_holds)
  from assms(1) have s': "s' = s\<lparr>va_challenges := update_where ?P
      (\<lambda>c. c\<lparr>lc_attempts := lc_attempts c + 1\<rparr>) (va_challenges s)\<rparr>"
    by (simp add: claim_challenge_attempt_def)
  have "distinct (map lc_id (va_challenges s))" using assms(2) by (simp add: challenge_tickets_def o_def)
  then have "?P c' = (lc_id c' = i)" if "c' \<in> set (va_challenges s)" for c'
    using that c unfolding claimable_challenge_def by (metis distinct_map inj_onD)
  then show "challenge_tickets s' = map (\<lambda>(j, l, m). (j, l, if j = i then m + 1 else m)) (challenge_tickets s)"
    by (simp add: s' challenge_tickets_def update_where_def live_challenge_def)
  show "\<exists>m. (i, True, m) \<in> set (challenge_tickets s) \<and> m < 5"
    using c by (force simp: challenge_tickets_def claimable_challenge_def CHALLENGE_MAX_ATTEMPTS_def)
qed (use assms(1) in \<open>auto simp: claim_challenge_attempt_def code_tickets_def recovery_tickets_def
  last_step_def fun_eq_iff\<close>)

lemma code_release_tickets:
  assumes "release_code_attempt i s = (r, s')"
  shows "code_tickets s' = map (\<lambda>(j, l, m). (j, l, if j = i \<and> l then max (m - 1) 0 else m)) (code_tickets s)"
    and "challenge_tickets s' = challenge_tickets s" "recovery_tickets s' = recovery_tickets s"
      "va_next s' = va_next s" "last_step s' = last_step s"
  using assms by (auto simp: release_code_attempt_def code_tickets_def update_where_def live_code_def
      challenge_tickets_def recovery_tickets_def last_step_def fun_eq_iff)

lemma code_use_tickets:
  assumes "use_code now i s = (Inr True, s')"
  shows "\<exists>m. (i, True, m) \<in> set (code_tickets s)"
    and "code_tickets s' = map (\<lambda>(j, l, m). (j, l \<and> j \<noteq> i, m)) (code_tickets s)"
    and "challenge_tickets s' = challenge_tickets s" "recovery_tickets s' = recovery_tickets s"
      "va_next s' = va_next s" "last_step s' = last_step s"
proof -
  from assms have s': "s' = consume_codes now (\<lambda>c. vc_id c = i) s"
    and "list_ex (\<lambda>c. vc_id c = i \<and> live_code c) (va_codes s)"
    by (simp_all add: use_code_def)
  then show "\<exists>m. (i, True, m) \<in> set (code_tickets s)" by (force simp: code_tickets_def list_ex_iff)
  show "code_tickets s' = map (\<lambda>(j, l, m). (j, l \<and> j \<noteq> i, m)) (code_tickets s)"
    by (auto simp: s' code_tickets_def consume_codes_def update_where_def live_code_def)
  show "challenge_tickets s' = challenge_tickets s" "recovery_tickets s' = recovery_tickets s"
      "va_next s' = va_next s" "last_step s' = last_step s"
    by (simp_all add: s')
qed

lemma challenge_use_tickets:
  assumes "consume_challenge now i s = (Inr True, s')"
  shows "\<exists>m. (i, True, m) \<in> set (challenge_tickets s)"
    and "challenge_tickets s' = map (\<lambda>(j, l, m). (j, l \<and> j \<noteq> i, m)) (challenge_tickets s)"
    and "code_tickets s' = code_tickets s" "recovery_tickets s' = recovery_tickets s"
      "va_next s' = va_next s" "last_step s' = last_step s"
proof -
  from assms have s': "s' = consume_challenges now (\<lambda>c. lc_id c = i) s"
    and "list_ex (\<lambda>c. lc_id c = i \<and> live_challenge c) (va_challenges s)"
    by (simp_all add: consume_challenge_def)
  then show "\<exists>m. (i, True, m) \<in> set (challenge_tickets s)" by (force simp: challenge_tickets_def list_ex_iff)
  show "challenge_tickets s' = map (\<lambda>(j, l, m). (j, l \<and> j \<noteq> i, m)) (challenge_tickets s)"
    by (auto simp: s' challenge_tickets_def consume_challenges_def update_where_def live_challenge_def)
  show "code_tickets s' = code_tickets s" "recovery_tickets s' = recovery_tickets s"
      "va_next s' = va_next s" "last_step s' = last_step s"
    by (simp_all add: s')
qed

lemma recovery_use_tickets:
  assumes "use_recovery_row now u h s = (Inr (Some i), s')"
  shows "\<exists>m. (i, True, m) \<in> set (recovery_tickets s)"
    and "recovery_tickets s' = map (\<lambda>(j, l, m). (j, l \<and> j \<noteq> i, m)) (recovery_tickets s)"
    and "code_tickets s' = code_tickets s" "challenge_tickets s' = challenge_tickets s"
      "va_next s' = va_next s" "last_step s' = last_step s"
proof -
  from assms obtain r where r: "find (usable_recovery u h) (va_recovery s) = Some r" "i = rc_id r"
    and s': "s' = s\<lparr>va_recovery := update_where (\<lambda>x. rc_id x = rc_id r \<and> rc_used_at x = None)
             (\<lambda>x. x\<lparr>rc_used_at := Some now\<rparr>) (va_recovery s)\<rparr>"
    by (auto simp: use_recovery_row_def split: option.splits)
  from r show "\<exists>m. (i, True, m) \<in> set (recovery_tickets s)"
    by (force simp: recovery_tickets_def usable_recovery_def find_Some_iff)
  show "recovery_tickets s' = map (\<lambda>(j, l, m). (j, l \<and> j \<noteq> i, m)) (recovery_tickets s)"
    by (auto simp: s' r(2) recovery_tickets_def update_where_def)
  show "code_tickets s' = code_tickets s" "challenge_tickets s' = challenge_tickets s"
      "va_next s' = va_next s" "last_step s' = last_step s"
    by (simp_all add: s' code_tickets_def challenge_tickets_def last_step_def fun_eq_iff)
qed

text \<open>The authenticator's time steps.\<close>

lemma steps_ok_same:
  assumes "steps_ok tr s" and "last_step s' = last_step s"
    and "\<And>u. steps_since_reset u (e # tr) = steps_since_reset u tr"
  shows "steps_ok (e # tr) s'"
  using assms unfolding steps_ok_def by metis

lemma steps_ok_reset:
  assumes "steps_ok tr s" and "\<And>v. v \<noteq> u \<Longrightarrow> last_step s' v = last_step s v"
  shows "steps_ok (FactorReset u # tr) s'"
  using assms unfolding steps_ok_def by auto

lemma steps_ok_used:
  assumes "steps_ok tr s" and "claim_totp_step u step s = (Inr True, s')"
  shows "steps_ok (StepUsed u step # tr) s'"
proof -
  from assms(2) obtain a where a: "map_of (va_accounts s) u = Some a"
      "is_none_or (ac_totp_last_step a) (\<lambda>l. l < step)"
      "s' = update_account u (\<lambda>a. a\<lparr>ac_totp_last_step := Some step\<rparr>) s"
    by (auto simp: claim_totp_step_def split: option.splits if_splits)
  have last': "last_step s' v = (if v = u then Some (Some step) else last_step s v)" for v
    using a by (simp add: last_step_update)
  have before: "last_step s u = Some (ac_totp_last_step a)" using a(1) by (simp add: last_step_def)
  let ?old = "steps_since_reset u tr"
  from assms(1) have sorted: "sorted_wrt (>) ?old"
    and top: "?old \<noteq> [] \<longrightarrow> (\<exists>l. ac_totp_last_step a = Some l \<and> hd ?old \<le> l)"
    using before unfolding steps_ok_def by (metis option.inject)+
  have "sorted_wrt (>) (step # ?old)"
  proof (cases ?old)
    case (Cons x xs)
    with top a(2) have "x < step" by auto
    with sorted Cons show ?thesis by fastforce
  qed simp
  moreover have "sorted_wrt (>) (steps_since_reset v tr)
      \<and> (steps_since_reset v tr \<noteq> [] \<longrightarrow> (\<exists>l. last_step s v = Some (Some l) \<and> hd (steps_since_reset v tr) \<le> l))" for v
    using assms(1) unfolding steps_ok_def by blast
  ultimately show ?thesis using last' unfolding steps_ok_def by auto
qed

text \<open>Every event but the ones of a component leaves its tickets to be spent or issued.\<close>

lemma secrets_ok_quiet:
  assumes "secrets_ok tr s" and "quiet_kept s s'"
  shows "secrets_ok (Quiet # tr) s'"
proof -
  have "steps_ok (Quiet # tr) s'"
    using assms by (intro steps_ok_same [of tr s]) (simp_all add: secrets_ok_def quiet_kept_def)
  with assms show ?thesis
    unfolding secrets_ok_def quiet_kept_def quiet_step_def by (auto intro: tickets_grown)
qed

lemma secrets_ok_reset:
  assumes "secrets_ok tr s" and "quiet_step s s'" and "\<And>v. v \<noteq> u \<Longrightarrow> last_step s' v = last_step s v"
  shows "secrets_ok (FactorReset u # tr) s'"
proof -
  have "steps_ok (FactorReset u # tr) s'"
    using assms(1,3) by (intro steps_ok_reset [of tr s]) (simp_all add: secrets_ok_def)
  with assms show ?thesis
    unfolding secrets_ok_def quiet_step_def by (auto intro: tickets_grown)
qed

lemma unused_event: "tickets_ok k ts checked released used \<Longrightarrow> (i, True, n) \<in> set ts \<Longrightarrow> used i = 0"
  unfolding tickets_ok_def by fastforce

lemma quiet_update: "quiet_step s (update_account u f s)"
  by (simp add: quiet_step_def grown_refl)

lemma wipe_quiet:
  assumes "quiet_step s s1" and "recovery_tickets s1 = recovery_tickets s"
  shows "quiet_step s (wipe_second_factors u s1)"
proof -
  let ?s = "wipe_second_factors u s1"
  have same: "code_tickets ?s = code_tickets s1" "challenge_tickets ?s = challenge_tickets s1" "va_next ?s = va_next s1"
    by (simp_all add: wipe_second_factors_def update_account_def code_tickets_def challenge_tickets_def)
  have "recovery_tickets ?s = map (\<lambda>c. (rc_id c, rc_used_at c = None, 0)) (filter (\<lambda>r. rc_user r \<noteq> u) (va_recovery s1))"
    by (simp add: wipe_second_factors_def update_account_def recovery_tickets_def)
  moreover have "va_next s \<le> va_next s1" using assms(1) by (simp add: quiet_step_def grown_def)
  ultimately have "grown (va_next s) (va_next s1) (recovery_tickets s) (recovery_tickets ?s)"
    using spent_rows_filter [of "\<lambda>c. (rc_id c, rc_used_at c = None, 0 :: int)" "va_recovery s1"]
    unfolding assms(2) [symmetric] by (intro grown_spent) (simp_all add: recovery_tickets_def)
  with assms(1) show ?thesis by (simp add: quiet_step_def same)
qed

lemma wipe_last_step: "v \<noteq> u \<Longrightarrow> last_step (wipe_second_factors u s) v = last_step s v"
proof -
  assume "v \<noteq> u"
  then have "last_step (update_account u f s) v = last_step s v" for f by (simp add: last_step_update)
  then show ?thesis by (simp add: wipe_second_factors_def last_step_def)
qed

lemma recover_quiet:
  assumes "recover_password now u hash verify s = (Inr b, s')"
  shows "quiet_step s s' \<and> (\<forall>v. v \<noteq> u \<longrightarrow> last_step s' v = last_step s v)
    \<and> (\<not> b \<longrightarrow> last_step s' = last_step s)"
proof -
  define s1 where "s1 = unlock_account u (update_user u (address_proven now verify)
    (update_account u (password_recovered now hash verify) s))"
  from assms have b: "s' = (if b then wipe_second_factors u (invalidate_pending now u s1)
      else invalidate_pending now u s1)"
    by (auto simp: recover_password_def Let_def s1_def split: option.splits)
  have unlocked: "code_tickets (unlock_account u t) = code_tickets t"
    "challenge_tickets (unlock_account u t) = challenge_tickets t"
    "recovery_tickets (unlock_account u t) = recovery_tickets t"
    "va_next (unlock_account u t) = va_next t" "last_step (unlock_account u t) = last_step t" for t
    by (simp_all add: unlock_account_def code_tickets_def challenge_tickets_def recovery_tickets_def
        last_step_def fun_eq_iff)
  have s1: "code_tickets s1 = code_tickets s" "challenge_tickets s1 = challenge_tickets s"
    "recovery_tickets s1 = recovery_tickets s" "va_next s1 = va_next s" "last_step s1 = last_step s"
    by (simp_all add: s1_def unlocked last_step_kept password_recovered_def)
  have quiet: "quiet_step s (invalidate_pending now u s1)" by (rule quiet_invalidate [OF s1(1-4)])
  have "recovery_tickets (invalidate_pending now u s1) = recovery_tickets s"
    by (simp add: invalidate_pending_def s1)
  from wipe_quiet [OF quiet this, of u] quiet b s1(5) show ?thesis by (simp add: wipe_last_step)
qed

lemma events_now:
  "events CodeChecked (CodeChecked i # tr) = (events CodeChecked tr)(i := events CodeChecked tr i + 1)"
  "events CodeReleased (CodeReleased i # tr) = (events CodeReleased tr)(i := events CodeReleased tr i + 1)"
  "events CodeUsed (CodeUsed i # tr) = (events CodeUsed tr)(i := events CodeUsed tr i + 1)"
  "events ChallengeChecked (ChallengeChecked i # tr)
     = (events ChallengeChecked tr)(i := events ChallengeChecked tr i + 1)"
  "events ChallengeUsed (ChallengeUsed i # tr) = (events ChallengeUsed tr)(i := events ChallengeUsed tr i + 1)"
  "events RecoveryUsed (RecoveryUsed i # tr) = (events RecoveryUsed tr)(i := events RecoveryUsed tr i + 1)"
  by auto

lemma secrets_ok_step:
  assumes "vault_step s e s'" and ok: "secrets_ok tr s"
  shows "secrets_ok (e # tr) s'"
proof -
  from ok have okc: "tickets_ok (va_next s) (code_tickets s) (events CodeChecked tr) (events CodeReleased tr)
      (events CodeUsed tr)"
    and okh: "tickets_ok (va_next s) (challenge_tickets s) (events ChallengeChecked tr) (\<lambda>_. 0)
      (events ChallengeUsed tr)"
    and okr: "tickets_ok (va_next s) (recovery_tickets s) (\<lambda>_. 0) (\<lambda>_. 0) (events RecoveryUsed tr)"
    by (simp_all add: secrets_ok_def)
  then have d: "distinct (map fst (code_tickets s))" "distinct (map fst (challenge_tickets s))"
    by (simp_all add: tickets_ok_def)
  show ?thesis using assms(1)
  proof cases
    case (code_checked now i n)
    note t = code_check_tickets [OF code_checked(2) d(1)]
    from t(1) obtain m where m: "(i, True, m) \<in> set (code_tickets s)" "m < 5" by blast
    have "steps_ok (e # tr) s'"
      using ok t(6) by (intro steps_ok_same [of tr s]) (simp_all add: secrets_ok_def code_checked)
    moreover have "tickets_ok (va_next s) (code_tickets s') ((events CodeChecked tr)(i := events CodeChecked tr i + 1)) (events CodeReleased tr)
          (events CodeUsed tr) \<and> count_list tr (CodeUsed i) = 0"
      by (rule tickets_check [OF okc m t(2)])
    ultimately show ?thesis
      using ok t unfolding secrets_ok_def code_checked(1) events_now by (simp add: count_list_0_iff)
  next
    case (challenge_checked now i n)
    note t = challenge_check_tickets [OF challenge_checked(2) d(2)]
    from t(1) obtain m where m: "(i, True, m) \<in> set (challenge_tickets s)" "m < 5" by blast
    have "steps_ok (e # tr) s'"
      using ok t(6) by (intro steps_ok_same [of tr s]) (simp_all add: secrets_ok_def challenge_checked)
    moreover have "tickets_ok (va_next s) (challenge_tickets s') ((events ChallengeChecked tr)(i := events ChallengeChecked tr i + 1)) (\<lambda>_. 0)
          (events ChallengeUsed tr) \<and> count_list tr (ChallengeUsed i) = 0"
      by (rule tickets_check [OF okh m t(2)])
    ultimately show ?thesis
      using ok t unfolding secrets_ok_def challenge_checked(1) events_now by (simp add: count_list_0_iff)
  next
    case (code_released i)
    note t = code_release_tickets [OF code_released(2)]
    have "steps_ok (e # tr) s'"
      using ok t(5) by (intro steps_ok_same [of tr s]) (simp_all add: secrets_ok_def code_released)
    moreover have "tickets_ok (va_next s) (code_tickets s') (events CodeChecked tr) ((events CodeReleased tr)(i := events CodeReleased tr i + 1))
          (events CodeUsed tr)"
      by (rule tickets_release [OF okc t(1)])
    ultimately show ?thesis using ok t unfolding secrets_ok_def code_released(1) events_now by simp
  next
    case (code_used now i)
    note t = code_use_tickets [OF code_used(2)]
    from t(1) obtain m where m: "(i, True, m) \<in> set (code_tickets s)" by blast
    have "steps_ok (e # tr) s'"
      using ok t(6) by (intro steps_ok_same [of tr s]) (simp_all add: secrets_ok_def code_used)
    moreover have "tickets_ok (va_next s) (code_tickets s') (events CodeChecked tr) (events CodeReleased tr)
          ((events CodeUsed tr)(i := events CodeUsed tr i + 1))"
      by (rule tickets_use [OF okc m t(2)])
    ultimately show ?thesis using ok t unfolding secrets_ok_def code_used(1) events_now by simp
  next
    case (challenge_used now i)
    note t = challenge_use_tickets [OF challenge_used(2)]
    from t(1) obtain m where m: "(i, True, m) \<in> set (challenge_tickets s)" by blast
    have "steps_ok (e # tr) s'"
      using ok t(6) by (intro steps_ok_same [of tr s]) (simp_all add: secrets_ok_def challenge_used)
    moreover have "tickets_ok (va_next s) (challenge_tickets s') (events ChallengeChecked tr) (\<lambda>_. 0)
          ((events ChallengeUsed tr)(i := events ChallengeUsed tr i + 1))"
      by (rule tickets_use [OF okh m t(2)])
    ultimately show ?thesis using ok t unfolding secrets_ok_def challenge_used(1) events_now by simp
  next
    case (recovery_used now u h i)
    note t = recovery_use_tickets [OF recovery_used(2)]
    from t(1) obtain m where m: "(i, True, m) \<in> set (recovery_tickets s)" by blast
    have "steps_ok (e # tr) s'"
      using ok t(6) by (intro steps_ok_same [of tr s]) (simp_all add: secrets_ok_def recovery_used)
    moreover have "tickets_ok (va_next s) (recovery_tickets s') (\<lambda>_. 0) (\<lambda>_. 0) ((events RecoveryUsed tr)(i := events RecoveryUsed tr i + 1))"
      by (rule tickets_use [OF okr m t(2)])
    ultimately show ?thesis using ok t unfolding secrets_ok_def recovery_used(1) events_now by simp
  next
    case (step_used u step)
    have "steps_ok (e # tr) s'"
      using steps_ok_used [of tr s u step s'] ok step_used by (simp add: secrets_ok_def)
    moreover from step_used(2) obtain f where "s' = update_account u f s"
      by (auto simp: claim_totp_step_def split: option.splits if_splits)
    ultimately show ?thesis using ok by (simp add: secrets_ok_def step_used)
  next
    case (factor_enabled now u step)
    then obtain f where "s' = update_account u f s"
      by (auto simp: enable_totp_def split: option.splits if_splits)
    then show ?thesis
      unfolding factor_enabled(1) by (intro secrets_ok_reset [OF ok]) (simp_all add: quiet_update last_step_update)
  next
    case (factor_disabled u)
    then obtain f where "s' = update_account u f s" by (auto simp: disable_totp_def)
    then show ?thesis
      unfolding factor_disabled(1) by (intro secrets_ok_reset [OF ok]) (simp_all add: quiet_update last_step_update)
  next
    case (recovered_first now u hash verify)
    with recover_quiet [OF recovered_first(2)] show ?thesis
      unfolding recovered_first(1) by (intro secrets_ok_reset [OF ok]) simp_all
  next
    case (recovered now u hash verify)
    with recover_quiet [OF recovered(2)] have "quiet_kept s s'" by (simp add: quiet_kept_def)
    with ok show ?thesis unfolding recovered(1) by (rule secrets_ok_quiet)
  next
    case elsewhere
    then have "quiet_kept s s'" by (simp add: quiet_kept_def quiet_untouched) (simp add: secrets_untouched_def)
    with ok show ?thesis unfolding elsewhere(1) by (rule secrets_ok_quiet)
  qed (auto intro: secrets_ok_quiet [OF ok] kept_create_code kept_refused kept_code_missed kept_use_code
      kept_store_challenge kept_consume_challenge kept_replace_recovery kept_delete_recovery
      kept_set_password kept_revoke kept_change_email kept_detach kept_purge)
qed

lemma secrets_ok_start:
  assumes "va_codes s = []" and "va_challenges s = []" and "va_recovery s = []"
  shows "secrets_ok [] s"
  using assms by (simp add: secrets_ok_def tickets_ok_def steps_ok_def code_tickets_def
      challenge_tickets_def recovery_tickets_def)

lemma secrets_ok_run: "vault_run s tr s' \<Longrightarrow> secrets_ok [] s \<Longrightarrow> secrets_ok tr s'"
  by (induction rule: vault_run.induct) (auto intro: secrets_ok_step)

text \<open>
  C11. One-time secrets, however the statements of concurrent requests are interleaved: an e-mailed
  code is used at most once and never checked again after that, and it is checked at most five
  times (a check that turned out right and was given back does not count); a sign-in challenge
  is used at most once, checked at most five times and never after its use; a recovery code is used at
  most once; and the time steps an authenticator is accepted for only ever go up, until it is
  set up anew.
\<close>

theorem one_time_secrets:
  assumes "vault_run s tr s'" and "va_codes s = []" and "va_challenges s = []" and "va_recovery s = []"
  shows "count_list tr (CodeUsed i) \<le> 1
    \<and> count_list tr (CodeChecked i) \<le> 5 + count_list tr (CodeReleased i)
    \<and> count_list tr (ChallengeUsed i) \<le> 1 \<and> count_list tr (ChallengeChecked i) \<le> 5
    \<and> count_list tr (RecoveryUsed i) \<le> 1
    \<and> checked_unused tr \<and> sorted_wrt (>) (steps_since_reset u tr)"
proof -
  have "secrets_ok tr s'" by (rule secrets_ok_run [OF assms(1) secrets_ok_start [OF assms(2-4)]])
  then show ?thesis unfolding secrets_ok_def tickets_ok_def steps_ok_def by simp
qed

section \<open>An account to try it on\<close>

definition test_env :: env where
  "test_env =
     \<lparr>ev_nfkc = id, ev_matches = (\<lambda>stored password. stored = password), ev_argon = (\<lambda>_ password. password),
      ev_breached = (\<lambda>_. False), ev_mac = id, ev_encrypt = (\<lambda>_ x. x), ev_decrypt = Some,
      ev_sha256 = id, ev_otp_mac = (\<lambda>_ _. replicate 20 0), ev_session_seconds = 3600,
      ev_terms_version = ''1'', ev_idna = Some\<rparr>"

definition test_account :: login_account where
  "test_account =
     \<lparr>ac_username = ''ana'', ac_status = StatusActive, ac_password_hash = ''old'', ac_password_set = True,
      ac_must_change_password = False, ac_password_changed_at = None, ac_token_version = 0,
      ac_banned_at = None, ac_banned_until = None, ac_ban_reason = None, ac_role_changed_at = None,
      ac_email_first_verified_at = None, ac_totp_secret_enc = None, ac_totp_enabled_at = None,
      ac_totp_pending_secret_enc = None, ac_totp_pending_created_at = None, ac_totp_last_step = None,
      ac_failed_login_count = 0, ac_locked_until = None, ac_last_login_at = None,
      ac_terms_version = None\<rparr>"

definition test_vault :: vault where
  "test_vault =
     \<lparr>va_db = \<lparr>db_users = [(1, \<lparr>us_role = RoleUser, us_email = Some ''a@b.c'', us_email_verified_at = None,
          us_created_at = 0, us_account_in_app = True\<rparr>)],
        db_plans = [], db_settings = None, db_subs = Map.empty, db_events = [], db_ledger = [],
        db_promos = [], db_redemptions = [], db_referrals = [], db_job_runs = Map.empty, db_notices = []\<rparr>,
      va_accounts = [(1, test_account)], va_codes = [], va_requests = [], va_challenges = [],
      va_recovery = [], va_identities = [], va_failures = [], va_factor = [], va_reauth = [],
      va_trials = [], va_outbox = [], va_alerts = [],
      va_maintenance = \<lparr>mt_mode = Off, mt_message = None, mt_ends_at = None\<rparr>,
      va_registrations_open = True, va_blocked_domains = [], va_next = 7\<rparr>"

definition issued :: "code_issue op" where
  "issued = create_code 0 1 PasswordReset ''h'' ''c'' ''a@b.c'' (minutes 15) 0 ''unknown''
     (code_limits_of PasswordReset)"

theorem one_time_secrets_witness:
  "\<exists>s'. vault_run test_vault [CodeUsed 7, CodeChecked 7, Quiet] s'
    \<and> count_list [CodeUsed 7, CodeChecked 7, Quiet] (CodeUsed 7) \<le> 1
    \<and> checked_unused [CodeUsed 7, CodeChecked 7, Quiet]"
proof -
  define s1 where "s1 = snd (issued test_vault)"
  define s2 where "s2 = snd (claim_code_attempt 1 7 CODE_MAX_ATTEMPTS s1)"
  define s3 where "s3 = snd (use_code 2 7 s2)"
  have "fst (issued test_vault) = Inr (Issued 7)" by code_simp
  then have "vault_step test_vault Quiet s1"
    unfolding s1_def issued_def by (intro vault_step.code_issued prod_eqI) simp_all
  moreover have "fst (claim_code_attempt 1 7 CODE_MAX_ATTEMPTS (snd (issued test_vault))) = Inr (Some 1)"
    by code_simp
  then have "vault_step s1 (CodeChecked 7) s2"
    unfolding s2_def s1_def by (intro vault_step.code_checked prod_eqI) simp_all
  moreover have "fst (use_code 2 7 (snd (claim_code_attempt 1 7 CODE_MAX_ATTEMPTS (snd (issued test_vault))))) = Inr True"
    by code_simp
  then have "vault_step s2 (CodeUsed 7) s3"
    unfolding s3_def s2_def s1_def by (intro vault_step.code_used prod_eqI) simp_all
  ultimately have run: "vault_run test_vault [CodeUsed 7, CodeChecked 7, Quiet] s3"
    by (meson vault_run.intros)
  from one_time_secrets [OF this, of 7] run show ?thesis by (auto simp: test_vault_def)
qed

end
