(* ===== verification/SignInLaws.thy ===== *)
theory SignInLaws
  imports VaultLaws ReferralLaws
begin

text \<open>
  What signing in and recovering a password promise: a session is only given to who is entitled
  to it, refusals tell nothing, a recovery opens the door again and closes every other one.
\<close>

section \<open>What operations leave alone\<close>

context chain
begin

lemma answers: "keeps R (Pair r)"
  by (simp add: keeps_def stay)

end

text \<open>Mail, notices, trials and referrals: nobody's way of signing in changes.\<close>

definition people_kept :: "vault \<Rightarrow> vault \<Rightarrow> bool" where
  "people_kept s s' \<longleftrightarrow>
     va_accounts s' = va_accounts s \<and> db_users (va_db s') = db_users (va_db s)
     \<and> va_failures s' = va_failures s \<and> va_maintenance s' = va_maintenance s
     \<and> va_codes s' = va_codes s \<and> va_challenges s' = va_challenges s \<and> va_recovery s' = va_recovery s"

interpretation people: chain people_kept
  by unfold_locales (auto simp: people_kept_def)

lemma keeps_queue_mail: "keeps people_kept (queue_mail now m)"
  and keeps_security_alert: "keeps people_kept (security_alert u event)"
  by (auto simp: keeps_def queue_mail_def security_alert_def people_kept_def)

lemma keeps_security_notice: "keeps people_kept (send_security_notice now view kind detail to)"
  by (auto simp: send_security_notice_def split_beta keeps_queue_mail people.rules split: option.split)

lemma keeps_notify_login_locked: "keeps people_kept (notify_login_locked now view)"
  unfolding notify_login_locked_def
  by (intro people.rules) (simp add: people.rules keeps_security_notice keeps_security_alert)

lemma keeps_link_identity: "keeps people_kept (link_identity now u provider subject email)"
  by (auto simp: keeps_def link_identity_def people_kept_def split: if_splits)

lemma keeps_link_pending: "keeps people_kept (link_pending rq view challenge)"
proof -
  have "keeps people_kept (link_google_identity rq view subject email)" for subject email
    unfolding link_google_identity_def
    by (intro people.rules keeps_link_identity keeps_security_notice keeps_security_alert)
  then show ?thesis
    by (auto simp: link_pending_def intro!: people.rules split: option.split if_split)
qed

lemma registration_trial_users: "db_users (start_registration_trial now u db) = db_users db"
proof -
  have "sub_frame u db db'" if "start_trial now u c n m db = Inr (g, db')" for c n m g db'
    using that by (rule start_trial_frame)
  then show ?thesis
    by (auto simp: start_registration_trial_def Let_def sub_frame_def split: sum.split option.split prod.split)
qed

lemma qualify_users: "qualify_referral now u db = Inr (x, db') \<Longrightarrow> db_users db' = db_users db"
  by (erule qualify_Inr) (auto simp: change_referrals_def)

lemma keeps_qualify: "keeps people_kept (qualify rq u)"
  by (auto simp: keeps_def qualify_def people_kept_def dest: qualify_users split: sum.splits prod.splits)

lemma keeps_start_verified_trial: "keeps people_kept (start_verified_trial env rq u email)"
proof -
  have "keeps people_kept (claim_trial h)" "keeps people_kept (release_trial_claim h)" for h
    by (auto simp: keeps_def claim_trial_def release_trial_claim_def people_kept_def)
  moreover have "people_kept s (s\<lparr>va_db := start_registration_trial now u (va_db s)\<rparr>)" for s now
    by (simp add: people_kept_def registration_trial_users)
  ultimately show ?thesis
    by (auto simp: start_verified_trial_def Let_def intro!: people.rules people.update)
qed

lemma keeps_after_recovery: "keeps people_kept (after_recovery env rq view stored verifies)"
  by (auto simp: after_recovery_def split_beta intro!: people.rules keeps_queue_mail keeps_security_alert
      keeps_qualify keeps_start_verified_trial split: option.split)

section \<open>Accounts after a statement\<close>

lemma map_of_update: "map_of (map (\<lambda>(i, a). (i, if i = u then f a else a)) xs) v
    = map_option (if v = u then f else id) (map_of xs v)"
  by (induction xs) auto

lemma find_account_update [simp]:
  "find_account v (update_account u f s)
     = map_option (\<lambda>(a, r). (if v = u then f a else a, r)) (find_account v s)"
  by (auto simp: find_account_def update_account_def map_of_update split: option.splits)

lemma find_account_update_user [simp]:
  "find_account v (update_user u f s)
     = map_option (\<lambda>(a, r). (a, if v = u then f r else r)) (find_account v s)"
  by (auto simp: find_account_def update_user_def user_def map_of_update split: option.splits)

lemma find_account_cong:
  "va_accounts s' = va_accounts s \<Longrightarrow> db_users (va_db s') = db_users (va_db s)
     \<Longrightarrow> find_account v s' = find_account v s"
  by (simp add: find_account_def user_def)

lemma people_kept_account: "people_kept s s' \<Longrightarrow> find_account v s' = find_account v s"
  by (auto simp: people_kept_def intro: find_account_cong)

lemma find_by_account:
  assumes "find_by_identifier i s = Some (u, a, r)"
  shows "find_account u s = Some (a, r)"
  using assms
  by (auto simp: find_by_identifier_def find_by_email_def find_by_username_def find_view_def
      bind_eq_Some_conv split: if_splits)

section \<open>Nobody is signed out by signing in\<close>

definition same_door :: "login_account \<Rightarrow> login_account \<Rightarrow> bool" where
  "same_door a a' \<longleftrightarrow> ac_token_version a' = ac_token_version a \<and> ac_status a' = ac_status a
     \<and> ac_banned_at a' = ac_banned_at a \<and> ac_banned_until a' = ac_banned_until a"

definition doors_kept :: "vault \<Rightarrow> vault \<Rightarrow> bool" where
  "doors_kept s s' \<longleftrightarrow>
     (\<forall>u a r. find_account u s = Some (a, r) \<longrightarrow> (\<exists>a'. find_account u s' = Some (a', r) \<and> same_door a a'))"

interpretation doors: chain doors_kept
  by unfold_locales (auto simp: doors_kept_def same_door_def, metis)

lemma keeps_weaken: "keeps R m \<Longrightarrow> (\<And>s s'. R s s' \<Longrightarrow> S s s') \<Longrightarrow> keeps S m"
  by (auto simp: keeps_def)

lemma people_doors: "people_kept s s' \<Longrightarrow> doors_kept s s'"
  by (auto simp: doors_kept_def people_kept_account same_door_def)

lemma doors_update: "(\<And>a. same_door a (f a)) \<Longrightarrow> doors_kept s (update_account u f s)"
  by (auto simp: doors_kept_def) (simp add: same_door_def)

lemma doors_elsewhere:
  "va_accounts s' = va_accounts s \<Longrightarrow> va_db s' = va_db s \<Longrightarrow> doors_kept s s'"
  by (auto simp: doors_kept_def same_door_def find_account_def)

lemma keeps_doors_statements:
  "keeps doors_kept (upgrade_password_hash u old new)"
  "keeps doors_kept (set_must_change_password u b)"
  "keeps doors_kept (store_challenge now u h method expires_at link)"
  "keeps doors_kept (claim_challenge_attempt now i n)"
  "keeps doors_kept (consume_challenge now i)"
  "keeps doors_kept (use_recovery_row now u h)"
  "keeps doors_kept (claim_totp_step u step)"
  "keeps doors_kept (mark_login now u)"
  "keeps doors_kept (reset_login_failures u bucket)"
  "keeps doors_kept (record_failed_login now u threshold)"
  "keeps doors_kept (record_password_failure now u network)"
proof -
  have door: "same_door a (if b then f a else a)" if "same_door a (f a)" for a b f
    using that by (simp add: same_door_def)
  show "keeps doors_kept (upgrade_password_hash u old new)"
    by (auto simp: keeps_def upgrade_password_hash_def same_door_def intro!: doors_update)
  show "keeps doors_kept (set_must_change_password u b)"
    by (auto simp: keeps_def set_must_change_password_def intro!: doors_update) (simp add: same_door_def)
  show "keeps doors_kept (store_challenge now u h method expires_at link)"
    "keeps doors_kept (claim_challenge_attempt now i n)" "keeps doors_kept (consume_challenge now i)"
    by (auto simp: keeps_def store_challenge_def claim_challenge_attempt_def consume_challenge_def
        consume_challenges_def Let_def intro!: doors_elsewhere)
  show "keeps doors_kept (use_recovery_row now u h)"
    by (auto simp: keeps_def use_recovery_row_def intro!: doors_elsewhere split: option.splits)
  show "keeps doors_kept (claim_totp_step u step)"
    by (auto simp: keeps_def claim_totp_step_def same_door_def intro!: doors_update doors.stay
        split: option.splits if_splits)
  show "keeps doors_kept (mark_login now u)"
    by (auto simp: keeps_def mark_login_def same_door_def intro!: doors_update doors.stay split: option.splits)
  show "keeps doors_kept (record_failed_login now u threshold)"
    by (auto simp: keeps_def record_failed_login_def Let_def same_door_def intro!: doors_update doors.stay
        split: option.splits)
  show "keeps doors_kept (reset_login_failures u bucket)"
  proof (rule keepsI)
    fix s r s'
    assume "reset_login_failures u bucket s = (r, s')"
    then have "doors_kept (update_account u (\<lambda>a. a\<lparr>ac_failed_login_count := 0, ac_locked_until := None\<rparr>) s) s'"
      by (auto simp: reset_login_failures_def intro!: doors_elsewhere)
    then show "doors_kept s s'"
      by (rule doors.onward [OF doors_update, rotated]) (simp add: same_door_def)
  qed
  show "keeps doors_kept (record_password_failure now u network)"
  proof (rule keepsI)
    fix s r s'
    assume r: "record_password_failure now u network s = (r, s')"
    define t1 where "t1 = store_failure (network_failure now u network s) s"
    define t where "t = store_failure (account_failure now u t1) t1"
    have t: "va_accounts t = va_accounts s" "va_db t = va_db s"
      by (simp_all add: t_def t1_def store_failure_def)
    have s': "s' = t \<or> (\<exists>until. s' = update_account u
        (\<lambda>a. a\<lparr>ac_locked_until := Some (max (unwrap_or (ac_locked_until a) until) until)\<rparr>) t)"
      using r by (auto simp: record_password_failure_def Let_def t_def t1_def split: if_splits)
    have "doors_kept t s'"
      using s' by (auto intro!: doors.stay doors_update simp: same_door_def)
    with doors_elsewhere [OF t] show "doors_kept s s'" by (rule doors.onward)
  qed
qed

lemmas keeps_doors = keeps_doors_statements doors.rules
  keeps_notify_login_locked [THEN keeps_weaken, OF people_doors]
  keeps_link_pending [THEN keeps_weaken, OF people_doors]

lemma keeps_ensure_sign_in_allowed: "keeps doors_kept (ensure_sign_in_allowed r)"
  by (auto simp: ensure_sign_in_allowed_def intro!: keeps_doors)

lemma keeps_issue_session: "keeps doors_kept (issue_session env rq view must new)"
  by (auto simp: issue_session_def split_beta intro!: keeps_doors keeps_ensure_sign_in_allowed)

lemma keeps_create_challenge: "keeps doors_kept (create_challenge env rq view method link)"
  by (auto simp: create_challenge_def split_beta Let_def intro!: keeps_doors keeps_ensure_sign_in_allowed)

lemma keeps_password_failed: "keeps doors_kept (password_failed rq view bucket)"
  by (auto simp: password_failed_def intro!: keeps_doors)

lemma keeps_login: "keeps doors_kept (login env rq username password)"
  unfolding login_def
  by (auto simp: split_beta Let_def intro!: keeps_doors doors.answers keeps_issue_session keeps_create_challenge
      keeps_password_failed split: option.split sum.split bool.split)

lemma keeps_check_totp: "keeps doors_kept (check_totp env rq view c)"
  by (auto simp: check_totp_def split_beta Let_def intro!: keeps_doors split: option.split)

lemma keeps_use_recovery_code: "keeps doors_kept (use_recovery_code env rq u c)"
  by (auto simp: use_recovery_code_def intro!: keeps_doors split: option.split)

section \<open>Sessions\<close>

text \<open>A token for an account that could sign in is accepted as long as no door was closed.\<close>

lemma token_accepted:
  assumes "find_account u s = Some (a, r)" and "ensure_can_sign_in now a = Inr ()" and "doors_kept s s'"
  shows "\<exists>st. check_claims (current_auth_state s') now (build_claims t u (auth_state_of a r) n None) None = Inr st"
proof -
  from assms(1,3) obtain a' where a': "find_account u s' = Some (a', r)" "same_door a a'"
    unfolding doors_kept_def by blast
  have "ensure_account_usable now (auth_state_of a' r) = Inr ()"
    using assms(2) a'(2)
    by (auto simp: ensure_can_sign_in_def ensure_account_usable_def auth_state_of_def same_door_def
        split: if_splits option.splits)
  with a' show ?thesis
    by (simp add: check_claims_def current_auth_state_def build_claims_def auth_state_of_def same_door_def)
qed

lemma issue_session_Inr:
  assumes "issue_session env rq (u, a, r) must new s = (Inr ss, s')"
  shows "ss_token ss = build_claims (rq_now rq) u (auth_state_of a r) (ev_session_seconds env) None
    \<and> ss_must_change_password ss = must
    \<and> (is_staff (us_role r) \<or> mt_mode (va_maintenance s) \<noteq> Full)"
  using assms
  by (auto simp: issue_session_def ensure_sign_in_allowed_def ebind_eq_Inr split: if_splits)

lemma check_password_Inr:
  "check_password env rq pw stored = Inr upgrade \<Longrightarrow>
     ev_matches env stored (ev_nfkc env pw) \<or> ev_matches env stored pw"
  by (auto simp: check_password_def verify_password_upgrading_def split: if_splits)

lemma hash_upgrade_maintenance:
  "upgrade_password_hash u old new s = (r, t) \<Longrightarrow> va_maintenance t = va_maintenance s"
  "set_must_change_password u b s = (r, t) \<Longrightarrow> va_maintenance t = va_maintenance s"
  by (auto simp: upgrade_password_hash_def set_must_change_password_def update_account_def)

lemma login_Session:
  assumes "login env rq name pw s = (Inr (Session ss), s')"
  obtains u a r t upgrade must where "find_by_identifier name s = Some (u, a, r)"
    "network_locked_until (rq_now rq) u (ip_bucket (rq_ip rq)) s = None"
    "check_password env rq pw (ac_password_hash a) = Inr upgrade"
    "locked_until_active (rq_now rq) a = None" "ensure_can_sign_in (rq_now rq) a = Inr ()"
    "\<not> two_factor_enabled a" "va_maintenance t = va_maintenance s"
    "issue_session env rq (u, a, r) must False t = (Inr ss, s')"
proof -
  from assms obtain u a r where f: "find_by_identifier name s = Some (u, a, r)"
    by (auto simp: login_def Let_def ebind_eq_Inr split: if_splits option.splits)
  moreover from assms f have n: "network_locked_until (rq_now rq) u (ip_bucket (rq_ip rq)) s = None"
    by (auto simp: login_def Let_def ebind_eq_Inr split: if_splits)
  moreover from assms f n obtain upgrade where c: "check_password env rq pw (ac_password_hash a) = Inr upgrade"
    by (auto simp: login_def Let_def ebind_eq_Inr split: if_splits sum.splits)
  moreover from assms f n c have l: "locked_until_active (rq_now rq) a = None"
    by (auto simp: login_def Let_def ebind_eq_Inr split: if_splits option.splits)
  moreover from assms f n c l have e: "ensure_can_sign_in (rq_now rq) a = Inr ()"
    by (auto simp: login_def Let_def ebind_eq_Inr split: if_splits)
  moreover from assms f n c l e have tf: "\<not> two_factor_enabled a"
    by (auto simp: login_def Let_def ebind_eq_Inr create_challenge_def split: if_splits)
  moreover have "\<exists>t must. va_maintenance t = va_maintenance s
      \<and> issue_session env rq (u, a, r) must False t = (Inr ss, s')"
    using assms f n c l e tf
    by (auto simp: login_def Let_def ebind_eq_Inr split: if_splits bool.splits sum.splits)
      (metis hash_upgrade_maintenance)+
  ultimately show thesis using that by blast
qed

text \<open>
  C12. Whoever gets a session with a password is entitled to it: the account exists, the password is the
  one stored (as typed, or normalized), neither the network nor the account is locked, the account
  is active, not banned and has no second factor, and the service is open to it. The session
  works: its token is for that account, and the middleware accepts it in the state left behind.
\<close>

theorem login_session_justified:
  assumes "login env rq name pw s = (Inr (Session ss), s')"
  shows "\<exists>u a r. find_by_identifier name s = Some (u, a, r)
    \<and> (ev_matches env (ac_password_hash a) (ev_nfkc env pw) \<or> ev_matches env (ac_password_hash a) pw)
    \<and> network_locked_until (rq_now rq) u (ip_bucket (rq_ip rq)) s = None
    \<and> locked_until_active (rq_now rq) a = None
    \<and> ac_status a = StatusActive \<and> active_ban (ac_banned_at a) (ac_banned_until a) (rq_now rq) = None
    \<and> \<not> two_factor_enabled a
    \<and> (is_staff (us_role r) \<or> mt_mode (va_maintenance s) \<noteq> Full)
    \<and> cl_sub (ss_token ss) = u \<and> cl_imp (ss_token ss) = None
    \<and> (\<exists>st. check_claims (current_auth_state s') (rq_now rq) (ss_token ss) None = Inr st)"
  using assms
proof (rule login_Session)
  fix u a r t upgrade must
  assume f: "find_by_identifier name s = Some (u, a, r)"
    and e: "ensure_can_sign_in (rq_now rq) a = Inr ()"
    and c: "check_password env rq pw (ac_password_hash a) = Inr upgrade"
    and t: "va_maintenance t = va_maintenance s"
    and i: "issue_session env rq (u, a, r) must False t = (Inr ss, s')"
    and rest: "network_locked_until (rq_now rq) u (ip_bucket (rq_ip rq)) s = None"
      "locked_until_active (rq_now rq) a = None" "\<not> two_factor_enabled a"
  note token = issue_session_Inr [OF i]
  have "\<exists>st. check_claims (current_auth_state s') (rq_now rq) (ss_token ss) None = Inr st"
    using token token_accepted [OF find_by_account [OF f] e keepsD [OF keeps_login assms]] by simp
  moreover have "ac_status a = StatusActive" "active_ban (ac_banned_at a) (ac_banned_until a) (rq_now rq) = None"
    using e by (simp_all add: ensure_can_sign_in_def split: if_splits option.splits)
  ultimately show ?thesis
    using f rest token t check_password_Inr [OF c] by (intro exI [of _ u] exI [of _ a] exI [of _ r])
      (simp add: build_claims_def)
qed

lemma login_valid:
  assumes "find_by_identifier name s = Some (u, a, r)"
    and "network_locked_until (rq_now rq) u (ip_bucket (rq_ip rq)) s = None"
    and "check_password env rq pw (ac_password_hash a) = Inr False"
    and "1 \<le> length name" "length name \<le> 254" "1 \<le> length pw" "length pw \<le> 256"
    and "locked_until_active (rq_now rq) a = None" and "ensure_can_sign_in (rq_now rq) a = Inr ()"
    and "\<not> ac_must_change_password a" and "is_password_compliant pw (Some (ac_username a))"
  shows "login env rq name pw s =
    (if two_factor_enabled a then create_challenge env rq (u, a, r) ''password'' None s
     else ebind (issue_session env rq (u, a, r) False False) (\<lambda>session. eret (Session session)) s)"
  using assms by (simp add: login_def Let_def)

theorem login_session_justified_witness:
  "\<exists>ss s' u a r. login test_env \<lparr>rq_now = 5, rq_ip = None, rq_code = ''1'', rq_token = ''t'', rq_salt = [],
        rq_busy = False\<rparr> ''ana'' ''old'' test_vault = (Inr (Session ss), s')
     \<and> find_by_identifier ''ana'' test_vault = Some (u, a, r) \<and> cl_sub (ss_token ss) = u"
proof -
  define rq :: request where "rq = \<lparr>rq_now = 5, rq_ip = None, rq_code = ''1'', rq_token = ''t'', rq_salt = [],
        rq_busy = False\<rparr>"
  have "case fst (login test_env rq ''ana'' ''old'' test_vault) of Inr (Session _) \<Rightarrow> True | _ \<Rightarrow> False"
    unfolding rq_def by code_simp
  then obtain ss s' where l: "login test_env rq ''ana'' ''old'' test_vault = (Inr (Session ss), s')"
    by (cases "login test_env rq ''ana'' ''old'' test_vault") (auto split: sum.splits outcome.splits)
  from login_session_justified [OF l] l show ?thesis unfolding rq_def by blast
qed

section \<open>Refusals\<close>

text \<open>Who knows the password, from a network that is not locked out.\<close>

definition proves_password :: "env \<Rightarrow> request \<Rightarrow> string \<Rightarrow> string \<Rightarrow> vault \<Rightarrow> bool" where
  "proves_password env rq name pw s =
     (case find_by_identifier name s of
        None \<Rightarrow> False
      | Some (u, a, r) \<Rightarrow>
          network_locked_until (rq_now rq) u (ip_bucket (rq_ip rq)) s = None
          \<and> (ev_matches env (ac_password_hash a) (ev_nfkc env pw) \<or> ev_matches env (ac_password_hash a) pw))"

text \<open>Who knows the code in force for recovering the password of an active account.\<close>

definition proves_code :: "env \<Rightarrow> reset_payload \<Rightarrow> vault \<Rightarrow> bool" where
  "proves_code env p s =
     (case find_by_identifier (rp_identifier p) s of
        None \<Rightarrow> False
      | Some (u, a, r) \<Rightarrow>
          ac_status a = StatusActive
          \<and> is_some_and (latest_code u PasswordReset s)
              (\<lambda>c. verify_code env (purpose_key PasswordReset) (trim (rp_code p)) (vc_code_hash c)))"

definition reset_payload_valid :: "reset_payload \<Rightarrow> bool" where
  "reset_payload_valid p =
     (1 \<le> length (rp_identifier p) \<and> length (rp_identifier p) \<le> 254
      \<and> length (rp_code p) = 6 \<and> length (rp_new_password p) \<le> 1024)"

lemma fst_ebind: "fst (m s) = Inr x \<Longrightarrow> fst (ebind m f s) = fst (f x (snd (m s)))"
  by (cases "m s") simp

lemma fst_notify_login_locked: "fst (notify_login_locked now view s) = Inr ()"
  by (auto simp: notify_login_locked_def send_security_notice_def split_beta queue_mail_def
      security_alert_def fst_ebind split: option.split)

lemma fst_password_failed: "fst (password_failed rq view bucket s) = Inr ()"
  by (simp add: password_failed_def record_password_failure_def Let_def fst_notify_login_locked)

lemma check_code_wrong:
  assumes "\<not> is_some_and (latest_code u p s) (\<lambda>c. verify_code env (purpose_key p) (trim x) (vc_code_hash c))"
  shows "\<exists>e s'. check_code env rq u p x s = (Inl e, s')
    \<and> (case e of DatabaseError _ \<Rightarrow> False | ServerError \<Rightarrow> False | _ \<Rightarrow> True)"
proof (cases "latest_code u p s")
  case None
  then show ?thesis
    by (simp add: check_code_def Let_def too_many_attempts_def invalid_code_def rule_with_meta_def)
next
  case (Some c)
  with assms have "\<not> verify_code env (purpose_key p) (trim x) (vc_code_hash c)" by simp
  then show ?thesis
    using Some
    by (simp add: check_code_def Let_def claim_code_attempt_def record_code_failure_def use_code_def
        too_many_attempts_def invalid_code_def code_expired_def rule_def rule_with_meta_def
        split: option.split)
qed

lemma login_refused:
  assumes "\<not> proves_password env rq name pw s"
  shows "fst (login env rq name pw s) =
      (if rq_busy rq \<and> 1 \<le> length name \<and> length name \<le> 254 \<and> 1 \<le> length pw \<and> length pw \<le> 256
       then Inl service_busy else Inl invalid_credentials)"
proof (cases "find_by_identifier name s")
  case None
  then show ?thesis by (simp add: login_def dummy_verify_def)
next
  case (Some v)
  obtain u a r where v: "v = (u, a, r)" by (rule prod_cases3)
  show ?thesis
  proof (cases "network_locked_until (rq_now rq) u (ip_bucket (rq_ip rq)) s")
    case (Some until)
    with \<open>find_by_identifier name s = Some v\<close> show ?thesis by (simp add: v login_def Let_def dummy_verify_def)
  next
    case None
    with assms Some v have "\<not> ev_matches env (ac_password_hash a) (ev_nfkc env pw)"
        "\<not> ev_matches env (ac_password_hash a) pw"
      by (simp_all add: proves_password_def)
    then have "check_password env rq pw (ac_password_hash a) = Inl (if rq_busy rq then service_busy else WrongPassword)"
      by (simp add: check_password_def verify_password_upgrading_def)
    with Some None v show ?thesis
      by (simp add: login_def Let_def fst_ebind fst_password_failed service_busy_def rule_with_meta_def)
  qed
qed

lemma reset_refused:
  assumes "\<not> proves_code env p s"
  shows "fst (reset_password env rq p s) =
      (if reset_payload_valid p then Inl invalid_code_plain else Inl ValidationError)"
proof (cases "opt_filter (\<lambda>(_, a, _). ac_status a = StatusActive) (find_by_identifier (rp_identifier p) s)")
  case None
  then show ?thesis by (simp add: reset_password_def check_reset_code_def reset_payload_valid_def ebind_def)
next
  case (Some v)
  obtain u a r where v: "v = (u, a, r)" by (rule prod_cases3)
  with Some have f: "find_by_identifier (rp_identifier p) s = Some (u, a, r)" "ac_status a = StatusActive"
    by (auto simp: opt_filter_def split: option.splits if_splits)
  with assms have "\<not> is_some_and (latest_code u PasswordReset s)
      (\<lambda>c. verify_code env (purpose_key PasswordReset) (trim (rp_code p)) (vc_code_hash c))"
    by (simp add: proves_code_def)
  from check_code_wrong [OF this] obtain e s'
    where e: "check_code env rq u PasswordReset (rp_code p) s = (Inl e, s')"
      "case e of DatabaseError _ \<Rightarrow> False | ServerError \<Rightarrow> False | _ \<Rightarrow> True"
    by blast
  from e(2) have "(case e of DatabaseError _ \<Rightarrow> e | ServerError \<Rightarrow> e | _ \<Rightarrow> invalid_code_plain) = invalid_code_plain"
    by (cases e) simp_all
  with f e(1) show ?thesis
    by (simp add: reset_password_def check_reset_code_def reset_payload_valid_def ebind_def emap_err_def)
qed

text \<open>
  C14. Refusals tell nothing. Whoever does not know the password (or asks from a network locked out of the
  account) gets one answer, whether the account exists, is locked, banned or has a second
  factor; asking for a recovery code answers the same whatever is stored; and a wrong recovery
  code answers the same for an unknown account, a spent or expired code and too many guesses.
\<close>

theorem refusals_reveal_nothing:
  assumes "\<not> proves_password env rq name pw s" and "\<not> proves_code env p s"
  shows "fst (login env rq name pw s) =
      (if rq_busy rq \<and> 1 \<le> length name \<and> length name \<le> 254 \<and> 1 \<le> length pw \<and> length pw \<le> 256
       then Inl service_busy else Inl invalid_credentials)
    \<and> fst (forgot_password env rq name s) =
      (if 1 \<le> length name \<and> length name \<le> 254 then Inr () else Inl ValidationError)
    \<and> fst (reset_password env rq p s) =
      (if reset_payload_valid p then Inl invalid_code_plain else Inl ValidationError)"
proof (intro conjI)
  show "fst (forgot_password env rq name s) =
      (if 1 \<le> length name \<and> length name \<le> 254 then Inr () else Inl ValidationError)"
    by (simp add: forgot_password_def ebind_etry split_beta split: option.split)
qed (rule login_refused [OF assms(1)], rule reset_refused [OF assms(2)])

theorem refusals_reveal_nothing_witness:
  "fst (login test_env \<lparr>rq_now = 5, rq_ip = None, rq_code = ''1'', rq_token = ''t'', rq_salt = [],
        rq_busy = False\<rparr> ''ana'' ''guess'' test_vault) = Inl invalid_credentials"
proof -
  have "\<not> proves_password test_env \<lparr>rq_now = 5, rq_ip = None, rq_code = ''1'', rq_token = ''t'', rq_salt = [],
        rq_busy = False\<rparr> ''ana'' ''guess'' test_vault" by code_simp
  moreover have "\<not> proves_code test_env \<lparr>rp_identifier = ''ana'', rp_code = ''123456'', rp_new_password = ''x''\<rparr> test_vault"
    by code_simp
  ultimately show ?thesis
    using refusals_reveal_nothing by fastforce
qed

section \<open>Recovering a password\<close>

lemma find_of_map: "find P (map f xs) = map_option f (find (P \<circ> f) xs)"
  by (induction xs) auto

lemma max_by_key_map: "max_by_key key (map f xs) = map_option f (max_by_key (key \<circ> f) xs)"
  by (induction xs) (auto split: option.split)

text \<open>What an account is found by: its name, its address and its age.\<close>

definition nameplates :: "vault \<Rightarrow> (uuid \<times> string) list \<times> (uuid \<times> string option \<times> time) list" where
  "nameplates s =
     (map (\<lambda>(u, a). (u, ac_username a)) (va_accounts s),
      map (\<lambda>(u, r). (u, us_email r, us_created_at r)) (db_users (va_db s)))"

lemma found_again:
  assumes "find_by_identifier i s = Some (u, a, r)" and same: "nameplates s' = nameplates s"
    and "find_account u s' = Some (a', r')"
  shows "find_by_identifier i s' = Some (u, a', r')"
proof -
  have view: "find_view u s' = Some (u, a', r')" using assms(3) by (simp add: find_view_def)
  have owner: "v = u" if "find_view v s = Some (u, a, r)" for v
    using that by (auto simp: find_view_def)
  have names: "map (\<lambda>(u, a). (u, ac_username a)) (va_accounts s') = map (\<lambda>(u, a). (u, ac_username a)) (va_accounts s)"
    and mails: "map (\<lambda>(u, r). (u, us_email r, us_created_at r)) (db_users (va_db s'))
      = map (\<lambda>(u, r). (u, us_email r, us_created_at r)) (db_users (va_db s))"
    using same by (simp_all add: nameplates_def)
  have by_name: "find_by_username n s' = Some (u, a', r')" if n: "find_by_username n s = Some (u, a, r)" for n
  proof -
    let ?P = "\<lambda>(_ :: uuid, x). to_lowercase x = to_lowercase (trim n)"
    have f: "find (\<lambda>(_, a). to_lowercase (ac_username a) = to_lowercase (trim n)) xs
        = find (?P \<circ> (\<lambda>(u, a). (u, ac_username a))) xs" for xs
      by (rule arg_cong [where f = "\<lambda>P. find P xs"]) auto
    have "map_option (\<lambda>(u, a). (u, ac_username a)) (find (?P \<circ> (\<lambda>(u, a). (u, ac_username a))) (va_accounts s'))
        = map_option (\<lambda>(u, a). (u, ac_username a)) (find (?P \<circ> (\<lambda>(u, a). (u, ac_username a))) (va_accounts s))"
      unfolding find_of_map [symmetric] names ..
    then show ?thesis
      using n view by (auto simp: find_by_username_def f bind_eq_Some_conv dest!: owner)
  qed
  have by_mail: "find_by_email m s' = Some (u, a', r')" if m: "find_by_email m s = Some (u, a, r)" for m
  proof -
    let ?f = "\<lambda>(u, r). (u, us_email r, us_created_at r)"
    let ?P = "\<lambda>(_ :: uuid, e, _ :: time). map_option to_lowercase e = Some (to_lowercase (trim m))"
    let ?k = "\<lambda>(_ :: uuid, _ :: string option, t :: time). - t"
    have f: "max_by_key (\<lambda>(_, r). - us_created_at r)
          (filter (\<lambda>(_, r). map_option to_lowercase (us_email r) = Some (to_lowercase (trim m))) xs)
        = max_by_key (?k \<circ> ?f) (filter (?P \<circ> ?f) xs)" for xs
      by (rule arg_cong2 [where f = max_by_key] arg_cong [where f = "\<lambda>P. filter P xs"] | auto)+
    define M where "M t = max_by_key (?k \<circ> ?f) (filter (?P \<circ> ?f) (db_users (va_db t)))" for t :: vault
    have e: "find_by_email m t = Option.bind (M t) (\<lambda>(v, _). find_view v t)" for t
      unfolding find_by_email_def M_def f ..
    have "map_option ?f (M s') = map_option ?f (M s)"
      unfolding M_def max_by_key_map [symmetric] filter_map [symmetric] mails ..
    moreover from m e [of s] obtain b where "M s = Some (u, b)"
      by (auto simp: bind_eq_Some_conv dest!: owner)
    ultimately obtain b' where "M s' = Some (u, b')" by (auto simp: map_option_case split: option.splits)
    then show ?thesis by (simp add: e view)
  qed
  show ?thesis
    using assms(1) by_name by_mail by (auto simp: find_by_identifier_def split: if_splits)
qed

lemma nameplates_update:
  "(\<And>a. ac_username (f a) = ac_username a) \<Longrightarrow> nameplates (update_account u f s) = nameplates s"
  by (auto simp: nameplates_def update_account_def)

lemma nameplates_update_user:
  "(\<And>r. us_email (f r) = us_email r \<and> us_created_at (f r) = us_created_at r)
     \<Longrightarrow> nameplates (update_user u f s) = nameplates s"
  by (auto simp: nameplates_def update_user_def)

text \<open>Checking and using a code touches codes only.\<close>

definition codes_only :: "vault \<Rightarrow> vault \<Rightarrow> bool" where
  "codes_only s s' \<longleftrightarrow> (\<exists>cs. s' = s\<lparr>va_codes := cs\<rparr>)"

interpretation codes: chain codes_only
proof unfold_locales
  fix s t u
  show "codes_only s s" unfolding codes_only_def by (rule exI [of _ "va_codes s"]) simp
  show "codes_only s t \<Longrightarrow> codes_only t u \<Longrightarrow> codes_only s u" by (auto simp: codes_only_def)
qed

lemma keeps_codes: "keeps codes_only (claim_code_attempt now i n)" "keeps codes_only (record_code_failure i)"
  "keeps codes_only (use_code now i)" "keeps codes_only (release_code_attempt i)"
  by (auto simp: keeps_def codes_only_def claim_code_attempt_def record_code_failure_def use_code_def
      release_code_attempt_def consume_codes_def)

lemma keeps_check_code: "keeps codes_only (check_code env rq u p c)"
  by (auto simp: check_code_def Let_def intro!: codes.rules codes.answers keeps_codes split: option.split)

text \<open>The account of \<open>u\<close> after its password was recovered.\<close>

definition recovered_account :: "time \<Rightarrow> string \<Rightarrow> bool \<Rightarrow> bool \<Rightarrow> login_account \<Rightarrow> login_account" where
  "recovered_account now hash verifies first a =
     (let a = password_recovered now hash verifies a
      in if first then a\<lparr>ac_totp_secret_enc := None, ac_totp_enabled_at := None, ac_totp_last_step := None,
            ac_totp_pending_secret_enc := None, ac_totp_pending_created_at := None\<rparr> else a)"

lemma find_account_invalidate [simp]: "find_account v (invalidate_pending now u s) = find_account v s"
  by (rule find_account_cong) (simp_all add: invalidate_pending_def consume_codes_def consume_challenges_def)

lemma find_account_unlock [simp]: "find_account v (unlock_account u s) = find_account v s"
  by (rule find_account_cong) (simp_all add: unlock_account_def)

lemma nameplates_kept [simp]:
  "nameplates (invalidate_pending now u s) = nameplates s"
  "nameplates (unlock_account u s) = nameplates s"
  "nameplates (update_account u (password_recovered now hash verifies) s) = nameplates s"
  "nameplates (update_user u (address_proven now verifies) s) = nameplates s"
  "nameplates (wipe_second_factors u s) = nameplates s"
proof -
  show "nameplates (wipe_second_factors u s) = nameplates s"
    unfolding wipe_second_factors_def
    using nameplates_update [of "\<lambda>a. a\<lparr>ac_totp_secret_enc := None, ac_totp_enabled_at := None,
          ac_totp_last_step := None, ac_totp_pending_secret_enc := None,
          ac_totp_pending_created_at := None\<rparr>" u s]
    by (simp add: nameplates_def)
qed (simp_all add: nameplates_update nameplates_update_user password_recovered_def address_proven_def,
     simp_all add: nameplates_def invalidate_pending_def consume_codes_def consume_challenges_def unlock_account_def)

lemma recover_password_Inr:
  assumes "recover_password now u hash verifies s = (Inr first, s')" and "find_account u s = Some (a, r)"
  shows "first = (verifies \<and> ac_email_first_verified_at a = None)
    \<and> find_account u s' = Some (recovered_account now hash verifies first a, address_proven now verifies r)
    \<and> nameplates s' = nameplates s \<and> va_maintenance s' = va_maintenance s
    \<and> (\<forall>b. failure_of u b s' = None)
    \<and> (\<forall>c \<in> set (va_codes s'). vc_user c = u \<longrightarrow> \<not> live_code c)
    \<and> (\<forall>c \<in> set (va_challenges s'). lc_user c = u \<longrightarrow> \<not> live_challenge c)
    \<and> (first \<longrightarrow> (\<forall>c \<in> set (va_recovery s'). rc_user c \<noteq> u) \<and> list_identities u s' = [])"
proof -
  let ?f = "verifies \<and> ac_email_first_verified_at a = None"
  let ?t = "update_user u (address_proven now verifies) (update_account u (password_recovered now hash verifies) s)"
  let ?s = "invalidate_pending now u (unlock_account u ?t)"
  from assms have s': "first = ?f" "s' = (if ?f then wipe_second_factors u ?s else ?s)"
    by (auto simp: recover_password_def Let_def)
  have find_wipe: "find_account u (wipe_second_factors u x)
     = map_option (\<lambda>(a, r). (a\<lparr>ac_totp_secret_enc := None, ac_totp_enabled_at := None, ac_totp_last_step := None,
            ac_totp_pending_secret_enc := None, ac_totp_pending_created_at := None\<rparr>, r)) (find_account u x)" for x
    unfolding wipe_second_factors_def
    using find_account_update [of u u "\<lambda>a. a\<lparr>ac_totp_secret_enc := None, ac_totp_enabled_at := None,
          ac_totp_last_step := None, ac_totp_pending_secret_enc := None,
          ac_totp_pending_created_at := None\<rparr>" x]
    by (simp add: find_account_def)
  have codes: "\<not> live_code c" if "c \<in> set (va_codes (invalidate_pending now u x))" "vc_user c = u" for c x
  proof -
    from that(1) obtain d where "c = (if vc_user d = u \<and> live_code d
        then d\<lparr>vc_consumed_at := Some now, vc_code_enc := None\<rparr> else d)"
      by (force simp: invalidate_pending_def consume_codes_def consume_challenges_def update_where_def)
    with that(2) show ?thesis by (simp add: live_code_def split: if_splits)
  qed
  have challenges: "\<not> live_challenge c"
    if "c \<in> set (va_challenges (invalidate_pending now u x))" "lc_user c = u" for c x
  proof -
    from that(1) obtain d where "c = (if lc_user d = u \<and> live_challenge d then d\<lparr>lc_consumed_at := Some now\<rparr> else d)"
      by (force simp: invalidate_pending_def consume_codes_def consume_challenges_def update_where_def)
    with that(2) show ?thesis by (simp add: live_challenge_def split: if_splits)
  qed
  have failures: "failure_of u b (invalidate_pending now u (unlock_account u x)) = None" for b x
    by (auto simp: failure_of_def invalidate_pending_def consume_codes_def consume_challenges_def
        unlock_account_def find_None_iff)
  have wiped: "va_codes (wipe_second_factors u x) = va_codes x" "va_challenges (wipe_second_factors u x) = va_challenges x"
    "failure_of u b (wipe_second_factors u x) = failure_of u b x" "va_maintenance (wipe_second_factors u x) = va_maintenance x"
    "\<forall>c \<in> set (va_recovery (wipe_second_factors u x)). rc_user c \<noteq> u" "list_identities u (wipe_second_factors u x) = []" for x b
    by (auto simp: wipe_second_factors_def update_account_def failure_of_def list_identities_def filter_empty_conv)
  have maintenance: "va_maintenance ?s = va_maintenance s"
    by (simp add: invalidate_pending_def consume_codes_def consume_challenges_def unlock_account_def
        update_user_def update_account_def)
  have found: "find_account u ?s = Some (password_recovered now hash verifies a, address_proven now verifies r)"
    using assms(2) by simp
  have names: "nameplates ?s = nameplates s" by simp
  note facts = found names maintenance failures [of _ ?t] codes [where x = "unlock_account u ?t"]
    challenges [where x = "unlock_account u ?t"]
  obtain q where q: "q = ?s" by simp
  show ?thesis
    using facts [folded q] names [folded q] s' [folded q]
    by (cases ?f) (simp_all add: find_wipe wiped recovered_account_def Let_def)
qed

lemma reset_password_Inr:
  assumes "reset_password env rq p s = (Inr (), s')"
  obtains u a r verifies hash first where
    "find_by_identifier (rp_identifier p) s = Some (u, a, r)" "ac_status a = StatusActive"
    "1 \<le> length (rp_identifier p)" "length (rp_identifier p) \<le> 254"
    "is_password_compliant (rp_new_password p) (Some (ac_username a))"
    "hash = ev_argon env (rq_salt rq) (ev_nfkc env (rp_new_password p))"
    "first = (verifies \<and> ac_email_first_verified_at a = None)"
    "find_account u s' = Some (recovered_account (rq_now rq) hash verifies first a, address_proven (rq_now rq) verifies r)"
    "nameplates s' = nameplates s" "va_maintenance s' = va_maintenance s" "\<forall>b. failure_of u b s' = None"
    "\<forall>c \<in> set (va_codes s'). vc_user c = u \<longrightarrow> \<not> live_code c"
    "\<forall>c \<in> set (va_challenges s'). lc_user c = u \<longrightarrow> \<not> live_challenge c"
    "first \<longrightarrow> (\<forall>c \<in> set (va_recovery s'). rc_user c \<noteq> u)"
proof -
  from assms obtain view stored s1 where valid: "1 \<le> length (rp_identifier p)" "length (rp_identifier p) \<le> 254"
    and c: "check_reset_code env rq p s = (Inr (view, stored), s1)"
    by (auto simp: reset_password_def ebind_eq_Inr split: if_splits)
  obtain u a r where v: "view = (u, a, r)" by (rule prod_cases3)
  from c v have f: "find_by_identifier (rp_identifier p) s = Some (u, a, r)" "ac_status a = StatusActive"
    and cc: "check_code env rq u PasswordReset (rp_code p) s = (Inr stored, s1)"
    by (auto simp: check_reset_code_def ebind_eq_Inr emap_err_eq_Inr opt_filter_def
        split: option.splits if_splits prod.splits)
  define verifies where "verifies = is_some_and (us_email r) (\<lambda>e. eq_ignore_ascii_case e (vc_target_email stored))"
  from assms c v obtain s2 hash s3 first s4 where steps:
    "password_issues_checked (ev_breached env) (rp_new_password p) (Some (ac_username a)) = []"
    "use_code (rq_now rq) (vc_id stored) s1 = (Inr True, s2)"
    "hash_password env rq (rp_new_password p) = Inr hash"
    "recover_password (rq_now rq) u hash verifies s2 = (Inr first, s3)"
    "after_recovery env rq (u, a, r) stored verifies s3 = (Inr (), s')"
    unfolding verifies_def
    by (auto simp: reset_password_def Let_def ebind_eq_Inr split: if_splits)
  from keepsD [OF keeps_check_code cc] keepsD [OF keeps_codes(3) steps(2)]
  have same: "codes_only s s2" by (rule codes.onward)
  then have names2: "nameplates s2 = nameplates s" and mt2: "va_maintenance s2 = va_maintenance s"
    and "find_account u s2 = find_account u s"
    by (auto simp: codes_only_def nameplates_def intro: find_account_cong)
  with find_by_account [OF f(1)] have find2: "find_account u s2 = Some (a, r)" by simp
  note rec = recover_password_Inr [OF steps(4) find2]
  have kept: "people_kept s3 s'" by (rule keepsD [OF keeps_after_recovery steps(5)])
  from kept have kept': "nameplates s' = nameplates s3" "failure_of u b s' = failure_of u b s3" for b
    by (simp_all add: people_kept_def nameplates_def failure_of_def)
  have "is_password_compliant (rp_new_password p) (Some (ac_username a))"
    using steps(1) by (auto simp: password_issues_checked_def is_password_compliant_def Let_def split: if_splits)
  moreover have "hash = ev_argon env (rq_salt rq) (ev_nfkc env (rp_new_password p))"
    using steps(3) by (auto simp: hash_password_def split: if_splits)
  moreover have "find_account u s' = find_account u s3" by (rule people_kept_account [OF kept])
  ultimately show thesis
    using rec kept' kept valid f names2 mt2
    by (intro that [of u a r hash first verifies]) (simp_all add: people_kept_def)
qed

text \<open>What a recovery does to the fields that matter at the door.\<close>

lemma recovered_account_fields:
  "ac_password_hash (recovered_account now hash v f a) = hash"
  "ac_locked_until (recovered_account now hash v f a) = None"
  "ac_status (recovered_account now hash v f a) = ac_status a"
  "ac_username (recovered_account now hash v f a) = ac_username a"
  "ac_must_change_password (recovered_account now hash v f a) = False"
  "ac_banned_at (recovered_account now hash v f a) = ac_banned_at a"
  "ac_banned_until (recovered_account now hash v f a) = ac_banned_until a"
  "ac_token_version (recovered_account now hash v f a) = ac_token_version a + 1"
  "two_factor_enabled (recovered_account now hash v f a) = (\<not> f \<and> two_factor_enabled a)"
  by (simp_all add: recovered_account_def password_recovered_def two_factor_enabled_def Let_def)

lemma issue_session_given:
  assumes "find_account u s = Some (a, r)" and "is_staff (us_role r) \<or> mt_mode (va_maintenance s) \<noteq> Full"
  shows "\<exists>ss s'. issue_session env rq (u, a, r) must new s = (Inr ss, s') \<and> ss_must_change_password ss = must"
proof -
  let ?reset = "\<lambda>a. a\<lparr>ac_failed_login_count := 0, ac_locked_until := None\<rparr>"
  have "find_account u (t\<lparr>va_failures := x\<rparr>) = find_account u t" for t x by (simp add: find_account_def)
  then have reset: "fst (reset_login_failures u b s) = Inr ()"
    "find_account u (snd (reset_login_failures u b s)) = Some (?reset a, r)" for b
    using assms(1) by (simp_all add: reset_login_failures_def)
  obtain t where t: "reset_login_failures u (Some (ip_bucket (rq_ip rq))) s = (Inr (), t)"
    "find_account u t = Some (?reset a, r)"
    using reset by (metis prod.collapse)
  then have "\<exists>first t'. mark_login (rq_now rq) u t = (Inr first, t')" by (simp add: mark_login_def)
  then obtain first t' where "mark_login (rq_now rq) u t = (Inr first, t')" by blast
  with assms(2) t(1) show ?thesis by (auto simp: issue_session_def ensure_sign_in_allowed_def)
qed

text \<open>
  C15. Recovering a password opens the door again: after a successful recovery, signing in with the new
  password is accepted, from any network and however many wrong passwords went before. The
  account gets its session at once and is not asked for another password, unless a second factor is
  still on, which the next step then asks for. (The account must not be banned, the service be
  open to it, and a hashing slot free.)
\<close>

theorem recovery_opens_the_door:
  assumes "reset_password env rq p s = (Inr (), s')"
    and "find_by_identifier (rp_identifier p) s = Some (u, a, r)"
    and "\<forall>salt pw. ev_matches env (ev_argon env salt pw) pw"
    and "\<not> rq_busy rq2" and "active_ban (ac_banned_at a) (ac_banned_until a) (rq_now rq2) = None"
    and "is_staff (us_role r) \<or> mt_mode (va_maintenance s) \<noteq> Full"
  shows "\<exists>out s''. login env rq2 (rp_identifier p) (rp_new_password p) s' = (Inr out, s'')
    \<and> (case out of Session ss \<Rightarrow> \<not> ss_must_change_password ss | Challenge t e \<Rightarrow> two_factor_enabled a)"
  using assms(1)
proof (rule reset_password_Inr)
  fix v b q verifies hash first
  let ?a = "recovered_account (rq_now rq) hash verifies first a"
    and ?r = "address_proven (rq_now rq) verifies r"
  assume who: "find_by_identifier (rp_identifier p) s = Some (v, b, q)" "ac_status b = StatusActive"
    and len: "1 \<le> length (rp_identifier p)" "length (rp_identifier p) \<le> 254"
    and ok: "is_password_compliant (rp_new_password p) (Some (ac_username b))"
    and hash: "hash = ev_argon env (rq_salt rq) (ev_nfkc env (rp_new_password p))"
    and found: "find_account v s' = Some (recovered_account (rq_now rq) hash verifies first b, address_proven (rq_now rq) verifies q)"
    and names: "nameplates s' = nameplates s" and mt: "va_maintenance s' = va_maintenance s"
    and free: "\<forall>b. failure_of v b s' = None"
  from who(1) assms(2) have me: "v = u" "b = a" "q = r" by simp_all
  have found': "find_account u s' = Some (?a, ?r)" using found unfolding me .
  have again: "find_by_identifier (rp_identifier p) s' = Some (u, ?a, ?r)"
    by (rule found_again [OF assms(2) names found'])
  have pw: "8 \<le> length (rp_new_password p)" "length (rp_new_password p) \<le> 128"
    using ok by (auto simp: is_password_compliant_def password_issues_def MIN_PASSWORD_LENGTH_def
        MAX_PASSWORD_LENGTH_def split: if_splits)
  have check: "check_password env rq2 (rp_new_password p) (ac_password_hash ?a) = Inr False"
    using assms(3,4) hash by (simp add: check_password_def verify_password_upgrading_def recovered_account_fields)
  have "ensure_can_sign_in (rq_now rq2) ?a = Inr ()"
    using who(2) assms(5) by (simp add: ensure_can_sign_in_def recovered_account_fields me)
  moreover have "network_locked_until (rq_now rq2) u (ip_bucket (rq_ip rq2)) s' = None"
    using free by (simp add: network_locked_until_def me)
  ultimately have login: "login env rq2 (rp_identifier p) (rp_new_password p) s' =
    (if two_factor_enabled ?a then create_challenge env rq2 (u, ?a, ?r) ''password'' None s'
     else ebind (issue_session env rq2 (u, ?a, ?r) False False) (\<lambda>session. eret (Session session)) s')"
    using login_valid [OF again] check len pw ok
    by (simp add: locked_until_active_def recovered_account_fields me)
  have open_door: "is_staff (us_role ?r) \<or> mt_mode (va_maintenance s') \<noteq> Full"
    using assms(6) mt by (simp add: address_proven_def)
  show ?thesis
  proof (cases "two_factor_enabled ?a")
    case True
    with login open_door show ?thesis
      by (auto simp: create_challenge_def ensure_sign_in_allowed_def store_challenge_def recovered_account_fields
          ebind_def Let_def)
  next
    case False
    from issue_session_given [OF found' open_door] obtain ss s'' where
      "issue_session env rq2 (u, ?a, ?r) False False s' = (Inr ss, s'')" "\<not> ss_must_change_password ss"
      by blast
    with False login show ?thesis by simp
  qed
qed

text \<open>A request for a code, and one to use it.\<close>

definition rq_recover :: "time \<Rightarrow> request" where
  "rq_recover now = \<lparr>rq_now = now, rq_ip = None, rq_code = ''123456'', rq_token = ''t'', rq_salt = [], rq_busy = False\<rparr>"

definition new_password :: reset_payload where
  "new_password = \<lparr>rp_identifier = ''ana'', rp_code = ''123456'', rp_new_password = ''Correct-Horse1''\<rparr>"

definition asked_vault :: vault where
  "asked_vault = snd (forgot_password test_env (rq_recover 0) ''ana'' test_vault)"

lemma recovery_example:
  obtains s' u a r where "reset_password test_env (rq_recover 5) new_password asked_vault = (Inr (), s')"
    "find_by_identifier ''ana'' asked_vault = Some (u, a, r)" "ac_banned_at a = None" "u = 1" "ac_token_version a = 0"
    "mt_mode (va_maintenance asked_vault) = Off"
proof -
  have "fst (reset_password test_env (rq_recover 5) new_password asked_vault) = Inr ()"
    unfolding asked_vault_def by code_simp
  then obtain s' where s': "reset_password test_env (rq_recover 5) new_password asked_vault = (Inr (), s')"
    by (metis prod.collapse)
  have "case find_by_identifier ''ana'' asked_vault of None \<Rightarrow> False
    | Some (u, a, r) \<Rightarrow> ac_banned_at a = None \<and> u = 1 \<and> ac_token_version a = 0"
    unfolding asked_vault_def by code_simp
  moreover have "mt_mode (va_maintenance asked_vault) = Off" unfolding asked_vault_def by code_simp
  ultimately show thesis using s' by (auto intro: that split: option.splits)
qed

theorem recovery_opens_the_door_witness:
  "\<exists>s' out s''. reset_password test_env (rq_recover 5) new_password asked_vault = (Inr (), s')
     \<and> login test_env (rq_recover 9) ''ana'' ''Correct-Horse1'' s' = (Inr out, s'')"
proof -
  obtain s' u a r where ex: "reset_password test_env (rq_recover 5) new_password asked_vault = (Inr (), s')"
    "find_by_identifier ''ana'' asked_vault = Some (u, a, r)" "ac_banned_at a = None"
    "mt_mode (va_maintenance asked_vault) = Off"
    by (rule recovery_example)
  have "\<exists>out s''. login test_env (rq_recover 9) (rp_identifier new_password) (rp_new_password new_password) s'
      = (Inr out, s'') \<and> (case out of Session ss \<Rightarrow> \<not> ss_must_change_password ss | Challenge t e \<Rightarrow> two_factor_enabled a)"
    by (rule recovery_opens_the_door [OF ex(1)])
      (use ex in \<open>simp_all add: new_password_def test_env_def rq_recover_def active_ban_def\<close>)
  with ex(1) show ?thesis by (auto simp: new_password_def)
qed

text \<open>
  C16. Recovering a password closes every other door: any session token of the account made until then
  (its version is at most the one stored) is refused from then on, no code or
  sign-in challenge asked for before can be used, and the old password hash is gone. If this is the first proof
  that the owner controls the address, the second factor and the recovery codes set up before it
  are gone too; otherwise the second factor stays as it was.
\<close>

theorem recovery_signs_out:
  assumes "reset_password env rq p s = (Inr (), s')"
    and "find_by_identifier (rp_identifier p) s = Some (u, a, r)"
    and "cl_sub claims = u" and "cl_imp claims = None" and "cl_ver claims \<le> ac_token_version a"
  shows "check_claims (current_auth_state s') now claims request = Inl session_revoked
    \<and> \<not> list_ex (\<lambda>c. vc_user c = u \<and> live_code c) (va_codes s')
    \<and> \<not> list_ex (\<lambda>c. lc_user c = u \<and> live_challenge c) (va_challenges s')
    \<and> (\<exists>a' r'. find_account u s' = Some (a', r')
         \<and> ac_password_hash a' = ev_argon env (rq_salt rq) (ev_nfkc env (rp_new_password p))
         \<and> (if ac_email_first_verified_at a' \<noteq> ac_email_first_verified_at a
            then \<not> two_factor_enabled a' \<and> count_recovery_codes u s' = 0
            else two_factor_enabled a' = two_factor_enabled a))"
  using assms(1)
proof (rule reset_password_Inr)
  fix v b q verifies hash first
  assume who: "find_by_identifier (rp_identifier p) s = Some (v, b, q)"
    and hash: "hash = ev_argon env (rq_salt rq) (ev_nfkc env (rp_new_password p))"
    and first: "first = (verifies \<and> ac_email_first_verified_at b = None)"
    and found: "find_account v s' = Some (recovered_account (rq_now rq) hash verifies first b, address_proven (rq_now rq) verifies q)"
    and codes: "\<forall>c \<in> set (va_codes s'). vc_user c = v \<longrightarrow> \<not> live_code c"
    and challenges: "\<forall>c \<in> set (va_challenges s'). lc_user c = v \<longrightarrow> \<not> live_challenge c"
    and wiped: "first \<longrightarrow> (\<forall>c \<in> set (va_recovery s'). rc_user c \<noteq> v)"
  from who assms(2) have me: "v = u" "b = a" "q = r" by simp_all
  let ?a = "recovered_account (rq_now rq) hash verifies first a"
  have "check_claims (current_auth_state s') now claims request = Inl session_revoked"
    using found assms(3-5) unfolding me
    by (simp add: check_claims_def current_auth_state_def auth_state_of_def recovered_account_fields)
  moreover have "ac_email_first_verified_at ?a = (if verifies then Some (unwrap_or (ac_email_first_verified_at a) (rq_now rq))
      else ac_email_first_verified_at a)"
    by (simp add: recovered_account_def password_recovered_def Let_def)
  then have "(ac_email_first_verified_at ?a \<noteq> ac_email_first_verified_at a) = first"
    using first unfolding me by (cases "ac_email_first_verified_at a") auto
  moreover have "first \<Longrightarrow> count_recovery_codes u s' = 0"
    using wiped unfolding me by (auto simp: count_recovery_codes_def filter_empty_conv)
  ultimately show ?thesis
    using found codes challenges hash unfolding me
    by (auto simp: recovered_account_fields list_ex_iff)
qed

theorem recovery_signs_out_witness:
  "\<exists>s'. reset_password test_env (rq_recover 5) new_password asked_vault = (Inr (), s')
     \<and> check_claims (current_auth_state s') 6
          \<lparr>cl_sub = 1, cl_username = ''ana'', cl_role = RoleUser, cl_status = StatusActive, cl_exp = 3600, cl_iat = 0,
           cl_ver = 0, cl_imp = None, cl_iver = None\<rparr> None = Inl session_revoked"
proof -
  obtain s' u a r where ex: "reset_password test_env (rq_recover 5) new_password asked_vault = (Inr (), s')"
    "find_by_identifier ''ana'' asked_vault = Some (u, a, r)" "u = 1" "ac_token_version a = 0"
    by (rule recovery_example)
  let ?c = "\<lparr>cl_sub = 1, cl_username = ''ana'', cl_role = RoleUser, cl_status = StatusActive, cl_exp = 3600, cl_iat = 0,
           cl_ver = 0, cl_imp = None, cl_iver = None\<rparr>"
  have "check_claims (current_auth_state s') 6 ?c None = Inl session_revoked"
    using recovery_signs_out [OF ex(1), of u a r ?c] ex(2-4) by (simp add: new_password_def)
  with ex(1) show ?thesis by blast
qed

section \<open>The second step\<close>

text \<open>The proof of the second step: a code of the authenticator not used before, or an unused recovery code.\<close>

definition second_factor_given :: "env \<Rightarrow> request \<Rightarrow> two_factor_payload \<Rightarrow> uuid \<Rightarrow> login_account \<Rightarrow> vault \<Rightarrow> bool" where
  "second_factor_given env rq payload u a s =
     (case tf_code payload of
        Some c \<Rightarrow> (case Option.bind (ac_totp_secret_enc a) (ev_decrypt env) of
            None \<Rightarrow> False
          | Some secret \<Rightarrow> (case totp_verify (ev_otp_mac env) (secret_bytes secret) c
                (nat (max 0 (timestamp (rq_now rq)))) (ac_totp_last_step a) of
              None \<Rightarrow> False
            | Some step \<Rightarrow> is_none_or (ac_totp_last_step a) (\<lambda>l. l < step)))
      | None \<Rightarrow> is_some_and (Option.bind (tf_recovery_code payload) normalize_recovery_code)
          (\<lambda>c. list_ex (usable_recovery u (hash_code env ''recovery'' c)) (va_recovery s)))"

lemma two_factor_account_Inr:
  assumes "two_factor_account rq c s = (Inr (u, a, r), s')"
  shows "s' = s \<and> live_challenge c \<and> lc_expires_at c > rq_now rq \<and> u = lc_user c \<and> find_account u s = Some (a, r)
    \<and> \<not> is_some_and (ac_password_changed_at a) (\<lambda>t. lc_created_at c < t)
    \<and> locked_until_active (rq_now rq) a = None \<and> ensure_can_sign_in (rq_now rq) a = Inr ()
    \<and> (is_staff (us_role r) \<or> mt_mode (va_maintenance s) \<noteq> Full)"
  using assms
  by (auto simp: two_factor_account_def ensure_sign_in_allowed_def live_challenge_def Let_def ebind_eq_Inr
      find_view_def split: if_splits option.splits)

lemma challenge_consumed:
  assumes "consume_challenge now i s = (Inr b, s')"
  shows "\<not> list_ex (\<lambda>c. lc_id c = i \<and> live_challenge c) (va_challenges s')"
proof
  assume "list_ex (\<lambda>c. lc_id c = i \<and> live_challenge c) (va_challenges s')"
  then obtain c where c: "c \<in> set (va_challenges s')" "lc_id c = i" "live_challenge c" by (auto simp: list_ex_iff)
  from assms c(1) obtain d where "c = (if lc_id d = i \<and> live_challenge d then d\<lparr>lc_consumed_at := Some now\<rparr> else d)"
    by (force simp: consume_challenge_def consume_challenges_def update_where_def)
  with c(2,3) show False by (simp add: live_challenge_def split: if_splits)
qed

lemma claimed_challenge:
  "claim_challenge_attempt now i n s = (Inr (Some k), s') \<Longrightarrow>
     list_ex (claimable_challenge now i n) (va_challenges s)
     \<and> va_accounts s' = va_accounts s \<and> va_db s' = va_db s \<and> va_recovery s' = va_recovery s
     \<and> va_maintenance s' = va_maintenance s"
  by (auto simp: claim_challenge_attempt_def list_ex_iff dest: find_holds)

lemma find_account_map_of: "find_account u s = Some (a, r) \<Longrightarrow> map_of (va_accounts s) u = Some a"
  by (simp add: find_account_def split: option.splits)

lemma check_totp_True:
  assumes "check_totp env rq (u, a, r) c s = (Inr True, s')" and "find_account u s = Some (a, r)"
    and "tf_code payload = Some c"
  shows "second_factor_given env rq payload u a s"
  using assms(1,3) find_account_map_of [OF assms(2)]
  by (auto simp: check_totp_def second_factor_given_def claim_totp_step_def Let_def split: option.splits if_splits)

lemma use_recovery_code_True:
  assumes "use_recovery_code env rq u c s = (Inr True, s')" and "tf_code payload = None" "tf_recovery_code payload = Some c"
  shows "second_factor_given env rq payload u a s"
  using assms
  by (auto simp: use_recovery_code_def use_recovery_row_def second_factor_given_def ebind_eq_Inr list_ex_iff
      dest!: find_holds split: option.splits if_splits)

lemma login_two_factor_Inr:
  assumes "login_two_factor env rq payload s = (Inr ss, s')"
  obtains c a r k s1 s2 s3 s4 where
    "find_challenge (ev_sha256 env (trim (tf_challenge_token payload))) s = Some c"
    "two_factor_account rq c s = (Inr (lc_user c, a, r), s)"
    "claim_challenge_attempt (rq_now rq) (lc_id c) CHALLENGE_MAX_ATTEMPTS s = (Inr (Some k), s1)"
    "(case (tf_code payload, tf_recovery_code payload) of
        (Some x, _) \<Rightarrow> check_totp env rq (lc_user c, a, r) x
      | (None, Some x) \<Rightarrow> use_recovery_code env rq (lc_user c) x
      | (None, None) \<Rightarrow> eret False) s1 = (Inr True, s2)"
    "consume_challenge (rq_now rq) (lc_id c) s2 = (Inr True, s3)"
    "link_pending rq (lc_user c, a, r) c s3 = (Inr (), s4)"
    "issue_session env rq (lc_user c, a, r) (ac_must_change_password a) False s4 = (Inr ss, s')"
proof -
  have not_failed: "second_step_failed rq view c n t \<noteq> (Inr ss, t')" for view c n t t'
    by (auto simp: second_step_failed_def ebind_eq_Inr split: option.splits)
  from assms obtain c view where c: "find_challenge (ev_sha256 env (trim (tf_challenge_token payload))) s = Some c"
    and "\<exists>t. two_factor_account rq c s = (Inr view, t)"
    by (auto simp: login_two_factor_def ebind_eq_Inr split: if_splits option.splits)
  moreover obtain u a r where "view = (u, a, r)" by (rule prod_cases3)
  ultimately have acc: "two_factor_account rq c s = (Inr (lc_user c, a, r), s)" and view: "view = (lc_user c, a, r)"
    using two_factor_account_Inr by blast+
  from assms c acc obtain k s1 where k: "claim_challenge_attempt (rq_now rq) (lc_id c) CHALLENGE_MAX_ATTEMPTS s = (Inr (Some k), s1)"
    by (auto simp: login_two_factor_def ebind_eq_Inr split: if_splits option.splits)
  define m where "m = (case (tf_code payload, tf_recovery_code payload) of
        (Some x, _) \<Rightarrow> check_totp env rq (lc_user c, a, r) x
      | (None, Some x) \<Rightarrow> use_recovery_code env rq (lc_user c) x
      | (None, None) \<Rightarrow> eret False)"
  define tail where "tail = ebind (consume_challenge (rq_now rq) (lc_id c)) (\<lambda>first.
                if \<not> first then efail (invalid_two_factor_code (Some 0))
                else
                  ebind (link_pending rq (lc_user c, a, r) c) (\<lambda>_.
                  issue_session env rq (lc_user c, a, r) (ac_must_change_password a) False))"
  from assms c acc k have "ebind m (\<lambda>accepted. if \<not> accepted then second_step_failed rq (lc_user c, a, r) c k
      else tail) s1 = (Inr ss, s')"
    by (auto simp: login_two_factor_def m_def tail_def cong: if_cong split: if_splits)
  then obtain accepted s2 where m: "m s1 = (Inr accepted, s2)"
    and "(if \<not> accepted then second_step_failed rq (lc_user c, a, r) c k else tail) s2 = (Inr ss, s')"
    by (blast dest: iffD1 [OF ebind_eq_Inr])
  with not_failed have "accepted" and rest: "tail s2 = (Inr ss, s')" by (auto split: if_splits)
  with m have two: "m s1 = (Inr True, s2)" by simp
  from rest that [OF c acc k two [unfolded m_def]] show thesis
    by (auto simp: tail_def ebind_eq_Inr split: if_splits)
qed

text \<open>
  C13. Whoever gets a session at the second step has both factors: the challenge exists, is unspent, not expired and
  younger than the password (so the first step was passed with the password in force), a check is left on it,
  the account is not locked and can sign in, and the code is the authenticator's (for a time
  step not used before) or an unused recovery code of that account. The challenge is spent afterwards, and
  the session's token is that account's and is accepted.
\<close>

theorem second_step_justified:
  assumes "login_two_factor env rq payload s = (Inr ss, s')"
  shows "\<exists>c a r. find_challenge (ev_sha256 env (trim (tf_challenge_token payload))) s = Some c
    \<and> live_challenge c \<and> lc_expires_at c > rq_now rq
    \<and> list_ex (claimable_challenge (rq_now rq) (lc_id c) CHALLENGE_MAX_ATTEMPTS) (va_challenges s)
    \<and> find_account (lc_user c) s = Some (a, r)
    \<and> \<not> is_some_and (ac_password_changed_at a) (\<lambda>t. lc_created_at c < t)
    \<and> locked_until_active (rq_now rq) a = None
    \<and> second_factor_given env rq payload (lc_user c) a s
    \<and> \<not> list_ex (\<lambda>d. lc_id d = lc_id c \<and> live_challenge d) (va_challenges s')
    \<and> cl_sub (ss_token ss) = lc_user c
    \<and> (\<exists>st. check_claims (current_auth_state s') (rq_now rq) (ss_token ss) None = Inr st)"
  using assms
proof (rule login_two_factor_Inr)
  fix c a r k s1 s2 s3 s4
  assume c: "find_challenge (ev_sha256 env (trim (tf_challenge_token payload))) s = Some c"
    and acc: "two_factor_account rq c s = (Inr (lc_user c, a, r), s)"
    and k: "claim_challenge_attempt (rq_now rq) (lc_id c) CHALLENGE_MAX_ATTEMPTS s = (Inr (Some k), s1)"
    and two: "(case (tf_code payload, tf_recovery_code payload) of
        (Some x, _) \<Rightarrow> check_totp env rq (lc_user c, a, r) x
      | (None, Some x) \<Rightarrow> use_recovery_code env rq (lc_user c) x
      | (None, None) \<Rightarrow> eret False) s1 = (Inr True, s2)"
    and used: "consume_challenge (rq_now rq) (lc_id c) s2 = (Inr True, s3)"
    and link: "link_pending rq (lc_user c, a, r) c s3 = (Inr (), s4)"
    and i: "issue_session env rq (lc_user c, a, r) (ac_must_change_password a) False s4 = (Inr ss, s')"
  note a = two_factor_account_Inr [OF acc]
  note claimed = claimed_challenge [OF k]
  have found1: "find_account (lc_user c) s1 = Some (a, r)" using a claimed by (simp add: find_account_def)
  have "second_factor_given env rq payload (lc_user c) a s1"
  proof (cases "tf_code payload")
    case None
    with two obtain x where "tf_recovery_code payload = Some x" by (auto split: option.splits)
    with two None show ?thesis using use_recovery_code_True [OF _ None] by auto
  next
    case (Some x)
    with two show ?thesis using check_totp_True [OF _ found1 Some] by auto
  qed
  moreover have rows: "va_recovery s1 = va_recovery s" using claimed by blast
  ultimately have given: "second_factor_given env rq payload (lc_user c) a s"
    unfolding second_factor_given_def rows by blast
  have door2: "doors_kept s1 s2"
    using two keepsD [OF keeps_check_totp] keepsD [OF keeps_use_recovery_code] by (auto split: option.splits)
  have doors: "doors_kept s s'"
    by (rule doors.onward [OF keepsD [OF keeps_doors_statements(4) k] doors.onward [OF door2
          doors.onward [OF keepsD [OF keeps_doors_statements(5) used]
          doors.onward [OF people_doors [OF keepsD [OF keeps_link_pending link]] keepsD [OF keeps_issue_session i]]]]])
  note token = issue_session_Inr [OF i]
  have spent: "\<not> list_ex (\<lambda>d. lc_id d = lc_id c \<and> live_challenge d) (va_challenges s')"
  proof -
    have "va_challenges s4 = va_challenges s3" using keepsD [OF keeps_link_pending link] by (simp add: people_kept_def)
    moreover have "va_challenges s' = va_challenges s4"
      using i by (auto simp: issue_session_def ensure_sign_in_allowed_def reset_login_failures_def mark_login_def
          update_account_def ebind_eq_Inr split: if_splits option.splits)
    ultimately show ?thesis using challenge_consumed [OF used] by simp
  qed
  have "\<exists>st. check_claims (current_auth_state s') (rq_now rq) (ss_token ss) None = Inr st"
    using token token_accepted [OF _ _ doors] a by simp
  then show ?thesis
    using c a claimed given spent token by (intro exI [of _ c] exI [of _ a] exI [of _ r]) (simp add: build_claims_def)
qed

definition two_step_vault :: vault where
  "two_step_vault = test_vault
     \<lparr>va_accounts := [(1, test_account\<lparr>ac_totp_secret_enc := Some ''k'', ac_totp_enabled_at := Some 0\<rparr>)],
      va_challenges := [\<lparr>lc_id = 3, lc_user = 1, lc_token_hash = ''t'', lc_method = ''password'', lc_attempts = 0,
        lc_expires_at = minutes 5, lc_consumed_at = None, lc_pending_link = None, lc_created_at = 0\<rparr>]\<rparr>"

theorem second_step_justified_witness:
  "\<exists>ss s'. login_two_factor test_env (rq_recover 5)
       \<lparr>tf_challenge_token = ''t'', tf_code = Some ''000000'', tf_recovery_code = None\<rparr> two_step_vault = (Inr ss, s')
     \<and> \<not> list_ex (\<lambda>d. lc_id d = 3 \<and> live_challenge d) (va_challenges s')"
proof -
  let ?p = "\<lparr>tf_challenge_token = ''t'', tf_code = Some ''000000'', tf_recovery_code = None\<rparr>"
  have "\<not> isl (fst (login_two_factor test_env (rq_recover 5) ?p two_step_vault))" by code_simp
  then obtain ss s' where l: "login_two_factor test_env (rq_recover 5) ?p two_step_vault = (Inr ss, s')"
    by (cases "login_two_factor test_env (rq_recover 5) ?p two_step_vault"; cases "fst (login_two_factor test_env (rq_recover 5) ?p two_step_vault)") auto
  have "map_option lc_id (find_challenge (ev_sha256 test_env (trim (tf_challenge_token ?p))) two_step_vault) = Some 3"
    by code_simp
  with second_step_justified [OF l] l show ?thesis by auto
qed

end
