(* ===== verification/Spec2Isabelle.thy ===== *)
theory Spec2Isabelle
  imports ChordProLaws SetlistRun StripeLaws PaymentLaws Totp ClientAddress OutboxLaws SignInLaws
begin

text \<open>
  The Setlyst API, a Rust service for musicians (songs, setlists, bands, gigs, paid plans),
  modelled and verified. Sources are under \<^verbatim>\<open>src/src\<close>.

  \<^bold>\<open>Layout.\<close> \<open>Prelude\<close> holds the types shared by every component (results as \<open>error + value\<close>, JSON
  values, times as microseconds, checked text), the proof collections and the generic lemmas
  on lists, options and results. On it stand two independent parts.

  \<^item> The music part: \<open>Chords\<close> (chord symbols, inline chords, chord lines and whole charts,
    \<^verbatim>\<open>export/pdf.rs\<close>), \<open>Transpose\<close> (keys and transposition of chords, chord lines and charts,
    \<^verbatim>\<open>music/transpose.rs\<close>) and \<open>ChordPro\<close> (the importer and the exporter of
    \<^verbatim>\<open>import/chordpro.rs\<close> and \<^verbatim>\<open>export/chordpro.rs\<close>); \<open>ChordProText\<close> holds the laws of the texts they read and write,
    \<open>ChordProLaws\<close> the invariant of the importer and the properties.
  \<^item> The account part: \<open>Errors\<close> (the API error type and its HTTP answer, \<^verbatim>\<open>errors/\<close>), \<open>Auth\<close>
    (tokens, the authentication middleware, "view as" sessions, \<^verbatim>\<open>middlewares/authentication.rs\<close>,
    \<^verbatim>\<open>models/auth\<close>, \<^verbatim>\<open>models/user.rs\<close>), \<open>Quotas\<close> and \<open>Plans\<close> (the data models of
    \<^verbatim>\<open>models/quota.rs\<close> and \<^verbatim>\<open>models/billing.rs\<close> with their validation), \<open>Store\<close> (the billing tables
    as a record \<open>db\<close>, one field per table, with the reads and writes the services share),
    \<open>Subscriptions\<close>, \<open>Credits\<close> and \<open>Maintenance\<close> (the services of \<^verbatim>\<open>services/billing.rs\<close>),
    \<open>Content\<close> (the content tables as the record \<open>platform\<close>, which contains \<open>db\<close>),
    \<open>Entitlements\<close> (\<^verbatim>\<open>services/entitlements.rs\<close>) and \<open>QuotaGuards\<close>
    (\<^verbatim>\<open>database/repositories/quota_repository.rs\<close>). \<open>SubscriptionLaws\<close>, \<open>CreditLaws\<close> and
    \<open>ReferralLaws\<close> hold the lemmas and properties of the operations, \<open>BillingRun\<close> the step relation
    over all of billing and its invariant.
  \<^item> The setlist part: \<open>Links\<close> (\<^verbatim>\<open>validations/link.rs\<close>, \<^verbatim>\<open>models/link.rs\<close>), \<open>Setlists\<close> (what
    \<^verbatim>\<open>database/repositories/setlist_repository.rs\<close> reads and writes: the running order of songs,
    held songs, blocks and breaks, permissions, limits, public links) and \<open>SetlistApi\<close> (the
    handlers of \<^verbatim>\<open>controllers/setlist.rs\<close>, each the sequence of its checks and transactions).
    \<open>SetlistOrder\<close> holds the laws of the running order, \<open>SetlistLaws\<close> those of permissions, limits
    and sharing, \<open>SetlistRun\<close> the step relation over all requests and its invariant.

  \<^bold>\<open>How code becomes definitions.\<close> A database operation is a function from the tables to an error or
  the answer with the new tables; a failed transaction leaves the tables as they were, so its
  value is the error alone. Each SQL statement is written out over the rows it selects; columns
  no modelled operation reads are left out. Statements outside a transaction keep their effect
  when a later one fails, as in \<open>expire_and_remind\<close>. The clock is an argument \<open>now\<close> of every
  operation, the start of the month (\<open>date_trunc\<close>) and the check of a token's signature are
  parameters. Integers stored in the database carry the bound of their column and going over
  it is the database error PostgreSQL reports.

  \<^bold>\<open>Interfaces.\<close> Locales state what several operations have in common or what one component relies on
  in another: \<open>account_book\<close> (the credit ledger), \<open>subscription_op\<close> and \<open>complimentary_op\<close> (the contracts of the granting
  operations, in \<open>SubscriptionLaws\<close>), \<open>hierarchy\<close> (who outranks whom), \<open>transposable\<close> (what every transposition shares), \<open>referral_op\<close> (an operation that moves referrals along their
  state machine and keeps the books), \<open>reminder\<close> (a reminder stamps the rows it is sent for).
  Each is interpreted on the model's own operations.

  \<^bold>\<open>What is shown.\<close> Subscriptions: no grant, code, reward or trial disturbs a paid subscription in
  effect, the mirror of the payment provider is idempotent and never steals a subscription, a
  staff grant replaced by a purchase comes back. Credits and referrals: every payment is made
  once, from a balance that covers it, and is taken back in full. Billing as a whole: the
  invariant \<open>billing_ok\<close> holds along every sequence of operations (\<open>billing_step\<close>). Accounts: what
  lets a request reach a handler, what a "view as" session may do, which features and limits an
  account has. Setlists: who may do what, the running order after each change, item limits under
  any interleaving of requests, what a public link shows, and the invariant \<open>setlists_ok\<close> along
  every sequence of requests (\<open>setlist_step\<close>). Links: what is stored stays on the supported
  providers' domains and survives being stored again. Music: transposing by \<open>n\<close> semitones moves every note by exactly \<open>n\<close>, parsing a
  chart is lossless, whatever is imported respects the limits of a song, and an exported song
  is imported back unchanged.

  \<^bold>\<open>Termination.\<close> Every definition is a total function; the parsers of charts recurse on the
  remaining text with the measures given beside them and need no fuel.

  \<^bold>\<open>Not modelled.\<close> The HTTP client of the payment provider, e-mail delivery, PDF drawing and the
  start-up code are input and output; the reconciliation with the provider, the accounts
  service, the copies of setlists and of band songs, and the SQL of
  the remaining repositories are left for later extensions. The parser of URLs (the crate
  \<open>url\<close>) is a parameter of \<open>Links\<close>; its documented behaviour is a hypothesis where a
  property needs it, as is that of the composition of characters (\<open>unicode_normalization\<close>),
  a parameter of \<open>ChordPro\<close> that leaves Latin-1 text as it is. Listing queries that only format rows are left out.
\<close>

end
